(* ===== verification/Prelude.thy ===== *)
theory Prelude
  imports Complex_Main "HOL-Library.AList"
begin

text \<open>
  Shared vocabulary of the development.

  A Go panic is a value of \<open>gopanic\<close>; a call that may panic has type \<open>'a res\<close>
  (\<open>Inl\<close> the panic, \<open>Inr\<close> the result) and is sequenced with \<open>rbind\<close>.
  \<open>PanicErr\<close> carries an \<open>error\<close> value and \<open>PanicStr\<close> a string, as \<open>Logger.Panicf\<close> raises it;
  \<open>StackOverflow\<close> and \<open>FatalError\<close> end the process.
  A Go map is an association list with distinct keys (\<open>wfmap\<close>); its order is the order in
  which a \<open>range\<close> loop visits the entries, so that a theorem about an arbitrary list is a
  theorem about every iteration order. Go strings are byte sequences (\<open>string\<close>).
  The second half holds what the code uses of the \<open>strings\<close> and \<open>strconv\<close> packages, with
  white space and letter case restricted to ASCII.
\<close>

section \<open>Proof collections\<close>

named_theorems res_simps "rewrite rules for computations that may panic"
named_theorems str_simps "rewrite rules for the string functions of the Go library"

section \<open>Panics as values\<close>

datatype gopanic =
    IndexOutOfRange
  | TypeAssertion
  | NilMapWrite
  | NilDereference
  | ReflectPanic
  | PanicErr string
  | PanicStr string
  | ExternalPanic string
  | StackOverflow
  | FatalError string

type_synonym 'a res = "gopanic + 'a"

definition rbind :: "'a res \<Rightarrow> ('a \<Rightarrow> 'b res) \<Rightarrow> 'b res" where
  "rbind m f = (case m of Inl e \<Rightarrow> Inl e | Inr x \<Rightarrow> f x)"

definition rmap :: "('a \<Rightarrow> 'b) \<Rightarrow> 'a res \<Rightarrow> 'b res" where
  "rmap f m = rbind m (\<lambda>x. Inr (f x))"

definition ok :: "'a res \<Rightarrow> bool" where
  "ok m = (case m of Inl _ \<Rightarrow> False | Inr _ \<Rightarrow> True)"

lemma rbind_simps [simp, res_simps]:
  "rbind (Inl e) f = Inl e"
  "rbind (Inr x) f = f x"
  by (simp_all add: rbind_def)

lemma rmap_simps [simp, res_simps]:
  "rmap f (Inl e) = Inl e"
  "rmap f (Inr x) = Inr (f x)"
  by (simp_all add: rmap_def)

lemma ok_simps [simp, res_simps]: "\<not> ok (Inl e)" "ok (Inr x)"
  by (simp_all add: ok_def)

lemma ok_conv: "ok m \<longleftrightarrow> (\<exists>x. m = Inr x)"
  by (cases m) simp_all

lemma rbind_Inr_conv: "rbind m f = Inr y \<longleftrightarrow> (\<exists>x. m = Inr x \<and> f x = Inr y)"
  by (cases m) simp_all

lemma rbind_Inl_conv:
  "rbind m f = Inl e \<longleftrightarrow> m = Inl e \<or> (\<exists>x. m = Inr x \<and> f x = Inl e)"
  by (cases m) simp_all

lemma rbind_cong [fundef_cong]:
  "m = m' \<Longrightarrow> (\<And>x. m' = Inr x \<Longrightarrow> f x = f' x) \<Longrightarrow> rbind m f = rbind m' f'"
  by (cases m') simp_all

lemma rbind_assoc: "rbind (rbind m f) g = rbind m (\<lambda>x. rbind (f x) g)"
  by (cases m) simp_all

lemma rbind_Inr_right [simp]: "rbind m Inr = m"
  by (cases m) simp_all

text \<open>A \<open>for\<close> loop whose body may panic, collecting the results.\<close>

fun rmapM :: "('a \<Rightarrow> 'b res) \<Rightarrow> 'a list \<Rightarrow> 'b list res" where
  "rmapM f [] = Inr []"
| "rmapM f (x # xs) = rbind (f x) (\<lambda>y. rbind (rmapM f xs) (\<lambda>ys. Inr (y # ys)))"

lemma rmapM_length: "rmapM f xs = Inr ys \<Longrightarrow> length ys = length xs"
  by (induction xs arbitrary: ys) (auto simp: rbind_Inr_conv)

lemma rmapM_nth:
  "rmapM f xs = Inr ys \<Longrightarrow> i < length xs \<Longrightarrow> f (xs ! i) = Inr (ys ! i)"
proof (induction xs arbitrary: ys i)
  case Nil
  then show ?case by simp
next
  case (Cons x xs)
  then show ?case by (cases i) (auto simp: rbind_Inr_conv)
qed

lemma rmapM_cong [fundef_cong]:
  "xs = ys \<Longrightarrow> (\<And>x. x \<in> set ys \<Longrightarrow> f x = g x) \<Longrightarrow> rmapM f xs = rmapM g ys"
  by (induction ys arbitrary: xs) auto

lemma rmapM_ok: "(\<forall>x \<in> set xs. ok (f x)) \<Longrightarrow> ok (rmapM f xs)"
  by (induction xs) (auto simp: ok_conv)

section \<open>Go maps as association lists\<close>

type_synonym ('k, 'v) gomap = "('k \<times> 'v) list"

definition wfmap :: "('k, 'v) gomap \<Rightarrow> bool" where
  "wfmap m \<longleftrightarrow> distinct (map fst m)"

abbreviation mput :: "'k \<Rightarrow> 'v \<Rightarrow> ('k, 'v) gomap \<Rightarrow> ('k, 'v) gomap" where
  "mput \<equiv> AList.update"

abbreviation mdel :: "'k \<Rightarrow> ('k, 'v) gomap \<Rightarrow> ('k, 'v) gomap" where
  "mdel \<equiv> AList.delete"

text \<open>Reading a missing key of a \<open>map[string]string\<close> gives the empty string.\<close>

definition mget_str :: "('k, string) gomap \<Rightarrow> 'k \<Rightarrow> string" where
  "mget_str m k = (case map_of m k of None \<Rightarrow> [] | Some v \<Rightarrow> v)"

lemma wfmap_Nil [simp]: "wfmap []"
  by (simp add: wfmap_def)

lemma wfmap_mput [simp]: "wfmap m \<Longrightarrow> wfmap (mput k v m)"
  by (simp add: wfmap_def distinct_update)

lemma wfmap_mdel [simp]: "wfmap m \<Longrightarrow> wfmap (mdel k m)"
  by (simp add: wfmap_def distinct_delete)

lemma map_of_mput [simp]: "map_of (mput k v m) k' = (if k' = k then Some v else map_of m k')"
  by (simp add: update_conv')

lemma map_of_mdel [simp]: "map_of (mdel k m) k' = (if k' = k then None else map_of m k')"
  by (simp add: delete_conv')

lemma mget_str_mput [simp]: "mget_str (mput k v m) k' = (if k' = k then v else mget_str m k')"
  by (simp add: mget_str_def)

lemma mget_str_mdel [simp]: "mget_str (mdel k m) k' = (if k' = k then [] else mget_str m k')"
  by (simp add: mget_str_def)

lemma wfmap_map_of_eq:
  assumes "wfmap m" and "wfmap n" and "map_of m = map_of n"
  shows "set m = set n"
  using assms by (metis map_of_inject_set wfmap_def)

section \<open>The \<open>strings\<close> package\<close>

definition has_prefix :: "string \<Rightarrow> string \<Rightarrow> bool" where
  "has_prefix s p \<longleftrightarrow> take (length p) s = p"

definition trim_prefix :: "string \<Rightarrow> string \<Rightarrow> string" where
  "trim_prefix s p = (if has_prefix s p then drop (length p) s else s)"

definition has_suffix :: "string \<Rightarrow> string \<Rightarrow> bool" where
  "has_suffix s p \<longleftrightarrow> has_prefix (rev s) (rev p)"

fun contains :: "string \<Rightarrow> string \<Rightarrow> bool" where
  "contains [] p \<longleftrightarrow> p = []"
| "contains (c # s) p \<longleftrightarrow> has_prefix (c # s) p \<or> contains s p"

text \<open>\<open>strings.Split\<close> with a one-byte separator: always at least one field.\<close>

fun split_on :: "char \<Rightarrow> string \<Rightarrow> string list" where
  "split_on c [] = [[]]"
| "split_on c (x # xs) =
     (if x = c then [] # split_on c xs
      else (case split_on c xs of [] \<Rightarrow> [[x]] | f # fs \<Rightarrow> (x # f) # fs))"

fun join_on :: "char \<Rightarrow> string list \<Rightarrow> string" where
  "join_on c [] = []"
| "join_on c [f] = f"
| "join_on c (f # fs) = f @ c # join_on c fs"

text \<open>\<open>strings.IndexAny\<close>: the position of the first byte of \<open>cs\<close>, if there is one.\<close>

fun index_any :: "char list \<Rightarrow> string \<Rightarrow> nat option" where
  "index_any cs [] = None"
| "index_any cs (x # xs) = (if x \<in> set cs then Some 0 else map_option Suc (index_any cs xs))"

definition is_space :: "char \<Rightarrow> bool" where
  "is_space c \<longleftrightarrow> of_char c \<in> {9, 10, 11, 12, 13, 32 :: nat}"

definition trim_space :: "string \<Rightarrow> string" where
  "trim_space s = rev (dropWhile is_space (rev (dropWhile is_space s)))"

definition lower_char :: "char \<Rightarrow> char" where
  "lower_char c = (let n = of_char c :: nat in if 65 \<le> n \<and> n \<le> 90 then char_of (n + 32) else c)"

definition to_lower :: "string \<Rightarrow> string" where
  "to_lower = map lower_char"

lemma has_prefix_append [simp]: "has_prefix (p @ s) p"
  by (simp add: has_prefix_def)

lemma has_prefix_conv: "has_prefix s p \<longleftrightarrow> (\<exists>t. s = p @ t)"
  by (auto simp: has_prefix_def) (metis append_take_drop_id)

lemma trim_prefix_append [simp]: "trim_prefix (p @ s) p = s"
  by (simp add: trim_prefix_def)

lemma split_on_nonempty [simp]: "split_on c s \<noteq> []"
  by (cases s) (auto split: list.splits)

lemma join_on_Cons: "fs \<noteq> [] \<Longrightarrow> join_on c (f # fs) = f @ c # join_on c fs"
  by (cases fs) simp_all

lemma join_split [simp]: "join_on c (split_on c s) = s"
proof (induction s)
  case Nil
  show ?case by simp
next
  case (Cons x s)
  then show ?case
    by (cases "split_on c s") (auto simp: join_on_Cons split: list.splits, cases "tl (split_on c s)", auto)
qed

lemma split_on_no_sep: "c \<notin> set s \<Longrightarrow> split_on c s = [s]"
  by (induction s) auto

lemma split_on_append: "split_on c (p @ c # q) = split_on c p @ split_on c q"
proof (induction p)
  case Nil
  show ?case by simp
next
  case (Cons x p)
  then show ?case by (cases "split_on c p") (auto split: list.splits)
qed

lemma split_on_append_sep: "c \<notin> set f \<Longrightarrow> split_on c (f @ c # s) = f # split_on c s"
  by (induction f) auto

lemma split_join:
  "fs \<noteq> [] \<Longrightarrow> \<forall>f \<in> set fs. c \<notin> set f \<Longrightarrow> split_on c (join_on c fs) = fs"
proof (induction fs)
  case Nil
  then show ?case by simp
next
  case (Cons f fs)
  then show ?case
    by (cases fs) (auto simp: join_on_Cons split_on_no_sep split_on_append_sep)
qed

section \<open>The \<open>strconv\<close> package\<close>

definition digit_char :: "nat \<Rightarrow> char" where
  "digit_char d = char_of (48 + d)"

definition is_digit :: "char \<Rightarrow> bool" where
  "is_digit c \<longleftrightarrow> 48 \<le> (of_char c :: nat) \<and> (of_char c :: nat) \<le> 57"

definition digit_val :: "char \<Rightarrow> nat" where
  "digit_val c = of_char c - 48"

fun utoa :: "nat \<Rightarrow> string" where
  "utoa n = (if n < 10 then [digit_char n] else utoa (n div 10) @ [digit_char (n mod 10)])"

declare utoa.simps [simp del]

definition itoa :: "int \<Rightarrow> string" where
  "itoa i = (if i < 0 then CHR ''-'' # utoa (nat (- i)) else utoa (nat i))"

definition digits_val :: "string \<Rightarrow> nat" where
  "digits_val s = foldl (\<lambda>a c. 10 * a + digit_val c) 0 s"

definition parse_nat :: "string \<Rightarrow> nat option" where
  "parse_nat s = (if s \<noteq> [] \<and> list_all is_digit s then Some (digits_val s) else None)"

text \<open>Values of Go's 64-bit \<open>int\<close>.\<close>

definition in_int64 :: "int \<Rightarrow> bool" where
  "in_int64 i \<longleftrightarrow> - (2 ^ 63) \<le> i \<and> i < 2 ^ 63"

definition check_int64 :: "int \<Rightarrow> int option" where
  "check_int64 i = (if in_int64 i then Some i else None)"

text \<open>\<open>strconv.Atoi\<close>: an optional sign, decimal digits, \<open>None\<close> for either kind of error.\<close>

definition atoi :: "string \<Rightarrow> int option" where
  "atoi s = (case s of
      [] \<Rightarrow> None
    | c # cs \<Rightarrow>
        if c = CHR ''-'' then Option.bind (parse_nat cs) (\<lambda>n. check_int64 (- int n))
        else if c = CHR ''+'' then Option.bind (parse_nat cs) (\<lambda>n. check_int64 (int n))
        else Option.bind (parse_nat s) (\<lambda>n. check_int64 (int n)))"

lemma digit_char_props:
  assumes "d < 10"
  shows "is_digit (digit_char d)" and "digit_val (digit_char d) = d"
proof -
  from assms have "of_char (digit_char d) = (48 + d :: nat)"
    by (simp add: digit_char_def)
  then show "is_digit (digit_char d)" and "digit_val (digit_char d) = d"
    using assms by (simp_all add: is_digit_def digit_val_def)
qed

lemma utoa_digits: "list_all is_digit (utoa n)"
proof (induction n rule: utoa.induct)
  case (1 n)
  then show ?case
    by (subst utoa.simps) (simp add: digit_char_props)
qed

lemma utoa_nonempty [simp]: "utoa n \<noteq> []"
  by (subst utoa.simps) simp

lemma digits_val_utoa: "digits_val (utoa n) = n"
proof (induction n rule: utoa.induct)
  case (1 n)
  show ?case
  proof (cases "n < 10")
    case True
    then show ?thesis by (simp add: utoa.simps [of n] digits_val_def digit_char_props)
  next
    case False
    with 1 have "digits_val (utoa (n div 10)) = n div 10" by simp
    with False show ?thesis
      by (simp add: utoa.simps [of n] digits_val_def digit_char_props)
  qed
qed

lemma parse_nat_utoa [simp]: "parse_nat (utoa n) = Some n"
  by (simp add: parse_nat_def utoa_digits digits_val_utoa)

lemma utoa_inject [simp]: "utoa m = utoa n \<longleftrightarrow> m = n"
  by (metis parse_nat_utoa option.inject)

lemma is_digit_not_sign: "is_digit c \<Longrightarrow> c \<noteq> CHR ''-'' \<and> c \<noteq> CHR ''+''"
  by (auto simp: is_digit_def)

lemma utoa_hd: "\<exists>c cs. utoa n = c # cs \<and> is_digit c"
  using utoa_digits [of n] by (cases "utoa n") auto

lemma atoi_itoa: "in_int64 i \<Longrightarrow> atoi (itoa i) = Some i"
proof -
  assume i: "in_int64 i"
  obtain c cs where u: "utoa (nat i) = c # cs" "is_digit c" using utoa_hd by blast
  from u(2) have "c \<noteq> CHR ''-''" "c \<noteq> CHR ''+''" by (simp_all add: is_digit_not_sign)
  with i u(1) parse_nat_utoa [of "nat i"] show ?thesis
    by (auto simp: atoi_def itoa_def check_int64_def)
qed

lemma itoa_inject [simp]: "itoa i = itoa j \<longleftrightarrow> i = j"
proof
  assume eq: "itoa i = itoa j"
  have sign: "hd (itoa k) = CHR ''-'' \<longleftrightarrow> k < 0" for k
    using utoa_hd [of "nat k"] by (auto simp: itoa_def is_digit_not_sign)
  from eq have "i < 0 \<longleftrightarrow> j < 0" using sign [of i] sign [of j] by simp
  with eq show "i = j" by (auto simp: itoa_def split: if_splits)
qed simp

section \<open>Actions that keep their state when they panic\<close>

type_synonym 's act = "'s \<Rightarrow> 's \<times> gopanic option"

definition lskip :: "'s act" where
  "lskip st = (st, None)"

definition lpanic :: "gopanic \<Rightarrow> 's act" where
  "lpanic e st = (st, Some e)"

definition lseq :: "'s act \<Rightarrow> 's act \<Rightarrow> 's act" where
  "lseq a b st = (case a st of (st', None) \<Rightarrow> b st' | r \<Rightarrow> r)"

definition lget :: "'a res \<Rightarrow> ('a \<Rightarrow> 's act) \<Rightarrow> 's act" where
  "lget m k st = (case m of Inl e \<Rightarrow> (st, Some e) | Inr x \<Rightarrow> k x st)"

text \<open>A \<open>for\<close> loop that a panic ends, and one whose body runs in goroutines that recover.\<close>

fun load_each :: "('a \<Rightarrow> 's act) \<Rightarrow> 'a list \<Rightarrow> 's act" where
  "load_each f [] st = (st, None)"
| "load_each f (x # xs) st = lseq (f x) (load_each f xs) st"

definition lcatch :: "'s act \<Rightarrow> 's \<Rightarrow> 's" where
  "lcatch a st = fst (a st)"

text \<open>Nothing can catch an overflow of the stack or the end of the process.\<close>

definition fatal :: "gopanic \<Rightarrow> bool" where
  "fatal e = (case e of StackOverflow \<Rightarrow> True | FatalError _ \<Rightarrow> True | _ \<Rightarrow> False)"

lemma lseq_panic [simp]: "snd (a st) = Some e \<Longrightarrow> snd (lseq a b st) = Some e"
  by (auto simp: lseq_def split: prod.split)

lemma lseq_skip [simp]: "lseq lskip b st = b st"
  by (simp add: lseq_def lskip_def)

lemma lget_simps [simp]: "lget (Inr x) k st = k x st" "lget (Inl e) k st = (st, Some e)"
  by (simp_all add: lget_def)

lemma load_each_first [simp]: "snd (f x st) = Some e \<Longrightarrow> snd (load_each f (x # xs) st) = Some e"
  by simp

section \<open>Systems of steps\<close>

text \<open>
  A system of steps with an invariant: it holds in the initial states and every step keeps it, so it
  holds in every state that can be reached.
\<close>

locale step_system =
  fixes init :: "'s \<Rightarrow> bool" and step :: "'s \<Rightarrow> 's \<Rightarrow> bool" and inv :: "'s \<Rightarrow> bool"
  assumes inv_init: "init s \<Longrightarrow> inv s" and inv_step: "inv s \<Longrightarrow> step s s' \<Longrightarrow> inv s'"
begin

lemma keeps_inv: "step\<^sup>*\<^sup>* s s' \<Longrightarrow> inv s \<Longrightarrow> inv s'"
  by (induction rule: rtranclp_induct) (auto intro: inv_step)

lemma invariant: "step\<^sup>*\<^sup>* s s' \<Longrightarrow> init s \<Longrightarrow> inv s'"
  by (rule keeps_inv [OF _ inv_init])

end

text \<open>
  A system of steps that refines another one: each step, from a state in which the invariant holds, is
  a step of the other system on the abstract states or leaves the abstract state as it is.
\<close>

locale simulation = step_system init step inv
  for init :: "'s \<Rightarrow> bool" and step :: "'s \<Rightarrow> 's \<Rightarrow> bool" and inv :: "'s \<Rightarrow> bool" +
  fixes ainit :: "'a \<Rightarrow> bool" and astep :: "'a \<Rightarrow> 'a \<Rightarrow> bool" and abstr :: "'s \<Rightarrow> 'a"
  assumes abs_init: "init s \<Longrightarrow> ainit (abstr s)"
    and abs_step: "inv s \<Longrightarrow> step s s' \<Longrightarrow> astep (abstr s) (abstr s') \<or> abstr s' = abstr s"
begin

lemma refines: "step\<^sup>*\<^sup>* s s' \<Longrightarrow> init s \<Longrightarrow> astep\<^sup>*\<^sup>* (abstr s) (abstr s')"
proof (induction rule: rtranclp_induct)
  case (step s1 s2)
  with abs_step [OF invariant [OF step.hyps(1) step.prems] step.hyps(2)] show ?case
    by (auto intro: rtranclp.rtrancl_into_rtrancl)
qed simp

text \<open>What holds of every run of the abstract system holds of the abstract states of a run.\<close>

lemma transfer:
  "step\<^sup>*\<^sup>* s s' \<Longrightarrow> init s \<Longrightarrow> (\<And>a a'. ainit a \<Longrightarrow> astep\<^sup>*\<^sup>* a a' \<Longrightarrow> P a') \<Longrightarrow> P (abstr s')"
  using refines abs_init by blast

end

end
