(* ===== verification/Value.thy ===== *)
theory Value
  imports Prelude "HOL-Library.Char_ord" "HOL-Library.List_Lexorder"
begin

text \<open>
  The dynamically typed data of the program: every \<open>interface{}\<close> value that flows through
  events, contexts, parameters and options, as the trees that JSON and YAML decoding and
  \<open>DeepCopy\<close> build (no sharing between subtrees).
  \<open>GMap\<close> stands for any map with string keys, \<open>GList\<close> for \<open>[]interface{}\<close>, \<open>GInt\<close> for
  \<open>int\<close> and \<open>int64\<close>, \<open>GFloat\<close> for finite \<open>float64\<close> values, \<open>GRegex\<close> for a compiled
  \<open>*regexp.Regexp\<close> with its pattern.

  \<open>ext\<close> collects the code that is not part of the repository and that the definitions take as
  an argument: the template engine with its function library, the YAML reader, \<open>mergo\<close>, the
  regular expression engine, JSON and base64 coding, durations and float formatting.
\<close>

section \<open>Values\<close>

datatype gval =
    GNil
  | GBool bool
  | GInt int
  | GFloat rat
  | GStr string
  | GRegex string
  | GList "gval list"
  | GMap "(string \<times> gval) list"

type_synonym gmap = "(string \<times> gval) list"

fun as_map :: "gval \<Rightarrow> gmap option" where
  "as_map (GMap m) = Some m"
| "as_map _ = None"

fun as_str :: "gval \<Rightarrow> string option" where
  "as_str (GStr s) = Some s"
| "as_str _ = None"

fun as_list :: "gval \<Rightarrow> gval list option" where
  "as_list (GList xs) = Some xs"
| "as_list _ = None"

text \<open>A type assertion without the comma-ok form panics when the dynamic type differs.\<close>

definition assert_type :: "'a option \<Rightarrow> 'a res" where
  "assert_type x = (case x of None \<Rightarrow> Inl TypeAssertion | Some v \<Rightarrow> Inr v)"

lemma assert_type_simps [simp, res_simps]:
  "assert_type None = Inl TypeAssertion"
  "assert_type (Some v) = Inr v"
  by (simp_all add: assert_type_def)

text \<open>Every map in a value has distinct keys.\<close>

fun wfval :: "gval \<Rightarrow> bool" and wfvals :: "gval list \<Rightarrow> bool" and wffields :: "gmap \<Rightarrow> bool" where
  "wfval (GList xs) = wfvals xs"
| "wfval (GMap m) = (wfmap m \<and> wffields m)"
| "wfval _ = True"
| "wfvals [] = True"
| "wfvals (v # vs) = (wfval v \<and> wfvals vs)"
| "wffields [] = True"
| "wffields ((k, v) # m) = (wfval v \<and> wffields m)"

lemma wfvals_iff: "wfvals vs \<longleftrightarrow> (\<forall>v \<in> set vs. wfval v)"
  by (induction vs) auto

lemma wffields_iff: "wffields m \<longleftrightarrow> (\<forall>(k, v) \<in> set m. wfval v)"
  by (induction m) auto

lemma wffields_map_of: "wffields m \<Longrightarrow> map_of m k = Some v \<Longrightarrow> wfval v"
  by (auto simp: wffields_iff dest: map_of_SomeD)

text \<open>How deep the maps of a value nest; lists are leaves for \<open>mergeModifier\<close>.\<close>

fun gdepth :: "gval \<Rightarrow> nat" and gdepth_fields :: "gmap \<Rightarrow> nat" where
  "gdepth (GMap m) = Suc (gdepth_fields m)"
| "gdepth _ = 0"
| "gdepth_fields [] = 0"
| "gdepth_fields ((k, v) # m) = max (gdepth v) (gdepth_fields m)"

lemma gdepth_fields_le: "gdepth_fields m \<le> d \<longleftrightarrow> (\<forall>(k, v) \<in> set m. gdepth v \<le> d)"
  by (induction m) auto

lemma size_list_elem [simp]: "v \<in> set vs \<Longrightarrow> size v < Suc (size_list size vs)" for v :: gval
  using size_list_estimation' [of v vs "size v" size] by simp

lemma size_field [simp]:
  "(k, v) \<in> set m \<Longrightarrow> size v < Suc (size_list (size_prod (\<lambda>_. 0) size) m)" for v :: gval
  using size_list_estimation' [of "(k, v)" m "size v" "size_prod (\<lambda>_. 0) size"] by simp

lemma size_map_of:
  "map_of m k = Some v \<Longrightarrow> size v < Suc (size_list (size_prod (\<lambda>_. 0) size) m)" for v :: gval
  by (rule size_field [OF map_of_SomeD])

section \<open>External code\<close>

text \<open>
  Executing a template either fills the output buffer or, through the function \<open>return\<close> that
  \<open>InterpolateGoTemplate\<close> registers, hands back a value.
\<close>

datatype tmpl_out = TBuf string | TRet gval

record ext =
  ext_template :: "bool \<Rightarrow> string \<Rightarrow> gval \<Rightarrow> tmpl_out res"
  ext_yaml :: "string \<Rightarrow> gval res"
  ext_mergo :: "gmap \<Rightarrow> gval \<Rightarrow> gmap res"
  ext_mergo_append :: "gmap \<Rightarrow> gval \<Rightarrow> gmap res"
  ext_re_valid :: "string \<Rightarrow> bool"
  ext_re_match :: "string \<Rightarrow> string \<Rightarrow> bool"
  ext_json_marshal :: "gval \<Rightarrow> string res"
  ext_json_bytes :: "string \<Rightarrow> string"
  ext_json_unmarshal :: "string \<Rightarrow> gval res"
  ext_base64 :: "string \<Rightarrow> string option"
  ext_parse_duration :: "string \<Rightarrow> int option"
  ext_fmt_float :: "rat \<Rightarrow> string"

text \<open>An instance on which the witnesses of the properties evaluate.\<close>

definition no_ext :: ext where
  "no_ext = \<lparr>ext_template = (\<lambda>_ s _. Inr (TBuf s)), ext_yaml = (\<lambda>s. Inr (GStr s)),
     ext_mergo = (\<lambda>d _. Inr d), ext_mergo_append = (\<lambda>d _. Inr d), ext_re_valid = (\<lambda>_. True),
     ext_re_match = (\<lambda>p s. p = s),
     ext_json_marshal = (\<lambda>v. case v of GStr s \<Rightarrow> Inr s | _ \<Rightarrow> Inr ''{}''), ext_json_bytes = id,
     ext_json_unmarshal = (\<lambda>s. Inr (GStr s)), ext_base64 = Some, ext_parse_duration = (\<lambda>_. None),
     ext_fmt_float = (\<lambda>_. [])\<rparr>"

section \<open>Formatting with \<open>%+v\<close>\<close>

text \<open>
  \<open>fmt\<close> prints a string as it is, maps with their keys sorted, and a compiled expression
  through its \<open>String\<close> method.
\<close>

fun fmt_v :: "ext \<Rightarrow> gval \<Rightarrow> string"
  and fmt_vs :: "ext \<Rightarrow> gval list \<Rightarrow> string list"
  and fmt_fields :: "ext \<Rightarrow> gmap \<Rightarrow> (string \<times> string) list" where
  "fmt_v X GNil = ''<nil>''"
| "fmt_v X (GBool b) = (if b then ''true'' else ''false'')"
| "fmt_v X (GInt i) = itoa i"
| "fmt_v X (GFloat r) = ext_fmt_float X r"
| "fmt_v X (GStr s) = s"
| "fmt_v X (GRegex p) = p"
| "fmt_v X (GList xs) = ''['' @ join_on CHR '' '' (fmt_vs X xs) @ '']''"
| "fmt_v X (GMap m) =
     ''map['' @ join_on CHR '' '' (map (\<lambda>(k, s). k @ '':'' @ s) (sort_key fst (fmt_fields X m))) @ '']''"
| "fmt_vs X [] = []"
| "fmt_vs X (v # vs) = fmt_v X v # fmt_vs X vs"
| "fmt_fields X [] = []"
| "fmt_fields X ((k, v) # m) = (k, fmt_v X v) # fmt_fields X m"

end
