(* ===== verification/IDMap.thy ===== *)
theory IDMap
  imports Value
begin

text \<open>
  The ID map of \<open>pkg/dipper/idmap.go\<close>: a map whose keys are small decimal numbers handed out by
  a counter that wraps around at \<open>MaxID\<close>. The RPC caller keeps its pending calls in one and the
  workflow engine its running sessions. The search for a free key runs under the map's lock and
  does not end when every key is taken, so it is a \<open>partial_function\<close>: \<open>None\<close> is "does not
  return".

  \<open>id_store\<close> is the contract the users of the map rely on; it is interpreted on the code's own
  operations at the end of the theory.
\<close>

section \<open>Operations\<close>

definition MaxID :: nat where
  "MaxID = 13684"

record 'v idmap =
  entries :: "(string \<times> 'v) list"
  Counter :: nat

definition InitIDMap :: "'v idmap" where
  "InitIDMap = \<lparr>entries = [], Counter = 0\<rparr>"

text \<open>The increment with wrap-around that follows every use of the counter.\<close>

definition next_id :: "nat \<Rightarrow> nat" where
  "next_id c = (if Suc c = MaxID then 0 else Suc c)"

partial_function (option) seek_id :: "(string \<times> 'v) list \<Rightarrow> nat \<Rightarrow> nat option" where
  "seek_id m c = (if map_of m (utoa c) \<noteq> None then seek_id m (next_id c) else Some c)"

lemmas seek_id_code [code] = seek_id.simps

definition IDMapPut :: "'v idmap \<Rightarrow> 'v \<Rightarrow> (string \<times> 'v idmap) option" where
  "IDMapPut m v = (case seek_id (entries m) (Counter m) of
      None \<Rightarrow> None
    | Some c \<Rightarrow> Some (utoa c, \<lparr>entries = mput (utoa c) v (entries m), Counter = next_id c\<rparr>))"

definition IDMapDel :: "'v idmap \<Rightarrow> string \<Rightarrow> 'v idmap" where
  "IDMapDel m k = m\<lparr>entries := mdel k (entries m)\<rparr>"

definition IDMapGet :: "'v idmap \<Rightarrow> string \<Rightarrow> 'v option" where
  "IDMapGet m k = map_of (entries m) k"

section \<open>The search for a free key\<close>

definition id_free :: "(string \<times> 'v) list \<Rightarrow> nat \<Rightarrow> bool" where
  "id_free m c \<longleftrightarrow> map_of m (utoa c) = None"

definition id_full :: "'v idmap \<Rightarrow> bool" where
  "id_full m \<longleftrightarrow> (\<forall>c < MaxID. \<not> id_free (entries m) c)"

definition idmap_inv :: "'v idmap \<Rightarrow> bool" where
  "idmap_inv m \<longleftrightarrow> Counter m < MaxID \<and> wfmap (entries m)"

lemma next_id_less [simp]: "c < MaxID \<Longrightarrow> next_id c < MaxID"
  by (auto simp: next_id_def MaxID_def)

lemma next_id_mod: "c < MaxID \<Longrightarrow> next_id c = Suc c mod MaxID"
  by (auto simp: next_id_def)

lemma funpow_next_id: "c < MaxID \<Longrightarrow> (next_id ^^ n) c = (c + n) mod MaxID"
proof (induction n)
  case 0
  then show ?case by simp
next
  case (Suc n)
  then have "(c + n) mod MaxID < MaxID" by (simp add: MaxID_def)
  then have "next_id ((c + n) mod MaxID) = Suc (c + n) mod MaxID"
    by (simp add: next_id_mod mod_Suc_eq)
  with Suc show ?case by simp
qed

lemma seek_id_Some_free:
  assumes "seek_id m c = Some r"
  shows "id_free m r"
  by (rule seek_id.raw_induct [where P = "\<lambda>m c r. id_free m r", OF _ assms])
    (auto simp: id_free_def split: if_splits)

lemma seek_id_Some_less:
  assumes "seek_id m c = Some r"
  shows "c < MaxID \<longrightarrow> r < MaxID"
  by (rule seek_id.raw_induct [where P = "\<lambda>m c r. c < MaxID \<longrightarrow> r < MaxID", OF _ assms])
    (auto split: if_splits)

lemma seek_id_steps:
  "id_free m ((next_id ^^ n) c) \<Longrightarrow> \<exists>r. seek_id m c = Some r"
proof (induction n arbitrary: c)
  case 0
  then show ?case by (simp add: id_free_def seek_id.simps)
next
  case (Suc n)
  then have "\<exists>r. seek_id m (next_id c) = Some r" by (simp add: funpow_Suc_right del: funpow.simps)
  then show ?case by (subst seek_id.simps) auto
qed

text \<open>The search is total exactly as long as a key is free.\<close>

lemma seek_id_iff:
  assumes "c < MaxID"
  shows "(\<exists>r. seek_id m c = Some r) \<longleftrightarrow> (\<exists>d < MaxID. id_free m d)"
proof
  assume "\<exists>r. seek_id m c = Some r"
  then show "\<exists>d < MaxID. id_free m d"
    using assms by (auto dest: seek_id_Some_free seek_id_Some_less)
next
  assume "\<exists>d < MaxID. id_free m d"
  then obtain d where d: "d < MaxID" "id_free m d" by blast
  have "(c + (d + (MaxID - c))) mod MaxID = d"
    using assms d(1) by (simp add: mod_if)
  then have "id_free m ((next_id ^^ (d + (MaxID - c))) c)"
    using assms d(2) by (simp add: funpow_next_id)
  then show "\<exists>r. seek_id m c = Some r" by (rule seek_id_steps)
qed

lemma IDMapPut_None_iff:
  "idmap_inv m \<Longrightarrow> IDMapPut m v = None \<longleftrightarrow> id_full m"
  using seek_id_iff [of "Counter m" "entries m"]
  by (auto simp: IDMapPut_def id_full_def idmap_inv_def split: option.splits)

lemma IDMapPut_SomeD:
  assumes "IDMapPut m v = Some (k, m')" and "idmap_inv m"
  shows "IDMapGet m k = None" and "entries m' = mput k v (entries m)" and "idmap_inv m'"
    and "\<exists>c < MaxID. k = utoa c"
  using assms seek_id_Some_free [of "entries m" "Counter m"] seek_id_Some_less [of "entries m" "Counter m"]
  by (auto simp: IDMapPut_def IDMapGet_def idmap_inv_def id_free_def split: option.splits)

text \<open>The IDs are never empty: the engine uses the empty string for "not saved".\<close>

lemma IDMapPut_nonempty: "IDMapPut m v = Some (k, m') \<Longrightarrow> k \<noteq> []"
  by (auto simp: IDMapPut_def split: option.splits)

lemma IDMapDel_inv: "idmap_inv m \<Longrightarrow> idmap_inv (IDMapDel m k)"
  by (simp add: IDMapDel_def idmap_inv_def)

lemma InitIDMap_inv: "idmap_inv InitIDMap"
  by (simp add: InitIDMap_def idmap_inv_def MaxID_def)

section \<open>The contract of an ID map\<close>

locale id_store =
  fixes put :: "'m \<Rightarrow> 'v \<Rightarrow> (string \<times> 'm) option"
    and del :: "'m \<Rightarrow> string \<Rightarrow> 'm"
    and get :: "'m \<Rightarrow> string \<Rightarrow> 'v option"
    and inv :: "'m \<Rightarrow> bool"
  assumes put_fresh: "inv m \<Longrightarrow> put m v = Some (k, m') \<Longrightarrow> get m k = None"
    and put_get: "inv m \<Longrightarrow> put m v = Some (k, m') \<Longrightarrow> get m' j = (if j = k then Some v else get m j)"
    and put_inv: "inv m \<Longrightarrow> put m v = Some (k, m') \<Longrightarrow> inv m'"
    and put_key: "put m v = Some (k, m') \<Longrightarrow> k \<noteq> []"
    and del_get: "get (del m k) j = (if j = k then None else get m j)"
    and del_inv: "inv m \<Longrightarrow> inv (del m k)"
begin

text \<open>A value stays under its key until that key is deleted, whatever else is put.\<close>

lemma put_keeps:
  assumes "inv m" and "get m j = Some w" and "put m v = Some (k, m')"
  shows "get m' j = Some w" and "j \<noteq> k"
  using assms put_fresh [of m v k m'] put_get [of m v k m' j] by auto

lemma put_distinct:
  assumes "inv m" and "put m v = Some (k, m')" and "put m' w = Some (k', m'')"
  shows "k \<noteq> k'"
  using assms put_fresh [of m' w k' m''] put_get [of m v k m' k] put_inv [of m v k m'] by auto

lemma put_del_roundtrip:
  assumes "inv m" and "put m v = Some (k, m')"
  shows "get (del m' k) = get m"
proof
  fix j
  show "get (del m' k) j = get m j"
    using assms put_fresh [of m v k m'] put_get [of m v k m' j] by (simp add: del_get)
qed

text \<open>A run of calls, each of which registers a value and may release one in between.\<close>

lemma put_del_other_put:
  assumes "inv m" and "put m v = Some (k, m')" and "put m' w = Some (k', m'')"
  shows "get (del m'' k) k' = Some w"
proof -
  from assms(1,2) have "inv m'" by (rule put_inv)
  with assms show ?thesis using put_distinct [OF assms] put_get [of m' w k' m'' k']
    by (simp add: del_get)
qed

end

interpretation idm: id_store IDMapPut IDMapDel IDMapGet idmap_inv
proof unfold_locales
  fix m :: "'v idmap" and v k m' j
  assume inv: "idmap_inv m" and put: "IDMapPut m v = Some (k, m')"
  show "IDMapGet m k = None" using IDMapPut_SomeD [OF put inv] by simp
  show "IDMapGet m' j = (if j = k then Some v else IDMapGet m j)"
    using IDMapPut_SomeD [OF put inv] by (simp add: IDMapGet_def)
  show "idmap_inv m'" using IDMapPut_SomeD [OF put inv] by simp
qed (auto simp: IDMapDel_def IDMapGet_def IDMapDel_inv [unfolded IDMapDel_def] IDMapPut_nonempty)

section \<open>Properties\<close>

text \<open>
  As long as one of the \<open>MaxID\<close> keys is free, \<open>IDMapPut\<close> returns, hands out a key that was
  not in use, leaves every other entry as it was, and keeps the counter in range.
\<close>

theorem IDMapPut_fresh:
  assumes "idmap_inv m" and "\<not> id_full m"
  shows "\<exists>k m'. IDMapPut m v = Some (k, m') \<and> IDMapGet m k = None \<and> idmap_inv m' \<and>
    (\<forall>j. IDMapGet m' j = (if j = k then Some v else IDMapGet m j))"
proof -
  from assms IDMapPut_None_iff [of m v] obtain k m' where put: "IDMapPut m v = Some (k, m')"
    by (cases "IDMapPut m v") auto
  then show ?thesis
    using idm.put_fresh [OF assms(1) put] idm.put_get [OF assms(1) put] idm.put_inv [OF assms(1) put]
    by blast
qed

theorem IDMapPut_fresh_witness:
  "\<exists>k m'. IDMapPut (InitIDMap :: nat idmap) 7 = Some (k, m') \<and> IDMapGet m' k = Some 7"
proof -
  have "\<not> id_full (InitIDMap :: nat idmap)"
    by (auto simp: id_full_def id_free_def InitIDMap_def MaxID_def intro: exI [of _ 0])
  from IDMapPut_fresh [OF InitIDMap_inv this, of 7] show ?thesis by auto
qed

definition full_idmap :: "nat idmap" where
  "full_idmap = \<lparr>entries = map (\<lambda>c. (utoa c, c)) [0..<MaxID], Counter = 0\<rparr>"

lemma full_idmap_inv: "idmap_inv full_idmap"
  by (simp add: full_idmap_def idmap_inv_def wfmap_def MaxID_def comp_def distinct_map inj_on_def)

lemma full_idmap_full: "id_full full_idmap"
proof -
  have "(utoa c, c) \<in> set (entries full_idmap)" if "c < MaxID" for c
    using that by (simp add: full_idmap_def)
  then have "utoa c \<in> fst ` set (entries full_idmap)" if "c < MaxID" for c
    using that by force
  then show ?thesis
    by (simp add: id_full_def id_free_def map_of_eq_None_iff del: set_map)
qed

text \<open>
  The search under the lock does not return exactly when all \<open>MaxID\<close> keys are taken; since
  \<open>IDMapDel\<close> needs the same lock, no entry can then be released.
\<close>

theorem IDMapPut_blocks_iff_full:
  assumes "idmap_inv m"
  shows "IDMapPut m v = None \<longleftrightarrow> id_full m"
  using assms by (rule IDMapPut_None_iff)

theorem IDMapPut_blocks_iff_full_witness: "idmap_inv full_idmap \<and> IDMapPut full_idmap 1 = None"
  using IDMapPut_blocks_iff_full [OF full_idmap_inv] full_idmap_inv full_idmap_full by blast

text \<open>
  A key is not handed out twice while it is in use: between putting a value and deleting its
  key, any other put gets a different key, and deleting the key restores what the map was.
\<close>

theorem IDMap_exclusive:
  assumes "idmap_inv m" and "IDMapPut m v = Some (k, m')"
  shows "IDMapGet (IDMapDel m' k) = IDMapGet m \<and>
    (\<forall>w k' m''. IDMapPut m' w = Some (k', m'') \<longrightarrow>
       k' \<noteq> k \<and> IDMapGet m'' k = Some v \<and> IDMapGet (IDMapDel m'' k) k' = Some w)"
proof (intro conjI allI impI)
  show "IDMapGet (IDMapDel m' k) = IDMapGet m"
    using assms by (rule idm.put_del_roundtrip)
  fix w k' m''
  assume put: "IDMapPut m' w = Some (k', m'')"
  show "k' \<noteq> k" using idm.put_distinct [OF assms put] by simp
  have "IDMapGet m' k = Some v" using idm.put_get [OF assms] by simp
  then show "IDMapGet m'' k = Some v"
    using idm.put_keeps(1) [OF idm.put_inv [OF assms] _ put] by blast
  show "IDMapGet (IDMapDel m'' k) k' = Some w"
    using assms put by (rule idm.put_del_other_put)
qed

theorem IDMap_exclusive_witness:
  "IDMapGet (IDMapDel \<lparr>entries = [(''0'', 7)], Counter = 1\<rparr> ''0'') = IDMapGet (InitIDMap :: nat idmap)"
proof -
  have "IDMapPut (InitIDMap :: nat idmap) 7 = Some (''0'', \<lparr>entries = [(''0'', 7)], Counter = 1\<rparr>)"
  proof -
    have "utoa 0 = ''0''" by code_simp
    then show ?thesis
      by (simp add: IDMapPut_def InitIDMap_def seek_id.simps next_id_def MaxID_def)
  qed
  from IDMap_exclusive [OF InitIDMap_inv this] show ?thesis by blast
qed

end
