(* ===== verification/Comm.thy ===== *)
theory Comm
  imports Value
begin

text \<open>
  \<open>pkg/dipper/comm.go\<close>: the messages that services and drivers exchange and their form on the
  wire, a line \<open>channel subject labels size\<close>, for every label a line \<open>name length\<close> followed by its
  value, and the payload bytes.

  A writer is a number; what was written to it is a byte sequence. \<open>fmt.Fscanln\<close> is modelled for
  the two operand types the code uses, with ASCII blanks; a numeral with a base prefix or
  underscores, which \<open>fmt\<close> also reads, is left to the argument \<open>scan_odd\<close>. How \<open>fmt\<close> reports an
  input that ends inside the envelope is not distinguished from an invalid envelope.
\<close>

section \<open>Messages\<close>

definition ChannelEventbus :: string where "ChannelEventbus = ''eventbus''"
definition ChannelState :: string where "ChannelState = ''state''"
definition ChannelRPC :: string where "ChannelRPC = ''rpc''"
definition EventbusMessage :: string where "EventbusMessage = ''message''"
definition EventbusCommand :: string where "EventbusCommand = ''command''"
definition EventbusReturn :: string where "EventbusReturn = ''return''"

lemmas channel_defs = ChannelEventbus_def ChannelState_def ChannelRPC_def EventbusMessage_def
  EventbusCommand_def EventbusReturn_def

text \<open>The payload is \<open>nil\<close>, a \<open>[]byte\<close>, or any other value.\<close>

datatype payload = PNil | PRaw string | PVal gval

record Message =
  Channel :: string
  Subject :: string
  Size :: int
  Labels :: "(string, string) gomap option"
  Payload :: payload
  IsRaw :: bool
  Reply :: "nat option"
  ReturnTo :: "nat option"

text \<open>The zero value of the struct, and the entries of a map that may be \<open>nil\<close>.\<close>

definition zero_message :: Message where
  "zero_message = \<lparr>Channel = [], Subject = [], Size = 0, Labels = None, Payload = PNil, IsRaw = False,
     Reply = None, ReturnTo = None\<rparr>"

definition labels :: "Message \<Rightarrow> (string, string) gomap" where
  "labels msg = (case Labels msg of None \<Rightarrow> [] | Some m \<Rightarrow> m)"

definition label :: "Message \<Rightarrow> string \<Rightarrow> string option" where
  "label msg k = map_of (labels msg) k"

definition label_str :: "Message \<Rightarrow> string \<Rightarrow> string" where
  "label_str msg k = (case label msg k of None \<Rightarrow> [] | Some v \<Rightarrow> v)"

text \<open>Writing a label panics when the map is \<open>nil\<close>.\<close>

definition set_label :: "string \<Rightarrow> string \<Rightarrow> Message \<Rightarrow> Message res" where
  "set_label k v msg = (case Labels msg of
     None \<Rightarrow> Inl NilMapWrite
   | Some m \<Rightarrow> Inr (msg\<lparr>Labels := Some (mput k v m)\<rparr>))"

section \<open>Payload encoding\<close>

definition SerializeContent :: "ext \<Rightarrow> payload \<Rightarrow> string res" where
  "SerializeContent X content = (case content of
      PNil \<Rightarrow> Inr []
    | PRaw bs \<Rightarrow> Inr (ext_json_bytes X bs)
    | PVal v \<Rightarrow> ext_json_marshal X v)"

definition SerializePayload :: "ext \<Rightarrow> Message \<Rightarrow> Message res" where
  "SerializePayload X msg =
    (if IsRaw msg then Inr msg
     else rbind (case Payload msg of
          PNil \<Rightarrow> Inr PNil
        | PRaw bs \<Rightarrow> rmap PRaw (SerializeContent X (PRaw bs))
        | PVal _ \<Rightarrow> Inl TypeAssertion) (\<lambda>p.
      Inr (msg\<lparr>Payload := p, IsRaw := True\<rparr>)))"

definition DeserializeContent :: "ext \<Rightarrow> string \<Rightarrow> gval res" where
  "DeserializeContent X content = (if content \<noteq> [] then ext_json_unmarshal X content else Inr GNil)"

definition val_payload :: "gval \<Rightarrow> payload" where
  "val_payload v = (if v = GNil then PNil else PVal v)"

definition DeserializePayload :: "ext \<Rightarrow> Message \<Rightarrow> Message res" where
  "DeserializePayload X msg =
    (if \<not> IsRaw msg then Inr msg
     else rbind (case Payload msg of
          PNil \<Rightarrow> Inr PNil
        | PRaw bs \<Rightarrow> rmap val_payload (DeserializeContent X bs)
        | PVal _ \<Rightarrow> Inl TypeAssertion) (\<lambda>p.
      Inr (msg\<lparr>Payload := p, IsRaw := False\<rparr>)))"

text \<open>The payload as a value (the services decode messages before they read it).\<close>

definition payload_val :: "Message \<Rightarrow> gval" where
  "payload_val msg = (case Payload msg of PNil \<Rightarrow> GNil | PRaw bs \<Rightarrow> GStr bs | PVal v \<Rightarrow> v)"

section \<open>Sending\<close>

definition payload_bytes :: "ext \<Rightarrow> Message \<Rightarrow> string res" where
  "payload_bytes X msg = (case Payload msg of
      PNil \<Rightarrow> Inr []
    | p \<Rightarrow> if \<not> IsRaw msg then SerializeContent X p
           else (case p of PRaw bs \<Rightarrow> Inr bs | _ \<Rightarrow> Inl TypeAssertion))"

definition newline :: char where "newline = CHR 0x0A"

definition label_line :: "string \<times> string \<Rightarrow> string" where
  "label_line = (\<lambda>(lname, lval). lname @ '' '' @ utoa (length lval) @ [newline] @ lval)"

text \<open>The bytes one message puts on the wire; the labels come in the order of the \<open>range\<close> loop.\<close>

definition wire :: "Message \<Rightarrow> string \<Rightarrow> string" where
  "wire msg payload = Channel msg @ '' '' @ Subject msg @ '' '' @ utoa (length (labels msg)) @ '' '' @
     utoa (length payload) @ [newline] @ concat (map label_line (labels msg)) @ payload"

definition SendMessage :: "ext \<Rightarrow> string \<Rightarrow> Message \<Rightarrow> string res" where
  "SendMessage X out msg = rbind (payload_bytes X msg) (\<lambda>payload. Inr (out @ wire msg payload))"

section \<open>Receiving\<close>

definition skip_blank :: "string \<Rightarrow> string" where
  "skip_blank = dropWhile (\<lambda>c. is_space c \<and> c \<noteq> newline)"

text \<open>Scanning a string operand: skip blanks, then take the bytes up to the next blank.\<close>

definition scan_word :: "string \<Rightarrow> (string \<times> string) option" where
  "scan_word s = (case skip_blank s of
      [] \<Rightarrow> None
    | c # r \<Rightarrow> if c = newline then None
             else Some (takeWhile (\<lambda>c. \<not> is_space c) (c # r), dropWhile (\<lambda>c. \<not> is_space c) (c # r)))"

text \<open>
  Scanning an integer operand: skip blanks, an optional sign, then the longest run of digits. The
  operand ends where the digits end.
\<close>

definition digit_run :: "string \<Rightarrow> string" where
  "digit_run = takeWhile (\<lambda>c. is_digit c \<or> c = CHR ''_'')"

definition plain_numeral :: "string \<Rightarrow> bool" where
  "plain_numeral s \<longleftrightarrow> (let d = digit_run s in d \<noteq> [] \<and> list_all is_digit d \<and>
     (hd d \<noteq> CHR ''0'' \<or>
      length d = 1 \<and> (case drop 1 s of [] \<Rightarrow> True | c # _ \<Rightarrow> c \<notin> set ''bBoOxX'')))"

definition scan_int :: "(string \<Rightarrow> (int \<times> string) option) \<Rightarrow> string \<Rightarrow> (int \<times> string) option" where
  "scan_int scan_odd s = (case skip_blank s of
      [] \<Rightarrow> None
    | c # r \<Rightarrow>
        let neg = (c = CHR ''-''); t = (if c = CHR ''-'' \<or> c = CHR ''+'' then r else c # r) in
        if plain_numeral t then
          map_option (\<lambda>i. (i, dropWhile is_digit t))
            (check_int64 (if neg then - int (digits_val (takeWhile is_digit t))
                          else int (digits_val (takeWhile is_digit t))))
        else if digit_run t = [] then None
        else scan_odd (c # r))"

text \<open>After the last operand only blanks may follow up to the end of the line or of the input.\<close>

definition end_line :: "string \<Rightarrow> string option" where
  "end_line s = (case skip_blank s of [] \<Rightarrow> Some [] | c # r \<Rightarrow> if c = newline then Some r else None)"

definition scan_envelope ::
  "(string \<Rightarrow> (int \<times> string) option) \<Rightarrow> string \<Rightarrow> (string \<times> string \<times> int \<times> int \<times> string) option" where
  "scan_envelope scan_odd s =
    Option.bind (scan_word s) (\<lambda>(channel, s1).
    Option.bind (scan_word s1) (\<lambda>(subject, s2).
    Option.bind (scan_int scan_odd s2) (\<lambda>(numLabels, s3).
    Option.bind (scan_int scan_odd s3) (\<lambda>(sz, s4).
    Option.bind (end_line s4) (\<lambda>s5. Some (channel, subject, numLabels, sz, s5))))))"

definition scan_label ::
  "(string \<Rightarrow> (int \<times> string) option) \<Rightarrow> string \<Rightarrow> (string \<times> int \<times> string) option" where
  "scan_label scan_odd s =
    Option.bind (scan_word s) (\<lambda>(lname, s1).
    Option.bind (scan_int scan_odd s1) (\<lambda>(vl, s2).
    Option.bind (end_line s2) (\<lambda>s3. Some (lname, vl, s3))))"

text \<open>\<open>io.ReadFull\<close> into a buffer of \<open>n\<close> bytes.\<close>

definition read_full :: "nat \<Rightarrow> string \<Rightarrow> (string \<times> string) option" where
  "read_full n s = (if length s < n then None else Some (take n s, drop n s))"

fun fetch_labels :: "(string \<Rightarrow> (int \<times> string) option) \<Rightarrow> nat \<Rightarrow> (string, string) gomap \<Rightarrow> string \<Rightarrow>
    ((string, string) gomap \<times> string) res" where
  "fetch_labels scan_odd 0 m s = Inr (m, s)"
| "fetch_labels scan_odd (Suc n) m s = (case scan_label scan_odd s of
      None \<Rightarrow> Inl (PanicErr ''unable to fetch message label name'')
    | Some (lname, vl, s1) \<Rightarrow>
        if vl > 0 then (case read_full (nat vl) s1 of
            None \<Rightarrow> Inl (PanicErr ''unable to fetch value for label'')
          | Some (lvalue, s2) \<Rightarrow> fetch_labels scan_odd n (mput lname lvalue m) s2)
        else fetch_labels scan_odd n (mput lname [] m) s1)"

definition FetchRawMessage ::
  "(string \<Rightarrow> (int \<times> string) option) \<Rightarrow> string \<Rightarrow> (Message \<times> string) res" where
  "FetchRawMessage scan_odd inp = (case scan_envelope scan_odd inp of
      None \<Rightarrow> Inl (PanicErr (if skip_blank inp = [] then ''EOF'' else ''invalid message envelope''))
    | Some (channel, subject, numLabels, sz, s) \<Rightarrow>
        rbind (fetch_labels scan_odd (nat numLabels) [] s) (\<lambda>(m, s1).
        let msg = zero_message\<lparr>Channel := channel, Subject := subject, IsRaw := True, Size := sz,
                               Labels := Some m\<rparr> in
        if sz > 0 then (case read_full (nat sz) s1 of
            None \<Rightarrow> Inl (PanicErr ''EOF'')
          | Some (buf, s2) \<Rightarrow> Inr (msg\<lparr>Payload := PRaw buf\<rparr>, s2))
        else Inr (msg, s1)))"

definition FetchMessage ::
  "ext \<Rightarrow> (string \<Rightarrow> (int \<times> string) option) \<Rightarrow> string \<Rightarrow> (Message \<times> string) res" where
  "FetchMessage X scan_odd inp =
    rbind (FetchRawMessage scan_odd inp) (\<lambda>(msg, s).
    rmap (\<lambda>msg'. (msg', s)) (DeserializePayload X msg))"

section \<open>Locks of the writers\<close>

text \<open>
  \<open>CommLocks\<close> maps a writer to its mutex. A mutex is a number (its address), \<open>held\<close> are the locked
  ones. \<open>LockComm\<close> waits (\<open>None\<close>) while the mutex it found is locked.
\<close>

record comm_locks =
  CommLocks :: "(nat, nat) gomap"
  held :: "nat list"
  fresh :: nat

definition comm_lock :: "nat \<Rightarrow> comm_locks \<Rightarrow> nat \<times> comm_locks" where
  "comm_lock out s = (case map_of (CommLocks s) out of
      Some lock \<Rightarrow> (lock, s)
    | None \<Rightarrow> (fresh s, s\<lparr>CommLocks := mput out (fresh s) (CommLocks s), fresh := Suc (fresh s)\<rparr>))"

definition LockComm :: "nat \<Rightarrow> comm_locks \<Rightarrow> comm_locks option" where
  "LockComm out s = (let (lock, s') = comm_lock out s in
     if lock \<in> set (held s') then None else Some (s'\<lparr>held := lock # held s'\<rparr>))"

definition UnlockComm :: "nat \<Rightarrow> comm_locks \<Rightarrow> comm_locks res" where
  "UnlockComm out s = (case map_of (CommLocks s) out of
      None \<Rightarrow> Inl (PanicStr ''comm lock not found'')
    | Some lock \<Rightarrow>
        if lock \<in> set (held s) then Inr (s\<lparr>held := removeAll lock (held s)\<rparr>)
        else Inl (FatalError ''sync: unlock of unlocked mutex''))"

definition RemoveComm :: "nat \<Rightarrow> comm_locks \<Rightarrow> comm_locks" where
  "RemoveComm out s = s\<lparr>CommLocks := mdel out (CommLocks s)\<rparr>"

section \<open>Scanning what was printed\<close>

definition name_ok :: "string \<Rightarrow> bool" where
  "name_ok n \<longleftrightarrow> n \<noteq> [] \<and> list_all (\<lambda>c. \<not> is_space c) n"

lemma space_facts [simp]: "is_space CHR '' ''" "is_space newline" "CHR '' '' \<noteq> newline"
  by (simp_all add: is_space_def newline_def)

lemma digit_facts: "is_digit c \<Longrightarrow> \<not> is_space c"
  by (auto simp: is_digit_def is_space_def)

lemma space_not_digit: "is_space c \<Longrightarrow> \<not> is_digit c"
  by (auto simp: is_digit_def is_space_def)

lemma nonspace_not_newline: "\<not> is_space c \<Longrightarrow> c \<noteq> newline"
  by auto

lemma is_digit_zero [simp]: "is_digit CHR ''0''"
  by (simp add: is_digit_def)

lemma skip_blank_space [simp]: "skip_blank (CHR '' '' # s) = skip_blank s"
  by (simp add: skip_blank_def)

lemma skip_blank_name: "name_ok n \<Longrightarrow> skip_blank (n @ s) = n @ s"
  by (cases n) (simp_all add: name_ok_def skip_blank_def)

lemma scan_word_skip [simp]: "scan_word (CHR '' '' # s) = scan_word s"
  by (simp add: scan_word_def)

lemma scan_word_name:
  assumes "name_ok n" and "is_space c"
  shows "scan_word (n @ c # s) = Some (n, c # s)"
proof -
  obtain d n' where n: "n = d # n'" "\<not> is_space d" "d \<noteq> newline"
    using assms(1) by (cases n) (auto simp: name_ok_def nonspace_not_newline)
  have "takeWhile (\<lambda>c. \<not> is_space c) (n @ c # s) = n" "dropWhile (\<lambda>c. \<not> is_space c) (n @ c # s) = c # s"
    using assms by (simp_all add: name_ok_def list_all_iff takeWhile_append2 dropWhile_append2)
  with n show ?thesis using skip_blank_name [OF assms(1), of "c # s"] by (simp add: scan_word_def)
qed

lemma name_ok_utoa: "name_ok (utoa n)"
  using utoa_digits [of n] by (simp add: name_ok_def list_all_iff digit_facts)

lemma utoa_zero [simp]: "utoa 0 = ''0''"
  by code_simp

lemma utoa_hd_zero: "hd (utoa n) = CHR ''0'' \<Longrightarrow> n = 0"
proof (induction n rule: utoa.induct)
  case (1 n)
  show ?case
  proof (cases "n < 10")
    case True
    with 1 have "digit_char n = CHR ''0''" by (simp add: utoa.simps [of n])
    with True digit_char_props(2) [of n] show ?thesis by (simp add: digit_val_def)
  next
    case False
    with 1 have "n div 10 = 0" by (simp add: utoa.simps [of n])
    with False show ?thesis by simp
  qed
qed

lemma scan_int_utoa:
  assumes "is_space c" and "int k < 2 ^ 63"
  shows "scan_int scan_odd (CHR '' '' # utoa k @ c # s) = Some (int k, c # s)"
proof -
  let ?t = "utoa k @ c # s"
  have c: "\<not> is_digit c" "c \<noteq> CHR ''_''" "c \<notin> set ''bBoOxX''"
    using assms(1) by (auto simp: space_not_digit is_space_def)
  have digits: "\<forall>d \<in> set (utoa k). is_digit d" using utoa_digits [of k] by (simp add: list_all_iff)
  then have run: "digit_run ?t = utoa k" "takeWhile is_digit ?t = utoa k" "dropWhile is_digit ?t = c # s"
    using c by (simp_all add: digit_run_def takeWhile_append2 dropWhile_append2)
  obtain d ds where u: "utoa k = d # ds" "is_digit d" using utoa_hd by blast
  have "plain_numeral ?t"
  proof (cases "k = 0")
    case True
    with c run show ?thesis by (simp add: plain_numeral_def)
  next
    case False
    with utoa_hd_zero [of k] run utoa_digits [of k] show ?thesis by (auto simp: plain_numeral_def Let_def)
  qed
  moreover have "check_int64 (int k) = Some (int k)"
    using assms(2) by (simp add: check_int64_def in_int64_def)
  ultimately show ?thesis
    using u is_digit_not_sign [OF u(2)] run skip_blank_name [OF name_ok_utoa, of k "c # s"] digits_val_utoa [of k]
    by (simp add: scan_int_def)
qed

lemma end_line_newline [simp]: "end_line (newline # s) = Some s"
  by (simp add: end_line_def skip_blank_def)

lemma read_full_append [simp]: "read_full (length v) (v @ s) = Some (v, s)"
  by (simp add: read_full_def)

lemma fetch_label:
  assumes "name_ok n" and "int (length v) < 2 ^ 63"
  shows "fetch_labels scan_odd (Suc k) m (label_line (n, v) @ s) = fetch_labels scan_odd k (mput n v m) s"
proof -
  have "scan_label scan_odd (label_line (n, v) @ s) = Some (n, int (length v), v @ s)"
    using scan_word_name [OF assms(1), of "CHR '' ''"] scan_int_utoa [OF _ assms(2), of newline]
    by (simp add: scan_label_def label_line_def)
  then show ?thesis by simp
qed

lemma mput_fresh_key: "k \<notin> fst ` set m \<Longrightarrow> mput k v m = m @ [(k, v)]"
  by (induction m) auto

lemma fetch_labels_wire:
  assumes "\<forall>(n, v) \<in> set ls. name_ok n \<and> int (length v) < 2 ^ 63" and "wfmap (m @ ls)"
  shows "fetch_labels scan_odd (length ls) m (concat (map label_line ls) @ s) = Inr (m @ ls, s)"
  using assms
proof (induction ls arbitrary: m)
  case Nil
  then show ?case by simp
next
  case (Cons l ls)
  obtain n v where l: "l = (n, v)" by (cases l)
  with Cons.prems have "n \<notin> fst ` set m" by (auto simp: wfmap_def)
  with Cons l fetch_label [of n v] show ?case by (auto simp: mput_fresh_key)
qed

definition sendable :: "Message \<Rightarrow> string \<Rightarrow> bool" where
  "sendable msg payload \<longleftrightarrow> name_ok (Channel msg) \<and> name_ok (Subject msg) \<and> wfmap (labels msg) \<and>
     list_all (\<lambda>(n, v). name_ok n \<and> int (length v) < 2 ^ 63) (labels msg) \<and>
     int (length (labels msg)) < 2 ^ 63 \<and> int (length payload) < 2 ^ 63"

text \<open>What the other side sees of a message.\<close>

definition received :: "Message \<Rightarrow> string \<Rightarrow> Message" where
  "received msg payload = zero_message\<lparr>Channel := Channel msg, Subject := Subject msg,
     Size := int (length payload), Labels := Some (labels msg),
     Payload := (if payload = [] then PNil else PRaw payload), IsRaw := True\<rparr>"

lemma fetch_wire:
  assumes "sendable msg payload"
  shows "FetchRawMessage scan_odd (wire msg payload @ s) = Inr (received msg payload, s)"
proof -
  let ?body = "concat (map label_line (labels msg)) @ payload @ s"
  note ok = assms [unfolded sendable_def]
  have env: "scan_envelope scan_odd (wire msg payload @ s) =
      Some (Channel msg, Subject msg, int (length (labels msg)), int (length payload), ?body)"
    using ok scan_word_name [of "Channel msg" "CHR '' ''"] scan_word_name [of "Subject msg" "CHR '' ''"]
      scan_int_utoa [of "CHR '' ''"] scan_int_utoa [of newline]
    by (simp add: scan_envelope_def wire_def)
  have labels: "fetch_labels scan_odd (length (labels msg)) [] ?body = Inr (labels msg, payload @ s)"
    using fetch_labels_wire [of "labels msg" "[]" scan_odd "payload @ s"] ok by (simp add: list_all_iff)
  show ?thesis
    by (simp add: FetchRawMessage_def env labels received_def Let_def zero_message_def)
qed

section \<open>Locks\<close>

text \<open>Mutexes are numbered below \<open>fresh\<close> and no two writers share one.\<close>

definition locks_inv :: "comm_locks \<Rightarrow> bool" where
  "locks_inv s \<longleftrightarrow> wfmap (CommLocks s) \<and> (\<forall>l \<in> set (held s). l < fresh s) \<and>
     (\<forall>out l. map_of (CommLocks s) out = Some l \<longrightarrow> l < fresh s) \<and>
     (\<forall>o1 o2 l. map_of (CommLocks s) o1 = Some l \<longrightarrow> map_of (CommLocks s) o2 = Some l \<longrightarrow> o1 = o2)"

definition locked :: "nat \<Rightarrow> comm_locks \<Rightarrow> bool" where
  "locked out s \<longleftrightarrow> (\<exists>l. map_of (CommLocks s) out = Some l \<and> l \<in> set (held s))"

lemma locks_inv_fresh: "locks_inv s \<Longrightarrow> map_of (CommLocks s) out \<noteq> Some (fresh s)"
  unfolding locks_inv_def by (metis less_irrefl)

lemma locks_inv_unique:
  "locks_inv s \<Longrightarrow> map_of (CommLocks s) o1 = Some l \<Longrightarrow> map_of (CommLocks s) o2 = Some l \<Longrightarrow> o1 = o2"
  by (simp add: locks_inv_def)

lemma LockComm_SomeD:
  assumes "locks_inv s" and "LockComm out s = Some s'"
  shows "locks_inv s'" and "locked out s'" and "\<not> locked out s" and "out' \<noteq> out \<Longrightarrow> locked out' s' = locked out' s"
proof -
  show "locks_inv s'" "locked out s'" "\<not> locked out s"
    using assms locks_inv_fresh [OF assms(1)] unfolding LockComm_def comm_lock_def locks_inv_def locked_def
    by (auto simp: Let_def less_Suc_eq split: option.splits if_splits)
  show "locked out' s' = locked out' s" if "out' \<noteq> out"
    using assms that locks_inv_fresh [OF assms(1)] locks_inv_unique [OF assms(1)]
    unfolding LockComm_def comm_lock_def locked_def
    by (auto simp: Let_def split: option.splits if_splits)
qed

lemma LockComm_None_iff: "locks_inv s \<Longrightarrow> LockComm out s = None \<longleftrightarrow> locked out s"
  unfolding LockComm_def comm_lock_def locked_def locks_inv_def
  by (auto simp: Let_def split: option.splits if_splits)

lemma UnlockComm_locked:
  assumes "locks_inv s" and "locked out s"
  shows "\<exists>s'. UnlockComm out s = Inr s' \<and> locks_inv s' \<and> \<not> locked out s' \<and>
    (\<forall>out'. out' \<noteq> out \<longrightarrow> locked out' s' = locked out' s)"
proof -
  from assms(2) obtain l where l: "map_of (CommLocks s) out = Some l" "l \<in> set (held s)"
    by (auto simp: locked_def)
  let ?s = "s\<lparr>held := removeAll l (held s)\<rparr>"
  have "locks_inv ?s" using assms(1) by (auto simp: locks_inv_def)
  moreover have "\<not> locked out ?s" using l by (simp add: locked_def)
  moreover have "locked out' ?s = locked out' s" if "out' \<noteq> out" for out'
    using that l(1) locks_inv_unique [OF assms(1), of out' l out] by (auto simp: locked_def)
  ultimately show ?thesis using l by (simp add: UnlockComm_def)
qed

section \<open>The contract of a lock per resource\<close>

locale mutex_family =
  fixes inv :: "'s \<Rightarrow> bool"
    and acquire :: "'k \<Rightarrow> 's \<Rightarrow> 's option"
    and release :: "'k \<Rightarrow> 's \<Rightarrow> 's res"
    and taken :: "'k \<Rightarrow> 's \<Rightarrow> bool"
  assumes acquire_blocks: "inv s \<Longrightarrow> acquire k s = None \<longleftrightarrow> taken k s"
    and acquire_takes: "inv s \<Longrightarrow> acquire k s = Some s' \<Longrightarrow> inv s' \<and> taken k s'"
    and acquire_frame: "inv s \<Longrightarrow> acquire k s = Some s' \<Longrightarrow> k' \<noteq> k \<Longrightarrow> taken k' s' = taken k' s"
    and release_frees: "inv s \<Longrightarrow> taken k s \<Longrightarrow>
      \<exists>s'. release k s = Inr s' \<and> inv s' \<and> \<not> taken k s' \<and> (\<forall>k'. k' \<noteq> k \<longrightarrow> taken k' s' = taken k' s)"
begin

lemma exclusive: "inv s \<Longrightarrow> acquire k s = Some s' \<Longrightarrow> acquire k s' = None"
  using acquire_takes acquire_blocks by blast

lemma independent: "inv s \<Longrightarrow> acquire k s = Some s' \<Longrightarrow> k' \<noteq> k \<Longrightarrow> acquire k' s' = None \<longleftrightarrow> acquire k' s = None"
  using acquire_takes acquire_blocks acquire_frame by blast

lemma release_reopens:
  assumes "inv s" and "acquire k s = Some s'"
  shows "\<exists>s'' s3. release k s' = Inr s'' \<and> inv s'' \<and> acquire k s'' = Some s3"
proof -
  obtain s'' where "release k s' = Inr s''" "inv s''" "\<not> taken k s''"
    using acquire_takes [OF assms] release_frees by blast
  then show ?thesis using acquire_blocks [of s'' k] by (cases "acquire k s''") auto
qed

end

interpretation cl: mutex_family locks_inv LockComm UnlockComm locked
proof unfold_locales
  fix s s' k k'
  assume inv: "locks_inv s"
  show "LockComm k s = None \<longleftrightarrow> locked k s" using inv by (rule LockComm_None_iff)
  show "locks_inv s' \<and> locked k s'" if "LockComm k s = Some s'"
    using LockComm_SomeD(1,2) [OF inv that] by blast
  show "locked k' s' = locked k' s" if "LockComm k s = Some s'" "k' \<noteq> k"
    using LockComm_SomeD(4) [OF inv that] .
qed (rule UnlockComm_locked)

section \<open>Properties\<close>

fun send_all :: "ext \<Rightarrow> string \<Rightarrow> Message list \<Rightarrow> string res" where
  "send_all X out [] = Inr out"
| "send_all X out (msg # ms) = rbind (SendMessage X out msg) (\<lambda>out'. send_all X out' ms)"

fun fetch_all :: "(string \<Rightarrow> (int \<times> string) option) \<Rightarrow> nat \<Rightarrow> string \<Rightarrow> (Message list \<times> string) res" where
  "fetch_all scan_odd 0 s = Inr ([], s)"
| "fetch_all scan_odd (Suc n) s = rbind (FetchRawMessage scan_odd s) (\<lambda>(msg, s1).
     rbind (fetch_all scan_odd n s1) (\<lambda>(ms, s2). Inr (msg # ms, s2)))"

definition wires :: "(Message \<times> string) list \<Rightarrow> string" where
  "wires ps = concat (map (\<lambda>(msg, p). wire msg p) ps)"

lemma send_all_wires:
  "\<forall>(msg, p) \<in> set ps. payload_bytes X msg = Inr p \<Longrightarrow> send_all X out (map fst ps) = Inr (out @ wires ps)"
  by (induction ps arbitrary: out) (auto simp: wires_def SendMessage_def)

lemma fetch_all_wires:
  "\<forall>(msg, p) \<in> set ps. sendable msg p \<Longrightarrow>
    fetch_all scan_odd (length ps) (wires ps @ s) = Inr (map (\<lambda>(msg, p). received msg p) ps, s)"
  by (induction ps) (auto simp: wires_def fetch_wire)

text \<open>
  C7: messages sent one after the other on a wire are fetched in the same order, each with its
  channel, subject, labels and payload bytes, whatever the payloads and label values contain and in
  whatever order the labels are written; nothing of the bytes that follow is consumed. Channel,
  subject and label names are non-empty and have no white space.
\<close>

theorem SendMessage_FetchRawMessage:
  assumes "\<forall>(msg, p) \<in> set ps. payload_bytes X msg = Inr p \<and> sendable msg p"
  shows "\<exists>w. send_all X [] (map fst ps) = Inr w \<and>
    fetch_all scan_odd (length ps) (w @ rest) = Inr (map (\<lambda>(msg, p). received msg p) ps, rest)"
proof -
  from assms have "send_all X [] (map fst ps) = Inr (wires ps)"
    using send_all_wires [of ps X "[]"] by fastforce
  moreover from assms have "\<forall>(msg, p) \<in> set ps. sendable msg p" by auto
  ultimately show ?thesis using fetch_all_wires by blast
qed

definition sample_message :: Message where
  "sample_message = zero_message\<lparr>Channel := ''eventbus'', Subject := ''message'',
     Labels := Some [(''a'', ''x y''), (''b'', [])], Payload := PVal (GStr ''p'')\<rparr>"

lemma sample_sendable: "sendable sample_message ''p''"
  by code_simp

theorem SendMessage_FetchRawMessage_witness:
  "\<exists>w. send_all no_ext [] [sample_message, sample_message] = Inr w \<and>
     fetch_all (\<lambda>_. None) 2 (w @ ''zz'') = Inr ([received sample_message ''p'', received sample_message ''p''], ''zz'')"
proof -
  have "payload_bytes no_ext sample_message = Inr ''p''" by code_simp
  with sample_sendable
    SendMessage_FetchRawMessage [of "[(sample_message, ''p''), (sample_message, ''p'')]" no_ext "\<lambda>_. None" "''zz''"]
  show ?thesis by (simp add: numeral_2_eq_2)
qed

text \<open>
  A value sent as the payload arrives as that value when the JSON coding of it is faithful, with
  channel, subject and labels unchanged, and decoding the message a second time changes nothing.
\<close>

theorem FetchMessage_value:
  assumes "Payload msg = PVal v" and "\<not> IsRaw msg" and "v \<noteq> GNil"
    and "ext_json_marshal X v = Inr p" and "p \<noteq> []" and "ext_json_unmarshal X p = Inr v"
    and "sendable msg p"
  shows "\<exists>w msg'. SendMessage X out msg = Inr (out @ w) \<and> FetchMessage X scan_odd (w @ rest) = Inr (msg', rest) \<and>
    Payload msg' = PVal v \<and> Channel msg' = Channel msg \<and> Subject msg' = Subject msg \<and>
    label msg' = label msg \<and> \<not> IsRaw msg' \<and> DeserializePayload X msg' = Inr msg'"
proof -
  have "payload_bytes X msg = Inr p"
    using assms by (simp add: payload_bytes_def SerializeContent_def)
  then have "SendMessage X out msg = Inr (out @ wire msg p)"
    by (simp add: SendMessage_def)
  moreover have "FetchMessage X scan_odd (wire msg p @ rest) =
      Inr ((received msg p)\<lparr>Payload := PVal v, IsRaw := False\<rparr>, rest)"
    using assms fetch_wire [OF assms(7)]
    by (simp add: FetchMessage_def DeserializePayload_def DeserializeContent_def val_payload_def received_def)
  ultimately show ?thesis
    by (fastforce simp: received_def label_def labels_def DeserializePayload_def)
qed

theorem FetchMessage_value_witness:
  "\<exists>w msg'. SendMessage no_ext [] sample_message = Inr w \<and>
     FetchMessage no_ext (\<lambda>_. None) (w @ []) = Inr (msg', []) \<and> Payload msg' = PVal (GStr ''p'')"
proof -
  have "Payload sample_message = PVal (GStr ''p'')" "\<not> IsRaw sample_message"
    "ext_json_marshal no_ext (GStr ''p'') = Inr ''p''" "ext_json_unmarshal no_ext ''p'' = Inr (GStr ''p'')"
    by (simp_all add: sample_message_def zero_message_def no_ext_def)
  with sample_sendable FetchMessage_value [of sample_message "GStr ''p''" no_ext "''p''" "[]" "\<lambda>_. None" "[]"]
  show ?thesis by auto
qed

text \<open>
  The lock of a writer is exclusive as long as the writer is not removed: a second \<open>LockComm\<close>
  waits until the holder unlocks, unlocking succeeds, and other writers are not affected.
\<close>

theorem LockComm_exclusive:
  assumes "locks_inv s" and "LockComm out s = Some s'"
  shows "locks_inv s' \<and> LockComm out s' = None \<and>
    (\<forall>out'. out' \<noteq> out \<longrightarrow> (LockComm out' s' = None \<longleftrightarrow> LockComm out' s = None)) \<and>
    (\<exists>s'' s3. UnlockComm out s' = Inr s'' \<and> LockComm out s'' = Some s3)"
  using cl.acquire_takes [OF assms] cl.exclusive [OF assms] cl.independent [OF assms]
    cl.release_reopens [OF assms] by blast

definition no_locks :: comm_locks where
  "no_locks = \<lparr>CommLocks = [], held = [], fresh = 0\<rparr>"

theorem LockComm_exclusive_witness:
  "LockComm 7 \<lparr>CommLocks = [(7, 0)], held = [0], fresh = 1\<rparr> = None"
proof -
  have inv: "locks_inv no_locks" by (simp add: locks_inv_def no_locks_def)
  have "LockComm 7 no_locks = Some \<lparr>CommLocks = [(7, 0)], held = [0], fresh = 1\<rparr>"
    by (simp add: LockComm_def comm_lock_def no_locks_def)
  from LockComm_exclusive [OF inv this] show ?thesis by blast
qed

text \<open>
  Removing a writer while it is locked breaks the exclusion: a second sender gets a new lock at
  once although the first still writes, and unlocking without a second sender panics.
\<close>

theorem RemoveComm_breaks_exclusion:
  assumes "locks_inv s" and "LockComm out s = Some s'"
  shows "LockComm out (RemoveComm out s') \<noteq> None \<and>
    UnlockComm out (RemoveComm out s') = Inl (PanicStr ''comm lock not found'')"
proof -
  have "locks_inv s'" using cl.acquire_takes [OF assms] by blast
  then have "fresh s' \<notin> set (held s')" by (auto simp: locks_inv_def)
  then show ?thesis by (simp add: RemoveComm_def LockComm_def comm_lock_def UnlockComm_def)
qed

theorem RemoveComm_breaks_exclusion_witness:
  "UnlockComm 7 (RemoveComm 7 \<lparr>CommLocks = [(7, 0)], held = [0], fresh = 1\<rparr>) =
    Inl (PanicStr ''comm lock not found'')"
proof -
  have inv: "locks_inv no_locks" by (simp add: locks_inv_def no_locks_def)
  have "LockComm 7 no_locks = Some \<lparr>CommLocks = [(7, 0)], held = [0], fresh = 1\<rparr>"
    by (simp add: LockComm_def comm_lock_def no_locks_def)
  from RemoveComm_breaks_exclusion [OF inv this] show ?thesis by blast
qed

end
