(* ===== verification/Rpc.thy ===== *)
theory Rpc
  imports IDMap Comm
begin

text \<open>
  \<open>pkg/dipper/rpc.go\<close>: a call is registered in an ID map under a fresh \<open>rpcID\<close> with a channel for
  its result, sent as a message to the driver of a feature, and answered by a message with the same
  \<open>rpcID\<close>; the provider on the other side runs the handler of the method and answers once.

  A blocking call is modelled by its two halves: \<open>CallRaw\<close> up to the \<open>select\<close> (\<open>call_begin\<close>), and
  the \<open>select\<close> with the deferred release of the ID (\<open>call_end\<close>), so that returns, other calls and
  time-outs may come in between. Channels are numbers with a buffer of capacity one. The receiver
  of a feature is an argument: \<open>GetReceiver feature\<close> is \<open>None\<close> for \<open>nil\<close> (the type assertion on it
  panics before the test for \<open>nil\<close> is reached) or the outcome of its \<open>SendMessage\<close>.
\<close>

section \<open>The caller\<close>

definition DefaultRPCTimeout :: int where "DefaultRPCTimeout = 10"

definition second :: int where "second = 1000000000"

definition RPCSkip :: string where "RPCSkip = ''skip''"

datatype rpc_error = ErrTimeout | ErrRPC string | ErrPanic gopanic

text \<open>What travels through the channel of a call.\<close>

datatype rpc_item = ItemError rpc_error | ItemPayload payload

type_synonym receiver = "Message \<Rightarrow> unit res"

record RPCCallerBase =
  rpcChannel :: string
  rpcSubject :: string
  Result :: "nat idmap"
  Chans :: "(nat, rpc_item list) gomap"
  next_chan :: nat
  Sent :: "(string \<times> Message) list"

definition RPCCaller_Init :: "string \<Rightarrow> string \<Rightarrow> RPCCallerBase" where
  "RPCCaller_Init channel subject = \<lparr>rpcChannel = channel, rpcSubject = subject, Result = InitIDMap,
     Chans = [], next_chan = 0, Sent = []\<rparr>"

text \<open>\<open>r.(error)\<close> in a deferred function: a panic that carries a string panics again.\<close>

definition recovered_error :: "gopanic \<Rightarrow> rpc_error res" where
  "recovered_error e = (case e of
      PanicStr _ \<Rightarrow> Inl TypeAssertion
    | StackOverflow \<Rightarrow> Inl StackOverflow
    | FatalError m \<Rightarrow> Inl (FatalError m)
    | _ \<Rightarrow> Inr (ErrPanic e))"

definition call_message :: "RPCCallerBase \<Rightarrow> string \<Rightarrow> string \<Rightarrow> string \<Rightarrow> string \<Rightarrow> Message" where
  "call_message c feature meth params rpcID = zero_message\<lparr>Channel := rpcChannel c, Subject := rpcSubject c,
     Labels := Some [(''rpcID'', rpcID), (''feature'', feature), (''method'', meth), (''caller'', ''-'')],
     Payload := PRaw params, IsRaw := True\<rparr>"

definition CallRawNoWait :: "(string \<Rightarrow> receiver option) \<Rightarrow> string \<Rightarrow> string \<Rightarrow> string \<Rightarrow> string \<Rightarrow>
    RPCCallerBase \<Rightarrow> (rpc_error option \<times> RPCCallerBase) res" where
  "CallRawNoWait GetReceiver feature meth params rpcID c =
    (let rpcID' = (if rpcID = [] then RPCSkip else rpcID);
         msg = call_message c feature meth params rpcID';
         sent = (case GetReceiver feature of None \<Rightarrow> Inl TypeAssertion | Some send \<Rightarrow> send msg) in
     case sent of
       Inl e \<Rightarrow> rmap (\<lambda>err. (Some err, c)) (recovered_error e)
     | Inr _ \<Rightarrow> Inr (None, c\<lparr>Sent := Sent c @ [(feature, msg)]\<rparr>))"

definition CallNoWait :: "ext \<Rightarrow> (string \<Rightarrow> receiver option) \<Rightarrow> string \<Rightarrow> string \<Rightarrow> payload \<Rightarrow>
    RPCCallerBase \<Rightarrow> (rpc_error option \<times> RPCCallerBase) res" where
  "CallNoWait X GetReceiver feature meth params c =
    rbind (SerializeContent X params) (\<lambda>bs. CallRawNoWait GetReceiver feature meth bs RPCSkip c)"

text \<open>
  The first half of \<open>CallRaw\<close>: the call waits for its result, or has ended with an error or a panic,
  after which the deferred \<open>IDMapDel\<close> has run.
\<close>

datatype call_progress = Waiting string nat | Ended rpc_error | Blocked

definition register_call :: "RPCCallerBase \<Rightarrow> (string \<times> nat \<times> RPCCallerBase) option" where
  "register_call c = (case IDMapPut (Result c) (next_chan c) of
      None \<Rightarrow> None
    | Some (rpcID, m) \<Rightarrow> Some (rpcID, next_chan c,
        c\<lparr>Result := m, Chans := mput (next_chan c) [] (Chans c), next_chan := Suc (next_chan c)\<rparr>))"

definition release_call :: "string \<Rightarrow> RPCCallerBase \<Rightarrow> RPCCallerBase" where
  "release_call rpcID c = c\<lparr>Result := IDMapDel (Result c) rpcID\<rparr>"

definition call_begin :: "(string \<Rightarrow> receiver option) \<Rightarrow> string \<Rightarrow> string \<Rightarrow> string \<Rightarrow> RPCCallerBase \<Rightarrow>
    call_progress res \<times> RPCCallerBase" where
  "call_begin GetReceiver feature meth params c = (case register_call c of
      None \<Rightarrow> (Inr Blocked, c)
    | Some (rpcID, ch, c1) \<Rightarrow>
        (case CallRawNoWait GetReceiver feature meth params rpcID c1 of
          Inl e \<Rightarrow> (Inl e, release_call rpcID c1)
        | Inr (Some e, c2) \<Rightarrow> (Inr (Ended e), release_call rpcID c2)
        | Inr (None, c2) \<Rightarrow> (Inr (Waiting rpcID ch), c2)))"

text \<open>
  The second half: \<open>timedout\<close> tells which branch of the \<open>select\<close> runs. The result is the returned
  bytes (\<open>None\<close> is a \<open>nil\<close> slice) or an error; a payload that is not a \<open>[]byte\<close> panics. The
  outer \<open>None\<close> means that the call still waits.
\<close>

definition call_result :: "rpc_item \<Rightarrow> (rpc_error + string option) res" where
  "call_result msg = (case msg of
      ItemError e \<Rightarrow> Inr (Inl e)
    | ItemPayload PNil \<Rightarrow> Inr (Inr None)
    | ItemPayload (PRaw bs) \<Rightarrow> Inr (Inr (Some bs))
    | ItemPayload (PVal _) \<Rightarrow> Inl TypeAssertion)"

definition call_end :: "bool \<Rightarrow> string \<Rightarrow> nat \<Rightarrow> RPCCallerBase \<Rightarrow>
    ((rpc_error + string option) res \<times> RPCCallerBase) option" where
  "call_end timedout rpcID ch c =
    (if timedout then Some (Inr (Inl ErrTimeout), release_call rpcID c)
     else case map_of (Chans c) ch of
       Some (msg # rest) \<Rightarrow>
         Some (call_result msg, release_call rpcID (c\<lparr>Chans := mput ch rest (Chans c)\<rparr>))
     | _ \<Rightarrow> None)"

text \<open>
  \<open>CallWithMessageNoWait\<close> and the first half of \<open>CallWithMessage\<close>, which do not recover. The label
  written when \<open>rpcID\<close> is missing is \<open>rcpID\<close>.
\<close>

definition default_label :: "string \<Rightarrow> string \<Rightarrow> string \<Rightarrow> Message \<Rightarrow> Message res" where
  "default_label test k v msg = (if label_str msg test = [] then set_label k v msg else Inr msg)"

definition CallWithMessageNoWait :: "(string \<Rightarrow> receiver option) \<Rightarrow> Message \<Rightarrow> RPCCallerBase \<Rightarrow>
    (Message \<times> RPCCallerBase) res" where
  "CallWithMessageNoWait GetReceiver msg c =
    rbind (default_label ''caller'' ''caller'' ''-'' (msg\<lparr>Channel := rpcChannel c, Subject := rpcSubject c\<rparr>)) (\<lambda>m1.
    rbind (default_label ''rpcID'' ''rcpID'' RPCSkip m1) (\<lambda>m2.
    rbind (case GetReceiver (label_str m2 ''feature'') of None \<Rightarrow> Inl TypeAssertion | Some send \<Rightarrow> send m2) (\<lambda>_.
    Inr (m2, c\<lparr>Sent := Sent c @ [(label_str m2 ''feature'', m2)]\<rparr>))))"

definition call_timeout :: "ext \<Rightarrow> Message \<Rightarrow> bool \<Rightarrow> int res" where
  "call_timeout X msg skip_empty = (case label msg ''timeout'' of
      None \<Rightarrow> Inr (second * DefaultRPCTimeout)
    | Some t \<Rightarrow> if skip_empty \<and> t = [] then Inr (second * DefaultRPCTimeout)
               else (case ext_parse_duration X t of
                   None \<Rightarrow> Inl (PanicErr ''time: invalid duration'') | Some d \<Rightarrow> Inr d))"

definition call_with_message_begin :: "ext \<Rightarrow> (string \<Rightarrow> receiver option) \<Rightarrow> Message \<Rightarrow> RPCCallerBase \<Rightarrow>
    (call_progress \<times> int) res \<times> RPCCallerBase" where
  "call_with_message_begin X GetReceiver msg c = (case register_call c of
      None \<Rightarrow> (Inr (Blocked, 0), c)
    | Some (rpcID, ch, c1) \<Rightarrow>
        (case rbind (set_label ''rpcID'' rpcID msg) (\<lambda>m1.
              rbind (call_timeout X m1 True) (\<lambda>timeout.
              rbind (CallWithMessageNoWait GetReceiver m1 c1) (\<lambda>(m2, c2). Inr (timeout, c2)))) of
          Inl e \<Rightarrow> (Inl e, release_call rpcID c1)
        | Inr (timeout, c2) \<Rightarrow> (Inr (Waiting rpcID ch, timeout), c2)))"

text \<open>A return for a call. Sending to a full channel blocks the handler (\<open>None\<close>).\<close>

definition HandleReturn :: "Message \<Rightarrow> RPCCallerBase \<Rightarrow> RPCCallerBase option" where
  "HandleReturn m c = (case IDMapGet (Result c) (label_str m ''rpcID'') of
      None \<Rightarrow> Some c
    | Some ch \<Rightarrow>
        let item = (case label m ''error'' of
              Some reason \<Rightarrow> ItemError (ErrRPC reason) | None \<Rightarrow> ItemPayload (Payload m)) in
        (case map_of (Chans c) ch of
           Some [] \<Rightarrow> Some (c\<lparr>Chans := mput ch [item] (Chans c)\<rparr>)
         | _ \<Rightarrow> None))"

section \<open>The provider\<close>

record RPCProvider =
  RPCHandlers :: "string list"
  DefaultReturn :: nat
  provChannel :: string
  provSubject :: string

definition return_to :: "RPCProvider \<Rightarrow> Message \<Rightarrow> nat" where
  "return_to p call = (case ReturnTo call of None \<Rightarrow> DefaultReturn p | Some w \<Rightarrow> w)"

definition RPC_ReturnError :: "RPCProvider \<Rightarrow> Message \<Rightarrow> string \<Rightarrow> nat \<times> Message" where
  "RPC_ReturnError p call reason = (return_to p call,
     zero_message\<lparr>Channel := provChannel p, Subject := provSubject p,
       Labels := Some [(''rpcID'', label_str call ''rpcID''), (''caller'', label_str call ''caller''),
                       (''error'', reason)]\<rparr>)"

definition RPC_Return :: "RPCProvider \<Rightarrow> Message \<Rightarrow> Message \<Rightarrow> nat \<times> Message" where
  "RPC_Return p call retval = (return_to p call,
     zero_message\<lparr>Channel := provChannel p, Subject := provSubject p,
       Labels := Some [(''rpcID'', label_str call ''rpcID''), (''caller'', label_str call ''caller'')],
       Payload := Payload retval, IsRaw := IsRaw retval\<rparr>)"

text \<open>
  How a run of the handler looks from outside: the replies it puts on the channel, whether it
  panics, and whether the timer of the returner fires before the first reply. A method without a
  handler is a call of a \<open>nil\<close> function. \<open>panic_text\<close> is \<open>fmt.Sprintf("%+v", r)\<close>.
\<close>

record handler_run =
  replies :: "Message list"
  panics :: "gopanic option"
  late :: bool

definition handler_of :: "RPCProvider \<Rightarrow> string \<Rightarrow> handler_run \<Rightarrow> handler_run" where
  "handler_of p meth run = (if meth \<in> set (RPCHandlers p) then run
     else \<lparr>replies = [], panics = Some NilDereference, late = False\<rparr>)"

definition error_reply :: "string \<Rightarrow> Message" where
  "error_reply text = zero_message\<lparr>Labels := Some [(''error'', text)]\<rparr>"

definition channel_content :: "(gopanic \<Rightarrow> string) \<Rightarrow> handler_run \<Rightarrow> Message list" where
  "channel_content panic_text run = replies run @
     (case panics run of None \<Rightarrow> [] | Some e \<Rightarrow> [error_reply (panic_text e)])"

definition returner :: "RPCProvider \<Rightarrow> Message \<Rightarrow> bool \<Rightarrow> Message list \<Rightarrow> nat \<times> Message" where
  "returner p msg late_first content = (case content of
      reply # _ \<Rightarrow>
        if late_first then RPC_ReturnError p msg ''timeout''
        else (case label reply ''error'' of
            Some reason \<Rightarrow> RPC_ReturnError p msg reason
          | None \<Rightarrow> RPC_Return p msg reply)
    | [] \<Rightarrow> RPC_ReturnError p msg ''timeout'')"

text \<open>What the router sends, and the panic it passes on.\<close>

definition RPC_Router :: "ext \<Rightarrow> (gopanic \<Rightarrow> string) \<Rightarrow> RPCProvider \<Rightarrow> Message \<Rightarrow> handler_run \<Rightarrow>
    (nat \<times> Message) list \<times> gopanic option" where
  "RPC_Router X panic_text p msg behaviour = (case call_timeout X msg False of
      Inl e \<Rightarrow> ([], Some e)
    | Inr timeout \<Rightarrow>
        let run = handler_of p (label_str msg ''method'') behaviour in
        if label_str msg ''rpcID'' \<noteq> RPCSkip then
          ([returner p msg (late run) (channel_content panic_text run)], panics run)
        else ([], panics run))"

section \<open>Pending calls\<close>

text \<open>
  Calls, returns and time-outs in any order. \<open>waiting\<close> are the calls between their two halves,
  \<open>arrived\<close> the returns that were handled.
\<close>

record rpc_sys =
  caller :: RPCCallerBase
  waiting :: "(string, nat) gomap"
  arrived :: "Message list"

inductive rpc_step :: "rpc_sys \<Rightarrow> rpc_sys \<Rightarrow> bool" where
  call_waits: "call_begin R feature meth params (caller s) = (Inr (Waiting k ch), c) \<Longrightarrow>
     rpc_step s (s\<lparr>caller := c, waiting := (k, ch) # waiting s\<rparr>)"
| call_ends: "call_begin R feature meth params (caller s) = (r, c) \<Longrightarrow> \<nexists>k ch. r = Inr (Waiting k ch) \<Longrightarrow>
     rpc_step s (s\<lparr>caller := c\<rparr>)"
| call_msg_waits: "call_with_message_begin X R msg (caller s) = (Inr (Waiting k ch, t), c) \<Longrightarrow>
     rpc_step s (s\<lparr>caller := c, waiting := (k, ch) # waiting s\<rparr>)"
| call_msg_ends: "call_with_message_begin X R msg (caller s) = (r, c) \<Longrightarrow> \<nexists>k ch t. r = Inr (Waiting k ch, t) \<Longrightarrow>
     rpc_step s (s\<lparr>caller := c\<rparr>)"
| return_handled: "HandleReturn m (caller s) = Some c \<Longrightarrow>
     rpc_step s (s\<lparr>caller := c, arrived := m # arrived s\<rparr>)"
| call_finishes: "map_of (waiting s) k = Some ch \<Longrightarrow> call_end b k ch (caller s) = Some (r, c) \<Longrightarrow>
     rpc_step s (s\<lparr>caller := c, waiting := mdel k (waiting s)\<rparr>)"

inductive rpc_reachable :: "string \<Rightarrow> string \<Rightarrow> rpc_sys \<Rightarrow> bool" for channel subject where
  init: "rpc_reachable channel subject \<lparr>caller = RPCCaller_Init channel subject, waiting = [], arrived = []\<rparr>"
| step: "rpc_reachable channel subject s \<Longrightarrow> rpc_step s t \<Longrightarrow> rpc_reachable channel subject t"

definition item_of :: "Message \<Rightarrow> rpc_item" where
  "item_of m = (case label m ''error'' of
     Some reason \<Rightarrow> ItemError (ErrRPC reason) | None \<Rightarrow> ItemPayload (Payload m))"

text \<open>The buffer of a waiting call is empty or holds one return that named the call.\<close>

definition buffer_ok :: "Message list \<Rightarrow> string \<Rightarrow> rpc_item list option \<Rightarrow> bool" where
  "buffer_ok ms k buf \<longleftrightarrow> buf = Some [] \<or>
     (\<exists>m \<in> set ms. label_str m ''rpcID'' = k \<and> buf = Some [item_of m])"

definition rpc_inv :: "rpc_sys \<Rightarrow> bool" where
  "rpc_inv s \<longleftrightarrow> idmap_inv (Result (caller s)) \<and>
     (\<forall>k. IDMapGet (Result (caller s)) k = map_of (waiting s) k) \<and>
     (\<forall>k ch. map_of (waiting s) k = Some ch \<longrightarrow>
        ch < next_chan (caller s) \<and> buffer_ok (arrived s) k (map_of (Chans (caller s)) ch)) \<and>
     (\<forall>k k' ch. map_of (waiting s) k = Some ch \<longrightarrow> map_of (waiting s) k' = Some ch \<longrightarrow> k = k')"

definition same_calls :: "RPCCallerBase \<Rightarrow> RPCCallerBase \<Rightarrow> bool" where
  "same_calls c d \<longleftrightarrow> Result d = Result c \<and> Chans d = Chans c \<and> next_chan d = next_chan c"

lemma CallRawNoWait_same: "CallRawNoWait R f mt ps k c = Inr (e, d) \<Longrightarrow> same_calls c d"
  by (auto simp: CallRawNoWait_def same_calls_def Let_def rmap_def rbind_Inr_conv split: sum.splits)

lemma CallWithMessageNoWait_same: "CallWithMessageNoWait R m c = Inr (m', d) \<Longrightarrow> same_calls c d"
  by (auto simp: CallWithMessageNoWait_def same_calls_def rbind_Inr_conv)

lemma rpc_inv_same:
  "rpc_inv s \<Longrightarrow> same_calls (caller s) (caller t) \<Longrightarrow> waiting t = waiting s \<Longrightarrow> arrived t = arrived s \<Longrightarrow> rpc_inv t"
  unfolding rpc_inv_def same_calls_def by simp

lemma rpc_inv_register:
  assumes inv: "rpc_inv s" and reg: "register_call (caller s) = Some (k, ch, c)"
  shows "rpc_inv (s\<lparr>caller := c, waiting := (k, ch) # waiting s\<rparr>)" and "map_of (waiting s) k = None"
proof -
  from reg obtain m where put: "IDMapPut (Result (caller s)) (next_chan (caller s)) = Some (k, m)"
    and ch: "ch = next_chan (caller s)" and c: "c = (caller s)\<lparr>Result := m,
      Chans := mput (next_chan (caller s)) [] (Chans (caller s)), next_chan := Suc (next_chan (caller s))\<rparr>"
    by (auto simp: register_call_def split: option.splits)
  have idm: "idmap_inv (Result (caller s))" using inv by (simp add: rpc_inv_def)
  note facts = idm.put_fresh [OF idm put] idm.put_get [OF idm put] idm.put_inv [OF idm put]
  show free: "map_of (waiting s) k = None" using inv facts(1) by (simp add: rpc_inv_def)
  have old: "c' \<noteq> next_chan (caller s)" if "map_of (waiting s) j = Some c'" for j c'
    using inv that by (auto simp: rpc_inv_def)
  show "rpc_inv (s\<lparr>caller := c, waiting := (k, ch) # waiting s\<rparr>)"
    using inv facts free old unfolding rpc_inv_def c ch by (auto simp: buffer_ok_def less_Suc_eq)
qed

lemma rpc_inv_release:
  assumes "rpc_inv s"
  shows "rpc_inv (s\<lparr>caller := release_call k (caller s), waiting := mdel k (waiting s)\<rparr>)"
  using assms by (auto simp: rpc_inv_def release_call_def idm.del_get idm.del_inv)

lemma rpc_inv_register_release:
  assumes "rpc_inv s" and "register_call (caller s) = Some (k, ch, c)" and "same_calls c d"
  shows "rpc_inv (s\<lparr>caller := release_call k d\<rparr>)"
proof -
  let ?t = "s\<lparr>caller := c, waiting := (k, ch) # waiting s\<rparr>"
  have "rpc_inv (?t\<lparr>caller := d\<rparr>)"
    using rpc_inv_same [OF rpc_inv_register(1) [OF assms(1,2)]] assms(3) by simp
  from rpc_inv_release [OF this, of k]
  have "rpc_inv (s\<lparr>caller := release_call k d, waiting := mdel k (waiting s)\<rparr>)" by simp
  moreover have "mdel k (waiting s) = waiting s"
    using rpc_inv_register(2) [OF assms(1,2)] by (simp add: delete_id map_of_eq_None_iff)
  ultimately show ?thesis by simp
qed

lemma rpc_inv_register_same:
  assumes "rpc_inv s" and "register_call (caller s) = Some (k, ch, c)" and "same_calls c d"
  shows "rpc_inv (s\<lparr>caller := d, waiting := (k, ch) # waiting s\<rparr>)"
  using rpc_inv_same [OF rpc_inv_register(1) [OF assms(1,2)]] assms(3) by simp

lemma rpc_inv_return:
  assumes inv: "rpc_inv s" and ret: "HandleReturn m (caller s) = Some c"
  shows "rpc_inv (s\<lparr>caller := c, arrived := m # arrived s\<rparr>)"
proof (cases "map_of (waiting s) (label_str m ''rpcID'')")
  case None
  with inv ret have "c = caller s" by (simp add: HandleReturn_def rpc_inv_def)
  with inv show ?thesis by (auto simp: rpc_inv_def buffer_ok_def)
next
  case (Some ch)
  with inv have get: "IDMapGet (Result (caller s)) (label_str m ''rpcID'') = Some ch"
    by (simp add: rpc_inv_def)
  with ret have c: "c = (caller s)\<lparr>Chans := mput ch [item_of m] (Chans (caller s))\<rparr>"
    by (auto simp: HandleReturn_def item_of_def Let_def split: option.splits list.splits)
  have other: "k = label_str m ''rpcID''" if "map_of (waiting s) k = Some ch" for k
    using inv that Some unfolding rpc_inv_def by blast
  show ?thesis
    using inv other unfolding rpc_inv_def c by (auto simp: buffer_ok_def)
qed

lemma rpc_inv_end:
  assumes inv: "rpc_inv s" and w: "map_of (waiting s) k = Some ch"
    and fin: "call_end b k ch (caller s) = Some (r, c)"
  shows "rpc_inv (s\<lparr>caller := c, waiting := mdel k (waiting s)\<rparr>)"
proof (cases b)
  case True
  with fin rpc_inv_release [OF inv, of k] show ?thesis by (simp add: call_end_def)
next
  case False
  with fin obtain rest where
    c: "c = release_call k ((caller s)\<lparr>Chans := mput ch rest (Chans (caller s))\<rparr>)"
    by (auto simp: call_end_def split: option.splits list.splits)
  have other: "j = k" if "map_of (waiting s) j = Some ch" for j
    using inv that w unfolding rpc_inv_def by blast
  show ?thesis
    using inv other unfolding rpc_inv_def c release_call_def by (auto simp: idm.del_get idm.del_inv)
qed

lemma call_begin_cases:
  assumes "call_begin R f mt ps c = (r, d)"
  obtains (blocked) "d = c" "r = Inr Blocked"
  | (waits) k ch c1 where "register_call c = Some (k, ch, c1)" "same_calls c1 d" "r = Inr (Waiting k ch)"
  | (released) k ch c1 c2 where "register_call c = Some (k, ch, c1)" "same_calls c1 c2"
      "d = release_call k c2" "\<nexists>k ch. r = Inr (Waiting k ch)"
proof (cases "register_call c")
  case None
  with assms blocked show ?thesis by (simp add: call_begin_def)
next
  case (Some kc)
  obtain k ch c1 where kc: "kc = (k, ch, c1)" by (cases kc)
  show ?thesis
  proof (cases "CallRawNoWait R f mt ps k c1")
    case (Inl e)
    with Some kc assms show ?thesis
      by (intro released [of k ch c1 c1]) (auto simp: call_begin_def same_calls_def)
  next
    case (Inr p)
    obtain e c2 where p: "p = (e, c2)" by (cases p)
    from Inr p have same: "same_calls c1 c2" by (simp add: CallRawNoWait_same)
    show ?thesis
    proof (cases e)
      case None
      with Inr p Some kc assms same show ?thesis
        by (intro waits [of k ch c1]) (auto simp: call_begin_def)
    next
      case (Some err)
      with Inr p \<open>register_call c = Some kc\<close> kc assms same show ?thesis
        by (intro released [of k ch c1 c2]) (auto simp: call_begin_def)
    qed
  qed
qed

lemma call_msg_begin_cases:
  assumes "call_with_message_begin X R m c = (r, d)"
  obtains (blocked) "d = c" "r = Inr (Blocked, 0)"
  | (waits) k ch c1 t where "register_call c = Some (k, ch, c1)" "same_calls c1 d" "r = Inr (Waiting k ch, t)"
  | (released) k ch c1 where "register_call c = Some (k, ch, c1)" "d = release_call k c1" "\<nexists>p. r = Inr p"
proof (cases "register_call c")
  case None
  with assms blocked show ?thesis by (simp add: call_with_message_begin_def)
next
  case (Some kc)
  obtain k ch c1 where kc: "kc = (k, ch, c1)" by (cases kc)
  show ?thesis
    using assms Some kc waits [of k ch c1] released [of k ch c1]
    by (auto simp: call_with_message_begin_def rbind_Inr_conv CallWithMessageNoWait_same split: sum.splits)
qed

lemma rpc_step_inv: "rpc_step s t \<Longrightarrow> rpc_inv s \<Longrightarrow> rpc_inv t"
proof (induction rule: rpc_step.induct)
  case (call_waits R f mt ps s k ch c)
  then show ?case by (auto elim!: call_begin_cases intro: rpc_inv_register_same)
next
  case (call_ends R f mt ps s r c)
  then show ?case by (auto elim!: call_begin_cases intro: rpc_inv_register_release)
next
  case (call_msg_waits X R m s k ch t c)
  then show ?case by (auto elim!: call_msg_begin_cases intro: rpc_inv_register_same)
next
  case (call_msg_ends X R m s r c)
  then show ?case
    by (elim call_msg_begin_cases) (auto intro: rpc_inv_register_release simp: same_calls_def)
qed (simp_all add: rpc_inv_return rpc_inv_end)

lemma rpc_inv_init: "rpc_inv \<lparr>caller = RPCCaller_Init channel subject, waiting = [], arrived = []\<rparr>"
  using InitIDMap_inv by (simp add: rpc_inv_def RPCCaller_Init_def IDMapGet_def InitIDMap_def)

lemma rpc_reachable_inv: "rpc_reachable channel subject s \<Longrightarrow> rpc_inv s"
  by (induction rule: rpc_reachable.induct) (auto simp: rpc_inv_init intro: rpc_step_inv)

section \<open>Properties\<close>

text \<open>
  C5: however calls, returns and time-outs interleave, the registered IDs are exactly those of the
  calls that still wait, each with a channel of its own: a finished call leaves nothing behind, and a
  return handled late is dropped. So \<open>IDMapPut\<close> blocks a new call only with \<open>MaxID\<close> calls waiting.
\<close>

theorem rpc_no_leak:
  assumes "rpc_reachable channel subject s"
  shows "(\<forall>k. IDMapGet (Result (caller s)) k = map_of (waiting s) k) \<and>
    (\<forall>k k' ch. map_of (waiting s) k = Some ch \<longrightarrow> map_of (waiting s) k' = Some ch \<longrightarrow> k = k') \<and>
    (\<forall>m. map_of (waiting s) (label_str m ''rpcID'') = None \<longrightarrow> HandleReturn m (caller s) = Some (caller s)) \<and>
    (register_call (caller s) = None \<longleftrightarrow> (\<forall>c < MaxID. map_of (waiting s) (utoa c) \<noteq> None))"
proof -
  have inv: "rpc_inv s" using assms by (rule rpc_reachable_inv)
  then have get: "IDMapGet (Result (caller s)) k = map_of (waiting s) k" for k by (simp add: rpc_inv_def)
  have "idmap_inv (Result (caller s))" using inv by (simp add: rpc_inv_def)
  then have "register_call (caller s) = None \<longleftrightarrow> (\<forall>c < MaxID. map_of (waiting s) (utoa c) \<noteq> None)"
    using IDMapPut_None_iff [of "Result (caller s)" "next_chan (caller s)"] get
    by (simp add: register_call_def id_full_def id_free_def IDMapGet_def split: option.splits) fastforce
  with inv get show ?thesis by (auto simp: HandleReturn_def rpc_inv_def)
qed

definition sample_sys :: rpc_sys where
  "sample_sys = \<lparr>caller = \<lparr>rpcChannel = ''rpc'', rpcSubject = ''call'',
       Result = \<lparr>entries = [(''0'', 0)], Counter = 1\<rparr>, Chans = [(0, [])], next_chan = 1,
       Sent = [(''driver:x'', call_message (RPCCaller_Init ''rpc'' ''call'') ''driver:x'' ''get'' ''p'' ''0'')]\<rparr>,
     waiting = [(''0'', 0)], arrived = []\<rparr>"

lemma sample_call:
  "call_begin (\<lambda>_. Some (\<lambda>_. Inr ())) ''driver:x'' ''get'' ''p'' (RPCCaller_Init ''rpc'' ''call'') =
    (Inr (Waiting ''0'' 0), caller sample_sys)"
  by (simp add: call_begin_def register_call_def RPCCaller_Init_def IDMapPut_def InitIDMap_def
      seek_id.simps next_id_def MaxID_def CallRawNoWait_def Let_def sample_sys_def call_message_def)

lemma sample_reachable: "rpc_reachable ''rpc'' ''call'' sample_sys"
proof -
  let ?i = "\<lparr>caller = RPCCaller_Init ''rpc'' ''call'', waiting = [], arrived = []\<rparr>"
  have "call_begin (\<lambda>_. Some (\<lambda>_. Inr ())) ''driver:x'' ''get'' ''p'' (caller ?i) =
      (Inr (Waiting ''0'' 0), caller sample_sys)"
    using sample_call by simp
  from rpc_reachable.step [OF rpc_reachable.init rpc_step.call_waits [OF this]]
  show ?thesis by (simp add: sample_sys_def)
qed

theorem rpc_no_leak_witness:
  "HandleReturn (zero_message\<lparr>Labels := Some [(''rpcID'', ''7'')]\<rparr>) (caller sample_sys) = Some (caller sample_sys)"
proof -
  let ?m = "zero_message\<lparr>Labels := Some [(''rpcID'', ''7'')]\<rparr>"
  have "map_of (waiting sample_sys) (label_str ?m ''rpcID'') = None"
    by (simp add: sample_sys_def label_str_def label_def labels_def)
  with rpc_no_leak [OF sample_reachable] show ?thesis by blast
qed

text \<open>
  A call that finishes without a time-out returns what a return carried that named this very call
  while it was waiting: its bytes, \<open>nil\<close>, or an error with the reason it gave. A return is held back
  only when an earlier one for the same call has not been read yet.
\<close>

theorem rpc_answer_matches:
  assumes "rpc_reachable channel subject s" and "map_of (waiting s) k = Some ch"
  shows "(\<forall>r c. call_end False k ch (caller s) = Some (r, c) \<longrightarrow>
      (\<exists>m \<in> set (arrived s). label_str m ''rpcID'' = k \<and> r = call_result (item_of m))) \<and>
    (\<forall>m. label_str m ''rpcID'' = k \<longrightarrow>
      (if map_of (Chans (caller s)) ch = Some []
       then \<exists>c. HandleReturn m (caller s) = Some c \<and> (\<exists>d. call_end False k ch c = Some (call_result (item_of m), d))
       else HandleReturn m (caller s) = None \<and> (\<exists>r d. call_end False k ch (caller s) = Some (r, d))))"
proof -
  have inv: "rpc_inv s" using assms(1) by (rule rpc_reachable_inv)
  have get: "IDMapGet (Result (caller s)) k = Some ch"
    and buf: "buffer_ok (arrived s) k (map_of (Chans (caller s)) ch)"
    using inv assms(2) by (simp_all add: rpc_inv_def)
  from buf show ?thesis
    by (auto simp: buffer_ok_def call_end_def HandleReturn_def get item_of_def [symmetric] Let_def)
qed

theorem rpc_answer_matches_witness:
  "\<exists>c d. HandleReturn (zero_message\<lparr>Labels := Some [(''rpcID'', ''0'')], Payload := PRaw ''ok''\<rparr>) (caller sample_sys) = Some c \<and>
     call_end False ''0'' 0 c = Some (Inr (Inr (Some ''ok'')), d)"
proof -
  let ?m = "zero_message\<lparr>Labels := Some [(''rpcID'', ''0'')], Payload := PRaw ''ok''\<rparr>"
  have "map_of (waiting sample_sys) ''0'' = Some 0" "map_of (Chans (caller sample_sys)) 0 = Some []"
    "label_str ?m ''rpcID'' = ''0''" "call_result (item_of ?m) = Inr (Inr (Some ''ok''))"
    by (simp_all add: sample_sys_def label_str_def label_def labels_def item_of_def call_result_def)
  with rpc_answer_matches [OF sample_reachable, of "''0''" 0] show ?thesis by metis
qed

text \<open>
  A call that is not marked \<open>skip\<close> gets exactly one answer, sent to the writer the call names or
  the default one, with the \<open>rpcID\<close> and \<open>caller\<close> of the call: the first reply of the handler, its
  error, the text of its panic, or \<open>timeout\<close>; a call marked \<open>skip\<close> gets none.
\<close>

theorem RPC_Router_answers_once:
  assumes "call_timeout X msg False = Inr t"
  shows "let run' = handler_of p (label_str msg ''method'') run;
      answers = fst (RPC_Router X panic_text p msg run);
      reply = (if late run' then None else case channel_content panic_text run' of [] \<Rightarrow> None | r # _ \<Rightarrow> Some r)
    in if label_str msg ''rpcID'' = RPCSkip then answers = []
       else \<exists>ans. answers = [(return_to p msg, ans)] \<and>
         label ans ''rpcID'' = Some (label_str msg ''rpcID'') \<and> label ans ''caller'' = Some (label_str msg ''caller'') \<and>
         (label ans ''error'', Payload ans) = (case reply of
            None \<Rightarrow> (Some ''timeout'', PNil)
          | Some r \<Rightarrow> (case label r ''error'' of Some reason \<Rightarrow> (Some reason, PNil) | None \<Rightarrow> (None, Payload r)))"
  using assms
  by (auto simp: RPC_Router_def Let_def returner_def RPC_ReturnError_def RPC_Return_def label_def labels_def
      zero_message_def split: list.splits option.splits)

definition sample_provider :: RPCProvider where
  "sample_provider = \<lparr>RPCHandlers = [''get''], DefaultReturn = 1, provChannel = ''rpc'', provSubject = ''return''\<rparr>"

theorem RPC_Router_answers_once_witness:
  "\<exists>ans. fst (RPC_Router no_ext (\<lambda>_. ''nil'') sample_provider
      (zero_message\<lparr>Labels := Some [(''rpcID'', ''7''), (''method'', ''nope'')]\<rparr>)
      \<lparr>replies = [], panics = None, late = False\<rparr>) = [(1, ans)] \<and> label ans ''error'' = Some ''nil''"
proof -
  let ?m = "zero_message\<lparr>Labels := Some [(''rpcID'', ''7''), (''method'', ''nope'')]\<rparr>"
  have "call_timeout no_ext ?m False = Inr (second * DefaultRPCTimeout)"
    by (simp add: call_timeout_def label_def labels_def)
  from RPC_Router_answers_once [OF this, of sample_provider "\<lparr>replies = [], panics = None, late = False\<rparr>" "\<lambda>_. ''nil''"]
  show ?thesis
    by (auto simp: handler_of_def sample_provider_def label_str_def label_def labels_def channel_content_def
        error_reply_def RPCSkip_def return_to_def zero_message_def Let_def)
qed

lemma utoa_not_skip: "utoa c \<noteq> RPCSkip"
proof
  assume "utoa c = RPCSkip"
  with utoa_digits [of c] show False by (simp add: RPCSkip_def is_digit_def)
qed

lemma register_call_key:
  assumes "idmap_inv (Result c)" and "register_call c = Some (k, ch, c1)"
  shows "k \<noteq> RPCSkip" and "k \<noteq> []" and "rpcChannel c1 = rpcChannel c" and "rpcSubject c1 = rpcSubject c"
    and "Sent c1 = Sent c"
proof -
  from assms(2) obtain m where "IDMapPut (Result c) (next_chan c) = Some (k, m)"
    by (auto simp: register_call_def split: option.splits)
  from IDMapPut_SomeD(4) [OF this assms(1)] show "k \<noteq> RPCSkip" "k \<noteq> []"
    using utoa_not_skip by auto
  show "rpcChannel c1 = rpcChannel c" "rpcSubject c1 = rpcSubject c" "Sent c1 = Sent c"
    using assms(2) by (auto simp: register_call_def split: option.splits)
qed

lemma call_begin_message:
  assumes "idmap_inv (Result c)" and "call_begin R f mt ps c = (Inr (Waiting k ch), d)"
  shows "Sent d = Sent c @ [(f, call_message c f mt ps k)]" and "k \<noteq> RPCSkip"
proof -
  from assms(2) obtain c1 where reg: "register_call c = Some (k, ch, c1)"
    and send: "CallRawNoWait R f mt ps k c1 = Inr (None, d)"
    by (auto simp: call_begin_def split: option.splits sum.splits)
  note key = register_call_key [OF assms(1) reg]
  then show "k \<noteq> RPCSkip" by simp
  have "call_message c1 f mt ps k = call_message c f mt ps k" using key by (simp add: call_message_def)
  with send key show "Sent d = Sent c @ [(f, call_message c f mt ps k)]"
    by (auto simp: CallRawNoWait_def Let_def rmap_def rbind_Inr_conv split: sum.splits option.splits)
qed

text \<open>
  C6: a call over the wire and back. The message of a call reaches the provider, the handler replies
  with some bytes, the answer travels back, and the call that waits returns exactly these bytes and
  releases its ID.
\<close>

theorem rpc_round_trip:
  assumes "rpc_reachable channel subject s"
    and "call_begin R feature meth params (caller s) = (Inr (Waiting k ch), c)"
    and "sendable (call_message (caller s) feature meth params k) params"
    and "meth \<in> set (RPCHandlers p)" and "replies run = reply # later" and "\<not> late run"
    and "label reply ''error'' = None" and "Payload reply = PRaw bs" and "IsRaw reply" and "bs \<noteq> []"
    and "name_ok (provChannel p)" and "name_ok (provSubject p)"
    and "int (length k) < 2 ^ 63" and "int (length bs) < 2 ^ 63"
  shows "\<exists>msg ans ret c1 c2. Sent c = Sent (caller s) @ [(feature, call_message (caller s) feature meth params k)] \<and>
    FetchRawMessage scan_odd (wire (call_message (caller s) feature meth params k) params) = Inr (msg, []) \<and>
    fst (RPC_Router X panic_text p msg run) = [(DefaultReturn p, ans)] \<and>
    SendMessage X [] ans = Inr (wire ans bs) \<and> FetchRawMessage scan_odd (wire ans bs) = Inr (ret, []) \<and>
    HandleReturn ret c = Some c1 \<and> call_end False k ch c1 = Some (Inr (Inr (Some bs)), c2) \<and>
    IDMapGet (Result c2) k = None"
proof -
  have inv: "rpc_inv s" using assms(1) by (rule rpc_reachable_inv)
  then have idm: "idmap_inv (Result (caller s))" by (simp add: rpc_inv_def)
  let ?call = "call_message (caller s) feature meth params k"
  let ?msg = "received ?call params"
  let ?ans = "zero_message\<lparr>Channel := provChannel p, Subject := provSubject p,
       Labels := Some [(''rpcID'', k), (''caller'', ''-'')], Payload := PRaw bs, IsRaw := True\<rparr>"
  let ?ret = "received ?ans bs"
  have lab: "label_str ?msg ''rpcID'' = k" "label_str ?msg ''method'' = meth" "label_str ?msg ''caller'' = ''-''"
    "label ?msg ''timeout'' = None" "ReturnTo ?msg = None"
    by (simp_all add: received_def call_message_def label_str_def label_def labels_def zero_message_def)
  have "sendable ?ans bs"
    using assms(11-14) by (simp add: sendable_def labels_def name_ok_def wfmap_def is_space_def)
  then have fetch: "FetchRawMessage scan_odd (wire ?ans bs) = Inr (?ret, [])"
    using fetch_wire [of ?ans bs scan_odd "[]"] by simp
  have router: "fst (RPC_Router X panic_text p ?msg run) = [(DefaultReturn p, ?ans)]"
    using call_begin_message(2) [OF idm assms(2)] assms(4-9) lab
    by (simp add: RPC_Router_def call_timeout_def handler_of_def returner_def channel_content_def RPC_Return_def
        return_to_def Let_def)
  obtain c0 where reg: "register_call (caller s) = Some (k, ch, c0)" and same: "same_calls c0 c"
    using assms(2) by (auto elim!: call_begin_cases)
  from reg same have buf: "map_of (Chans c) ch = Some []" and get: "IDMapGet (Result c) k = Some ch"
    using idm.put_get [OF idm] by (auto simp: register_call_def same_calls_def split: option.splits)
  have lab': "label_str ?ret ''rpcID'' = k" "label ?ret ''error'' = None" "Payload ?ret = PRaw bs"
    using assms(10) by (simp_all add: received_def label_str_def label_def labels_def)
  let ?c1 = "c\<lparr>Chans := mput ch [ItemPayload (PRaw bs)] (Chans c)\<rparr>"
  have ret: "HandleReturn ?ret c = Some ?c1"
    by (simp add: HandleReturn_def lab' get buf)
  have fin: "call_end False k ch ?c1 = Some (Inr (Inr (Some bs)), release_call k (?c1\<lparr>Chans := mput ch [] (Chans ?c1)\<rparr>))"
    by (simp add: call_end_def call_result_def)
  have "SendMessage X [] ?ans = Inr (wire ?ans bs)"
    by (simp add: SendMessage_def payload_bytes_def)
  moreover have "FetchRawMessage scan_odd (wire ?call params) = Inr (?msg, [])"
    using fetch_wire [OF assms(3), of scan_odd "[]"] by simp
  moreover have "IDMapGet (Result (release_call k (?c1\<lparr>Chans := mput ch [] (Chans ?c1)\<rparr>))) k = None"
    by (simp add: release_call_def idm.del_get)
  ultimately show ?thesis
    using call_begin_message(1) [OF idm assms(2)] router fetch ret fin by blast
qed

definition sample_run :: handler_run where
  "sample_run = \<lparr>replies = [zero_message\<lparr>Payload := PRaw ''ok'', IsRaw := True\<rparr>], panics = None, late = False\<rparr>"

theorem rpc_round_trip_witness:
  "\<exists>ret c1 c2. HandleReturn ret (caller sample_sys) = Some c1 \<and>
     call_end False ''0'' 0 c1 = Some (Inr (Inr (Some ''ok'')), c2)"
proof -
  let ?i = "\<lparr>caller = RPCCaller_Init ''rpc'' ''call'', waiting = [], arrived = []\<rparr>"
  have start: "call_begin (\<lambda>_. Some (\<lambda>_. Inr ())) ''driver:x'' ''get'' ''p'' (caller ?i) =
      (Inr (Waiting ''0'' 0), caller sample_sys)"
    using sample_call by simp
  have "sendable (call_message (RPCCaller_Init ''rpc'' ''call'') ''driver:x'' ''get'' ''p'' ''0'') ''p''"
    by code_simp
  moreover have "name_ok (provChannel sample_provider)" "name_ok (provSubject sample_provider)"
    by code_simp+
  moreover have "label (zero_message\<lparr>Payload := PRaw ''ok'', IsRaw := True\<rparr>) ''error'' = None"
    by code_simp
  ultimately show ?thesis
    using rpc_round_trip [OF rpc_reachable.init start, of sample_provider sample_run
        "zero_message\<lparr>Payload := PRaw ''ok'', IsRaw := True\<rparr>" "[]" "''ok''" "\<lambda>_. None" no_ext "\<lambda>_. []"]
    by (auto simp: sample_provider_def sample_run_def)
qed

text \<open>
  A message call without waiting and without an \<open>rpcID\<close> is not marked \<open>skip\<close>, because the mark is
  written under the label \<open>rcpID\<close>: the provider answers it, with an empty \<open>rpcID\<close> that no caller
  has registered.
\<close>

theorem CallWithMessageNoWait_not_skipped:
  assumes "Labels msg = Some ls" and "map_of ls ''rpcID'' = None" and "map_of ls ''timeout'' = None"
    and "CallWithMessageNoWait R msg c = Inr (sent, c')"
  shows "label sent ''rcpID'' = Some RPCSkip \<and> label_str sent ''rpcID'' = [] \<and>
    length (fst (RPC_Router X panic_text p sent run)) = 1"
proof -
  from assms(1,2,4) have "label sent ''rcpID'' = Some RPCSkip \<and> label sent ''rpcID'' = None"
    by (auto simp: CallWithMessageNoWait_def default_label_def set_label_def label_str_def label_def labels_def
        rbind_Inr_conv split: if_splits)
  moreover from assms have "label sent ''timeout'' = None"
    by (auto simp: CallWithMessageNoWait_def default_label_def set_label_def label_str_def label_def labels_def
        rbind_Inr_conv split: if_splits)
  ultimately show ?thesis
    by (simp add: RPC_Router_def call_timeout_def label_str_def RPCSkip_def Let_def)
qed

theorem CallWithMessageNoWait_not_skipped_witness:
  "\<exists>sent c'. CallWithMessageNoWait (\<lambda>_. Some (\<lambda>_. Inr ())) (zero_message\<lparr>Labels := Some []\<rparr>)
      (RPCCaller_Init ''rpc'' ''call'') = Inr (sent, c') \<and>
    length (fst (RPC_Router no_ext (\<lambda>_. []) sample_provider sent sample_run)) = 1"
proof -
  obtain sent c' where call: "CallWithMessageNoWait (\<lambda>_. Some (\<lambda>_. Inr ())) (zero_message\<lparr>Labels := Some []\<rparr>)
      (RPCCaller_Init ''rpc'' ''call'') = Inr (sent, c')"
    by (simp add: CallWithMessageNoWait_def default_label_def set_label_def label_str_def label_def labels_def)
  with CallWithMessageNoWait_not_skipped [of "zero_message\<lparr>Labels := Some []\<rparr>" "[]"] show ?thesis by fastforce
qed

end
