(* ===== verification/Command.thy ===== *)
theory Command
  imports Rpc "HOL-Library.Word"
begin

text \<open>
  \<open>pkg/dipper/commandHandler.go\<close>: a driver executes a command for a workflow session. The labels
  \<open>retry\<close>, \<open>timeout\<close> and \<open>backoff_ms\<close> control how often a failing command is tried again; the
  result goes back to the session as one message on the event bus.

  An attempt runs the handler in one goroutine and waits for its reply in another. Its outcome is
  an argument: the timer fires first, or the messages the handler puts on the reply channel (a panic
  of the handler becomes a reply with the label \<open>error\<close>). Durations are 64-bit words.
\<close>

section \<open>Returning a result\<close>

definition SUCCESS :: string where "SUCCESS = ''success''"
definition FAILURE :: string where "FAILURE = ''failure''"
definition ERROR :: string where "ERROR = ''error''"

record CommandProvider =
  Commands :: "string list"
  ReturnWriter :: nat
  cmdChannel :: string
  cmdSubject :: string

text \<open>The labels of the result, which share the map of the call.\<close>

definition result_labels :: "Message \<Rightarrow> (string, string) gomap \<Rightarrow> (string, string) gomap" where
  "result_labels retval ls0 =
    (let ls = mdel ''timeout'' (mdel ''retry'' (mdel ''backoff_ms'' ls0)) in
     case label retval ''status'' of
       Some status \<Rightarrow>
         (let ls1 = mput ''status'' status ls in
          if status \<noteq> SUCCESS then mput ''reason'' (label_str retval ''reason'') ls1 else ls1)
     | None \<Rightarrow>
         (case label retval ''error'' of
            Some reason \<Rightarrow> mput ''reason'' reason (mput ''status'' ''error'' ls)
          | None \<Rightarrow> mput ''status'' SUCCESS ls))"

text \<open>The call afterwards, and what is sent.\<close>

definition Cmd_Return :: "CommandProvider \<Rightarrow> Message \<Rightarrow> Message \<Rightarrow> Message \<times> (nat \<times> Message) list" where
  "Cmd_Return p call retval = (case Labels call of
      None \<Rightarrow> (call\<lparr>Reply := None\<rparr>, [])
    | Some ls0 \<Rightarrow>
        if map_of ls0 ''sessionID'' = None then (call\<lparr>Reply := None\<rparr>, [])
        else (let ls = result_labels retval ls0 in
          (call\<lparr>Labels := Some ls, Reply := None\<rparr>,
           [(ReturnWriter p, zero_message\<lparr>Channel := cmdChannel p, Subject := cmdSubject p, Labels := Some ls,
               Payload := Payload retval, IsRaw := IsRaw retval\<rparr>)])))"

definition Cmd_ReturnError :: "CommandProvider \<Rightarrow> Message \<Rightarrow> string \<Rightarrow> Message \<times> (nat \<times> Message) list" where
  "Cmd_ReturnError p call errText = Cmd_Return p call (error_reply errText)"

section \<open>Attempts\<close>

type_synonym duration = "64 word"

text \<open>\<open>time.Second\<close> and \<open>time.Millisecond\<close> in nanoseconds.\<close>

definition Second :: duration where "Second = 1000000000"
definition Millisecond :: duration where "Millisecond = 1000000"

record commandWrapper =
  cw_msg :: Message
  cw_retry :: int
  cw_timeout :: duration
  cw_backoff :: duration

datatype attempt_run = TimerFires | Replies "Message list"

datatype attempt_result =
    Retry duration commandWrapper
  | Answered "Message \<times> (nat \<times> Message) list"
  | Hangs

definition failed_reply :: "Message \<Rightarrow> bool" where
  "failed_reply reply \<longleftrightarrow> label reply ''error'' \<noteq> None \<or>
     (case label reply ''status'' of None \<Rightarrow> False | Some status \<Rightarrow> status \<noteq> SUCCESS)"

text \<open>A first reply with the label \<open>no-timeout\<close> announces the real one, waited for without a timer.\<close>

definition final_reply :: "Message list \<Rightarrow> Message option" where
  "final_reply rs = (case rs of
      [] \<Rightarrow> None
    | r # rest \<Rightarrow>
        if label r ''no-timeout'' \<noteq> None then (case rest of [] \<Rightarrow> None | r2 # _ \<Rightarrow> Some r2) else Some r)"

definition api_timer :: "commandWrapper \<Rightarrow> duration" where
  "api_timer w = Second * cw_timeout w"

definition attempt :: "CommandProvider \<Rightarrow> commandWrapper \<Rightarrow> attempt_run \<Rightarrow> attempt_result" where
  "attempt p w run = (case run of
      TimerFires \<Rightarrow> Answered (Cmd_ReturnError p (cw_msg w) ''timeout'')
    | Replies [] \<Rightarrow> Answered (Cmd_ReturnError p (cw_msg w) ''timeout'')
    | Replies rs \<Rightarrow> (case final_reply rs of
          None \<Rightarrow> Hangs
        | Some reply \<Rightarrow>
            if failed_reply reply \<and> cw_retry w > 0 then
              Retry (cw_backoff w * Millisecond)
                (w\<lparr>cw_retry := cw_retry w - 1, cw_backoff := cw_backoff w * 2\<rparr>)
            else Answered (Cmd_Return p (cw_msg w) reply)))"

text \<open>Successive attempts: the delays between them, and how they end (\<open>None\<close>: not yet).\<close>

fun attempts :: "CommandProvider \<Rightarrow> commandWrapper \<Rightarrow> attempt_run list \<Rightarrow>
    duration list \<times> attempt_result option" where
  "attempts p w [] = ([], None)"
| "attempts p w (run # runs) = (case attempt p w run of
      Retry d w' \<Rightarrow> (let (ds, r) = attempts p w' runs in (d # ds, r))
    | r \<Rightarrow> ([], Some r))"

section \<open>Routing a command\<close>

text \<open>\<open>panic(p.ReturnError(...))\<close>: what was sent before the panic.\<close>

type_synonym 'a cmd_res = "((nat \<times> Message) list \<times> gopanic) + 'a"

definition reject :: "CommandProvider \<Rightarrow> Message \<Rightarrow> string \<Rightarrow> 'a cmd_res" where
  "reject p msg errText = Inl (snd (Cmd_ReturnError p msg errText), PanicErr errText)"

definition int_label :: "CommandProvider \<Rightarrow> Message \<Rightarrow> string \<Rightarrow> string \<Rightarrow> int \<Rightarrow> int cmd_res" where
  "int_label p msg name text dflt = (let s = label_str msg name in
     if s = [] then Inr dflt
     else case atoi s of None \<Rightarrow> reject p msg (text @ s) | Some i \<Rightarrow> Inr i)"

definition UnpackLabels :: "CommandProvider \<Rightarrow> Message \<Rightarrow> (int \<times> duration \<times> duration) cmd_res" where
  "UnpackLabels p msg = (case int_label p msg ''retry'' ''[operator] invalid retry: '' 0 of
      Inl e \<Rightarrow> Inl e
    | Inr retry \<Rightarrow> (case int_label p msg ''backoff_ms'' ''[operator] invalid backoff_ms: '' 1000 of
        Inl e \<Rightarrow> Inl e
      | Inr backoff \<Rightarrow> (case int_label p msg ''timeout'' ''[operator] invalid timeout: '' 30 of
          Inl e \<Rightarrow> Inl e
        | Inr timeout \<Rightarrow> Inr (retry, word_of_int timeout, word_of_int backoff))))"

definition Cmd_Router :: "CommandProvider \<Rightarrow> Message \<Rightarrow> attempt_run list \<Rightarrow>
    (duration list \<times> attempt_result option) cmd_res" where
  "Cmd_Router p msg runs = (let meth = label_str msg ''method'' in
     if meth \<notin> set (Commands p) then reject p msg (''[operator] cmd not defined: '' @ meth)
     else case UnpackLabels p msg of
       Inl e \<Rightarrow> Inl e
     | Inr (retry, timeout, backoff) \<Rightarrow>
         Inr (attempts p \<lparr>cw_msg = msg, cw_retry = retry, cw_timeout = timeout, cw_backoff = backoff\<rparr> runs))"

section \<open>Lemmas on attempts\<close>

lemma attempts_bounded:
  assumes "attempts p w runs = (ds, r)"
  shows "length ds \<le> nat (cw_retry w)"
  using assms
proof (induction p w runs arbitrary: ds r rule: attempts.induct)
  case (2 p w run runs)
  show ?case
  proof (cases "attempt p w run")
    case (Retry d w')
    then have w': "cw_retry w > 0" "cw_retry w' = cw_retry w - 1"
      by (auto simp: attempt_def split: attempt_run.splits list.splits option.splits if_splits)
    obtain ds' r' where rest: "attempts p w' runs = (ds', r')" by force
    with 2(1) [OF Retry] have "length ds' \<le> nat (cw_retry w')" by simp
    with 2(2) Retry rest w' show ?thesis by auto
  qed (use 2 in auto)
qed simp

lemma attempts_delays:
  assumes "attempts p w runs = (ds, r)" and "i < length ds"
  shows "ds ! i = cw_backoff w * 2 ^ i * Millisecond"
  using assms
proof (induction p w runs arbitrary: ds r i rule: attempts.induct)
  case (2 p w run runs)
  show ?case
  proof (cases "attempt p w run")
    case (Retry d w')
    then have w': "d = cw_backoff w * Millisecond" "cw_backoff w' = cw_backoff w * 2"
      by (auto simp: attempt_def split: attempt_run.splits list.splits option.splits if_splits)
    obtain ds' r' where rest: "attempts p w' runs = (ds', r')" by force
    with 2(2) Retry have ds: "ds = d # ds'" by simp
    show ?thesis
    proof (cases i)
      case (Suc j)
      with 2(1) [OF Retry rest, of j] 2(3) ds w' show ?thesis by (simp add: algebra_simps)
    qed (simp add: ds w')
  qed (use 2 in auto)
qed simp

text \<open>An attempt that comes to an end: the timer fires or there is a final reply.\<close>

definition ends :: "attempt_run \<Rightarrow> bool" where
  "ends run \<longleftrightarrow> (case run of TimerFires \<Rightarrow> True | Replies rs \<Rightarrow> rs = [] \<or> final_reply rs \<noteq> None)"

lemma attempts_answer:
  assumes "nat (cw_retry w) < length runs" and "list_all ends runs"
  shows "\<exists>ds ans. attempts p w runs = (ds, Some (Answered ans))"
  using assms
proof (induction p w runs rule: attempts.induct)
  case (2 p w run runs)
  show ?case
  proof (cases "attempt p w run")
    case (Retry d w')
    then have w': "cw_retry w > 0" "cw_retry w' = cw_retry w - 1"
      by (auto simp: attempt_def split: attempt_run.splits list.splits option.splits if_splits)
    with 2 Retry show ?thesis by (fastforce simp: nat_diff_distrib)
  next
    case Hangs
    with 2(3) show ?thesis
      by (auto simp: attempt_def ends_def split: attempt_run.splits list.splits option.splits if_splits)
  qed simp
qed simp

text \<open>Attempts that all fail, while retries are left.\<close>

lemma attempts_all_fail:
  assumes "list_all (\<lambda>run. \<exists>rs reply. run = Replies rs \<and> final_reply rs = Some reply \<and> failed_reply reply) runs"
    and "int (length runs) \<le> cw_retry w"
  shows "attempts p w (runs @ more_runs) =
    (let w' = w\<lparr>cw_retry := cw_retry w - int (length runs), cw_backoff := cw_backoff w * 2 ^ length runs\<rparr>;
         (ds, r) = attempts p w' more_runs
     in (map (\<lambda>i. cw_backoff w * 2 ^ i * Millisecond) [0..<length runs] @ ds, r))"
  using assms
proof (induction runs arbitrary: w)
  case Nil
  then show ?case by (simp add: case_prod_beta)
next
  case (Cons run runs)
  then obtain rs reply where run: "run = Replies rs" "final_reply rs = Some reply" "failed_reply reply" by auto
  let ?w = "w\<lparr>cw_retry := cw_retry w - 1, cw_backoff := cw_backoff w * 2\<rparr>"
  have rs: "rs \<noteq> []" using run(2) by (auto simp: final_reply_def)
  have step: "attempt p w run = Retry (cw_backoff w * Millisecond) ?w"
    using run rs Cons.prems by (cases rs) (auto simp: attempt_def)
  have shift: "map (\<lambda>i. cw_backoff w * 2 * 2 ^ i * Millisecond) [0..<length runs] =
      map (\<lambda>i. cw_backoff w * 2 ^ i * Millisecond) [1..<Suc (length runs)]"
    by (rule nth_equalityI) (simp_all add: algebra_simps del: upt_Suc)
  have "attempts p ?w (runs @ more_runs) = (let w' = ?w\<lparr>cw_retry := cw_retry ?w - int (length runs),
        cw_backoff := cw_backoff ?w * 2 ^ length runs\<rparr>; (ds, r) = attempts p w' more_runs
      in (map (\<lambda>i. cw_backoff ?w * 2 ^ i * Millisecond) [0..<length runs] @ ds, r))"
    using Cons by (intro Cons.IH) auto
  then show ?case
    using step shift by (simp add: Let_def case_prod_beta algebra_simps upt_conv_Cons del: upt_Suc)
qed

lemma attempts_answer_from_return:
  "attempts p w runs = (ds, Some (Answered ans)) \<Longrightarrow> \<exists>reply. ans = Cmd_Return p (cw_msg w) reply"
proof (induction p w runs arbitrary: ds rule: attempts.induct)
  case (2 p w run runs)
  show ?case
  proof (cases "attempt p w run")
    case (Retry d w')
    then have "cw_msg w' = cw_msg w"
      by (auto simp: attempt_def split: attempt_run.splits list.splits option.splits if_splits)
    with 2 Retry show ?thesis by (auto split: prod.splits)
  next
    case (Answered a)
    with 2(2) show ?thesis
      by (auto simp: attempt_def Cmd_ReturnError_def split: attempt_run.splits list.splits option.splits if_splits)
  qed (use 2 in auto)
qed simp

section \<open>Properties\<close>

text \<open>The status and, unless the command succeeded, the reason that a reply stands for.\<close>

definition reply_status :: "Message \<Rightarrow> string" where
  "reply_status reply = (case label reply ''status'' of
      Some status \<Rightarrow> status
    | None \<Rightarrow> if label reply ''error'' = None then SUCCESS else ERROR)"

definition reply_reason :: "Message \<Rightarrow> string" where
  "reply_reason reply = (if label reply ''status'' \<noteq> None then label_str reply ''reason''
     else label_str reply ''error'')"

lemma result_labels_get:
  "map_of (result_labels reply ls) k =
    (if k = ''status'' then Some (reply_status reply)
     else if k = ''reason'' \<and> reply_status reply \<noteq> SUCCESS then Some (reply_reason reply)
     else if k = ''retry'' \<or> k = ''timeout'' \<or> k = ''backoff_ms'' then None
     else map_of ls k)"
proof (cases "label reply ''status''")
  case (Some status)
  then show ?thesis
    by (cases "status = SUCCESS")
      (simp_all add: result_labels_def reply_status_def reply_reason_def Let_def label_str_def)
next
  case None
  have "ERROR \<noteq> SUCCESS" "ERROR = ''error''" by (simp_all add: ERROR_def SUCCESS_def)
  with None show ?thesis
    by (cases "label reply ''error''")
      (simp_all add: result_labels_def reply_status_def reply_reason_def Let_def label_str_def)
qed

text \<open>
  A command that belongs to a session is answered by one message, with the status and reason of
  the reply and its payload; it carries the labels of the call except \<open>retry\<close>, \<open>timeout\<close> and
  \<open>backoff_ms\<close>. A command without a session is not answered.
\<close>

theorem Cmd_Return_answer:
  "(label call ''sessionID'' = None \<longrightarrow> snd (Cmd_Return p call reply) = []) \<and>
   (label call ''sessionID'' \<noteq> None \<longrightarrow> (\<exists>ans. snd (Cmd_Return p call reply) = [(ReturnWriter p, ans)] \<and>
      label ans ''status'' = Some (reply_status reply) \<and> Payload ans = Payload reply \<and>
      (reply_status reply \<noteq> SUCCESS \<longrightarrow> label ans ''reason'' = Some (reply_reason reply)) \<and>
      (\<forall>k \<in> set [''retry'', ''timeout'', ''backoff_ms'']. label ans k = None) \<and>
      (\<forall>k. k \<notin> set [''retry'', ''timeout'', ''backoff_ms'', ''status'', ''reason''] \<longrightarrow> label ans k = label call k)))"
proof (cases "Labels call")
  case None
  then show ?thesis by (simp add: Cmd_Return_def label_def labels_def)
next
  case (Some ls)
  then show ?thesis
    by (simp add: Cmd_Return_def label_def labels_def Let_def result_labels_get)
qed

theorem Cmd_Return_answer_witness:
  "\<exists>ans. snd (Cmd_Return \<lparr>Commands = [], ReturnWriter = 3, cmdChannel = ''eventbus'', cmdSubject = ''return''\<rparr>
      (zero_message\<lparr>Labels := Some [(''sessionID'', ''5''), (''retry'', ''2'')]\<rparr>) (error_reply ''boom'')) = [(3, ans)] \<and>
    label ans ''status'' = Some ERROR"
proof -
  have "label (zero_message\<lparr>Labels := Some [(''sessionID'', ''5''), (''retry'', ''2'')]\<rparr>) ''sessionID'' \<noteq> None"
    "reply_status (error_reply ''boom'') = ERROR"
    by (simp_all add: label_def labels_def reply_status_def error_reply_def)
  with Cmd_Return_answer [of "zero_message\<lparr>Labels := Some [(''sessionID'', ''5''), (''retry'', ''2'')]\<rparr>"
      "\<lparr>Commands = [], ReturnWriter = 3, cmdChannel = ''eventbus'', cmdSubject = ''return''\<rparr>" "error_reply ''boom''"]
  show ?thesis by (metis CommandProvider.select_convs(2))
qed

text \<open>
  C30: a command whose attempts all come to an end is answered after at most \<open>retry\<close> further
  attempts, by exactly one message to its session; the delays between the attempts start at
  \<open>backoff_ms\<close> and double, in 64-bit arithmetic.
\<close>

theorem command_answers_once:
  assumes "label_str msg ''method'' \<in> set (Commands p)" and "label msg ''sessionID'' = Some sid"
    and "UnpackLabels p msg = Inr (retry, timeout, backoff)"
    and "list_all ends runs" and "nat retry < length runs"
  shows "\<exists>ds call ans. Cmd_Router p msg runs = Inr (ds, Some (Answered (call, [(ReturnWriter p, ans)]))) \<and>
    length ds \<le> nat retry \<and> (\<forall>i < length ds. ds ! i = backoff * 2 ^ i * Millisecond) \<and>
    label ans ''sessionID'' = Some sid \<and> label ans ''status'' \<noteq> None"
proof -
  let ?w = "\<lparr>cw_msg = msg, cw_retry = retry, cw_timeout = timeout, cw_backoff = backoff\<rparr>"
  obtain ds ans where run: "attempts p ?w runs = (ds, Some (Answered ans))"
    using attempts_answer [of ?w runs p] assms(4,5) by auto
  obtain reply where ans: "ans = Cmd_Return p msg reply"
    using attempts_answer_from_return [OF run] by auto
  obtain ls where "Labels msg = Some ls" "map_of ls ''sessionID'' = Some sid"
    using assms(2) by (auto simp: label_def labels_def split: option.splits)
  then have "\<exists>call a. ans = (call, [(ReturnWriter p, a)]) \<and> label a ''sessionID'' = Some sid \<and> label a ''status'' \<noteq> None"
    by (simp add: ans Cmd_Return_def label_def labels_def Let_def result_labels_get)
  with assms(1,3) run attempts_bounded [OF run] attempts_delays [OF run] show ?thesis
    by (auto simp: Cmd_Router_def)
qed

definition sample_cmd :: Message where
  "sample_cmd = zero_message\<lparr>Labels := Some [(''sessionID'', ''5''), (''method'', ''get''), (''retry'', ''1'')]\<rparr>"

definition sample_cmds :: CommandProvider where
  "sample_cmds = \<lparr>Commands = [''get''], ReturnWriter = 3, cmdChannel = ''eventbus'', cmdSubject = ''return''\<rparr>"

lemma sample_unpack: "UnpackLabels sample_cmds sample_cmd = Inr (1, 30, 1000)"
proof -
  have "atoi ''1'' = Some 1" by code_simp
  then show ?thesis
    by (simp add: UnpackLabels_def int_label_def label_str_def label_def labels_def sample_cmd_def)
qed

theorem command_answers_once_witness:
  "\<exists>ds call ans. Cmd_Router sample_cmds sample_cmd [Replies [error_reply ''x''], TimerFires] =
     Inr (ds, Some (Answered (call, [(3, ans)]))) \<and> length ds \<le> 1"
proof -
  have "label_str sample_cmd ''method'' \<in> set (Commands sample_cmds)" "label sample_cmd ''sessionID'' = Some ''5''"
    "list_all ends [Replies [error_reply ''x''], TimerFires]" "ReturnWriter sample_cmds = 3"
    by (simp_all add: sample_cmd_def sample_cmds_def label_str_def label_def labels_def ends_def final_reply_def
        error_reply_def)
  with command_answers_once [OF _ _ sample_unpack, of "''5''" "[Replies [error_reply ''x''], TimerFires]"]
  show ?thesis by auto
qed

text \<open>
  While retries are left, a failed attempt is repeated; when the first \<open>n = retry\<close> attempts fail,
  there are exactly \<open>n\<close> delays, and the reply of the next attempt is returned whether it failed or not.
\<close>

theorem command_retries_exhausted:
  assumes "label_str msg ''method'' \<in> set (Commands p)"
    and "UnpackLabels p msg = Inr (int n, timeout, backoff)" and "length fails = n"
    and "list_all failed_reply fails" and "list_all (\<lambda>r. label r ''no-timeout'' = None) (last_reply # fails)"
  shows "Cmd_Router p msg (map (\<lambda>r. Replies [r]) fails @ [Replies [last_reply]]) =
    Inr (map (\<lambda>i. backoff * 2 ^ i * Millisecond) [0..<n], Some (Answered (Cmd_Return p msg last_reply)))"
proof -
  let ?w = "\<lparr>cw_msg = msg, cw_retry = int n, cw_timeout = timeout, cw_backoff = backoff\<rparr>"
  have fails: "list_all (\<lambda>run. \<exists>rs reply. run = Replies rs \<and> final_reply rs = Some reply \<and> failed_reply reply)
      (map (\<lambda>r. Replies [r]) fails)"
    using assms(4,5) by (auto simp: list_all_iff final_reply_def)
  have "final_reply [last_reply] = Some last_reply" using assms(5) by (simp add: final_reply_def)
  with attempts_all_fail [OF fails, of ?w p "[Replies [last_reply]]"] assms(1-3) show ?thesis
    by (simp add: Cmd_Router_def attempt_def)
qed

theorem command_retries_exhausted_witness:
  "Cmd_Router sample_cmds sample_cmd [Replies [error_reply ''x''], Replies [error_reply ''y'']] =
    Inr ([1000 * Millisecond], Some (Answered (Cmd_Return sample_cmds sample_cmd (error_reply ''y''))))"
proof -
  have "label_str sample_cmd ''method'' \<in> set (Commands sample_cmds)" "failed_reply (error_reply ''x'')"
    "label (error_reply ''x'') ''no-timeout'' = None" "label (error_reply ''y'') ''no-timeout'' = None"
    by (simp_all add: sample_cmd_def sample_cmds_def label_str_def label_def labels_def failed_reply_def error_reply_def)
  with command_retries_exhausted [of sample_cmd sample_cmds 1 30 1000 "[error_reply ''x'']" "error_reply ''y''"]
    sample_unpack show ?thesis by simp
qed

end
