(* ===== verification/MapUtils.thy ===== *)
theory MapUtils
  imports Value
begin

text \<open>
  \<open>pkg/dipper/mapUtils.go\<close>: reading a value along a dotted path, rewriting every leaf of a
  structure, copying, the locked map operations of the services, and \<open>MergeMap\<close>, the merge with
  the key modifiers \<open>-\<close> (default), \<open>+\<close> (append) and \<open>*\<close> (override) that contexts, parameters
  and exports go through.

  A \<open>range\<close> loop of Go visits the keys of a map in an unspecified order and may or may not visit
  keys created by its body. \<open>mergeModifier\<close> changes the map it ranges over, so its model takes
  the visiting order as an argument (\<open>ord\<close>): for each map a list of the keys visited, in which a
  key that is absent when its turn comes is skipped.
\<close>

section \<open>Reading along a path\<close>

fun get_path :: "gval \<Rightarrow> string list \<Rightarrow> gval option" where
  "get_path v [] = (if v = GNil then None else Some v)"
| "get_path (GMap m) (c # cs) = (case map_of m c of None \<Rightarrow> None | Some v \<Rightarrow> get_path v cs)"
| "get_path (GList xs) (c # cs) =
     (case atoi c of
        None \<Rightarrow> None
      | Some i \<Rightarrow> if 0 \<le> i \<and> nat i < length xs then get_path (xs ! nat i) cs else None)"
| "get_path v (c # cs) = None"

definition GetMapData :: "gval \<Rightarrow> string \<Rightarrow> gval option" where
  "GetMapData from path =
     (if from = GNil then None else get_path from (split_on CHR ''.'' path))"

definition MustGetMapData :: "gval \<Rightarrow> string \<Rightarrow> gval res" where
  "MustGetMapData from path = (case GetMapData from path of
      None \<Rightarrow> Inl (PanicErr (''map error: path not valid: '' @ path))
    | Some v \<Rightarrow> Inr v)"

definition GetMapDataStr :: "gval \<Rightarrow> string \<Rightarrow> string option" where
  "GetMapDataStr from path = Option.bind (GetMapData from path) as_str"

definition MustGetMapDataStr :: "gval \<Rightarrow> string \<Rightarrow> string res" where
  "MustGetMapDataStr from path = rbind (MustGetMapData from path) (\<lambda>v. assert_type (as_str v))"

text \<open>\<open>strconv.ParseBool\<close>.\<close>

definition parse_bool :: "string \<Rightarrow> bool option" where
  "parse_bool s =
     (if s \<in> {''1'', ''t'', ''T'', ''TRUE'', ''true'', ''True''} then Some True
      else if s \<in> {''0'', ''f'', ''F'', ''FALSE'', ''false'', ''False''} then Some False
      else None)"

fun bool_of :: "gval \<Rightarrow> bool option" where
  "bool_of (GBool b) = Some b"
| "bool_of (GInt i) = Some (i \<noteq> 0)"
| "bool_of (GFloat r) = Some (r \<noteq> 0)"
| "bool_of (GStr s) = parse_bool s"
| "bool_of _ = None"

text \<open>The result pair \<open>(ret, ok)\<close> of the Go function; \<open>ret\<close> is false whenever \<open>ok\<close> is.\<close>

definition GetMapDataBool :: "gval \<Rightarrow> string \<Rightarrow> bool \<times> bool" where
  "GetMapDataBool from path = (case Option.bind (GetMapData from path) bool_of of
      None \<Rightarrow> (False, False)
    | Some b \<Rightarrow> (b, True))"

definition MustGetMapDataBool :: "gval \<Rightarrow> string \<Rightarrow> bool res" where
  "MustGetMapDataBool from path = (case GetMapData from path of
      None \<Rightarrow> Inl (PanicErr (''map error: not a bool: '' @ path))
    | Some v \<Rightarrow>
        (case bool_of v of
           Some b \<Rightarrow> Inr b
         | None \<Rightarrow>
             (case v of
                GStr s \<Rightarrow> Inl (PanicErr (''strconv.ParseBool: parsing '' @ s))
              | _ \<Rightarrow> Inl (PanicErr (''map error: not a bool: '' @ path)))))"

text \<open>
  \<open>strconv.Atoi\<close> with its value on an error: zero for a syntax error, the nearest bound for a
  number out of range.
\<close>

definition atoi_val :: "string \<Rightarrow> int \<times> bool" where
  "atoi_val s = (case atoi s of
      Some i \<Rightarrow> (i, True)
    | None \<Rightarrow>
        (case s of
           [] \<Rightarrow> (0, False)
         | c # cs \<Rightarrow>
             let ds = (if c = CHR ''-'' \<or> c = CHR ''+'' then cs else s) in
             if parse_nat ds = None then (0, False)
             else if c = CHR ''-'' then (- (2 ^ 63), False) else (2 ^ 63 - 1, False)))"

text \<open>Converting a \<open>float64\<close> to \<open>int\<close> drops the fraction.\<close>

definition trunc :: "rat \<Rightarrow> int" where
  "trunc r = (if 0 \<le> r then \<lfloor>r\<rfloor> else \<lceil>r\<rceil>)"

definition GetMapDataInt :: "gval \<Rightarrow> string \<Rightarrow> int \<times> bool" where
  "GetMapDataInt from path = (case GetMapData from path of
      Some (GInt i) \<Rightarrow> (i, True)
    | Some (GFloat r) \<Rightarrow> (trunc r, True)
    | Some (GStr s) \<Rightarrow> atoi_val s
    | _ \<Rightarrow> (0, False))"

definition MustGetMapDataInt :: "gval \<Rightarrow> string \<Rightarrow> int res" where
  "MustGetMapDataInt from path = (case GetMapData from path of
      Some (GInt i) \<Rightarrow> Inr i
    | Some (GFloat r) \<Rightarrow> Inr (trunc r)
    | Some (GStr s) \<Rightarrow>
        (case atoi s of
           None \<Rightarrow> Inl (PanicErr (''strconv.Atoi: parsing '' @ s))
         | Some i \<Rightarrow> Inr i)
    | _ \<Rightarrow> Inl (PanicErr (''map error: not a int: '' @ path)))"

section \<open>Rewriting the leaves of a structure\<close>

text \<open>
  An \<open>ItemProcessor\<close> gets the dotted path and the value of a leaf; \<open>Some v\<close> replaces the leaf.
\<close>

type_synonym item_processor = "string \<Rightarrow> gval \<Rightarrow> gval option res"

definition ext_prefix :: "string \<Rightarrow> string \<Rightarrow> string" where
  "ext_prefix prefixes key =
     (if prefixes \<noteq> [] \<and> key \<noteq> [] then prefixes @ ''.'' @ key else key)"

text \<open>
  The new value of the slot that holds \<open>v\<close>. Replacing a leaf by \<open>nil\<close> removes the key from a
  map (\<open>None\<close>) and is a reflection panic in a list. A compiled expression is a pointer to a
  structure without exported fields, which the traversal leaves alone.
\<close>

fun RecursiveWithPrefix :: "string \<Rightarrow> item_processor \<Rightarrow> gval \<Rightarrow> gval option res"
  and recursive_fields :: "string \<Rightarrow> item_processor \<Rightarrow> gmap \<Rightarrow> gmap res"
  and recursive_elems :: "string \<Rightarrow> item_processor \<Rightarrow> nat \<Rightarrow> gval list \<Rightarrow> gval list res" where
  "RecursiveWithPrefix p f (GMap m) = rmap (\<lambda>m'. Some (GMap m')) (recursive_fields p f m)"
| "RecursiveWithPrefix p f (GList xs) = rmap (\<lambda>xs'. Some (GList xs')) (recursive_elems p f 0 xs)"
| "RecursiveWithPrefix p f (GRegex r) = Inr (Some (GRegex r))"
| "RecursiveWithPrefix p f v = rbind (f p v) (\<lambda>r. Inr (case r of
      None \<Rightarrow> Some v
    | Some nv \<Rightarrow> if nv = GNil then None else Some nv))"
| "recursive_fields p f [] = Inr []"
| "recursive_fields p f ((k, v) # m) =
     rbind (RecursiveWithPrefix (ext_prefix p k) f v) (\<lambda>r.
     rbind (recursive_fields p f m) (\<lambda>m'.
     Inr (case r of None \<Rightarrow> m' | Some v' \<Rightarrow> (k, v') # m')))"
| "recursive_elems p f i [] = Inr []"
| "recursive_elems p f i (v # vs) =
     rbind (RecursiveWithPrefix (ext_prefix p (utoa i)) f v) (\<lambda>r.
     rbind (case r of None \<Rightarrow> Inl ReflectPanic | Some v' \<Rightarrow> Inr v') (\<lambda>v'.
     rbind (recursive_elems p f (Suc i) vs) (\<lambda>vs'. Inr (v' # vs'))))"

text \<open>At the root there is no parent to write to, so a scalar is not even processed.\<close>

definition Recursive :: "item_processor \<Rightarrow> gval \<Rightarrow> gval res" where
  "Recursive f v = (case v of
      GMap m \<Rightarrow> rmap GMap (recursive_fields [] f m)
    | GList xs \<Rightarrow> rmap GList (recursive_elems [] f 0 xs)
    | _ \<Rightarrow> Inr v)"

section \<open>Locked map operations\<close>

text \<open>
  An \<open>interface{}\<close> is nil only when it has no dynamic type: \<open>Iface None\<close> with a pointer type
  inside is an interface that holds a nil pointer and is not equal to nil.
\<close>

datatype 'a iface = NilIface | Iface 'a

definition LockGetMap :: "('k, 'v) gomap option \<Rightarrow> 'k \<Rightarrow> 'v option" where
  "LockGetMap resource key = (case resource of None \<Rightarrow> None | Some m \<Rightarrow> map_of m key)"

definition LockSetMap ::
  "('k, 'v) gomap option \<Rightarrow> 'k \<Rightarrow> 'v \<Rightarrow> ('v iface \<times> ('k, 'v) gomap) res" where
  "LockSetMap resource key val = (case resource of
      None \<Rightarrow> Inl ReflectPanic
    | Some m \<Rightarrow>
        Inr ((case map_of m key of None \<Rightarrow> NilIface | Some v \<Rightarrow> Iface v), mput key val m))"

definition LockCheckDeleteMap ::
  "('k, 'v) gomap option \<Rightarrow> 'k \<Rightarrow> 'v iface \<Rightarrow> 'v iface \<times> ('k, 'v) gomap option" where
  "LockCheckDeleteMap resource key checkValue = (case resource of
      None \<Rightarrow> (NilIface, None)
    | Some m \<Rightarrow>
        (let r = map_of m key;
             m' = (case checkValue of
                     NilIface \<Rightarrow> mdel key m
                   | Iface c \<Rightarrow> (case r of None \<Rightarrow> m | Some v \<Rightarrow> if v = c then mdel key m else m))
         in ((case r of None \<Rightarrow> NilIface | Some v \<Rightarrow> Iface v), Some m')))"

section \<open>Copying\<close>

fun DeepCopy :: "gval \<Rightarrow> gval res"
  and deep_copy_list :: "gval list \<Rightarrow> gval list res"
  and deep_copy_fields :: "gmap \<Rightarrow> gmap \<Rightarrow> gmap res" where
  "DeepCopy (GMap m) = rmap GMap (deep_copy_fields m [])"
| "DeepCopy (GList xs) = rmap GList (deep_copy_list xs)"
| "DeepCopy v = Inr v"
| "deep_copy_list [] = Inr []"
| "deep_copy_list (v # vs) =
     rbind (DeepCopy v) (\<lambda>v'. rbind (deep_copy_list vs) (\<lambda>vs'. Inr (v' # vs')))"
| "deep_copy_fields [] acc = Inr acc"
| "deep_copy_fields ((k, v) # m) acc =
     rbind (DeepCopy v) (\<lambda>v'. deep_copy_fields m (mput k v' acc))"

definition DeepCopyMap :: "gmap option \<Rightarrow> gmap option res" where
  "DeepCopyMap m = (case m of
      None \<Rightarrow> Inr None
    | Some f \<Rightarrow>
        rbind (DeepCopy (GMap f)) (\<lambda>v. case v of
           GMap r \<Rightarrow> Inr (Some r)
         | _ \<Rightarrow> Inl (PanicErr ''map error: not a map'')))"

definition MustDeepCopyMap :: "gmap option \<Rightarrow> gmap option res" where
  "MustDeepCopyMap m = DeepCopyMap m"

definition MustDeepCopy :: "gval \<Rightarrow> gval res" where
  "MustDeepCopy v = DeepCopy v"

section \<open>Merging with key modifiers\<close>

definition CombineMap :: "ext \<Rightarrow> gmap option \<Rightarrow> gval \<Rightarrow> gmap option res" where
  "CombineMap X dst src =
     (if src = GNil then Inr dst
      else rmap Some (ext_mergo X (case dst of None \<Rightarrow> [] | Some m \<Rightarrow> m) src))"

text \<open>Absent and nil are the same to the modifiers \<open>-\<close> and \<open>+\<close>.\<close>

definition unset :: "gmap \<Rightarrow> string \<Rightarrow> bool" where
  "unset m k \<longleftrightarrow> map_of m k = None \<or> map_of m k = Some GNil"

text \<open>First loop: a key \<open>k-\<close> gives \<open>k\<close> a value unless it has one.\<close>

definition default_step :: "string \<Rightarrow> gmap \<Rightarrow> gmap res" where
  "default_step k m = (case map_of m k of
      None \<Rightarrow> Inr m
    | Some v \<Rightarrow>
        if k = [] then Inl IndexOutOfRange
        else if last k = CHR ''-'' then
          Inr (mdel k (if unset m (butlast k) then mput (butlast k) v m else m))
        else Inr m)"

text \<open>
  What \<open>k+\<close> appends: strings to strings, lists to lists, anything to an unset key; \<open>nil\<close>
  appends nothing.
\<close>

definition append_value :: "gval \<Rightarrow> gval \<Rightarrow> gval res" where
  "append_value ev v = (case v of
      GStr s \<Rightarrow> (case ev of GStr e \<Rightarrow> Inr (GStr (e @ s)) | _ \<Rightarrow> Inl TypeAssertion)
    | GNil \<Rightarrow> Inr ev
    | GList ys \<Rightarrow> (case ev of GList xs \<Rightarrow> Inr (GList (xs @ ys)) | _ \<Rightarrow> Inl ReflectPanic)
    | _ \<Rightarrow> Inl ReflectPanic)"

text \<open>Second loop; \<open>self\<close> handles the map found under a key without modifier.\<close>

definition modifier_step :: "(gmap \<Rightarrow> gmap res) \<Rightarrow> string \<Rightarrow> gmap \<Rightarrow> gmap res" where
  "modifier_step self k m = (case map_of m k of
      None \<Rightarrow> Inr m
    | Some v \<Rightarrow>
        if k = [] then Inl IndexOutOfRange
        else if last k = CHR ''+'' then
          rbind (if unset m (butlast k) then Inr v
                 else append_value (the (map_of m (butlast k))) v) (\<lambda>nv.
          Inr (mdel k (mput (butlast k) nv m)))
        else if last k = CHR ''*'' then Inr (mdel k (mput (butlast k) v m))
        else (case v of
           GMap vm \<Rightarrow> rbind (self vm) (\<lambda>vm'. Inr (mput k (GMap vm') m))
         | _ \<Rightarrow> Inr m))"

fun range_loop :: "(string \<Rightarrow> gmap \<Rightarrow> gmap res) \<Rightarrow> string list \<Rightarrow> gmap \<Rightarrow> gmap res" where
  "range_loop body [] m = Inr m"
| "range_loop body (k # ks) m = rbind (body k m) (range_loop body ks)"

text \<open>
  The recursion follows the nesting of the map; \<open>d\<close> bounds it, and \<open>mergeModifier_depth\<close> below
  shows that every bound that covers the map gives the same result.
\<close>

fun merge_modifier :: "(gmap \<Rightarrow> string list) \<Rightarrow> nat \<Rightarrow> gmap \<Rightarrow> gmap res" where
  "merge_modifier ord 0 m = Inr m"
| "merge_modifier ord (Suc d) m =
     rbind (range_loop default_step (ord m) m) (\<lambda>m1.
     range_loop (modifier_step (merge_modifier ord d)) (ord m1) m1)"

definition mergeModifier :: "(gmap \<Rightarrow> string list) \<Rightarrow> gmap \<Rightarrow> gmap res" where
  "mergeModifier ord m = merge_modifier ord (gdepth (GMap m)) m"

definition MergeMap :: "ext \<Rightarrow> (gmap \<Rightarrow> string list) \<Rightarrow> gmap option \<Rightarrow> gval \<Rightarrow> gmap option res" where
  "MergeMap X ord dst src = rbind (CombineMap X dst src) (\<lambda>r. case r of
      None \<Rightarrow> Inr None
    | Some m \<Rightarrow> rmap Some (mergeModifier ord m))"

section \<open>Paths\<close>

lemma get_path_GNil [simp]: "get_path GNil cs = None"
  by (cases cs) simp_all

lemma get_path_append:
  "ys \<noteq> [] \<Longrightarrow> get_path v (xs @ ys) = Option.bind (get_path v xs) (\<lambda>w. get_path w ys)"
proof (induction v xs rule: get_path.induct)
  case (1 v)
  then show ?case by (cases "v = GNil") simp_all
qed (auto split: option.splits)

lemma get_path_wf: "get_path v cs = Some x \<Longrightarrow> wfval v \<Longrightarrow> wfval x"
  by (induction v cs rule: get_path.induct)
    (auto simp: wfvals_iff split: if_splits option.splits dest: wffields_map_of)

section \<open>Leaves\<close>

fun scalar :: "gval \<Rightarrow> bool" where
  "scalar (GMap m) = False"
| "scalar (GList xs) = False"
| "scalar (GRegex p) = False"
| "scalar _ = True"

definition canonical :: "string list \<Rightarrow> bool" where
  "canonical cs \<longleftrightarrow> (\<forall>c \<in> set cs. c \<noteq> [] \<and> (\<forall>i. atoi c = Some i \<longrightarrow> c = itoa i))"

definition leaf_result :: "gval \<Rightarrow> gval option \<Rightarrow> gval option" where
  "leaf_result leaf r = (case r of None \<Rightarrow> Some leaf | Some nv \<Rightarrow> if nv = GNil then None else Some nv)"

lemma canonical_Cons: "canonical (c # cs) \<longleftrightarrow>
    c \<noteq> [] \<and> (\<forall>i. atoi c = Some i \<longrightarrow> c = itoa i) \<and> canonical cs"
  by (auto simp: canonical_def)

lemma foldl_ext_prefix:
  "p \<noteq> [] \<Longrightarrow> [] \<notin> set cs \<Longrightarrow> foldl ext_prefix p cs = join_on CHR ''.'' (p # cs)"
proof (induction cs arbitrary: p)
  case Nil
  then show ?case by simp
next
  case (Cons c cs)
  from Cons.prems have p: "ext_prefix p c = p @ CHR ''.'' # c" by (auto simp: ext_prefix_def)
  have "foldl ext_prefix (ext_prefix p c) cs = join_on CHR ''.'' (ext_prefix p c # cs)"
    using Cons.prems p by (intro Cons.IH) simp_all
  with Cons.prems p show ?case by (cases cs) (simp_all add: join_on_Cons)
qed

lemma recursive_fields_keys: "recursive_fields p f m = Inr m' \<Longrightarrow> fst ` set m' \<subseteq> fst ` set m"
proof (induction m arbitrary: m')
  case Nil
  then show ?case by simp
next
  case (Cons kv m)
  obtain k v where kv: "kv = (k, v)" by force
  with Cons.prems obtain r m1 where "recursive_fields p f m = Inr m1"
    and "m' = (case r of None \<Rightarrow> m1 | Some w \<Rightarrow> (k, w) # m1)"
    by (auto simp: rbind_Inr_conv)
  with Cons.IH [of m1] kv show ?case by (auto split: option.splits)
qed

lemma recursive_fields_map_of:
  assumes "recursive_fields p f m = Inr m'" and "wfmap m" and "map_of m k = Some v"
  shows "\<exists>r. RecursiveWithPrefix (ext_prefix p k) f v = Inr r \<and> map_of m' k = r"
  using assms
proof (induction m arbitrary: m')
  case Nil
  then show ?case by simp
next
  case (Cons kv m)
  obtain k' v' where kv: "kv = (k', v')" by force
  from Cons.prems(1) kv obtain r m1 where
    r: "RecursiveWithPrefix (ext_prefix p k') f v' = Inr r" and
    m1: "recursive_fields p f m = Inr m1" and
    m': "m' = (case r of None \<Rightarrow> m1 | Some w \<Rightarrow> (k', w) # m1)"
    by (auto simp: rbind_Inr_conv)
  have dom: "map_of m1 k' = None"
  proof -
    from m1 have "fst ` set m1 \<subseteq> fst ` set m" by (rule recursive_fields_keys)
    with Cons.prems(2) kv show ?thesis by (auto simp: wfmap_def map_of_eq_None_iff)
  qed
  show ?case
  proof (cases "k = k'")
    case True
    with Cons.prems(3) kv r m' dom show ?thesis by (auto split: option.splits)
  next
    case False
    with Cons.prems kv have "wfmap m" "map_of m k = Some v" by (auto simp: wfmap_def)
    from Cons.IH [OF m1 this] False m' show ?thesis by (auto split: option.splits)
  qed
qed

lemma recursive_elems_nth:
  assumes "recursive_elems p f n xs = Inr xs'" and "i < length xs"
  shows "i < length xs' \<and>
    RecursiveWithPrefix (ext_prefix p (utoa (n + i))) f (xs ! i) = Inr (Some (xs' ! i))"
  using assms
proof (induction xs arbitrary: n i xs')
  case Nil
  then show ?case by simp
next
  case (Cons x xs)
  then show ?case
    by (cases i) (fastforce simp: rbind_Inr_conv split: option.splits)+
qed

lemma recursive_at_path:
  assumes "RecursiveWithPrefix p f v = Inr r" and "get_path v cs = Some leaf"
    and "scalar leaf" and "wfval v" and "canonical cs"
  shows "\<exists>q. f (foldl ext_prefix p cs) leaf = Inr q \<and>
    Option.bind r (\<lambda>w. get_path w cs) = leaf_result leaf q"
  using assms
proof (induction cs arbitrary: p v r)
  case Nil
  then have v: "v = leaf" "leaf \<noteq> GNil" by (auto split: if_splits)
  with Nil.prems have "rbind (f p leaf) (\<lambda>q. Inr (leaf_result leaf q)) = Inr r"
    by (cases leaf) (simp_all add: leaf_result_def)
  then obtain q where "f p leaf = Inr q" "r = leaf_result leaf q" by (auto simp: rbind_Inr_conv)
  with v show ?case by (auto simp: leaf_result_def split: option.split)
next
  case (Cons c cs)
  show ?case
  proof (cases v)
    case (GMap m)
    from Cons.prems GMap obtain m' where m': "recursive_fields p f m = Inr m'" "r = Some (GMap m')"
      by (auto simp: rmap_def rbind_Inr_conv)
    from Cons.prems GMap obtain w where w: "map_of m c = Some w" "get_path w cs = Some leaf"
      by (auto split: option.splits)
    from Cons.prems GMap have wf: "wfmap m" "wfval w"
      using w by (auto dest: wffields_map_of)
    obtain s where s: "RecursiveWithPrefix (ext_prefix p c) f w = Inr s" "map_of m' c = s"
      using recursive_fields_map_of [OF m'(1) wf(1) w(1)] by blast
    have "canonical cs" using Cons.prems by (simp add: canonical_Cons)
    from Cons.IH [OF s(1) w(2) Cons.prems(3) wf(2) this] s(2) m'(2) show ?thesis by (cases s) simp_all
  next
    case (GList xs)
    from Cons.prems GList obtain xs' where xs': "recursive_elems p f 0 xs = Inr xs'" "r = Some (GList xs')"
      by (auto simp: rmap_def rbind_Inr_conv)
    from Cons.prems GList obtain i where
      i: "atoi c = Some i" "0 \<le> i" "nat i < length xs" "get_path (xs ! nat i) cs = Some leaf"
      by (auto split: option.splits if_splits)
    from Cons.prems(5) i(1,2) have c: "c = utoa (nat i)" and can: "canonical cs"
      by (auto simp: canonical_Cons itoa_def)
    have e: "nat i < length xs'"
      "RecursiveWithPrefix (ext_prefix p c) f (xs ! nat i) = Inr (Some (xs' ! nat i))"
      using recursive_elems_nth [OF xs'(1) i(3)] c by simp_all
    have "wfval (xs ! nat i)" using Cons.prems(4) GList i(3) by (simp add: wfvals_iff)
    from Cons.IH [OF e(2) i(4) Cons.prems(3) this can] e(1) i xs'(2) show ?thesis by simp
  qed (use Cons.prems in \<open>auto split: option.splits\<close>)
qed

section \<open>Copies\<close>

lemma mput_fresh: "k \<notin> set (map fst m) \<Longrightarrow> mput k v m = m @ [(k, v)]"
  by (induction m) auto

lemma deep_copy_id:
  "wfval v \<Longrightarrow> DeepCopy v = Inr v"
  "wfvals vs \<Longrightarrow> deep_copy_list vs = Inr vs"
  "wffields m \<Longrightarrow> distinct (map fst (acc @ m)) \<Longrightarrow> deep_copy_fields m acc = Inr (acc @ m)"
proof (induction v and vs and m acc rule: DeepCopy_deep_copy_list_deep_copy_fields.induct)
qed (auto simp: wfmap_def mput_fresh)

section \<open>What \<open>mergeModifier\<close> computes\<close>

abbreviation suffixed :: "string \<Rightarrow> char \<Rightarrow> string" where
  "suffixed b c \<equiv> b @ [c]"

definition plain_key :: "string \<Rightarrow> bool" where
  "plain_key k \<longleftrightarrow> k \<noteq> [] \<and> last k \<notin> {CHR ''-'', CHR ''+'', CHR ''*''}"

text \<open>
  The keys a user writes: a plain name, or a plain name with one modifier; \<open>k+\<close> holds a string or
  a list and \<open>k*\<close> is not a map, and not both are given for the same name.
\<close>

definition keys_ok :: "gmap \<Rightarrow> bool" where
  "keys_ok m \<longleftrightarrow> (\<forall>k. map_of m k \<noteq> None \<longrightarrow> plain_key k \<or> plain_key (butlast k))"

definition values_ok :: "gmap \<Rightarrow> bool" where
  "values_ok m \<longleftrightarrow> (\<forall>b. plain_key b \<longrightarrow>
     (\<forall>v. map_of m (suffixed b CHR ''+'') = Some v \<longrightarrow>
        (\<exists>s. v = GStr s) \<or> (\<exists>xs. v = GList xs)) \<and>
     (\<forall>v. map_of m (suffixed b CHR ''*'') = Some v \<longrightarrow>
        as_map v = None \<and> map_of m (suffixed b CHR ''+'') = None))"

text \<open>An order that visits every key of the map once.\<close>

definition visits :: "(gmap \<Rightarrow> string list) \<Rightarrow> bool" where
  "visits ord \<longleftrightarrow> (\<forall>m. distinct (ord m) \<and> fst ` set m \<subseteq> set (ord m))"

text \<open>The value that the documentation gives to a plain key, stated without any loop.\<close>

definition with_default :: "gmap \<Rightarrow> string \<Rightarrow> gval option" where
  "with_default m b =
     (if unset m b \<and> map_of m (suffixed b CHR ''-'') \<noteq> None
      then map_of m (suffixed b CHR ''-'') else map_of m b)"

definition resolve_key :: "(gmap \<Rightarrow> gmap res) \<Rightarrow> gmap \<Rightarrow> string \<Rightarrow> gval option" where
  "resolve_key self m b =
     (case map_of m (suffixed b CHR ''*'') of
        Some v \<Rightarrow> Some v
      | None \<Rightarrow>
          (case map_of m (suffixed b CHR ''+'') of
             Some v \<Rightarrow>
               (case with_default m b of
                  None \<Rightarrow> Some v
                | Some ev \<Rightarrow>
                    if ev = GNil then Some v
                    else (case append_value ev v of Inr nv \<Rightarrow> Some nv | Inl _ \<Rightarrow> None))
           | None \<Rightarrow>
               (case with_default m b of
                  Some (GMap vm) \<Rightarrow> (case self vm of Inr vm' \<Rightarrow> Some (GMap vm') | Inl _ \<Rightarrow> None)
                | x \<Rightarrow> x)))"

lemma suffixed_not_plain [simp]:
  "c \<in> {CHR ''-'', CHR ''+'', CHR ''*''} \<Longrightarrow> \<not> plain_key (suffixed b c)"
  by (simp add: plain_key_def)

lemma plain_neq_suffixed:
  "plain_key b \<Longrightarrow> c \<in> {CHR ''-'', CHR ''+'', CHR ''*''} \<Longrightarrow> b \<noteq> suffixed b' c"
  by (auto simp: plain_key_def)

lemma unset_cong: "map_of m k = map_of n k \<Longrightarrow> unset m k = unset n k"
  by (simp add: unset_def)

lemma last_butlast: "k \<noteq> [] \<Longrightarrow> last k = c \<Longrightarrow> k = suffixed (butlast k) c"
  by auto

subsection \<open>The first loop\<close>

lemma default_step_total: "map_of m [] = None \<Longrightarrow> \<exists>m'. default_step k m = Inr m'"
  by (auto simp: default_step_def split: option.split)

lemma default_step_map_of:
  assumes "default_step k m = Inr m'"
  shows "map_of m' j =
    (if map_of m k \<noteq> None \<and> last k = CHR ''-''
     then (if j = k then None
           else if j = butlast k \<and> unset m (butlast k) then map_of m k else map_of m j)
     else map_of m j)"
  using assms by (auto simp: default_step_def split: option.splits if_splits)

lemma keys_ok_default_step:
  assumes "keys_ok m" and "default_step k m = Inr m'"
  shows "keys_ok m'"
proof -
  have k: "map_of m k \<noteq> None \<Longrightarrow> last k = CHR ''-'' \<Longrightarrow> plain_key (butlast k)"
    using assms(1) by (fastforce simp: keys_ok_def plain_key_def)
  then show ?thesis
    using assms(1) default_step_map_of [OF assms(2)] by (auto simp: keys_ok_def split: if_splits)
qed

lemma default_loop_map_of:
  assumes "range_loop default_step ks m = Inr m'" and "distinct ks" and "keys_ok m" and "plain_key b"
  shows "map_of m' b = (if suffixed b CHR ''-'' \<in> set ks then with_default m b else map_of m b)"
    and "map_of m' (suffixed b CHR ''-'') =
      (if suffixed b CHR ''-'' \<in> set ks then None else map_of m (suffixed b CHR ''-''))"
    and "c \<in> {CHR ''+'', CHR ''*''} \<Longrightarrow> map_of m' (suffixed b c) = map_of m (suffixed b c)"
    and "keys_ok m'"
proof -
  have "map_of m' b = (if suffixed b CHR ''-'' \<in> set ks then with_default m b else map_of m b) \<and>
    map_of m' (suffixed b CHR ''-'') =
      (if suffixed b CHR ''-'' \<in> set ks then None else map_of m (suffixed b CHR ''-'')) \<and>
    (c \<in> {CHR ''+'', CHR ''*''} \<longrightarrow> map_of m' (suffixed b c) = map_of m (suffixed b c)) \<and> keys_ok m'"
    using assms(1-3)
  proof (induction ks arbitrary: m)
    case Nil
    then show ?case by simp
  next
    case (Cons k ks)
    then obtain m1 where m1: "default_step k m = Inr m1" "range_loop default_step ks m1 = Inr m'"
      by (auto simp: rbind_Inr_conv)
    from Cons.prems(3) m1(1) have ok1: "keys_ok m1" by (rule keys_ok_default_step)
    from Cons.prems(2) have d: "distinct ks" "k \<notin> set ks" by simp_all
    note IH = Cons.IH [OF m1(2) d(1) ok1]
    note st = default_step_map_of [OF m1(1)]
    have other: "map_of m k \<noteq> None \<Longrightarrow> last k = CHR ''-'' \<Longrightarrow> butlast k \<noteq> suffixed b c'"
      if "c' \<in> {CHR ''-'', CHR ''+'', CHR ''*''}" for c'
      using Cons.prems(3) that by (auto simp: keys_ok_def plain_key_def)
    have kb: "map_of m k \<noteq> None \<Longrightarrow> last k = CHR ''-'' \<Longrightarrow> b = butlast k \<Longrightarrow> k = suffixed b CHR ''-''"
      using Cons.prems(3) assms(4) by (cases k rule: rev_cases) (auto simp: plain_key_def keys_ok_def)
    have bk: "b \<noteq> k" if "last k = CHR ''-''"
      using that assms(4) by (auto simp: plain_key_def)
    show ?case
    proof (cases "k = suffixed b CHR ''-''")
      case True
      with IH st d assms(4) other bk show ?thesis
        by (auto simp: with_default_def unset_def)
    next
      case False
      have frame: "map_of m1 j = map_of m j"
        if "map_of m k \<noteq> None \<Longrightarrow> last k = CHR ''-'' \<Longrightarrow> j \<noteq> k \<and> j \<noteq> butlast k" for j
        using that by (simp add: st)
      have "map_of m1 b = map_of m b"
        by (rule frame) (use kb False bk in blast)
      moreover have "map_of m1 (suffixed b CHR ''-'') = map_of m (suffixed b CHR ''-'')"
        by (rule frame) (use other [of "CHR ''-''"] False in auto)
      moreover have "map_of m1 (suffixed b c) = map_of m (suffixed b c)"
        if "c \<in> {CHR ''+'', CHR ''*''}"
        by (rule frame) (use other [of c] that in auto)
      ultimately show ?thesis using IH False by (auto simp: with_default_def unset_def)
    qed
  qed
  then show "map_of m' b = (if suffixed b CHR ''-'' \<in> set ks then with_default m b else map_of m b)"
    and "map_of m' (suffixed b CHR ''-'') =
      (if suffixed b CHR ''-'' \<in> set ks then None else map_of m (suffixed b CHR ''-''))"
    and "c \<in> {CHR ''+'', CHR ''*''} \<Longrightarrow> map_of m' (suffixed b c) = map_of m (suffixed b c)"
    and "keys_ok m'"
    by blast+
qed

subsection \<open>The second loop\<close>

lemma modifier_step_frame:
  assumes "modifier_step self k m = Inr m'" and "j \<noteq> k"
    and "map_of m k \<noteq> None \<Longrightarrow> last k \<in> {CHR ''+'', CHR ''*''} \<Longrightarrow> j \<noteq> butlast k"
  shows "map_of m' j = map_of m j"
  using assms
  by (auto simp: modifier_step_def rbind_Inr_conv split: option.splits if_splits gval.splits)

lemma modifier_step_dom:
  assumes "modifier_step self k m = Inr m'" and "map_of m' j \<noteq> None"
  shows "map_of m j \<noteq> None \<or> (map_of m k \<noteq> None \<and> k \<noteq> [] \<and> last k \<in> {CHR ''+'', CHR ''*''} \<and> j = butlast k)"
  using assms
  by (auto simp: modifier_step_def rbind_Inr_conv split: option.splits if_splits gval.splits)

lemma keys_ok_modifier_step:
  assumes "keys_ok m" and "modifier_step self k m = Inr m'"
  shows "keys_ok m'"
proof -
  have "plain_key (butlast k)" if "map_of m k \<noteq> None" "last k \<in> {CHR ''+'', CHR ''*''}"
    using assms(1) that by (fastforce simp: keys_ok_def plain_key_def)
  with assms(1) modifier_step_dom [OF assms(2)] show ?thesis unfolding keys_ok_def by metis
qed

lemma modifier_step_star:
  assumes "modifier_step self (suffixed b CHR ''*'') m = Inr m'" and "map_of m (suffixed b CHR ''*'') = Some v"
  shows "map_of m' b = Some v" and "map_of m' (suffixed b CHR ''*'') = None"
  using assms by (auto simp: modifier_step_def)

lemma modifier_step_plus:
  assumes "modifier_step self (suffixed b CHR ''+'') m = Inr m'" and "map_of m (suffixed b CHR ''+'') = Some v"
  shows "map_of m' (suffixed b CHR ''+'') = None"
    and "\<exists>nv. map_of m' b = Some nv \<and> (if unset m b then nv = v else append_value (the (map_of m b)) v = Inr nv)"
  using assms by (auto simp: modifier_step_def rbind_Inr_conv)

lemma modifier_step_plain:
  assumes "modifier_step self b m = Inr m'" and "plain_key b"
  shows "map_of m' b = (case map_of m b of
      Some (GMap vm) \<Rightarrow> (case self vm of Inr vm' \<Rightarrow> Some (GMap vm') | Inl _ \<Rightarrow> None)
    | x \<Rightarrow> x)"
    and "\<And>j. j \<noteq> b \<Longrightarrow> map_of m' j = map_of m j"
  using assms
  by (auto simp: modifier_step_def plain_key_def rbind_Inr_conv split: option.splits if_splits gval.splits)

text \<open>What the loop over \<open>ks\<close> makes of the key \<open>b\<close>.\<close>

definition loop_value :: "(gmap \<Rightarrow> gmap res) \<Rightarrow> string list \<Rightarrow> gmap \<Rightarrow> string \<Rightarrow> gval option" where
  "loop_value self ks m b =
     (if suffixed b CHR ''*'' \<in> set ks \<and> map_of m (suffixed b CHR ''*'') \<noteq> None
      then map_of m (suffixed b CHR ''*'')
      else if suffixed b CHR ''+'' \<in> set ks \<and> map_of m (suffixed b CHR ''+'') \<noteq> None
      then (if unset m b then map_of m (suffixed b CHR ''+'')
            else (case append_value (the (map_of m b)) (the (map_of m (suffixed b CHR ''+''))) of
                    Inr nv \<Rightarrow> Some nv | Inl _ \<Rightarrow> None))
      else if b \<in> set ks
      then (case map_of m b of
              Some (GMap vm) \<Rightarrow> (case self vm of Inr vm' \<Rightarrow> Some (GMap vm') | Inl _ \<Rightarrow> None)
            | x \<Rightarrow> x)
      else map_of m b)"

definition key_values_ok :: "gmap \<Rightarrow> string \<Rightarrow> bool" where
  "key_values_ok m b \<longleftrightarrow>
     (\<forall>v. map_of m (suffixed b CHR ''+'') = Some v \<longrightarrow> (\<exists>s. v = GStr s) \<or> (\<exists>xs. v = GList xs)) \<and>
     (\<forall>v. map_of m (suffixed b CHR ''*'') = Some v \<longrightarrow>
        as_map v = None \<and> map_of m (suffixed b CHR ''+'') = None)"

lemma append_value_not_map:
  "append_value ev v = Inr nv \<Longrightarrow> (\<exists>s. v = GStr s) \<or> (\<exists>xs. v = GList xs) \<Longrightarrow> as_map nv = None"
  by (auto simp: append_value_def split: gval.splits)

lemma append_to_map_panics:
  "(\<exists>s. v = GStr s) \<or> (\<exists>xs. v = GList xs) \<Longrightarrow> append_value (GMap vm) v \<noteq> Inr nv"
  by (auto simp: append_value_def)

lemma case_not_map:
  "as_map v = None \<Longrightarrow> (case v of GMap vm \<Rightarrow> f vm | _ \<Rightarrow> x) = x"
  by (cases v) auto

lemma modifier_loop_absent:
  assumes "modifier_step self k m = Inr m1" and "map_of m k = None"
  shows "m1 = m" and "loop_value self (k # ks) m b = loop_value self ks m b"
  using assms by (auto simp: modifier_step_def loop_value_def)

lemma loop_value_frame:
  assumes "k \<notin> {b, suffixed b CHR ''+'', suffixed b CHR ''*''}"
    and "map_of m1 b = map_of m b"
    and "map_of m1 (suffixed b CHR ''+'') = map_of m (suffixed b CHR ''+'')"
    and "map_of m1 (suffixed b CHR ''*'') = map_of m (suffixed b CHR ''*'')"
  shows "loop_value self (k # ks) m b = loop_value self ks m1 b"
    and "key_values_ok m1 b = key_values_ok m b"
  using assms by (auto simp: loop_value_def unset_def key_values_ok_def)

lemma loop_value_no_modifiers:
  assumes "map_of m (suffixed b CHR ''+'') = None" and "map_of m (suffixed b CHR ''*'') = None"
    and "map_of m b = Some v" and "as_map v = None"
  shows "loop_value self ks m b = Some v" and "key_values_ok m b"
  using assms by (auto simp: loop_value_def key_values_ok_def split: gval.splits)

lemma modifier_loop_step:
  assumes step: "modifier_step self k m = Inr m1" and k: "k \<notin> set ks" and ok: "keys_ok m"
    and b: "plain_key b" and kv: "key_values_ok m b"
  shows "loop_value self (k # ks) m b = loop_value self ks m1 b \<and> key_values_ok m1 b"
proof (cases "map_of m k")
  case None
  with modifier_loop_absent [OF step None] kv show ?thesis by simp
next
  case (Some v)
  let ?P = "suffixed b CHR ''+''" and ?S = "suffixed b CHR ''*''"
  have neq: "b \<noteq> ?P" "b \<noteq> ?S" "?P \<noteq> ?S" by simp_all
  have frame: "map_of m1 j = map_of m j"
    if "j \<noteq> k" "last k \<in> {CHR ''+'', CHR ''*''} \<Longrightarrow> j \<noteq> butlast k" for j
    using modifier_step_frame [OF step] that by blast
  consider "k = ?S" | "k = ?P" | "k = b" | "k \<notin> {b, ?P, ?S}" by blast
  then show ?thesis
  proof cases
    case 1
    have P: "map_of m1 ?P = None" using kv Some 1 frame [of ?P] by (auto simp: key_values_ok_def)
    have "map_of m1 b = Some v" "map_of m1 ?S = None"
      using modifier_step_star step Some 1 by blast+
    moreover have "as_map v = None" using kv Some 1 by (auto simp: key_values_ok_def)
    ultimately have "loop_value self ks m1 b = Some v \<and> key_values_ok m1 b"
      using loop_value_no_modifiers [OF P] by blast
    moreover have "loop_value self (k # ks) m b = Some v" using 1 Some by (simp add: loop_value_def)
    ultimately show ?thesis by simp
  next
    case 2
    have S: "map_of m ?S = None" "map_of m1 ?S = None"
      using kv Some 2 frame [of ?S] by (auto simp: key_values_ok_def)
    have sv: "(\<exists>s. v = GStr s) \<or> (\<exists>xs. v = GList xs)" using kv Some 2 by (auto simp: key_values_ok_def)
    obtain nv where nv: "map_of m1 ?P = None" "map_of m1 b = Some nv"
      "if unset m b then nv = v else append_value (the (map_of m b)) v = Inr nv"
      using modifier_step_plus step Some 2 by blast
    then have "as_map nv = None"
      using sv append_value_not_map by (cases "unset m b") auto
    then have "loop_value self ks m1 b = Some nv \<and> key_values_ok m1 b"
      using loop_value_no_modifiers [OF nv(1) S(2) nv(2)] by blast
    moreover have "loop_value self (k # ks) m b = Some nv"
      using 2 Some S(1) nv(3) by (auto simp: loop_value_def)
    ultimately show ?thesis by simp
  next
    case 3
    note pl = modifier_step_plain [OF step [unfolded 3] b]
    have same: "map_of m1 ?P = map_of m ?P" "map_of m1 ?S = map_of m ?S"
      using pl(2) neq by (metis)+
    have kv1: "key_values_ok m1 b" using kv same by (simp add: key_values_ok_def)
    have nks: "b \<notin> set ks" using k 3 by simp
    show ?thesis
    proof (cases v)
      case (GMap vm)
      then obtain vm' where vm': "self vm = Inr vm'"
        using step Some 3 b by (auto simp: modifier_step_def plain_key_def rbind_Inr_conv split: if_splits)
      then have m1b: "map_of m1 b = Some (GMap vm')" using pl(1) Some 3 GMap by simp
      have bad: "(case append_value (GMap w) u of Inr nv \<Rightarrow> Some nv | Inl _ \<Rightarrow> None) = None"
        if "map_of m ?P = Some u" for w u
        using kv that append_to_map_panics [of u w]
        by (cases "append_value (GMap w) u") (auto simp: key_values_ok_def)
      have "loop_value self (k # ks) m b = loop_value self ks m1 b"
        using same Some 3 GMap m1b vm' nks neq bad
        by (cases "map_of m ?P") (simp_all add: loop_value_def unset_def)
      with kv1 show ?thesis by simp
    next
    qed (use pl(1) Some 3 same nks neq kv1 in \<open>auto simp: loop_value_def unset_def\<close>)
  next
    case 4
    have bk: "last k \<in> {CHR ''+'', CHR ''*''} \<Longrightarrow> j \<noteq> butlast k" if "j \<in> {b, ?P, ?S}" for j
    proof
      assume l: "last k \<in> {CHR ''+'', CHR ''*''}" and j: "j = butlast k"
      from ok Some l have "k \<noteq> []" "plain_key (butlast k)"
        by (fastforce simp: keys_ok_def plain_key_def)+
      with j that have "j = b" by auto
      with j l 4 \<open>k \<noteq> []\<close> show False by (metis append_butlast_last_id insertCI insertE singletonD)
    qed
    have "map_of m1 b = map_of m b" "map_of m1 ?P = map_of m ?P" "map_of m1 ?S = map_of m ?S"
      using 4 bk by (auto intro!: frame)
    with loop_value_frame [OF 4] kv show ?thesis by blast
  qed
qed

lemma modifier_loop_map_of:
  assumes "range_loop (modifier_step self) ks m = Inr m'" and "distinct ks" and "keys_ok m"
    and "plain_key b" and "key_values_ok m b"
  shows "map_of m' b = loop_value self ks m b"
  using assms
proof (induction ks arbitrary: m)
  case Nil
  then show ?case by (simp add: loop_value_def)
next
  case (Cons k ks)
  then obtain m1 where m1: "modifier_step self k m = Inr m1" "range_loop (modifier_step self) ks m1 = Inr m'"
    by (auto simp: rbind_Inr_conv)
  have "loop_value self (k # ks) m b = loop_value self ks m1 b \<and> key_values_ok m1 b"
    using modifier_loop_step [OF m1(1)] Cons.prems by auto
  moreover have "keys_ok m1" using Cons.prems(3) m1(1) by (rule keys_ok_modifier_step)
  ultimately show ?case using Cons.IH [OF m1(2)] Cons.prems by simp
qed

text \<open>Keys with a modifier do not survive the loop.\<close>

lemma modifier_step_stays_none:
  assumes "modifier_step self k m = Inr m'" and "keys_ok m"
    and "c \<in> {CHR ''-'', CHR ''+'', CHR ''*''}" and "map_of m (suffixed b c) = None"
  shows "map_of m' (suffixed b c) = None"
proof -
  have "butlast k \<noteq> suffixed b c" if "map_of m k \<noteq> None" "last k \<in> {CHR ''+'', CHR ''*''}"
    using assms(2,3) that by (fastforce simp: keys_ok_def plain_key_def)
  with modifier_step_dom [OF assms(1)] assms(4) show ?thesis by metis
qed

lemma modifier_loop_stays_none:
  assumes "range_loop (modifier_step self) ks m = Inr m'" and "keys_ok m"
    and "c \<in> {CHR ''-'', CHR ''+'', CHR ''*''}" and "map_of m (suffixed b c) = None"
  shows "map_of m' (suffixed b c) = None"
  using assms
proof (induction ks arbitrary: m)
  case (Cons k ks)
  then show ?case
    using modifier_step_stays_none keys_ok_modifier_step by (fastforce simp: rbind_Inr_conv)
qed simp

lemma modifier_loop_removes:
  assumes "range_loop (modifier_step self) ks m = Inr m'" and "keys_ok m"
    and "c \<in> {CHR ''+'', CHR ''*''}" and "suffixed b c \<in> set ks"
  shows "map_of m' (suffixed b c) = None"
proof -
  have gone: "map_of m2 (suffixed b c) = None"
    if "modifier_step self (suffixed b c) m1 = Inr m2" for m1 m2
    using that assms(3) by (auto simp: modifier_step_def rbind_Inr_conv split: option.splits if_splits)
  show ?thesis using assms(1,2,4)
  proof (induction ks arbitrary: m)
    case (Cons k ks)
    then obtain m1 where m1: "modifier_step self k m = Inr m1" "range_loop (modifier_step self) ks m1 = Inr m'"
      by (auto simp: rbind_Inr_conv)
    have ok1: "keys_ok m1" using Cons.prems(2) m1(1) by (rule keys_ok_modifier_step)
    show ?case
    proof (cases "k = suffixed b c")
      case True
      with modifier_loop_stays_none [OF m1(2) ok1, of c b] gone [of m m1] m1(1) assms(3) show ?thesis by auto
    next
      case False
      with Cons.IH [OF m1(2) ok1] Cons.prems(3) show ?thesis by auto
    qed
  qed simp
qed

lemma keys_ok_modifier_loop:
  "range_loop (modifier_step self) ks m = Inr m' \<Longrightarrow> keys_ok m \<Longrightarrow> keys_ok m'"
  by (induction ks arbitrary: m) (auto simp: rbind_Inr_conv dest: keys_ok_modifier_step)

subsection \<open>Every bound that covers the nesting gives the same result\<close>

lemma gdepth_map_of: "map_of m k = Some v \<Longrightarrow> gdepth v \<le> gdepth_fields m"
  by (induction m) (auto split: if_splits simp: le_max_iff_disj)

lemma gdepth_fields_mput: "gdepth_fields (mput k v m) \<le> max (gdepth v) (gdepth_fields m)"
  by (induction m) auto

lemma gdepth_fields_mdel: "gdepth_fields (mdel k m) \<le> gdepth_fields m"
  by (induction m) (auto simp: le_max_iff_disj)

lemma gdepth_fields_mput_le:
  "gdepth v \<le> d \<Longrightarrow> gdepth_fields m \<le> d \<Longrightarrow> gdepth_fields (mput k v m) \<le> d"
  using gdepth_fields_mput [of k v m] by simp

lemma gdepth_fields_mdel_le: "gdepth_fields m \<le> d \<Longrightarrow> gdepth_fields (mdel k m) \<le> d"
  using gdepth_fields_mdel [of k m] by simp

lemma gdepth_map_of_le: "map_of m k = Some v \<Longrightarrow> gdepth_fields m \<le> d \<Longrightarrow> gdepth v \<le> d"
  using gdepth_map_of [of m k v] by simp

lemmas depth_intros = gdepth_fields_mput_le gdepth_fields_mdel_le gdepth_map_of_le

lemma append_value_depth: "append_value ev v = Inr nv \<Longrightarrow> gdepth nv \<le> gdepth ev"
  by (auto simp: append_value_def split: gval.splits)

lemma default_step_depth:
  "default_step k m = Inr m' \<Longrightarrow> gdepth_fields m \<le> d \<Longrightarrow> gdepth_fields m' \<le> d"
  by (auto simp: default_step_def intro: depth_intros split: option.splits if_splits)

lemma modifier_step_depth:
  assumes "modifier_step self k m = Inr m'" and "gdepth_fields m \<le> d"
    and "\<And>vm vm'. self vm = Inr vm' \<Longrightarrow> gdepth_fields vm' \<le> gdepth_fields vm"
  shows "gdepth_fields m' \<le> d"
proof (cases "map_of m k")
  case None
  with assms(1,2) show ?thesis by (simp add: modifier_step_def)
next
  case (Some v)
  have v: "gdepth v \<le> d" using Some assms(2) by (rule gdepth_map_of_le)
  have nv: "gdepth nv \<le> d" if "\<not> unset m (butlast k)" "append_value (the (map_of m (butlast k))) v = Inr nv" for nv
    using that assms(2) append_value_depth [OF that(2)] gdepth_map_of_le [of m "butlast k"]
    by (force simp: unset_def)
  have vm: "Suc (gdepth_fields vm') \<le> d" if "v = GMap vm" "self vm = Inr vm'" for vm vm'
    using v that assms(3) [OF that(2)] by simp
  show ?thesis using assms(1,2) Some v nv vm
    by (auto simp: modifier_step_def rbind_Inr_conv intro!: gdepth_fields_mput_le gdepth_fields_mdel_le
        split: if_splits gval.splits)
qed

lemma range_loop_depth:
  assumes "range_loop body ks m = Inr m'" and "gdepth_fields m \<le> d"
    and "\<And>k m m'. body k m = Inr m' \<Longrightarrow> gdepth_fields m \<le> d \<Longrightarrow> gdepth_fields m' \<le> d"
  shows "gdepth_fields m' \<le> d"
  using assms(1,2) by (induction ks arbitrary: m) (auto simp: rbind_Inr_conv dest: assms(3))

lemma merge_modifier_depth:
  "merge_modifier ord d m = Inr m' \<Longrightarrow> gdepth_fields m' \<le> gdepth_fields m"
proof (induction d arbitrary: m m')
  case 0
  then show ?case by simp
next
  case (Suc d)
  then obtain m1 where m1: "range_loop default_step (ord m) m = Inr m1"
    "range_loop (modifier_step (merge_modifier ord d)) (ord m1) m1 = Inr m'"
    by (auto simp: rbind_Inr_conv)
  have "gdepth_fields m1 \<le> gdepth_fields m"
    using m1(1) by (rule range_loop_depth) (auto intro: default_step_depth)
  with m1(2) show ?case
    by (rule range_loop_depth) (auto intro: modifier_step_depth Suc.IH)
qed

lemma modifier_step_self_cong:
  assumes "gdepth_fields m \<le> d"
    and "\<And>vm. gdepth (GMap vm) \<le> d \<Longrightarrow> self vm = self' vm"
  shows "modifier_step self k m = modifier_step self' k m"
proof -
  have "self vm = self' vm" if "map_of m k = Some (GMap vm)" for vm
    using assms gdepth_map_of_le [OF that] by blast
  then show ?thesis by (auto simp: modifier_step_def split: option.split gval.split)
qed

lemma range_loop_cong_depth:
  assumes "gdepth_fields m \<le> d"
    and "\<And>k m. gdepth_fields m \<le> d \<Longrightarrow> body k m = body' k m"
    and "\<And>k m m'. body k m = Inr m' \<Longrightarrow> gdepth_fields m \<le> d \<Longrightarrow> gdepth_fields m' \<le> d"
  shows "range_loop body ks m = range_loop body' ks m"
  using assms(1)
proof (induction ks arbitrary: m)
  case (Cons k ks)
  have "body k m = body' k m" using assms(2) Cons.prems by blast
  moreover have "range_loop body ks m1 = range_loop body' ks m1" if "body k m = Inr m1" for m1
    using Cons assms(3) that by blast
  ultimately show ?case by (auto intro: rbind_cong)
qed simp

lemma mergeModifier_depth:
  "gdepth (GMap m) \<le> d \<Longrightarrow> gdepth (GMap m) \<le> d' \<Longrightarrow>
   merge_modifier ord d m = merge_modifier ord d' m"
proof (induction d arbitrary: d' m)
  case 0
  then show ?case by simp
next
  case (Suc d)
  from Suc.prems obtain e where e: "d' = Suc e" by (cases d') auto
  from Suc.prems e have m: "gdepth_fields m \<le> d" "gdepth_fields m \<le> e" by auto
  have eq: "range_loop (modifier_step (merge_modifier ord d)) (ord m1) m1 =
      range_loop (modifier_step (merge_modifier ord e)) (ord m1) m1"
    if "range_loop default_step (ord m) m = Inr m1" for m1
  proof (rule range_loop_cong_depth [where d = "min d e"])
    show "gdepth_fields m1 \<le> min d e"
      using that by (rule range_loop_depth) (use m in \<open>auto intro: default_step_depth\<close>)
    show "modifier_step (merge_modifier ord d) k m2 = modifier_step (merge_modifier ord e) k m2"
      if "gdepth_fields m2 \<le> min d e" for k m2
      using that by (rule modifier_step_self_cong) (auto intro: Suc.IH)
    show "gdepth_fields m3 \<le> min d e"
      if "modifier_step (merge_modifier ord d) k m2 = Inr m3" "gdepth_fields m2 \<le> min d e" for k m2 m3
      using that by (rule modifier_step_depth) (rule merge_modifier_depth)
  qed
  show ?case using e eq by (cases "range_loop default_step (ord m) m") simp_all
qed

subsection \<open>The two loops together\<close>

lemma visits_covers: "visits ord \<Longrightarrow> k \<notin> set (ord m) \<Longrightarrow> map_of m k = None"
  by (auto simp: visits_def map_of_eq_None_iff)

lemma mergeModifier_unfold:
  "mergeModifier ord m = rbind (range_loop default_step (ord m) m) (\<lambda>m1.
     range_loop (modifier_step (merge_modifier ord (gdepth_fields m))) (ord m1) m1)"
  by (simp add: mergeModifier_def)

lemma mergeModifier_first_loop:
  assumes "visits ord" and "keys_ok m" and "plain_key b" and "range_loop default_step (ord m) m = Inr m1"
  shows "map_of m1 b = with_default m b"
    and "map_of m1 (suffixed b CHR ''-'') = None"
    and "c \<in> {CHR ''+'', CHR ''*''} \<Longrightarrow> map_of m1 (suffixed b c) = map_of m (suffixed b c)"
    and "keys_ok m1" and "gdepth_fields m1 \<le> gdepth_fields m"
proof -
  have d: "distinct (ord m)" using assms(1) by (simp add: visits_def)
  note loop = default_loop_map_of [OF assms(4) d assms(2,3)]
  have cov: "suffixed b CHR ''-'' \<notin> set (ord m) \<Longrightarrow> map_of m (suffixed b CHR ''-'') = None"
    using assms(1) by (rule visits_covers)
  show "map_of m1 b = with_default m b" using loop(1) cov by (auto simp: with_default_def)
  show "map_of m1 (suffixed b CHR ''-'') = None" using loop(2) cov by auto
  show "c \<in> {CHR ''+'', CHR ''*''} \<Longrightarrow> map_of m1 (suffixed b c) = map_of m (suffixed b c)"
    by (rule loop(3))
  show "keys_ok m1" by (rule loop(4))
  show "gdepth_fields m1 \<le> gdepth_fields m"
    using assms(4) by (rule range_loop_depth) (auto intro: default_step_depth)
qed

lemma resolve_from_loops:
  assumes "visits ord" and "map_of m1 b = with_default m b"
    and "\<And>c. c \<in> {CHR ''+'', CHR ''*''} \<Longrightarrow> map_of m1 (suffixed b c) = map_of m (suffixed b c)"
    and "\<And>vm. map_of m1 b = Some (GMap vm) \<Longrightarrow> self vm = self' vm"
  shows "loop_value self (ord m1) m1 b = resolve_key self' m b"
proof -
  have cov: "k \<notin> set (ord m1) \<Longrightarrow> map_of m1 k = None" for k
    using assms(1) by (rule visits_covers)
  have P: "map_of m1 (suffixed b CHR ''+'') = map_of m (suffixed b CHR ''+'')"
    and S: "map_of m1 (suffixed b CHR ''*'') = map_of m (suffixed b CHR ''*'')"
    using assms(3) by simp_all
  note covs = cov [of b] cov [of "suffixed b CHR ''+''"] cov [of "suffixed b CHR ''*''"]
  consider (star) v where "map_of m (suffixed b CHR ''*'') = Some v"
    | (plus) v where "map_of m (suffixed b CHR ''*'') = None" "map_of m (suffixed b CHR ''+'') = Some v"
    | (none) "map_of m (suffixed b CHR ''*'') = None" "map_of m (suffixed b CHR ''+'') = None"
    by fastforce
  then show ?thesis
  proof cases
    case star
    then have "suffixed b CHR ''*'' \<in> set (ord m1)" using covs(3) S by fastforce
    with star S show ?thesis by (simp add: loop_value_def resolve_key_def)
  next
    case plus
    then have "suffixed b CHR ''+'' \<in> set (ord m1)" using covs(2) P by fastforce
    with plus P S assms(2) show ?thesis
      by (cases "with_default m b") (simp_all add: loop_value_def resolve_key_def unset_def)
  next
    case none
    show ?thesis
    proof (cases "with_default m b")
      case None
      with none P S assms(2) show ?thesis by (simp add: loop_value_def resolve_key_def)
    next
      case (Some v)
      then have "b \<in> set (ord m1)" using covs(1) assms(2) by fastforce
      with none P S assms(2,4) Some show ?thesis
        by (cases v) (simp_all add: loop_value_def resolve_key_def)
    qed
  qed
qed

text \<open>
  C29: whatever order the runtime visits the keys in, \<open>mergeModifier\<close> gives each plain key the
  documented value (\<open>k-\<close> only when unset, \<open>k+\<close> appended, \<open>k*\<close> overriding, nested maps handled the
  same way), and no key with a modifier is left, provided that no key carries two modifiers, no
  name has both \<open>k+\<close> and \<open>k*\<close>, and these two do not hold maps.
\<close>

theorem mergeModifier_resolves:
  assumes "visits ord" and "keys_ok m" and "values_ok m" and "mergeModifier ord m = Inr m'"
  shows "(\<forall>b. plain_key b \<longrightarrow> map_of m' b = resolve_key (mergeModifier ord) m b) \<and>
    (\<forall>k. \<not> plain_key k \<longrightarrow> map_of m' k = None)"
proof (intro conjI allI impI)
  from assms(4) obtain m1 where m1: "range_loop default_step (ord m) m = Inr m1"
    and m2: "range_loop (modifier_step (merge_modifier ord (gdepth_fields m))) (ord m1) m1 = Inr m'"
    by (auto simp: mergeModifier_unfold rbind_Inr_conv)
  note first = mergeModifier_first_loop [OF assms(1,2) _ m1]
  have d: "distinct (ord m1)" using assms(1) by (simp add: visits_def)
  {
    fix b assume b: "plain_key b"
    have "key_values_ok m1 b"
      using assms(3) b first(3) [OF b] by (simp add: values_ok_def key_values_ok_def)
    then have "map_of m' b = loop_value (merge_modifier ord (gdepth_fields m)) (ord m1) m1 b"
      using modifier_loop_map_of [OF m2 d first(4) [OF b] b] by blast
    also have "\<dots> = resolve_key (mergeModifier ord) m b"
    proof (rule resolve_from_loops [OF assms(1) first(1) [OF b] first(3) [OF b]])
      fix vm assume "map_of m1 b = Some (GMap vm)"
      then have "gdepth (GMap vm) \<le> gdepth_fields m"
        using first(5) [OF b] by (rule gdepth_map_of_le)
      then show "merge_modifier ord (gdepth_fields m) vm = mergeModifier ord vm"
        unfolding mergeModifier_def by (intro mergeModifier_depth) simp_all
    qed
    finally show "map_of m' b = resolve_key (mergeModifier ord) m b" .
  }
  fix k assume k: "\<not> plain_key k"
  have pk: "plain_key (''x'')" by (simp add: plain_key_def)
  have ok1: "keys_ok m1" by (rule first(4) [OF pk])
  show "map_of m' k = None"
  proof (rule ccontr)
    assume "map_of m' k \<noteq> None"
    with keys_ok_modifier_loop [OF m2 ok1] k have pb: "plain_key (butlast k)" "k \<noteq> []"
      by (auto simp: keys_ok_def plain_key_def)
    define c where "c = last k"
    with k pb have c: "k = suffixed (butlast k) c" "c \<in> {CHR ''-'', CHR ''+'', CHR ''*''}"
      by (auto simp: plain_key_def)
    have "map_of m' (suffixed (butlast k) c) = None"
    proof (cases "map_of m1 (suffixed (butlast k) c)")
      case None
      then show ?thesis by (rule modifier_loop_stays_none [OF m2 ok1 c(2)])
    next
      case (Some v)
      then have "c \<noteq> CHR ''-''" using first(2) [OF pb(1)] by auto
      with c(2) have "c \<in> {CHR ''+'', CHR ''*''}" by simp
      moreover have "suffixed (butlast k) c \<in> set (ord m1)"
        using visits_covers [OF assms(1)] Some by (metis option.distinct(1))
      ultimately show ?thesis by (rule modifier_loop_removes [OF m2 ok1])
    qed
    with c(1) \<open>map_of m' k \<noteq> None\<close> show False by simp
  qed
qed

definition list_order :: "gmap \<Rightarrow> string list" where
  "list_order m = remdups (map fst m)"

lemma visits_list_order: "visits list_order"
  by (simp add: visits_def list_order_def)

lemma visits_rev_order: "visits (\<lambda>m. rev (list_order m))"
  by (simp add: visits_def list_order_def)

text \<open>Witness: a default that is used, a default that is not, and an append.\<close>

theorem mergeModifier_resolves_witness:
  "\<exists>m'. mergeModifier list_order
      [(''a'', GInt 1), (''a-'', GInt 2), (''b-'', GInt 3), (''l'', GList [GInt 4]), (''l+'', GList [GInt 5])] = Inr m' \<and>
    map_of m' ''a'' = Some (GInt 1) \<and> map_of m' ''b'' = Some (GInt 3) \<and>
    map_of m' ''l'' = Some (GList [GInt 4, GInt 5]) \<and> map_of m' ''l+'' = None"
proof -
  let ?m = "[(''a'', GInt 1), (''a-'', GInt 2), (''b-'', GInt 3), (''l'', GList [GInt 4]), (''l+'', GList [GInt 5])]"
  have keys: "keys_ok ?m" by (auto simp: keys_ok_def plain_key_def split: if_splits)
  have vals: "values_ok ?m" by (auto simp: values_ok_def snoc_eq_iff_butlast split: if_splits)
  obtain m' where m': "mergeModifier list_order ?m = Inr m'"
    by (auto simp: mergeModifier_unfold list_order_def default_step_def modifier_step_def unset_def
        append_value_def)
  note res = mergeModifier_resolves [OF visits_list_order keys vals m']
  have "map_of m' ''a'' = Some (GInt 1)" "map_of m' ''b'' = Some (GInt 3)"
    "map_of m' ''l'' = Some (GList [GInt 4, GInt 5])" "map_of m' ''l+'' = None"
    using res by (auto simp: plain_key_def resolve_key_def with_default_def unset_def append_value_def)
  with m' show ?thesis by blast
qed

text \<open>
  Without the last proviso of the theorem above the result depends on the order in which the
  runtime visits the keys. When \<open>a*\<close> overrides \<open>a\<close> with a map, the modifiers inside that map are
  resolved if \<open>a\<close> is visited after \<open>a*\<close> and kept as literal keys if it is visited before.
\<close>

theorem mergeModifier_order_dependent:
  "visits list_order \<and> visits (\<lambda>m. rev (list_order m)) \<and>
   rmap (\<lambda>m. map_of m ''a'')
     (mergeModifier list_order [(''a'', GInt 0), (''a*'', GMap [(''x-'', GInt 1)])]) =
     Inr (Some (GMap [(''x-'', GInt 1)])) \<and>
   rmap (\<lambda>m. map_of m ''a'')
     (mergeModifier (\<lambda>m. rev (list_order m)) [(''a'', GInt 0), (''a*'', GMap [(''x-'', GInt 1)])]) =
     Inr (Some (GMap [(''x'', GInt 1)]))"
proof -
  have "rmap (\<lambda>m. map_of m ''a'')
     (mergeModifier list_order [(''a'', GInt 0), (''a*'', GMap [(''x-'', GInt 1)])]) =
     Inr (Some (GMap [(''x-'', GInt 1)]))"
    by (simp add: mergeModifier_unfold list_order_def default_step_def modifier_step_def unset_def)
  moreover have "rmap (\<lambda>m. map_of m ''a'')
     (mergeModifier (\<lambda>m. rev (list_order m)) [(''a'', GInt 0), (''a*'', GMap [(''x-'', GInt 1)])]) =
     Inr (Some (GMap [(''x'', GInt 1)]))"
    by (simp add: mergeModifier_unfold list_order_def default_step_def modifier_step_def unset_def)
  ultimately show ?thesis by (simp add: visits_list_order visits_rev_order)
qed

section \<open>Paths, leaves and copies\<close>

text \<open>
  A dotted path is followed in two stages: reading \<open>p.q\<close> is reading \<open>q\<close> in what \<open>p\<close>
  leads to, and it fails exactly when one of the two stages fails.
\<close>

theorem GetMapData_compose:
  "GetMapData v (p @ CHR ''.'' # q) = Option.bind (GetMapData v p) (\<lambda>w. GetMapData w q)"
proof (cases "v = GNil")
  case True
  then show ?thesis by (simp add: GetMapData_def)
next
  case False
  have nil: "get_path v cs \<noteq> Some GNil" for v cs
    by (induction v cs rule: get_path.induct) (auto split: option.splits)
  have "get_path v (split_on CHR ''.'' p @ split_on CHR ''.'' q) =
      Option.bind (get_path v (split_on CHR ''.'' p)) (\<lambda>w. get_path w (split_on CHR ''.'' q))"
    by (rule get_path_append) simp
  with False nil [of v "split_on CHR ''.'' p"] show ?thesis
    by (cases "get_path v (split_on CHR ''.'' p)") (auto simp: GetMapData_def split_on_append)
qed

text \<open>
  C27: \<open>Recursive\<close> hands every scalar leaf to the processor together with its full dotted path,
  and the structure it leaves behind has at that path the processor's value, the old leaf when the
  processor declines, and nothing when the processor answers nil.
\<close>

theorem Recursive_rewrites_leaf:
  assumes "Recursive f v = Inr v'" and "wfval v" and "get_path v cs = Some leaf" and "cs \<noteq> []"
    and "scalar leaf" and "canonical cs"
  shows "\<exists>r. f (join_on CHR ''.'' cs) leaf = Inr r \<and> get_path v' cs = leaf_result leaf r"
proof -
  from assms(4) obtain c cs' where cs: "cs = c # cs'" by (cases cs) auto
  have rec: "RecursiveWithPrefix [] f v = Inr (Some v')"
    using assms(1,3) cs
    by (cases v) (auto simp: Recursive_def rmap_def rbind_Inr_conv split: option.splits)
  have "[] \<notin> set cs" using assms(6) by (auto simp: canonical_def)
  with cs have "foldl ext_prefix [] cs = join_on CHR ''.'' cs"
    using foldl_ext_prefix [of c cs'] by (auto simp: ext_prefix_def)
  with recursive_at_path [OF rec assms(3,5,2,6)] show ?thesis by auto
qed

theorem Recursive_rewrites_leaf_witness:
  "\<exists>v'. Recursive (\<lambda>k v. Inr (if k = ''a.1.b'' then Some (GStr ''new'') else None))
      (GMap [(''a'', GList [GInt 0, GMap [(''b'', GStr ''old''), (''c'', GInt 7)]])]) = Inr v' \<and>
    get_path v' [''a'', ''1'', ''b''] = Some (GStr ''new'')"
proof -
  let ?f = "\<lambda>k v. Inr (if k = ''a.1.b'' then Some (GStr ''new'') else None) :: gval option res"
  let ?v = "GMap [(''a'', GList [GInt 0, GMap [(''b'', GStr ''old''), (''c'', GInt 7)]])]"
  have u: "utoa 0 = ''0''" "utoa (Suc 0) = ''1''" by code_simp+
  have a: "atoi ''1'' = Some 1" "atoi ''a'' = None" "atoi ''b'' = None"
    by (simp_all add: atoi_def parse_nat_def digits_val_def is_digit_def digit_val_def check_int64_def in_int64_def)
  obtain v' where v': "Recursive ?f ?v = Inr v'"
    by (auto simp: Recursive_def ext_prefix_def u)
  have "\<exists>r. ?f (join_on CHR ''.'' [''a'', ''1'', ''b'']) (GStr ''old'') = Inr r \<and>
      get_path v' [''a'', ''1'', ''b''] = leaf_result (GStr ''old'') r"
    by (rule Recursive_rewrites_leaf [OF v']) (simp_all add: wfmap_def a canonical_def itoa_def u)
  then have "get_path v' [''a'', ''1'', ''b''] = Some (GStr ''new'')" by (simp add: leaf_result_def)
  with v' show ?thesis by blast
qed

text \<open>
  Copying never fails on data without duplicate keys and yields an equal structure, for maps,
  lists and the nil map alike.
\<close>

theorem MustDeepCopyMap_copies:
  assumes "\<forall>m. om = Some m \<longrightarrow> wfval (GMap m)"
  shows "MustDeepCopyMap om = Inr om"
  using assms deep_copy_id(1) [of "GMap (the om)"]
  by (cases om) (auto simp: MustDeepCopyMap_def DeepCopyMap_def)

theorem MustDeepCopyMap_copies_witness:
  "MustDeepCopyMap (Some [(''k'', GList [GNil, GMap [(''x'', GBool True)]])]) =
     Inr (Some [(''k'', GList [GNil, GMap [(''x'', GBool True)]])])"
  by (rule MustDeepCopyMap_copies) (simp add: wfmap_def)

end
