(* ===== verification/Interpolation.thy ===== *)
theory Interpolation
  imports MapUtils
begin

text \<open>
  \<open>pkg/dipper/interpolation.go\<close> and \<open>encryption.go\<close>: filling templates and \<open>$\<close>-paths in the
  configuration from the data of a session, and resolving \<open>ENC[...]\<close> and \<open>LOOKUP[...]\<close> strings
  through RPC calls to drivers.

  The template engine and the YAML reader are the fields \<open>ext_template\<close> and \<open>ext_yaml\<close> of
  \<open>ext\<close>. A \<open>$\<close>-path into \<open>sysData\<close> is interpolated again after the lookup, which need not end;
  the argument \<open>n\<close> bounds the nesting of these second interpolations, and a computation that
  exceeds it has the result \<open>StackOverflow\<close>. \<open>Interpolate_fuel_mono\<close> shows that the bound has no
  other effect. The \<open>[]string\<close> case of \<open>Interpolate\<close> has no counterpart, because decoded JSON
  and YAML hold \<open>[]interface{}\<close> only.
\<close>

section \<open>Interpolation\<close>

definition InterpolateGoTemplate :: "ext \<Rightarrow> bool \<Rightarrow> string \<Rightarrow> gval \<Rightarrow> tmpl_out res" where
  "InterpolateGoTemplate X isLoading pattern data =
    (if contains pattern (if isLoading then ''{%'' else ''{{'')
     then ext_template X isLoading pattern data
     else Inr (TRet (GStr pattern)))"

definition ParseYaml :: "ext \<Rightarrow> string \<Rightarrow> gval res" where
  "ParseYaml X pattern = ext_yaml X pattern"

text \<open>The three quote characters that open a default value.\<close>

definition quotes :: "char list" where
  "quotes = [CHR 0x22, CHR 0x27, CHR 0x60]"

text \<open>The loop over the alternative paths: the first that leads to a value.\<close>

fun first_key :: "gval \<Rightarrow> string list \<Rightarrow> (string \<times> gval) option" where
  "first_key data [] = None"
| "first_key data (key # keys) = (case GetMapData data key of
      None \<Rightarrow> first_key data keys
    | Some ret \<Rightarrow> Some (key, ret))"

text \<open>
  The paths of the parsed reference and the position of the quote, with the checks made before
  the lookup.
\<close>

definition dollar_keys :: "bool \<Rightarrow> string \<Rightarrow> (string list \<times> nat option) res" where
  "dollar_keys allowNull parsed = (let quote = index_any quotes parsed in
     if allowNull \<and> quote \<noteq> None then Inl (PanicErr ''allow nil combine with default value'')
     else case quote of
       None \<Rightarrow> Inr (split_on CHR '','' parsed, None)
     | Some q \<Rightarrow>
         if q = 0 then Inr ([], quote)
         else if parsed ! (q - 1) \<noteq> CHR '','' then Inl (PanicErr ''missing comma'')
         else Inr (split_on CHR '','' (take (q - 1) parsed), quote))"

text \<open>What follows when no path leads to a value: the quoted default, \<open>nil\<close>, or a panic.\<close>

definition dollar_default :: "bool \<Rightarrow> string \<Rightarrow> nat option \<Rightarrow> gval res" where
  "dollar_default allowNull parsed quote = (case quote of
     Some q \<Rightarrow>
       if parsed ! q \<noteq> last parsed then Inl (PanicErr ''quotes not matching'')
       else if length parsed - 1 < q + 1 then Inl IndexOutOfRange
       else Inr (GStr (drop (q + 1) (butlast parsed)))
   | None \<Rightarrow> if allowNull then Inr GNil else Inl (PanicErr ''invalid path''))"

text \<open>The treatment of a string once the template engine has run.\<close>

definition finish_str :: "ext \<Rightarrow> string \<Rightarrow> gval res" where
  "finish_str X ret =
    (if has_prefix ret '':yaml:'' then ParseYaml X (drop 6 ret)
     else Inr (GStr (trim_prefix ret [CHR 0x5C])))"

definition str_len :: "gval \<Rightarrow> nat" where
  "str_len v = (case v of GStr s \<Rightarrow> length s | _ \<Rightarrow> 0)"

function InterpolateStr :: "ext \<Rightarrow> nat \<Rightarrow> string \<Rightarrow> gval \<Rightarrow> string res"
  and InterpolateDollarStr :: "ext \<Rightarrow> nat \<Rightarrow> string \<Rightarrow> gval \<Rightarrow> gval res"
  and Interpolate :: "ext \<Rightarrow> nat \<Rightarrow> gval \<Rightarrow> gval \<Rightarrow> gval res" where
  "InterpolateStr X n pattern data =
     rbind (Interpolate X n (GStr pattern) data) (\<lambda>ret.
     Inr (if ret = GNil then [] else fmt_v X ret))"
| "InterpolateDollarStr X n v data =
     (if length v < 2 then Inl IndexOutOfRange
      else let allowNull = (v ! 1 = CHR ''?'') in
      rbind (InterpolateStr X n (drop (if allowNull then 2 else 1) v) data) (\<lambda>parsed.
      rbind (dollar_keys allowNull parsed) (\<lambda>(keys, quote).
      case first_key data keys of
        Some (key, ret) \<Rightarrow>
          if has_prefix key ''sysData.'' then
            (case n of 0 \<Rightarrow> Inl StackOverflow | Suc n' \<Rightarrow> Interpolate X n' ret data)
          else Inr ret
      | None \<Rightarrow> dollar_default allowNull parsed quote)))"
| "Interpolate X n source data = (case source of
      GStr v \<Rightarrow>
        if has_prefix v ''$'' then InterpolateDollarStr X n v data
        else rbind (InterpolateGoTemplate X False v data) (\<lambda>out.
          case out of
            TBuf ret \<Rightarrow> finish_str X ret
          | TRet (GStr ret) \<Rightarrow> finish_str X ret
          | TRet ret \<Rightarrow> Inr ret)
    | GMap v \<Rightarrow> rmap GMap (rmapM (\<lambda>(k, val). rmap (Pair k) (Interpolate X n val data)) v)
    | GList v \<Rightarrow> rmap GList (rmapM (\<lambda>val. Interpolate X n val data) v)
    | _ \<Rightarrow> Inr source)"
  by pat_completeness auto

termination
  by (relation "inv_image (less_than <*lex*> less_than <*lex*> less_than <*lex*> less_than)
      (\<lambda>x. case x of
          Inl (X, n, p, d) \<Rightarrow> (n, size (GStr p), length p, 2 :: nat)
        | Inr (Inl (X, n, v, d)) \<Rightarrow> (n, size (GStr v), length v, 0)
        | Inr (Inr (X, n, v, d)) \<Rightarrow> (n, size v, str_len v, 1))")
    (auto simp: str_len_def)

declare InterpolateStr.simps [simp del] InterpolateDollarStr.simps [simp del] Interpolate.simps [simp del]

section \<open>Decryption\<close>

text \<open>
  \<open>callRaw feature method params\<close> is what the RPC returns (\<open>CallRaw\<close> with its error dropped, so
  empty after an error).
\<close>

text \<open>\<open>strings.SplitN(s, ",", 2)\<close> followed by access to both parts.\<close>

definition split2 :: "string \<Rightarrow> string \<times> string option" where
  "split2 s = (takeWhile (\<lambda>c. c \<noteq> CHR '','') s,
     (case dropWhile (\<lambda>c. c \<noteq> CHR '','') s of [] \<Rightarrow> None | _ # r \<Rightarrow> Some r))"

definition bracketed :: "nat \<Rightarrow> string \<Rightarrow> (string \<times> string) res" where
  "bracketed k str =
    (if length str - 1 < k then Inl IndexOutOfRange
     else case split2 (drop k (butlast str)) of
       (driver, None) \<Rightarrow> Inl IndexOutOfRange
     | (driver, Some r) \<Rightarrow> Inr (driver, r))"

definition GetDecryptFunc :: "ext \<Rightarrow> (string \<Rightarrow> string \<Rightarrow> string \<Rightarrow> string) \<Rightarrow> item_processor" where
  "GetDecryptFunc X callRaw key val = (case val of
      GStr str \<Rightarrow>
        if has_prefix str ''ENC['' then
          rbind (bracketed 4 str) (\<lambda>(encDriver, body).
            if encDriver = ''deferred'' then Inr (Some (GStr (''ENC['' @ body @ '']'')))
            else case ext_base64 X body of
              None \<Rightarrow> Inl (PanicStr ''encrypted data should be base64 encoded'')
            | Some decoded \<Rightarrow> Inr (Some (GStr (callRaw (''driver:'' @ encDriver) ''decrypt'' decoded))))
        else if has_prefix str ''LOOKUP['' then
          rbind (bracketed 7 str) (\<lambda>(lookupDriver, body).
            if lookupDriver = ''deferred'' then Inr (Some (GStr (''LOOKUP['' @ body @ '']'')))
            else Inr (Some (GStr (callRaw (''driver:'' @ lookupDriver) ''lookup'' body))))
        else Inr None
    | _ \<Rightarrow> Inr None)"

definition DecryptAll :: "ext \<Rightarrow> (string \<Rightarrow> string \<Rightarrow> string \<Rightarrow> string) \<Rightarrow> gval \<Rightarrow> gval res" where
  "DecryptAll X callRaw from = Recursive (GetDecryptFunc X callRaw) from"

section \<open>The bound is harmless\<close>

text \<open>\<open>m'\<close> has the result of \<open>m\<close> unless \<open>m\<close> ran out of its bound.\<close>

definition extends :: "'a res \<Rightarrow> 'a res \<Rightarrow> bool" where
  "extends m m' \<longleftrightarrow> m = Inl StackOverflow \<or> m' = m"

lemma extends_refl [simp]: "extends m m"
  by (simp add: extends_def)

lemma extends_overflow [simp]: "extends (Inl StackOverflow) m"
  by (simp add: extends_def)

lemma extends_rbind:
  assumes "extends m m'" and "\<And>x. m = Inr x \<Longrightarrow> extends (f x) (f' x)"
  shows "extends (rbind m f) (rbind m' f')"
  using assms by (cases m) (auto simp: extends_def)

lemma extends_rmap: "extends m m' \<Longrightarrow> extends (rmap f m) (rmap f m')"
  by (cases m) (auto simp: extends_def)

lemma extends_rmapM:
  "(\<And>x. x \<in> set xs \<Longrightarrow> extends (f x) (g x)) \<Longrightarrow> extends (rmapM f xs) (rmapM g xs)"
  by (induction xs) (auto intro!: extends_rbind)

lemmas extends_intros = extends_rbind extends_rmap extends_rmapM

lemma interpolate_extends:
  "n \<le> m \<Longrightarrow> extends (InterpolateStr X n p d) (InterpolateStr X m p d)"
  "n \<le> m \<Longrightarrow> extends (InterpolateDollarStr X n v d) (InterpolateDollarStr X m v d)"
  "n \<le> m \<Longrightarrow> extends (Interpolate X n s d) (Interpolate X m s d)"
proof (induction X n p d and X n v d and X n s d arbitrary: m and m and m
    rule: InterpolateStr_InterpolateDollarStr_Interpolate.induct)
  case (1 X n p d)
  then show ?case by (simp add: InterpolateStr.simps extends_intros)
next
  case (2 X n v d)
  show ?case
  proof (cases "length v < 2")
    case True
    then show ?thesis by (simp add: InterpolateDollarStr.simps)
  next
    case False
    let ?an = "v ! 1 = CHR ''?''"
    have str: "extends (InterpolateStr X n (drop (if ?an then 2 else 1) v) d)
        (InterpolateStr X m (drop (if ?an then 2 else 1) v) d)"
      using 2(1) [OF False refl 2(3)] .
    have again: "extends (case n of 0 \<Rightarrow> Inl StackOverflow | Suc n' \<Rightarrow> Interpolate X n' ret d)
        (case m of 0 \<Rightarrow> Inl StackOverflow | Suc n' \<Rightarrow> Interpolate X n' ret d)"
      if "InterpolateStr X n (drop (if ?an then 2 else 1) v) d = Inr parsed"
        "dollar_keys ?an parsed = Inr (keys, quote)" "first_key d keys = Some (key, ret)"
        "has_prefix key ''sysData.''" for parsed keys quote key ret
      using 2(2) [OF False refl that(1,2) refl that(3) refl that(4)] 2(3)
      by (cases n; cases m) auto
    show ?thesis
      unfolding InterpolateDollarStr.simps [of X n] InterpolateDollarStr.simps [of X m] Let_def
        if_not_P [OF False]
      by (rule extends_rbind [OF str]) (auto intro!: extends_rbind again split: option.splits)
  qed
next
  case (3 X n s d)
  show ?case
  proof (cases s)
    case (GStr v)
    with 3 show ?thesis by (simp add: Interpolate.simps)
  next
    case (GList v)
    with 3 show ?thesis by (simp add: Interpolate.simps [of X _ "GList v"] extends_intros)
  next
    case (GMap v)
    with 3 show ?thesis
      by (auto simp: Interpolate.simps [of X _ "GMap v"] intro!: extends_intros)
  qed (simp_all add: Interpolate.simps)
qed

section \<open>Strings that interpolation leaves alone\<close>

text \<open>No template, no reference, no YAML, no escape: the string stands for itself.\<close>

definition literal_str :: "string \<Rightarrow> bool" where
  "literal_str s \<longleftrightarrow> \<not> contains s ''{{'' \<and> \<not> has_prefix s ''$'' \<and> \<not> has_prefix s '':yaml:'' \<and>
     \<not> has_prefix s [CHR 0x5C]"

fun literal :: "gval \<Rightarrow> bool" where
  "literal (GStr s) \<longleftrightarrow> literal_str s"
| "literal (GList vs) \<longleftrightarrow> list_all literal vs"
| "literal (GMap m) \<longleftrightarrow> list_all (\<lambda>(k, v). literal v) m"
| "literal _ \<longleftrightarrow> True"

lemma rmapM_id: "(\<And>x. x \<in> set xs \<Longrightarrow> f x = Inr x) \<Longrightarrow> rmapM f xs = Inr xs"
  by (induction xs) simp_all

lemma Interpolate_literal_str: "literal_str s \<Longrightarrow> Interpolate X n (GStr s) d = Inr (GStr s)"
  by (simp add: Interpolate.simps literal_str_def InterpolateGoTemplate_def finish_str_def trim_prefix_def)

lemma InterpolateStr_literal: "literal_str s \<Longrightarrow> InterpolateStr X n s d = Inr s"
  by (simp add: InterpolateStr.simps Interpolate_literal_str)

lemma Interpolate_literal_val: "literal v \<Longrightarrow> Interpolate X n v d = Inr v"
proof (induction v)
  case (GStr s)
  then show ?case by (simp add: Interpolate_literal_str)
next
  case (GList vs)
  then have "rmapM (\<lambda>v. Interpolate X n v d) vs = Inr vs"
    by (intro rmapM_id) (auto simp: list_all_iff)
  then show ?case by (simp add: Interpolate.simps)
next
  case (GMap m)
  then have "rmapM (\<lambda>(k, v). rmap (Pair k) (Interpolate X n v d)) m = Inr m"
    by (intro rmapM_id) (fastforce simp: list_all_iff)
  then show ?case by (simp add: Interpolate.simps)
qed (simp_all add: Interpolate.simps)

section \<open>References\<close>

definition path_ok :: "string \<Rightarrow> bool" where
  "path_ok k \<longleftrightarrow> CHR '','' \<notin> set k \<and> set k \<inter> set quotes = {} \<and> \<not> has_prefix k ''sysData.''"

lemma index_any_None: "set s \<inter> set cs = {} \<Longrightarrow> index_any cs s = None"
  by (induction s) auto

lemma index_any_append:
  "set s \<inter> set cs = {} \<Longrightarrow> c \<in> set cs \<Longrightarrow> index_any cs (s @ c # t) = Some (length s)"
  by (induction s) auto

lemma join_on_set: "set (join_on c ks) \<subseteq> insert c (\<Union>k \<in> set ks. set k)"
  by (induction c ks rule: join_on.induct) auto

lemma comma_not_quote: "CHR '','' \<notin> set quotes"
  by (simp add: quotes_def)

lemma join_no_quotes:
  assumes "\<forall>k \<in> set ks. path_ok k"
  shows "set (join_on CHR '','' ks) \<inter> set quotes = {}"
proof -
  have "set k \<inter> set quotes = {}" if "k \<in> set ks" for k
    using assms that by (simp add: path_ok_def)
  with join_on_set [of "CHR '',''" ks] comma_not_quote show ?thesis by blast
qed

lemma dollar_keys_plain:
  assumes "ks \<noteq> []" and "\<forall>k \<in> set ks. path_ok k"
  shows "dollar_keys b (join_on CHR '','' ks) = Inr (ks, None)"
  using assms index_any_None [OF join_no_quotes [OF assms(2)]]
  by (simp add: dollar_keys_def split_join path_ok_def)

lemma dollar_keys_quoted:
  assumes "ks \<noteq> []" and "\<forall>k \<in> set ks. path_ok k" and "q \<in> set quotes"
  shows "dollar_keys False (join_on CHR '','' ks @ '','' @ q # lit) =
    Inr (ks, Some (Suc (length (join_on CHR '','' ks))))"
proof -
  let ?j = "join_on CHR '','' ks"
  have "set (?j @ '','') \<inter> set quotes = {}"
    using join_no_quotes [OF assms(2)] comma_not_quote by simp
  from index_any_append [OF this assms(3), of lit]
  have "index_any quotes (?j @ '','' @ q # lit) = Some (Suc (length ?j))" by simp
  then show ?thesis
    using assms by (simp add: dollar_keys_def nth_append split_join path_ok_def)
qed

lemma first_key_member: "first_key d ks = Some (k, v) \<Longrightarrow> k \<in> set ks"
  by (induction ks) (auto split: option.splits)

lemma dollar_outcome:
  assumes "InterpolateStr X n (drop (if v ! 1 = CHR ''?'' then 2 else 1) v) d = Inr parsed"
    and "dollar_keys (v ! 1 = CHR ''?'') parsed = Inr (ks, quote)"
    and "2 \<le> length v" and "\<forall>k \<in> set ks. path_ok k"
  shows "InterpolateDollarStr X n v d = (case first_key d ks of
      Some (k, ret) \<Rightarrow> Inr ret
    | None \<Rightarrow> dollar_default (v ! 1 = CHR ''?'') parsed quote)"
  using assms first_key_member [of d ks]
  by (fastforce simp: InterpolateDollarStr.simps Let_def path_ok_def split: option.splits)

section \<open>Interpolation keeps values well formed\<close>

lemma first_key_wf: "first_key d ks = Some (k, v) \<Longrightarrow> wfval d \<Longrightarrow> wfval v"
  by (induction ks) (auto simp: GetMapData_def split: option.splits if_splits dest: get_path_wf)

text \<open>The YAML reader and the function \<open>return\<close> of a template give values whose maps have distinct keys.\<close>

definition ext_wf :: "ext \<Rightarrow> bool" where
  "ext_wf X \<longleftrightarrow> (\<forall>s v. ext_yaml X s = Inr v \<longrightarrow> wfval v) \<and>
     (\<forall>b s d v. wfval d \<longrightarrow> ext_template X b s d = Inr (TRet v) \<longrightarrow> wfval v)"

lemma finish_str_wf: "finish_str X s = Inr v \<Longrightarrow> ext_wf X \<Longrightarrow> wfval v"
  by (auto simp: finish_str_def ParseYaml_def ext_wf_def split: if_splits)

lemma template_wf: "InterpolateGoTemplate X b s d = Inr (TRet v) \<Longrightarrow> ext_wf X \<Longrightarrow> wfval d \<Longrightarrow> wfval v"
  by (auto simp: InterpolateGoTemplate_def ext_wf_def split: if_splits)

lemma rmapM_fields_wf:
  assumes "rmapM (\<lambda>(k, v). rmap (Pair k) (f v)) m = Inr m'" and "\<And>k v v'. (k, v) \<in> set m \<Longrightarrow> f v = Inr v' \<Longrightarrow> wfval v'"
  shows "map fst m' = map fst m \<and> wffields m'"
  using assms
proof (induction m arbitrary: m')
  case (Cons kv m)
  obtain k v where kv: "kv = (k, v)" by force
  with Cons.prems(1) obtain v' m1 where m1: "f v = Inr v'" "rmapM (\<lambda>(k, v). rmap (Pair k) (f v)) m = Inr m1" "m' = (k, v') # m1"
    by (auto simp: rmap_def rbind_Inr_conv)
  have "map fst m1 = map fst m \<and> wffields m1" using Cons.prems(2) by (intro Cons.IH [OF m1(2)]) auto
  with m1 kv Cons.prems(2) [of k v v'] show ?case by simp
qed simp

lemma rmapM_wf:
  assumes "rmapM f xs = Inr ys" and "\<And>x y. x \<in> set xs \<Longrightarrow> f x = Inr y \<Longrightarrow> wfval y"
  shows "wfvals ys"
  using assms
proof (induction xs arbitrary: ys)
  case (Cons x xs)
  then obtain y ys1 where y: "f x = Inr y" "rmapM f xs = Inr ys1" "ys = y # ys1" by (auto simp: rbind_Inr_conv)
  have "wfvals ys1" using Cons.prems(2) by (intro Cons.IH [OF y(2)]) auto
  with y Cons.prems(2) [of x y] show ?case by simp
qed simp

lemma interpolate_wf:
  "ext_wf X \<Longrightarrow> wfval data \<Longrightarrow> InterpolateStr X n pattern data = Inr s \<Longrightarrow> True"
  "ext_wf X \<Longrightarrow> wfval data \<Longrightarrow> InterpolateDollarStr X n v data = Inr r \<Longrightarrow> wfval r"
  "ext_wf X \<Longrightarrow> wfval data \<Longrightarrow> wfval source \<Longrightarrow> Interpolate X n source data = Inr w \<Longrightarrow> wfval w"
proof (induction X n pattern data and X n v data and X n source data arbitrary: s and r and w
    rule: InterpolateStr_InterpolateDollarStr_Interpolate.induct)
  case (2 X n v data)
  from "2.prems"(3) obtain parsed keys quote where p: "\<not> length v < 2"
    "InterpolateStr X n (drop (if v ! 1 = CHR ''?'' then 2 else 1) v) data = Inr parsed"
    "dollar_keys (v ! 1 = CHR ''?'') parsed = Inr (keys, quote)"
    "(case first_key data keys of
        Some (key, ret) \<Rightarrow>
          if has_prefix key ''sysData.'' then (case n of 0 \<Rightarrow> Inl StackOverflow | Suc n' \<Rightarrow> Interpolate X n' ret data) else Inr ret
      | None \<Rightarrow> dollar_default (v ! 1 = CHR ''?'') parsed quote) = Inr r"
    unfolding InterpolateDollarStr.simps Let_def by (cases "length v < 2") (auto simp: rbind_Inr_conv simp del: One_nat_def)
  show ?case
  proof (cases "first_key data keys")
    case None
    with p(4) show ?thesis by (auto simp: dollar_default_def split: option.splits if_splits)
  next
    case (Some kr)
    obtain key ret where kr: "kr = (key, ret)" by force
    with Some "2.prems"(2) have ret: "wfval ret" using first_key_wf by blast
    show ?thesis
    proof (cases "has_prefix key ''sysData.''")
      case True
      with p(4) Some kr obtain n' where n': "n = Suc n'" "Interpolate X n' ret data = Inr r" by (cases n) auto
      then show ?thesis using "2.IH"(2) [OF p(1) refl p(2) p(3) refl] Some kr True ret "2.prems"(1,2) by blast
    next
      case False
      with p(4) Some kr ret show ?thesis by simp
    qed
  qed
next
  case (3 X n source data)
  show ?case
  proof (cases source)
    case (GStr v)
    show ?thesis
    proof (cases "has_prefix v ''$''")
      case True
      from "3.prems"(4) GStr True have "InterpolateDollarStr X n v data = Inr w" by (simp add: Interpolate.simps)
      with GStr True "3.prems"(1,2) show ?thesis using "3.IH"(1) by blast
    next
      case False
      with "3.prems"(4) GStr obtain out where o': "InterpolateGoTemplate X False v data = Inr out"
        "(case out of TBuf ret \<Rightarrow> finish_str X ret | TRet (GStr ret) \<Rightarrow> finish_str X ret | TRet ret \<Rightarrow> Inr ret) = Inr w"
        by (auto simp: Interpolate.simps rbind_Inr_conv)
      show ?thesis
      proof (cases out)
        case (TBuf ret)
        with o'(2) "3.prems"(1) show ?thesis using finish_str_wf by auto
      next
        case (TRet ret)
        with o' have "wfval ret" using template_wf "3.prems"(1,2) by blast
        with o'(2) TRet "3.prems"(1) show ?thesis using finish_str_wf by (auto split: gval.splits)
      qed
    qed
  next
    case (GMap m)
    with "3.prems"(4) obtain m' where m': "rmapM (\<lambda>(k, val). rmap (Pair k) (Interpolate X n val data)) m = Inr m'" "w = GMap m'"
      by (auto simp: Interpolate.simps rmap_def rbind_Inr_conv)
    have "map fst m' = map fst m \<and> wffields m'"
      by (rule rmapM_fields_wf [OF m'(1)]) (use "3.IH"(3) [OF GMap _ refl] GMap "3.prems" in \<open>force simp: wffields_iff\<close>)
    with "3.prems"(3) GMap m'(2) show ?thesis by (simp add: wfmap_def)
  next
    case (GList xs)
    with "3.prems"(4) obtain ys where ys: "rmapM (\<lambda>val. Interpolate X n val data) xs = Inr ys" "w = GList ys"
      by (auto simp: Interpolate.simps rmap_def rbind_Inr_conv)
    have "wfval y" if "x \<in> set xs" "Interpolate X n x data = Inr y" for x y
    proof -
      from that(1) "3.prems"(3) GList have "wfval x" by (simp add: wfvals_iff)
      then show ?thesis by (rule "3.IH"(2) [OF GList that(1) "3.prems"(1,2) _ that(2)])
    qed
    then have "wfvals ys" by (rule rmapM_wf [OF ys(1)])
    with ys(2) show ?thesis by simp
  qed (use "3.prems" in \<open>auto simp: Interpolate.simps\<close>)
qed simp

section \<open>Properties\<close>

text \<open>
  The nesting bound of the model has no effect on an interpolation that stays within it: a larger
  bound gives the same value or the same panic.
\<close>

theorem Interpolate_fuel_mono:
  assumes "Interpolate X n source data \<noteq> Inl StackOverflow" and "n \<le> m"
  shows "Interpolate X m source data = Interpolate X n source data"
  using interpolate_extends(3) [OF assms(2), of X source data] assms(1) by (simp add: extends_def)

theorem Interpolate_fuel_mono_witness:
  "Interpolate no_ext 5 (GStr ''$sysData.a'') (GMap [(''sysData'', GMap [(''a'', GStr ''v'')])]) = Inr (GStr ''v'')"
proof -
  have one: "Interpolate no_ext 2 (GStr ''$sysData.a'') (GMap [(''sysData'', GMap [(''a'', GStr ''v'')])]) = Inr (GStr ''v'')"
    by code_simp
  show ?thesis
    using Interpolate_fuel_mono [of no_ext 2 "GStr ''$sysData.a''"
        "GMap [(''sysData'', GMap [(''a'', GStr ''v'')])]" 5] by (simp add: one)
qed

text \<open>
  A reference into \<open>sysData\<close> whose value is that same reference is interpolated for ever: every
  bound is exceeded, and the program dies of a stack overflow, which no \<open>recover\<close> stops.
\<close>

theorem Interpolate_sysData_diverges:
  "Interpolate X n (GStr ''$sysData.a'') (GMap [(''sysData'', GMap [(''a'', GStr ''$sysData.a'')])]) =
    Inl StackOverflow"
proof -
  let ?d = "GMap [(''sysData'', GMap [(''a'', GStr ''$sysData.a'')])]"
  have lit: "literal_str ''sysData.a''"
    and keys: "dollar_keys False ''sysData.a'' = Inr ([''sysData.a''], None)"
    and get: "GetMapData ?d ''sysData.a'' = Some (GStr ''$sysData.a'')"
    by code_simp+
  have "Interpolate X n (GStr ''$sysData.a'') ?d =
      (case n of 0 \<Rightarrow> Inl StackOverflow | Suc n' \<Rightarrow> Interpolate X n' (GStr ''$sysData.a'') ?d)" for n
    using InterpolateStr_literal [OF lit, of X n ?d]
    by (simp add: Interpolate.simps [of X n] InterpolateDollarStr.simps keys get has_prefix_def)
  then show ?thesis by (induction n) simp_all
qed

text \<open>
  A reference \<open>$a.b,c.d\<close> is the value at the first of its paths that leads to one; with
  \<open>$?\<close> it is \<open>nil\<close> when none does, with a quoted default it is that text, and otherwise the
  interpolation panics. The paths contain no comma, quote or template and do not lead into
  \<open>sysData\<close>.
\<close>

theorem Interpolate_reference:
  assumes "ks \<noteq> []" and "\<forall>k \<in> set ks. path_ok k" and "q \<in> set quotes"
    and "literal_str (join_on CHR '','' ks)" and "literal_str (join_on CHR '','' ks @ '','' @ q # lit @ [q])"
    and "join_on CHR '','' ks \<noteq> []" and "hd (join_on CHR '','' ks) \<noteq> CHR ''?''"
  shows "Interpolate X n (GStr (''$'' @ join_on CHR '','' ks)) d =
      (case first_key d ks of Some (k, v) \<Rightarrow> Inr v | None \<Rightarrow> Inl (PanicErr ''invalid path'')) \<and>
    Interpolate X n (GStr (''$?'' @ join_on CHR '','' ks)) d =
      (case first_key d ks of Some (k, v) \<Rightarrow> Inr v | None \<Rightarrow> Inr GNil) \<and>
    Interpolate X n (GStr (''$'' @ join_on CHR '','' ks @ '','' @ q # lit @ [q])) d =
      (case first_key d ks of Some (k, v) \<Rightarrow> Inr v | None \<Rightarrow> Inr (GStr lit))"
proof -
  let ?j = "join_on CHR '','' ks"
  obtain c cs where j: "?j = c # cs" "c \<noteq> CHR ''?''" using assms(6,7) by (cases ?j) auto
  have dollar: "Interpolate X n (GStr (CHR ''$'' # s)) d = InterpolateDollarStr X n (CHR ''$'' # s) d" for s
    by (simp add: Interpolate.simps has_prefix_def)
  have "InterpolateDollarStr X n (''$'' @ ?j) d = (case first_key d ks of
      Some (k, v) \<Rightarrow> Inr v | None \<Rightarrow> dollar_default False ?j None)"
    using j dollar_outcome [where v = "''$'' @ ?j" and parsed = ?j]
      InterpolateStr_literal [OF assms(4)] dollar_keys_plain [OF assms(1,2)] assms(2)
    by (simp split: option.splits)
  moreover have "InterpolateDollarStr X n (''$?'' @ ?j) d = (case first_key d ks of
      Some (k, v) \<Rightarrow> Inr v | None \<Rightarrow> dollar_default True ?j None)"
    using dollar_outcome [where v = "''$?'' @ ?j" and parsed = ?j]
      InterpolateStr_literal [OF assms(4)] dollar_keys_plain [OF assms(1,2)] assms(2)
    by (simp split: option.splits)
  moreover have "InterpolateDollarStr X n (''$'' @ ?j @ '','' @ q # lit @ [q]) d = (case first_key d ks of
      Some (k, v) \<Rightarrow> Inr v
    | None \<Rightarrow> dollar_default False (?j @ '','' @ q # lit @ [q]) (Some (Suc (length ?j))))"
    using j dollar_outcome [where v = "''$'' @ ?j @ '','' @ q # lit @ [q]" and parsed = "?j @ '','' @ q # lit @ [q]"]
      InterpolateStr_literal [OF assms(5)] dollar_keys_quoted [OF assms(1-3), of "lit @ [q]"] assms(2)
    by (simp split: option.splits)
  moreover have "dollar_default False (?j @ '','' @ q # lit @ [q]) (Some (Suc (length ?j))) = Inr (GStr lit)"
    by (simp add: dollar_default_def nth_append butlast_append)
  ultimately show ?thesis
    by (simp add: dollar dollar_default_def split: option.splits)
qed

theorem Interpolate_reference_witness:
  "Interpolate no_ext 0 (GStr ''$a.b,c'') (GMap [(''c'', GInt 3)]) = Inr (GInt 3)"
proof -
  have "path_ok ''a.b''" "path_ok ''c''" "literal_str ''a.b,c''"
    "literal_str ([CHR ''a'', CHR ''.'', CHR ''b'', CHR '','', CHR ''c'', CHR '','', CHR 0x27, CHR ''x'', CHR 0x27])"
    "first_key (GMap [(''c'', GInt 3)]) [''a.b'', ''c''] = Some (''c'', GInt 3)"
    "CHR 0x27 \<in> set quotes"
    by code_simp+
  with Interpolate_reference [of "[''a.b'', ''c'']" "CHR 0x27" "''x''" no_ext 0 "GMap [(''c'', GInt 3)]"]
  show ?thesis by simp
qed

text \<open>
  Data without templates, references, YAML markers and escapes is not changed by interpolation,
  and a leading backslash protects any text without a template: the text itself comes back.
\<close>

theorem Interpolate_literal:
  assumes "literal v" and "\<not> contains (CHR 0x5C # s) ''{{''"
  shows "Interpolate X n v d = Inr v \<and> Interpolate X n (GStr (CHR 0x5C # s)) d = Inr (GStr s)"
  using Interpolate_literal_val [OF assms(1)] assms(2)
  by (simp add: Interpolate.simps [of X n "GStr _"] InterpolateGoTemplate_def finish_str_def
      has_prefix_def trim_prefix_def)

theorem Interpolate_literal_witness:
  "Interpolate no_ext 0 (GStr (CHR 0x5C # ''$a'')) GNil = Inr (GStr ''$a'')"
  using Interpolate_literal [of "GInt 1" "''$a''" no_ext 0 GNil] by (simp add: has_prefix_def)

text \<open>
  An encrypted string is replaced by what the driver it names decrypts, a lookup by what the
  driver finds, a deferred one of either kind loses one layer and stays for a later pass, and any
  other string stays as it is.
\<close>

theorem GetDecryptFunc_cases:
  assumes "CHR '','' \<notin> set driver" and "driver \<noteq> ''deferred''"
    and "ext_base64 X body = Some decoded" and "\<not> has_prefix str ''ENC[''" and "\<not> has_prefix str ''LOOKUP[''"
  shows "GetDecryptFunc X call key (GStr (''ENC['' @ driver @ '','' @ body @ '']'')) =
      Inr (Some (GStr (call (''driver:'' @ driver) ''decrypt'' decoded))) \<and>
    GetDecryptFunc X call key (GStr (''ENC[deferred,'' @ rest @ '']'')) = Inr (Some (GStr (''ENC['' @ rest @ '']''))) \<and>
    GetDecryptFunc X call key (GStr (''LOOKUP['' @ driver @ '','' @ body @ '']'')) =
      Inr (Some (GStr (call (''driver:'' @ driver) ''lookup'' body))) \<and>
    GetDecryptFunc X call key (GStr (''LOOKUP[deferred,'' @ rest @ '']'')) = Inr (Some (GStr (''LOOKUP['' @ rest @ '']''))) \<and>
    GetDecryptFunc X call key (GStr str) = Inr None"
proof -
  have "split2 (d @ '','' @ r) = (d, Some r)" if "CHR '','' \<notin> set d" for d r
  proof -
    from that have d: "\<forall>c \<in> set d. c \<noteq> CHR '',''" by blast
    then show ?thesis by (simp add: split2_def takeWhile_append2 dropWhile_append2)
  qed
  note split = this [OF assms(1), of body] this [of "''deferred''" rest]
  have brack: "bracketed (length p) (p @ d @ '','' @ r @ '']'') =
      (case split2 (d @ '','' @ r) of (x, None) \<Rightarrow> Inl IndexOutOfRange | (x, Some y) \<Rightarrow> Inr (x, y))" for p d r
    by (simp add: bracketed_def butlast_append)
  show ?thesis
    using assms(2-) split brack [of "''ENC[''" driver body] brack [of "''LOOKUP[''" driver body]
      brack [of "''ENC[''" "''deferred''" rest] brack [of "''LOOKUP[''" "''deferred''" rest]
    by (simp add: GetDecryptFunc_def has_prefix_def numeral_eq_Suc)
qed

theorem GetDecryptFunc_cases_witness:
  "GetDecryptFunc no_ext (\<lambda>f m p. f @ m @ p) ''k'' (GStr ''LOOKUP[gcloud,x]'') =
    Inr (Some (GStr ''driver:gcloudlookupx''))"
  using GetDecryptFunc_cases [of "''gcloud''" no_ext "''x''" "''x''" "''y''" "\<lambda>f m p. f @ m @ p" "''k''" "[]"]
  by (simp add: no_ext_def has_prefix_def)



end
