(* ===== verification/Config.thy ===== *)
theory Config
  imports Interpolation
begin

text \<open>
  \<open>internal/config\<close>: the data structures of \<open>schema.go\<close> and the two places where definitions that
  build on each other are collapsed, \<open>collapsed_trigger.go\<close> for the sources of an event and
  \<open>function_export.go\<close> for the targets of a function call.

  Following a source or a target need not end when systems refer to each other in a circle; the
  argument \<open>n\<close> bounds the number of steps. \<open>mapstructure\<close> decoding is not modelled here, so the
  structures start from decoded values. \<open>env\<close> groups what every interpolation and merge needs.
\<close>

section \<open>Environment\<close>

record env =
  e_ext :: ext
  e_fuel :: nat
  e_ord :: "gmap \<Rightarrow> string list"

definition interpolate :: "env \<Rightarrow> gval \<Rightarrow> gmap \<Rightarrow> gval res" where
  "interpolate E source data = Interpolate (e_ext E) (e_fuel E) source (GMap data)"

definition interpolate_str :: "env \<Rightarrow> string \<Rightarrow> gmap \<Rightarrow> string res" where
  "interpolate_str E pattern data = InterpolateStr (e_ext E) (e_fuel E) pattern (GMap data)"

definition merge_map :: "env \<Rightarrow> gmap option \<Rightarrow> gval \<Rightarrow> gmap option res" where
  "merge_map E dst src = MergeMap (e_ext E) (e_ord E) dst src"

text \<open>A map that may be \<open>nil\<close> as a value: to every reader it is an empty map.\<close>

definition omap :: "gmap option \<Rightarrow> gmap" where
  "omap m = (case m of None \<Rightarrow> [] | Some f \<Rightarrow> f)"

definition omap_val :: "gmap option \<Rightarrow> gval" where
  "omap_val m = GMap (omap m)"

section \<open>Schema\<close>

record Trigger =
  tr_Driver :: string
  tr_RawEvent :: string
  tr_Match :: "gmap option"
  tr_Parameters :: "gmap option"
  tr_SourceSystem :: string
  tr_SourceTrigger :: string
  tr_Export :: "gmap option"
  tr_Description :: string
  tr_Meta :: gval

record Function =
  fn_Driver :: string
  fn_RawAction :: string
  fn_Parameters :: "gmap option"
  fn_TargetSystem :: string
  fn_TargetFunction :: string
  fn_Export :: "gmap option"
  fn_ExportOnSuccess :: "gmap option"
  fn_ExportOnFailure :: "gmap option"
  fn_Description :: string
  fn_Meta :: gval

record System =
  sys_Data :: "gmap option"
  sys_Triggers :: "(string, Trigger) gomap"
  sys_Functions :: "(string, Function) gomap"
  sys_Extends :: "string list"
  sys_Description :: string
  sys_Meta :: gval

text \<open>All of a workflow but its nested workflows.\<close>

record wfdata =
  wf_Name :: string
  wf_Description :: string
  wf_Meta :: gval
  wf_Context :: string
  wf_Contexts :: gval
  wf_Local :: gval
  wf_Match :: gval
  wf_UnlessMatch :: gval
  wf_WhileMatch :: gval
  wf_UntilMatch :: gval
  wf_If :: "string list"
  wf_IfAny :: "string list"
  wf_Unless :: "string list"
  wf_UnlessAll :: "string list"
  wf_While :: "string list"
  wf_WhileAny :: "string list"
  wf_Until :: "string list"
  wf_UntilAll :: "string list"
  wf_Else :: gval
  wf_Iterate :: gval
  wf_IterateParallel :: gval
  wf_IteratePool :: string
  wf_IterateAs :: string
  wf_Retry :: string
  wf_Backoff :: string
  wf_OnError :: string
  wf_OnFailure :: string
  wf_Workflow :: string
  wf_Function :: Function
  wf_CallFunction :: string
  wf_CallDriver :: string
  wf_Wait :: string
  wf_Detach :: bool
  wf_Switch :: string
  wf_Cases :: "gmap option"
  wf_Default :: gval
  wf_Export :: "gmap option"
  wf_ExportOnSuccess :: "gmap option"
  wf_ExportOnFailure :: "gmap option"
  wf_ExportOnError :: "gmap option"
  wf_NoExport :: "string list"

datatype Workflow = Workflow (wd: wfdata) (Steps: "Workflow list option") (Threads: "Workflow list option")

definition upd_wd :: "(wfdata \<Rightarrow> wfdata) \<Rightarrow> Workflow \<Rightarrow> Workflow" where
  "upd_wd f w = Workflow (f (wd w)) (Steps w) (Threads w)"

lemma upd_wd_sel [simp]:
  "wd (upd_wd f w) = f (wd w)" "Steps (upd_wd f w) = Steps w" "Threads (upd_wd f w) = Threads w"
  by (simp_all add: upd_wd_def)

definition zero_function :: Function where
  "zero_function = \<lparr>fn_Driver = [], fn_RawAction = [], fn_Parameters = None, fn_TargetSystem = [],
     fn_TargetFunction = [], fn_Export = None, fn_ExportOnSuccess = None, fn_ExportOnFailure = None,
     fn_Description = [], fn_Meta = GNil\<rparr>"

definition zero_wfdata :: wfdata where
  "zero_wfdata = \<lparr>wf_Name = [], wf_Description = [], wf_Meta = GNil, wf_Context = [], wf_Contexts = GNil, wf_Local = GNil,
     wf_Match = GNil, wf_UnlessMatch = GNil, wf_WhileMatch = GNil, wf_UntilMatch = GNil,
     wf_If = [], wf_IfAny = [], wf_Unless = [], wf_UnlessAll = [], wf_While = [], wf_WhileAny = [],
     wf_Until = [], wf_UntilAll = [], wf_Else = GNil, wf_Iterate = GNil, wf_IterateParallel = GNil,
     wf_IteratePool = [], wf_IterateAs = [], wf_Retry = [], wf_Backoff = [], wf_OnError = [],
     wf_OnFailure = [], wf_Workflow = [], wf_Function = zero_function, wf_CallFunction = [],
     wf_CallDriver = [], wf_Wait = [], wf_Detach = False, wf_Switch = [], wf_Cases = None,
     wf_Default = GNil, wf_Export = None, wf_ExportOnSuccess = None, wf_ExportOnFailure = None,
     wf_ExportOnError = None, wf_NoExport = []\<rparr>"

definition zero_workflow :: Workflow where
  "zero_workflow = Workflow zero_wfdata None None"

record Rule =
  When :: Trigger
  Do :: Workflow

record RepoInfo =
  ri_Repo :: string
  ri_Branch :: string
  ri_Path :: string
  ri_InitFile :: string
  ri_Name :: string
  ri_Description :: string
  ri_KeyFile :: string
  ri_KeyPassEnv :: string

record DataSet =
  Systems :: "(string, System) gomap"
  Rules :: "Rule list"
  Drivers :: "gmap option"
  Includes :: "string list"
  Repos :: "RepoInfo list"
  Workflows :: "(string, Workflow) gomap"
  Contexts :: "gmap option"

definition zero_system :: System where
  "zero_system = \<lparr>sys_Data = None, sys_Triggers = [], sys_Functions = [], sys_Extends = [],
     sys_Description = [], sys_Meta = GNil\<rparr>"

definition zero_trigger :: Trigger where
  "zero_trigger = \<lparr>tr_Driver = [], tr_RawEvent = [], tr_Match = None, tr_Parameters = None,
     tr_SourceSystem = [], tr_SourceTrigger = [], tr_Export = None, tr_Description = [], tr_Meta = GNil\<rparr>"

section \<open>Collapsing a trigger\<close>

record CollapsedTrigger =
  ct_Match :: "gmap option"
  ct_Exports :: "gmap option list"
  ct_SysData :: "gmap option"
  ct_Parameters :: "gmap option"
  ct_SysName :: string

text \<open>Reading a missing key of a map of structs gives the zero value.\<close>

definition source_of :: "DataSet \<Rightarrow> Trigger \<Rightarrow> System" where
  "source_of c t = (case map_of (Systems c) (tr_SourceSystem t) of None \<Rightarrow> zero_system | Some s \<Rightarrow> s)"

definition source_trigger :: "DataSet \<Rightarrow> Trigger \<Rightarrow> Trigger" where
  "source_trigger c t = (case map_of (sys_Triggers (source_of c t)) (tr_SourceTrigger t) of
     None \<Rightarrow> zero_trigger | Some s \<Rightarrow> s)"

text \<open>
  The loop along the sources: the triggers passed, innermost first, and the raw trigger. It does
  not end when the sources form a circle; \<open>n\<close> bounds its rounds.
\<close>

fun source_stack :: "nat \<Rightarrow> DataSet \<Rightarrow> Trigger \<Rightarrow> Trigger list \<Rightarrow> (Trigger list \<times> Trigger) option" where
  "source_stack n c current stack =
    (if tr_SourceSystem current = [] then Some (stack, current)
     else case n of 0 \<Rightarrow> None | Suc n' \<Rightarrow> source_stack n' c (source_trigger c current) (current # stack))"

declare source_stack.simps [simp del]

text \<open>One round of the second loop, from the innermost trigger outwards.\<close>

definition collapse_step :: "env \<Rightarrow> DataSet \<Rightarrow> Trigger \<Rightarrow> Trigger \<Rightarrow> CollapsedTrigger \<Rightarrow> CollapsedTrigger res" where
  "collapse_step E c raw trigger ct =
    (let sourceSys = source_of c trigger in
     rbind (MustDeepCopyMap (sys_Data sourceSys)) (\<lambda>d.
     rbind (merge_map E (ct_SysData ct) (omap_val d)) (\<lambda>sysData.
     rbind (MustDeepCopyMap (tr_Parameters trigger)) (\<lambda>p.
     rbind (merge_map E (ct_Parameters ct) (omap_val p)) (\<lambda>params.
     rbind (MustDeepCopyMap (tr_Match trigger)) (\<lambda>m.
     rbind (merge_map E (ct_Match ct) (omap_val m)) (\<lambda>match.
     rbind (if tr_Driver raw = ''webhook'' then
              (case map_of (omap (sys_Data sourceSys)) ''signatureSecret'' of
                 None \<Rightarrow> Inr False
               | Some sigsec \<Rightarrow> rmap (\<lambda>s. s \<noteq> []) (assert_type (as_str sigsec)))
            else Inr False) (\<lambda>signed.
     rbind (if signed then
              (case match of
                 None \<Rightarrow> Inl NilMapWrite
               | Some mm \<Rightarrow> Inr (Some (mput ''verifiedSystem'' (GStr (tr_SourceSystem trigger)) mm)))
            else Inr match) (\<lambda>match'.
     Inr (ct\<lparr>ct_SysData := sysData, ct_Parameters := params, ct_Match := match',
             ct_Exports := ct_Exports ct @ [tr_Export trigger]\<rparr>))))))))))"

fun collapse_loop :: "env \<Rightarrow> DataSet \<Rightarrow> Trigger \<Rightarrow> Trigger list \<Rightarrow> CollapsedTrigger \<Rightarrow> CollapsedTrigger res" where
  "collapse_loop E c raw [] ct = Inr ct"
| "collapse_loop E c raw (t # ts) ct = rbind (collapse_step E c raw t ct) (collapse_loop E c raw ts)"

text \<open>\<open>Interpolate(...).(map[string]interface{})\<close> on a map that may be \<open>nil\<close>.\<close>

definition interpolate_map :: "env \<Rightarrow> gmap option \<Rightarrow> gmap \<Rightarrow> gmap option res" where
  "interpolate_map E m data = rbind (interpolate E (omap_val m) data) (\<lambda>v.
     rmap Some (assert_type (as_map v)))"

definition CollapseTrigger :: "env \<Rightarrow> nat \<Rightarrow> Trigger \<Rightarrow> DataSet \<Rightarrow> (Trigger \<times> CollapsedTrigger) res option" where
  "CollapseTrigger E n t c = (case source_stack n c t [] of
      None \<Rightarrow> None
    | Some (stack, current) \<Rightarrow> Some (
        rbind (MustDeepCopyMap (tr_Match current)) (\<lambda>match.
        rbind (MustDeepCopyMap (tr_Parameters current)) (\<lambda>params.
        rbind (collapse_loop E c current stack
          \<lparr>ct_Match = match, ct_Exports = [tr_Export current], ct_SysData = Some [],
           ct_Parameters = params, ct_SysName = tr_SourceSystem t\<rparr>) (\<lambda>ct.
        if omap (ct_SysData ct) = [] then Inr (current, ct)
        else (let envData = [(''sysData'', omap_val (ct_SysData ct))] in
          rbind (interpolate_map E (ct_Match ct) envData) (\<lambda>match'.
          rbind (interpolate_map E (ct_Parameters ct) envData) (\<lambda>params'.
          Inr (current, ct\<lparr>ct_Match := match', ct_Parameters := params'\<rparr>))))))))) "

text \<open>
  \<open>ExportContext\<close>: every layer sees what the inner layers exported. \<open>MergeMap\<close> changes the map
  that \<open>envData["ctx"]\<close> refers to, so the next layer is interpolated with the merged context.
\<close>

fun export_layers :: "env \<Rightarrow> gmap option list \<Rightarrow> gmap \<Rightarrow> gmap option \<Rightarrow> gmap option res" where
  "export_layers E [] envData newCtx = Inr newCtx"
| "export_layers E (layer # layers) envData newCtx =
     rbind (interpolate E (omap_val layer) (mput ''ctx'' (omap_val newCtx) envData)) (\<lambda>delta.
     rbind (merge_map E newCtx delta) (export_layers E layers envData))"

definition ExportContext :: "env \<Rightarrow> CollapsedTrigger \<Rightarrow> string \<Rightarrow> gmap \<Rightarrow> gmap res" where
  "ExportContext E t eventName envData =
    rbind (export_layers E (ct_Exports t) (mput ''sysData'' (omap_val (ct_SysData t)) envData) (Some [])) (\<lambda>newCtx.
    case newCtx of
      None \<Rightarrow> Inl NilMapWrite
    | Some m \<Rightarrow> Inr (if map_of m ''_meta_event'' = None then mput ''_meta_event'' (GStr eventName) m else m))"

section \<open>Exporting from a function call\<close>

text \<open>The status of the call, read from the labels in the environment.\<close>

definition export_status :: "gmap \<Rightarrow> string" where
  "export_status envData = (case map_of envData ''labels'' of
      Some (GMap labels) \<Rightarrow> (case map_of labels ''status'' of Some (GStr s) \<Rightarrow> s | _ \<Rightarrow> ''success'')
    | _ \<Rightarrow> ''success'')"

definition env_sysData :: "gmap \<Rightarrow> gmap option res" where
  "env_sysData envData = (case map_of envData ''sysData'' of
      None \<Rightarrow> Inr None
    | Some (GMap m) \<Rightarrow> Inr (Some m)
    | Some _ \<Rightarrow> Inl (PanicStr ''[operator] sysData is not a map''))"

text \<open>
  Descending into the subsystems of a dotted function name; each gets its parent under \<open>parent\<close>.
  (In memory the parent refers back to the subsystem; the value holds the parent as it was.)
\<close>

fun descend :: "string list \<Rightarrow> gmap \<Rightarrow> gmap res" where
  "descend [] m = Inr m"
| "descend (subsystem # rest) parent =
     rbind (assert_type (Option.bind (map_of parent subsystem) as_map)) (\<lambda>m.
     descend rest (mput ''parent'' (GMap parent) m))"

text \<open>One of the export blocks: merged into the exported data and into the context.\<close>

definition export_block :: "env \<Rightarrow> gmap option \<Rightarrow> gmap \<Rightarrow> gmap option \<times> gmap option \<Rightarrow> (gmap option \<times> gmap option) res" where
  "export_block E block envData = (\<lambda>(exported, newCtx).
     rbind (interpolate E (omap_val block) envData) (\<lambda>delta.
     rbind (MustDeepCopy delta) (\<lambda>d.
     rbind (merge_map E exported d) (\<lambda>exported'.
     rbind (merge_map E newCtx delta) (\<lambda>newCtx'.
     Inr (exported', newCtx'))))))"

definition ctx_of :: "gmap \<Rightarrow> gmap option res" where
  "ctx_of envData = (case map_of envData ''ctx'' of
      None \<Rightarrow> Inr None
    | Some GNil \<Rightarrow> Inr None
    | Some v \<Rightarrow> rmap Some (assert_type (as_map v)))"

text \<open>
  The result is what was exported and the changed environment. A second block is interpolated with
  the context that already holds the first one, which \<open>MergeMap\<close> changed in place, unless there was
  no context before.
\<close>

fun ExportFunctionContext :: "env \<Rightarrow> nat \<Rightarrow> DataSet \<Rightarrow> Function \<Rightarrow> gmap \<Rightarrow> (gmap option \<times> gmap) res" where
  "ExportFunctionContext E n cfg f envData =
    (let status = export_status envData in
     if status = ''error'' then Inr (None, envData)
     else
     rbind (env_sysData envData) (\<lambda>sysData.
     rbind (MustDeepCopyMap (fn_Parameters f)) (\<lambda>ps.
     rbind (merge_map E ps (case map_of envData ''params'' of None \<Rightarrow> GNil | Some v \<Rightarrow> v)) (\<lambda>params.
     let env1 = mput ''params'' (omap_val params) envData in
     rbind
      (if fn_TargetSystem f \<noteq> [] then
         (case map_of (Systems cfg) (fn_TargetSystem f) of
            None \<Rightarrow> Inl (PanicStr ''[operator] system not defined'')
          | Some childSystem \<Rightarrow>
              (case map_of (sys_Functions childSystem) (fn_TargetFunction f) of
                 None \<Rightarrow> Inl (PanicStr ''[operator] function not defined'')
               | Some childFunction \<Rightarrow>
                   rbind (MustDeepCopyMap sysData) (\<lambda>sd.
                   rbind (MustDeepCopyMap (sys_Data childSystem)) (\<lambda>cd.
                   rbind (merge_map E sd (omap_val cd)) (\<lambda>merged.
                   rbind (descend (butlast (split_on CHR ''.'' (fn_TargetFunction f))) (omap merged)) (\<lambda>mergedSysData.
                   (case n of
                      0 \<Rightarrow> Inl StackOverflow
                    | Suc n' \<Rightarrow>
                        ExportFunctionContext E n' cfg childFunction
                          (mput ''sysData'' (GMap mergedSysData) env1))))))))
       else
         rbind (interpolate E (omap_val params) env1) (\<lambda>p. Inr (None, mput ''params'' p env1))) (\<lambda>(exported, env2).
     let env3 = mput ''sysData'' (omap_val sysData) env2 in
     rbind (ctx_of env3) (\<lambda>newCtx.
     rbind (export_block E (fn_Export f) env3 (exported, newCtx)) (\<lambda>(ex1, ctx1).
     let env4 = (if newCtx = None then env3 else mput ''ctx'' (omap_val ctx1) env3) in
     rbind (if status = ''success'' then export_block E (fn_ExportOnSuccess f) env4 (ex1, ctx1)
            else if status = ''failure'' then export_block E (fn_ExportOnFailure f) env4 (ex1, ctx1)
            else Inr (ex1, ctx1)) (\<lambda>(ex2, ctx2).
     Inr (ex2, mput ''ctx'' (omap_val ctx2) env4)))))))))"

declare ExportFunctionContext.simps [simp del]

end
