(* ===== verification/Condition.thy ===== *)
theory Condition
  imports MapUtils
begin

text \<open>
  \<open>pkg/dipper/condition.go\<close>: matching an event or a context against the conditions of a rule.
  A criteria value is a string, a compiled expression, a list of alternatives (or \<open>:all:\<close> followed
  by what every element has to match) or a map whose keys may be \<open>:auth:\<close>, \<open>:present:\<close>,
  \<open>:absent:\<close>, \<open>:except:\<close>, a field name, or a field name with \<open>!\<close> for negation.

  The code indexes lists and strings without looking at their length, so matching may panic; the
  result type is \<open>bool res\<close>. The properties give the declarative meaning of well-formed criteria
  and its independence of the order in which a criteria map is ranged over.
\<close>

section \<open>Operations\<close>

text \<open>The two loops of the code: return at the first hit, or at the first miss.\<close>

fun any_loop :: "('a \<Rightarrow> bool res) \<Rightarrow> 'a list \<Rightarrow> bool res" where
  "any_loop f [] = Inr False"
| "any_loop f (x # xs) = rbind (f x) (\<lambda>b. if b then Inr True else any_loop f xs)"

fun all_loop :: "('a \<Rightarrow> bool res) \<Rightarrow> 'a list \<Rightarrow> bool res" where
  "all_loop f [] = Inr True"
| "all_loop f (x # xs) = rbind (f x) (\<lambda>b. if b then all_loop f xs else Inr False)"

lemma any_loop_cong [fundef_cong]:
  "xs = ys \<Longrightarrow> (\<And>x. x \<in> set ys \<Longrightarrow> f x = g x) \<Longrightarrow> any_loop f xs = any_loop g ys"
proof (induction ys arbitrary: xs)
  case (Cons y ys)
  then have "any_loop f ys = any_loop g ys" "f y = g y" by simp_all
  with Cons.prems(1) show ?case by (cases "g y") simp_all
qed simp

lemma all_loop_cong [fundef_cong]:
  "xs = ys \<Longrightarrow> (\<And>x. x \<in> set ys \<Longrightarrow> f x = g x) \<Longrightarrow> all_loop f xs = all_loop g ys"
proof (induction ys arbitrary: xs)
  case (Cons y ys)
  then have "all_loop f ys = all_loop g ys" "f y = g y" by simp_all
  with Cons.prems(1) show ?case by (cases "g y") simp_all
qed simp

lemma any_loop_total:
  "(\<And>x. x \<in> set xs \<Longrightarrow> f x = Inr (P x)) \<Longrightarrow> any_loop f xs = Inr (\<exists>x \<in> set xs. P x)"
  by (induction xs) auto

lemma all_loop_total:
  "(\<And>x. x \<in> set xs \<Longrightarrow> f x = Inr (P x)) \<Longrightarrow> all_loop f xs = Inr (\<forall>x \<in> set xs. P x)"
  by (induction xs) auto

fun Compare :: "ext \<Rightarrow> string \<Rightarrow> gval \<Rightarrow> bool" where
  "Compare X actual GNil = True"
| "Compare X actual (GStr s) = (s = actual)"
| "Compare X actual (GRegex p) = ext_re_match X p actual"
| "Compare X actual (GList cs) = list_ex (Compare X actual) cs"
| "Compare X actual _ = False"

text \<open>
  The test \<open>ok && strCriteria[0] == ":all:"\<close>: what follows the marker, or \<open>None\<close>. It panics on an
  empty list.
\<close>

fun all_criteria :: "gval \<Rightarrow> gval list option res" where
  "all_criteria (GList []) = Inl IndexOutOfRange"
| "all_criteria (GList (c # cs)) = Inr (if c = GStr '':all:'' then Some cs else None)"
| "all_criteria _ = Inr None"

lemma size_all_criteria: "all_criteria criteria = Inr (Some (c # cs)) \<Longrightarrow> size c < size criteria"
  by (cases criteria rule: all_criteria.cases) (auto split: if_splits)

text \<open>
  \<open>CompareMap\<close> and \<open>CompareAll\<close> call each other. The third argument of the measure puts
  \<open>CompareAll\<close> above \<open>CompareMap\<close> on the same arguments.
\<close>

function CompareMap :: "ext \<Rightarrow> gval \<Rightarrow> gval \<Rightarrow> bool res"
  and CompareAll :: "ext \<Rightarrow> gval \<Rightarrow> gval \<Rightarrow> bool res" where
  "CompareMap X actual criteria = (case criteria of
      GList scenario \<Rightarrow>
        if scenario = [] then Inr True else any_loop (CompareMap X actual) scenario
    | GMap scenario \<Rightarrow>
        all_loop (\<lambda>(key, subCriteria).
          if key = '':auth:'' then Inr True
          else if key = '':present:'' \<or> key = '':absent:'' then
            rbind (case actual of GMap m \<Rightarrow> Inr (map fst m) | _ \<Rightarrow> Inl ReflectPanic) (\<lambda>keys.
            rbind (CompareAll X (GList (map GStr keys)) subCriteria) (\<lambda>presence.
            Inr (presence = (key = '':present:''))))
          else if key = '':except:'' then
            rbind (CompareAll X actual subCriteria) (\<lambda>b. Inr (\<not> b))
          else if key = [] then Inl IndexOutOfRange
          else
            (let neg = (last key = CHR ''!''); field = (if neg then butlast key else key) in
            rbind (case actual of GMap m \<Rightarrow> Inr (map_of m field) | _ \<Rightarrow> Inl ReflectPanic) (\<lambda>subVal.
            rbind (case subVal of None \<Rightarrow> Inr False | Some v \<Rightarrow> CompareAll X v subCriteria) (\<lambda>match.
            Inr (match \<noteq> neg))))) scenario
    | _ \<Rightarrow> Inr False)"
| "CompareAll X actual criteria = (
      if criteria = GNil then Inr True
      else case actual of
        GStr s \<Rightarrow> Inr (Compare X s criteria)
      | GList vs \<Rightarrow>
          rbind (all_criteria criteria) (\<lambda>every.
          case every of
            Some cs \<Rightarrow> all_loop (\<lambda>v. case cs of [] \<Rightarrow> Inl IndexOutOfRange | c # _ \<Rightarrow> CompareAll X v c) vs
          | None \<Rightarrow> any_loop (\<lambda>v. CompareAll X v criteria) vs)
      | GMap m \<Rightarrow> CompareMap X actual criteria
      | _ \<Rightarrow> Inr False)"
  by pat_completeness auto

termination
  by (relation "inv_image (less_than <*lex*> less_than <*lex*> less_than)
      (\<lambda>x. case x of Inl (X, a, c) \<Rightarrow> (size c, size a, 0 :: nat)
        | Inr (X, a, c) \<Rightarrow> (size c, size a, 1))")
    (auto dest: size_map_of size_all_criteria)

declare CompareMap.simps [simp del] CompareAll.simps [simp del]

definition RegexParser :: "ext \<Rightarrow> string \<Rightarrow> gval \<Rightarrow> gval option" where
  "RegexParser X key val = (case val of
      GStr str \<Rightarrow>
        if has_prefix str '':regex:'' then
          (if ext_re_valid X (drop 7 str) then Some (GRegex (drop 7 str)) else None)
        else None
    | _ \<Rightarrow> None)"

fun IsTruthy :: "gval \<Rightarrow> bool" where
  "IsTruthy (GStr c) = (to_lower (trim_space c) = ''true'')"
| "IsTruthy (GBool c) = c"
| "IsTruthy _ = False"

section \<open>What well-formed criteria mean\<close>

text \<open>
  Criteria on which the code does not index out of range: no empty list, something after \<open>:all:\<close>,
  no empty key.
\<close>

fun crit_ok :: "gval \<Rightarrow> bool" where
  "crit_ok (GList cs) \<longleftrightarrow> cs \<noteq> [] \<and> cs \<noteq> [GStr '':all:''] \<and> list_all crit_ok cs"
| "crit_ok (GMap m) \<longleftrightarrow> list_all (\<lambda>(k, c). k \<noteq> [] \<and> crit_ok c) m"
| "crit_ok _ \<longleftrightarrow> True"

definition holds :: "ext \<Rightarrow> gval \<Rightarrow> gval \<Rightarrow> bool" where
  "holds X actual criteria \<longleftrightarrow> CompareAll X actual criteria = Inr True"

text \<open>What one entry of a criteria map asks of a map \<open>m\<close>.\<close>

definition field_holds :: "ext \<Rightarrow> gmap \<Rightarrow> string \<Rightarrow> gval \<Rightarrow> bool" where
  "field_holds X m field c \<longleftrightarrow> (\<exists>v. map_of m field = Some v \<and> holds X v c)"

definition clause :: "ext \<Rightarrow> gmap \<Rightarrow> string \<Rightarrow> gval \<Rightarrow> bool" where
  "clause X m key c \<longleftrightarrow>
    (if key = '':auth:'' then True
     else if key = '':present:'' then holds X (GList (map (GStr \<circ> fst) m)) c
     else if key = '':absent:'' then \<not> holds X (GList (map (GStr \<circ> fst) m)) c
     else if key = '':except:'' then \<not> holds X (GMap m) c
     else if last key = CHR ''!'' then \<not> field_holds X m (butlast key) c
     else field_holds X m key c)"

lemma any_loop_ok: "(\<And>x. x \<in> set xs \<Longrightarrow> ok (f x)) \<Longrightarrow> ok (any_loop f xs)"
  by (induction xs) (force simp: ok_conv)+

lemma all_loop_ok: "(\<And>x. x \<in> set xs \<Longrightarrow> ok (f x)) \<Longrightarrow> ok (all_loop f xs)"
  by (induction xs) (force simp: ok_conv)+

lemma ok_rbind: "ok m \<Longrightarrow> (\<And>x. m = Inr x \<Longrightarrow> ok (f x)) \<Longrightarrow> ok (rbind m f)"
  by (cases m) simp_all

lemma ok_if: "(b \<Longrightarrow> ok x) \<Longrightarrow> (\<not> b \<Longrightarrow> ok y) \<Longrightarrow> ok (if b then x else y)"
  by simp

lemma all_criteria_crit_ok: "crit_ok c \<Longrightarrow> ok (all_criteria c)"
  by (cases c rule: all_criteria.cases) auto

lemma all_criteria_SomeD:
  "all_criteria c = Inr (Some cs) \<Longrightarrow> crit_ok c \<Longrightarrow> \<exists>d ds. cs = d # ds \<and> crit_ok d"
  by (cases c rule: all_criteria.cases; cases cs) (auto split: if_splits)

lemma compare_ok:
  "crit_ok c \<Longrightarrow> \<exists>m. a = GMap m \<Longrightarrow> ok (CompareMap X a c)"
  "crit_ok c \<Longrightarrow> ok (CompareAll X a c)"
proof (induction X a c and X a c rule: CompareMap_CompareAll.induct)
  case (1 X a c)
  note IH = 1(1-4)
  from 1 obtain m where a: "a = GMap m" by blast
  show ?case
  proof (cases c)
    case (GList cs)
    with 1 a show ?thesis
      by (simp add: CompareMap.simps [of X "GMap m" "GList cs"] list_all_iff any_loop_ok)
  next
    case (GMap cs)
    have "ok (CompareMap X (GMap m) (GMap cs))"
      unfolding CompareMap.simps [of X "GMap m" "GMap cs"] gval.case
    proof (rule all_loop_ok, goal_cases)
      case (1 p)
      obtain k d where p: "p = (k, d)" by (cases p)
      note kd = \<open>p \<in> set cs\<close> [unfolded p] \<open>crit_ok c\<close> [unfolded GMap]
      then have "k \<noteq> []" "crit_ok d" by (auto simp: list_all_iff)
      with kd IH show ?case
        unfolding p GMap a prod.case Let_def
        by (intro ok_if ok_rbind) (auto split: option.splits)
    qed
    then show ?thesis by (simp add: a GMap)
  qed (simp_all add: CompareMap.simps)
next
  case (2 X a c)
  show ?case
  proof (cases a)
    case (GList vs)
    obtain every where every: "all_criteria c = Inr every"
      using all_criteria_crit_ok [OF 2(4)] by (auto simp: ok_conv)
    show ?thesis
    proof (cases "c = GNil")
      case False
      show ?thesis
      proof (cases every)
        case None
        with False GList every 2 show ?thesis
          by (simp add: CompareAll.simps [of X "GList vs" c] any_loop_ok)
      next
        case (Some cs)
        with every 2(4) obtain d ds where "cs = d # ds" "crit_ok d" by (meson all_criteria_SomeD)
        with False GList every Some 2 show ?thesis
          by (simp add: CompareAll.simps [of X "GList vs" c] all_loop_ok)
      qed
    qed (simp add: CompareAll.simps)
  qed (use 2 in \<open>simp_all add: CompareAll.simps\<close>)
qed

lemma holds_iff: "crit_ok c \<Longrightarrow> CompareAll X a c = Inr (holds X a c)"
  using compare_ok(2) [of c X a] by (auto simp: holds_def ok_conv)

lemma CompareMap_clauses:
  assumes "crit_ok (GMap cs)"
  shows "CompareMap X (GMap m) (GMap cs) = Inr (\<forall>(k, c) \<in> set cs. clause X m k c)"
proof -
  have "CompareMap X (GMap m) (GMap cs) = Inr (\<forall>p \<in> set cs. case p of (k, c) \<Rightarrow> clause X m k c)"
    unfolding CompareMap.simps [of X "GMap m" "GMap cs"] gval.case
  proof (rule all_loop_total, goal_cases)
    case (1 p)
    obtain k c where p: "p = (k, c)" by (cases p)
    with 1 assms have kc: "k \<noteq> []" "crit_ok c" by (auto simp: list_all_iff)
    then show ?case
      by (auto simp: p clause_def field_holds_def holds_iff Let_def o_def split: option.splits)
  qed
  then show ?thesis by (simp add: case_prod_beta)
qed

section \<open>Properties\<close>

text \<open>
  Matching against well-formed criteria never panics, whatever the event holds: every criteria
  list is non-empty, \<open>:all:\<close> is followed by something and no key is empty.
\<close>

theorem CompareAll_total:
  assumes "crit_ok criteria"
  shows "\<exists>b. CompareAll X actual criteria = Inr b"
  using compare_ok(2) [OF assms] by (simp add: ok_conv)

theorem CompareAll_total_witness:
  "\<exists>b. CompareAll no_ext (GMap [(''tags'', GList [GStr ''a'', GInt 1])])
     (GMap [(''tags!'', GList [GStr '':all:'', GRegex ''b'']), ('':present:'', GStr ''tags'')]) = Inr b"
  by (rule CompareAll_total) simp



text \<open>
  Conditions of a rule are prepared with \<open>Recursive\<close> and \<open>RegexParser\<close>; a string compiled from
  \<open>:regex:\<close> then matches exactly the strings its pattern matches, and any other string criteria
  matches only itself.
\<close>

theorem RegexParser_Compare:
  "Compare X actual (case RegexParser X key (GStr str) of None \<Rightarrow> GStr str | Some c \<Rightarrow> c) =
    (if has_prefix str '':regex:'' \<and> ext_re_valid X (drop 7 str)
     then ext_re_match X (drop 7 str) actual else str = actual)"
  by (simp add: RegexParser_def)

text \<open>
  An empty criteria list makes matching panic when the value compared is a list, and so do
  \<open>:present:\<close> and \<open>:absent:\<close> with an empty list, since they compare the list of keys.
\<close>

theorem CompareAll_empty_list_panics:
  "CompareAll X (GList vs) (GList []) = Inl IndexOutOfRange \<and>
   CompareAll X (GMap m) (GMap (('':absent:'', GList []) # cs)) = Inl IndexOutOfRange"
  by (simp_all add: CompareAll.simps CompareMap.simps)

end
