(* ===== verification/Session.thy ===== *)
theory Session
  imports Config Condition Comm
begin

text \<open>
  \<open>internal/workflow/session.go\<close> and \<open>condition.go\<close>: the state of a running workflow, how its
  context is put together from named contexts, the event, the parent and local values, and the
  conditions that decide whether it runs and whether it loops.

  A session is a record; messages, contexts and workflows are values, so a map that two sessions
  would share is copied. Where the code reads a map again after merging into it in place, the model
  reads the merged map. Time stamps are left out; \<open>s_watched\<close> and \<open>s_cancelled\<close> stand for the
  cancellable context of a watched session. \<open>wfenv\<close> holds the configuration and what is external:
  \<open>mapstructure\<close> decoding and the text of a panic.
\<close>

section \<open>State\<close>

record Session =
  s_ID :: string
  s_EventID :: string
  s_workflow :: Workflow
  s_current :: nat
  s_iteration :: nat
  s_iterationOut :: "Message option"
  s_loopCount :: nat
  s_parent :: string
  s_ctx :: "gmap option"
  s_event :: "gmap option"
  s_exported :: "gmap list"
  s_elseBranch :: "Workflow option"
  s_inFlyFunction :: "Function option"
  s_loadedContexts :: "string list"
  s_currentHook :: string
  s_savedMsg :: "Message option"
  s_origMsg :: "Message option"
  s_performing :: string
  s_isHook :: bool
  s_watched :: bool
  s_cancelled :: bool

record wfenv =
  we :: env
  we_cfg :: DataSet
  we_daemonID :: string
  we_decode :: "gval \<Rightarrow> Workflow res"
  we_labels :: "gval \<Rightarrow> (string, string) gomap option"
  we_text :: "gopanic \<Rightarrow> string"
  we_depth :: nat

abbreviation wfd :: "Session \<Rightarrow> wfdata" where
  "wfd w \<equiv> wd (s_workflow w)"

definition SessionStatusSuccess :: string where "SessionStatusSuccess = ''success''"
definition SessionStatusFailure :: string where "SessionStatusFailure = ''failure''"
definition SessionStatusError :: string where "SessionStatusError = ''error''"
definition SessionContextDefault :: string where "SessionContextDefault = ''_default''"
definition SessionContextEvents :: string where "SessionContextEvents = ''_events''"
definition SessionContextHooks :: string where "SessionContextHooks = ''_hooks''"

lemmas status_defs = SessionStatusSuccess_def SessionStatusFailure_def SessionStatusError_def

definition labels_val :: "Message \<Rightarrow> gval" where
  "labels_val msg = GMap (map (\<lambda>(k, v). (k, GStr v)) (labels msg))"

definition buildEnvData :: "Session \<Rightarrow> Message \<Rightarrow> gmap" where
  "buildEnvData w msg =
    [(''data'', if payload_val msg = GNil then GMap [] else payload_val msg),
     (''labels'', labels_val msg),
     (''event'', omap_val (s_event w)),
     (''ctx'', omap_val (s_ctx w))]"

definition isLoop :: "Session \<Rightarrow> bool" where
  "isLoop w \<longleftrightarrow> wf_While (wfd w) \<noteq> [] \<or> wf_Until (wfd w) \<noteq> [] \<or> wf_WhileAny (wfd w) \<noteq> [] \<or>
     wf_UntilAll (wfd w) \<noteq> [] \<or> wf_WhileMatch (wfd w) \<noteq> GNil \<or> wf_UntilMatch (wfd w) \<noteq> GNil"

definition isIteration :: "Session \<Rightarrow> bool" where
  "isIteration w \<longleftrightarrow> wf_Iterate (wfd w) \<noteq> GNil \<or> wf_IterateParallel (wfd w) \<noteq> GNil"

text \<open>\<open>reflect.Value.Len\<close> and \<open>Index\<close>; \<open>Index\<close> into a string gives a byte.\<close>

definition reflect_len :: "gval \<Rightarrow> nat res" where
  "reflect_len v = (case v of
      GList xs \<Rightarrow> Inr (length xs) | GMap m \<Rightarrow> Inr (length m) | GStr s \<Rightarrow> Inr (length s) | _ \<Rightarrow> Inl ReflectPanic)"

definition reflect_index :: "gval \<Rightarrow> nat \<Rightarrow> gval res" where
  "reflect_index v i = (case v of
      GList xs \<Rightarrow> if i < length xs then Inr (xs ! i) else Inl ReflectPanic
    | GStr s \<Rightarrow> if i < length s then Inr (GInt (of_char (s ! i))) else Inl ReflectPanic
    | _ \<Rightarrow> Inl ReflectPanic)"

definition lenOfIterate :: "Session \<Rightarrow> nat res" where
  "lenOfIterate w = reflect_len (if wf_Iterate (wfd w) \<noteq> GNil then wf_Iterate (wfd w) else wf_IterateParallel (wfd w))"

definition isFunction :: "Session \<Rightarrow> bool" where
  "isFunction w \<longleftrightarrow> fn_Driver (wf_Function (wfd w)) \<noteq> [] \<or> fn_TargetSystem (wf_Function (wfd w)) \<noteq> []"

section \<open>Contexts\<close>

definition set_ctx :: "string \<Rightarrow> gval \<Rightarrow> Session \<Rightarrow> Session res" where
  "set_ctx k v w = (case s_ctx w of
     None \<Rightarrow> Inl NilMapWrite
   | Some m \<Rightarrow> Inr (w\<lparr>s_ctx := Some (mput k v m)\<rparr>))"

definition del_ctx :: "string \<Rightarrow> Session \<Rightarrow> Session" where
  "del_ctx k w = w\<lparr>s_ctx := map_option (mdel k) (s_ctx w)\<rparr>"

definition injectMsg :: "Message \<Rightarrow> Session \<Rightarrow> Session res" where
  "injectMsg msg w =
    (if s_parent w = [] then
       (case GetMapData (payload_val msg) ''data'' of
          Some data \<Rightarrow> rbind (assert_type (as_map data)) (\<lambda>d. Inr (w\<lparr>s_event := Some d\<rparr>))
        | None \<Rightarrow> Inr (w\<lparr>s_event := Some []\<rparr>))
     else Inr w)"

text \<open>
  Merging one section of a named context. The environment keeps referring to the context map, so it
  sees the merged values unless there was no map yet.
\<close>

definition merge_section :: "wfenv \<Rightarrow> gmap \<Rightarrow> string \<Rightarrow> bool \<Rightarrow> Session \<times> gmap \<Rightarrow> (Session \<times> gmap) res" where
  "merge_section W named section cond = (\<lambda>(w, envData).
    case (if cond then map_of named section else None) of
      None \<Rightarrow> Inr (w, envData)
    | Some ctx \<Rightarrow>
        rbind (assert_type (as_map ctx)) (\<lambda>m.
        rbind (MustDeepCopyMap (Some m)) (\<lambda>m'.
        rbind (interpolate (we W) (omap_val m') envData) (\<lambda>v.
        rbind (merge_map (we W) (s_ctx w) v) (\<lambda>ctx'.
        Inr (w\<lparr>s_ctx := ctx'\<rparr>,
             if s_ctx w = None then envData else mput ''ctx'' (omap_val ctx') envData))))))"

definition injectNamedCTX :: "wfenv \<Rightarrow> string \<Rightarrow> Message \<Rightarrow> bool \<Rightarrow> Session \<Rightarrow> Session res" where
  "injectNamedCTX W name msg firstTime w =
    (let namedCTXs = map_of (omap (Contexts (we_cfg W))) name in
     if name = [] then Inl IndexOutOfRange
     else if hd name \<noteq> CHR ''_'' \<and> namedCTXs = None then Inl (PanicStr ''[workflow] named context not defined'')
     else case namedCTXs of
       None \<Rightarrow> Inr w
     | Some GNil \<Rightarrow> Inr w
     | Some v \<Rightarrow>
         rbind (assert_type (as_map v)) (\<lambda>named.
         rbind (merge_section W named ''*'' firstTime (w, buildEnvData w msg)) (\<lambda>we1.
         rbind (merge_section W named ''_events'' (s_parent w = []) we1) (\<lambda>we2.
         rbind (merge_section W named (wf_Name (wfd w)) (wf_Name (wfd w) \<noteq> []) we2) (\<lambda>(w', _).
         Inr w')))))"

text \<open>Entering the contexts that the workflow names, each only once per session.\<close>

definition load_context :: "wfenv \<Rightarrow> Message \<Rightarrow> string \<Rightarrow> Session \<Rightarrow> Session res" where
  "load_context W msg name w =
    (if name \<in> set (s_loadedContexts w) then Inr w
     else rbind (injectNamedCTX W name msg True w) (\<lambda>w'.
       Inr (w'\<lparr>s_loadedContexts := s_loadedContexts w' @ [name]\<rparr>)))"

fun load_contexts :: "wfenv \<Rightarrow> Message \<Rightarrow> gval list \<Rightarrow> Session \<Rightarrow> Session res" where
  "load_contexts W msg [] w = Inr w"
| "load_contexts W msg (n # ns) w = (case n of
      GNil \<Rightarrow> load_contexts W msg ns w
    | GStr name \<Rightarrow>
        if name = [] then load_contexts W msg ns w
        else rbind (load_context W msg name w) (load_contexts W msg ns)
    | _ \<Rightarrow> Inl (PanicErr ''workflow error: expected list of strings in contexts in workflow''))"

definition injectCTXs :: "wfenv \<Rightarrow> Message \<Rightarrow> Session \<Rightarrow> Session res" where
  "injectCTXs W msg w =
    (let envdata = buildEnvData w msg in
     rbind (interpolate_str (we W) (wf_Context (wfd w)) envdata) (\<lambda>context.
     rbind (interpolate (we W) (wf_Contexts (wfd w)) envdata) (\<lambda>contexts.
     let w1 = w\<lparr>s_workflow := upd_wd (\<lambda>d. d\<lparr>wf_Context := context, wf_Contexts := contexts\<rparr>) (s_workflow w)\<rparr> in
     rbind (if context = [] then Inr w1
            else load_context W msg context
              (if context = SessionContextHooks then w1\<lparr>s_isHook := True\<rparr> else w1)) (\<lambda>w2.
     if contexts = GNil then Inr w2
     else rbind (assert_type (as_list contexts)) (\<lambda>ns. load_contexts W msg ns w2)))))"

fun reload_contexts :: "wfenv \<Rightarrow> Message \<Rightarrow> string list \<Rightarrow> Session \<Rightarrow> Session res" where
  "reload_contexts W msg [] w = Inr w"
| "reload_contexts W msg (name # names) w =
     rbind (injectNamedCTX W name msg False
       (if name = SessionContextHooks then w\<lparr>s_isHook := True\<rparr> else w)) (reload_contexts W msg names)"

definition initCTX :: "wfenv \<Rightarrow> Message \<Rightarrow> Session \<Rightarrow> Session res" where
  "initCTX W msg w =
    rbind (injectNamedCTX W SessionContextDefault msg (s_parent w = []) w) (\<lambda>w1.
    rbind (if s_parent w1 = [] then injectNamedCTX W SessionContextEvents msg True w1 else Inr w1) (\<lambda>w2.
    rbind (reload_contexts W msg (s_loadedContexts w2) w2) (\<lambda>w3.
    rbind (injectCTXs W msg w3) (\<lambda>w4.
    Inr (if s_isHook w4 then del_ctx ''hooks'' w4 else w4)))))"

definition injectMeta :: "Session \<Rightarrow> Session res" where
  "injectMeta w =
    (if s_isHook w then Inr w
     else rbind (set_ctx ''_meta_name'' (GStr (if wf_Name (wfd w) \<noteq> [] then wf_Name (wfd w) else s_performing w)) w)
       (set_ctx ''_meta_desc'' (GStr (wf_Description (wfd w)))))"

definition injectEventCTX :: "wfenv \<Rightarrow> gmap option \<Rightarrow> Session \<Rightarrow> Session res" where
  "injectEventCTX W ctx w = (case ctx of
      None \<Rightarrow> Inr w
    | Some m \<Rightarrow> rbind (merge_map (we W) (s_ctx w) (GMap m)) (\<lambda>c. Inr (w\<lparr>s_ctx := c\<rparr>)))"

fun local_layers :: "wfenv \<Rightarrow> gval list \<Rightarrow> gmap \<Rightarrow> gmap option \<Rightarrow> gmap option res" where
  "local_layers W [] envData ctx = Inr ctx"
| "local_layers W (l # ls) envData ctx =
     rbind (interpolate (we W) l (mput ''ctx'' (omap_val ctx) envData)) (\<lambda>locals.
     rbind (merge_map (we W) ctx locals) (local_layers W ls envData))"

definition injectLocalCTX :: "wfenv \<Rightarrow> Message \<Rightarrow> Session \<Rightarrow> Session res" where
  "injectLocalCTX W msg w =
    (if wf_Local (wfd w) = GNil \<or> wf_CallDriver (wfd w) \<noteq> [] then Inr w
     else rbind (local_layers W (case wf_Local (wfd w) of GList ls \<Rightarrow> ls | l \<Rightarrow> [l]) (buildEnvData w msg) (s_ctx w))
       (\<lambda>c. Inr (w\<lparr>s_ctx := c\<rparr>)))"

text \<open>An iteration list that is interpolated to \<open>nil\<close> becomes an empty list.\<close>

definition interpolate_list :: "env \<Rightarrow> gval \<Rightarrow> gmap \<Rightarrow> gval res" where
  "interpolate_list E v envData =
     rbind (interpolate E v envData) (\<lambda>r. Inr (if r = GNil \<and> v \<noteq> GNil then GList [] else r))"

definition interpolate_strs :: "env \<Rightarrow> string list \<Rightarrow> gmap \<Rightarrow> string list res" where
  "interpolate_strs E ss envData = rmapM (\<lambda>s. interpolate_str E s envData) ss"

definition interpolateWorkflow :: "wfenv \<Rightarrow> Message \<Rightarrow> Session \<Rightarrow> Session res" where
  "interpolateWorkflow W msg w =
    (let v = wfd w; envData = buildEnvData w msg; E = we W in
     rbind (interpolate_str E (wf_Name v) envData) (\<lambda>name.
     rbind (interpolate_str E (wf_Description v) envData) (\<lambda>desc.
     rbind (interpolate_strs E (wf_If v) envData) (\<lambda>if1.
     rbind (interpolate_strs E (wf_IfAny v) envData) (\<lambda>if2.
     rbind (interpolate_strs E (wf_Unless v) envData) (\<lambda>un1.
     rbind (interpolate_strs E (wf_UnlessAll v) envData) (\<lambda>un2.
     rbind (interpolate E (wf_Match v) envData) (\<lambda>match.
     rbind (interpolate E (wf_UnlessMatch v) envData) (\<lambda>unless.
     rbind (interpolate_str E (wf_Retry v) envData) (\<lambda>retry.
     rbind (interpolate_str E (wf_Backoff v) envData) (\<lambda>backoff.
     rbind (interpolate_str E (wf_Wait v) envData) (\<lambda>wait.
     rbind (interpolate_str E (wf_CallFunction v) envData) (\<lambda>callf.
     rbind (interpolate_str E (wf_CallDriver v) envData) (\<lambda>calld.
     rbind (interpolate_list E (wf_Iterate v) envData) (\<lambda>it.
     rbind (interpolate_list E (wf_IterateParallel v) envData) (\<lambda>itp.
     rbind (if wf_IterateParallel v \<noteq> GNil then interpolate_str E (wf_IteratePool v) envData
            else Inr (wf_IteratePool v)) (\<lambda>pool.
     Inr (w\<lparr>s_workflow := upd_wd (\<lambda>d. d\<lparr>wf_Name := name, wf_Description := desc, wf_If := if1, wf_IfAny := if2,
        wf_Unless := un1, wf_UnlessAll := un2, wf_Match := match, wf_UnlessMatch := unless, wf_Retry := retry,
        wf_Backoff := backoff, wf_Wait := wait, wf_CallFunction := callf, wf_CallDriver := calld,
        wf_Iterate := it, wf_IterateParallel := itp, wf_IteratePool := pool\<rparr>) (s_workflow w)\<rparr>))))))))))))))))))"

definition inheritParentSettings :: "Session \<Rightarrow> Session \<Rightarrow> Session" where
  "inheritParentSettings p w = w\<lparr>s_workflow := upd_wd (\<lambda>d. d\<lparr>
     wf_OnError := (if wf_OnError d = [] then wf_OnError (wfd p) else wf_OnError d),
     wf_OnFailure := (if wf_OnFailure d = [] then wf_OnFailure (wfd p) else wf_OnFailure d)\<rparr>) (s_workflow w)\<rparr>"

definition setPerforming :: "string \<Rightarrow> Session \<Rightarrow> Session" where
  "setPerforming performing w = (let d = wfd w; f = wf_Function d in
     w\<lparr>s_performing :=
       (if performing \<noteq> [] then performing
        else if wf_Description d \<noteq> [] then wf_Description d
        else if fn_TargetSystem f \<noteq> [] then fn_TargetSystem f @ ''.'' @ fn_TargetFunction f
        else if fn_Driver f \<noteq> [] then ''driver:'' @ fn_Driver f @ ''.'' @ fn_RawAction f
        else if wf_CallFunction d \<noteq> [] then wf_CallFunction d
        else if wf_CallDriver d \<noteq> [] then wf_CallDriver d
        else if wf_Workflow d \<noteq> [] then ''calling '' @ wf_Workflow d
        else if isIteration w then ''iterating''
        else if isLoop w then ''looping''
        else if (case Steps (s_workflow w) of Some (_ # _) \<Rightarrow> True | _ \<Rightarrow> False) then ''steps''
        else if (case Threads (s_workflow w) of Some (_ # _) \<Rightarrow> True | _ \<Rightarrow> False) then ''threads''
        else wf_Name d)\<rparr>)"

text \<open>The child with the data of its parent; the change of the parent is made by the caller.\<close>

definition inheritParentData :: "Session \<Rightarrow> Session \<Rightarrow> Session res" where
  "inheritParentData p w =
    rbind (MustDeepCopyMap (s_ctx p)) (\<lambda>c.
    Inr (del_ctx ''hooks'' (w\<lparr>s_event := s_event p, s_ctx := c, s_loadedContexts := s_loadedContexts p\<rparr>)))"

definition prepare :: "wfenv \<Rightarrow> Message \<Rightarrow> Session option \<Rightarrow> gmap option \<Rightarrow> Session \<Rightarrow> Session res" where
  "prepare W msg parent ctx w =
    rbind (case parent of None \<Rightarrow> Inr w | Some p \<Rightarrow> inheritParentData p w) (\<lambda>w1.
    rbind (injectMsg msg w1) (\<lambda>w2.
    rbind (initCTX W msg w2) (\<lambda>w3.
    rbind (injectEventCTX W ctx w3) (\<lambda>w4.
    rbind (injectLocalCTX W msg w4) (\<lambda>w5.
    rbind (interpolateWorkflow W msg w5) (\<lambda>w6.
    injectMeta (case parent of None \<Rightarrow> w6 | Some p \<Rightarrow> inheritParentSettings p w6)))))))"

section \<open>Accessors\<close>

definition GetStatus :: "Session \<Rightarrow> (string \<times> string) res" where
  "GetStatus w = (case s_savedMsg w of
      None \<Rightarrow> Inl NilDereference
    | Some m \<Rightarrow> Inr (case label m ''status'' of Some _ \<Rightarrow> SessionStatusSuccess | None \<Rightarrow> [], label_str m ''reason''))"

definition GetEventName :: "Session \<Rightarrow> string res" where
  "GetEventName w = (case map_of (omap (s_ctx w)) ''_meta_event'' of
      Some evn \<Rightarrow> assert_type (as_str evn) | None \<Rightarrow> Inr [])"

definition Watch :: "Session \<Rightarrow> Session" where
  "Watch w = w\<lparr>s_watched := True\<rparr>"

section \<open>Conditions\<close>

definition isTruthy :: "string \<Rightarrow> bool" where
  "isTruthy s = (let c = to_lower (trim_space s) in
     c \<noteq> [] \<and> c \<noteq> ''false'' \<and> c \<noteq> ''nil'' \<and> c \<noteq> ''0'' \<and> c \<noteq> ''{}'' \<and> c \<noteq> ''[]'' \<and> c \<noteq> ''<no value>'')"

definition compare_ctx :: "wfenv \<Rightarrow> Session \<Rightarrow> gval \<Rightarrow> bool res" where
  "compare_ctx W w criteria = CompareAll (e_ext (we W)) (omap_val (s_ctx w)) criteria"

definition checkCondition :: "wfenv \<Rightarrow> Session \<Rightarrow> bool res" where
  "checkCondition W w = (let d = wfd w in
     if wf_If d \<noteq> [] then Inr (list_all isTruthy (wf_If d))
     else if wf_IfAny d \<noteq> [] then Inr (list_ex isTruthy (wf_IfAny d))
     else if wf_Unless d \<noteq> [] then Inr (\<not> list_ex isTruthy (wf_Unless d))
     else if wf_UnlessAll d \<noteq> [] then Inr (\<not> list_all isTruthy (wf_UnlessAll d))
     else if wf_Match d \<noteq> GNil then compare_ctx W w (wf_Match d)
     else if wf_UnlessMatch d \<noteq> GNil then
       rbind (reflect_len (wf_UnlessMatch d)) (\<lambda>n.
       if n > 0 then rmap Not (compare_ctx W w (wf_UnlessMatch d)) else Inr True)
     else Inr True)"

definition truthy_of :: "wfenv \<Rightarrow> gmap \<Rightarrow> string \<Rightarrow> bool res" where
  "truthy_of W envData c = rmap isTruthy (interpolate_str (we W) c envData)"

definition checkLoopCondition :: "wfenv \<Rightarrow> Message \<Rightarrow> Session \<Rightarrow> bool res" where
  "checkLoopCondition W msg w = (let d = wfd w; envData = buildEnvData w msg in
     if wf_WhileMatch d \<noteq> GNil then
       rbind (interpolate (we W) (wf_WhileMatch d) envData) (compare_ctx W w)
     else if wf_UntilMatch d \<noteq> GNil then
       rbind (interpolate (we W) (wf_UntilMatch d) envData) (\<lambda>scenario.
       rbind (if scenario = GNil then Inr 0 else reflect_len scenario) (\<lambda>n.
       if n > 0 then rmap Not (compare_ctx W w scenario) else Inr True))
     else if wf_While d \<noteq> [] then all_loop (truthy_of W envData) (wf_While d)
     else if wf_WhileAny d \<noteq> [] then any_loop (truthy_of W envData) (wf_WhileAny d)
     else if wf_Until d \<noteq> [] then rmap Not (any_loop (truthy_of W envData) (wf_Until d))
     else if wf_UntilAll d \<noteq> [] then rmap Not (all_loop (truthy_of W envData) (wf_UntilAll d))
     else Inr True)"

end
