(* ===== verification/Engine.thy ===== *)
theory Engine
  imports IDMap Session
begin

text \<open>
  \<open>internal/workflow\<close>: \<open>execute.go\<close>, \<open>continue.go\<close>, \<open>hooks.go\<close> and \<open>store.go\<close>, the engine that
  drives sessions.

  The store holds the sessions as objects at addresses (a child is an object before it has an ID),
  the ID map of saved sessions, the suspended sessions, the messages sent to the operator, the
  results emitted, and the goroutines started and not yet run (\<open>tasks\<close>, one constructor per
  \<open>go\<close> statement). A goroutine runs to its end before another one starts; the order in which they
  run is left open.

  A function of the code is a computation \<open>unit wm\<close> on the store, which ends normally, panics, or
  blocks. The functions call each other in a cycle that a loop or a chain of empty iterations may
  follow without bound; the recursive calls go through the argument \<open>self\<close>, and \<open>run n\<close> ties the
  knot with the bound \<open>n\<close> on their nesting.
\<close>

section \<open>Store and computations\<close>

datatype task =
    TRound nat Message
  | TElse nat Message
  | THook nat Message gval
  | TParallel nat nat
  | TThread nat nat Message
  | TDetached nat Message
  | TContinue string Message "gmap list"
  | TTimer nat string
  | TTimerFires nat string string string gval
  | TResume string Message
  | TStart Workflow Message "gmap option"
  | TStartDynamic Message gval

record store =
  heap :: "nat \<Rightarrow> Session"
  next_addr :: nat
  sessions :: "nat idmap"
  suspendedSessions :: "(string, string) gomap"
  tasks :: "task list"
  outbox :: "Message list"
  results :: "(string \<times> gmap) list"

datatype 'a out = Done 'a | Panicked gopanic | Stuck

type_synonym 'a wm = "store \<Rightarrow> 'a out \<times> store"

definition wret :: "'a \<Rightarrow> 'a wm" where
  "wret x = (\<lambda>s. (Done x, s))"

definition wbind :: "'a wm \<Rightarrow> ('a \<Rightarrow> 'b wm) \<Rightarrow> 'b wm" where
  "wbind m f = (\<lambda>s. case m s of
      (Done x, s') \<Rightarrow> f x s'
    | (Panicked e, s') \<Rightarrow> (Panicked e, s')
    | (Stuck, s') \<Rightarrow> (Stuck, s'))"

definition wseq :: "unit wm \<Rightarrow> 'b wm \<Rightarrow> 'b wm" where
  "wseq m k = wbind m (\<lambda>_. k)"

definition wpanic :: "gopanic \<Rightarrow> 'a wm" where
  "wpanic e = (\<lambda>s. (Panicked e, s))"

definition wlift :: "'a res \<Rightarrow> 'a wm" where
  "wlift r = (case r of Inl e \<Rightarrow> wpanic e | Inr x \<Rightarrow> wret x)"

definition skip :: "unit wm" where
  "skip = wret ()"

definition wget :: "nat \<Rightarrow> Session wm" where
  "wget a = (\<lambda>s. (Done (heap s a), s))"

definition wmod :: "nat \<Rightarrow> (Session \<Rightarrow> Session) \<Rightarrow> unit wm" where
  "wmod a f = (\<lambda>s. (Done (), s\<lparr>heap := (heap s)(a := f (heap s a))\<rparr>))"

text \<open>A change of the session that may panic, in which case the session stays as it was.\<close>

definition wmodr :: "nat \<Rightarrow> (Session \<Rightarrow> Session res) \<Rightarrow> unit wm" where
  "wmodr a f = wbind (wget a) (\<lambda>w. wbind (wlift (f w)) (\<lambda>w'. wmod a (\<lambda>_. w')))"

text \<open>A change that also returns a value.\<close>

definition wstep :: "nat \<Rightarrow> (Session \<Rightarrow> ('a \<times> Session) res) \<Rightarrow> 'a wm" where
  "wstep a f = wbind (wget a) (\<lambda>w. wbind (wlift (f w)) (\<lambda>(x, w'). wseq (wmod a (\<lambda>_. w')) (wret x)))"

definition spawn :: "task \<Rightarrow> unit wm" where
  "spawn t = (\<lambda>s. (Done (), s\<lparr>tasks := tasks s @ [t]\<rparr>))"

definition alloc :: "Session \<Rightarrow> nat wm" where
  "alloc w = (\<lambda>s. (Done (next_addr s), s\<lparr>heap := (heap s)(next_addr s := w), next_addr := Suc (next_addr s)\<rparr>))"

text \<open>\<open>recover\<close>: a fatal error is not caught.\<close>

definition wcatch :: "'a wm \<Rightarrow> (gopanic \<Rightarrow> 'a wm) \<Rightarrow> 'a wm" where
  "wcatch m h = (\<lambda>s. case m s of
      (Panicked e, s') \<Rightarrow> if fatal e then (Panicked e, s') else h e s'
    | r \<Rightarrow> r)"

definition SafeExitOnError :: "unit wm \<Rightarrow> unit wm" where
  "SafeExitOnError m = wcatch m (\<lambda>_. skip)"

text \<open>The recursive calls of the engine.\<close>

datatype call =
    CExecute nat Message
  | CRound nat Message
  | CIteration nat Message
  | CAction nat Message
  | CContinue nat Message "gmap list"
  | CComplete nat Message

type_synonym caller = "call \<Rightarrow> unit wm"

section \<open>Sessions\<close>

definition newSession :: "string \<Rightarrow> string \<Rightarrow> Workflow \<Rightarrow> nat wm" where
  "newSession parent eventUUID wflow = alloc (setPerforming []
     \<lparr>s_ID = [], s_EventID = eventUUID, s_workflow = wflow, s_current = 0, s_iteration = 0,
      s_iterationOut = None, s_loopCount = 0, s_parent = parent, s_ctx = None, s_event = None,
      s_exported = [], s_elseBranch = None, s_inFlyFunction = None, s_loadedContexts = [],
      s_currentHook = [], s_savedMsg = None, s_origMsg = None, s_performing = [], s_isHook = False,
      s_watched = False, s_cancelled = False\<rparr>)"

definition createChildSession :: "wfenv \<Rightarrow> nat \<Rightarrow> Workflow \<Rightarrow> Message \<Rightarrow> nat wm" where
  "createChildSession W a wflow msg =
    wbind (wget a) (\<lambda>w.
    wbind (newSession (s_ID w) (s_EventID w) wflow) (\<lambda>c.
    wbind (wget c) (\<lambda>child.
    wseq (wmod a (setPerforming (s_performing child)))
    (wbind (wget a) (\<lambda>p.
     wseq (wmodr c (prepare W msg (Some p) None)) (wret c))))))"

definition createChildSessionWithName :: "wfenv \<Rightarrow> nat \<Rightarrow> string \<Rightarrow> Message \<Rightarrow> nat wm" where
  "createChildSessionWithName W a name msg = (case map_of (Workflows (we_cfg W)) name of
      None \<Rightarrow> wpanic (PanicErr (''workflow error: not defined: '' @ name))
    | Some src \<Rightarrow> createChildSession W a
        (if wf_Name (wd src) = [] then upd_wd (\<lambda>d. d\<lparr>wf_Name := name\<rparr>) src else src) msg)"

text \<open>Saving waits for ever when the ID map is full.\<close>

definition save :: "nat \<Rightarrow> unit wm" where
  "save a = (\<lambda>s.
    if s_ID (heap s a) \<noteq> [] then (Done (), s)
    else case IDMapPut (sessions s) a of
      None \<Rightarrow> (Stuck, s)
    | Some (k, m) \<Rightarrow> (Done (), s\<lparr>sessions := m, heap := (heap s)(a := (heap s a)\<lparr>s_ID := k\<rparr>)\<rparr>))"

definition Success :: Message where
  "Success = zero_message\<lparr>Labels := Some [(''status'', SessionStatusSuccess)]\<rparr>"

definition error_message :: "string \<Rightarrow> Message" where
  "error_message reason = zero_message\<lparr>Channel := ChannelEventbus, Subject := EventbusReturn,
     Labels := Some [(''status'', SessionStatusError), (''reason'', reason)], Payload := PVal (GMap [])\<rparr>"

section \<open>Hooks\<close>

definition hook_names :: "gval \<Rightarrow> string list res" where
  "hook_names v = (case v of
      GList vs \<Rightarrow> rmapM (\<lambda>x. assert_type (as_str x)) vs
    | GMap [] \<Rightarrow> Inr []
    | _ \<Rightarrow> Inl ReflectPanic)"

definition hook_workflow :: "gval \<Rightarrow> Workflow res" where
  "hook_workflow hookBlock = (case hookBlock of
      GStr hook \<Rightarrow>
        Inr (upd_wd (\<lambda>d. d\<lparr>wf_Context := SessionContextHooks, wf_Workflow := hook\<rparr>) zero_workflow)
    | _ \<Rightarrow> rbind (hook_names hookBlock) (\<lambda>names.
        Inr (Workflow (zero_wfdata\<lparr>wf_Context := SessionContextHooks\<rparr>) None
          (if names = [] then None
           else Some (map (\<lambda>n. upd_wd (\<lambda>d. d\<lparr>wf_Workflow := n\<rparr>) zero_workflow) names)))))"

definition executeHook :: "wfenv \<Rightarrow> caller \<Rightarrow> nat \<Rightarrow> Message \<Rightarrow> gval \<Rightarrow> unit wm" where
  "executeHook W self a msg hookBlock =
    wbind (wlift (hook_workflow hookBlock)) (\<lambda>wflow.
    wbind (createChildSession W a wflow msg) (\<lambda>child.
    self (CExecute child msg)))"

definition fireHook :: "wfenv \<Rightarrow> caller \<Rightarrow> string \<Rightarrow> nat \<Rightarrow> Message \<Rightarrow> unit wm" where
  "fireHook W self name a msg =
    wbind (wget a) (\<lambda>w.
    if s_currentHook w \<noteq> [] then
      (if s_currentHook w = name then wmod a (\<lambda>w. w\<lparr>s_currentHook := []\<rparr>)
       else wpanic (PanicStr ''[workflow] hooks overlapping''))
    else (case GetMapData (omap_val (s_ctx w)) (''hooks.'' @ name) of
        None \<Rightarrow> skip
      | Some hookBlock \<Rightarrow>
          wseq (wmod a (\<lambda>w. w\<lparr>s_currentHook := name, s_savedMsg := Some msg\<rparr>))
          (if s_ID w = [] then spawn (THook a msg hookBlock) else executeHook W self a msg hookBlock)))"

text \<open>\<open>fireHook\<close> followed by the test whether a hook is in progress, which ends the caller.\<close>

definition unless_hook :: "nat \<Rightarrow> unit wm \<Rightarrow> unit wm" where
  "unless_hook a k = wbind (wget a) (\<lambda>w. if s_currentHook w \<noteq> [] then skip else k)"

section \<open>\<open>execute.go\<close>\<close>

definition noop :: "caller \<Rightarrow> nat \<Rightarrow> Message \<Rightarrow> unit wm" where
  "noop self a msg =
    (let msg' = (if label_str msg ''status'' \<noteq> ''success'' then Success else msg) in
     wbind (wget a) (\<lambda>w.
     if s_ID w \<noteq> [] then self (CContinue a msg' []) else spawn (TContinue (s_parent w) msg' [])))"

definition execute :: "wfenv \<Rightarrow> caller \<Rightarrow> nat \<Rightarrow> Message \<Rightarrow> unit wm" where
  "execute W self a msg =
    wseq (fireHook W self ''on_session'' a msg)
    (unless_hook a
      (wbind (wget a) (\<lambda>w.
       wbind (wlift (rbind (checkCondition W w) (\<lambda>c. if c then checkLoopCondition W msg w else Inr False))) (\<lambda>go.
       if go then
         wbind (if isIteration w then wlift (rmap (\<lambda>n. n > 0) (lenOfIterate w)) else wret True) (\<lambda>nonempty.
         if nonempty then
           wseq (wmod a (\<lambda>w. w\<lparr>s_loopCount := 0\<rparr>))
           (if s_ID w = [] then spawn (TRound a msg) else self (CRound a msg))
         else if s_parent w \<noteq> [] then noop self a msg else skip)
       else if wf_Else (wfd w) \<noteq> GNil then
         wbind (wlift (we_decode W (wf_Else (wfd w)))) (\<lambda>elseBranch.
         wseq (wmod a (\<lambda>w. w\<lparr>s_elseBranch := Some elseBranch\<rparr>)) (spawn (TElse a msg)))
       else if s_parent w \<noteq> [] then noop self a msg
       else skip))))"

definition executeRound :: "wfenv \<Rightarrow> caller \<Rightarrow> nat \<Rightarrow> Message \<Rightarrow> unit wm" where
  "executeRound W self a msg =
    (let rest =
       wseq (wmodr a (\<lambda>w.
         if map_of (omap (s_ctx w)) ''resume_token'' = None then
           set_ctx ''resume_token'' (GStr (we_daemonID W @ ''/'' @ wf_Name (wfd w) @ ''/'' @ s_ID w))
             (w\<lparr>s_ctx := Some (omap (s_ctx w))\<rparr>)
         else Inr w))
       (self (CIteration a msg)) in
     wbind (wget a) (\<lambda>w.
     if isLoop w then
       wseq (wmodr a (set_ctx ''loop_count'' (GInt (int (s_loopCount w)))))
       (wseq (if s_loopCount w = 0 then fireHook W self ''on_first_round'' a msg else skip)
       (unless_hook a
         (wseq (fireHook W self ''on_round'' a msg)
         (unless_hook a
           (wseq (wmod a (\<lambda>w. w\<lparr>s_iteration := 0, s_current := 0\<rparr>)) rest)))))
     else rest))"

definition launchIteration :: "wfenv \<Rightarrow> caller \<Rightarrow> nat \<Rightarrow> Message \<Rightarrow> unit wm" where
  "launchIteration W self a msg =
    wseq (wmodr a (\<lambda>w.
      rbind (reflect_index (wf_Iterate (wfd w)) (s_iteration w)) (\<lambda>item.
      rbind (set_ctx ''current'' item w) (\<lambda>w'.
      if wf_IterateAs (wfd w) \<noteq> [] then set_ctx (wf_IterateAs (wfd w)) item w' else Inr w'))))
    (wbind (wget a) (\<lambda>w.
    wseq (if s_loopCount w = 0 \<and> s_iteration w = 0 then fireHook W self ''on_first_item'' a msg else skip)
    (unless_hook a
      (wseq (fireHook W self ''on_item'' a msg)
      (unless_hook a (self (CAction a msg)))))))"

text \<open>The number of iterations started at once.\<close>

definition poolCount :: "Session \<Rightarrow> nat \<Rightarrow> nat res" where
  "poolCount w l =
    (if wf_IteratePool (wfd w) = [] then Inr l
     else case atoi (wf_IteratePool (wfd w)) of
       None \<Rightarrow> Inl (PanicErr ''strconv.Atoi: invalid syntax'')
     | Some i \<Rightarrow> if min (int l) i \<le> 0 then Inl (PanicStr ''invalid iterate_pool'') else Inr (nat (min (int l) i)))"

fun spawn_all :: "task list \<Rightarrow> unit wm" where
  "spawn_all [] = skip"
| "spawn_all (t # ts) = wseq (spawn t) (spawn_all ts)"

definition launchParallelIterations :: "nat \<Rightarrow> Message \<Rightarrow> unit wm" where
  "launchParallelIterations a msg =
    wbind (wget a) (\<lambda>w.
    wbind (wlift (reflect_len (wf_IterateParallel (wfd w)))) (\<lambda>l.
    wbind (wlift (poolCount w l)) (\<lambda>n.
    wseq (wmod a (\<lambda>w. w\<lparr>s_origMsg := Some msg\<rparr>))
    (spawn_all (map (TParallel a) [0..<n])))))"

text \<open>The workflow of one parallel iteration.\<close>

definition single_workflow :: "Workflow \<Rightarrow> Workflow" where
  "single_workflow v = Workflow (zero_wfdata\<lparr>wf_Workflow := wf_Workflow (wd v), wf_Function := wf_Function (wd v),
     wf_CallFunction := wf_CallFunction (wd v), wf_CallDriver := wf_CallDriver (wd v), wf_Switch := wf_Switch (wd v),
     wf_Cases := wf_Cases (wd v), wf_Default := wf_Default (wd v)\<rparr>) (Steps v) (Threads v)"

definition launchParallelIteration :: "wfenv \<Rightarrow> caller \<Rightarrow> nat \<Rightarrow> nat \<Rightarrow> unit wm" where
  "launchParallelIteration W self a i =
    wbind (wget a) (\<lambda>w.
    let msg = (case s_origMsg w of None \<Rightarrow> zero_message | Some m \<Rightarrow> m) in
    wbind (createChildSession W a (single_workflow (s_workflow w)) msg) (\<lambda>c.
    wbind (wlift (reflect_index (wf_IterateParallel (wfd w)) i)) (\<lambda>item.
    wseq (wmodr c (\<lambda>child. rbind (set_ctx ''current'' item child) (\<lambda>child'.
      rbind (if wf_IterateAs (wfd w) \<noteq> [] then set_ctx (wf_IterateAs (wfd w)) item child' else Inr child') (\<lambda>child''.
      Inr (del_ctx ''resume_token'' child'')))))
    (self (CExecute c msg)))))"

definition executeIteration :: "wfenv \<Rightarrow> caller \<Rightarrow> nat \<Rightarrow> Message \<Rightarrow> unit wm" where
  "executeIteration W self a msg =
    wbind (wget a) (\<lambda>w.
    if \<not> isIteration w then self (CAction a msg)
    else wseq (wmod a (\<lambda>w. w\<lparr>s_current := 0\<rparr>))
      (if wf_Iterate (wfd w) \<noteq> GNil then launchIteration W self a msg else launchParallelIterations a msg))"

text \<open>
  The timer of a wait is a goroutine with two parts: it reads the context and marks the session
  (\<open>TTimer\<close>), and resumes it when the time is over and the mark is still there (\<open>TTimerFires\<close>).
\<close>

definition startWait :: "wfenv \<Rightarrow> nat \<Rightarrow> unit wm" where
  "startWait W a = (\<lambda>s.
    let w = heap s a in
    case Option.bind (map_of (omap (s_ctx w)) ''resume_token'') as_str of
      None \<Rightarrow> (Panicked (PanicStr ''[workflow] wait identifier missing''), s)
    | Some token \<Rightarrow>
        if token = [] then (Panicked (PanicStr ''[workflow] wait identifier missing''), s)
        else if map_of (suspendedSessions s) token \<noteq> None then
          (Panicked (PanicStr ''[workflow] wait identifier collided''), s)
        else (let s' = s\<lparr>suspendedSessions := mput token (s_ID w) (suspendedSessions s)\<rparr> in
          if to_lower (wf_Wait (wfd w)) = ''infinite'' then (Done (), s')
          else case ext_parse_duration (e_ext (we W)) (wf_Wait (wfd w)) of
            None \<Rightarrow> (Panicked (PanicStr ''[workflow] fail to time.ParseDuration''), s')
          | Some d \<Rightarrow> spawn (TTimer a token) s'))"

definition start_timer :: "nat \<Rightarrow> string \<Rightarrow> unit wm" where
  "start_timer a token =
    wbind (wget a) (\<lambda>w.
    let status = (case GetMapDataStr (omap_val (s_ctx w)) ''timeout_status'' of None \<Rightarrow> [] | Some x \<Rightarrow> x);
        payload = (case map_of (omap (s_ctx w)) ''return_on_timeout'' of None \<Rightarrow> GNil | Some v \<Rightarrow> v) in
    wseq (wmodr a (set_ctx ''_wait_timer'' (GStr ''timer'')))
    (spawn (if status = [] then TTimerFires a token SessionStatusSuccess [] payload
            else TTimerFires a token status ''timeout'' payload)))"

definition resume_message :: "string \<Rightarrow> string \<Rightarrow> string \<Rightarrow> gval \<Rightarrow> Message" where
  "resume_message token status reason payload = zero_message\<lparr>Payload := PVal (GMap
     [(''key'', GStr token),
      (''labels'', GMap [(''status'', GStr status), (''reason'', GStr reason)]),
      (''payload'', payload)])\<rparr>"

definition timer_fires :: "nat \<Rightarrow> string \<Rightarrow> string \<Rightarrow> string \<Rightarrow> gval \<Rightarrow> unit wm" where
  "timer_fires a token status reason payload =
    wbind (wget a) (\<lambda>w.
    if map_of (omap (s_ctx w)) ''_wait_timer'' = None then skip
    else wseq (wmod a (del_ctx ''_wait_timer''))
      (spawn (TResume token (resume_message token status reason payload))))"

definition run_branch :: "wfenv \<Rightarrow> caller \<Rightarrow> nat \<Rightarrow> Message \<Rightarrow> string \<Rightarrow> gval \<Rightarrow> unit wm" where
  "run_branch W self a msg performing branch =
    wseq (wmod a (\<lambda>w. w\<lparr>s_performing := performing\<rparr>))
    (wbind (wlift (we_decode W branch)) (\<lambda>wflow.
     wbind (createChildSession W a wflow msg) (\<lambda>child.
     self (CExecute child msg))))"

definition executeSwitch :: "wfenv \<Rightarrow> caller \<Rightarrow> nat \<Rightarrow> Message \<Rightarrow> unit wm" where
  "executeSwitch W self a msg =
    wbind (wget a) (\<lambda>w.
    wbind (wlift (interpolate_str (we W) (wf_Switch (wfd w)) (buildEnvData w msg))) (\<lambda>match.
    case map_of (omap (wf_Cases (wfd w))) match of
      Some branch \<Rightarrow> run_branch W self a msg (''switch branch '' @ match) branch
    | None \<Rightarrow>
        if wf_Default (wfd w) \<noteq> GNil
        then run_branch W self a msg ''switch default branch'' (wf_Default (wfd w))
        else noop self a msg))"

definition has_action :: "Session \<Rightarrow> bool" where
  "has_action w \<longleftrightarrow> wf_Workflow (wfd w) \<noteq> [] \<or> isFunction w \<or> wf_CallDriver (wfd w) \<noteq> [] \<or>
     Steps (s_workflow w) \<noteq> None \<or> Threads (s_workflow w) \<noteq> None \<or> wf_Wait (wfd w) \<noteq> [] \<or>
     wf_Switch (wfd w) \<noteq> []"

definition processActionHooks :: "wfenv \<Rightarrow> caller \<Rightarrow> nat \<Rightarrow> Message \<Rightarrow> unit wm" where
  "processActionHooks W self a msg =
    wbind (wget a) (\<lambda>w.
    if has_action w then
      wseq (if s_loopCount w = 0 \<and> s_iteration w = 0 \<and> s_current w = 0
            then fireHook W self ''on_first_action'' a msg else skip)
      (wbind (wget a) (\<lambda>w'.
       if s_currentHook w' = [] then fireHook W self ''on_action'' a msg else skip))
    else skip)"

definition interpolateFunction :: "wfenv \<Rightarrow> Session \<Rightarrow> Function \<Rightarrow> Message \<Rightarrow> Function res" where
  "interpolateFunction W w f msg = (let envData = buildEnvData w msg in
     rbind (interpolate_str (we W) (fn_TargetSystem f) envData) (\<lambda>sys.
     rbind (interpolate_str (we W) (fn_TargetFunction f) envData) (\<lambda>fn.
     Inr (f\<lparr>fn_TargetSystem := sys, fn_TargetFunction := fn\<rparr>))))"

text \<open>The function as the operator gets it, with the names of its JSON form.\<close>

definition function_val :: "Function \<Rightarrow> gval" where
  "function_val f = GMap [(''Driver'', GStr (fn_Driver f)), (''RawAction'', GStr (fn_RawAction f)),
     (''Parameters'', omap_val (fn_Parameters f)),
     (''Target'', GMap [(''System'', GStr (fn_TargetSystem f)), (''Function'', GStr (fn_TargetFunction f))]),
     (''Export'', omap_val (fn_Export f)), (''export_on_success'', omap_val (fn_ExportOnSuccess f)),
     (''export_on_failure'', omap_val (fn_ExportOnFailure f)), (''Description'', GStr (fn_Description f)),
     (''Meta'', fn_Meta f)]"

definition command_message :: "Session \<Rightarrow> Function \<Rightarrow> Message \<Rightarrow> Message" where
  "command_message w f msg = zero_message\<lparr>Channel := ChannelEventbus, Subject := ''command'',
     Payload := PVal (GMap (mput ''function'' (function_val f) (buildEnvData w msg))),
     Labels := Some (mput ''sessionID'' (s_ID w)
       (mdel ''performing'' (mdel ''reason'' (mdel ''status'' (labels msg)))))\<rparr>"

definition callFunction :: "nat \<Rightarrow> Function \<Rightarrow> Message \<Rightarrow> unit wm" where
  "callFunction a f msg =
    wseq (wmod a (\<lambda>w. w\<lparr>s_inFlyFunction := Some f\<rparr>))
    (\<lambda>s. (Done (), s\<lparr>outbox := outbox s @ [command_message (heap s a) f msg]\<rparr>))"

fun driver_locals :: "wfenv \<Rightarrow> gval list \<Rightarrow> gmap \<Rightarrow> gmap option \<Rightarrow> gmap option res" where
  "driver_locals W [] envData locals = Inr locals"
| "driver_locals W (layer # layers) envData locals =
     rbind (interpolate (we W) layer envData) (\<lambda>d.
     rbind (assert_type (as_map d)) (\<lambda>delta.
     rbind (merge_map (we W) locals (GMap delta)) (driver_locals W layers envData)))"

definition callDriver :: "wfenv \<Rightarrow> nat \<Rightarrow> string \<Rightarrow> Message \<Rightarrow> unit wm" where
  "callDriver W a f msg =
    wbind (wget a) (\<lambda>w.
    case split_on CHR ''.'' f of
      driverName # rawActionName # _ \<Rightarrow>
        wbind (wlift (case wf_Local (wfd w) of
            GNil \<Rightarrow> Inr None
          | GList layers \<Rightarrow> driver_locals W layers (buildEnvData w msg) None
          | l \<Rightarrow> rbind (interpolate (we W) l (buildEnvData w msg)) (\<lambda>v. rmap Some (assert_type (as_map v))))) (\<lambda>locals.
        callFunction a (zero_function\<lparr>fn_Driver := driverName, fn_RawAction := rawActionName,
          fn_Parameters := locals\<rparr>) msg)
    | _ \<Rightarrow> wpanic IndexOutOfRange)"

text \<open>\<open>strings.SplitN(f, ".", 2)\<close>.\<close>

definition callShorthandFunction :: "nat \<Rightarrow> string \<Rightarrow> Message \<Rightarrow> unit wm" where
  "callShorthandFunction a f msg =
    (case dropWhile (\<lambda>c. c \<noteq> CHR ''.'') f of
       [] \<Rightarrow> wpanic IndexOutOfRange
     | _ # funcName \<Rightarrow> callFunction a (zero_function\<lparr>fn_TargetSystem := takeWhile (\<lambda>c. c \<noteq> CHR ''.'') f,
         fn_TargetFunction := funcName\<rparr>) msg)"

definition executeStep :: "wfenv \<Rightarrow> caller \<Rightarrow> nat \<Rightarrow> Message \<Rightarrow> unit wm" where
  "executeStep W self a msg =
    wbind (wget a) (\<lambda>w.
    let steps = (case Steps (s_workflow w) of None \<Rightarrow> [] | Some ss \<Rightarrow> ss) in
    if s_current w < length steps then
      wbind (createChildSession W a (steps ! s_current w) msg) (\<lambda>c.
      wseq (wmodr c (set_ctx ''step_number'' (GInt (int (s_current w)))))
      (self (CExecute c msg)))
    else wpanic IndexOutOfRange)"

definition executeThreads :: "nat \<Rightarrow> Message \<Rightarrow> unit wm" where
  "executeThreads a msg =
    wbind (wget a) (\<lambda>w.
    spawn_all (map (\<lambda>i. TThread a i msg)
      [0..<length (case Threads (s_workflow w) of None \<Rightarrow> [] | Some ts \<Rightarrow> ts)]))"

definition run_thread :: "wfenv \<Rightarrow> caller \<Rightarrow> nat \<Rightarrow> nat \<Rightarrow> Message \<Rightarrow> unit wm" where
  "run_thread W self a i msg =
    wbind (wget a) (\<lambda>w.
    let threads = (case Threads (s_workflow w) of None \<Rightarrow> [] | Some ts \<Rightarrow> ts) in
    if i < length threads then
      wbind (createChildSession W a (threads ! i) msg) (\<lambda>c.
      wseq (wmodr c (\<lambda>child. rmap (del_ctx ''resume_token'') (set_ctx ''thread_number'' (GInt (int i)) child)))
      (self (CExecute c msg)))
    else wpanic IndexOutOfRange)"

definition perform :: "nat \<Rightarrow> string \<Rightarrow> unit wm" where
  "perform a performing = wmod a (\<lambda>w. w\<lparr>s_performing := performing\<rparr>)"

definition callWorkflow :: "wfenv \<Rightarrow> caller \<Rightarrow> nat \<Rightarrow> Message \<Rightarrow> unit wm" where
  "callWorkflow W self a msg =
    wbind (wget a) (\<lambda>w.
    wbind (wlift (interpolate_str (we W) (wf_Workflow (wfd w)) (buildEnvData w msg))) (\<lambda>work.
    wseq (perform a work)
    (wseq (if \<not> s_isHook w \<and> wf_Name (wfd w) = []
           then wmodr a (set_ctx ''_meta_name'' (GStr (''calling '' @ work))) else skip)
    (wbind (createChildSessionWithName W a work msg) (\<lambda>c.
     if wf_Detach (wfd w) then
       wseq (wmod c (\<lambda>child. del_ctx ''resume_token'' (child\<lparr>s_parent := []\<rparr>)))
       (wseq (spawn (TDetached c msg)) (self (CContinue a Success [])))
     else self (CExecute c msg))))))"

definition executeAction :: "wfenv \<Rightarrow> caller \<Rightarrow> nat \<Rightarrow> Message \<Rightarrow> unit wm" where
  "executeAction W self a msg =
    wseq (processActionHooks W self a msg)
    (unless_hook a
      (wbind (wget a) (\<lambda>w. let d = wfd w in
       if wf_Workflow d \<noteq> [] then callWorkflow W self a msg
       else if isFunction w then
         wseq (perform a ''function'')
         (wbind (wlift (interpolateFunction W w (wf_Function d) msg)) (\<lambda>f. callFunction a f msg))
       else if wf_CallDriver d \<noteq> [] then
         wseq (perform a (''driver '' @ wf_CallDriver d)) (callDriver W a (wf_CallDriver d) msg)
       else if wf_CallFunction d \<noteq> [] then
         wseq (perform a (''function '' @ wf_CallFunction d)) (callShorthandFunction a (wf_CallFunction d) msg)
       else if Steps (s_workflow w) \<noteq> None then
         wseq (perform a ''steps'') (wseq (wmod a (\<lambda>w. w\<lparr>s_current := 0\<rparr>)) (executeStep W self a msg))
       else if Threads (s_workflow w) \<noteq> None then
         wseq (perform a ''threads'') (wseq (wmod a (\<lambda>w. w\<lparr>s_current := 0\<rparr>)) (executeThreads a msg))
       else if wf_Wait d \<noteq> [] then wseq (perform a ''suspending'') (startWait W a)
       else if wf_Switch d \<noteq> [] then wseq (perform a ''switch'') (executeSwitch W self a msg)
       else self (CContinue a Success []))))"

section \<open>\<open>continue.go\<close>\<close>

datatype route = WorkflowNextComplete | WorkflowNextStep | WorkflowNextThread | WorkflowNextIteration
  | WorkflowNextParallelIteration | WorkflowNextRound

definition num_steps :: "Session \<Rightarrow> nat" where
  "num_steps w = (case Steps (s_workflow w) of None \<Rightarrow> 0 | Some ss \<Rightarrow> length ss)"

definition num_threads :: "Session \<Rightarrow> nat" where
  "num_threads w = (case Threads (s_workflow w) of None \<Rightarrow> 0 | Some ts \<Rightarrow> length ts)"

text \<open>A parallel iteration goes on after an error or a failure, and remembers the first one.\<close>

definition note_failure :: "Message \<Rightarrow> Session \<Rightarrow> Session" where
  "note_failure msg w =
    (if wf_IterateParallel (wfd w) \<noteq> GNil \<and> s_iterationOut w = None \<and>
        label_str msg ''status'' \<noteq> SessionStatusSuccess
     then w\<lparr>s_iterationOut := Some msg\<rparr> else w)"

definition stops_on :: "Message \<Rightarrow> Session \<Rightarrow> bool" where
  "stops_on msg w \<longleftrightarrow> wf_IterateParallel (wfd w) = GNil \<and>
     (label_str msg ''status'' = SessionStatusError \<and> wf_OnError (wfd w) \<noteq> ''continue'' \<or>
      label_str msg ''status'' = SessionStatusFailure \<and> wf_OnFailure (wfd w) = ''exit'')"

text \<open>The atomic increment in the test for the next thread.\<close>

definition count_thread :: "Session \<Rightarrow> Session" where
  "count_thread w = (if num_threads w > 0 then w\<lparr>s_current := Suc (s_current w)\<rparr> else w)"

text \<open>Where a session goes next, and the session with its counters changed.\<close>

definition routeNext :: "wfenv \<Rightarrow> Message \<Rightarrow> Session \<Rightarrow> (route \<times> Session) res" where
  "routeNext W msg w0 =
    (if stops_on msg w0 then Inr (WorkflowNextComplete, w0)
     else let w1 = note_failure msg w0 in
     if s_elseBranch w1 \<noteq> None then Inr (WorkflowNextComplete, w1)
     else if num_steps w1 > 0 \<and> Suc (s_current w1) < num_steps w1 then Inr (WorkflowNextStep, w1)
     else let w2 = count_thread w1 in
     if num_threads w2 > 0 \<and> s_current w2 < num_threads w2 then Inr (WorkflowNextThread, w2)
     else rbind (if isIteration w2 then lenOfIterate w2 else Inr 0) (\<lambda>len.
     if isIteration w2 \<and> Suc (s_iteration w2) < len then
       Inr (if wf_Iterate (wfd w2) \<noteq> GNil then WorkflowNextIteration else WorkflowNextParallelIteration, w2)
     else rbind (if isLoop w2 then checkLoopCondition W msg w2 else Inr False) (\<lambda>again.
     Inr (if again then WorkflowNextRound else WorkflowNextComplete, w2))))"

fun no_export_loop :: "string list \<Rightarrow> gmap \<Rightarrow> gmap" where
  "no_export_loop [] exports = exports"
| "no_export_loop (key # keys) exports =
     (if key = ''*'' then []
      else no_export_loop keys (mdel (key @ ''+'') (mdel (key @ ''-'') (mdel key exports))))"

definition processNoExport :: "Session \<Rightarrow> gmap \<Rightarrow> gmap" where
  "processNoExport w exports = no_export_loop (wf_NoExport (wfd w)) exports"

definition add_exported :: "gmap \<Rightarrow> Session \<Rightarrow> Session" where
  "add_exported e w = (let e' = processNoExport w e in
     if e' \<noteq> [] then w\<lparr>s_exported := s_exported w @ [e']\<rparr> else w)"

definition merge_export :: "wfenv \<Rightarrow> gmap \<Rightarrow> Session \<Rightarrow> Session res" where
  "merge_export W e w = rbind (merge_map (we W) (s_ctx w) (GMap e)) (\<lambda>c. Inr (add_exported e (w\<lparr>s_ctx := c\<rparr>)))"

fun mergeContext :: "wfenv \<Rightarrow> gmap list \<Rightarrow> nat \<Rightarrow> unit wm" where
  "mergeContext W [] a = skip"
| "mergeContext W (e # es) a = wseq (wmodr a (merge_export W e)) (mergeContext W es a)"

definition postWorkflowExport :: "wfenv \<Rightarrow> nat \<Rightarrow> gmap option \<Rightarrow> gmap \<Rightarrow> gmap wm" where
  "postWorkflowExport W a exportMap envData =
    wbind (wlift (interpolate_map (we W) exportMap envData)) (\<lambda>delta.
    wseq (wmodr a (merge_export W (omap delta)))
    (wbind (wget a) (\<lambda>w. wret (mput ''ctx'' (omap_val (s_ctx w)) envData))))"

text \<open>The export of the function called; its context changes are made in the context of the session.\<close>

definition function_export :: "wfenv \<Rightarrow> nat \<Rightarrow> Function \<Rightarrow> gmap \<Rightarrow> gmap wm" where
  "function_export W a f envData =
    wbind (wlift (ExportFunctionContext (we W) (we_depth W) (we_cfg W) f envData)) (\<lambda>(export, env1).
    wseq (wmodr a (\<lambda>w.
      let w1 = (if s_ctx w = None then w
                else w\<lparr>s_ctx := Option.bind (map_of env1 ''ctx'') as_map\<rparr>) in
      merge_export W (omap export) w1))
    (wbind (wget a) (\<lambda>w. wret (mput ''ctx'' (omap_val (s_ctx w)) (mdel ''sysData'' env1)))))"

definition export_body :: "wfenv \<Rightarrow> nat \<Rightarrow> Message \<Rightarrow> unit wm" where
  "export_body W a msg =
    wbind (wget a) (\<lambda>w.
    let status = label_str msg ''status''; d = wfd w in
    wbind (case s_inFlyFunction w of
        Some f \<Rightarrow> if status \<noteq> SessionStatusError then function_export W a f (buildEnvData w msg)
                 else wret (buildEnvData w msg)
      | None \<Rightarrow> wret (buildEnvData w msg)) (\<lambda>env1.
    wbind (postWorkflowExport W a (if status \<noteq> SessionStatusError then wf_Export d else wf_ExportOnError d) env1) (\<lambda>env2.
    wbind (if status = SessionStatusSuccess then postWorkflowExport W a (wf_ExportOnSuccess d) env2 else wret env2) (\<lambda>env3.
    wbind (if status = SessionStatusFailure then postWorkflowExport W a (wf_ExportOnFailure d) env3 else wret env3) (\<lambda>_.
    skip)))))"

text \<open>A panic while exporting turns the result of the session into an error.\<close>

definition export_failed :: "wfenv \<Rightarrow> gopanic \<Rightarrow> Message \<Rightarrow> Message" where
  "export_failed W e msg = (let reason = label_str msg ''reason'' in
     msg\<lparr>Labels := Some (mput ''reason''
         (reason @ (if reason \<noteq> [] then [newline] else []) @ ''Error on exporting data '' @ we_text W e)
         (mput ''status'' SessionStatusError (labels msg)))\<rparr>)"

definition processExport :: "wfenv \<Rightarrow> nat \<Rightarrow> Message \<Rightarrow> Message wm" where
  "processExport W a msg =
    wbind (wget a) (\<lambda>w.
    if s_elseBranch w \<noteq> None then wret msg
    else wcatch (wseq (export_body W a msg) (wret msg)) (\<lambda>e. wret (export_failed W e msg)))"

definition WorkflowHookSuccess :: string where "WorkflowHookSuccess = ''on_success''"
definition WorkflowHookFailure :: string where "WorkflowHookFailure = ''on_failure''"
definition WorkflowHookError :: string where "WorkflowHookError = ''on_error''"
definition WorkflowHookExit :: string where "WorkflowHookExit = ''on_exit''"

lemmas hook_defs = WorkflowHookSuccess_def WorkflowHookFailure_def WorkflowHookError_def WorkflowHookExit_def

definition isInCompleteHooks :: "Session \<Rightarrow> bool" where
  "isInCompleteHooks w \<longleftrightarrow>
     s_currentHook w \<in> set [WorkflowHookError, WorkflowHookFailure, WorkflowHookSuccess, WorkflowHookExit]"

definition complete_hook :: "Message \<Rightarrow> string" where
  "complete_hook msg = (let status = label_str msg ''status'' in
     if status = SessionStatusError then WorkflowHookError
     else if status = SessionStatusFailure then WorkflowHookFailure else WorkflowHookSuccess)"

definition fireCompleteHooks :: "wfenv \<Rightarrow> caller \<Rightarrow> nat \<Rightarrow> Message \<Rightarrow> unit wm" where
  "fireCompleteHooks W self a msg = SafeExitOnError
    (wseq (wbind (wget a) (\<lambda>w.
       if s_currentHook w \<noteq> [] \<and> \<not> isInCompleteHooks w then fireHook W self (s_currentHook w) a msg else skip))
    (wseq (wbind (wget a) (\<lambda>w.
       if s_currentHook w = [] then fireHook W self (complete_hook msg) a msg
       else if s_currentHook w \<noteq> WorkflowHookExit then fireHook W self (s_currentHook w) a msg
       else skip))
    (wbind (wget a) (\<lambda>w.
       if s_currentHook w = [] \<or> s_currentHook w = WorkflowHookExit
       then fireHook W self WorkflowHookExit a msg else skip))))"

text \<open>The message a session completes with.\<close>

definition completion_message :: "Session \<Rightarrow> Message \<Rightarrow> Message" where
  "completion_message w msg =
    (let m1 = (if label_str msg ''status'' = SessionStatusSuccess then
                 (case s_iterationOut w of None \<Rightarrow> msg | Some m \<Rightarrow> m) else msg);
         m2 = m1\<lparr>Labels := Some (labels m1)\<rparr> in
     if label_str m2 ''status'' \<noteq> SessionStatusSuccess \<and> label_str m2 ''performing'' = []
     then m2\<lparr>Labels := Some (mput ''performing'' (s_performing w) (labels m2))\<rparr> else m2)"

definition result_map :: "Message \<Rightarrow> gval \<Rightarrow> gmap" where
  "result_map msg output =
    [(''status'', GStr (label_str msg ''status'')), (''output'', output)] @
    (if label_str msg ''status'' \<noteq> SessionStatusSuccess
     then [(''error'', GStr (''['' @ label_str msg ''performing'' @ '']: '' @ label_str msg ''reason''))] else [])"

text \<open>A finished session leaves the ID map and hands its result to its parent or to the caller.\<close>

definition finish :: "nat \<Rightarrow> Message \<Rightarrow> unit wm" where
  "finish a msg = (\<lambda>s.
    let w = heap s a; s1 = s\<lparr>sessions := IDMapDel (sessions s) (s_ID w)\<rparr> in
    if s_parent w \<noteq> [] then (Done (), s1\<lparr>tasks := tasks s1 @ [TContinue (s_parent w) msg (s_exported w)]\<rparr>)
    else (case map_of (omap (s_ctx w)) ''_output'' of
        Some output \<Rightarrow> (Done (), s1\<lparr>results := results s1 @ [(s_EventID w, result_map msg output)]\<rparr>)
      | None \<Rightarrow> (Done (), s1)))"

definition close_session :: "nat \<Rightarrow> unit wm" where
  "close_session a = wmod a (\<lambda>w. w\<lparr>s_ID := [], s_cancelled := s_cancelled w \<or> s_watched w\<rparr>)"

definition is_saved :: "nat \<Rightarrow> store \<Rightarrow> bool" where
  "is_saved a s \<longleftrightarrow> s_ID (heap s a) \<noteq> [] \<and> IDMapGet (sessions s) (s_ID (heap s a)) \<noteq> None"

definition complete :: "wfenv \<Rightarrow> caller \<Rightarrow> nat \<Rightarrow> Message \<Rightarrow> unit wm" where
  "complete W self a msg0 =
    wbind (wget a) (\<lambda>w0.
    let msg1 = completion_message w0 msg0 in
    wseq (wmod a (\<lambda>w. w\<lparr>s_savedMsg := Some msg1\<rparr>))
    (wbind (\<lambda>s. (Done (is_saved a s), s)) (\<lambda>saved.
     if saved then
       wbind (if s_currentHook w0 = [] then processExport W a msg1 else wret msg1) (\<lambda>msg2.
       wseq (wmod a (\<lambda>w. w\<lparr>s_savedMsg := Some msg2\<rparr>))
       (wseq (fireCompleteHooks W self a msg2)
       (unless_hook a (wseq (finish a msg2) (close_session a)))))
     else close_session a)))"

text \<open>The deferred \<open>onError\<close>: complete the session with the error, then panic again.\<close>

definition onError :: "wfenv \<Rightarrow> caller \<Rightarrow> nat \<Rightarrow> unit wm \<Rightarrow> unit wm" where
  "onError W self a m = wcatch m (\<lambda>e.
     wseq (complete W self a (error_message (we_text W e))) (wpanic e))"

definition continueAfterHook :: "wfenv \<Rightarrow> caller \<Rightarrow> nat \<Rightarrow> Message \<Rightarrow> unit wm" where
  "continueAfterHook W self a msg =
    wbind (wget a) (\<lambda>w.
    let hook = s_currentHook w; saved = (case s_savedMsg w of None \<Rightarrow> zero_message | Some m \<Rightarrow> m) in
    if label_str msg ''status'' = SessionStatusSuccess then
      (if hook = ''on_session'' then self (CExecute a saved)
       else if hook = ''on_first_round'' \<or> hook = ''on_round'' then self (CRound a saved)
       else if hook = ''on_first_item'' \<or> hook = ''on_item'' then self (CIteration a saved)
       else if hook = ''on_first_action'' \<or> hook = ''on_action'' then self (CAction a saved)
       else if isInCompleteHooks w then self (CComplete a saved)
       else skip)
    else
      wseq (if isInCompleteHooks w then skip else wmod a (\<lambda>w. w\<lparr>s_currentHook := []\<rparr>))
      (self (CComplete a (error_message (''hook ['' @ hook @ ''] failed with status '' @ [CHR 0x27] @
         label_str msg ''status'' @ [CHR 0x27] @ '' due to: '' @ label_str msg ''reason'')))))"

text \<open>Taking up the next item of a parallel iteration that runs in a pool.\<close>

definition next_parallel :: "nat \<Rightarrow> unit wm" where
  "next_parallel a =
    wbind (wget a) (\<lambda>w.
    wseq
     (if wf_IteratePool (wfd w) = [] then skip
      else case atoi (wf_IteratePool (wfd w)) of
        None \<Rightarrow> wpanic (PanicErr ''strconv.Atoi: invalid syntax'')
      | Some pool \<Rightarrow>
          if pool > 0 then
            wbind (wlift (lenOfIterate w)) (\<lambda>len.
            if nat pool + s_iteration w < len then spawn (TParallel a (nat pool + s_iteration w)) else skip)
          else skip)
    (wmod a (\<lambda>w. w\<lparr>s_iteration := Suc (s_iteration w)\<rparr>)))"

definition continueExec :: "wfenv \<Rightarrow> caller \<Rightarrow> nat \<Rightarrow> Message \<Rightarrow> gmap list \<Rightarrow> unit wm" where
  "continueExec W self a msg exports =
    wseq (wmod a (del_ctx ''_wait_timer''))
    (wseq (mergeContext W exports a)
    (wbind (wget a) (\<lambda>w.
     if s_currentHook w \<noteq> [] then continueAfterHook W self a msg
     else
     wbind (wstep a (routeNext W msg)) (\<lambda>route.
     (case route of
        WorkflowNextStep \<Rightarrow>
          wseq (wmod a (\<lambda>w. w\<lparr>s_current := Suc (s_current w)\<rparr>)) (executeStep W self a msg)
      | WorkflowNextThread \<Rightarrow> skip
      | WorkflowNextIteration \<Rightarrow>
          wseq (wmod a (\<lambda>w. w\<lparr>s_iteration := Suc (s_iteration w)\<rparr>)) (self (CIteration a msg))
      | WorkflowNextParallelIteration \<Rightarrow> next_parallel a
      | WorkflowNextRound \<Rightarrow>
          wseq (wmod a (\<lambda>w. w\<lparr>s_loopCount := Suc (s_loopCount w)\<rparr>)) (self (CRound a msg))
      | WorkflowNextComplete \<Rightarrow> self (CComplete a msg))))))"

section \<open>Running\<close>

definition dispatch :: "wfenv \<Rightarrow> caller \<Rightarrow> call \<Rightarrow> unit wm" where
  "dispatch W self c = (case c of
      CExecute a msg \<Rightarrow> execute W self a msg
    | CRound a msg \<Rightarrow> executeRound W self a msg
    | CIteration a msg \<Rightarrow> executeIteration W self a msg
    | CAction a msg \<Rightarrow> executeAction W self a msg
    | CContinue a msg exports \<Rightarrow> continueExec W self a msg exports
    | CComplete a msg \<Rightarrow> complete W self a msg)"

fun run :: "wfenv \<Rightarrow> nat \<Rightarrow> call \<Rightarrow> unit wm" where
  "run W 0 c = wpanic StackOverflow"
| "run W (Suc n) c = dispatch W (run W n) c"

section \<open>\<open>store.go\<close>\<close>

definition ContinueSession :: "wfenv \<Rightarrow> nat \<Rightarrow> string \<Rightarrow> Message \<Rightarrow> gmap list \<Rightarrow> unit wm" where
  "ContinueSession W n sessionID msg exports = SafeExitOnError (\<lambda>s.
    case IDMapGet (sessions s) sessionID of
      None \<Rightarrow> (Panicked TypeAssertion, s)
    | Some a \<Rightarrow> onError W (run W n) a (run W n (CContinue a msg exports)) s)"

definition ResumeSession :: "wfenv \<Rightarrow> string \<Rightarrow> Message \<Rightarrow> unit wm" where
  "ResumeSession W key msg = SafeExitOnError (\<lambda>s.
    case map_of (suspendedSessions s) key of
      None \<Rightarrow> (Done (), s)
    | Some sessionID \<Rightarrow>
        let payload = (case GetMapData (payload_val msg) ''payload'' of None \<Rightarrow> PNil | Some v \<Rightarrow> PVal v);
            ls = (case GetMapData (payload_val msg) ''labels'' of
                    None \<Rightarrow> [] | Some v \<Rightarrow> (case we_labels W v of None \<Rightarrow> [] | Some m \<Rightarrow> m)) in
        (Done (), s\<lparr>suspendedSessions := mdel key (suspendedSessions s),
           tasks := tasks s @ [TContinue sessionID
             (zero_message\<lparr>Subject := EventbusReturn, Labels := Some ls, Payload := payload\<rparr>) []]\<rparr>))"

definition StartSession :: "wfenv \<Rightarrow> nat \<Rightarrow> Workflow \<Rightarrow> Message \<Rightarrow> gmap option \<Rightarrow> unit wm" where
  "StartSession W n wflow msg ctx = SafeExitOnError
    (wbind (newSession [] (label_str msg ''eventID'') wflow) (\<lambda>a.
     wseq (if wf_Workflow (wd wflow) = ''reserved/main'' then wmod a Watch else skip)
     (wseq (wmodr a (prepare W msg None ctx)) (run W n (CExecute a msg)))))"

definition emit_result :: "string \<Rightarrow> gmap \<Rightarrow> unit wm" where
  "emit_result uuid result = (\<lambda>s. (Done (), s\<lparr>results := results s @ [(uuid, result)]\<rparr>))"

definition StartDynamicSession :: "wfenv \<Rightarrow> nat \<Rightarrow> Message \<Rightarrow> gval \<Rightarrow> unit wm" where
  "StartDynamicSession W n msg wflowdata = (let eventUUID = label_str msg ''eventID'' in
    wcatch
     (wbind (wlift (we_decode W wflowdata)) (\<lambda>wflow.
      wbind (wlift (rbind (MustGetMapData (payload_val msg) ''data'') (\<lambda>v. assert_type (as_map v)))) (\<lambda>ctx.
      let ctx' = (if map_of ctx ''_output'' = None then mput ''_output'' (GMap []) ctx else ctx) in
      wbind (newSession [] eventUUID wflow) (\<lambda>a.
      wseq (wmodr a (prepare W msg None (Some ctx'))) (run W n (CExecute a msg))))))
     (\<lambda>e. emit_result eventUUID [(''status'', GStr ''error''), (''error'', GStr (''creating session: '' @ we_text W e))]))"

definition ByEventID :: "store \<Rightarrow> string \<Rightarrow> nat list" where
  "ByEventID s eventID = filter (\<lambda>a. s_parent (heap s a) = [] \<and> s_EventID (heap s a) = eventID)
     (map snd (entries (sessions s)))"

definition GetEvents :: "store \<Rightarrow> nat list" where
  "GetEvents s = filter (\<lambda>a. s_parent (heap s a) = []) (map snd (entries (sessions s)))"

section \<open>Goroutines\<close>

text \<open>A goroutine that saves the session before it installs \<open>onError\<close>.\<close>

definition saved_session :: "wfenv \<Rightarrow> nat \<Rightarrow> nat \<Rightarrow> unit wm \<Rightarrow> unit wm" where
  "saved_session W n a m = SafeExitOnError (wseq (save a) (onError W (run W n) a m))"

definition run_else :: "wfenv \<Rightarrow> nat \<Rightarrow> nat \<Rightarrow> Message \<Rightarrow> unit wm" where
  "run_else W n a msg =
    wbind (wget a) (\<lambda>w. case s_elseBranch w of
      None \<Rightarrow> wpanic NilDereference
    | Some b \<Rightarrow> wbind (createChildSession W a b msg) (\<lambda>c. run W n (CExecute c msg)))"

definition run_task :: "wfenv \<Rightarrow> nat \<Rightarrow> task \<Rightarrow> unit wm" where
  "run_task W n t = (case t of
      TRound a msg \<Rightarrow> saved_session W n a (run W n (CRound a msg))
    | TElse a msg \<Rightarrow> saved_session W n a (run_else W n a msg)
    | THook a msg hookBlock \<Rightarrow> saved_session W n a (executeHook W (run W n) a msg hookBlock)
    | TParallel a i \<Rightarrow> SafeExitOnError (onError W (run W n) a (launchParallelIteration W (run W n) a i))
    | TThread a i msg \<Rightarrow> SafeExitOnError (onError W (run W n) a (run_thread W (run W n) a i msg))
    | TDetached a msg \<Rightarrow> SafeExitOnError (run W n (CExecute a msg))
    | TContinue sessionID msg exports \<Rightarrow> ContinueSession W n sessionID msg exports
    | TTimer a token \<Rightarrow> SafeExitOnError (start_timer a token)
    | TTimerFires a token status reason payload \<Rightarrow> SafeExitOnError (timer_fires a token status reason payload)
    | TResume key msg \<Rightarrow> ResumeSession W key msg
    | TStart wflow msg ctx \<Rightarrow> StartSession W n wflow msg ctx
    | TStartDynamic msg data \<Rightarrow> StartDynamicSession W n msg data)"

text \<open>Running the \<open>i\<close>-th of the goroutines that wait.\<close>

definition run_pending :: "wfenv \<Rightarrow> nat \<Rightarrow> nat \<Rightarrow> unit wm" where
  "run_pending W n i = (\<lambda>s.
    if i < length (tasks s) then run_task W n (tasks s ! i) (s\<lparr>tasks := take i (tasks s) @ drop (Suc i) (tasks s)\<rparr>)
    else (Stuck, s))"

definition NewSessionStore :: "Session \<Rightarrow> store" where
  "NewSessionStore blank = \<lparr>heap = (\<lambda>_. blank), next_addr = 0, sessions = InitIDMap, suspendedSessions = [],
     tasks = [], outbox = [], results = []\<rparr>"

text \<open>The laws of sequencing.\<close>

lemma wseq_assoc: "wseq (wseq m k) l = wseq m (wseq k l)"
  by (rule ext) (simp add: wseq_def wbind_def split: prod.splits out.splits)

lemma wseq_skip: "wseq skip m = m" "wseq m skip = m"
  by (rule ext, simp add: wseq_def wbind_def skip_def wret_def split: prod.splits out.splits)+

lemma wbind_lift_Inr: "wbind (wlift (Inr x)) k = k x"
  by (rule ext) (simp add: wbind_def wlift_def wret_def)

end
