(* ===== verification/EngineInv.thy ===== *)
theory EngineInv
  imports Engine
begin

text \<open>
  The invariant of the session store and its preservation by every operation of the engine: every
  ID of the ID map belongs to a session object that carries this ID, and the goroutines that wait
  refer to existing objects.

  \<open>pres k m\<close> says that the computation \<open>m\<close> keeps the invariant when the addresses below \<open>k\<close>
  exist; its rules (collection \<open>pres_intros\<close>) follow the structure of the definitions, the recursion
  is closed by induction on the bound of \<open>run\<close>.
\<close>

section \<open>The invariant\<close>

fun task_bound :: "task \<Rightarrow> nat" where
  "task_bound (TRound a _) = Suc a"
| "task_bound (TElse a _) = Suc a"
| "task_bound (THook a _ _) = Suc a"
| "task_bound (TParallel a _) = Suc a"
| "task_bound (TThread a _ _) = Suc a"
| "task_bound (TDetached a _) = Suc a"
| "task_bound (TContinue _ _ _) = 0"
| "task_bound (TTimer a _) = Suc a"
| "task_bound (TTimerFires a _ _ _ _) = Suc a"
| "task_bound (TResume _ _) = 0"
| "task_bound (TStart _ _ _) = 0"
| "task_bound (TStartDynamic _ _) = 0"

definition store_inv :: "store \<Rightarrow> bool" where
  "store_inv s \<longleftrightarrow> idmap_inv (sessions s) \<and>
     (\<forall>k a. IDMapGet (sessions s) k = Some a \<longrightarrow> k \<noteq> [] \<and> a < next_addr s \<and> s_ID (heap s a) = k) \<and>
     (\<forall>t \<in> set (tasks s). task_bound t \<le> next_addr s)"

definition pres :: "nat \<Rightarrow> 'a wm \<Rightarrow> bool" where
  "pres k m \<longleftrightarrow> (\<forall>s. store_inv s \<longrightarrow> k \<le> next_addr s \<longrightarrow>
     store_inv (snd (m s)) \<and> next_addr s \<le> next_addr (snd (m s)))"

text \<open>A computation that returns the address of an object.\<close>

definition pres_addr :: "nat \<Rightarrow> nat wm \<Rightarrow> bool" where
  "pres_addr k m \<longleftrightarrow> pres k m \<and>
     (\<forall>s c s'. store_inv s \<longrightarrow> k \<le> next_addr s \<longrightarrow> m s = (Done c, s') \<longrightarrow> c < next_addr s')"

named_theorems pres_intros "rules for the preservation of the store invariant"

lemma presD: "pres k m \<Longrightarrow> store_inv s \<Longrightarrow> k \<le> next_addr s \<Longrightarrow> m s = (r, s') \<Longrightarrow>
  store_inv s' \<and> next_addr s \<le> next_addr s'"
  by (fastforce simp: pres_def)

lemma pres_mono: "pres k m \<Longrightarrow> k \<le> k' \<Longrightarrow> pres k' m"
  by (simp add: pres_def)

lemma pres_wret [pres_intros]: "pres k (wret x)"
  by (simp add: pres_def wret_def)

lemma pres_skip [pres_intros]: "pres k skip"
  by (simp add: skip_def pres_wret)

lemma pres_wpanic [pres_intros]: "pres k (wpanic e)"
  by (simp add: pres_def wpanic_def)

lemma pres_wlift [pres_intros]: "pres k (wlift r)"
  by (cases r) (simp_all add: wlift_def pres_wret pres_wpanic)

lemma pres_wget [pres_intros]: "pres k (wget a)"
  by (simp add: pres_def wget_def)

lemma pres_read [pres_intros]: "pres k (\<lambda>s. (Done (f s), s))"
  by (simp add: pres_def)

lemma pres_wbind [pres_intros]:
  assumes "pres k m" and "\<And>x. pres k (f x)"
  shows "pres k (wbind m f)"
  unfolding pres_def
proof (intro allI impI)
  fix s assume s: "store_inv s" "k \<le> next_addr s"
  obtain r s' where m: "m s = (r, s')" by force
  note s' = presD [OF assms(1) s m]
  with s(2) have k: "k \<le> next_addr s'" by simp
  show "store_inv (snd (wbind m f s)) \<and> next_addr s \<le> next_addr (snd (wbind m f s))"
    using m s' assms(2) [unfolded pres_def, rule_format, OF conjunct1 [OF s'] k]
    by (cases r) (auto simp: wbind_def intro: order_trans)
qed

lemma pres_wseq [pres_intros]: "pres k m \<Longrightarrow> pres k n \<Longrightarrow> pres k (wseq m n)"
  by (simp add: wseq_def pres_wbind)

lemma pres_wbind_addr:
  assumes "pres_addr k m" and "\<And>c. pres (max k (Suc c)) (f c)"
  shows "pres k (wbind m f)"
  unfolding pres_def
proof (intro allI impI)
  fix s assume s: "store_inv s" "k \<le> next_addr s"
  obtain r s' where m: "m s = (r, s')" by force
  have "pres k m" using assms(1) by (simp add: pres_addr_def)
  note s' = presD [OF this s m]
  show "store_inv (snd (wbind m f s)) \<and> next_addr s \<le> next_addr (snd (wbind m f s))"
  proof (cases r)
    case (Done c)
    with assms(1) m s have "c < next_addr s'" by (simp add: pres_addr_def)
    with s s' have k: "max k (Suc c) \<le> next_addr s'" by simp
    show ?thesis
      using Done m s' assms(2) [unfolded pres_def, rule_format, OF conjunct1 [OF s'] k]
      by (auto simp: wbind_def intro: order_trans)
  qed (use m s' in \<open>simp_all add: wbind_def\<close>)
qed

lemma pres_wcatch [pres_intros]:
  assumes "pres k m" and "\<And>e. pres k (h e)"
  shows "pres k (wcatch m h)"
  unfolding pres_def
proof (intro allI impI)
  fix s assume s: "store_inv s" "k \<le> next_addr s"
  obtain r s' where m: "m s = (r, s')" by force
  note s' = presD [OF assms(1) s m]
  with s(2) have k: "k \<le> next_addr s'" by simp
  show "store_inv (snd (wcatch m h s)) \<and> next_addr s \<le> next_addr (snd (wcatch m h s))"
    using m s' assms(2) [unfolded pres_def, rule_format, OF conjunct1 [OF s'] k]
    by (cases r) (auto simp: wcatch_def intro: order_trans)
qed

lemma pres_SafeExit [pres_intros]: "pres k m \<Longrightarrow> pres k (SafeExitOnError m)"
  by (simp add: SafeExitOnError_def pres_intros)

lemma pres_if [pres_intros]: "(b \<Longrightarrow> pres k m) \<Longrightarrow> (\<not> b \<Longrightarrow> pres k n) \<Longrightarrow> pres k (if b then m else n)"
  by simp

lemma pres_case_option [pres_intros]:
  "(x = None \<Longrightarrow> pres k m) \<Longrightarrow> (\<And>y. x = Some y \<Longrightarrow> pres k (f y)) \<Longrightarrow> pres k (case x of None \<Rightarrow> m | Some y \<Rightarrow> f y)"
  by (cases x) simp_all

lemma pres_case_prod [pres_intros]: "(\<And>x y. p = (x, y) \<Longrightarrow> pres k (f x y)) \<Longrightarrow> pres k (case p of (x, y) \<Rightarrow> f x y)"
  by (cases p) simp

lemma pres_Let [pres_intros]: "(\<And>x. x = t \<Longrightarrow> pres k (f x)) \<Longrightarrow> pres k (let x = t in f x)"
  by simp

lemma store_inv_heap:
  assumes "store_inv s" and "s_ID w = s_ID (heap s a)"
  shows "store_inv (s\<lparr>heap := (heap s)(a := w)\<rparr>)"
  using assms by (auto simp: store_inv_def)

lemma pres_wmod [pres_intros]: "(\<And>w. s_ID (f w) = s_ID w) \<Longrightarrow> pres k (wmod a f)"
  by (simp add: pres_def wmod_def store_inv_heap)

lemma pres_wmodr [pres_intros]:
  assumes "\<And>w w'. f w = Inr w' \<Longrightarrow> s_ID w' = s_ID w"
  shows "pres k (wmodr a f)"
proof -
  have "store_inv (snd (wmodr a f s)) \<and> next_addr s \<le> next_addr (snd (wmodr a f s))" if "store_inv s" for s
    using that assms [of "heap s a"]
    by (cases "f (heap s a)")
      (auto simp: wmodr_def wbind_def wget_def wlift_def wpanic_def wret_def wmod_def store_inv_heap)
  then show ?thesis by (simp add: pres_def)
qed

lemma pres_spawn [pres_intros]: "task_bound t \<le> k \<Longrightarrow> pres k (spawn t)"
  by (auto simp: pres_def spawn_def store_inv_def)

lemma pres_spawn_all [pres_intros]: "(\<And>t. t \<in> set ts \<Longrightarrow> task_bound t \<le> k) \<Longrightarrow> pres k (spawn_all ts)"
  by (induction ts) (auto intro!: pres_intros)

lemma pres_addr_alloc:
  assumes "s_ID w = []"
  shows "pres_addr k (alloc w)"
proof -
  have "store_inv (s\<lparr>heap := (heap s)(next_addr s := w), next_addr := Suc (next_addr s)\<rparr>)" if "store_inv s" for s
    using that by (fastforce simp: store_inv_def)
  then show ?thesis by (auto simp: pres_addr_def pres_def alloc_def)
qed

lemma pres_save [pres_intros]:
  assumes "Suc a \<le> k"
  shows "pres k (save a)"
proof -
  have "store_inv (s\<lparr>sessions := m, heap := (heap s)(a := (heap s a)\<lparr>s_ID := i\<rparr>)\<rparr>)"
    if inv: "store_inv s" and "Suc a \<le> next_addr s" and unsaved: "s_ID (heap s a) = []"
      and put: "IDMapPut (sessions s) a = Some (i, m)" for s i m
  proof -
    have idm: "idmap_inv (sessions s)" using inv by (simp add: store_inv_def)
    have "b \<noteq> a" if "IDMapGet (sessions s) j = Some b" for j b
      using inv that unsaved by (auto simp: store_inv_def)
    then show ?thesis
      using that idm.put_get [OF idm put] idm.put_inv [OF idm put] idm.put_key [OF put] unfolding store_inv_def by auto
  qed
  with assms show ?thesis
    by (auto simp: pres_def save_def split: option.splits)
qed

section \<open>Preparing a session keeps its identity\<close>

definition watch_state :: "Session \<Rightarrow> bool \<times> bool" where
  "watch_state w = (s_watched w, s_cancelled w)"

lemma watch_state_upd [simp]:
  "watch_state (w\<lparr>s_ID := x0\<rparr>) = watch_state w" "watch_state (w\<lparr>s_EventID := x1\<rparr>) = watch_state w"
  "watch_state (w\<lparr>s_workflow := x2\<rparr>) = watch_state w" "watch_state (w\<lparr>s_current := x3\<rparr>) = watch_state w"
  "watch_state (w\<lparr>s_iteration := x4\<rparr>) = watch_state w" "watch_state (w\<lparr>s_iterationOut := x5\<rparr>) = watch_state w"
  "watch_state (w\<lparr>s_loopCount := x6\<rparr>) = watch_state w" "watch_state (w\<lparr>s_parent := x7\<rparr>) = watch_state w"
  "watch_state (w\<lparr>s_ctx := x8\<rparr>) = watch_state w" "watch_state (w\<lparr>s_event := x9\<rparr>) = watch_state w"
  "watch_state (w\<lparr>s_exported := x10\<rparr>) = watch_state w" "watch_state (w\<lparr>s_elseBranch := x11\<rparr>) = watch_state w"
  "watch_state (w\<lparr>s_inFlyFunction := x12\<rparr>) = watch_state w" "watch_state (w\<lparr>s_loadedContexts := x13\<rparr>) = watch_state w"
  "watch_state (w\<lparr>s_currentHook := x14\<rparr>) = watch_state w" "watch_state (w\<lparr>s_savedMsg := x15\<rparr>) = watch_state w"
  "watch_state (w\<lparr>s_origMsg := x16\<rparr>) = watch_state w" "watch_state (w\<lparr>s_performing := x17\<rparr>) = watch_state w"
  "watch_state (w\<lparr>s_isHook := x18\<rparr>) = watch_state w"
  by (simp_all add: watch_state_def)

definition same_ids :: "Session \<Rightarrow> Session \<Rightarrow> bool" where
  "same_ids w w' \<longleftrightarrow> s_ID w' = s_ID w \<and> s_parent w' = s_parent w \<and> s_EventID w' = s_EventID w \<and>
     s_currentHook w' = s_currentHook w \<and> watch_state w' = watch_state w"

named_theorems same_ids_simps "operations that keep the identity of a session"

lemma same_ids_refl [simp]: "same_ids w w"
  by (simp add: same_ids_def)

lemma same_ids_trans: "same_ids u v \<Longrightarrow> same_ids v w \<Longrightarrow> same_ids u w"
  by (simp add: same_ids_def)

lemma same_ids_rbind:
  assumes "rbind m f = Inr w'" and "\<And>x. m = Inr x \<Longrightarrow> f x = Inr w' \<Longrightarrow> P"
  shows P
  using assms by (cases m) auto

lemma set_ctx_ids [same_ids_simps]: "set_ctx k v w = Inr w' \<Longrightarrow> same_ids w w'"
  by (auto simp: set_ctx_def same_ids_def split: option.splits)

lemma del_ctx_ids [simp]: "same_ids w (del_ctx k w)"
  by (simp add: del_ctx_def same_ids_def)

lemma del_ctx_sel [simp]: "s_ID (del_ctx k w) = s_ID w" "s_parent (del_ctx k w) = s_parent w"
  "s_currentHook (del_ctx k w) = s_currentHook w" "s_EventID (del_ctx k w) = s_EventID w" "s_workflow (del_ctx k w) = s_workflow w"
  "watch_state (del_ctx k w) = watch_state w"
  by (simp_all add: del_ctx_def)

lemma setPerforming_ids [simp]: "s_ID (setPerforming p w) = s_ID w"
  by (simp add: setPerforming_def Let_def)

lemma injectMsg_ids: "injectMsg m w = Inr w' \<Longrightarrow> same_ids w w'"
  by (auto simp: injectMsg_def same_ids_def rbind_Inr_conv split: if_splits option.splits)

lemma merge_section_ids: "merge_section W n sec b (w, e) = Inr (w', e') \<Longrightarrow> same_ids w w'"
  by (auto simp: merge_section_def same_ids_def rbind_Inr_conv split: option.splits if_splits)

lemma injectNamedCTX_ids: "injectNamedCTX W n m b w = Inr w' \<Longrightarrow> same_ids w w'"
  by (auto simp: injectNamedCTX_def Let_def rbind_Inr_conv split: if_splits option.splits gval.splits
      dest!: merge_section_ids intro: same_ids_trans)

lemma load_context_ids: "load_context W m n w = Inr w' \<Longrightarrow> same_ids w w'"
  by (auto simp: load_context_def rbind_Inr_conv same_ids_def split: if_splits dest!: injectNamedCTX_ids)

lemma load_contexts_ids: "load_contexts W m ns w = Inr w' \<Longrightarrow> same_ids w w'"
  by (induction ns arbitrary: w)
    (auto simp: rbind_Inr_conv split: gval.splits if_splits dest!: load_context_ids intro: same_ids_trans)

lemma injectCTXs_ids: "injectCTXs W m w = Inr w' \<Longrightarrow> same_ids w w'"
  by (auto simp: injectCTXs_def Let_def rbind_Inr_conv same_ids_def split: if_splits
      dest!: load_context_ids load_contexts_ids)

lemma reload_contexts_ids: "reload_contexts W m ns w = Inr w' \<Longrightarrow> same_ids w w'"
proof (induction ns arbitrary: w)
  case (Cons n ns)
  then obtain w1 where "injectNamedCTX W n m False
      (if n = SessionContextHooks then w\<lparr>s_isHook := True\<rparr> else w) = Inr w1" "reload_contexts W m ns w1 = Inr w'"
    by (auto simp: rbind_Inr_conv)
  with Cons.IH injectNamedCTX_ids show ?case by (fastforce simp: same_ids_def split: if_splits)
qed simp

lemma initCTX_ids: "initCTX W m w = Inr w' \<Longrightarrow> same_ids w w'"
  by (auto simp: initCTX_def rbind_Inr_conv split: if_splits
      dest!: injectNamedCTX_ids reload_contexts_ids injectCTXs_ids intro: same_ids_trans) (auto simp: same_ids_def)

lemma injectMeta_ids: "injectMeta w = Inr w' \<Longrightarrow> same_ids w w'"
  by (auto simp: injectMeta_def rbind_Inr_conv split: if_splits dest!: set_ctx_ids intro: same_ids_trans)

lemma injectEventCTX_ids: "injectEventCTX W c w = Inr w' \<Longrightarrow> same_ids w w'"
  by (auto simp: injectEventCTX_def rbind_Inr_conv same_ids_def split: option.splits)

lemma injectLocalCTX_ids: "injectLocalCTX W m w = Inr w' \<Longrightarrow> same_ids w w'"
  by (auto simp: injectLocalCTX_def rbind_Inr_conv same_ids_def split: if_splits)

lemma interpolateWorkflow_ids: "interpolateWorkflow W m w = Inr w' \<Longrightarrow> same_ids w w'"
  unfolding interpolateWorkflow_def Let_def by (elim same_ids_rbind) (auto simp: same_ids_def)

lemma inheritParentSettings_ids [simp]: "same_ids w (inheritParentSettings p w)"
  by (simp add: inheritParentSettings_def same_ids_def)

lemma inheritParentData_ids: "inheritParentData p w = Inr w' \<Longrightarrow> same_ids w w'"
  by (auto simp: inheritParentData_def rbind_Inr_conv same_ids_def del_ctx_def)

lemma prepare_ids: "prepare W m p c w = Inr w' \<Longrightarrow> same_ids w w'"
  unfolding prepare_def
  by (elim same_ids_rbind)
    (auto split: option.splits dest!: inheritParentData_ids injectMsg_ids initCTX_ids injectEventCTX_ids
      injectLocalCTX_ids interpolateWorkflow_ids injectMeta_ids simp: same_ids_def inheritParentSettings_def)

lemma set_ctx_ID: "set_ctx k v w = Inr w' \<Longrightarrow> s_ID w' = s_ID w"
  using set_ctx_ids [of k v w w'] by (simp add: same_ids_def)

lemma prepare_ID: "prepare W m p c w = Inr w' \<Longrightarrow> s_ID w' = s_ID w"
  using prepare_ids [of W m p c w w'] by (simp add: same_ids_def)

section \<open>Preservation, function by function\<close>

lemma pres_addr_newSession: "pres_addr k (newSession p e v)"
  by (simp add: newSession_def pres_addr_alloc)

lemma pres_addr_wbind:
  assumes "pres k m" and "\<And>x. pres_addr k (f x)"
  shows "pres_addr k (wbind m f)"
  unfolding pres_addr_def
proof (intro conjI allI impI)
  show "pres k (wbind m f)" using assms by (simp add: pres_addr_def pres_wbind)
  fix s c s' assume s: "store_inv s" "k \<le> next_addr s" and r: "wbind m f s = (Done c, s')"
  from r obtain x t where m: "m s = (Done x, t)" and f: "f x t = (Done c, s')"
    by (auto simp: wbind_def split: prod.splits out.splits)
  from presD [OF assms(1) s m] s(2) have "store_inv t" "k \<le> next_addr t" by simp_all
  with assms(2) f show "c < next_addr s'" by (auto simp: pres_addr_def)
qed

lemma pres_addr_wbind_addr:
  assumes "pres_addr k m" and "\<And>c. pres_addr (max k (Suc c)) (f c)"
  shows "pres_addr k (wbind m f)"
  unfolding pres_addr_def
proof (intro conjI allI impI)
  show "pres k (wbind m f)" using assms by (intro pres_wbind_addr) (simp_all add: pres_addr_def)
  fix s c s' assume s: "store_inv s" "k \<le> next_addr s" and r: "wbind m f s = (Done c, s')"
  from r obtain x t where m: "m s = (Done x, t)" and f: "f x t = (Done c, s')"
    by (auto simp: wbind_def split: prod.splits out.splits)
  have "pres k m" using assms(1) by (simp add: pres_addr_def)
  from presD [OF this s m] s m assms(1) have "store_inv t" "max k (Suc x) \<le> next_addr t"
    by (auto simp: pres_addr_def)
  with assms(2) f show "c < next_addr s'" unfolding pres_addr_def by blast
qed

lemma pres_addr_wret: "Suc c \<le> k \<Longrightarrow> pres_addr k (wret c)"
  by (auto simp: pres_addr_def pres_wret) (simp add: wret_def)

lemma pres_addr_wseq: "pres k m \<Longrightarrow> pres_addr k n \<Longrightarrow> pres_addr k (wseq m n)"
  by (simp add: wseq_def pres_addr_wbind)

lemma pres_addr_wpanic: "pres_addr k (wpanic e)"
  by (simp add: pres_addr_def pres_wpanic) (simp add: wpanic_def)

lemmas pres_addr_intros = pres_addr_wbind pres_addr_wseq pres_addr_wret pres_addr_wpanic

lemma pres_addr_createChild: "pres_addr k (createChildSession W a v msg)"
  unfolding createChildSession_def
  by (rule pres_addr_wbind [OF pres_wget], rule pres_addr_wbind_addr [OF pres_addr_newSession],
      intro pres_addr_intros pres_intros) (simp_all add: prepare_ID)

lemma pres_addr_createNamed: "pres_addr k (createChildSessionWithName W a n msg)"
  unfolding createChildSessionWithName_def
  by (cases "map_of (Workflows (we_cfg W)) n") (simp_all add: pres_addr_wpanic pres_addr_createChild)

text \<open>The recursive calls are assumed to keep the invariant.\<close>

fun call_bound :: "call \<Rightarrow> nat" where
  "call_bound (CExecute a _) = Suc a"
| "call_bound (CRound a _) = Suc a"
| "call_bound (CIteration a _) = Suc a"
| "call_bound (CAction a _) = Suc a"
| "call_bound (CContinue a _ _) = Suc a"
| "call_bound (CComplete a _) = Suc a"

definition self_ok :: "caller \<Rightarrow> bool" where
  "self_ok self \<longleftrightarrow> (\<forall>c. pres (call_bound c) (self c))"

lemma self_okD: "self_ok self \<Longrightarrow> call_bound c \<le> k \<Longrightarrow> pres k (self c)"
  using pres_mono by (auto simp: self_ok_def)

lemma pres_child:
  "(\<And>c. pres (max k (Suc c)) (f c)) \<Longrightarrow> pres k (wbind (createChildSession W a v msg) f)"
  by (rule pres_wbind_addr [OF pres_addr_createChild])

lemma pres_named_child:
  "(\<And>c. pres (max k (Suc c)) (f c)) \<Longrightarrow> pres k (wbind (createChildSessionWithName W a n msg) f)"
  by (rule pres_wbind_addr [OF pres_addr_createNamed])

lemma pres_executeHook [pres_intros]:
  assumes self: "self_ok self"
  shows "pres k (executeHook W self a msg b)"
  unfolding executeHook_def by (intro pres_child pres_intros self_okD [OF self]) simp_all

lemma pres_fireHook [pres_intros]:
  assumes self: "self_ok self" and a: "Suc a \<le> k"
  shows "pres k (fireHook W self n a msg)"
  unfolding fireHook_def by (intro pres_intros) (simp_all add: self a)

lemma pres_unless_hook [pres_intros]: "pres k m \<Longrightarrow> pres k (unless_hook a m)"
  unfolding unless_hook_def by (intro pres_intros)

lemma pres_noop [pres_intros]:
  assumes self: "self_ok self" and a: "Suc a \<le> k"
  shows "pres k (noop self a msg)"
  unfolding noop_def Let_def by (intro pres_intros self_okD [OF self]) (simp_all add: a)

lemma pres_execute:
  assumes self: "self_ok self" and a: "Suc a \<le> k"
  shows "pres k (execute W self a msg)"
  unfolding execute_def by (intro pres_intros self_okD [OF self]) (simp_all add: a self)

lemma pres_executeRound:
  assumes self: "self_ok self" and a: "Suc a \<le> k"
  shows "pres k (executeRound W self a msg)"
  unfolding executeRound_def Let_def
  by (intro pres_intros self_okD [OF self]) (auto simp: a self dest!: set_ctx_ID split: if_splits)

lemma pres_launchIteration [pres_intros]:
  assumes self: "self_ok self" and a: "Suc a \<le> k"
  shows "pres k (launchIteration W self a msg)"
  unfolding launchIteration_def
  by (intro pres_intros self_okD [OF self])
    (auto simp: a self rbind_Inr_conv dest!: set_ctx_ID split: if_splits)

lemma pres_launchParallelIterations [pres_intros]: "Suc a \<le> k \<Longrightarrow> pres k (launchParallelIterations a msg)"
  unfolding launchParallelIterations_def by (intro pres_intros) auto

lemma pres_launchParallelIteration:
  assumes self: "self_ok self"
  shows "pres k (launchParallelIteration W self a i)"
  unfolding launchParallelIteration_def Let_def
  by (intro pres_child pres_intros self_okD [OF self])
    (auto simp: rbind_Inr_conv dest!: set_ctx_ID split: if_splits)

lemma pres_executeIteration:
  assumes self: "self_ok self" and a: "Suc a \<le> k"
  shows "pres k (executeIteration W self a msg)"
  unfolding executeIteration_def by (intro pres_intros self_okD [OF self]) (simp_all add: a self)

lemma pres_startWait [pres_intros]:
  assumes "Suc a \<le> k"
  shows "pres k (startWait W a)"
  using assms
  by (auto simp: pres_def startWait_def spawn_def store_inv_def Let_def split: option.splits)

lemma pres_start_timer: "Suc a \<le> k \<Longrightarrow> pres k (start_timer a token)"
  unfolding start_timer_def Let_def by (intro pres_intros) (auto dest!: set_ctx_ID)

lemma pres_timer_fires: "pres k (timer_fires a token st rs p)"
  unfolding timer_fires_def by (intro pres_intros) simp_all

lemma pres_run_branch [pres_intros]:
  assumes self: "self_ok self"
  shows "pres k (run_branch W self a msg p b)"
  unfolding run_branch_def by (intro pres_child pres_intros self_okD [OF self]) simp_all

lemma pres_executeSwitch [pres_intros]:
  assumes self: "self_ok self" and a: "Suc a \<le> k"
  shows "pres k (executeSwitch W self a msg)"
  unfolding executeSwitch_def by (intro pres_intros) (simp_all add: self a)

lemma pres_processActionHooks [pres_intros]:
  assumes self: "self_ok self" and a: "Suc a \<le> k"
  shows "pres k (processActionHooks W self a msg)"
  unfolding processActionHooks_def by (intro pres_intros) (simp_all add: self a)

lemma pres_outbox [pres_intros]: "pres k (\<lambda>s. (Done (), s\<lparr>outbox := f s\<rparr>))"
  by (simp add: pres_def store_inv_def)

lemma pres_callFunction [pres_intros]: "pres k (callFunction a f msg)"
  unfolding callFunction_def by (intro pres_intros) simp_all

lemma pres_callDriver [pres_intros]: "pres k (callDriver W a f msg)"
  unfolding callDriver_def by (intro pres_intros) (auto split: list.splits intro!: pres_intros)

lemma pres_callShorthandFunction [pres_intros]: "pres k (callShorthandFunction a f msg)"
  unfolding callShorthandFunction_def by (auto split: list.splits intro!: pres_intros)

lemma pres_executeStep [pres_intros]:
  assumes self: "self_ok self"
  shows "pres k (executeStep W self a msg)"
  unfolding executeStep_def Let_def
  by (intro pres_child pres_intros self_okD [OF self]) (auto dest!: set_ctx_ID)

lemma pres_executeThreads [pres_intros]: "Suc a \<le> k \<Longrightarrow> pres k (executeThreads a msg)"
  unfolding executeThreads_def by (intro pres_intros) auto

lemma pres_run_thread:
  assumes self: "self_ok self"
  shows "pres k (run_thread W self a i msg)"
  unfolding run_thread_def Let_def
  by (intro pres_child pres_intros self_okD [OF self]) (auto simp: rmap_def rbind_Inr_conv dest!: set_ctx_ID)

lemma pres_perform [pres_intros]: "pres k (perform a p)"
  unfolding perform_def by (intro pres_intros) simp

lemma pres_callWorkflow [pres_intros]:
  assumes self: "self_ok self" and a: "Suc a \<le> k"
  shows "pres k (callWorkflow W self a msg)"
  unfolding callWorkflow_def
  by (intro pres_named_child pres_intros self_okD [OF self]) (use a in \<open>auto dest!: set_ctx_ID\<close>)

lemma pres_executeAction:
  assumes self: "self_ok self" and a: "Suc a \<le> k"
  shows "pres k (executeAction W self a msg)"
  unfolding executeAction_def Let_def
  by (intro pres_intros self_okD [OF self]) (simp_all add: self a)

lemma pres_wstep [pres_intros]:
  assumes "\<And>w x w'. f w = Inr (x, w') \<Longrightarrow> s_ID w' = s_ID w"
  shows "pres k (wstep a f)"
proof -
  have "store_inv (snd (wstep a f s)) \<and> next_addr s \<le> next_addr (snd (wstep a f s))" if "store_inv s" for s
    using that assms [of "heap s a"]
    by (cases "f (heap s a)")
      (auto simp: wstep_def wbind_def wseq_def wget_def wlift_def wpanic_def wret_def wmod_def store_inv_heap)
  then show ?thesis by (simp add: pres_def)
qed

lemma note_failure_ids [simp]: "same_ids w (note_failure msg w)"
  by (simp add: note_failure_def same_ids_def)

lemma count_thread_ids [simp]: "same_ids w (count_thread w)"
  by (simp add: count_thread_def same_ids_def)

lemma routeNext_ids:
  assumes "routeNext W msg w = Inr (r, w')"
  shows "same_ids w w'"
proof -
  have "w' = w \<or> w' = note_failure msg w \<or> w' = count_thread (note_failure msg w)"
    using assms by (auto simp: routeNext_def Let_def rbind_Inr_conv split: if_splits)
  then show ?thesis using same_ids_trans [OF note_failure_ids count_thread_ids] by auto
qed

lemma routeNext_ID: "routeNext W msg w = Inr (r, w') \<Longrightarrow> s_ID w' = s_ID w"
  using routeNext_ids by (auto simp: same_ids_def)

lemma merge_export_ID: "merge_export W e w = Inr w' \<Longrightarrow> s_ID w' = s_ID w"
  by (auto simp: merge_export_def add_exported_def Let_def rbind_Inr_conv)

lemma pres_mergeContext [pres_intros]: "pres k (mergeContext W es a)"
  by (induction es) (auto intro!: pres_intros dest!: merge_export_ID)

lemma pres_postWorkflowExport [pres_intros]: "pres k (postWorkflowExport W a m e)"
  unfolding postWorkflowExport_def by (intro pres_intros) (auto dest!: merge_export_ID)

lemma pres_function_export [pres_intros]: "pres k (function_export W a f e)"
  unfolding function_export_def by (intro pres_intros) (auto simp: Let_def dest!: merge_export_ID split: if_splits)

lemma pres_export_body [pres_intros]: "pres k (export_body W a msg)"
  unfolding export_body_def Let_def by (intro pres_intros)

lemma pres_processExport [pres_intros]: "pres k (processExport W a msg)"
  unfolding processExport_def by (intro pres_intros)

lemma pres_fireCompleteHooks [pres_intros]:
  assumes self: "self_ok self" and a: "Suc a \<le> k"
  shows "pres k (fireCompleteHooks W self a msg)"
  unfolding fireCompleteHooks_def by (intro pres_intros) (simp_all add: self a)

text \<open>Closing a session is safe once its ID is not in the ID map.\<close>

lemma store_inv_close:
  assumes inv: "store_inv s" and gone: "IDMapGet (sessions s) (s_ID (heap s a)) = None" and w: "s_ID w = []"
  shows "store_inv (s\<lparr>heap := (heap s)(a := w)\<rparr>)"
proof -
  have "b \<noteq> a" if "IDMapGet (sessions s) k = Some b" for k b
    using inv that gone by (auto simp: store_inv_def)
  with inv show ?thesis by (auto simp: store_inv_def)
qed

lemma finish_inv:
  assumes "store_inv s"
  shows "store_inv (snd (finish a msg s))" and "fst (finish a msg s) = Done ()"
    and "heap (snd (finish a msg s)) = heap s" and "next_addr (snd (finish a msg s)) = next_addr s"
    and "sessions (snd (finish a msg s)) = IDMapDel (sessions s) (s_ID (heap s a))"
  using assms by (auto simp: finish_def Let_def store_inv_def idm.del_get idm.del_inv split: option.splits)

lemma pres_finish_close [pres_intros]: "pres k (wseq (finish a msg) (close_session a))"
proof -
  have "store_inv (snd (wseq (finish a msg) (close_session a) s)) \<and>
      next_addr s \<le> next_addr (snd (wseq (finish a msg) (close_session a) s))" if inv: "store_inv s" for s
  proof -
    obtain s' where s': "finish a msg s = (Done (), s')"
      using finish_inv(2) [OF inv, of a msg] by (cases "finish a msg s") auto
    with finish_inv(1,3-5) [OF inv, of a msg]
    have f: "store_inv s'" "heap s' = heap s" "next_addr s' = next_addr s"
      "sessions s' = IDMapDel (sessions s) (s_ID (heap s a))" by simp_all
    have "IDMapGet (sessions s') (s_ID (heap s' a)) = None"
      using f by (simp add: idm.del_get)
    with f s' store_inv_close [OF f(1)] show ?thesis
      by (simp add: wseq_def wbind_def close_session_def wmod_def)
  qed
  then show ?thesis by (simp add: pres_def)
qed

lemma pres_when_saved:
  assumes "pres k m"
  shows "pres k (wbind (\<lambda>s. (Done (is_saved a s), s)) (\<lambda>saved. if saved then m else close_session a))"
proof -
  have "store_inv (snd (close_session a s))" if inv: "store_inv s" and "\<not> is_saved a s" for s
  proof -
    have "IDMapGet (sessions s) (s_ID (heap s a)) = None"
      using that by (cases "IDMapGet (sessions s) (s_ID (heap s a))") (auto simp: is_saved_def store_inv_def)
    with store_inv_close [OF inv] show ?thesis by (simp add: close_session_def wmod_def)
  qed
  moreover have "next_addr (snd (close_session a s)) = next_addr s" for s
    by (simp add: close_session_def wmod_def)
  ultimately show ?thesis using assms by (auto simp: pres_def wbind_def)
qed

lemma pres_complete [pres_intros]:
  assumes self: "self_ok self" and a: "Suc a \<le> k"
  shows "pres k (complete W self a msg)"
  unfolding complete_def Let_def
  by (intro pres_wbind [OF pres_wget] pres_wseq pres_when_saved pres_intros) (simp_all add: self a)

lemma pres_onError [pres_intros]:
  assumes self: "self_ok self" and a: "Suc a \<le> k" and m: "pres k m"
  shows "pres k (onError W self a m)"
  unfolding onError_def by (intro pres_intros m) (simp_all add: self a)

lemma pres_continueAfterHook [pres_intros]:
  assumes self: "self_ok self" and a: "Suc a \<le> k"
  shows "pres k (continueAfterHook W self a msg)"
  unfolding continueAfterHook_def Let_def by (intro pres_intros self_okD [OF self]) (simp_all add: a)

lemma pres_next_parallel [pres_intros]: "Suc a \<le> k \<Longrightarrow> pres k (next_parallel a)"
  unfolding next_parallel_def by (intro pres_intros) simp_all

lemma pres_case_route [pres_intros]:
  "pres k m1 \<Longrightarrow> pres k m2 \<Longrightarrow> pres k m3 \<Longrightarrow> pres k m4 \<Longrightarrow> pres k m5 \<Longrightarrow> pres k m6 \<Longrightarrow>
    pres k (case r of WorkflowNextStep \<Rightarrow> m1 | WorkflowNextThread \<Rightarrow> m2 | WorkflowNextIteration \<Rightarrow> m3
      | WorkflowNextParallelIteration \<Rightarrow> m4 | WorkflowNextRound \<Rightarrow> m5 | WorkflowNextComplete \<Rightarrow> m6)"
  by (cases r) simp_all

lemma pres_continueExec:
  assumes self: "self_ok self" and a: "Suc a \<le> k"
  shows "pres k (continueExec W self a msg es)"
  unfolding continueExec_def
  by (intro pres_intros self_okD [OF self]) (use a in \<open>auto simp: self intro: routeNext_ID\<close>)

lemmas pres_calls = pres_execute pres_executeRound pres_executeIteration pres_executeAction
  pres_continueExec pres_complete

lemma run_ok: "self_ok (run W n)"
proof (induction n)
  case 0
  show ?case by (simp add: self_ok_def pres_wpanic)
next
  case (Suc n)
  have "pres (call_bound c) (dispatch W (run W n) c)" for c
    by (cases c) (simp_all add: dispatch_def pres_calls [OF Suc])
  then show ?case by (simp add: self_ok_def)
qed

lemma pres_run [pres_intros]: "call_bound c \<le> k \<Longrightarrow> pres k (run W n c)"
  using self_okD [OF run_ok] .

section \<open>Entry points and goroutines\<close>

lemma pres_ContinueSession: "pres k (ContinueSession W n i msg es)"
proof -
  have "store_inv (snd (m s)) \<and> next_addr s \<le> next_addr (snd (m s))"
    if inv: "store_inv s" and m: "m = (\<lambda>s. case IDMapGet (sessions s) i of
        None \<Rightarrow> (Panicked TypeAssertion, s)
      | Some a \<Rightarrow> onError W (run W n) a (run W n (CContinue a msg es)) s)" for s and m :: "unit wm"
  proof (cases "IDMapGet (sessions s) i")
    case None
    then show ?thesis using inv by (simp add: m)
  next
    case (Some a)
    with inv have "Suc a \<le> next_addr s" by (auto simp: store_inv_def Suc_le_eq)
    moreover have "pres (Suc a) (onError W (run W n) a (run W n (CContinue a msg es)))"
      by (intro pres_intros run_ok) simp_all
    ultimately show ?thesis using inv Some by (simp add: m pres_def)
  qed
  then show ?thesis
    unfolding ContinueSession_def by (intro pres_SafeExit) (auto simp: pres_def)
qed

lemma pres_ResumeSession: "pres k (ResumeSession W key msg)"
  unfolding ResumeSession_def
  by (intro pres_SafeExit) (auto simp: pres_def store_inv_def Let_def split: option.splits)

lemma pres_StartSession: "pres k (StartSession W n v msg ctx)"
  unfolding StartSession_def
  by (intro pres_SafeExit pres_wbind_addr [OF pres_addr_newSession] pres_intros)
    (auto simp: Watch_def dest!: prepare_ID)

lemma pres_emit_result [pres_intros]: "pres k (emit_result u r)"
  by (simp add: pres_def emit_result_def store_inv_def)

lemma pres_StartDynamicSession: "pres k (StartDynamicSession W n msg v)"
  unfolding StartDynamicSession_def Let_def
  by (intro pres_wcatch pres_wbind [OF pres_wlift] pres_wbind_addr [OF pres_addr_newSession] pres_intros)
    (auto dest!: prepare_ID)

lemma pres_saved_session [pres_intros]:
  assumes "Suc a \<le> k" and "pres k m"
  shows "pres k (saved_session W n a m)"
  unfolding saved_session_def by (intro pres_intros run_ok assms)

lemma pres_run_else [pres_intros]: "pres k (run_else W n a msg)"
  unfolding run_else_def by (intro pres_child pres_intros) simp_all

lemma pres_run_task:
  assumes "task_bound t \<le> k"
  shows "pres k (run_task W n t)"
  using assms unfolding run_task_def
  by (cases t)
    (auto intro!: pres_intros run_ok pres_ContinueSession pres_ResumeSession pres_start_timer pres_timer_fires
      pres_launchParallelIteration pres_run_thread pres_StartSession pres_StartDynamicSession)

lemma pres_run_pending: "pres k (run_pending W n i)"
proof -
  have "store_inv (snd (run_pending W n i s)) \<and> next_addr s \<le> next_addr (snd (run_pending W n i s))"
    if inv: "store_inv s" for s
  proof (cases "i < length (tasks s)")
    case True
    let ?s = "s\<lparr>tasks := take i (tasks s) @ drop (Suc i) (tasks s)\<rparr>"
    have inv': "store_inv ?s"
      using inv by (auto simp: store_inv_def dest: in_set_takeD in_set_dropD)
    have bound: "task_bound (tasks s ! i) \<le> next_addr ?s"
      using inv True by (simp add: store_inv_def)
    have "run_pending W n i s = run_task W n (tasks s ! i) ?s"
      using True by (simp add: run_pending_def)
    moreover obtain r t where rt: "run_task W n (tasks s ! i) ?s = (r, t)" by force
    moreover note presD [OF pres_run_task [OF order_refl] inv' bound rt]
    ultimately show ?thesis by simp
  qed (use inv in \<open>simp add: run_pending_def\<close>)
  then show ?thesis by (simp add: pres_def)
qed

text \<open>What may happen to the store, with any bound on the recursion in each step.\<close>

inductive store_step :: "wfenv \<Rightarrow> store \<Rightarrow> store \<Rightarrow> bool" for W where
  starts: "store_step W s (snd (StartSession W n v msg ctx s))"
| starts_dynamic: "store_step W s (snd (StartDynamicSession W n msg data s))"
| continues: "store_step W s (snd (ContinueSession W n i msg exports s))"
| resumes: "store_step W s (snd (ResumeSession W key msg s))"
| goroutine: "store_step W s (snd (run_pending W n i s))"

inductive store_reachable :: "wfenv \<Rightarrow> store \<Rightarrow> bool" for W where
  init: "store_reachable W (NewSessionStore blank)"
| step: "store_reachable W s \<Longrightarrow> store_step W s t \<Longrightarrow> store_reachable W t"

lemma store_step_inv: "store_step W s t \<Longrightarrow> store_inv s \<Longrightarrow> store_inv t"
proof (induction rule: store_step.induct)
  case (starts s n v msg ctx)
  then show ?case using pres_StartSession [of 0 W n v msg ctx] by (simp add: pres_def)
next
  case (starts_dynamic s n msg data)
  then show ?case using pres_StartDynamicSession [of 0 W n msg data] by (simp add: pres_def)
next
  case (continues s n i msg exports)
  then show ?case using pres_ContinueSession [of 0 W n i msg exports] by (simp add: pres_def)
next
  case (resumes s key msg)
  then show ?case using pres_ResumeSession [of 0 W key msg] by (simp add: pres_def)
next
  case (goroutine s n i)
  then show ?case using pres_run_pending [of 0 W n i] by (simp add: pres_def)
qed

lemma store_inv_init: "store_inv (NewSessionStore blank)"
  using InitIDMap_inv by (simp add: store_inv_def NewSessionStore_def IDMapGet_def InitIDMap_def)

lemma store_reachable_inv: "store_reachable W s \<Longrightarrow> store_inv s"
  by (induction rule: store_reachable.induct) (auto simp: store_inv_init intro: store_step_inv)

section \<open>Properties\<close>

text \<open>
  C3: in every state the session store can reach, whatever workflows, messages, panics and orders of
  goroutines led there, an ID of the store belongs to a session object that carries this ID, no object
  is saved under two IDs, and every goroutine that waits refers to an existing object.
\<close>

theorem store_ids_consistent:
  assumes "store_reachable W s"
  shows "(\<forall>k a. IDMapGet (sessions s) k = Some a \<longrightarrow> k \<noteq> [] \<and> a < next_addr s \<and> s_ID (heap s a) = k) \<and>
    (\<forall>k k' a. IDMapGet (sessions s) k = Some a \<longrightarrow> IDMapGet (sessions s) k' = Some a \<longrightarrow> k = k') \<and>
    (\<forall>t \<in> set (tasks s). task_bound t \<le> next_addr s)"
proof -
  have inv: "store_inv s" using assms by (rule store_reachable_inv)
  then have id: "s_ID (heap s a) = k" if "IDMapGet (sessions s) k = Some a" for k a
    using that by (simp add: store_inv_def)
  have "k = k'" if "IDMapGet (sessions s) k = Some a" "IDMapGet (sessions s) k' = Some a" for k k' a
    using id [OF that(1)] id [OF that(2)] by simp
  with inv show ?thesis by (auto simp: store_inv_def)
qed

definition sample_wfenv :: wfenv where
  "sample_wfenv = \<lparr>we = \<lparr>e_ext = no_ext, e_fuel = 5, e_ord = list_order\<rparr>,
     we_cfg = \<lparr>Systems = [], Rules = [], Drivers = None, Includes = [], Repos = [], Workflows = [], Contexts = None\<rparr>,
     we_daemonID = ''d'', we_decode = (\<lambda>_. Inr zero_workflow), we_labels = (\<lambda>_. None),
     we_text = (\<lambda>_. ''panic''), we_depth = 5\<rparr>"

definition blank_session :: Session where
  "blank_session = \<lparr>s_ID = [], s_EventID = [], s_workflow = zero_workflow, s_current = 0, s_iteration = 0,
      s_iterationOut = None, s_loopCount = 0, s_parent = [], s_ctx = None, s_event = None,
      s_exported = [], s_elseBranch = None, s_inFlyFunction = None, s_loadedContexts = [],
      s_currentHook = [], s_savedMsg = None, s_origMsg = None, s_performing = [], s_isHook = False,
      s_watched = False, s_cancelled = False\<rparr>"

text \<open>A session that calls a driver: started, and its goroutine run.\<close>

definition sample_driver_call :: Workflow where
  "sample_driver_call = upd_wd (\<lambda>d. d\<lparr>wf_CallDriver := ''web.get''\<rparr>) zero_workflow"

definition sample_store1 :: store where
  "sample_store1 = snd (StartSession sample_wfenv 9 sample_driver_call Success (Some []) (NewSessionStore blank_session))"

definition sample_store2 :: store where
  "sample_store2 = snd (run_pending sample_wfenv 9 0 sample_store1)"

lemma sample_store2_saved: "IDMapGet (sessions sample_store2) ''0'' = Some 0"
  by code_simp

lemma sample_store2_reachable: "store_reachable sample_wfenv sample_store2"
  unfolding sample_store2_def sample_store1_def
  by (rule store_reachable.step [OF store_reachable.step [OF store_reachable.init store_step.starts] store_step.goroutine])

theorem store_ids_consistent_witness: "s_ID (heap sample_store2 0) = ''0'' \<and> 0 < next_addr sample_store2"
  using store_ids_consistent [OF sample_store2_reachable] sample_store2_saved by blast

end
