(* ===== verification/EngineProps.thy ===== *)
theory EngineProps
  imports EngineInv
begin

text \<open>
  What the engine does with the return of a step, a thread or an item, how a session completes, how
  panics, hooks and waits are handled.
\<close>

section \<open>Routing\<close>

text \<open>A session whose action is not repeated.\<close>

definition runs_once :: "Session \<Rightarrow> bool" where
  "runs_once w \<longleftrightarrow> \<not> isIteration w \<and> \<not> isLoop w \<and> s_elseBranch w = None"

lemma note_failure_plain: "wf_IterateParallel (wfd w) = GNil \<Longrightarrow> note_failure msg w = w"
  by (simp add: note_failure_def)

lemma runs_once_parallel: "runs_once w \<Longrightarrow> wf_IterateParallel (wfd w) = GNil"
  by (simp add: runs_once_def isIteration_def)

lemma runs_once_current [simp]: "runs_once (w\<lparr>s_current := c\<rparr>) = runs_once w"
  "stops_on msg (w\<lparr>s_current := c\<rparr>) = stops_on msg w"
  "num_threads (w\<lparr>s_current := c\<rparr>) = num_threads w" "num_steps (w\<lparr>s_current := c\<rparr>) = num_steps w"
  by (simp_all add: runs_once_def isIteration_def isLoop_def stops_on_def num_threads_def num_steps_def)

lemma routeNext_thread:
  assumes "runs_once w" and "num_steps w = 0" and "\<not> stops_on msg w" and "num_threads w > 0"
  shows "routeNext W msg w = Inr (if Suc (s_current w) < num_threads w then WorkflowNextThread else WorkflowNextComplete,
    w\<lparr>s_current := Suc (s_current w)\<rparr>)"
proof -
  let ?w = "w\<lparr>s_current := Suc (s_current w)\<rparr>"
  have w: "note_failure msg w = w" "s_elseBranch w = None" "count_thread w = ?w" "num_threads ?w = num_threads w" "s_current ?w = Suc (s_current w)"
    using assms by (simp_all add: note_failure_plain runs_once_parallel count_thread_def) (simp add: runs_once_def)
  have "runs_once ?w" using assms(1) by simp
  then have "\<not> isIteration ?w" "\<not> isLoop ?w" unfolding runs_once_def by blast+
  with w assms(2-4) show ?thesis by (simp add: routeNext_def Let_def)
qed

lemma routeNext_stops: "stops_on msg w \<Longrightarrow> routeNext W msg w = Inr (WorkflowNextComplete, w)"
  by (simp add: routeNext_def)

lemma routeNext_step:
  assumes "runs_once w" and "num_threads w = 0" and "\<not> stops_on msg w" and "num_steps w > 0"
  shows "routeNext W msg w = Inr (if Suc (s_current w) < num_steps w then WorkflowNextStep else WorkflowNextComplete, w)"
  using assms
  by (simp add: routeNext_def Let_def note_failure_plain runs_once_parallel count_thread_def runs_once_def)

section \<open>Computations that only touch the context of one session\<close>

definition quiet :: "nat \<Rightarrow> store \<Rightarrow> store \<Rightarrow> bool" where
  "quiet a s t \<longleftrightarrow> sessions t = sessions s \<and> tasks t = tasks s \<and> outbox t = outbox s \<and> results t = results s \<and>
     suspendedSessions t = suspendedSessions s \<and> next_addr t = next_addr s \<and>
     same_ids (heap s a) (heap t a) \<and> (\<forall>b. b \<noteq> a \<longrightarrow> heap t b = heap s b)"

definition quietly :: "nat \<Rightarrow> 'a wm \<Rightarrow> bool" where
  "quietly a m \<longleftrightarrow> (\<forall>s. quiet a s (snd (m s)))"

named_theorems quiet_intros "rules for computations that only touch the context of one session"

lemma quiet_refl [simp]: "quiet a s s"
  by (simp add: quiet_def)

lemma quiet_trans: "quiet a s t \<Longrightarrow> quiet a t u \<Longrightarrow> quiet a s u"
  by (auto simp: quiet_def intro: same_ids_trans)

lemma quietly_wbind [quiet_intros]: "quietly a m \<Longrightarrow> (\<And>x. quietly a (f x)) \<Longrightarrow> quietly a (wbind m f)"
  unfolding quietly_def
proof
  fix s assume m: "\<forall>s. quiet a s (snd (m s))" and f: "\<And>x. \<forall>s. quiet a s (snd (f x s))"
  obtain r t where r: "m s = (r, t)" by force
  with m have "quiet a s t" by (metis snd_conv)
  with r f show "quiet a s (snd (wbind m f s))"
    by (cases r) (auto simp: wbind_def intro: quiet_trans)
qed

lemma quietly_wseq [quiet_intros]: "quietly a m \<Longrightarrow> quietly a n \<Longrightarrow> quietly a (wseq m n)"
  by (simp add: wseq_def quietly_wbind)

lemma quietly_basic [quiet_intros]:
  "quietly a (wret x)" "quietly a (wpanic e)" "quietly a (wget b)" "quietly a (wlift r)" "quietly a skip"
  by (simp_all add: quietly_def wret_def wpanic_def wget_def skip_def wlift_def split: sum.splits)

lemma quietly_wmodr [quiet_intros]:
  assumes "\<And>w w'. f w = Inr w' \<Longrightarrow> same_ids w w'"
  shows "quietly a (wmodr a f)"
  unfolding quietly_def
proof
  fix s
  show "quiet a s (snd (wmodr a f s))"
    using assms [of "heap s a"]
    by (cases "f (heap s a)")
      (auto simp: wmodr_def wbind_def wget_def wlift_def wpanic_def wret_def wmod_def quiet_def)
qed

lemma quietly_if [quiet_intros]: "(b \<Longrightarrow> quietly a m) \<Longrightarrow> (\<not> b \<Longrightarrow> quietly a n) \<Longrightarrow> quietly a (if b then m else n)"
  by simp

lemma quietly_case_option [quiet_intros]:
  "(x = None \<Longrightarrow> quietly a m) \<Longrightarrow> (\<And>y. x = Some y \<Longrightarrow> quietly a (f y)) \<Longrightarrow> quietly a (case x of None \<Rightarrow> m | Some y \<Rightarrow> f y)"
  by (cases x) simp_all

lemma quietly_case_prod [quiet_intros]: "(\<And>x y. p = (x, y) \<Longrightarrow> quietly a (f x y)) \<Longrightarrow> quietly a (case p of (x, y) \<Rightarrow> f x y)"
  by (cases p) simp

lemma quietly_wcatch [quiet_intros]:
  assumes m: "quietly a m" and h: "\<And>e. quietly a (h e)"
  shows "quietly a (wcatch m h)"
  unfolding quietly_def
proof
  fix s
  obtain r t where r: "m s = (r, t)" by force
  with m have "quiet a s t" by (metis quietly_def snd_conv)
  with r h show "quiet a s (snd (wcatch m h s))"
    by (cases r) (auto simp: wcatch_def quietly_def intro: quiet_trans)
qed

lemma merge_export_ids: "merge_export W e w = Inr w' \<Longrightarrow> same_ids w w'"
  by (auto simp: merge_export_def add_exported_def Let_def rbind_Inr_conv same_ids_def)

lemma quietly_postWorkflowExport [quiet_intros]: "quietly a (postWorkflowExport W a m e)"
  unfolding postWorkflowExport_def by (intro quiet_intros) (rule merge_export_ids)

lemma quietly_function_export [quiet_intros]: "quietly a (function_export W a f e)"
  unfolding function_export_def
  by (intro quiet_intros) (auto simp: Let_def same_ids_def dest!: merge_export_ids split: if_splits)

lemma quietly_export_body [quiet_intros]: "quietly a (export_body W a msg)"
  unfolding export_body_def Let_def by (intro quiet_intros)

lemma quietly_processExport: "quietly a (processExport W a msg)"
  unfolding processExport_def by (intro quiet_intros)

section \<open>Running computations\<close>

lemma upt_join: "i \<le> j \<Longrightarrow> j \<le> k \<Longrightarrow> [i..<j] @ [j..<k] = [i..<k]"
  by (metis le_Suc_ex upt_add_eq_append)

lemma upt_min_step:
  "(if i < (l :: nat) then [i] else []) @ [min (Suc i) l..<min (Suc i + n) l] = [min i l..<min (i + Suc n) l]"
  by (cases "i < l") (simp_all add: upt_conv_Cons [of i] del: upt_Suc)

lemmas wm_defs = wbind_def wseq_def wget_def wmod_def wret_def skip_def wlift_def wpanic_def spawn_def
  wstep_def wmodr_def

lemma wseq_Done: "m s = (Done (), t) \<Longrightarrow> wseq m n s = n t"
  by (simp add: wseq_def wbind_def)

lemma wbind_Done: "m s = (Done x, t) \<Longrightarrow> wbind m f s = f x t"
  by (simp add: wbind_def)

text \<open>Running a computation on a store.\<close>

lemma wm_exec:
  "wbind (wget a) f s = f (heap s a) s"
  "wbind (wlift r) f2 s = (case r of Inl e \<Rightarrow> (Panicked e, s) | Inr x \<Rightarrow> f2 x s)"
  "wbind (wstep a g) h s = (case g (heap s a) of Inl e \<Rightarrow> (Panicked e, s)
     | Inr (x, w) \<Rightarrow> h x (s\<lparr>heap := (heap s)(a := w)\<rparr>))"
  "wseq (wmod a k) n s = n (s\<lparr>heap := (heap s)(a := k (heap s a))\<rparr>)"
  "wseq skip n s = n s"
  "wseq (spawn t) n s = n (s\<lparr>tasks := tasks s @ [t]\<rparr>)"
  "wseq (wbind (wget a) l) n s = wseq (l (heap s a)) n s"
  "wseq (wbind (wlift q) l2) n s = (case q of Inl e \<Rightarrow> (Panicked e, s) | Inr x \<Rightarrow> wseq (l2 x) n s)"
  "wmod a k s = (Done (), s\<lparr>heap := (heap s)(a := k (heap s a))\<rparr>)"
  "skip s = (Done (), s)"
  "spawn t s = (Done (), s\<lparr>tasks := tasks s @ [t]\<rparr>)"
  by (auto simp: wm_defs split: sum.splits)

section \<open>Taking over what a child exports\<close>

definition take_over :: "wfenv \<Rightarrow> nat \<Rightarrow> gmap list \<Rightarrow> unit wm" where
  "take_over W a es = wseq (wmod a (del_ctx ''_wait_timer'')) (mergeContext W es a)"

text \<open>The context after the exports of some children, one after the other; a merge may panic.\<close>

fun merge_ctx :: "wfenv \<Rightarrow> gmap list \<Rightarrow> gmap option \<Rightarrow> gmap option res" where
  "merge_ctx W [] c = Inr c"
| "merge_ctx W (e # es) c = rbind (merge_map (we W) c (GMap e)) (merge_ctx W es)"

fun ctx_after :: "wfenv \<Rightarrow> gmap list list \<Rightarrow> gmap option \<Rightarrow> gmap option res" where
  "ctx_after W [] c = Inr c"
| "ctx_after W (es # ess) c = rbind (merge_ctx W es (map_option (mdel ''_wait_timer'') c)) (ctx_after W ess)"

lemma ctx_after_append: "ctx_after W (ess @ ess') c = rbind (ctx_after W ess c) (ctx_after W ess')"
proof (induction ess arbitrary: c)
  case (Cons es ess)
  then have "ctx_after W (ess @ ess') = (\<lambda>x. rbind (ctx_after W ess x) (ctx_after W ess'))" by blast
  then show ?case by (simp add: rbind_assoc)
qed simp

lemma ctx_after_single [simp]: "ctx_after W [es] c = merge_ctx W es (map_option (mdel ''_wait_timer'') c)"
  by (cases "merge_ctx W es (map_option (mdel ''_wait_timer'') c)") simp_all

definition with_ctx :: "nat \<Rightarrow> gmap option \<Rightarrow> gmap list \<Rightarrow> store \<Rightarrow> store" where
  "with_ctx a c xs s = s\<lparr>heap := (heap s)(a := (heap s a)\<lparr>s_ctx := c, s_exported := xs\<rparr>)\<rparr>"

lemma with_ctx_sel [simp]:
  "tasks (with_ctx a c xs s) = tasks s" "outbox (with_ctx a c xs s) = outbox s" "sessions (with_ctx a c xs s) = sessions s"
  "next_addr (with_ctx a c xs s) = next_addr s" "heap (with_ctx a c xs s) a = (heap s a)\<lparr>s_ctx := c, s_exported := xs\<rparr>"
  "with_ctx a c xs (with_ctx a c' xs' s) = with_ctx a c xs s"
  by (simp_all add: with_ctx_def)

lemma with_ctx_same: "with_ctx a (s_ctx (heap s a)) (s_exported (heap s a)) s = s"
  by (simp add: with_ctx_def)

lemma merge_export_with_ctx:
  "wmodr a (merge_export W e) s = (case merge_map (we W) (s_ctx (heap s a)) (GMap e) of
      Inl e \<Rightarrow> (Panicked e, s)
    | Inr c \<Rightarrow> (Done (), with_ctx a c (let e' = processNoExport (heap s a) e in if e' \<noteq> [] then s_exported (heap s a) @ [e'] else s_exported (heap s a)) s))"
proof (cases "merge_map (we W) (s_ctx (heap s a)) (GMap e)")
  case (Inr c)
  have "w\<lparr>s_ctx := c, s_exported := s_exported w\<rparr> = w\<lparr>s_ctx := c\<rparr>" for w :: Session by simp
  with Inr show ?thesis
    by (simp add: wm_defs merge_export_def add_exported_def processNoExport_def with_ctx_def Let_def)
qed (simp add: wm_defs merge_export_def)

lemma mergeContext_with_ctx:
  "\<exists>c xs. mergeContext W es a s = (case merge_ctx W es (s_ctx (heap s a)) of Inl e \<Rightarrow> (Panicked e, with_ctx a c xs s) | Inr c' \<Rightarrow> (Done (), with_ctx a c' xs s))"
proof (induction es arbitrary: s)
  case Nil
  show ?case by (intro exI [of _ "s_ctx (heap s a)"] exI [of _ "s_exported (heap s a)"]) (simp add: with_ctx_same skip_def wret_def)
next
  case (Cons e es)
  show ?case
  proof (cases "merge_map (we W) (s_ctx (heap s a)) (GMap e)")
    case (Inl e')
    then show ?thesis
      by (intro exI [of _ "s_ctx (heap s a)"] exI [of _ "s_exported (heap s a)"]) (simp add: with_ctx_same merge_export_with_ctx wseq_def wbind_def)
  next
    case (Inr c)
    define s1 where "s1 = snd (wmodr a (merge_export W e) s)"
    obtain xs where s1: "wmodr a (merge_export W e) s = (Done (), s1)" "s1 = with_ctx a c xs s"
      using Inr by (simp add: s1_def merge_export_with_ctx)
    have same: "with_ctx a c' xs' s1 = with_ctx a c' xs' s" "s_ctx (heap s1 a) = c" for c' xs' by (simp_all add: s1(2))
    obtain c2 xs2 where "mergeContext W es a s1 =
        (case merge_ctx W es c of Inl e \<Rightarrow> (Panicked e, with_ctx a c2 xs2 s) | Inr c' \<Rightarrow> (Done (), with_ctx a c' xs2 s))"
      using Cons.IH [of s1] unfolding same by blast
    then show ?thesis using s1(1) Inr by (intro exI [of _ c2] exI [of _ xs2]) (simp add: wseq_def wbind_def)
  qed
qed

lemma take_over_with_ctx:
  "\<exists>c xs. take_over W a es s = (case ctx_after W [es] (s_ctx (heap s a)) of Inl e \<Rightarrow> (Panicked e, with_ctx a c xs s) | Inr c' \<Rightarrow> (Done (), with_ctx a c' xs s))"
proof -
  let ?s = "s\<lparr>heap := (heap s)(a := del_ctx ''_wait_timer'' (heap s a))\<rparr>"
  have "with_ctx a c xs ?s = with_ctx a c xs s" for c xs by (simp add: with_ctx_def del_ctx_def)
  moreover have "s_ctx (heap ?s a) = map_option (mdel ''_wait_timer'') (s_ctx (heap s a))" by (simp add: del_ctx_def)
  moreover have "take_over W a es s = mergeContext W es a ?s" by (simp add: take_over_def wseq_def wbind_def wmod_def)
  ultimately show ?thesis using mergeContext_with_ctx [of W es a ?s] by (simp only: ctx_after_single)
qed

lemma take_over_cases:
  obtains e c xs where "take_over W a es s = (Panicked e, with_ctx a c xs s)"
    | c xs where "take_over W a es s = (Done (), with_ctx a c xs s)"
  using take_over_with_ctx [of W a es s] by (cases "ctx_after W [es] (s_ctx (heap s a))") auto

lemma take_over_Done:
  assumes "ctx_after W [es] (s_ctx (heap s a)) = Inr c"
  obtains xs where "take_over W a es s = (Done (), with_ctx a c xs s)"
  using take_over_with_ctx [of W a es s] assms by auto

text \<open>\<open>continueExec\<close> of a session without a hook in progress: take over, route, go on.\<close>

definition go_on :: "wfenv \<Rightarrow> caller \<Rightarrow> nat \<Rightarrow> Message \<Rightarrow> route \<Rightarrow> unit wm" where
  "go_on W self a msg route = (case route of
        WorkflowNextStep \<Rightarrow> wseq (wmod a (\<lambda>w. w\<lparr>s_current := Suc (s_current w)\<rparr>)) (executeStep W self a msg)
      | WorkflowNextThread \<Rightarrow> skip
      | WorkflowNextIteration \<Rightarrow> wseq (wmod a (\<lambda>w. w\<lparr>s_iteration := Suc (s_iteration w)\<rparr>)) (self (CIteration a msg))
      | WorkflowNextParallelIteration \<Rightarrow> next_parallel a
      | WorkflowNextRound \<Rightarrow> wseq (wmod a (\<lambda>w. w\<lparr>s_loopCount := Suc (s_loopCount w)\<rparr>)) (self (CRound a msg))
      | WorkflowNextComplete \<Rightarrow> self (CComplete a msg))"

lemma continueExec_take_over:
  "continueExec W self a msg es = wseq (take_over W a es) (wbind (wget a) (\<lambda>w.
     if s_currentHook w \<noteq> [] then continueAfterHook W self a msg else wbind (wstep a (routeNext W msg)) (go_on W self a msg)))"
  unfolding continueExec_def take_over_def wseq_assoc go_on_def [abs_def] ..

lemma continueExec_routed:
  assumes "take_over W a es s = (Done (), t)" and "s_currentHook (heap t a) = []" and "routeNext W msg (heap t a) = Inr (r, w)"
  shows "continueExec W self a msg es s = go_on W self a msg r (t\<lparr>heap := (heap t)(a := w)\<rparr>)"
  using assms by (simp add: continueExec_take_over wseq_def wbind_def wget_def wstep_def wlift_def wret_def wmod_def)

text \<open>The returns of the children of a session, handled one after the other.\<close>

fun continue_all :: "wfenv \<Rightarrow> caller \<Rightarrow> nat \<Rightarrow> (Message \<times> gmap list) list \<Rightarrow> unit wm" where
  "continue_all W self a [] = skip"
| "continue_all W self a ((m, es) # rs) = wseq (continueExec W self a m es) (continue_all W self a rs)"

lemma spawn_all_tasks: "spawn_all ts s = (Done (), s\<lparr>tasks := tasks s @ ts\<rparr>)"
  by (induction ts arbitrary: s) (simp_all add: wm_defs)

section \<open>Parallel iterations\<close>

text \<open>A session that iterates over \<open>items\<close> in parallel, in a pool of \<open>p\<close>, and nothing else.\<close>

definition par_session :: "gval list \<Rightarrow> nat \<Rightarrow> Session \<Rightarrow> bool" where
  "par_session items p w \<longleftrightarrow> items \<noteq> [] \<and> p > 0 \<and> wf_Iterate (wfd w) = GNil \<and>
     wf_IterateParallel (wfd w) = GList items \<and> atoi (wf_IteratePool (wfd w)) = Some (int p) \<and>
     Steps (s_workflow w) = None \<and> Threads (s_workflow w) = None \<and> \<not> isLoop w \<and>
     s_elseBranch w = None \<and> s_currentHook w = []"

lemma par_session_cong:
  "s_workflow w' = s_workflow w \<Longrightarrow> s_elseBranch w' = s_elseBranch w \<Longrightarrow> s_currentHook w' = s_currentHook w \<Longrightarrow>
    par_session items p w' = par_session items p w"
  by (simp add: par_session_def isLoop_def)

lemma del_ctx_more [simp]: "s_elseBranch (del_ctx k w) = s_elseBranch w" "s_iteration (del_ctx k w) = s_iteration w"
  "s_current (del_ctx k w) = s_current w"
  by (simp_all add: del_ctx_def)

lemma note_failure_sel [simp]: "s_workflow (note_failure m w) = s_workflow w"
  "s_elseBranch (note_failure m w) = s_elseBranch w" "s_currentHook (note_failure m w) = s_currentHook w"
  "s_iteration (note_failure m w) = s_iteration w" "s_current (note_failure m w) = s_current w"
  by (simp_all add: note_failure_def)

lemma routeNext_parallel:
  assumes "par_session items p w"
  shows "routeNext W msg w =
    Inr (if Suc (s_iteration w) < length items then WorkflowNextParallelIteration else WorkflowNextComplete,
         note_failure msg w)"
  using assms
  by (auto simp: routeNext_def Let_def par_session_def stops_on_def num_steps_def num_threads_def count_thread_def
      isIteration_def lenOfIterate_def reflect_len_def isLoop_def)

lemma par_session_sel [simp]:
  "par_session items p (w\<lparr>s_ctx := c, s_exported := xs\<rparr>) = par_session items p w"
  "par_session items p (w\<lparr>s_origMsg := om\<rparr>) = par_session items p w"
  by (rule par_session_cong; simp)+

text \<open>The session after a return, and the goroutine it starts.\<close>

definition par_next :: "Message \<Rightarrow> Session \<Rightarrow> Session" where
  "par_next msg w = (note_failure msg w)\<lparr>s_iteration := Suc (s_iteration w)\<rparr>"

lemma par_session_next [simp]: "par_session items p (par_next msg w) = par_session items p w" "s_ctx (par_next msg w) = s_ctx w"
  by (intro par_session_cong) (simp_all add: par_next_def note_failure_def)

lemma atoi_nonempty: "atoi s = Some i \<Longrightarrow> s \<noteq> []"
  by (auto simp: atoi_def)

lemma next_parallel_pool:
  assumes "par_session items p (heap s a)"
  shows "next_parallel a s = (Done (), s\<lparr>heap := (heap s)(a := (heap s a)\<lparr>s_iteration := Suc (s_iteration (heap s a))\<rparr>),
    tasks := tasks s @ (if p + s_iteration (heap s a) < length items then [TParallel a (p + s_iteration (heap s a))] else [])\<rparr>)"
proof -
  have "atoi (wf_IteratePool (wfd (heap s a))) = Some (int p)" "wf_IteratePool (wfd (heap s a)) \<noteq> []" "p > 0"
    "lenOfIterate (heap s a) = Inr (length items)"
    using assms atoi_nonempty by (auto simp: par_session_def lenOfIterate_def reflect_len_def)
  then show ?thesis by (simp add: next_parallel_def wm_exec)
qed

lemma continue_parallel:
  assumes "par_session items p (heap s a)" and "Suc (s_iteration (heap s a)) < length items" and "ctx_after W [es] (s_ctx (heap s a)) = Inr c"
  obtains xs where "continueExec W self a msg es s = (Done (), s\<lparr>heap := (heap s)(a := par_next msg ((heap s a)\<lparr>s_ctx := c, s_exported := xs\<rparr>)),
    tasks := tasks s @ (if p + s_iteration (heap s a) < length items then [TParallel a (p + s_iteration (heap s a))] else [])\<rparr>)"
proof -
  obtain xs where took: "take_over W a es s = (Done (), with_ctx a c xs s)" by (rule take_over_Done [OF assms(3)])
  let ?w = "(heap s a)\<lparr>s_ctx := c, s_exported := xs\<rparr>"
  have par: "par_session items p ?w" "par_session items p (note_failure msg ?w)"
    using assms(1) par_session_cong [of "note_failure msg ?w" ?w items p] by simp_all
  then have "s_currentHook ?w = []" by (simp add: par_session_def)
  moreover have "routeNext W msg ?w = Inr (WorkflowNextParallelIteration, note_failure msg ?w)"
    using routeNext_parallel [OF par(1), of W msg] assms(2) by simp
  ultimately have "continueExec W self a msg es s = next_parallel a ((with_ctx a c xs s)\<lparr>heap := (heap s)(a := note_failure msg ?w)\<rparr>)"
    using continueExec_routed [OF took, where self = self] by (simp add: go_on_def with_ctx_def)
  with next_parallel_pool [where s = "(with_ctx a c xs s)\<lparr>heap := (heap s)(a := note_failure msg ?w)\<rparr>"] par(2) show ?thesis
    by (intro that [of xs]) (simp add: par_next_def with_ctx_def)
qed

lemma continue_parallel_last:
  assumes "par_session items p (heap s a)" and "Suc (s_iteration (heap s a)) = length items" and "ctx_after W [es] (s_ctx (heap s a)) = Inr c"
  shows "\<exists>u. continueExec W self a msg es s = self (CComplete a msg) u \<and> tasks u = tasks s \<and> s_ctx (heap u a) = c"
proof -
  obtain xs where took: "take_over W a es s = (Done (), with_ctx a c xs s)" by (rule take_over_Done [OF assms(3)])
  let ?w = "(heap s a)\<lparr>s_ctx := c, s_exported := xs\<rparr>"
  have par: "par_session items p ?w" using assms(1) by simp
  then have "s_currentHook ?w = []" by (simp add: par_session_def)
  moreover have "routeNext W msg ?w = Inr (WorkflowNextComplete, note_failure msg ?w)"
    using routeNext_parallel [OF par, of W msg] assms(2) by simp
  ultimately have "continueExec W self a msg es s = self (CComplete a msg) ((with_ctx a c xs s)\<lparr>heap := (heap s)(a := note_failure msg ?w)\<rparr>)"
    using continueExec_routed [OF took, where self = self] by (simp add: go_on_def with_ctx_def)
  then show ?thesis by (intro exI conjI, assumption) (simp_all add: note_failure_def)
qed

lemma continue_all_parallel:
  assumes "par_session items p (heap s a)" and "s_iteration (heap s a) + length rs < length items" and "ctx_after W (map snd rs) (s_ctx (heap s a)) = Inr c"
  shows "\<exists>t. continue_all W self a rs s = (Done (), t) \<and> par_session items p (heap t a) \<and> s_ctx (heap t a) = c \<and>
    s_iteration (heap t a) = s_iteration (heap s a) + length rs \<and>
    tasks t = tasks s @ map (TParallel a) [min (p + s_iteration (heap s a)) (length items)..<
      min (p + s_iteration (heap s a) + length rs) (length items)]"
  using assms
proof (induction rs arbitrary: s)
  case Nil
  then show ?case by (simp add: skip_def wret_def)
next
  case (Cons r rs)
  obtain m es where r: "r = (m, es)" by force
  obtain c1 where c1: "ctx_after W [es] (s_ctx (heap s a)) = Inr c1" "ctx_after W (map snd rs) c1 = Inr c"
    using Cons.prems(3) by (auto simp: r rbind_Inr_conv rbind_Inr_right)
  let ?i = "s_iteration (heap s a)"
  have "Suc ?i < length items" using Cons.prems(2) by simp
  from continue_parallel [OF Cons.prems(1) this c1(1), of self m] obtain xs where step: "continueExec W self a m es s =
    (Done (), s\<lparr>heap := (heap s)(a := par_next m ((heap s a)\<lparr>s_ctx := c1, s_exported := xs\<rparr>)),
      tasks := tasks s @ (if p + ?i < length items then [TParallel a (p + ?i)] else [])\<rparr>)" by metis
  define s1 where "s1 = s\<lparr>heap := (heap s)(a := par_next m ((heap s a)\<lparr>s_ctx := c1, s_exported := xs\<rparr>)),
    tasks := tasks s @ (if p + ?i < length items then [TParallel a (p + ?i)] else [])\<rparr>"
  have i: "s_iteration (heap s1 a) = Suc ?i" "par_session items p (heap s1 a)" "s_ctx (heap s1 a) = c1"
    using Cons.prems(1) by (simp_all add: s1_def) (simp add: par_next_def)
  obtain t where t: "continue_all W self a rs s1 = (Done (), t)" "par_session items p (heap t a)" "s_ctx (heap t a) = c"
    "s_iteration (heap t a) = Suc ?i + length rs"
    "tasks t = tasks s1 @ map (TParallel a) [min (p + Suc ?i) (length items)..<min (p + Suc ?i + length rs) (length items)]"
    using Cons.IH [of s1] Cons.prems(2) i c1(2) by auto
  have "tasks t = tasks s @ map (TParallel a) ((if p + ?i < length items then [p + ?i] else []) @
      [min (Suc (p + ?i)) (length items)..<min (Suc (p + ?i) + length rs) (length items)])"
    unfolding t(5) by (simp add: s1_def)
  then have "tasks t = tasks s @ map (TParallel a)
      [min (p + ?i) (length items)..<min (p + ?i + Suc (length rs)) (length items)]"
    unfolding upt_min_step .
  with t step show ?case by (simp add: r wseq_def wbind_def s1_def [symmetric])
qed

lemma launch_parallel:
  assumes "par_session items p (heap s a)"
  shows "launchParallelIterations a msg s = (Done (), s\<lparr>heap := (heap s)(a := (heap s a)\<lparr>s_origMsg := Some msg\<rparr>),
    tasks := tasks s @ map (TParallel a) [0..<min p (length items)]\<rparr>)"
proof -
  have "poolCount (heap s a) (length items) = Inr (min p (length items))"
    using assms atoi_nonempty by (auto simp: poolCount_def par_session_def min_def)
  then show ?thesis
    using assms
    by (simp add: launchParallelIterations_def spawn_all_tasks reflect_len_def par_session_def wm_defs)
qed

section \<open>Threads\<close>

text \<open>A session whose action is a list of threads, run once.\<close>

definition thread_session :: "Session \<Rightarrow> bool" where
  "thread_session w \<longleftrightarrow> runs_once w \<and> num_steps w = 0 \<and> num_threads w > 0 \<and> s_currentHook w = []"

lemma runs_once_ctx [simp]: "runs_once (w\<lparr>s_ctx := c, s_exported := xs\<rparr>) = runs_once w"
  "stops_on msg (w\<lparr>s_ctx := c, s_exported := xs\<rparr>) = stops_on msg w"
  "num_threads (w\<lparr>s_ctx := c, s_exported := xs\<rparr>) = num_threads w" "num_steps (w\<lparr>s_ctx := c, s_exported := xs\<rparr>) = num_steps w"
  by (simp_all add: runs_once_def isIteration_def isLoop_def stops_on_def num_threads_def num_steps_def)

lemma thread_session_upd [simp]:
  "thread_session (w\<lparr>s_ctx := c, s_exported := xs\<rparr>) = thread_session w" "thread_session (w\<lparr>s_current := k\<rparr>) = thread_session w"
  by (simp_all add: thread_session_def)

text \<open>The session after the return of a thread.\<close>

definition thread_returned :: "nat \<Rightarrow> gmap option \<Rightarrow> gmap list \<Rightarrow> store \<Rightarrow> store" where
  "thread_returned a c xs s = s\<lparr>heap := (heap s)(a := (heap s a)\<lparr>s_ctx := c, s_exported := xs, s_current := Suc (s_current (heap s a))\<rparr>)\<rparr>"

lemma continue_thread:
  assumes "thread_session (heap s a)" and "ctx_after W [es] (s_ctx (heap s a)) = Inr c"
  obtains xs u where "continueExec W self a msg es s =
      (if stops_on msg (heap s a) \<or> num_threads (heap s a) \<le> Suc (s_current (heap s a)) then self (CComplete a msg) u else (Done (), thread_returned a c xs s))"
    "tasks u = tasks s" "outbox u = outbox s" "s_ctx (heap u a) = c"
proof -
  obtain xs where took: "take_over W a es s = (Done (), with_ctx a c xs s)" by (rule take_over_Done [OF assms(2)])
  let ?w = "(heap s a)\<lparr>s_ctx := c, s_exported := xs\<rparr>"
  have w: "runs_once ?w" "num_steps ?w = 0" "num_threads ?w > 0" "s_currentHook ?w = []" "s_current ?w = s_current (heap s a)"
    "num_threads ?w = num_threads (heap s a)" "stops_on msg ?w = stops_on msg (heap s a)"
    using assms(1) by (simp_all add: thread_session_def)
  show ?thesis
  proof (cases "stops_on msg (heap s a)")
    case True
    then have "routeNext W msg ?w = Inr (WorkflowNextComplete, ?w)" by (intro routeNext_stops) (simp add: w)
    then have "continueExec W self a msg es s = self (CComplete a msg) (with_ctx a c xs s)"
      using continueExec_routed [OF took, where self = self and msg = msg and w = ?w] w(4) by (simp add: go_on_def with_ctx_def)
    with True show ?thesis by (intro that [of "with_ctx a c xs s" xs]) simp_all
  next
    case False
    let ?w' = "?w\<lparr>s_current := Suc (s_current (heap s a))\<rparr>"
    have "routeNext W msg ?w = Inr (if Suc (s_current (heap s a)) < num_threads (heap s a) then WorkflowNextThread else WorkflowNextComplete, ?w')"
      using routeNext_thread [OF w(1,2), of msg W] w(3,5,6,7) False by simp
    then have "continueExec W self a msg es s = go_on W self a msg (if Suc (s_current (heap s a)) < num_threads (heap s a) then WorkflowNextThread else WorkflowNextComplete)
        (thread_returned a c xs s)"
      using continueExec_routed [OF took, where self = self and msg = msg and w = ?w'] w(4) by (simp add: with_ctx_def thread_returned_def)
    with False show ?thesis
      by (intro that [of "thread_returned a c xs s" xs]) (auto simp: go_on_def skip_def wret_def thread_returned_def)
  qed
qed

lemma continue_all_threads:
  assumes "thread_session (heap s a)" and "s_current (heap s a) + length rs < num_threads (heap s a)"
    and "list_all (\<lambda>r. \<not> stops_on (fst r) (heap s a)) rs" and "ctx_after W (map snd rs) (s_ctx (heap s a)) = Inr c"
  shows "\<exists>t. continue_all W self a rs s = (Done (), t) \<and> thread_session (heap t a) \<and> s_ctx (heap t a) = c \<and>
    s_current (heap t a) = s_current (heap s a) + length rs \<and> s_workflow (heap t a) = s_workflow (heap s a) \<and>
    tasks t = tasks s \<and> outbox t = outbox s"
  using assms
proof (induction rs arbitrary: s)
  case Nil
  then show ?case by (simp add: skip_def wret_def)
next
  case (Cons r rs)
  obtain m es where r: "r = (m, es)" by force
  obtain c1 where c1: "ctx_after W [es] (s_ctx (heap s a)) = Inr c1" "ctx_after W (map snd rs) c1 = Inr c"
    using Cons.prems(4) by (auto simp: r rbind_Inr_conv)
  from continue_thread [OF Cons.prems(1) c1(1), of self m] Cons.prems(2,3) obtain xs where
    step: "continueExec W self a m es s = (Done (), thread_returned a c1 xs s)"
    by (auto simp: r split: if_splits)
  let ?s = "thread_returned a c1 xs s"
  have wf: "s_workflow (heap ?s a) = s_workflow (heap s a)" by (simp add: thread_returned_def)
  then have "stops_on m' (heap ?s a) = stops_on m' (heap s a)" "num_threads (heap ?s a) = num_threads (heap s a)" for m'
    by (simp_all add: stops_on_def num_threads_def)
  moreover have "thread_session (heap ?s a)" using Cons.prems(1) by (simp add: thread_returned_def)
  moreover have "s_current (heap ?s a) = Suc (s_current (heap s a))" "s_ctx (heap ?s a) = c1" "tasks ?s = tasks s" "outbox ?s = outbox s"
    by (simp_all add: thread_returned_def)
  ultimately show ?case using Cons.IH [of ?s] Cons.prems(2,3) c1(2) step wf by (simp add: r wseq_def wbind_def)
qed

section \<open>Steps\<close>

text \<open>A session whose action is a list of steps, run once.\<close>

definition step_session :: "Workflow list \<Rightarrow> Session \<Rightarrow> bool" where
  "step_session steps w \<longleftrightarrow> runs_once w \<and> Steps (s_workflow w) = Some steps \<and> num_threads w = 0 \<and> s_currentHook w = []"

definition control :: "Session \<Rightarrow> Workflow \<times> nat \<times> Workflow option \<times> string" where
  "control w = (s_workflow w, s_current w, s_elseBranch w, s_currentHook w)"

lemma control_cong:
  assumes "control w' = control w"
  shows "step_session steps w' = step_session steps w" "s_current w' = s_current w" "stops_on msg w' = stops_on msg w"
    "s_currentHook w' = s_currentHook w"
  using assms by (simp_all add: control_def step_session_def runs_once_def isIteration_def isLoop_def num_threads_def stops_on_def)

lemma control_with_ctx: "control (heap (with_ctx a c xs s) a) = control (heap s a)"
  by (simp add: control_def)

text \<open>Starting the child session of a step.\<close>

definition start_step :: "wfenv \<Rightarrow> caller \<Rightarrow> nat \<Rightarrow> Workflow \<Rightarrow> nat \<Rightarrow> Message \<Rightarrow> unit wm" where
  "start_step W self a v k msg =
    wbind (createChildSession W a v msg) (\<lambda>c.
    wseq (wmodr c (set_ctx ''step_number'' (GInt (int k)))) (self (CExecute c msg)))"

lemma executeStep_start:
  assumes "step_session steps (heap s a)" and "s_current (heap s a) < length steps"
  shows "executeStep W self a msg s = start_step W self a (steps ! s_current (heap s a)) (s_current (heap s a)) msg s"
  using assms by (simp add: executeStep_def start_step_def step_session_def wm_exec)

text \<open>A child that is not saved yet only starts goroutines: the other sessions stay as they are.\<close>

definition spares :: "nat \<Rightarrow> nat \<Rightarrow> 'a wm \<Rightarrow> bool" where
  "spares a c m \<longleftrightarrow> (\<forall>s. s_ID (heap s c) = [] \<longrightarrow> heap (snd (m s)) a = heap s a \<and> next_addr (snd (m s)) = next_addr s \<and> s_ID (heap (snd (m s)) c) = [])"

named_theorems spares_intros "rules for computations on a session that is not saved"

lemma spares_basic [spares_intros]:
  "spares a c (wret x)" "spares a c (wpanic e)" "spares a c (wlift r)" "spares a c skip" "spares a c (spawn t)"
  by (simp_all add: spares_def wret_def wpanic_def wlift_def skip_def spawn_def split: sum.split)

lemma spares_wbind [spares_intros]:
  assumes "spares a c m" and "\<And>x. spares a c (f x)"
  shows "spares a c (wbind m f)"
  unfolding spares_def
proof (intro allI impI)
  fix s :: store assume s: "s_ID (heap s c) = []"
  obtain r t where r: "m s = (r, t)" by force
  have "heap t a = heap s a" "next_addr t = next_addr s" "s_ID (heap t c) = []" using assms(1) s r by (auto simp: spares_def dest!: spec [of _ s])
  with assms(2) r show "heap (snd (wbind m f s)) a = heap s a \<and> next_addr (snd (wbind m f s)) = next_addr s \<and> s_ID (heap (snd (wbind m f s)) c) = []"
    by (cases r) (auto simp: wbind_def spares_def)
qed

lemma spares_wseq [spares_intros]: "spares a c m \<Longrightarrow> spares a c n \<Longrightarrow> spares a c (wseq m n)"
  by (simp add: wseq_def spares_wbind)

lemma spares_read [spares_intros]: "(\<And>w. s_ID w = [] \<Longrightarrow> spares a c (f w)) \<Longrightarrow> spares a c (wbind (wget c) f)"
  by (simp add: spares_def wbind_def wget_def)

lemma spares_wmod [spares_intros]: "a \<noteq> c \<Longrightarrow> (\<And>w. s_ID (f w) = s_ID w) \<Longrightarrow> spares a c (wmod c f)"
  by (simp add: spares_def wmod_def)

lemma spares_if [spares_intros]: "(b \<Longrightarrow> spares a c m) \<Longrightarrow> (\<not> b \<Longrightarrow> spares a c n) \<Longrightarrow> spares a c (if b then m else n)"
  by simp

lemma spares_case_option [spares_intros]:
  "(x = None \<Longrightarrow> spares a c m) \<Longrightarrow> (\<And>y. x = Some y \<Longrightarrow> spares a c (f y)) \<Longrightarrow> spares a c (case x of None \<Rightarrow> m | Some y \<Rightarrow> f y)"
  by (cases x) simp_all

lemma spares_fireHook [spares_intros]: "a \<noteq> c \<Longrightarrow> spares a c (fireHook W self name c msg)"
  unfolding fireHook_def by (rule spares_read) (auto intro!: spares_intros)

lemma spares_noop [spares_intros]: "spares a c (noop self c msg)"
  unfolding noop_def Let_def by (rule spares_read) (auto intro!: spares_intros)

lemma spares_execute: "a \<noteq> c \<Longrightarrow> spares a c (execute W self c msg)"
  unfolding execute_def unless_hook_def
  by (rule spares_wseq [OF spares_fireHook], assumption, rule spares_read, rule spares_if [OF spares_basic(4)], rule spares_read)
    (auto intro!: spares_intros)

lemma execute_unsaved:
  assumes "s_ID (heap s c) = []" and "a \<noteq> c"
  shows "heap (snd (execute W self c msg s)) a = heap s a \<and> next_addr (snd (execute W self c msg s)) = next_addr s"
  using spares_execute [OF assms(2)] assms(1) by (auto simp: spares_def)

lemma createChildSession_result:
  assumes "a < next_addr s" and "createChildSession W a v msg s = (r, t)"
  shows "control (heap t a) = control (heap s a) \<and> next_addr t = Suc (next_addr s) \<and> (r = Done c \<longrightarrow> c = next_addr s \<and> s_ID (heap t c) = [])"
proof -
  define child where "child = snd (newSession (s_ID (heap s a)) (s_EventID (heap s a)) v s)"
  let ?c = "next_addr s"
  have new: "newSession (s_ID (heap s a)) (s_EventID (heap s a)) v s = (Done ?c, child)" "heap child a = heap s a" "next_addr child = Suc ?c" "s_ID (heap child ?c) = []"
    using assms(1) by (simp_all add: child_def newSession_def alloc_def)
  define s1 where "s1 = child\<lparr>heap := (heap child)(a := setPerforming (s_performing (heap child ?c)) (heap child a))\<rparr>"
  have s1: "control (heap s1 a) = control (heap s a)" "next_addr s1 = Suc ?c" "s_ID (heap s1 ?c) = []"
    using new assms(1) by (simp_all add: s1_def control_def setPerforming_def Let_def)
  have run: "createChildSession W a v msg s = wseq (wmodr ?c (prepare W msg (Some (heap s1 a)) None)) (wret ?c) s1"
    unfolding createChildSession_def wm_exec(1) wbind_Done [where m = "newSession (s_ID (heap s a)) (s_EventID (heap s a)) v" and s = s, OF new(1)]
    by (simp add: wm_exec s1_def)
  show ?thesis
  proof (cases "prepare W msg (Some (heap s1 a)) None (heap s1 ?c)")
    case (Inl e)
    then show ?thesis using run assms(2) s1 by (simp add: wm_defs)
  next
    case (Inr w)
    then show ?thesis using run assms s1 prepare_ID [OF Inr] by (auto simp: wm_defs)
  qed
qed

lemma start_step_control:
  assumes "a < next_addr s" and "start_step W (run W (Suc n)) a v k msg s = (r, t)"
  shows "control (heap t a) = control (heap s a) \<and> a < next_addr t"
proof (cases "createChildSession W a v msg s")
  case (Pair r1 s1)
  have child: "control (heap s1 a) = control (heap s a)" "next_addr s1 = Suc (next_addr s)" "r1 = Done c \<Longrightarrow> c = next_addr s \<and> s_ID (heap s1 c) = []" for c
    using createChildSession_result [OF assms(1) Pair] by blast+
  show ?thesis
  proof (cases r1)
    case (Done c)
    with child(3) have c: "c = next_addr s" "s_ID (heap s1 c) = []" "a \<noteq> c" using assms(1) by auto
    show ?thesis
    proof (cases "set_ctx ''step_number'' (GInt (int k)) (heap s1 c)")
      case (Inl e)
      with assms Pair Done child(1,2) show ?thesis by (auto simp: start_step_def wm_defs)
    next
      case (Inr w)
      let ?s = "s1\<lparr>heap := (heap s1)(c := w)\<rparr>"
      have "start_step W (run W (Suc n)) a v k msg s = execute W (run W n) c msg ?s"
        using Pair Done Inr by (simp add: start_step_def wm_defs dispatch_def)
      moreover have "s_ID (heap ?s c) = []" using set_ctx_ID [OF Inr] c(2) by simp
      moreover from calculation(1) assms(2) have "t = snd (execute W (run W n) c msg ?s)" by (metis snd_conv)
      ultimately show ?thesis using execute_unsaved [of ?s c a W "run W n" msg] assms(1) c(3) child(1,2) by simp
    qed
  qed (use assms Pair child(1,2) in \<open>auto simp: start_step_def wm_defs\<close>)
qed

text \<open>
  The reference for a list of steps: each one is started with the message of the return of the one before it
  and its number; when it returns, its exports are taken over, and the next one is started, or, when there is none or the return
  makes the session stop, the session is completed. No counter is read.
\<close>

fun in_sequence :: "wfenv \<Rightarrow> caller \<Rightarrow> nat \<Rightarrow> nat \<Rightarrow> Workflow list \<Rightarrow> Message \<Rightarrow> (Message \<times> gmap list) list \<Rightarrow> unit wm" where
  "in_sequence W self a k [] msg rs = self (CComplete a msg)"
| "in_sequence W self a k (v # vs) msg rs =
     wseq (wmod a (\<lambda>w. w\<lparr>s_current := k\<rparr>))
     (wseq (start_step W self a v k msg)
     (case rs of
        [] \<Rightarrow> skip
      | (m, es) # rs' \<Rightarrow> wseq (take_over W a es) (wbind (wget a) (\<lambda>w.
          if stops_on m w then self (CComplete a m) else in_sequence W self a (Suc k) vs m rs'))))"

declare in_sequence.simps(2) [simp del]

lemma in_sequence_set: "vs \<noteq> [] \<Longrightarrow> in_sequence W self a k vs msg rs (s\<lparr>heap := (heap s)(a := (heap s a)\<lparr>s_current := k\<rparr>)\<rparr>) = in_sequence W self a k vs msg rs s"
  by (cases vs) (simp_all add: in_sequence.simps(2) wseq_def wbind_def wmod_def)

lemma in_sequence_set_same: "s_current (heap s a) = k \<Longrightarrow> s\<lparr>heap := (heap s)(a := (heap s a)\<lparr>s_current := k\<rparr>)\<rparr> = s"
  by (drule sym) simp

lemma steps_sequence:
  assumes "step_session steps (heap s a)" and "s_current (heap s a) = k" and "k < length steps" and "a < next_addr s"
    and "k + length rs \<le> length steps" and "list_all (\<lambda>r. \<not> stops_on (fst r) (heap s a)) (butlast rs)"
  shows "wseq (executeStep W (run W (Suc n)) a msg) (continue_all W (run W (Suc n)) a rs) s =
    in_sequence W (run W (Suc n)) a k (drop k steps) msg rs s"
  using assms
proof (induction rs arbitrary: s k msg)
  case Nil
  then show ?case
    by (simp add: Cons_nth_drop_Suc [symmetric] in_sequence.simps(2) wseq_skip wm_exec(4) in_sequence_set_same executeStep_start)
next
  case (Cons r rs)
  obtain m es where r: "r = (m, es)" by force
  let ?self = "run W (Suc n)"
  obtain o1 s1 where start: "start_step W ?self a (steps ! k) k msg s = (o1, s1)" by force
  have first: "executeStep W ?self a msg s = (o1, s1)" using executeStep_start [OF Cons.prems(1)] Cons.prems(2,3) start by simp
  have s1: "control (heap s1 a) = control (heap s a)" "a < next_addr s1" using start_step_control [OF Cons.prems(4) start] by simp_all
  let ?next = "\<lambda>s. (wbind (wget a) (\<lambda>w. if stops_on m w then ?self (CComplete a m) else in_sequence W ?self a (Suc k) (drop (Suc k) steps) m rs)) s"
  have rhs: "in_sequence W ?self a k (drop k steps) msg (r # rs) s = wseq (\<lambda>_. (o1, s1)) (wseq (take_over W a es) ?next) s"
    using Cons.prems(2,3) start
    by (simp add: Cons_nth_drop_Suc [symmetric] in_sequence.simps(2) r wm_exec(4) in_sequence_set_same) (simp add: wseq_def wbind_def)
  have lhs: "wseq (executeStep W ?self a msg) (continue_all W ?self a (r # rs)) s =
      wseq (\<lambda>_. (o1, s1)) (wseq (continueExec W ?self a m es) (continue_all W ?self a rs)) s"
    using first by (simp add: r wseq_def wbind_def)
  have "wseq (continueExec W ?self a m es) (continue_all W ?self a rs) s1 = wseq (take_over W a es) ?next s1"
  proof (cases rule: take_over_cases [of W a es s1])
    case (1 e c xs)
    then show ?thesis by (simp add: continueExec_take_over wseq_def wbind_def)
  next
    case (2 c xs)
    define s2 where "s2 = with_ctx a c xs s1"
    have ctl: "control (heap s2 a) = control (heap s a)" using s1(1) control_with_ctx [of a c xs s1] by (simp add: s2_def)
    note same = control_cong [OF ctl]
    have "step_session steps (heap s2 a)" using Cons.prems(1) same(1) by blast
    then have w: "runs_once (heap s2 a)" "num_threads (heap s2 a) = 0" "s_currentHook (heap s2 a) = []" "num_steps (heap s2 a) = length steps"
      "s_current (heap s2 a) = k" "a < next_addr s2"
      using Cons.prems(2) same(2) s1(2) by (simp_all add: step_session_def num_steps_def) (simp_all add: s2_def)
    have took: "take_over W a es s1 = (Done (), s2)" using 2 by (simp add: s2_def)
    have trivial: "s2\<lparr>heap := (heap s2)(a := heap s2 a)\<rparr> = s2" by simp
    show ?thesis
    proof (cases "stops_on m (heap s2 a)")
      case True
      have "rs = []"
      proof (rule ccontr)
        assume "rs \<noteq> []"
        then have "\<not> stops_on m (heap s a)" using Cons.prems(6) by (simp add: r)
        with True same(3) show False by simp
      qed
      moreover have "continueExec W ?self a m es s1 = ?self (CComplete a m) s2"
        using continueExec_routed [OF took w(3) routeNext_stops [OF True]] trivial by (simp add: go_on_def)
      ultimately show ?thesis using took True by (simp add: wseq_skip) (simp add: wseq_def wbind_def wget_def)
    next
      case False
      have route: "routeNext W m (heap s2 a) = Inr (if Suc k < length steps then WorkflowNextStep else WorkflowNextComplete, heap s2 a)"
        using routeNext_step [OF w(1,2) False, of W] w(4,5) Cons.prems(3) by (cases steps) auto
      have go: "continueExec W ?self a m es s1 = go_on W ?self a m (if Suc k < length steps then WorkflowNextStep else WorkflowNextComplete) s2"
        using continueExec_routed [OF took w(3) route] trivial by simp
      have after: "wseq (take_over W a es) ?next s1 = in_sequence W ?self a (Suc k) (drop (Suc k) steps) m rs s2"
        using took False by (simp add: wseq_def wbind_def wget_def)
      show ?thesis
      proof (cases "Suc k < length steps")
        case True
        let ?s3 = "s2\<lparr>heap := (heap s2)(a := (heap s2 a)\<lparr>s_current := Suc k\<rparr>)\<rparr>"
        have "wseq (continueExec W ?self a m es) (continue_all W ?self a rs) s1 = wseq (executeStep W ?self a m) (continue_all W ?self a rs) ?s3"
          using go True w(5) by (simp add: go_on_def wseq_def wbind_def wmod_def)
        also have "\<dots> = in_sequence W ?self a (Suc k) (drop (Suc k) steps) m rs ?s3"
        proof (rule Cons.IH)
          show "step_session steps (heap ?s3 a)" using \<open>step_session steps (heap s2 a)\<close> by (simp add: step_session_def)
          show "list_all (\<lambda>r. \<not> stops_on (fst r) (heap ?s3 a)) (butlast rs)" using Cons.prems(6) same(3) by (auto split: if_splits)
        qed (use w True Cons.prems(5) in simp_all)
        also have "\<dots> = in_sequence W ?self a (Suc k) (drop (Suc k) steps) m rs s2" using True by (intro in_sequence_set) simp
        finally show ?thesis using after by simp
      next
        case False
        with Cons.prems(5) have "length (r # rs) \<le> 1" by linarith
        then have "rs = []" "drop (Suc k) steps = []" using False by simp_all
        with after go False show ?thesis by (simp add: go_on_def wseq_skip)
      qed
    qed
  qed
  then show ?case unfolding lhs rhs by (cases o1) (simp_all add: wseq_def wbind_def)
qed

section \<open>Properties\<close>


definition sample_par :: Session where
  "sample_par = blank_session\<lparr>s_ID := ''0'', s_ctx := Some [],
     s_workflow := upd_wd (\<lambda>d. d\<lparr>wf_IterateParallel := GList [GStr ''x'', GStr ''y'', GStr ''z''],
       wf_IteratePool := ''2'', wf_CallDriver := ''web.get''\<rparr>) zero_workflow\<rparr>"

definition sample_par_store :: store where
  "sample_par_store = (NewSessionStore blank_session)\<lparr>heap := (\<lambda>_. sample_par), next_addr := 1\<rparr>"



definition sample_threads :: Session where
  "sample_threads = blank_session\<lparr>s_ctx := Some [], s_workflow := Workflow zero_wfdata None (Some [zero_workflow, zero_workflow, zero_workflow])\<rparr>"

definition sample_threads_store :: store where
  "sample_threads_store = (NewSessionStore blank_session)\<lparr>heap := (\<lambda>_. sample_threads), next_addr := 1\<rparr>"

definition boom_panic :: gopanic where
  "boom_panic = PanicErr ''boom''"



definition sample_steps :: Session where
  "sample_steps = blank_session\<lparr>s_ctx := Some [], s_workflow := Workflow zero_wfdata (Some [zero_workflow, zero_workflow]) None\<rparr>"

definition sample_steps_store :: store where
  "sample_steps_store = (NewSessionStore blank_session)\<lparr>heap := (\<lambda>_. sample_steps), next_addr := 1\<rparr>"


text \<open>
  Outside a parallel iteration, an error ends the session at once unless \<open>on_error\<close> is
  \<open>continue\<close>, and a failure does so only when \<open>on_failure\<close> is \<open>exit\<close>; a successful return never does.
\<close>

theorem routeNext_error_policy:
  assumes "wf_IterateParallel (wfd w) = GNil"
  shows "(label_str msg ''status'' = SessionStatusError \<longrightarrow>
      (stops_on msg w \<longleftrightarrow> wf_OnError (wfd w) \<noteq> ''continue'')) \<and>
    (label_str msg ''status'' = SessionStatusFailure \<longrightarrow> (stops_on msg w \<longleftrightarrow> wf_OnFailure (wfd w) = ''exit'')) \<and>
    (label_str msg ''status'' = SessionStatusSuccess \<longrightarrow> \<not> stops_on msg w) \<and>
    (stops_on msg w \<longrightarrow> routeNext W msg w = Inr (WorkflowNextComplete, w))"
  using assms by (auto simp: stops_on_def routeNext_def status_defs)

theorem routeNext_error_policy_witness:
  "routeNext sample_wfenv (error_message ''boom'') sample_steps = Inr (WorkflowNextComplete, sample_steps)"
proof -
  have "wf_IterateParallel (wfd sample_steps) = GNil" "label_str (error_message ''boom'') ''status'' = SessionStatusError"
    "wf_OnError (wfd sample_steps) \<noteq> ''continue''"
    by code_simp+
  with routeNext_error_policy [of sample_steps "error_message ''boom''" sample_wfenv] show ?thesis by blast
qed

text \<open>
  When the action of a parallel iteration is a list of steps, the return of an item is taken for the
  return of a step: the session is routed to its own next step and the item is not counted.
\<close>

theorem parallel_steps_misrouted:
  assumes "wf_IterateParallel (wfd w) \<noteq> GNil" and "Suc (s_current w) < num_steps w" and "s_elseBranch w = None"
  shows "\<exists>w'. routeNext W msg w = Inr (WorkflowNextStep, w') \<and> s_iteration w' = s_iteration w \<and> s_current w' = s_current w"
proof -
  have "\<not> stops_on msg w" using assms(1) by (simp add: stops_on_def)
  moreover have "num_steps (note_failure msg w) = num_steps w" by (simp add: num_steps_def)
  ultimately show ?thesis
    using assms(2,3) by (simp add: routeNext_def Let_def)
qed

definition sample_par_steps :: Session where
  "sample_par_steps = blank_session\<lparr>s_workflow := Workflow (zero_wfdata\<lparr>wf_IterateParallel := GList [GStr ''x'', GStr ''y'']\<rparr>)
     (Some [zero_workflow, zero_workflow]) None\<rparr>"

theorem parallel_steps_misrouted_witness:
  "\<exists>w'. routeNext sample_wfenv Success sample_par_steps = Inr (WorkflowNextStep, w') \<and> s_iteration w' = 0"
proof -
  have "wf_IterateParallel (wfd sample_par_steps) \<noteq> GNil" "Suc (s_current sample_par_steps) < num_steps sample_par_steps"
    "s_elseBranch sample_par_steps = None" "s_iteration sample_par_steps = 0"
    by code_simp+
  with parallel_steps_misrouted [of sample_par_steps sample_wfenv Success] show ?thesis by fastforce
qed

text \<open>
  The test for the last item and the count of a return are separate steps. When the last two returns
  of a parallel iteration are both routed before either is counted, neither completes the session:
  both are counted as items to wait for, and no further return is to come.
\<close>

theorem parallel_returns_race:
  assumes "par_session items p (heap s a)" and "Suc (Suc (s_iteration (heap s a))) = length items"
  shows "\<exists>w1 w2 t. routeNext W m1 (heap s a) = Inr (WorkflowNextParallelIteration, w1) \<and>
    routeNext W m2 w1 = Inr (WorkflowNextParallelIteration, w2) \<and>
    wseq (next_parallel a) (next_parallel a) (s\<lparr>heap := (heap s)(a := w2)\<rparr>) = (Done (), t) \<and> s_iteration (heap t a) = length items"
proof -
  let ?w1 = "note_failure m1 (heap s a)"
  let ?w2 = "note_failure m2 ?w1"
  have par: "par_session items p ?w1" "par_session items p ?w2" "par_session items p (?w2\<lparr>s_iteration := Suc (s_iteration ?w2)\<rparr>)"
    using assms(1) par_session_cong [of ?w1 "heap s a" items p] par_session_cong [of ?w2 ?w1 items p]
      par_session_cong [of "?w2\<lparr>s_iteration := Suc (s_iteration ?w2)\<rparr>" ?w2 items p] by simp_all
  let ?s = "s\<lparr>heap := (heap s)(a := ?w2)\<rparr>"
  define s1 where "s1 = snd (next_parallel a ?s)"
  have s1: "next_parallel a ?s = (Done (), s1)" "heap s1 a = ?w2\<lparr>s_iteration := Suc (s_iteration ?w2)\<rparr>"
    using next_parallel_pool [of items p ?s a] par(2) by (simp_all add: s1_def)
  then have "par_session items p (heap s1 a)" using par(3) by simp
  from next_parallel_pool [OF this] s1 assms(2) have "\<exists>t. wseq (next_parallel a) (next_parallel a) ?s = (Done (), t) \<and> s_iteration (heap t a) = length items"
    by (simp add: wseq_def wbind_def)
  then show ?thesis
    using routeNext_parallel [OF assms(1), of W m1] routeNext_parallel [OF par(1), of W m2] assms(2) by auto
qed

theorem parallel_returns_race_witness:
  "\<exists>w1. routeNext sample_wfenv Success (sample_par\<lparr>s_iteration := 1\<rparr>) = Inr (WorkflowNextParallelIteration, w1) \<and>
     (\<exists>w2. routeNext sample_wfenv Success w1 = Inr (WorkflowNextParallelIteration, w2))"
proof -
  have "atoi ''2'' = Some 2" by code_simp
  then have "par_session [GStr ''x'', GStr ''y'', GStr ''z''] 2 (sample_par\<lparr>s_iteration := 1\<rparr>)"
    by (simp add: par_session_def sample_par_def blank_session_def zero_workflow_def zero_wfdata_def isLoop_def)
  then show ?thesis
    using parallel_returns_race [of "[GStr ''x'', GStr ''y'', GStr ''z'']" 2 "sample_par_store\<lparr>heap := (\<lambda>_. sample_par\<lparr>s_iteration := 1\<rparr>)\<rparr>" 0 sample_wfenv Success Success]
    by auto
qed

section \<open>Completion\<close>

definition complete_hooks :: "string list" where
  "complete_hooks = [WorkflowHookError, WorkflowHookFailure, WorkflowHookSuccess, WorkflowHookExit]"

definition no_complete_hooks :: "Session \<Rightarrow> bool" where
  "no_complete_hooks w \<longleftrightarrow>
     list_all (\<lambda>name. GetMapData (omap_val (s_ctx w)) (''hooks.'' @ name) = None) complete_hooks"

lemma fireHook_none:
  assumes "s_currentHook (heap s a) = []" and "GetMapData (omap_val (s_ctx (heap s a))) (''hooks.'' @ name) = None"
  shows "fireHook W self name a msg s = (Done (), s)"
  using assms by (simp add: fireHook_def wm_exec)

lemma complete_hook_listed: "complete_hook msg \<in> set complete_hooks"
  by (simp add: complete_hook_def complete_hooks_def Let_def)

lemma fireCompleteHooks_none:
  assumes "s_currentHook (heap s a) = []" and "no_complete_hooks (heap s a)"
  shows "fireCompleteHooks W self a msg s = (Done (), s)"
proof -
  have fire: "fireHook W self name a msg s = (Done (), s)" if "name \<in> set complete_hooks" for name
    using assms that by (intro fireHook_none) (simp_all add: no_complete_hooks_def list_all_iff)
  have "fireHook W self (complete_hook msg) a msg s = (Done (), s)" "fireHook W self WorkflowHookExit a msg s = (Done (), s)"
    using fire [OF complete_hook_listed] fire [of WorkflowHookExit] by (simp_all add: complete_hooks_def)
  then show ?thesis
    using assms(1) by (simp add: fireCompleteHooks_def SafeExitOnError_def wcatch_def wm_exec wseq_Done)
qed

text \<open>The store after a session with a parent has completed with \<open>msg\<close>.\<close>

definition handed_over :: "nat \<Rightarrow> Message \<Rightarrow> store \<Rightarrow> store" where
  "handed_over a msg s = s\<lparr>sessions := IDMapDel (sessions s) (s_ID (heap s a)),
     tasks := tasks s @ [TContinue (s_parent (heap s a)) msg (s_exported (heap s a))],
     heap := (heap s)(a := (heap s a)\<lparr>s_ID := [], s_cancelled := s_cancelled (heap s a) \<or> s_watched (heap s a)\<rparr>)\<rparr>"

lemma complete_finishes:
  assumes saved: "is_saved a s" and hook: "s_currentHook (heap s a) = []"
    and ex: "processExport W a (completion_message (heap s a) msg)
      (s\<lparr>heap := (heap s)(a := (heap s a)\<lparr>s_savedMsg := Some (completion_message (heap s a) msg)\<rparr>)\<rparr>) = (Done msg2, t)"
    and hooks: "no_complete_hooks (heap t a)"
  shows "complete W self a msg s =
    wseq (finish a msg2) (close_session a) (t\<lparr>heap := (heap t)(a := (heap t a)\<lparr>s_savedMsg := Some msg2\<rparr>)\<rparr>)"
proof -
  let ?m = "completion_message (heap s a) msg"
  let ?s = "s\<lparr>heap := (heap s)(a := (heap s a)\<lparr>s_savedMsg := Some ?m\<rparr>)\<rparr>"
  let ?t = "t\<lparr>heap := (heap t)(a := (heap t a)\<lparr>s_savedMsg := Some msg2\<rparr>)\<rparr>"
  have "quiet a ?s t" using quietly_processExport [of a W ?m] ex by (metis quietly_def snd_conv)
  then have ids: "s_currentHook (heap t a) = []" using hook by (simp add: quiet_def same_ids_def)
  have saved': "is_saved a ?s" using saved by (simp add: is_saved_def)
  have fire: "fireCompleteHooks W self a msg2 ?t = (Done (), ?t)"
    using ids hooks by (intro fireCompleteHooks_none) (simp_all add: no_complete_hooks_def)
  have "complete W self a msg s = wbind (processExport W a ?m) (\<lambda>msg2.
       wseq (wmod a (\<lambda>w. w\<lparr>s_savedMsg := Some msg2\<rparr>))
       (wseq (fireCompleteHooks W self a msg2) (unless_hook a (wseq (finish a msg2) (close_session a))))) ?s"
    using hook saved' by (simp add: complete_def Let_def wm_exec wbind_def [of "\<lambda>s. (Done (is_saved a s), s)"])
  also have "\<dots> = unless_hook a (wseq (finish a msg2) (close_session a)) ?t"
    using fire by (simp add: wbind_Done [where m = "processExport W a ?m" and s = ?s, OF ex] wm_exec wseq_Done)
  also have "\<dots> = wseq (finish a msg2) (close_session a) ?t"
    using ids by (simp add: unless_hook_def wm_exec)
  finally show ?thesis .
qed

lemma complete_run:
  assumes "is_saved a s" and "s_currentHook (heap s a) = []"
    and ex: "processExport W a (completion_message (heap s a) msg)
      (s\<lparr>heap := (heap s)(a := (heap s a)\<lparr>s_savedMsg := Some (completion_message (heap s a) msg)\<rparr>)\<rparr>) = (Done msg2, t)"
    and "no_complete_hooks (heap t a)" and parent: "s_parent (heap s a) \<noteq> []"
  shows "complete W self a msg s =
    (Done (), handed_over a msg2 (t\<lparr>heap := (heap t)(a := (heap t a)\<lparr>s_savedMsg := Some msg2\<rparr>)\<rparr>))"
proof -
  have "s_parent (heap t a) = s_parent (heap s a)"
    using quietly_processExport [of a W "completion_message (heap s a) msg"] ex
    by (auto simp: quietly_def quiet_def same_ids_def dest!: spec [of _ "s\<lparr>heap := (heap s)(a := (heap s a)\<lparr>s_savedMsg := Some (completion_message (heap s a) msg)\<rparr>)\<rparr>"])
  then show ?thesis unfolding complete_finishes [OF assms(1-4)]
    using parent by (simp add: wseq_def wbind_def finish_def close_session_def wmod_def handed_over_def Let_def)
qed

lemma completion_message_error:
  assumes "label_str msg ''status'' = SessionStatusError"
  shows "label_str (completion_message w msg) ''status'' = SessionStatusError"
    and "label_str (completion_message w msg) ''reason'' = label_str msg ''reason''"
  using assms by (auto simp: completion_message_def Let_def label_str_def label_def labels_def status_defs)

lemma processExport_status:
  assumes "processExport W a msg s = (Done msg2, t)" and "label_str msg ''status'' = SessionStatusError"
  shows "label_str msg2 ''status'' = SessionStatusError"
proof -
  have "msg2 = msg \<or> (\<exists>e. msg2 = export_failed W e msg)"
    using assms(1) by (auto simp: processExport_def wm_exec wcatch_def wseq_def wbind_def wret_def
        split: if_splits out.splits prod.splits)
  then show ?thesis
    using assms(2) by (auto simp: export_failed_def Let_def label_str_def label_def labels_def)
qed

section \<open>Properties of completion, panics, hooks and waits\<close>

text \<open>
  C2: a session that completes, with no completion hook to run, leaves the ID map, and exactly one
  goroutine is started, which continues the parent with the result and everything the session exported.
\<close>

theorem complete_hands_over:
  assumes "is_saved a s" and "s_currentHook (heap s a) = []" and "s_parent (heap s a) \<noteq> []"
    and "processExport W a (completion_message (heap s a) msg)
      (s\<lparr>heap := (heap s)(a := (heap s a)\<lparr>s_savedMsg := Some (completion_message (heap s a) msg)\<rparr>)\<rparr>) = (Done result, t)"
    and "no_complete_hooks (heap t a)"
  shows "\<exists>u. complete W self a msg s = (Done (), u) \<and> s_ID (heap u a) = [] \<and>
    (\<forall>k. IDMapGet (sessions u) k = (if k = s_ID (heap s a) then None else IDMapGet (sessions s) k)) \<and>
    tasks u = tasks s @ [TContinue (s_parent (heap s a)) result (s_exported (heap t a))]"
proof -
  have "quiet a (s\<lparr>heap := (heap s)(a := (heap s a)\<lparr>s_savedMsg := Some (completion_message (heap s a) msg)\<rparr>)\<rparr>) t"
    using quietly_processExport assms(4) by (metis quietly_def snd_conv)
  then have "sessions t = sessions s" "tasks t = tasks s" "s_ID (heap t a) = s_ID (heap s a)"
    "s_parent (heap t a) = s_parent (heap s a)"
    by (simp_all add: quiet_def same_ids_def)
  with complete_run [OF assms(1,2,4,5,3), of self] show ?thesis
    by (simp add: handed_over_def idm.del_get)
qed


text \<open>
  A hook that is configured runs once. Firing it for a session that is not saved yet starts one
  goroutine and marks the hook as current; firing it again, when the hook has returned, only clears the
  mark; firing another hook in between panics.
\<close>

theorem fireHook_once:
  assumes "s_currentHook (heap s a) = []" and "s_ID (heap s a) = []" and "name \<noteq> []"
    and "GetMapData (omap_val (s_ctx (heap s a))) (''hooks.'' @ name) = Some block"
  shows "\<exists>t. fireHook W self name a msg s = (Done (), t) \<and> tasks t = tasks s @ [THook a msg block] \<and>
    s_currentHook (heap t a) = name \<and> s_savedMsg (heap t a) = Some msg \<and>
    (\<exists>u. fireHook W self name a msg' t = (Done (), u) \<and> tasks u = tasks t \<and> s_currentHook (heap u a) = []) \<and>
    (\<forall>other. other = name \<or> (\<exists>e. fireHook W self other a msg' t = (Panicked e, t)))"
  using assms by (auto simp: fireHook_def wm_exec wpanic_def)

definition sample_hooked :: Session where
  "sample_hooked = blank_session\<lparr>s_ctx := Some [(''hooks'', GMap [(''on_session'', GStr ''notify'')])]\<rparr>"

theorem fireHook_once_witness:
  "\<exists>t. fireHook sample_wfenv (\<lambda>_. skip) ''on_session'' 0 Success (NewSessionStore sample_hooked) = (Done (), t) \<and>
     tasks t = [THook 0 Success (GStr ''notify'')]"
proof -
  let ?s = "NewSessionStore sample_hooked"
  have "s_currentHook (heap ?s 0) = []" "s_ID (heap ?s 0) = []" "''on_session'' \<noteq> []" "tasks ?s = []"
    "GetMapData (omap_val (s_ctx (heap ?s 0))) (''hooks.'' @ ''on_session'') = Some (GStr ''notify'')"
    by code_simp+
  from fireHook_once [OF this(1-3,5), of sample_wfenv "\<lambda>_. skip" Success Success] this(4) show ?thesis by auto
qed

text \<open>
  A suspended session is resumed once: the first \<open>ResumeSession\<close> with its key starts one goroutine
  that continues the session, a second one does nothing.
\<close>

theorem resume_once:
  assumes "map_of (suspendedSessions s) key = Some sid"
  shows "\<exists>t msg'. ResumeSession W key msg s = (Done (), t) \<and> tasks t = tasks s @ [TContinue sid msg' []] \<and>
    ResumeSession W key msg2 t = (Done (), t) \<and>
    (\<forall>k. map_of (suspendedSessions t) k = (if k = key then None else map_of (suspendedSessions s) k))"
  using assms by (simp add: ResumeSession_def SafeExitOnError_def wcatch_def Let_def)

definition sample_suspended :: store where
  "sample_suspended = (NewSessionStore blank_session)\<lparr>suspendedSessions := [(''approval'', ''0'')]\<rparr>"

theorem resume_once_witness:
  "\<exists>t. ResumeSession sample_wfenv ''approval'' Success sample_suspended = (Done (), t) \<and>
     ResumeSession sample_wfenv ''approval'' Success t = (Done (), t)"
  using resume_once [of sample_suspended "''approval''" "''0''" sample_wfenv Success Success]
  by (auto simp: sample_suspended_def)

lemma mdel_mput_new: "map_of m k = None \<Longrightarrow> mdel k (mput k v m) = m"
  by (induction m) (auto split: if_splits)

definition timeout_labels :: "string \<Rightarrow> string \<times> string" where
  "timeout_labels status = (if status = [] then (SessionStatusSuccess, []) else (status, ''timeout''))"

definition can_wait :: "wfenv \<Rightarrow> nat \<Rightarrow> string \<Rightarrow> store \<Rightarrow> bool" where
  "can_wait W a token s \<longleftrightarrow> token \<noteq> [] \<and> map_of (omap (s_ctx (heap s a))) ''resume_token'' = Some (GStr token) \<and>
     map_of (suspendedSessions s) token = None \<and> to_lower (wf_Wait (wfd (heap s a))) \<noteq> ''infinite'' \<and>
     ext_parse_duration (e_ext (we W)) (wf_Wait (wfd (heap s a))) \<noteq> None"

definition ctx_status :: "Session \<Rightarrow> string" where
  "ctx_status w = (case GetMapDataStr (omap_val (s_ctx w)) ''timeout_status'' of None \<Rightarrow> [] | Some x \<Rightarrow> x)"

definition ctx_payload :: "Session \<Rightarrow> gval" where
  "ctx_payload w = (case map_of (omap (s_ctx w)) ''return_on_timeout'' of None \<Rightarrow> GNil | Some v \<Rightarrow> v)"

lemma can_wait_ctx: "can_wait W a token s \<Longrightarrow> s_ctx (heap s a) \<noteq> None"
  by (auto simp: can_wait_def omap_def split: option.splits)

lemma startWait_timed:
  assumes "can_wait W a token s"
  shows "\<exists>s1. startWait W a s = (Done (), s1) \<and> heap s1 = heap s \<and> tasks s1 = tasks s @ [TTimer a token] \<and>
    suspendedSessions s1 = mput token (s_ID (heap s a)) (suspendedSessions s)"
  using assms by (auto simp: can_wait_def startWait_def Let_def spawn_def)

lemma start_timer_marks:
  assumes "s_ctx (heap s a) \<noteq> None" and "timeout_labels (ctx_status (heap s a)) = (status, reason)"
  shows "\<exists>s2. start_timer a token s = (Done (), s2) \<and> suspendedSessions s2 = suspendedSessions s \<and>
    tasks s2 = tasks s @ [TTimerFires a token status reason (ctx_payload (heap s a))] \<and>
    map_of (omap (s_ctx (heap s2 a))) ''_wait_timer'' \<noteq> None \<and>
    s_ID (heap s2 a) = s_ID (heap s a) \<and> s_workflow (heap s2 a) = s_workflow (heap s a) \<and>
    (\<forall>k. k = ''_wait_timer'' \<or> map_of (omap (s_ctx (heap s2 a))) k = map_of (omap (s_ctx (heap s a))) k)"
  using assms by (auto simp: start_timer_def ctx_status_def ctx_payload_def timeout_labels_def Let_def wm_defs set_ctx_def omap_def
      split: if_splits)

lemma resume_message_parts:
  "GetMapData (payload_val (resume_message token status reason p)) ''payload'' = (if p = GNil then None else Some p)"
  "GetMapData (payload_val (resume_message token status reason p)) ''labels'' =
    Some (GMap [(''status'', GStr status), (''reason'', GStr reason)])"
  by code_simp+

definition as_payload :: "gval \<Rightarrow> payload" where
  "as_payload v = (if v = GNil then PNil else PVal v)"

lemma ResumeSession_timeout:
  assumes "map_of (suspendedSessions s) token = Some sid"
    and "we_labels W (GMap [(''status'', GStr status), (''reason'', GStr reason)]) = Some ls"
  shows "ResumeSession W token (resume_message token status reason p) s =
    (Done (), s\<lparr>suspendedSessions := mdel token (suspendedSessions s),
      tasks := tasks s @ [TContinue sid (zero_message\<lparr>Subject := EventbusReturn, Labels := Some ls, Payload := as_payload p\<rparr>) []]\<rparr>)"
  using assms by (simp add: ResumeSession_def SafeExitOnError_def wcatch_def Let_def resume_message_parts as_payload_def)

text \<open>
  A wait with a time limit ends. When the timer runs out, the session is taken off the suspended
  sessions and is continued once, with the status \<open>timeout_status\<close> and the reason \<open>timeout\<close>, or with
  \<open>success\<close> where no status is set; the label decoder is assumed to read a map of strings back.
\<close>

theorem wait_times_out:
  assumes "can_wait W a token s" and "timeout_labels (ctx_status (heap s a)) = (status, reason)"
    and "we_labels W (GMap [(''status'', GStr status), (''reason'', GStr reason)]) =
      Some [(''status'', status), (''reason'', reason)]"
  shows "\<exists>resume t. (wseq (startWait W a) (wseq (start_timer a token)
      (wseq (timer_fires a token status reason (ctx_payload (heap s a))) (ResumeSession W token resume)))) s = (Done (), t) \<and>
    suspendedSessions t = suspendedSessions s \<and>
    tasks t = tasks s @ [TTimer a token, TTimerFires a token status reason (ctx_payload (heap s a)), TResume token resume,
      TContinue (s_ID (heap s a)) (zero_message\<lparr>Subject := EventbusReturn,
        Labels := Some [(''status'', status), (''reason'', reason)], Payload := as_payload (ctx_payload (heap s a))\<rparr>) []]"
proof -
  obtain s1 where s1: "startWait W a s = (Done (), s1)" "heap s1 = heap s" "tasks s1 = tasks s @ [TTimer a token]"
    "suspendedSessions s1 = mput token (s_ID (heap s a)) (suspendedSessions s)"
    using startWait_timed [OF assms(1)] by blast
  obtain s2 where s2: "start_timer a token s1 = (Done (), s2)" "suspendedSessions s2 = suspendedSessions s1"
    "tasks s2 = tasks s1 @ [TTimerFires a token status reason (ctx_payload (heap s1 a))]"
    "map_of (omap (s_ctx (heap s2 a))) ''_wait_timer'' \<noteq> None"
    using start_timer_marks [of s1 a status reason token] assms(1,2) s1(2) can_wait_ctx by auto
  have s3: "timer_fires a token status reason p s2 =
    (Done (), s2\<lparr>heap := (heap s2)(a := del_ctx ''_wait_timer'' (heap s2 a)),
       tasks := tasks s2 @ [TResume token (resume_message token status reason p)]\<rparr>)" for p
    using s2(4) by (auto simp: timer_fires_def wm_exec)
  have "map_of (suspendedSessions s) token = None" using assms(1) by (simp add: can_wait_def)
  then show ?thesis
    using s1(4) s2(1-3) assms(3)
    by (intro exI [of _ "resume_message token status reason (ctx_payload (heap s a))"])
      (simp add: wseq_Done s1(1-3) s3 ResumeSession_timeout mdel_mput_new)
qed

definition sample_waiting :: store where
  "sample_waiting = (NewSessionStore blank_session)\<lparr>heap := (\<lambda>_. blank_session\<lparr>s_ID := ''0'', s_ctx := Some [(''resume_token'', GStr ''approval'')],
     s_workflow := upd_wd (\<lambda>d. d\<lparr>wf_Wait := ''30m''\<rparr>) zero_workflow\<rparr>)\<rparr>"

definition sample_timed :: wfenv where
  "sample_timed = sample_wfenv\<lparr>we := \<lparr>e_ext = no_ext\<lparr>ext_parse_duration := (\<lambda>_. Some 1800)\<rparr>, e_fuel = 5, e_ord = list_order\<rparr>,
     we_labels := (\<lambda>v. map_option (map (\<lambda>(k, x). (k, case x of GStr y \<Rightarrow> y | _ \<Rightarrow> []))) (as_map v))\<rparr>"

lemma sample_waiting_facts:
  "can_wait sample_timed 0 ''approval'' sample_waiting"
  "timeout_labels (ctx_status (heap sample_waiting 0)) = (''success'', [])"
  "we_labels sample_timed (GMap [(''status'', GStr ''success''), (''reason'', GStr [])]) =
      Some [(''status'', ''success''), (''reason'', [])]"
  "s_ID (heap sample_waiting 0) = ''0''" "suspendedSessions sample_waiting = []"
  by code_simp+

theorem wait_times_out_witness:
  "\<exists>resume t. (wseq (startWait sample_timed 0) (wseq (start_timer 0 ''approval'')
      (wseq (timer_fires 0 ''approval'' ''success'' [] (ctx_payload (heap sample_waiting 0)))
        (ResumeSession sample_timed ''approval'' resume)))) sample_waiting = (Done (), t) \<and> suspendedSessions t = []"
  using wait_times_out [OF sample_waiting_facts(1-3)] sample_waiting_facts(5) by auto

text \<open>
  A session that waits again under the same token is not protected from the timer of its first wait:
  after the first wait was resumed and the session has begun its second wait, that timer resumes it.
\<close>

theorem stale_timer_resumes:
  assumes "can_wait W a token s" and "timeout_labels (ctx_status (heap s a)) = (status, reason)"
  shows "\<exists>t. (wseq (startWait W a) (wseq (start_timer a token) (wseq (ResumeSession W token msg)
      (wseq (wmod a (del_ctx ''_wait_timer'')) (wseq (startWait W a) (wseq (start_timer a token)
        (timer_fires a token status reason (ctx_payload (heap s a))))))))) s = (Done (), t) \<and>
    last (tasks t) = TResume token (resume_message token status reason (ctx_payload (heap s a))) \<and>
    map_of (suspendedSessions t) token = Some (s_ID (heap s a))"
proof -
  obtain s1 where s1: "startWait W a s = (Done (), s1)" "heap s1 = heap s"
    "suspendedSessions s1 = mput token (s_ID (heap s a)) (suspendedSessions s)"
    using startWait_timed [OF assms(1)] by blast
  obtain s2 where s2: "start_timer a token s1 = (Done (), s2)" "suspendedSessions s2 = suspendedSessions s1"
    "s_ID (heap s2 a) = s_ID (heap s a)" "s_workflow (heap s2 a) = s_workflow (heap s a)"
    "\<And>k. k = ''_wait_timer'' \<or> map_of (omap (s_ctx (heap s2 a))) k = map_of (omap (s_ctx (heap s a))) k"
    using start_timer_marks [of s1 a status reason token] assms s1(2) can_wait_ctx by auto
  obtain s3 where s3: "ResumeSession W token msg s2 = (Done (), s3)" "heap s3 = heap s2"
    "suspendedSessions s3 = mdel token (suspendedSessions s2)"
    using s2(2) s1(3) by (simp add: ResumeSession_def SafeExitOnError_def wcatch_def Let_def)
  let ?s4 = "s3\<lparr>heap := (heap s3)(a := del_ctx ''_wait_timer'' (heap s3 a))\<rparr>"
  have same: "map_of (omap (s_ctx (heap ?s4 a))) k = map_of (omap (s_ctx (heap s a))) k" if "k \<noteq> ''_wait_timer''" for k
    using that s2(5) [of k] s3(2) by (simp add: del_ctx_def omap_def split: option.splits)
  have "can_wait W a token ?s4"
    using assms(1) s1(3) s2(2-4) s3(2,3) same [of "''resume_token''"] by (simp add: can_wait_def del_ctx_def)
  then obtain s5 where s5: "startWait W a ?s4 = (Done (), s5)" "heap s5 = heap ?s4"
    "suspendedSessions s5 = mput token (s_ID (heap ?s4 a)) (suspendedSessions ?s4)"
    using startWait_timed by blast
  obtain status' reason' where "timeout_labels (ctx_status (heap s5 a)) = (status', reason')" by fastforce
  then obtain s6 where s6: "start_timer a token s5 = (Done (), s6)" "suspendedSessions s6 = suspendedSessions s5"
    "map_of (omap (s_ctx (heap s6 a))) ''_wait_timer'' \<noteq> None"
    using start_timer_marks [of s5 a status' reason' token] can_wait_ctx [OF \<open>can_wait W a token ?s4\<close>] s5(2) by auto
  have "timer_fires a token status reason p s6 =
    (Done (), s6\<lparr>heap := (heap s6)(a := del_ctx ''_wait_timer'' (heap s6 a)),
       tasks := tasks s6 @ [TResume token (resume_message token status reason p)]\<rparr>)" for p
    using s6(3) by (auto simp: timer_fires_def wm_exec)
  moreover have "s_ID (heap ?s4 a) = s_ID (heap s a)" using s2(3) s3(2) by (simp add: del_ctx_def)
  ultimately show ?thesis
    using s1 s2(1) s3(1) s5 s6(1,2) by (simp add: wseq_Done wm_exec(4))
qed

theorem stale_timer_resumes_witness:
  "\<exists>t. (wseq (startWait sample_timed 0) (wseq (start_timer 0 ''approval'') (wseq (ResumeSession sample_timed ''approval'' Success)
      (wseq (wmod 0 (del_ctx ''_wait_timer'')) (wseq (startWait sample_timed 0) (wseq (start_timer 0 ''approval'')
        (timer_fires 0 ''approval'' ''success'' [] (ctx_payload (heap sample_waiting 0))))))))) sample_waiting = (Done (), t) \<and>
    map_of (suspendedSessions t) ''approval'' = Some ''0''"
  using stale_timer_resumes [OF sample_waiting_facts(1,2)] sample_waiting_facts(4) by auto

section \<open>Witnesses of completion and panics\<close>

text \<open>A parent and a child, both saved; the child iterates in parallel with a pool that is no number.\<close>

definition sample_pair :: store where
  "sample_pair = (NewSessionStore blank_session)\<lparr>next_addr := 2, sessions := \<lparr>entries = [(''0'', 0), (''1'', 1)], Counter = 2\<rparr>,
     heap := (\<lambda>a. if a = 0 then blank_session\<lparr>s_ID := ''0''\<rparr>
       else blank_session\<lparr>s_ID := ''1'', s_parent := ''0'', s_ctx := Some [], s_workflow := upd_wd (\<lambda>d. d\<lparr>
         wf_IterateParallel := GList [GStr ''x'', GStr ''y''], wf_IteratePool := ''many''\<rparr>) zero_workflow\<rparr>)\<rparr>"

definition pair_export :: "Message \<Rightarrow> store \<Rightarrow> Message out \<times> store" where
  "pair_export msg s = processExport sample_wfenv 1 (completion_message (heap s 1) msg)
     (s\<lparr>heap := (heap s)(1 := (heap s 1)\<lparr>s_savedMsg := Some (completion_message (heap s 1) msg)\<rparr>)\<rparr>)"

theorem complete_hands_over_witness:
  "\<exists>u. complete sample_wfenv (\<lambda>_. skip) 1 Success sample_pair = (Done (), u) \<and> s_ID (heap u 1) = [] \<and>
     tasks u = [TContinue ''0'' Success []]"
proof -
  have facts: "is_saved 1 sample_pair" "s_currentHook (heap sample_pair 1) = []" "s_parent (heap sample_pair 1) \<noteq> []"
    "fst (pair_export Success sample_pair) = Done Success" "no_complete_hooks (heap (snd (pair_export Success sample_pair)) 1)"
    by code_simp+
  have out: "tasks sample_pair = []" "s_parent (heap sample_pair 1) = ''0''"
    "s_exported (heap (snd (pair_export Success sample_pair)) 1) = []"
    by code_simp+
  have "pair_export Success sample_pair = (Done Success, snd (pair_export Success sample_pair))"
    using facts(4) by (metis prod.collapse)
  from complete_hands_over [OF facts(1-3) this [unfolded pair_export_def [of Success sample_pair]]] facts(5) out
  show ?thesis by (auto simp: pair_export_def)
qed

definition pair_panics :: store where
  "pair_panics = snd (run sample_wfenv 1 (CContinue 1 Success []) sample_pair)"

definition boom :: gopanic where
  "boom = PanicErr ''strconv.Atoi: invalid syntax''"

definition boom_message :: Message where
  "boom_message = error_message (we_text sample_wfenv boom)"


section \<open>Exports\<close>

lemma no_export_loop_lookup:
  "map_of (no_export_loop keys e) k =
    (if ''*'' \<in> set keys \<or> list_ex (\<lambda>key. k = key \<or> k = key @ ''-'' \<or> k = key @ ''+'') keys then None else map_of e k)"
  by (induction keys arbitrary: e) auto

text \<open>
  C37: \<open>no_export\<close> keeps back what it names: with \<open>*\<close> nothing is exported; otherwise a key that is
  listed is removed together with its default (\<open>key-\<close>) and appending (\<open>key+\<close>) forms, and everything
  else, the overriding form \<open>key*\<close> included, is exported unchanged.
\<close>

theorem processNoExport_removes:
  "map_of (processNoExport w exports) k =
    (if ''*'' \<in> set (wf_NoExport (wfd w)) \<or>
        list_ex (\<lambda>key. k = key \<or> k = key @ ''-'' \<or> k = key @ ''+'') (wf_NoExport (wfd w))
     then None else map_of exports k)"
  by (simp add: processNoExport_def no_export_loop_lookup)

end
