(* ===== verification/Services.thy ===== *)
theory Services
  imports EngineInv
begin

text \<open>
  \<open>internal/service\<close>: the message handlers of \<open>engine.go\<close>, \<open>receiver.go\<close> and \<open>operator.go\<close>.
  The receiver tells the drivers which events the rules wait for; the engine starts the workflows of
  the rules that an event matches and passes returns and resumptions on to the session store; the
  operator collapses a function call to a driver, an action and parameters.

  The handlers of the engine run in the monad of the session store; the goroutines they start are
  tasks of the store. The operator's surroundings are a record: which driver runtimes exist
  (\<open>oe_has\<close>, with the feature as the name of the runtime), the RPC used for decryption,
  \<open>mapstructure\<close> decoding of a function, and the text of a panic.
\<close>

section \<open>\<open>engine.go\<close>\<close>

record CollapsedRule =
  cr_Trigger :: CollapsedTrigger
  cr_OriginalRule :: Rule

type_synonym rule_map = "(string, CollapsedRule list) gomap"

definition raw_key :: "Trigger \<Rightarrow> string" where
  "raw_key t = tr_Driver t @ ''.'' @ tr_RawEvent t"

text \<open>\<open>Recursive(match, RegexParser)\<close> on a map that may be \<open>nil\<close>.\<close>

definition compile_match :: "ext \<Rightarrow> gmap option \<Rightarrow> gmap option res" where
  "compile_match X m = (case m of
      None \<Rightarrow> Inr None
    | Some f \<Rightarrow> rmap Some (recursive_fields [] (\<lambda>k v. Inr (RegexParser X k v)) f))"

definition collapse_rule :: "env \<Rightarrow> nat \<Rightarrow> DataSet \<Rightarrow> Rule \<Rightarrow> (string \<times> CollapsedRule) res option" where
  "collapse_rule E n c rule = map_option (\<lambda>r. rbind r (\<lambda>(rawTrigger, collapsed).
     rbind (compile_match (e_ext E) (ct_Match collapsed)) (\<lambda>match.
     Inr (raw_key rawTrigger, \<lparr>cr_Trigger = collapsed\<lparr>ct_Match := match\<rparr>, cr_OriginalRule = rule\<rparr>))))
     (CollapseTrigger E n (When rule) c)"

definition add_rule :: "string \<Rightarrow> CollapsedRule \<Rightarrow> rule_map \<Rightarrow> rule_map" where
  "add_rule key rule m = mput key ((case map_of m key of None \<Rightarrow> [] | Some rs \<Rightarrow> rs) @ [rule]) m"

text \<open>
  A rule whose trigger panics is skipped. \<open>None\<close>: the loop along the sources of a trigger does not
  end.
\<close>

fun rule_loop :: "env \<Rightarrow> nat \<Rightarrow> DataSet \<Rightarrow> Rule list \<Rightarrow> rule_map \<Rightarrow> rule_map res option" where
  "rule_loop E n c [] m = Some (Inr m)"
| "rule_loop E n c (rule # rules) m = (case collapse_rule E n c rule of
      None \<Rightarrow> None
    | Some (Inl e) \<Rightarrow> if fatal e then Some (Inl e) else rule_loop E n c rules m
    | Some (Inr (key, cr)) \<Rightarrow> rule_loop E n c rules (add_rule key cr m))"

definition buildRuleMap :: "env \<Rightarrow> nat \<Rightarrow> DataSet \<Rightarrow> rule_map res option" where
  "buildRuleMap E n c = rule_loop E n c (Rules c) []"

definition fired_event :: "string \<Rightarrow> Rule \<Rightarrow> string" where
  "fired_event event rule =
    (if tr_SourceSystem (When rule) \<noteq> [] then tr_SourceSystem (When rule) @ ''.'' @ tr_SourceTrigger (When rule)
     else ''driver:'' @ event)"

definition rule_matches :: "env \<Rightarrow> gval \<Rightarrow> CollapsedRule \<Rightarrow> bool res" where
  "rule_matches E data rule = CompareAll (e_ext E) data (omap_val (ct_Match (cr_Trigger rule)))"

definition rule_ctx :: "env \<Rightarrow> string \<Rightarrow> gval \<Rightarrow> CollapsedRule \<Rightarrow> gmap res" where
  "rule_ctx E event data rule =
     ExportContext E (cr_Trigger rule) (fired_event event (cr_OriginalRule rule)) [(''event'', data)]"

fun fire_rules :: "env \<Rightarrow> Message \<Rightarrow> string \<Rightarrow> gval \<Rightarrow> CollapsedRule list \<Rightarrow> unit wm" where
  "fire_rules E msg event data [] = skip"
| "fire_rules E msg event data (rule # rules) =
     wseq (wbind (wlift (rule_matches E data rule)) (\<lambda>match.
       if match then
         wbind (wlift (rule_ctx E event data rule)) (\<lambda>ctx.
         spawn (TStart (Do (cr_OriginalRule rule)) msg (Some ctx)))
       else skip))
     (fire_rules E msg event data rules)"

fun fire_events :: "env \<Rightarrow> rule_map \<Rightarrow> Message \<Rightarrow> gval \<Rightarrow> gval list \<Rightarrow> unit wm" where
  "fire_events E ruleMap msg data [] = skip"
| "fire_events E ruleMap msg data (ev # evs) =
     wseq (wbind (wlift (assert_type (as_str ev))) (\<lambda>event.
       fire_rules E msg event data (case map_of ruleMap event of None \<Rightarrow> [] | Some rules \<Rightarrow> rules)))
     (fire_events E ruleMap msg data evs)"

definition createSessions :: "env \<Rightarrow> rule_map \<Rightarrow> Message \<Rightarrow> unit wm" where
  "createSessions E ruleMap msg0 = SafeExitOnError
    (wbind (wlift (DeserializePayload (e_ext E) msg0)) (\<lambda>msg.
     case GetMapData (payload_val msg) ''do'' of
       Some wflow \<Rightarrow> spawn (TStartDynamic msg wflow)
     | None \<Rightarrow>
         wbind (wlift (assert_type (Option.bind (GetMapData (payload_val msg) ''events'') as_list))) (\<lambda>events.
         fire_events E ruleMap msg
           (case GetMapData (payload_val msg) ''data'' of None \<Rightarrow> GNil | Some d \<Rightarrow> d) events)))"

definition continueSession :: "ext \<Rightarrow> Message \<Rightarrow> unit wm" where
  "continueSession X msg0 = SafeExitOnError
    (wbind (wlift (DeserializePayload X msg0)) (\<lambda>msg.
     case label msg ''sessionID'' of
       None \<Rightarrow> wpanic (PanicStr ''[enigne] command return without session id'')
     | Some sessionID \<Rightarrow> spawn (TContinue sessionID msg [])))"

definition resumeSession :: "ext \<Rightarrow> Message \<Rightarrow> unit wm" where
  "resumeSession X msg0 = SafeExitOnError
    (wbind (wlift (DeserializePayload X msg0)) (\<lambda>msg.
     wbind (wlift (MustGetMapDataStr (payload_val msg) ''key'')) (\<lambda>key.
     spawn (TResume key msg))))"

section \<open>\<open>receiver.go\<close>\<close>

text \<open>For every driver feature, the collapsed events by name.\<close>

type_synonym features = "(string, (string, CollapsedTrigger list) gomap) gomap"

definition event_name :: "Rule \<Rightarrow> string" where
  "event_name rule = (let w = When rule in
     if tr_Driver w = [] then tr_SourceSystem w @ ''.'' @ tr_SourceTrigger w
     else ''_.'' @ tr_Driver w @ '':'' @ tr_RawEvent w)"

definition add_feature :: "string \<Rightarrow> string \<Rightarrow> CollapsedTrigger \<Rightarrow> features \<Rightarrow> features" where
  "add_feature feature name ct dyn =
    (let collapsedEvents = (case map_of dyn feature of None \<Rightarrow> [] | Some m \<Rightarrow> m);
         list = (case map_of collapsedEvents name of None \<Rightarrow> [] | Some l \<Rightarrow> l) in
     mput feature (mput name (list @ [ct]) collapsedEvents) dyn)"

fun feature_loop :: "env \<Rightarrow> nat \<Rightarrow> DataSet \<Rightarrow> Rule list \<Rightarrow> features \<times> nat \<Rightarrow> (features \<times> nat) res option" where
  "feature_loop E n c [] dyn = Some (Inr dyn)"
| "feature_loop E n c (rule # rules) dyn = (case CollapseTrigger E n (When rule) c of
      None \<Rightarrow> None
    | Some (Inl e) \<Rightarrow> if fatal e then Some (Inl e) else feature_loop E n c rules dyn
    | Some (Inr (rawTrigger, collapsed)) \<Rightarrow>
        feature_loop E n c rules
          (add_feature (''driver:'' @ tr_Driver rawTrigger) (event_name rule) collapsed (fst dyn), Suc (snd dyn)))"

text \<open>The dynamic data and \<open>numCollapsedEvents\<close>.\<close>

definition ReceiverFeatures :: "env \<Rightarrow> nat \<Rightarrow> DataSet \<Rightarrow> (features \<times> nat) res option" where
  "ReceiverFeatures E n c = feature_loop E n c (Rules c) ([], 0)"

definition receiverRoute :: "Message \<Rightarrow> (string \<times> Message) list" where
  "receiverRoute msg =
    (if Channel msg = ''eventbus'' \<and> Subject msg = ''message'' then [(''eventbus'', msg)] else [])"

section \<open>\<open>operator.go\<close>\<close>

text \<open>\<open>mergo.Merge\<close> with overriding and appending; a failed copy is merged as \<open>nil\<close>.\<close>

definition merge_copy :: "ext \<Rightarrow> gmap option \<Rightarrow> gmap option \<Rightarrow> gmap option res" where
  "merge_copy X src dst = (case src of
      None \<Rightarrow> Inr dst
    | Some m \<Rightarrow>
        (case ext_mergo_append X (omap dst) (case DeepCopy (GMap m) of Inl _ \<Rightarrow> GNil | Inr v \<Rightarrow> v) of
           Inl _ \<Rightarrow> Inl (PanicStr ''[operator] unable to merge parameters'')
         | Inr r \<Rightarrow> Inr (Some r)))"

text \<open>
  The driver, the raw action, the parameters and the system data of a call. The recursion follows the
  targets and has no end when they form a circle; \<open>n\<close> bounds its depth.
\<close>

fun collapseFunction :: "ext \<Rightarrow> DataSet \<Rightarrow> nat \<Rightarrow> System option \<Rightarrow> Function \<Rightarrow>
    (string \<times> string \<times> gmap option \<times> gmap option) res" where
  "collapseFunction X c n s f =
    rbind
     (if fn_Driver f = [] then
        (case map_of (Systems c) (fn_TargetSystem f) of
           None \<Rightarrow> Inl (PanicStr ''[operator] system not defined'')
         | Some childSystem \<Rightarrow>
             (case map_of (sys_Functions childSystem) (fn_TargetFunction f) of
                None \<Rightarrow> Inl (PanicStr ''[operator] function not defined'')
              | Some childFunction \<Rightarrow>
                  (case n of
                     0 \<Rightarrow> Inl StackOverflow
                   | Suc n' \<Rightarrow>
                       rbind (collapseFunction X c n' (Some childSystem) childFunction) (\<lambda>(driver, rawaction, params, sysData).
                       let subsystems = butlast (split_on CHR ''.'' (fn_TargetFunction f)) in
                       rbind (if subsystems = [] then Inr sysData else rmap Some (descend subsystems (omap sysData))) (\<lambda>sd.
                       Inr (driver, rawaction, params, sd))))))
      else if fn_TargetSystem f \<noteq> [] then Inl (PanicStr ''[operator] function cannot have both driver and target'')
      else Inr (fn_Driver f, fn_RawAction f, None, None)) (\<lambda>(driver, rawaction, params, sysData).
    rbind (merge_copy X (Option.bind s sys_Data) sysData) (\<lambda>sysData'.
    rbind (merge_copy X (fn_Parameters f) params) (\<lambda>params'.
    Inr (driver, rawaction, params', sysData'))))"

declare collapseFunction.simps [simp del]

record openv =
  oe :: env
  oe_cfg :: DataSet
  oe_decode :: "gval \<Rightarrow> Function option"
  oe_call :: "string \<Rightarrow> string \<Rightarrow> string \<Rightarrow> string"
  oe_has :: "string \<Rightarrow> bool"
  oe_text :: "gopanic \<Rightarrow> string"
  oe_depth :: nat

definition feature_of :: "string \<Rightarrow> string" where
  "feature_of driver = (if has_prefix driver ''feature:'' then drop 8 driver else ''driver:'' @ driver)"

text \<open>The data that the context and the parameters are interpolated with.\<close>

definition call_env :: "Message \<Rightarrow> gmap option \<Rightarrow> gval \<Rightarrow> gmap option \<Rightarrow> gmap" where
  "call_env msg sysData ctx params =
    [(''sysData'', omap_val sysData),
     (''data'', case GetMapData (payload_val msg) ''data'' of None \<Rightarrow> GMap [] | Some d \<Rightarrow> d),
     (''event'', case GetMapData (payload_val msg) ''event'' of None \<Rightarrow> GNil | Some v \<Rightarrow> v),
     (''labels'', labels_val msg),
     (''ctx'', ctx),
     (''params'', omap_val params)]"

text \<open>
  The first half of the handler: decode and collapse the function, find the driver, interpolate the
  context and then the parameters, decrypt. The result is the feature, the action, the parameters and
  the context.
\<close>

definition command_call :: "openv \<Rightarrow> Message \<Rightarrow> (string \<times> string \<times> gmap option \<times> gval) res" where
  "command_call Op msg =
    (let ctx = (case GetMapData (payload_val msg) ''ctx'' of None \<Rightarrow> GNil | Some v \<Rightarrow> v); E = oe Op in
     case GetMapData (payload_val msg) ''function'' of
       None \<Rightarrow> Inl (PanicStr ''[operator] no function received'')
     | Some funcDef \<Rightarrow>
     (case oe_decode Op funcDef of
       None \<Rightarrow> Inl (PanicStr ''[operator] invalid function received'')
     | Some function \<Rightarrow>
     rbind (collapseFunction (e_ext E) (oe_cfg Op) (oe_depth Op) None function) (\<lambda>(driver, rawaction, params, sysData).
     if \<not> oe_has Op (feature_of driver) then Inl (PanicErr (''operator error: not defined: '' @ driver))
     else
     rbind (case params of
         None \<Rightarrow> Inr (ctx, None)
       | Some ps \<Rightarrow>
           rbind (if ctx = GNil then Inr ctx
                  else rbind (interpolate E ctx (call_env msg sysData ctx params)) (\<lambda>v.
                    rmap GMap (assert_type (as_map v)))) (\<lambda>ctx'.
           rbind (interpolate_map E params (call_env msg sysData ctx' params)) (\<lambda>final.
           Inr (ctx', final)))) (\<lambda>(ctx', final).
     rbind (case final of
         None \<Rightarrow> Inr None
       | Some fm \<Rightarrow> rmap Some (recursive_fields [] (GetDecryptFunc (e_ext E) (oe_call Op)) fm)) (\<lambda>final'.
     Inr (feature_of driver, rawaction, final', ctx'))))))"

text \<open>
  The labels that control the driver: the option is read from the context, then from the parameters.
  A panic leaves the labels as they are at this point.
\<close>

fun option_labels :: "env \<Rightarrow> string list \<Rightarrow> gmap \<Rightarrow> (string, string) gomap \<Rightarrow>
    ((string, string) gomap \<times> gopanic) + (string, string) gomap" where
  "option_labels E [] data ls = Inr ls"
| "option_labels E (name # names) data ls =
     (case interpolate_str E (''$?ctx.'' @ name @ '',params.'' @ name) data of
        Inl e \<Rightarrow> Inl (ls, e)
      | Inr v \<Rightarrow> option_labels E names data (if v \<noteq> [] then mput name v (mdel name ls) else mdel name ls))"

text \<open>The deferred function: the session gets an error for a command that is not sent.\<close>

definition command_failed :: "openv \<Rightarrow> (string, string) gomap \<Rightarrow> gopanic \<Rightarrow> (string \<times> Message) list res \<times> Message list" where
  "command_failed Op ls e =
    (if fatal e \<or> mget_str ls ''sessionID'' = [] then (Inl e, [])
     else if oe_has Op ChannelEventbus then
       (Inl e, [zero_message\<lparr>Channel := ChannelEventbus, Subject := EventbusReturn,
          Labels := Some (mput ''reason'' (oe_text Op e) (mput ''status'' ''error'' ls))\<rparr>])
     else (Inl NilDereference, []))"

text \<open>The routed messages, or the panic, and what was sent on the event bus meanwhile.\<close>

definition handleEventbusCommand :: "openv \<Rightarrow> Message \<Rightarrow> (string \<times> Message) list res \<times> Message list" where
  "handleEventbusCommand Op msg0 =
    (case rbind (DeserializePayload (e_ext (oe Op)) msg0) (\<lambda>msg. rmap (Pair msg) (command_call Op msg)) of
       Inl e \<Rightarrow> command_failed Op (labels msg0) e
     | Inr (msg, worker, rawaction, finalParams, ctx) \<Rightarrow>
         (case option_labels (oe Op) [''retry'', ''backoff_ms'', ''timeout''] [(''ctx'', ctx), (''params'', omap_val finalParams)]
             (mput ''method'' rawaction (labels msg)) of
            Inl (ls, e) \<Rightarrow> command_failed Op ls e
          | Inr ls \<Rightarrow> (Inr [(worker, msg\<lparr>Payload := PVal (omap_val finalParams), Labels := Some ls\<rparr>)], [])))"

definition operatorRoute :: "openv \<Rightarrow> Message \<Rightarrow> (string \<times> Message) list res \<times> Message list" where
  "operatorRoute Op msg =
    (if Channel msg = ChannelEventbus \<and> Subject msg = EventbusCommand then
       (case handleEventbusCommand Op msg of
          (Inl e, sent) \<Rightarrow> (if fatal e then Inl e else Inr [], sent)
        | r \<Rightarrow> r)
     else if Channel msg = ChannelEventbus \<and> (Subject msg = EventbusReturn \<or> Subject msg = EventbusMessage) then
       (Inr [(ChannelEventbus, msg)], [])
     else (Inr [], []))"

section \<open>Starting workflows\<close>

definition rules_of :: "rule_map \<Rightarrow> string \<Rightarrow> CollapsedRule list" where
  "rules_of m key = (case map_of m key of None \<Rightarrow> [] | Some rs \<Rightarrow> rs)"

text \<open>The rules that wait for a raw event, in the order of the configuration.\<close>

definition collapsed_for :: "env \<Rightarrow> nat \<Rightarrow> DataSet \<Rightarrow> string \<Rightarrow> Rule \<Rightarrow> CollapsedRule list" where
  "collapsed_for E n c key rule = (case collapse_rule E n c rule of
     Some (Inr (k, cr)) \<Rightarrow> if k = key then [cr] else [] | _ \<Rightarrow> [])"

definition rules_for :: "env \<Rightarrow> nat \<Rightarrow> DataSet \<Rightarrow> string \<Rightarrow> CollapsedRule list" where
  "rules_for E n c key = concat (map (collapsed_for E n c key) (Rules c))"

lemma rules_of_add_rule [simp]:
  "rules_of (add_rule k cr m) key = rules_of m key @ (if k = key then [cr] else [])"
  by (simp add: rules_of_def add_rule_def)

lemma rule_loop_rules:
  "rule_loop E n c rules m = Some (Inr m') \<Longrightarrow>
    rules_of m' key = rules_of m key @ concat (map (collapsed_for E n c key) rules)"
  by (induction E n c rules m rule: rule_loop.induct)
    (auto simp: collapsed_for_def split: option.splits sum.splits if_splits)

lemma buildRuleMap_rules: "buildRuleMap E n c = Some (Inr m) \<Longrightarrow> rules_of m key = rules_for E n c key"
  using rule_loop_rules [of E n c "Rules c" "[]" m key] by (simp add: buildRuleMap_def rules_for_def rules_of_def)

text \<open>The rules that an event message asks for, event by event; the panic of a rule, in its condition or in its
  exports; and the goroutines that the rules with a true condition start.\<close>

definition waiting_rules :: "env \<Rightarrow> nat \<Rightarrow> DataSet \<Rightarrow> string list \<Rightarrow> (string \<times> CollapsedRule) list" where
  "waiting_rules E n c evs = concat (map (\<lambda>ev. map (Pair ev) (rules_for E n c ev)) evs)"

definition rule_panic :: "env \<Rightarrow> gval \<Rightarrow> string \<times> CollapsedRule \<Rightarrow> gopanic option" where
  "rule_panic E data er = (case rule_matches E data (snd er) of
     Inl e \<Rightarrow> Some e
   | Inr m \<Rightarrow> if m then (case rule_ctx E (fst er) data (snd er) of Inl e \<Rightarrow> Some e | Inr _ \<Rightarrow> None) else None)"

definition starts :: "env \<Rightarrow> Message \<Rightarrow> gval \<Rightarrow> (string \<times> CollapsedRule) list \<Rightarrow> task list" where
  "starts E msg data ers =
    [TStart (Do (cr_OriginalRule r)) msg (Some (case rule_ctx E ev data r of Inl _ \<Rightarrow> [] | Inr ctx \<Rightarrow> ctx)).
      (ev, r) \<leftarrow> ers, rule_matches E data r = Inr True]"

text \<open>A reference for the loops: the rules are started up to the first one that panics.\<close>

definition start_until_panic :: "env \<Rightarrow> Message \<Rightarrow> gval \<Rightarrow> (string \<times> CollapsedRule) list \<Rightarrow> unit wm" where
  "start_until_panic E msg data ers s =
    (case find (\<lambda>er. rule_panic E data er \<noteq> None) ers of None \<Rightarrow> Done () | Some er \<Rightarrow> Panicked (the (rule_panic E data er)),
     s\<lparr>tasks := tasks s @ starts E msg data (takeWhile (\<lambda>er. rule_panic E data er = None) ers)\<rparr>)"

lemma start_until_panic_Nil [simp]: "start_until_panic E msg data [] = skip"
  by (rule ext) (simp add: start_until_panic_def starts_def skip_def wret_def)

lemma start_until_panic_Cons:
  "start_until_panic E msg data ((ev, r) # ers) =
    wseq (wbind (wlift (rule_matches E data r)) (\<lambda>match.
      if match then wbind (wlift (rule_ctx E ev data r)) (\<lambda>ctx. spawn (TStart (Do (cr_OriginalRule r)) msg (Some ctx)))
      else skip)) (start_until_panic E msg data ers)"
  by (rule ext) (auto simp: start_until_panic_def rule_panic_def starts_def wseq_def wbind_def wlift_def wret_def wpanic_def
      spawn_def skip_def split: sum.splits prod.splits)

lemma start_until_panic_append:
  "start_until_panic E msg data (ers @ ers') = wseq (start_until_panic E msg data ers) (start_until_panic E msg data ers')"
  by (induction ers) (auto simp: start_until_panic_Cons wseq_assoc wseq_skip)

lemma fire_rules_until_panic:
  "fire_rules E msg ev data rules = start_until_panic E msg data (map (Pair ev) rules)"
  by (induction rules) (simp_all add: start_until_panic_Cons)

lemma fire_events_until_panic:
  assumes "\<And>ev. rules_of m ev = rules_for E n c ev"
  shows "fire_events E m msg data (map GStr evs) = start_until_panic E msg data (waiting_rules E n c evs)"
proof (induction evs)
  case (Cons ev evs)
  have "(case map_of m ev of None \<Rightarrow> [] | Some rules \<Rightarrow> rules) = rules_for E n c ev" using assms [of ev] by (simp add: rules_of_def)
  with Cons show ?case
    by (simp add: waiting_rules_def start_until_panic_append fire_rules_until_panic wbind_lift_Inr)
qed (simp add: waiting_rules_def)

text \<open>An event message: no workflow of its own, and the events it reports.\<close>

definition event_message :: "Message \<Rightarrow> string list \<Rightarrow> gval \<Rightarrow> bool" where
  "event_message msg evs data \<longleftrightarrow> GetMapData (payload_val msg) ''do'' = None \<and>
     GetMapData (payload_val msg) ''events'' = Some (GList (map GStr evs)) \<and>
     (case GetMapData (payload_val msg) ''data'' of None \<Rightarrow> GNil | Some d \<Rightarrow> d) = data"

lemma createSessions_event:
  assumes "DeserializePayload (e_ext E) msg0 = Inr msg" and "event_message msg evs data"
  shows "createSessions E m msg0 s = SafeExitOnError (fire_events E m msg data (map GStr evs)) s"
  using assms by (simp add: createSessions_def event_message_def SafeExitOnError_def wcatch_def wbind_def wlift_def wret_def)

text \<open>
  C12: a message that reports a list of events starts one session for each event and each rule that waits for it
  and whose condition the data meets, in the order of the events and of the configuration, with the context
  that the rule exports, up to the first rule that panics in its condition or in its exports: exactly
  the matching rules before it are started, and none from it on. The panic is caught by the handler unless it is fatal.
\<close>

theorem event_starts_rules:
  assumes "buildRuleMap E n c = Some (Inr ruleMap)" and "DeserializePayload (e_ext E) msg0 = Inr msg"
    and "event_message msg evs data"
  shows "createSessions E ruleMap msg0 s =
    (case find (\<lambda>er. rule_panic E data er \<noteq> None) (waiting_rules E n c evs) of
       None \<Rightarrow> Done ()
     | Some er \<Rightarrow> if fatal (the (rule_panic E data er)) then Panicked (the (rule_panic E data er)) else Done (),
     s\<lparr>tasks := tasks s @ starts E msg data (takeWhile (\<lambda>er. rule_panic E data er = None) (waiting_rules E n c evs))\<rparr>)"
proof -
  have "rules_of ruleMap ev = rules_for E n c ev" for ev
    using buildRuleMap_rules [OF assms(1)] .
  from fire_events_until_panic [of ruleMap E n c, OF this] show ?thesis
    by (simp add: createSessions_event [OF assms(2,3)] SafeExitOnError_def wcatch_def start_until_panic_def skip_def wret_def split: option.splits)
qed

text \<open>
  The conditions of the rules for one event are not isolated from each other: when matching the
  first rule panics, no rule of this event, and of the events reported after it, is started.
\<close>

theorem bad_rule_blocks:
  assumes "DeserializePayload (e_ext E) msg0 = Inr msg" and "event_message msg (ev # evs) data"
    and "rules_of ruleMap ev = bad # rules" and "rule_matches E data bad = Inl e" and "\<not> fatal e"
  shows "createSessions E ruleMap msg0 s = (Done (), s)"
  using assms(3-5)
  by (simp add: createSessions_event [OF assms(1,2)] rules_of_def SafeExitOnError_def wcatch_def wseq_def wbind_def
      wlift_def wpanic_def wret_def skip_def split: option.splits)

definition sample_rule :: "gmap option \<Rightarrow> Rule" where
  "sample_rule match = \<lparr>When = zero_trigger\<lparr>tr_Driver := ''webhook'', tr_RawEvent := ''push'', tr_Match := match\<rparr>,
     Do = zero_workflow\<rparr>"

definition sample_rules :: DataSet where
  "sample_rules = \<lparr>Systems = [], Rules = [sample_rule (Some [(''url'', GStr ''/a'')]), sample_rule (Some [(''url'', GStr ''/b'')])],
     Drivers = None, Includes = [], Repos = [], Workflows = [], Contexts = None\<rparr>"

definition sample_event :: "gmap \<Rightarrow> Message" where
  "sample_event data = zero_message\<lparr>Payload := PVal (GMap [(''events'', GList [GStr ''webhook.push'']), (''data'', GMap data)])\<rparr>"

abbreviation sample_env :: env where
  "sample_env \<equiv> we sample_wfenv"

definition sample_rule_map :: rule_map where
  "sample_rule_map = (case buildRuleMap sample_env 3 sample_rules of Some (Inr m) \<Rightarrow> m | _ \<Rightarrow> [])"

theorem event_starts_rules_witness:
  "tasks (snd (createSessions sample_env sample_rule_map (sample_event [(''url'', GStr ''/b'')]) (NewSessionStore blank_session))) =
    [TStart zero_workflow (sample_event [(''url'', GStr ''/b'')]) (Some [(''_meta_event'', GStr ''driver:webhook.push'')])]"
proof -
  let ?msg = "sample_event [(''url'', GStr ''/b'')]" and ?data = "GMap [(''url'', GStr ''/b'')]"
  have "(case buildRuleMap sample_env 3 sample_rules of Some (Inr m) \<Rightarrow> True | _ \<Rightarrow> False)" by code_simp
  then have build: "buildRuleMap sample_env 3 sample_rules = Some (Inr sample_rule_map)"
    by (auto simp: sample_rule_map_def split: option.splits sum.splits)
  have msg: "DeserializePayload (e_ext sample_env) ?msg = Inr ?msg" "event_message ?msg [''webhook.push''] ?data"
    by code_simp+
  have "starts sample_env ?msg ?data (takeWhile (\<lambda>er. rule_panic sample_env ?data er = None) (waiting_rules sample_env 3 sample_rules [''webhook.push''])) =
      [TStart zero_workflow ?msg (Some [(''_meta_event'', GStr ''driver:webhook.push'')])]"
    by code_simp
  moreover have "tasks (NewSessionStore blank_session) = []" by (simp add: NewSessionStore_def)
  ultimately show ?thesis
    unfolding event_starts_rules [OF build msg] by simp
qed

definition sample_bad_map :: rule_map where
  "sample_bad_map = (let cr = (\<lambda>m. \<lparr>cr_Trigger = \<lparr>ct_Match = Some m, ct_Exports = [], ct_SysData = None,
      ct_Parameters = None, ct_SysName = []\<rparr>, cr_OriginalRule = sample_rule (Some m)\<rparr>) in
    [(''webhook.push'', [cr [(''tags'', GList [])], cr []])])"

theorem bad_rule_blocks_witness:
  "createSessions sample_env sample_bad_map (sample_event [(''tags'', GList [GStr ''x''])]) (NewSessionStore blank_session) =
    (Done (), NewSessionStore blank_session)"
proof -
  let ?msg = "sample_event [(''tags'', GList [GStr ''x''])]" and ?data = "GMap [(''tags'', GList [GStr ''x''])]"
  have msg: "DeserializePayload (e_ext sample_env) ?msg = Inr ?msg" "event_message ?msg [''webhook.push''] ?data"
    by code_simp+
  have rules: "rules_of sample_bad_map ''webhook.push'' =
      hd (rules_of sample_bad_map ''webhook.push'') # tl (rules_of sample_bad_map ''webhook.push'')"
    by code_simp
  have bad: "rule_matches sample_env ?data (hd (rules_of sample_bad_map ''webhook.push'')) = Inl IndexOutOfRange"
    by code_simp
  show ?thesis by (rule bad_rule_blocks [OF msg rules bad]) code_simp
qed

section \<open>Telling the drivers\<close>

definition listed :: "features \<Rightarrow> string \<Rightarrow> string \<Rightarrow> CollapsedTrigger list" where
  "listed dyn feature name = (case map_of dyn feature of None \<Rightarrow> []
     | Some m \<Rightarrow> (case map_of m name of None \<Rightarrow> [] | Some l \<Rightarrow> l))"

lemma listed_add_feature [simp]:
  "listed (add_feature f e ct dyn) feature name = listed dyn feature name @ (if f = feature \<and> e = name then [ct] else [])"
  by (auto simp: listed_def add_feature_def Let_def split: option.splits)

text \<open>What the driver of a feature is told about an event.\<close>

definition told :: "env \<Rightarrow> nat \<Rightarrow> DataSet \<Rightarrow> string \<Rightarrow> string \<Rightarrow> Rule \<Rightarrow> CollapsedTrigger list" where
  "told E n c feature name rule = (case CollapseTrigger E n (When rule) c of
     Some (Inr (raw, ct)) \<Rightarrow> if ''driver:'' @ tr_Driver raw = feature \<and> event_name rule = name then [ct] else []
   | _ \<Rightarrow> [])"

lemma feature_loop_told:
  "feature_loop E n c rules d = Some (Inr d') \<Longrightarrow>
    listed (fst d') feature name = listed (fst d) feature name @ concat (map (told E n c feature name) rules)"
  by (induction E n c rules d rule: feature_loop.induct)
    (auto simp: told_def split: option.splits sum.splits if_splits)

lemma feature_loop_adds:
  assumes "feature_loop E n c rules d = Some (Inr d')" and "rule \<in> set rules"
    and "CollapseTrigger E n (When rule) c = Some (Inr (raw, ct))"
  shows "ct \<in> set (listed (fst d') (''driver:'' @ tr_Driver raw) (event_name rule))"
proof -
  have "ct \<in> set (told E n c (''driver:'' @ tr_Driver raw) (event_name rule) rule)"
    using assms(3) by (simp add: told_def)
  with assms(2) show ?thesis unfolding feature_loop_told [OF assms(1)] by auto
qed

lemma feature_loop_count:
  "feature_loop E n c rules d = Some (Inr d') \<Longrightarrow>
    snd d' = snd d + length (filter (\<lambda>r. case CollapseTrigger E n (When r) c of Some (Inr _) \<Rightarrow> True | _ \<Rightarrow> False) rules)"
  by (induction E n c rules d rule: feature_loop.induct) (auto split: option.splits sum.splits if_splits)

text \<open>
  C26: the receiver and the engine agree: a rule that the engine waits for is reported to the driver
  whose raw event it is registered under, with its collapsed trigger, under the event of the rule; the
  number reported is the number of rules that can be collapsed.
\<close>

theorem receiver_covers_rules:
  assumes "buildRuleMap E n c = Some (Inr ruleMap)" and "ReceiverFeatures E n c = Some (Inr (dyn, count))"
    and "cr \<in> set (rules_of ruleMap key)"
  shows "\<exists>rule raw ct. rule \<in> set (Rules c) \<and> cr_OriginalRule cr = rule \<and> key = raw_key raw \<and>
    CollapseTrigger E n (When rule) c = Some (Inr (raw, ct)) \<and>
    compile_match (e_ext E) (ct_Match ct) = Inr (ct_Match (cr_Trigger cr)) \<and>
    ct \<in> set (listed dyn (''driver:'' @ tr_Driver raw) (event_name rule)) \<and>
    count = length (filter (\<lambda>r. case CollapseTrigger E n (When r) c of Some (Inr _) \<Rightarrow> True | _ \<Rightarrow> False) (Rules c))"
proof -
  have "cr \<in> set (rules_for E n c key)" using assms(3) buildRuleMap_rules [OF assms(1)] by simp
  then obtain rule where rule: "rule \<in> set (Rules c)" "collapse_rule E n c rule = Some (Inr (key, cr))"
    by (auto simp: rules_for_def collapsed_for_def split: option.splits sum.splits if_splits)
  then obtain raw ct match where ct: "CollapseTrigger E n (When rule) c = Some (Inr (raw, ct))"
    "compile_match (e_ext E) (ct_Match ct) = Inr match" "key = raw_key raw"
    "cr = \<lparr>cr_Trigger = ct\<lparr>ct_Match := match\<rparr>, cr_OriginalRule = rule\<rparr>"
    by (auto simp: collapse_rule_def rbind_Inr_conv)
  have "ct \<in> set (listed dyn (''driver:'' @ tr_Driver raw) (event_name rule))"
    using feature_loop_adds [of E n c "Rules c" "([], 0)" "(dyn, count)" rule raw ct] assms(2) rule(1) ct(1)
    by (simp add: ReceiverFeatures_def)
  moreover have "count = length (filter (\<lambda>r. case CollapseTrigger E n (When r) c of Some (Inr _) \<Rightarrow> True | _ \<Rightarrow> False) (Rules c))"
    using feature_loop_count [of E n c "Rules c" "([], 0)" "(dyn, count)"] assms(2) by (simp add: ReceiverFeatures_def)
  ultimately show ?thesis using rule(1) ct by (intro exI [of _ rule] exI [of _ raw] exI [of _ ct]) simp
qed

definition sample_features :: "features \<times> nat" where
  "sample_features = (case ReceiverFeatures sample_env 3 sample_rules of Some (Inr d) \<Rightarrow> d | _ \<Rightarrow> ([], 0))"

theorem receiver_covers_rules_witness:
  "\<exists>rule raw. rule \<in> set (Rules sample_rules) \<and> ''webhook.push'' = raw_key raw \<and> snd sample_features = 2 \<and>
    listed (fst sample_features) (''driver:'' @ tr_Driver raw) (event_name rule) \<noteq> []"
proof -
  have "(case buildRuleMap sample_env 3 sample_rules of Some (Inr m) \<Rightarrow> True | _ \<Rightarrow> False)"
    "(case ReceiverFeatures sample_env 3 sample_rules of Some (Inr m) \<Rightarrow> True | _ \<Rightarrow> False)"
    by code_simp+
  then have "buildRuleMap sample_env 3 sample_rules = Some (Inr sample_rule_map)"
    "ReceiverFeatures sample_env 3 sample_rules = Some (Inr (fst sample_features, snd sample_features))"
    by (auto simp: sample_rule_map_def sample_features_def split: option.splits sum.splits)
  note ok = receiver_covers_rules [OF this]
  have "hd (rules_of sample_rule_map ''webhook.push'') \<in> set (rules_of sample_rule_map ''webhook.push'')"
    "length (filter (\<lambda>r. case CollapseTrigger sample_env 3 (When r) sample_rules of Some (Inr _) \<Rightarrow> True | _ \<Rightarrow> False)
      (Rules sample_rules)) = 2"
    by code_simp+
  with ok show ?thesis by (metis empty_iff empty_set)
qed

section \<open>The operator\<close>

lemma option_labels_keep:
  assumes "k \<notin> set names"
  shows "option_labels E names data ls = Inr ls' \<Longrightarrow> map_of ls' k = map_of ls k"
    and "option_labels E names data ls = Inl (ls', e) \<Longrightarrow> map_of ls' k = map_of ls k"
  using assms by (induction E names data ls rule: option_labels.induct) (auto split: sum.splits if_splits)

lemma DeserializePayload_same:
  "DeserializePayload X msg = Inr msg' \<Longrightarrow> Labels msg' = Labels msg \<and> Channel msg' = Channel msg \<and> Subject msg' = Subject msg"
  by (auto simp: DeserializePayload_def rbind_Inr_conv split: if_splits)

text \<open>The function that a call refers to.\<close>

definition target :: "DataSet \<Rightarrow> Function \<Rightarrow> Function option" where
  "target c f = (if fn_Driver f \<noteq> [] then None
     else case map_of (Systems c) (fn_TargetSystem f) of
       None \<Rightarrow> None | Some sys \<Rightarrow> map_of (sys_Functions sys) (fn_TargetFunction f))"

text \<open>The functions along the references, from the driver's function outwards, and their parameters merged in this order.\<close>

inductive call_path :: "DataSet \<Rightarrow> Function \<Rightarrow> Function list \<Rightarrow> bool" for c where
  raw: "fn_Driver f \<noteq> [] \<Longrightarrow> fn_TargetSystem f = [] \<Longrightarrow> call_path c f [f]"
| refers: "target c f = Some g \<Longrightarrow> call_path c g fs \<Longrightarrow> call_path c f (fs @ [f])"

fun merge_layers :: "ext \<Rightarrow> gmap option list \<Rightarrow> gmap option \<Rightarrow> gmap option res" where
  "merge_layers X [] dst = Inr dst"
| "merge_layers X (src # srcs) dst = rbind (merge_copy X src dst) (merge_layers X srcs)"

lemma merge_layers_append: "merge_layers X (as @ bs) dst = rbind (merge_layers X as dst) (merge_layers X bs)"
proof (induction as arbitrary: dst)
  case (Cons a as)
  then have "merge_layers X (as @ bs) = (\<lambda>x. rbind (merge_layers X as x) (merge_layers X bs))" by blast
  then show ?case by (simp add: rbind_assoc)
qed simp

lemma collapse_path:
  "collapseFunction X c n s f = Inr (driver, rawaction, params, sysData) \<Longrightarrow>
    \<exists>fs. call_path c f fs \<and> driver = fn_Driver (hd fs) \<and> rawaction = fn_RawAction (hd fs) \<and>
      merge_layers X (map fn_Parameters fs) None = Inr params"
proof (induction X c n s f arbitrary: driver rawaction params sysData rule: collapseFunction.induct)
  case (1 X c n s f)
  show ?case
  proof (cases "fn_Driver f = []")
    case True
    then obtain sys g n' ps sd where g: "map_of (Systems c) (fn_TargetSystem f) = Some sys"
      "map_of (sys_Functions sys) (fn_TargetFunction f) = Some g" "n = Suc n'"
      "collapseFunction X c n' (Some sys) g = Inr (driver, rawaction, ps, sd)"
      "merge_copy X (fn_Parameters f) ps = Inr params"
      using "1.prems" by (subst (asm) collapseFunction.simps)
        (auto simp: rbind_Inr_conv Let_def split: option.splits nat.splits)
    from "1.IH" [OF True g(1-4)] obtain fs where fs: "call_path c g fs" "driver = fn_Driver (hd fs)"
      "rawaction = fn_RawAction (hd fs)" "merge_layers X (map fn_Parameters fs) None = Inr ps"
      by blast
    have "fs \<noteq> []" using fs(1) by (cases rule: call_path.cases) auto
    moreover have "call_path c f (fs @ [f])" using fs(1) g(1,2) True by (intro call_path.refers) (simp_all add: target_def)
    ultimately show ?thesis
      using fs(2-4) g(5) by (intro exI [of _ "fs @ [f]"]) (simp add: merge_layers_append rbind_Inr_right)
  next
    case False
    then show ?thesis
      using "1.prems" by (subst (asm) collapseFunction.simps)
        (auto simp: rbind_Inr_conv intro!: exI [of _ "[f]"] call_path.raw split: if_splits)
  qed
qed

text \<open>The functions that a command is collapsed along, from the driver's function to the one in its payload.\<close>

definition command_path :: "openv \<Rightarrow> Message \<Rightarrow> Function list \<Rightarrow> bool" where
  "command_path Op msg fs \<longleftrightarrow> (\<exists>funcDef f. GetMapData (payload_val msg) ''function'' = Some funcDef \<and>
     oe_decode Op funcDef = Some f \<and> call_path (oe_cfg Op) f fs)"

lemma command_call_worker:
  assumes "command_call Op msg = Inr (worker, rawaction, ps, ctx)"
  shows "oe_has Op worker" and "\<exists>fs. command_path Op msg fs \<and> worker = feature_of (fn_Driver (hd fs)) \<and> rawaction = fn_RawAction (hd fs)"
proof -
  from assms obtain funcDef f driver params sysData where f: "GetMapData (payload_val msg) ''function'' = Some funcDef" "oe_decode Op funcDef = Some f"
    "collapseFunction (e_ext (oe Op)) (oe_cfg Op) (oe_depth Op) None f = Inr (driver, rawaction, params, sysData)" "worker = feature_of driver" "oe_has Op worker"
    by (auto simp: command_call_def Let_def rbind_Inr_conv split: option.splits if_splits)
  then show "oe_has Op worker" by simp
  from collapse_path [OF f(3)] f show "\<exists>fs. command_path Op msg fs \<and> worker = feature_of (fn_Driver (hd fs)) \<and> rawaction = fn_RawAction (hd fs)"
    unfolding command_path_def by metis
qed

lemma handle_cases:
  assumes "label msg ''sessionID'' = Some sid" and "sid \<noteq> []" and "oe_has Op ChannelEventbus"
  shows "(\<exists>e. handleEventbusCommand Op msg = (Inl e, []) \<and> fatal e) \<or>
    (\<exists>e ls. handleEventbusCommand Op msg = (Inl e, [zero_message\<lparr>Channel := ChannelEventbus, Subject := EventbusReturn,
        Labels := Some (mput ''reason'' (oe_text Op e) (mput ''status'' ''error'' ls))\<rparr>]) \<and> \<not> fatal e \<and>
        map_of ls ''sessionID'' = Some sid) \<or>
    (\<exists>m msg' fs. handleEventbusCommand Op msg = (Inr [(feature_of (fn_Driver (hd fs)), m)], []) \<and> oe_has Op (feature_of (fn_Driver (hd fs))) \<and>
        DeserializePayload (e_ext (oe Op)) msg = Inr msg' \<and> command_path Op msg' fs \<and>
        label m ''sessionID'' = Some sid \<and> label m ''method'' = Some (fn_RawAction (hd fs)))"
proof -
  let ?r = "rbind (DeserializePayload (e_ext (oe Op)) msg) (\<lambda>m. rmap (Pair m) (command_call Op m))"
  have sid: "map_of (labels msg) ''sessionID'' = Some sid" using assms(1) by (simp add: label_def)
  have failed: "command_failed Op ls e = (if fatal e then (Inl e, []) else (Inl e, [zero_message\<lparr>Channel := ChannelEventbus,
      Subject := EventbusReturn, Labels := Some (mput ''reason'' (oe_text Op e) (mput ''status'' ''error'' ls))\<rparr>]))"
    if "map_of ls ''sessionID'' = Some sid" for ls e
    using that assms(2,3) by (simp add: command_failed_def mget_str_def)
  show ?thesis
  proof (cases ?r)
    case (Inl e)
    then show ?thesis using failed [OF sid] sid by (simp add: handleEventbusCommand_def) blast
  next
    case (Inr p)
    then obtain m worker rawaction ps ctx where p: "p = (m, worker, rawaction, ps, ctx)"
      "DeserializePayload (e_ext (oe Op)) msg = Inr m" "command_call Op m = Inr (worker, rawaction, ps, ctx)"
      by (auto simp: rbind_Inr_conv rmap_def)
    let ?ls = "mput ''method'' rawaction (labels m)"
    have lsid: "map_of ?ls ''sessionID'' = Some sid" using sid DeserializePayload_same [OF p(2)] by (simp add: labels_def)
    note keep = option_labels_keep [where ls = ?ls and names = "[''retry'', ''backoff_ms'', ''timeout'']"]
    show ?thesis
    proof (cases "option_labels (oe Op) [''retry'', ''backoff_ms'', ''timeout''] [(''ctx'', ctx), (''params'', omap_val ps)] ?ls")
      case (Inl q)
      then obtain ls e where q: "q = (ls, e)" by (cases q)
      have "map_of ls ''sessionID'' = Some sid" using keep(2) [of "''sessionID''"] Inl q lsid by auto
      then show ?thesis using failed Inl Inr p(1) q by (simp add: handleEventbusCommand_def) blast
    next
      case (Inr ls)
      obtain fs where fs: "command_path Op m fs" "worker = feature_of (fn_Driver (hd fs))" "rawaction = fn_RawAction (hd fs)"
        using command_call_worker(2) [OF p(3)] by blast
      have "map_of ls ''sessionID'' = Some sid" "map_of ls ''method'' = Some (fn_RawAction (hd fs))"
        using keep(1) [of "''sessionID''"] keep(1) [of "''method''"] Inr lsid fs(3) by auto
      then show ?thesis
        using Inr \<open>?r = Inr p\<close> p(1,2) command_call_worker(1) [OF p(3)] fs(1,2)
        by (intro disjI2 exI [of _ "m\<lparr>Payload := PVal (omap_val ps), Labels := Some ls\<rparr>"] exI [of _ m] exI [of _ fs])
          (simp add: handleEventbusCommand_def label_def labels_def)
    qed
  qed
qed

text \<open>
  C25: no command of a session gets lost in the operator. When the event bus is loaded and no error is fatal,
  a command with a session ID is either handed, as one message, to the driver of the last function
  that its function refers to, which is loaded, with its session and that function's raw action in the
  labels, or nothing is routed and it is answered by one error return that makes the engine continue the session.
\<close>

theorem operator_never_drops:
  assumes "Channel msg = ChannelEventbus" and "Subject msg = EventbusCommand"
    and "label msg ''sessionID'' = Some sid" and "sid \<noteq> []" and "oe_has Op ChannelEventbus"
    and "operatorRoute Op msg = (Inr routed, sent)"
  shows "(\<exists>m msg' fs. routed = [(feature_of (fn_Driver (hd fs)), m)] \<and> sent = [] \<and> oe_has Op (feature_of (fn_Driver (hd fs))) \<and>
      DeserializePayload (e_ext (oe Op)) msg = Inr msg' \<and> command_path Op msg' fs \<and>
      label m ''sessionID'' = Some sid \<and> label m ''method'' = Some (fn_RawAction (hd fs))) \<or>
    (\<exists>m. routed = [] \<and> sent = [m] \<and> label m ''status'' = Some ''error'' \<and>
      continueSession X m s = (Done (), s\<lparr>tasks := tasks s @ [TContinue sid m []]\<rparr>))"
proof -
  have "continueSession X m s = (Done (), s\<lparr>tasks := tasks s @ [TContinue sid m []]\<rparr>)"
    if "label m ''sessionID'' = Some sid" "\<not> IsRaw m" for m
    using that by (simp add: continueSession_def DeserializePayload_def SafeExitOnError_def wcatch_def wbind_def wlift_def
        wret_def spawn_def)
  then show ?thesis
    using handle_cases [OF assms(3-5)] assms(1,2,6)
    by (auto simp: operatorRoute_def label_def labels_def zero_message_def)
qed

definition sample_web :: DataSet where
  "sample_web = \<lparr>Systems = [(''site'', zero_system\<lparr>sys_Functions := [(''get'', zero_function\<lparr>fn_Driver := ''web'',
       fn_RawAction := ''request''\<rparr>), (''again'', zero_function\<lparr>fn_TargetSystem := ''site'', fn_TargetFunction := ''again''\<rparr>)]\<rparr>)],
     Rules = [], Drivers = None, Includes = [], Repos = [], Workflows = [], Contexts = None\<rparr>"

definition sample_op :: openv where
  "sample_op = \<lparr>oe = sample_env, oe_cfg = sample_web,
     oe_decode = (\<lambda>v. case v of GStr fn \<Rightarrow> Some (zero_function\<lparr>fn_TargetSystem := ''site'', fn_TargetFunction := fn\<rparr>) | _ \<Rightarrow> None),
     oe_call = (\<lambda>_ _ p. p), oe_has = (\<lambda>d. d = ''eventbus'' \<or> d = ''driver:web''), oe_text = (\<lambda>_. ''panic''), oe_depth = 5\<rparr>"

definition sample_command :: "string \<Rightarrow> Message" where
  "sample_command fn = zero_message\<lparr>Channel := ''eventbus'', Subject := ''command'', Labels := Some [(''sessionID'', ''7'')],
     Payload := PVal (GMap [(''function'', GStr fn)])\<rparr>"

theorem operator_never_drops_witness:
  "\<exists>m. snd (operatorRoute sample_op (sample_command ''put'')) = [m] \<and> label m ''status'' = Some ''error'' \<and>
    tasks (snd (continueSession no_ext m (NewSessionStore blank_session))) = [TContinue ''7'' m []]"
proof -
  let ?r = "operatorRoute sample_op (sample_command ''put'')"
  have cmd: "Channel (sample_command ''put'') = ChannelEventbus" "Subject (sample_command ''put'') = EventbusCommand"
    "label (sample_command ''put'') ''sessionID'' = Some ''7''" "''7'' \<noteq> []" "oe_has sample_op ChannelEventbus"
    by code_simp+
  have out: "fst ?r = Inr []" "length (snd ?r) = 1" by code_simp+
  then have "?r = (Inr [], snd ?r)" by (metis prod.collapse)
  from operator_never_drops [OF cmd this, of no_ext "NewSessionStore blank_session"] show ?thesis
    by (auto simp: NewSessionStore_def)
qed

text \<open>The function reached after \<open>k\<close> references.\<close>

fun target_chain :: "DataSet \<Rightarrow> nat \<Rightarrow> Function \<Rightarrow> Function option" where
  "target_chain c 0 f = Some f"
| "target_chain c (Suc k) f = (case target c f of None \<Rightarrow> None | Some g \<Rightarrow> target_chain c k g)"

lemma merge_copy_no_overflow: "merge_copy X src dst \<noteq> Inl StackOverflow"
  by (auto simp: merge_copy_def split: option.splits sum.splits)

lemma descend_no_overflow: "descend names m \<noteq> Inl StackOverflow"
  by (induction names m rule: descend.induct)
    (auto simp: rbind_Inl_conv assert_type_def split: option.splits)

lemma collapseFunction_overflow:
  "collapseFunction X c n s f = Inl StackOverflow \<longleftrightarrow> target_chain c (Suc n) f \<noteq> None"
proof (induction X c n s f rule: collapseFunction.induct)
  case (1 X c n s f)
  show ?case
    by (subst collapseFunction.simps)
      (auto simp: target_def rbind_Inl_conv rmap_def merge_copy_no_overflow descend_no_overflow Let_def 1
        split: option.splits nat.splits if_splits)
qed

lemma target_chain_add: "target_chain c (j + k) f = Option.bind (target_chain c j f) (target_chain c k)"
  by (induction j arbitrary: f) (auto split: option.splits)

lemma target_chain_mono: "target_chain c k f \<noteq> None \<Longrightarrow> j \<le> k \<Longrightarrow> target_chain c j f \<noteq> None"
  using target_chain_add [of c j "k - j" f] by (auto split: bind_splits)

lemma target_cycle:
  assumes "target_chain c (Suc k) f = Some f"
  shows "target_chain c n f \<noteq> None"
proof -
  have "target_chain c (m * Suc k) f = Some f" for m
  proof (induction m)
    case (Suc m)
    then show ?case using assms target_chain_add [of c "Suc k" "m * Suc k" f] by (simp del: target_chain.simps(2) add: add.left_commute)
  qed simp
  then have "target_chain c (n * Suc k) f \<noteq> None" by simp
  then show ?thesis by (rule target_chain_mono) simp
qed

lemma collapseFunction_bound:
  "collapseFunction X c n s f \<noteq> Inl StackOverflow \<Longrightarrow> n \<le> m \<Longrightarrow> collapseFunction X c m s f = collapseFunction X c n s f"
proof (induction X c n s f arbitrary: m rule: collapseFunction.induct)
  case (1 X c n s f)
  show ?case
  proof (cases "target c f")
    case None
    then show ?thesis
      by (simp add: target_def collapseFunction.simps [of X c m] collapseFunction.simps [of X c n] split: option.splits if_splits)
  next
    case (Some g)
    then have "n \<noteq> 0" using "1.prems"(1) by (cases n) (auto simp: collapseFunction_overflow)
    then obtain n' m' where nm: "n = Suc n'" "m = Suc m'" "n' \<le> m'" using "1.prems"(2) by (cases n; cases m) auto
    from Some obtain sys where sys: "fn_Driver f = []" "map_of (Systems c) (fn_TargetSystem f) = Some sys"
      "map_of (sys_Functions sys) (fn_TargetFunction f) = Some g"
      by (auto simp: target_def split: if_splits option.splits)
    have "collapseFunction X c n' (Some sys) g \<noteq> Inl StackOverflow"
      using "1.prems"(1) Some nm(1) by (simp add: collapseFunction_overflow)
    then have "collapseFunction X c m' (Some sys) g = collapseFunction X c n' (Some sys) g"
      using "1.IH" [OF sys nm(1)] nm(3) by blast
    then show ?thesis
      unfolding nm by (simp add: collapseFunction.simps [of X c "Suc _"] sys)
  qed
qed

text \<open>
  Collapsing a call ends exactly when the references from function to function end: it exceeds the
  bound \<open>n\<close> iff more than \<open>n\<close> references follow each other, a larger bound does not change a result,
  and a call that leads back to itself exceeds every bound.
\<close>

theorem collapseFunction_ends_iff:
  "(collapseFunction X c n s f = Inl StackOverflow \<longleftrightarrow> target_chain c (Suc n) f \<noteq> None) \<and>
   (target_chain c (Suc n) f = None \<longrightarrow> n \<le> m \<longrightarrow> collapseFunction X c m s f = collapseFunction X c n s f) \<and>
   (target_chain c (Suc k) f = Some f \<longrightarrow> collapseFunction X c n s f = Inl StackOverflow)"
  using collapseFunction_overflow collapseFunction_bound target_cycle by metis

theorem collapseFunction_ends_iff_witness:
  "collapseFunction no_ext sample_web 1000 None (zero_function\<lparr>fn_TargetSystem := ''site'', fn_TargetFunction := ''again''\<rparr>) =
    Inl StackOverflow"
proof -
  let ?f = "zero_function\<lparr>fn_TargetSystem := ''site'', fn_TargetFunction := ''again''\<rparr>"
  have "target_chain sample_web (Suc 0) ?f = Some ?f" by code_simp
  with collapseFunction_ends_iff [of no_ext sample_web 1000 None ?f 0 0] show ?thesis by blast
qed

text \<open>
  A call is collapsed along its references: driver and action are those of the last function
  reached, and the parameters are those of all functions merged one after the other from that function
  outwards, so that what the call itself gives is merged last.
\<close>

theorem collapseFunction_layers:
  assumes "collapseFunction X c n s f = Inr (driver, rawaction, params, sysData)"
  shows "\<exists>fs. call_path c f fs \<and> last fs = f \<and> driver = fn_Driver (hd fs) \<and> rawaction = fn_RawAction (hd fs) \<and>
    merge_layers X (map fn_Parameters fs) None = Inr params"
proof -
  obtain fs where fs: "call_path c f fs" "driver = fn_Driver (hd fs)" "rawaction = fn_RawAction (hd fs)"
    "merge_layers X (map fn_Parameters fs) None = Inr params"
    using collapse_path [OF assms] by blast
  from fs(1) have "last fs = f" by (cases rule: call_path.cases) auto
  with fs show ?thesis by blast
qed

theorem collapseFunction_layers_witness:
  "\<exists>fs. call_path sample_web (zero_function\<lparr>fn_TargetSystem := ''site'', fn_TargetFunction := ''get''\<rparr>) fs \<and>
     fn_Driver (hd fs) = ''web''"
proof -
  let ?f = "zero_function\<lparr>fn_TargetSystem := ''site'', fn_TargetFunction := ''get''\<rparr>"
  have "collapseFunction no_ext sample_web 3 None ?f = Inr (''web'', ''request'', None, None)" by code_simp
  from collapseFunction_layers [OF this] show ?thesis by metis
qed

end
