(* ===== verification/Paths.thy ===== *)
theory Paths
  imports Value
begin

text \<open>
  Go's \<open>path\<close> package as far as the configuration loader uses it (\<open>Clean\<close>, \<open>Join\<close> of two elements,
  \<open>Dir\<close>), and \<open>normalizeFilePath\<close> of \<open>internal/config/file_reference.go\<close>, which keeps the files
  that a configuration refers to inside its repository.
\<close>

section \<open>Clean paths\<close>

text \<open>One path element after the other, with the elements kept so far, the last one first.\<close>

fun clean_elems :: "bool \<Rightarrow> string list \<Rightarrow> string list \<Rightarrow> string list" where
  "clean_elems rooted acc [] = rev acc"
| "clean_elems rooted acc (e # es) =
     (if e = [] \<or> e = ''.'' then clean_elems rooted acc es
      else if e = ''..'' then
        (case acc of
           [] \<Rightarrow> clean_elems rooted (if rooted then [] else [''..'']) es
         | a # acc' \<Rightarrow> if a = ''..'' then clean_elems rooted (''..'' # acc) es else clean_elems rooted acc' es)
      else clean_elems rooted (e # acc) es)"

abbreviation is_rooted :: "string \<Rightarrow> bool" where
  "is_rooted p \<equiv> has_prefix p ''/''"

definition path_Clean :: "string \<Rightarrow> string" where
  "path_Clean p = (let es = clean_elems (is_rooted p) [] (split_on CHR ''/'' p); q = join_on CHR ''/'' es in
     if is_rooted p then CHR ''/'' # q else if es = [] then ''.'' else q)"

definition path_Join :: "string \<Rightarrow> string \<Rightarrow> string" where
  "path_Join a b =
    (if a = [] \<and> b = [] then []
     else path_Clean (if a = [] then b else if b = [] then a else a @ ''/'' @ b))"

definition path_Dir :: "string \<Rightarrow> string" where
  "path_Dir p = path_Clean (rev (dropWhile (\<lambda>c. c \<noteq> CHR ''/'') (rev p)))"

section \<open>Files of a repository\<close>

definition normalizeFilePath :: "string \<Rightarrow> string \<Rightarrow> string \<Rightarrow> string res" where
  "normalizeFilePath repo_root cwd file = (let fullpath = path_Clean (path_Join cwd file) in
     if has_prefix fullpath (repo_root @ ''/'') then Inr fullpath
     else Inl (PanicErr (''file error: invalid path: '' @ fullpath)))"

section \<open>Lemmas\<close>

text \<open>An element that names a directory entry.\<close>

definition plain_elem :: "string \<Rightarrow> bool" where
  "plain_elem e \<longleftrightarrow> e \<noteq> [] \<and> e \<noteq> ''.'' \<and> e \<noteq> ''..'' \<and> CHR ''/'' \<notin> set e"

definition abs_path :: "string list \<Rightarrow> string" where
  "abs_path es = CHR ''/'' # join_on CHR ''/'' es"

lemma split_on_elems: "e \<in> set (split_on c s) \<Longrightarrow> c \<notin> set e"
  by (induction c s arbitrary: e rule: split_on.induct) (auto split: if_splits list.splits)

text \<open>What one element adds to the elements kept.\<close>

definition push_elem :: "bool \<Rightarrow> string \<Rightarrow> string list \<Rightarrow> string list" where
  "push_elem rooted e acc =
    (if e = [] \<or> e = ''.'' then acc
     else if e = ''..'' then
       (case acc of [] \<Rightarrow> if rooted then [] else [''..''] | a # acc' \<Rightarrow> if a = ''..'' then ''..'' # acc else acc')
     else e # acc)"

lemma clean_elems_push: "clean_elems rooted acc (e # es) = clean_elems rooted (push_elem rooted e acc) es"
  by (simp add: push_elem_def split: list.split)

declare clean_elems.simps(2) [simp del]

lemma clean_elems_invariant:
  assumes "\<And>e acc. P e \<Longrightarrow> list_all Q acc \<Longrightarrow> list_all Q (push_elem rooted e acc)"
  shows "list_all P es \<Longrightarrow> list_all Q acc \<Longrightarrow> list_all Q (clean_elems rooted acc es)"
  by (induction es arbitrary: acc) (simp_all add: clean_elems_push assms list_all_rev)

lemma push_elem_rooted:
  assumes "CHR ''/'' \<notin> set e" and "list_all plain_elem acc"
  shows "list_all plain_elem (push_elem True e acc)"
  using assms by (cases acc) (auto simp: push_elem_def plain_elem_def)

lemma clean_elems_rooted:
  "list_all (\<lambda>e. CHR ''/'' \<notin> set e) es \<Longrightarrow> list_all plain_elem (clean_elems True [] es)"
  using clean_elems_invariant [of "\<lambda>e. CHR ''/'' \<notin> set e" plain_elem True] push_elem_rooted by simp

lemma split_on_all: "list_all (\<lambda>e. c \<notin> set e) (split_on c s)"
  using split_on_elems by (auto simp: list_all_iff)

lemma path_Clean_rooted:
  "is_rooted p \<Longrightarrow> \<exists>es. path_Clean p = abs_path es \<and> list_all plain_elem es"
  using clean_elems_rooted [OF split_on_all] by (auto simp: path_Clean_def abs_path_def Let_def)

lemma clean_elems_plain:
  "list_all plain_elem es \<Longrightarrow> clean_elems rooted acc es = rev acc @ es"
  by (induction es arbitrary: acc) (simp_all add: clean_elems_push push_elem_def plain_elem_def)

lemma split_abs_path:
  "list_all plain_elem es \<Longrightarrow> es \<noteq> [] \<Longrightarrow> split_on CHR ''/'' (abs_path es) = [] # es"
  using split_join [of es "CHR ''/''"] by (simp add: abs_path_def list_all_iff plain_elem_def)

lemma path_Clean_abs:
  assumes "list_all plain_elem es"
  shows "path_Clean (abs_path es) = abs_path es"
proof (cases "es = []")
  case True
  then show ?thesis by (simp add: path_Clean_def abs_path_def has_prefix_def clean_elems_push push_elem_def)
next
  case False
  have "clean_elems True [] ([] # es) = es"
    using clean_elems_plain [OF assms] by (simp add: clean_elems_push push_elem_def)
  then show ?thesis
    by (simp add: path_Clean_def split_abs_path [OF assms False] Let_def) (simp add: abs_path_def has_prefix_def)
qed

definition solid_elem :: "string \<Rightarrow> bool" where
  "solid_elem e \<longleftrightarrow> e \<noteq> [] \<and> CHR ''/'' \<notin> set e"

lemma push_elem_solid:
  assumes "CHR ''/'' \<notin> set e" and "list_all solid_elem acc"
  shows "list_all solid_elem (push_elem rooted e acc)"
  using assms by (cases acc) (auto simp: push_elem_def solid_elem_def)

lemma clean_elems_solid:
  "list_all (\<lambda>e. CHR ''/'' \<notin> set e) es \<Longrightarrow> list_all solid_elem (clean_elems rooted [] es)"
  using clean_elems_invariant [of "\<lambda>e. CHR ''/'' \<notin> set e" solid_elem rooted] push_elem_solid by simp

lemma join_solid: "list_all solid_elem es \<Longrightarrow> \<not> is_rooted (join_on CHR ''/'' es)"
  by (cases es; cases "tl es") (auto simp: has_prefix_def solid_elem_def neq_Nil_conv)

lemma path_Clean_relative: "\<not> is_rooted p \<Longrightarrow> \<not> is_rooted (path_Clean p)"
  using join_solid [OF clean_elems_solid [OF split_on_all]] by (simp add: path_Clean_def Let_def has_prefix_def)

text \<open>Cleaning a rooted path twice is cleaning it once.\<close>

lemma path_Clean_idem: "is_rooted p \<Longrightarrow> path_Clean (path_Clean p) = path_Clean p"
  using path_Clean_rooted path_Clean_abs by metis

lemma abs_path_prefix:
  assumes "list_all plain_elem es" and "list_all plain_elem rs" and "rs \<noteq> []"
    and "has_prefix (abs_path es) (abs_path rs @ ''/'')"
  shows "\<exists>rest. rest \<noteq> [] \<and> es = rs @ rest"
proof -
  obtain t where t: "abs_path es = abs_path rs @ CHR ''/'' # t" using assms(4) by (auto simp: has_prefix_conv)
  have split: "split_on CHR ''/'' (abs_path es) = [] # rs @ split_on CHR ''/'' t"
    unfolding t by (simp add: split_on_append split_abs_path [OF assms(2,3)])
  have "es \<noteq> []"
  proof
    assume "es = []"
    then have "split_on CHR ''/'' (abs_path es) = [[], []]" by (simp add: abs_path_def)
    with split assms(2,3) show False by (cases rs) (auto simp: plain_elem_def)
  qed
  with split split_abs_path [OF assms(1)] show ?thesis by simp
qed

section \<open>Accepted paths\<close>

text \<open>
  A path that is accepted is an absolute path below the root of the repository, made of plain elements
  only, so no element of it leads back up.
\<close>

lemma normalizeFilePath_inside:
  assumes "list_all plain_elem rs" and "rs \<noteq> []" and "normalizeFilePath (abs_path rs) cwd file = Inr p"
  shows "\<exists>rest. p = abs_path (rs @ rest) \<and> rest \<noteq> [] \<and> list_all plain_elem rest"
proof -
  let ?p = "path_Clean (path_Join cwd file)"
  have p: "p = ?p" "has_prefix ?p (abs_path rs @ ''/'')"
    using assms(3) by (auto simp: normalizeFilePath_def Let_def split: if_splits)
  then have "is_rooted ?p" by (auto simp: has_prefix_conv abs_path_def)
  then have "is_rooted (path_Join cwd file)"
    by (rule contrapos_pp) (simp add: path_Clean_relative)
  then obtain es where es: "?p = abs_path es" "list_all plain_elem es" using path_Clean_rooted by blast
  then show ?thesis using abs_path_prefix [OF es(2) assms(1,2)] p by (auto simp: list_all_append)
qed

end
