(* ===== verification/Loading.thy ===== *)
theory Loading
  imports Config
begin

text \<open>
  \<open>internal/config/config.go\<close> and \<open>repo.go\<close>: how the systems of several files and repositories are
  merged, how a system extends others, and how the loaded repositories are assembled into one data set.

  \<open>loader\<close> holds the library code this relies on: \<open>mergo.Merge\<close> (with overriding and appending) for
  the types it is used with, and the copies that \<open>DeepCopy\<close> makes through \<open>gob\<close>. An error of one of
  them makes the loader panic. Systems and repositories may refer to each other in a circle; the
  argument \<open>n\<close> bounds the nesting of the calls.
\<close>

section \<open>Merging systems\<close>

record loader =
  lx_trigger :: "Trigger \<Rightarrow> Trigger \<Rightarrow> Trigger res"
  lx_function :: "Function \<Rightarrow> Function \<Rightarrow> Function res"
  lx_map :: "gmap option \<Rightarrow> gmap option \<Rightarrow> gmap option res"
  lx_dataset :: "DataSet \<Rightarrow> DataSet \<Rightarrow> DataSet res"
  lx_copy_system :: "System \<Rightarrow> System res"
  lx_copy_dataset :: "DataSet \<Rightarrow> DataSet res"

definition merge_trigger :: "loader \<Rightarrow> Trigger \<Rightarrow> Trigger \<Rightarrow> Trigger res" where
  "merge_trigger L exist t = rmap (\<lambda>m. m\<lparr>
     tr_Description := (if tr_Description m = [] then tr_Description t else tr_Description m),
     tr_Meta := (if tr_Meta m = GNil then tr_Meta t else tr_Meta m)\<rparr>) (lx_trigger L exist t)"

definition merge_function :: "loader \<Rightarrow> Function \<Rightarrow> Function \<Rightarrow> Function res" where
  "merge_function L exist f = rmap (\<lambda>m. m\<lparr>
     fn_Description := (if fn_Description m = [] then fn_Description f else fn_Description m),
     fn_Meta := (if fn_Meta m = GNil then fn_Meta f else fn_Meta m)\<rparr>) (lx_function L exist f)"

text \<open>The loop over the triggers or the functions of the source.\<close>

fun merge_named :: "('a \<Rightarrow> 'a \<Rightarrow> 'a res) \<Rightarrow> (string, 'a) gomap \<Rightarrow> (string, 'a) gomap \<Rightarrow> (string, 'a) gomap res" where
  "merge_named mg [] d = Inr d"
| "merge_named mg ((name, x) # s) d =
     rbind (case map_of d name of None \<Rightarrow> Inr x | Some exist \<Rightarrow> mg exist x) (\<lambda>y. merge_named mg s (mput name y d))"

definition mergeSystem :: "loader \<Rightarrow> System \<Rightarrow> System \<Rightarrow> System res" where
  "mergeSystem L d s =
    rbind (merge_named (merge_trigger L) (sys_Triggers s) (sys_Triggers d)) (\<lambda>triggers.
    rbind (merge_named (merge_function L) (sys_Functions s) (sys_Functions d)) (\<lambda>functions.
    rbind (lx_map L (sys_Data d) (sys_Data s)) (\<lambda>data.
    Inr \<lparr>sys_Data = data, sys_Triggers = triggers, sys_Functions = functions,
      sys_Extends = sys_Extends d @ sys_Extends s,
      sys_Description = (if sys_Description s \<noteq> [] then sys_Description s else sys_Description d),
      sys_Meta = (if sys_Meta s \<noteq> GNil then sys_Meta s else sys_Meta d)\<rparr>)))"

fun add_prefixed :: "string \<Rightarrow> (string, 'a) gomap \<Rightarrow> (string, 'a) gomap \<Rightarrow> (string, 'a) gomap" where
  "add_prefixed key [] d = d"
| "add_prefixed key ((name, x) # s) d = add_prefixed key s (mput (key @ ''.'' @ name) x d)"

definition addSubsystem :: "System \<Rightarrow> System \<Rightarrow> string \<Rightarrow> System" where
  "addSubsystem d s key = d\<lparr>sys_Triggers := add_prefixed key (sys_Triggers s) (sys_Triggers d),
     sys_Functions := add_prefixed key (sys_Functions s) (sys_Functions d),
     sys_Data := Some (mput key (omap_val (sys_Data s)) (omap (sys_Data d)))\<rparr>"

definition sys_of :: "(string, System) gomap \<Rightarrow> string \<Rightarrow> System" where
  "sys_of S name = (case map_of S name of None \<Rightarrow> zero_system | Some s \<Rightarrow> s)"

fun merge_systems :: "loader \<Rightarrow> (string, System) gomap \<Rightarrow> (string, System) gomap \<Rightarrow> (string, System) gomap res" where
  "merge_systems L [] d = Inr d"
| "merge_systems L ((name, sys) # s) d =
     rbind (case map_of d name of None \<Rightarrow> Inr sys | Some exist \<Rightarrow> mergeSystem L exist sys) (\<lambda>m.
     merge_systems L s (mput name m d))"

definition mergeDataSet :: "loader \<Rightarrow> DataSet \<Rightarrow> DataSet \<Rightarrow> DataSet res" where
  "mergeDataSet L d source =
    rbind (lx_copy_dataset L source) (\<lambda>s.
    rbind (merge_systems L (Systems s) (Systems d)) (\<lambda>systems.
    lx_dataset L (d\<lparr>Systems := systems\<rparr>) (s\<lparr>Systems := []\<rparr>)))"

section \<open>Extending systems\<close>

text \<open>\<open>base\<close> or \<open>key = base\<close>; an empty key counts as no key.\<close>

definition parse_extend :: "string \<Rightarrow> string \<times> string" where
  "parse_extend e = (case split_on CHR ''='' e of
      key # base # _ \<Rightarrow> (trim_space key, trim_space base)
    | parts \<Rightarrow> ([], trim_space (hd parts)))"

definition add_base :: "loader \<Rightarrow> System \<Rightarrow> System \<Rightarrow> string \<Rightarrow> System res" where
  "add_base L merged base subKey =
     rbind (lx_copy_system L base) (\<lambda>baseCopy.
     if subKey = [] then mergeSystem L merged baseCopy else Inr (addSubsystem merged baseCopy subKey))"

text \<open>The staged systems and the names already processed.\<close>

type_synonym xstate = "(string, System) gomap \<times> string list"

fun extend_bases :: "loader \<Rightarrow> (string \<Rightarrow> xstate \<Rightarrow> xstate res) \<Rightarrow> string list \<Rightarrow> System \<Rightarrow> xstate \<Rightarrow> (System \<times> xstate) res" where
  "extend_bases L self [] merged st = Inr (merged, st)"
| "extend_bases L self (e # es) merged st =
     (let (subKey, base) = parse_extend e in
      rbind (if base \<in> set (snd st) then Inr st else self base st) (\<lambda>st'.
      rbind (add_base L merged (sys_of (fst st') base) subKey) (\<lambda>merged'.
      extend_bases L self es merged' st')))"

fun extendSystem :: "loader \<Rightarrow> nat \<Rightarrow> string \<Rightarrow> xstate \<Rightarrow> xstate res" where
  "extendSystem L 0 system st = Inl StackOverflow"
| "extendSystem L (Suc n) system st =
     (let current = sys_of (fst st) system in
      rbind (extend_bases L (extendSystem L n) (sys_Extends current) zero_system st) (\<lambda>(merged, st').
      rbind (mergeSystem L merged current) (\<lambda>m.
      Inr (mput system m (fst st'), system # snd st'))))"

text \<open>\<open>names\<close> is the order in which the \<open>range\<close> loop visits the systems.\<close>

fun extend_all :: "loader \<Rightarrow> nat \<Rightarrow> string list \<Rightarrow> xstate \<Rightarrow> xstate res" where
  "extend_all L n [] st = Inr st"
| "extend_all L n (name # names) st =
     rbind (if name \<in> set (snd st) then Inr st else extendSystem L n name st) (extend_all L n names)"

definition extendAllSystems :: "loader \<Rightarrow> nat \<Rightarrow> string list \<Rightarrow> (string, System) gomap \<Rightarrow> (string, System) gomap res" where
  "extendAllSystems L n names S = rmap fst (extend_all L n names (S, []))"

section \<open>Assembling repositories\<close>

type_synonym astate = "DataSet \<times> RepoInfo list"

fun assemble_repos :: "(RepoInfo, DataSet) gomap \<Rightarrow> (RepoInfo \<Rightarrow> astate \<Rightarrow> astate res) \<Rightarrow> RepoInfo list \<Rightarrow> astate \<Rightarrow> astate res" where
  "assemble_repos Loaded self [] st = Inr st"
| "assemble_repos Loaded self (repo # repos) st =
     rbind (if repo \<in> set (snd st) \<or> map_of Loaded repo = None then Inr st else self repo st)
       (assemble_repos Loaded self repos)"

fun assemble :: "loader \<Rightarrow> (RepoInfo, DataSet) gomap \<Rightarrow> nat \<Rightarrow> RepoInfo \<Rightarrow> astate \<Rightarrow> astate res" where
  "assemble L Loaded 0 c st = Inl StackOverflow"
| "assemble L Loaded (Suc n) c st = (case map_of Loaded c of
      None \<Rightarrow> Inl NilDereference
    | Some ds \<Rightarrow>
        rbind (assemble_repos Loaded (assemble L Loaded n) (Repos ds) (fst st, c # snd st)) (\<lambda>(assembled, assembledList).
        rbind (mergeDataSet L assembled ds) (\<lambda>assembled'.
        Inr (assembled', assembledList))))"

section \<open>What an extended system is\<close>

text \<open>
  The extension of a system by the systems it names, defined on the systems as they were loaded. It
  mentions neither the order in which systems are processed nor the staged map.
\<close>

inductive extended :: "loader \<Rightarrow> (string, System) gomap \<Rightarrow> string \<Rightarrow> System \<Rightarrow> bool"
  and extended_bases :: "loader \<Rightarrow> (string, System) gomap \<Rightarrow> string list \<Rightarrow> System \<Rightarrow> System \<Rightarrow> bool" for L S where
  system: "extended_bases L S (sys_Extends (sys_of S name)) zero_system merged \<Longrightarrow>
    mergeSystem L merged (sys_of S name) = Inr sys \<Longrightarrow> extended L S name sys"
| no_base: "extended_bases L S [] merged merged"
| base: "extended L S (snd (parse_extend e)) sys \<Longrightarrow> add_base L merged sys (fst (parse_extend e)) = Inr merged' \<Longrightarrow>
    extended_bases L S es merged' result \<Longrightarrow> extended_bases L S (e # es) merged result"

inductive_cases extendedE: "extended L S name sys"
inductive_cases extended_baseE: "extended_bases L S (e # es) merged result"
inductive_cases extended_no_baseE: "extended_bases L S [] merged result"

lemma extended_unique:
  "extended L S name sys \<Longrightarrow> extended L S name sys' \<Longrightarrow> sys' = sys"
  "extended_bases L S es m r \<Longrightarrow> extended_bases L S es m r' \<Longrightarrow> r' = r"
proof (induction arbitrary: sys' and r' rule: extended_extended_bases.inducts)
  case (system name merged sys)
  from system.prems obtain merged' where "extended_bases L S (sys_Extends (sys_of S name)) zero_system merged'"
    "mergeSystem L merged' (sys_of S name) = Inr sys'" by (rule extendedE)
  with system show ?case by auto
next
  case (no_base merged)
  then show ?case by (rule extended_no_baseE)
next
  case (base e sys merged merged' es result)
  from base.prems obtain sys2 merged2 where "extended L S (snd (parse_extend e)) sys2"
    "add_base L merged sys2 (fst (parse_extend e)) = Inr merged2" "extended_bases L S es merged2 r'"
    by (rule extended_baseE)
  with base show ?case by auto
qed

section \<open>Processing in any order\<close>

text \<open>The processed systems are extended, the others are as they were loaded.\<close>

definition xinv :: "loader \<Rightarrow> (string, System) gomap \<Rightarrow> xstate \<Rightarrow> bool" where
  "xinv L S st \<longleftrightarrow> (\<forall>name. if name \<in> set (snd st) then extended L S name (sys_of (fst st) name)
     else sys_of (fst st) name = sys_of S name)"

lemma sys_of_mput [simp]: "sys_of (mput name sys S) k = (if k = name then sys else sys_of S k)"
  by (simp add: sys_of_def)

lemma extend_bases_spec:
  assumes "extend_bases L self es merged st = Inr (result, st')" and "xinv L S st"
    and "\<And>base s s'. base \<notin> set (snd s) \<Longrightarrow> self base s = Inr s' \<Longrightarrow> xinv L S s \<Longrightarrow>
      xinv L S s' \<and> set (snd s) \<subseteq> set (snd s') \<and> base \<in> set (snd s')"
  shows "xinv L S st' \<and> set (snd st) \<subseteq> set (snd st') \<and> extended_bases L S es merged result"
  using assms(1,2)
proof (induction es arbitrary: merged st)
  case Nil
  then show ?case by (auto intro: extended_extended_bases.no_base)
next
  case (Cons e es)
  obtain k b where e: "parse_extend e = (k, b)" by fastforce
  from Cons.prems(1) obtain st1 merged1 where step: "(if b \<in> set (snd st) then Inr st else self b st) = Inr st1"
    "add_base L merged (sys_of (fst st1) b) k = Inr merged1" "extend_bases L self es merged1 st1 = Inr (result, st')"
    by (auto simp: rbind_Inr_conv e)
  have st1: "xinv L S st1" "set (snd st) \<subseteq> set (snd st1)" "b \<in> set (snd st1)"
    using step(1) Cons.prems(2) assms(3) [of b st st1] by (auto split: if_splits)
  then have "extended L S b (sys_of (fst st1) b)" by (auto simp: xinv_def)
  then have "extended_bases L S (e # es) merged result" if "extended_bases L S es merged1 result"
    using extended_extended_bases.base [of L S e _ merged merged1 es result] e step(2) that by simp
  with Cons.IH [OF step(3) st1(1)] st1(2) show ?case by blast
qed

lemma extendSystem_spec:
  "extendSystem L n system st = Inr st' \<Longrightarrow> system \<notin> set (snd st) \<Longrightarrow> xinv L S st \<Longrightarrow>
    xinv L S st' \<and> set (snd st) \<subseteq> set (snd st') \<and> system \<in> set (snd st')"
proof (induction n arbitrary: system st st')
  case (Suc n)
  have current: "sys_of (fst st) system = sys_of S system" using Suc.prems(2,3) by (auto simp: xinv_def)
  from Suc.prems(1) obtain merged st1 m where step:
    "extend_bases L (extendSystem L n) (sys_Extends (sys_of S system)) zero_system st = Inr (merged, st1)"
    "mergeSystem L merged (sys_of S system) = Inr m" "st' = (mput system m (fst st1), system # snd st1)"
    by (auto simp: rbind_Inr_conv current Let_def)
  have st1: "xinv L S st1" "set (snd st) \<subseteq> set (snd st1)"
    "extended_bases L S (sys_Extends (sys_of S system)) zero_system merged"
    using extend_bases_spec [OF step(1) Suc.prems(3)] Suc.IH by blast+
  then have "extended L S system m" using step(2) by (intro extended_extended_bases.system)
  with st1(1,2) step(3) show ?case by (auto simp: xinv_def)
qed simp

lemma extend_all_spec:
  "extend_all L n names st = Inr st' \<Longrightarrow> xinv L S st \<Longrightarrow>
    xinv L S st' \<and> set (snd st) \<union> set names \<subseteq> set (snd st')"
proof (induction names arbitrary: st)
  case (Cons name names)
  from Cons.prems(1) obtain st1 where step: "(if name \<in> set (snd st) then Inr st else extendSystem L n name st) = Inr st1"
    "extend_all L n names st1 = Inr st'" by (auto simp: rbind_Inr_conv)
  have "xinv L S st1 \<and> set (snd st) \<union> {name} \<subseteq> set (snd st1)"
    using step(1) Cons.prems(2) extendSystem_spec by (auto split: if_splits)
  with Cons.IH [OF step(2)] show ?case by auto
qed auto

text \<open>
  C13: extending the systems gives every system the extension that its own definition and those of its
  bases determine, as they were loaded, although the loop overwrites the systems while it runs; the
  result does not depend on the order in which the map of systems is ranged over.
\<close>

theorem extendAllSystems_correct:
  assumes "extendAllSystems L n names S = Inr S'" and "name \<in> set names"
  shows "extended L S name (sys_of S' name) \<and>
    (\<forall>m names' S''. name \<in> set names' \<longrightarrow> extendAllSystems L m names' S = Inr S'' \<longrightarrow> sys_of S'' name = sys_of S' name)"
proof -
  have "extended L S name (sys_of T name)"
    if T: "extendAllSystems L m ns S = Inr T" and ns: "name \<in> set ns" for m ns T
  proof -
    obtain st where st: "extend_all L m ns (S, []) = Inr st" "T = fst st"
      using T by (auto simp: extendAllSystems_def rmap_def rbind_Inr_conv)
    have "xinv L S (S, [])" by (simp add: xinv_def)
    from extend_all_spec [OF st(1) this] ns st(2) show ?thesis by (auto simp: xinv_def)
  qed
  with assms show ?thesis using extended_unique(1) by blast
qed

section \<open>Circles\<close>

definition no_errors :: "loader \<Rightarrow> bool" where
  "no_errors L \<longleftrightarrow> (\<forall>a b. \<exists>c. lx_trigger L a b = Inr c) \<and> (\<forall>a b. \<exists>c. lx_function L a b = Inr c) \<and>
     (\<forall>a b. \<exists>c. lx_map L a b = Inr c) \<and> (\<forall>a. \<exists>c. lx_copy_system L a = Inr c)"

lemma merge_named_total: "(\<And>a b. \<exists>c. mg a b = Inr c) \<Longrightarrow> \<exists>d'. merge_named mg s d = Inr d'"
proof (induction mg s d rule: merge_named.induct)
  case (2 mg name x s d)
  have "\<exists>y. (case map_of d name of None \<Rightarrow> Inr x | Some exist \<Rightarrow> mg exist x) = Inr y"
    using "2.prems" by (auto split: option.split)
  with 2 show ?case by fastforce
qed simp

lemma mergeSystem_total: "no_errors L \<Longrightarrow> \<exists>m. mergeSystem L d s = Inr m"
proof -
  assume L: "no_errors L"
  have "\<exists>c. merge_trigger L a b = Inr c" "\<exists>c. merge_function L a' b' = Inr c" for a b a' b'
    using L by (auto simp: no_errors_def merge_trigger_def merge_function_def rmap_def rbind_Inr_conv)
  then obtain ts fs where "merge_named (merge_trigger L) (sys_Triggers s) (sys_Triggers d) = Inr ts"
    "merge_named (merge_function L) (sys_Functions s) (sys_Functions d) = Inr fs"
    using merge_named_total [of "merge_trigger L"] merge_named_total [of "merge_function L"] by metis
  moreover obtain m where "lx_map L (sys_Data d) (sys_Data s) = Inr m" using L unfolding no_errors_def by blast
  ultimately show ?thesis by (simp add: mergeSystem_def)
qed

lemma add_base_total: "no_errors L \<Longrightarrow> \<exists>m. add_base L merged b k = Inr m"
proof -
  assume L: "no_errors L"
  then obtain c where "lx_copy_system L b = Inr c" unfolding no_errors_def by blast
  with mergeSystem_total [OF L, of merged c] show ?thesis by (simp add: add_base_def)
qed

lemma extend_bases_total:
  assumes "no_errors L" and "xinv L S st"
    and "\<And>b s. b \<in> set (map (snd \<circ> parse_extend) es) \<Longrightarrow> b \<notin> set (snd s) \<Longrightarrow> xinv L S s \<Longrightarrow>
      \<exists>s'. self b s = Inr s' \<and> xinv L S s'"
  shows "\<exists>r. extend_bases L self es merged st = Inr r"
  using assms(2,3)
proof (induction es arbitrary: merged st)
  case (Cons e es)
  obtain k b where e: "parse_extend e = (k, b)" by fastforce
  obtain st1 where st1: "(if b \<in> set (snd st) then Inr st else self b st) = Inr st1" "xinv L S st1"
    using Cons.prems(1) Cons.prems(2) [of b st] e by (cases "b \<in> set (snd st)") (simp, metis list.set_intros(1) comp_apply list.simps(9) snd_conv)
  obtain m where "add_base L merged (sys_of (fst st1) b) k = Inr m" using add_base_total [OF assms(1)] by blast
  with Cons.IH [OF st1(2)] Cons.prems(2) st1(1) show ?case by (simp add: e)
qed simp

lemma extendSystem_total:
  assumes "no_errors L" and rank: "\<And>name e. e \<in> set (sys_Extends (sys_of S name)) \<Longrightarrow> rk (snd (parse_extend e)) < rk name"
  shows "rk system < n \<Longrightarrow> xinv L S st \<Longrightarrow> system \<notin> set (snd st) \<Longrightarrow> \<exists>st'. extendSystem L n system st = Inr st' \<and> xinv L S st'"
proof (induction n arbitrary: system st)
  case (Suc n)
  have current: "sys_of (fst st) system = sys_of S system" using Suc.prems(2,3) by (auto simp: xinv_def)
  have "\<exists>r. extend_bases L (extendSystem L n) (sys_Extends (sys_of S system)) zero_system st = Inr r"
    using rank [of _ system] Suc.prems(1) by (intro extend_bases_total [OF assms(1) Suc.prems(2)] Suc.IH) fastforce+
  then obtain merged st1 where "extend_bases L (extendSystem L n) (sys_Extends (sys_of S system)) zero_system st = Inr (merged, st1)"
    by auto
  moreover obtain m where "mergeSystem L merged (sys_of S system) = Inr m" using mergeSystem_total [OF assms(1)] by blast
  ultimately obtain st' where "extendSystem L (Suc n) system st = Inr st'" by (simp add: current Let_def)
  with extendSystem_spec [OF this Suc.prems(3,2)] show ?case by blast
qed simp

text \<open>
  C14: extending the systems ends when no system extends itself, directly or through others: with every
  system ranked above its bases and ranks below \<open>n\<close>, nesting deeper than \<open>n\<close> does not occur.
\<close>

theorem extendAllSystems_ends:
  assumes "no_errors L" and "\<And>name e. e \<in> set (sys_Extends (sys_of S name)) \<Longrightarrow> rk (snd (parse_extend e)) < rk name"
    and "list_all (\<lambda>name. rk name < n) names"
  shows "\<exists>S'. extendAllSystems L n names S = Inr S'"
proof -
  have "\<exists>st'. extend_all L n ns st = Inr st'" if "xinv L S st" "list_all (\<lambda>name. rk name < n) ns" for ns st
    using that
  proof (induction ns arbitrary: st)
    case (Cons name ns)
    then have "\<exists>st1. (if name \<in> set (snd st) then Inr st else extendSystem L n name st) = Inr st1 \<and> xinv L S st1"
      using extendSystem_total [where rk = rk and S = S and system = name and n = n and st = st, OF assms(1,2)] by (cases "name \<in> set (snd st)") auto
    with Cons show ?case by auto
  qed simp
  moreover have "xinv L S (S, [])" by (simp add: xinv_def)
  ultimately show ?thesis using assms(3) by (fastforce simp: extendAllSystems_def)
qed

text \<open>With a loader that makes no errors, only the bound can stop the processing.\<close>

lemma extend_bases_no_errors:
  assumes "no_errors L" and "\<And>b s e. self b s = Inl e \<Longrightarrow> e = StackOverflow"
  shows "extend_bases L self es merged st = Inl e \<Longrightarrow> e = StackOverflow"
proof (induction es arbitrary: merged st)
  case (Cons x es)
  obtain k b where x: "parse_extend x = (k, b)" by fastforce
  show ?case
  proof (cases "if b \<in> set (snd st) then Inr st else self b st")
    case (Inl e')
    with Cons.prems assms(2) [of b st e'] show ?thesis by (auto simp: x split: if_splits)
  next
    case (Inr st1)
    obtain m where "add_base L merged (sys_of (fst st1) b) k = Inr m" using add_base_total [OF assms(1)] by blast
    with Cons.prems Cons.IH Inr show ?thesis by (simp add: x)
  qed
qed simp

lemma extendSystem_no_errors: "no_errors L \<Longrightarrow> extendSystem L n system st = Inl e \<Longrightarrow> e = StackOverflow"
proof (induction n arbitrary: system st e)
  case (Suc n)
  let ?cur = "sys_of (fst st) system"
  show ?case
  proof (cases "extend_bases L (extendSystem L n) (sys_Extends ?cur) zero_system st")
    case (Inl e')
    then have "e' = StackOverflow" using extend_bases_no_errors [OF Suc.prems(1)] Suc.IH [OF Suc.prems(1)] by blast
    with Inl Suc.prems(2) show ?thesis by simp
  next
    case (Inr r)
    obtain m where "mergeSystem L (fst r) ?cur = Inr m" using mergeSystem_total [OF Suc.prems(1)] by blast
    with Inr Suc.prems(2) show ?thesis by (cases r) simp
  qed
qed simp

text \<open>A set of systems each of which extends another one of the set.\<close>

definition circle :: "(string, System) gomap \<Rightarrow> string set \<Rightarrow> bool" where
  "circle S C \<longleftrightarrow> (\<forall>name \<in> C. \<exists>e \<in> set (sys_Extends (sys_of S name)). snd (parse_extend e) \<in> C)"

lemma extend_bases_avoids:
  assumes "extend_bases L self es merged st = Inr (result, st')" and "set (snd st) \<inter> C = {}" and "xinv L S st"
    and "\<And>b s s'. self b s = Inr s' \<Longrightarrow> b \<notin> set (snd s) \<Longrightarrow> xinv L S s \<Longrightarrow> set (snd s) \<inter> C = {} \<Longrightarrow>
      b \<notin> C \<and> set (snd s') \<inter> C = {} \<and> xinv L S s'"
  shows "(\<forall>e \<in> set es. snd (parse_extend e) \<notin> C) \<and> set (snd st') \<inter> C = {}"
  using assms(1-3)
proof (induction es arbitrary: merged st)
  case (Cons e es)
  obtain k b where e: "parse_extend e = (k, b)" by fastforce
  from Cons.prems(1) obtain st1 merged1 where step: "(if b \<in> set (snd st) then Inr st else self b st) = Inr st1"
    "extend_bases L self es merged1 st1 = Inr (result, st')"
    by (auto simp: rbind_Inr_conv e)
  have "b \<notin> C \<and> set (snd st1) \<inter> C = {} \<and> xinv L S st1"
    using step(1) Cons.prems(2,3) assms(4) [of b st st1] by (auto split: if_splits)
  with Cons.IH [OF step(2)] show ?case by (simp add: e)
qed simp

lemma extendSystem_avoids:
  assumes "circle S C"
  shows "extendSystem L n system st = Inr st' \<Longrightarrow> system \<notin> set (snd st) \<Longrightarrow> xinv L S st \<Longrightarrow> set (snd st) \<inter> C = {} \<Longrightarrow>
    system \<notin> C \<and> set (snd st') \<inter> C = {} \<and> xinv L S st'"
proof (induction n arbitrary: system st st')
  case (Suc n)
  have current: "sys_of (fst st) system = sys_of S system" using Suc.prems(2,3) by (auto simp: xinv_def)
  from Suc.prems(1) obtain merged st1 m where step:
    "extend_bases L (extendSystem L n) (sys_Extends (sys_of S system)) zero_system st = Inr (merged, st1)"
    "st' = (mput system m (fst st1), system # snd st1)"
    by (auto simp: rbind_Inr_conv current Let_def)
  have "(\<forall>e \<in> set (sys_Extends (sys_of S system)). snd (parse_extend e) \<notin> C) \<and> set (snd st1) \<inter> C = {}"
    by (rule extend_bases_avoids [OF step(1) Suc.prems(4,3)]) (rule Suc.IH)
  moreover from this have "system \<notin> C" using assms by (auto simp: circle_def)
  moreover have "xinv L S st'" using extendSystem_spec [OF Suc.prems(1-3)] by blast
  ultimately show ?case using step(2) by auto
qed simp

text \<open>
  Systems that extend each other in a circle are not reported as an error: whatever the bound on
  the nesting of the calls, it is exceeded, so the process runs out of stack.
\<close>

theorem extendAllSystems_circle:
  assumes "no_errors L" and "circle S C" and "name \<in> C" and "name \<in> set names"
  shows "extendAllSystems L n names S = Inl StackOverflow"
proof -
  have "extend_all L n ns st = Inl StackOverflow"
    if "name \<in> set ns" "xinv L S st" "set (snd st) \<inter> C = {}" for ns st
    using that
  proof (induction ns arbitrary: st)
    case (Cons x ns)
    show ?case
    proof (cases "if x \<in> set (snd st) then Inr st else extendSystem L n x st")
      case (Inl e)
      then have "e = StackOverflow" using extendSystem_no_errors [OF assms(1)] by (auto split: if_splits)
      with Inl show ?thesis by simp
    next
      case (Inr st1)
      then have "xinv L S st1 \<and> set (snd st1) \<inter> C = {} \<and> x \<noteq> name"
        using extendSystem_avoids [OF assms(2), of L n x st st1] Cons.prems assms(3) by (auto split: if_splits)
      moreover from this have "name \<in> set ns" using Cons.prems(1) by auto
      ultimately show ?thesis using Inr Cons.IH [of st1] by simp
    qed
  qed simp
  moreover have "xinv L S (S, [])" by (simp add: xinv_def)
  ultimately show ?thesis using assms(4) by (simp add: extendAllSystems_def rmap_def)
qed

text \<open>A loader that keeps the later value, for the witnesses.\<close>

definition last_wins :: loader where
  "last_wins = \<lparr>lx_trigger = (\<lambda>a b. Inr b), lx_function = (\<lambda>a b. Inr b),
     lx_map = (\<lambda>a b. Inr (case b of None \<Rightarrow> a | Some m \<Rightarrow> Some (foldr (\<lambda>(k, v) d. mput k v d) m (omap a)))),
     lx_dataset = (\<lambda>a b. Inr (a\<lparr>Rules := Rules a @ Rules b\<rparr>)), lx_copy_system = Inr, lx_copy_dataset = Inr\<rparr>"

lemma last_wins_no_errors: "no_errors last_wins"
  by (simp add: no_errors_def last_wins_def)

definition sample_systems :: "(string, System) gomap" where
  "sample_systems =
    [(''prod'', zero_system\<lparr>sys_Extends := [''k8s'', ''chat = slack''], sys_Data := Some [(''cluster'', GStr ''p'')]\<rparr>),
     (''k8s'', zero_system\<lparr>sys_Data := Some [(''cluster'', GStr ''none''), (''zone'', GStr ''z'')]\<rparr>),
     (''slack'', zero_system\<lparr>sys_Functions := [(''say'', zero_function\<lparr>fn_Driver := ''web''\<rparr>)]\<rparr>)]"

definition sample_extended :: "string list \<Rightarrow> (string, System) gomap" where
  "sample_extended names = (case extendAllSystems last_wins 3 names sample_systems of Inr S \<Rightarrow> S | Inl _ \<Rightarrow> [])"

theorem extendAllSystems_correct_witness:
  "sys_of (sample_extended [''slack'', ''prod'', ''k8s'']) ''prod'' = sys_of (sample_extended [''prod'', ''k8s'', ''slack'']) ''prod'' \<and>
   extended last_wins sample_systems ''prod'' (sys_of (sample_extended [''prod'', ''k8s'', ''slack'']) ''prod'')"
proof -
  have run: "extendAllSystems last_wins 3 names sample_systems = Inr (sample_extended names)"
    if "(case extendAllSystems last_wins 3 names sample_systems of Inr S \<Rightarrow> True | Inl _ \<Rightarrow> False)" for names
    using that by (auto simp: sample_extended_def split: sum.splits)
  have runs: "extendAllSystems last_wins 3 [''prod'', ''k8s'', ''slack''] sample_systems = Inr (sample_extended [''prod'', ''k8s'', ''slack''])"
    "extendAllSystems last_wins 3 [''slack'', ''prod'', ''k8s''] sample_systems = Inr (sample_extended [''slack'', ''prod'', ''k8s''])"
    by (rule run, code_simp)+
  have listed: "''prod'' \<in> set [''prod'', ''k8s'', ''slack'']" "''prod'' \<in> set [''slack'', ''prod'', ''k8s'']" by simp_all
  from extendAllSystems_correct [OF runs(1) listed(1)] runs(2) listed(2) show ?thesis by blast
qed

theorem extendAllSystems_ends_witness:
  "\<exists>S'. extendAllSystems last_wins 2 [''prod'', ''k8s'', ''slack''] sample_systems = Inr S'"
proof -
  let ?rk = "\<lambda>name. if name = ''prod'' then 1 else 0 :: nat"
  have "snd (parse_extend ''k8s'') = ''k8s''" "snd (parse_extend ''chat = slack'') = ''slack''" by code_simp+
  then have "?rk (snd (parse_extend e)) < ?rk name" if "e \<in> set (sys_Extends (sys_of sample_systems name))" for name e
    using that by (auto simp: sample_systems_def sys_of_def zero_system_def split: if_splits)
  moreover have "list_all (\<lambda>name. ?rk name < 2) [''prod'', ''k8s'', ''slack'']" by simp
  ultimately show ?thesis by (rule extendAllSystems_ends [OF last_wins_no_errors])
qed

theorem extendAllSystems_circle_witness:
  "extendAllSystems last_wins 1000 [''a''] [(''a'', zero_system\<lparr>sys_Extends := [''a'']\<rparr>)] = Inl StackOverflow"
proof -
  let ?S = "[(''a'', zero_system\<lparr>sys_Extends := [''a'']\<rparr>)]"
  have "parse_extend ''a'' = ([], ''a'')" by code_simp
  then have "circle ?S {''a''}" by (simp add: circle_def sys_of_def)
  then show ?thesis by (rule extendAllSystems_circle [OF last_wins_no_errors]) simp_all
qed

section \<open>Assembling\<close>

fun merge_all :: "loader \<Rightarrow> DataSet list \<Rightarrow> DataSet \<Rightarrow> DataSet res" where
  "merge_all L [] d = Inr d"
| "merge_all L (s # ss) d = rbind (mergeDataSet L d s) (merge_all L ss)"

lemma merge_all_append: "merge_all L (ss @ ts) d = rbind (merge_all L ss d) (merge_all L ts)"
proof (induction ss arbitrary: d)
  case (Cons s ss)
  then have "merge_all L (ss @ ts) = (\<lambda>x. rbind (merge_all L ss x) (merge_all L ts))" by blast
  then show ?case by (simp add: rbind_assoc)
qed simp

definition refers :: "(RepoInfo, DataSet) gomap \<Rightarrow> (RepoInfo \<times> RepoInfo) set" where
  "refers Loaded = {(c, r). \<exists>ds. map_of Loaded c = Some ds \<and> r \<in> set (Repos ds) \<and> map_of Loaded r \<noteq> None}"

text \<open>A list in which each element comes after those it refers to, except those that lead back to it. Those of \<open>S\<close>
  need not be in the list.\<close>

fun in_order :: "('a \<times> 'a) set \<Rightarrow> 'a set \<Rightarrow> 'a list \<Rightarrow> bool" where
  "in_order E S [] = True"
| "in_order E S (r # rs) = ((\<forall>x. (r, x) \<in> E \<longrightarrow> (x, r) \<notin> E\<^sup>* \<longrightarrow> x \<in> S) \<and> in_order E (insert r S) rs)"

lemma in_order_append: "in_order E S (xs @ ys) \<longleftrightarrow> in_order E S xs \<and> in_order E (S \<union> set xs) ys"
  by (induction xs arbitrary: S) auto

lemma in_order_insert: "in_order E (insert c S) xs \<Longrightarrow> set xs \<subseteq> E\<^sup>* `` {c} \<Longrightarrow> in_order E S xs"
proof (induction xs arbitrary: S)
  case (Cons x xs)
  moreover have "insert x (insert c S) = insert c (insert x S)" by blast
  ultimately show ?case by auto
qed simp

lemma in_order_before: "in_order E {} os \<Longrightarrow> os = ps @ r # qs \<Longrightarrow> (r, x) \<in> E \<Longrightarrow> (x, r) \<notin> E\<^sup>* \<Longrightarrow> x \<in> set ps"
  by (simp add: in_order_append)

text \<open>
  What a call of \<open>assemble\<close> has done: the repositories merged, in this order, each of them new; with a
  repository, those it refers to are in the list or were seen before, and in the list they come before it.
\<close>

definition assembled_by :: "loader \<Rightarrow> (RepoInfo, DataSet) gomap \<Rightarrow> RepoInfo list \<Rightarrow> astate \<Rightarrow> astate \<Rightarrow> bool" where
  "assembled_by L Loaded os st st' \<longleftrightarrow> distinct os \<and> set os \<inter> set (snd st) = {} \<and> set (snd st') = set (snd st) \<union> set os \<and>
     set os \<subseteq> dom (map_of Loaded) \<and> (\<forall>r x. r \<in> set os \<longrightarrow> (r, x) \<in> refers Loaded \<longrightarrow> x \<in> set (snd st')) \<and>
     in_order (refers Loaded) (set (snd st)) os \<and>
     merge_all L (map (\<lambda>r. the (map_of Loaded r)) os) (fst st) = Inr (fst st')"

lemma assembled_by_refl: "assembled_by L Loaded [] st st"
  by (simp add: assembled_by_def)

lemma assembled_by_trans:
  assumes "assembled_by L Loaded os st st1" and "assembled_by L Loaded os' st1 st2"
  shows "assembled_by L Loaded (os @ os') st st2"
proof -
  have "set (snd st1) \<subseteq> set (snd st2)" "set (snd st) \<subseteq> set (snd st1)" using assms by (auto simp: assembled_by_def)
  moreover have "merge_all L (map (\<lambda>r. the (map_of Loaded r)) (os @ os')) (fst st) = Inr (fst st2)"
    using assms by (simp add: assembled_by_def merge_all_append)
  moreover have "distinct (os @ os')" using assms by (fastforce simp: assembled_by_def)
  moreover have "in_order (refers Loaded) (set (snd st)) (os @ os')" using assms by (simp add: assembled_by_def in_order_append)
  ultimately show ?thesis using assms unfolding assembled_by_def by (simp add: Int_Un_distrib2 Un_assoc) blast
qed

lemma assembled_by_seen: "assembled_by L Loaded os st st' \<Longrightarrow> set (snd st') = set (snd st) \<union> set os"
  by (simp add: assembled_by_def)

definition merges :: "loader \<Rightarrow> bool" where
  "merges L \<longleftrightarrow> (\<forall>d s. \<exists>m. mergeDataSet L d s = Inr m)"

text \<open>What the recursive call is assumed to do in the loop over the repositories.\<close>

definition assembles :: "loader \<Rightarrow> (RepoInfo, DataSet) gomap \<Rightarrow> nat \<Rightarrow> (RepoInfo \<Rightarrow> astate \<Rightarrow> astate res) \<Rightarrow> bool" where
  "assembles L Loaded n self \<longleftrightarrow> (\<forall>c st. map_of Loaded c \<noteq> None \<longrightarrow> c \<notin> set (snd st) \<longrightarrow>
     card (dom (map_of Loaded) - set (snd st)) \<le> n \<longrightarrow>
     (\<exists>st' os. self c st = Inr st' \<and> assembled_by L Loaded os st st' \<and> c \<in> set os \<and> set os \<subseteq> (refers Loaded)\<^sup>* `` {c} \<and> last os = c))"

lemma fewer_unseen:
  "set (snd st) \<subseteq> set (snd st') \<Longrightarrow> card (dom (map_of Loaded) - set (snd st')) \<le> card (dom (map_of Loaded) - set (snd st))"
  by (rule card_mono) (auto intro: finite_dom_map_of)

lemma assemble_repos_spec:
  assumes "assembles L Loaded n self" and "card (dom (map_of Loaded) - set (snd st)) \<le> n"
  shows "\<exists>st' os. assemble_repos Loaded self repos st = Inr st' \<and> assembled_by L Loaded os st st' \<and>
    (\<forall>r \<in> set repos. map_of Loaded r \<noteq> None \<longrightarrow> r \<in> set (snd st')) \<and>
    set os \<subseteq> (refers Loaded)\<^sup>* `` {r \<in> set repos. map_of Loaded r \<noteq> None}"
  using assms(2)
proof (induction repos arbitrary: st)
  case Nil
  then show ?case using assembled_by_refl by fastforce
next
  case (Cons r repos)
  let ?skip = "r \<in> set (snd st) \<or> map_of Loaded r = None"
  obtain st1 os1 where st1: "(if ?skip then Inr st else self r st) = Inr st1" "assembled_by L Loaded os1 st st1"
    "map_of Loaded r \<noteq> None \<longrightarrow> r \<in> set (snd st1)"
    "set os1 \<subseteq> (refers Loaded)\<^sup>* `` {x \<in> {r}. map_of Loaded x \<noteq> None}"
  proof (cases ?skip)
    case True
    then show ?thesis using assembled_by_refl by (intro that [of st "[]"]) auto
  next
    case False
    then obtain st1 os1 where "self r st = Inr st1" "assembled_by L Loaded os1 st st1" "r \<in> set os1"
      "set os1 \<subseteq> (refers Loaded)\<^sup>* `` {r}"
      using assms(1) Cons.prems unfolding assembles_def by blast
    moreover from this have "r \<in> set (snd st1)" using assembled_by_seen by blast
    ultimately show ?thesis using False by (intro that [of st1 os1]) auto
  qed
  have seen: "set (snd st) \<subseteq> set (snd st1)" using assembled_by_seen [OF st1(2)] by blast
  then have "card (dom (map_of Loaded) - set (snd st1)) \<le> n" using fewer_unseen Cons.prems by (meson le_trans)
  from Cons.IH [OF this] obtain st' os where st': "assemble_repos Loaded self repos st1 = Inr st'"
    "assembled_by L Loaded os st1 st'" "\<forall>x \<in> set repos. map_of Loaded x \<noteq> None \<longrightarrow> x \<in> set (snd st')"
    "set os \<subseteq> (refers Loaded)\<^sup>* `` {x \<in> set repos. map_of Loaded x \<noteq> None}"
    by blast
  have "set (snd st1) \<subseteq> set (snd st')" using assembled_by_seen [OF st'(2)] by blast
  then have seen': "\<forall>x \<in> set (r # repos). map_of Loaded x \<noteq> None \<longrightarrow> x \<in> set (snd st')" using st1(3) st'(3) by auto
  have "set (os1 @ os) \<subseteq> (refers Loaded)\<^sup>* `` ({x \<in> {r}. map_of Loaded x \<noteq> None} \<union> {x \<in> set repos. map_of Loaded x \<noteq> None})"
    unfolding Image_Un set_append using st1(4) st'(4) by (rule Un_mono)
  also have "{x \<in> {r}. map_of Loaded x \<noteq> None} \<union> {x \<in> set repos. map_of Loaded x \<noteq> None} = {x \<in> set (r # repos). map_of Loaded x \<noteq> None}"
    by auto
  finally have "set (os1 @ os) \<subseteq> (refers Loaded)\<^sup>* `` {x \<in> set (r # repos). map_of Loaded x \<noteq> None}" .
  moreover have "assemble_repos Loaded self (r # repos) st = Inr st'" using st1(1) st'(1) by (simp split del: if_split)
  ultimately show ?case using assembled_by_trans [OF st1(2) st'(2)] seen' by blast
qed

lemma assemble_spec: "merges L \<Longrightarrow> assembles L Loaded n (assemble L Loaded (Suc n))"
proof (induction n)
  case 0
  show ?case unfolding assembles_def
  proof (intro allI impI)
    fix c :: RepoInfo and st :: astate
    assume c: "map_of Loaded c \<noteq> None" "c \<notin> set (snd st)" and le: "card (dom (map_of Loaded) - set (snd st)) \<le> 0"
    have "finite (dom (map_of Loaded) - set (snd st))" by (simp add: finite_dom_map_of)
    with le have "dom (map_of Loaded) - set (snd st) = {}" by simp
    with c show "\<exists>st' os. assemble L Loaded (Suc 0) c st = Inr st' \<and> assembled_by L Loaded os st st' \<and> c \<in> set os \<and>
      set os \<subseteq> (refers Loaded)\<^sup>* `` {c} \<and> last os = c" by auto
  qed
next
  case (Suc n)
  show ?case unfolding assembles_def
  proof (intro allI impI)
    fix c :: RepoInfo and st :: astate
    assume c: "map_of Loaded c \<noteq> None" "c \<notin> set (snd st)" and le: "card (dom (map_of Loaded) - set (snd st)) \<le> Suc n"
    from c(1) obtain ds where ds: "map_of Loaded c = Some ds" by auto
    let ?st = "(fst st, c # snd st)"
    have "c \<in> dom (map_of Loaded) - set (snd st)" using c by (simp add: domIff)
    then have "card (dom (map_of Loaded) - set (snd st) - {c}) = card (dom (map_of Loaded) - set (snd st)) - 1"
      by (rule card_Diff_singleton)
    moreover have "dom (map_of Loaded) - set (snd ?st) = dom (map_of Loaded) - set (snd st) - {c}" by auto
    ultimately have "card (dom (map_of Loaded) - set (snd ?st)) \<le> n" using le by simp
    from assemble_repos_spec [OF Suc.IH [OF Suc.prems] this, of "Repos ds"] obtain st1 os where
      st1: "assemble_repos Loaded (assemble L Loaded (Suc n)) (Repos ds) ?st = Inr st1"
      "assembled_by L Loaded os ?st st1" "\<forall>r \<in> set (Repos ds). map_of Loaded r \<noteq> None \<longrightarrow> r \<in> set (snd st1)"
      "set os \<subseteq> (refers Loaded)\<^sup>* `` {r \<in> set (Repos ds). map_of Loaded r \<noteq> None}"
      by blast
    obtain d where d: "mergeDataSet L (fst st1) ds = Inr d" using Suc.prems by (auto simp: merges_def)
    have run: "assemble L Loaded (Suc (Suc n)) c st = Inr (d, snd st1)"
      using ds st1(1) d by (simp add: case_prod_beta)
    have closed: "x \<in> set (snd st1)" if "(c, x) \<in> refers Loaded" for x using that st1(3) ds by (auto simp: refers_def)
    have "merge_all L (map (\<lambda>r. the (map_of Loaded r)) (os @ [c])) (fst st) = Inr d"
      using st1(2) ds d by (simp add: assembled_by_def merge_all_append)
    moreover have "distinct (os @ [c])" using st1(2) by (auto simp: assembled_by_def)
    moreover have "{r \<in> set (Repos ds). map_of Loaded r \<noteq> None} \<subseteq> refers Loaded `` {c}" using ds by (auto simp: refers_def)
    then have reached: "set os \<subseteq> (refers Loaded)\<^sup>* `` {c}"
      using st1(4) by (blast intro: converse_rtrancl_into_rtrancl)
    moreover have "in_order (refers Loaded) (set (snd st)) os"
      using st1(2) in_order_insert [OF _ reached] by (simp add: assembled_by_def)
    then have "in_order (refers Loaded) (set (snd st)) (os @ [c])"
      using closed st1(2) by (auto simp: in_order_append assembled_by_def)
    ultimately have "assembled_by L Loaded (os @ [c]) st (d, snd st1)"
      using st1(2) c closed unfolding assembled_by_def by (simp add: domIff) blast
    then show "\<exists>st' os. assemble L Loaded (Suc (Suc n)) c st = Inr st' \<and> assembled_by L Loaded os st st' \<and> c \<in> set os \<and>
      set os \<subseteq> (refers Loaded)\<^sup>* `` {c} \<and> last os = c"
      using run reached by (intro exI [of _ "(d, snd st1)"] exI [of _ "os @ [c]"]) auto
  qed
qed

text \<open>
  C15: when merging two data sets does not fail, assembling ends, also when repositories refer to each other in a
  circle, and merges exactly the loaded repositories that can be reached from the first one, each of them
  once. A repository is merged after every loaded repository it refers to, except those that lead back to it;
  the first one is merged last. A nesting as deep as the number of loaded repositories is enough.
\<close>

theorem assemble_once:
  assumes "merges L" and "map_of Loaded init \<noteq> None" and "card (dom (map_of Loaded)) \<le> n"
  shows "\<exists>d' seen os. assemble L Loaded (Suc n) init (d, []) = Inr (d', seen) \<and> distinct os \<and>
    set os = (refers Loaded)\<^sup>* `` {init} \<and> last os = init \<and>
    (\<forall>ps r qs x. os = ps @ r # qs \<and> (r, x) \<in> refers Loaded \<and> (x, r) \<notin> (refers Loaded)\<^sup>* \<longrightarrow> x \<in> set ps) \<and>
    merge_all L (map (\<lambda>r. the (map_of Loaded r)) os) d = Inr d'"
proof -
  from assemble_spec [OF assms(1), of Loaded n, unfolded assembles_def, rule_format, of init "(d, [])"] assms(2,3)
  obtain st' os where st': "assemble L Loaded (Suc n) init (d, []) = Inr st'" "assembled_by L Loaded os (d, []) st'"
    "init \<in> set os" "set os \<subseteq> (refers Loaded)\<^sup>* `` {init}" "last os = init"
    by auto
  have "refers Loaded `` set os \<subseteq> set os" using st'(2) by (auto simp: assembled_by_def)
  then have "(refers Loaded)\<^sup>* `` {init} \<subseteq> set os" using st'(3) by (metis Image_closed_trancl Image_mono empty_subsetI insert_subset subset_refl)
  moreover have "in_order (refers Loaded) {} os" using st'(2) by (simp add: assembled_by_def)
  then have "\<forall>ps r qs x. os = ps @ r # qs \<and> (r, x) \<in> refers Loaded \<and> (x, r) \<notin> (refers Loaded)\<^sup>* \<longrightarrow> x \<in> set ps"
    using in_order_before by metis
  ultimately show ?thesis using st'
    by (intro exI [of _ "fst st'"] exI [of _ "snd st'"] exI [of _ os]) (auto simp: assembled_by_def)
qed

definition sample_repo :: "string \<Rightarrow> RepoInfo" where
  "sample_repo name = \<lparr>ri_Repo = name, ri_Branch = [], ri_Path = [], ri_InitFile = [], ri_Name = [], ri_Description = [],
     ri_KeyFile = [], ri_KeyPassEnv = []\<rparr>"

definition sample_dataset :: "RepoInfo list \<Rightarrow> DataSet" where
  "sample_dataset rs = \<lparr>Systems = [], Rules = [], Drivers = None, Includes = [], Repos = rs, Workflows = [], Contexts = None\<rparr>"

definition sample_loaded :: "(RepoInfo, DataSet) gomap" where
  "sample_loaded =
    [(sample_repo ''main'', sample_dataset [sample_repo ''lib'', sample_repo ''gone'']), (sample_repo ''lib'', sample_dataset [sample_repo ''main''])]"

lemma last_wins_merges: "merges last_wins"
proof -
  have "\<exists>S. merge_systems last_wins s d = Inr S" for s d
  proof (induction s arbitrary: d)
    case (Cons p s)
    obtain name sys where p: "p = (name, sys)" by fastforce
    obtain m where "(case map_of d name of None \<Rightarrow> Inr sys | Some exist \<Rightarrow> mergeSystem last_wins exist sys) = Inr m"
      using mergeSystem_total [OF last_wins_no_errors] by (cases "map_of d name") auto
    with Cons.IH show ?case by (simp add: p)
  qed simp
  note systems = this
  have lib: "lx_copy_dataset last_wins = Inr" "\<exists>m. lx_dataset last_wins d s = Inr m" for d s
    by (simp_all add: last_wins_def)
  have "\<exists>m. mergeDataSet last_wins d s = Inr m" for d s
  proof -
    obtain S where "merge_systems last_wins (Systems s) (Systems d) = Inr S" using systems by blast
    with lib show ?thesis by (simp add: mergeDataSet_def)
  qed
  then show ?thesis by (simp add: merges_def)
qed

theorem assemble_once_witness:
  "\<exists>d' seen os. assemble last_wins sample_loaded 3 (sample_repo ''main'') (sample_dataset [], []) = Inr (d', seen) \<and> distinct os \<and>
    set os = (refers sample_loaded)\<^sup>* `` {sample_repo ''main''}"
proof -
  have "map_of sample_loaded (sample_repo ''main'') \<noteq> None" by (simp add: sample_loaded_def Let_def)
  moreover have "card (dom (map_of sample_loaded)) \<le> 2"
    by (simp add: sample_loaded_def Let_def dom_map_of_conv_image_fst card_insert_if)
  ultimately show ?thesis using assemble_once [OF last_wins_merges, of sample_loaded "sample_repo ''main''" 2 "sample_dataset []"]
    by (simp add: numeral_eq_Suc) blast
qed

end
