(* ===== verification/Traverse.thy ===== *)
theory Traverse
  imports Paths Loading Condition
begin

text \<open>
  The traversals of the typed configuration: \<open>recursive\<close> of \<open>internal/config/config.go\<close>, which
  decrypts values and compiles regular expressions, and \<open>normalizeFilePaths\<close> of
  \<open>file_reference.go\<close>, which replaces references to files by their contents.

  Both hand a structure to \<open>dipper.Recursive\<close>, which treats it as a leaf, and let the processor go on
  with some of the fields. The processor has a copy of the structure, so that changes survive only
  inside the maps and slices that the copy shares. A rule is passed on by a pointer to such a copy:
  all fields of its trigger and workflow are visited, and a value assigned to a field itself is lost.
  Assigning \<open>nil\<close>, or a value of another type to a string, is a reflection panic.
\<close>

section \<open>Fields\<close>

definition rec_map :: "item_processor \<Rightarrow> gmap option \<Rightarrow> gmap option res" where
  "rec_map f m = (case m of None \<Rightarrow> Inr None | Some fs \<Rightarrow> rmap Some (recursive_fields [] f fs))"

definition rec_list :: "('a \<Rightarrow> 'a res) \<Rightarrow> 'a list option \<Rightarrow> 'a list option res" where
  "rec_list r xs = (case xs of None \<Rightarrow> Inr None | Some ys \<Rightarrow> rmap Some (rmapM r ys))"

definition rec_values :: "('a \<Rightarrow> 'a res) \<Rightarrow> (string, 'a) gomap \<Rightarrow> (string, 'a) gomap res" where
  "rec_values r m = rmapM (\<lambda>(k, v). rmap (Pair k) (r v)) m"

text \<open>The field with index \<open>i\<close> of a structure that is traversed through a pointer to a copy.\<close>

definition str_field :: "item_processor \<Rightarrow> nat \<Rightarrow> string \<Rightarrow> unit res" where
  "str_field f i s = rbind (f (utoa i) (GStr s)) (\<lambda>r. case r of
      None \<Rightarrow> Inr () | Some (GStr _) \<Rightarrow> Inr () | Some _ \<Rightarrow> Inl ReflectPanic)"

definition iface_field :: "item_processor \<Rightarrow> nat \<Rightarrow> gval \<Rightarrow> gval res" where
  "iface_field f i v = (case v of
      GMap m \<Rightarrow> rmap GMap (recursive_fields (utoa i) f m)
    | GList xs \<Rightarrow> rmap GList (recursive_elems (utoa i) f 0 xs)
    | GRegex _ \<Rightarrow> Inr v
    | _ \<Rightarrow> rbind (f (utoa i) v) (\<lambda>r. if r = Some GNil then Inl ReflectPanic else Inr v))"

definition map_field :: "item_processor \<Rightarrow> nat \<Rightarrow> gmap option \<Rightarrow> gmap option res" where
  "map_field f i m = (case m of None \<Rightarrow> Inr None | Some fs \<Rightarrow> rmap Some (recursive_fields (utoa i) f fs))"

fun strs_loop :: "item_processor \<Rightarrow> string \<Rightarrow> nat \<Rightarrow> string list \<Rightarrow> string list res" where
  "strs_loop f p j [] = Inr []"
| "strs_loop f p j (s # ss) =
     rbind (f (ext_prefix p (utoa j)) (GStr s)) (\<lambda>r.
     rbind (case r of None \<Rightarrow> Inr s | Some (GStr s') \<Rightarrow> Inr s' | Some _ \<Rightarrow> Inl ReflectPanic) (\<lambda>s'.
     rmap ((#) s') (strs_loop f p (Suc j) ss)))"

definition strs_field :: "item_processor \<Rightarrow> nat \<Rightarrow> string list \<Rightarrow> string list res" where
  "strs_field f i ss = strs_loop f (utoa i) 0 ss"

text \<open>
  The trigger and the workflow of a rule, all fields in the order of the structure; \<open>rf\<close> and \<open>rw\<close> are
  what the processor does with the functions and workflows inside.
\<close>

definition when_fields :: "item_processor \<Rightarrow> Trigger \<Rightarrow> Trigger res" where
  "when_fields f t =
    rbind (str_field f 0 (tr_Driver t)) (\<lambda>_.
    rbind (str_field f 1 (tr_RawEvent t)) (\<lambda>_.
    rbind (map_field f 2 (tr_Match t)) (\<lambda>match.
    rbind (map_field f 3 (tr_Parameters t)) (\<lambda>params.
    rbind (map_field f 5 (tr_Export t)) (\<lambda>export.
    rbind (str_field f 6 (tr_Description t)) (\<lambda>_.
    rbind (iface_field f 7 (tr_Meta t)) (\<lambda>meta.
    Inr (t\<lparr>tr_Match := match, tr_Parameters := params, tr_Export := export, tr_Meta := meta\<rparr>))))))))"

definition do_fields :: "item_processor \<Rightarrow> (Function \<Rightarrow> Function res) \<Rightarrow> (Workflow \<Rightarrow> Workflow res) \<Rightarrow> Workflow \<Rightarrow> Workflow res" where
  "do_fields f rf rw w = (let d = wd w in
    rbind (str_field f 0 (wf_Name d)) (\<lambda>_.
    rbind (str_field f 1 (wf_Description d)) (\<lambda>_.
    rbind (iface_field f 2 (wf_Meta d)) (\<lambda>x2.
    rbind (str_field f 3 (wf_Context d)) (\<lambda>_.
    rbind (iface_field f 4 (wf_Contexts d)) (\<lambda>x4.
    rbind (iface_field f 5 (wf_Local d)) (\<lambda>x5.
    rbind (iface_field f 6 (wf_Match d)) (\<lambda>x6.
    rbind (iface_field f 7 (wf_UnlessMatch d)) (\<lambda>x7.
    rbind (iface_field f 8 (wf_WhileMatch d)) (\<lambda>x8.
    rbind (iface_field f 9 (wf_UntilMatch d)) (\<lambda>x9.
    rbind (strs_field f 10 (wf_If d)) (\<lambda>x10.
    rbind (strs_field f 11 (wf_IfAny d)) (\<lambda>x11.
    rbind (strs_field f 12 (wf_Unless d)) (\<lambda>x12.
    rbind (strs_field f 13 (wf_UnlessAll d)) (\<lambda>x13.
    rbind (strs_field f 14 (wf_While d)) (\<lambda>x14.
    rbind (strs_field f 15 (wf_WhileAny d)) (\<lambda>x15.
    rbind (strs_field f 16 (wf_Until d)) (\<lambda>x16.
    rbind (strs_field f 17 (wf_UntilAll d)) (\<lambda>x17.
    rbind (iface_field f 18 (wf_Else d)) (\<lambda>x18.
    rbind (iface_field f 19 (wf_Iterate d)) (\<lambda>x19.
    rbind (iface_field f 20 (wf_IterateParallel d)) (\<lambda>x20.
    rbind (str_field f 21 (wf_IteratePool d)) (\<lambda>_.
    rbind (str_field f 22 (wf_IterateAs d)) (\<lambda>_.
    rbind (str_field f 23 (wf_Retry d)) (\<lambda>_.
    rbind (str_field f 24 (wf_Backoff d)) (\<lambda>_.
    rbind (str_field f 25 (wf_OnError d)) (\<lambda>_.
    rbind (str_field f 26 (wf_OnFailure d)) (\<lambda>_.
    rbind (str_field f 27 (wf_Workflow d)) (\<lambda>_.
    rbind (rf (wf_Function d)) (\<lambda>x28.
    rbind (str_field f 29 (wf_CallFunction d)) (\<lambda>_.
    rbind (str_field f 30 (wf_CallDriver d)) (\<lambda>_.
    rbind (rec_list rw (Steps w)) (\<lambda>x31.
    rbind (rec_list rw (Threads w)) (\<lambda>x32.
    rbind (str_field f 33 (wf_Wait d)) (\<lambda>_.
    rbind (str_field f 35 (wf_Switch d)) (\<lambda>_.
    rbind (map_field f 36 (wf_Cases d)) (\<lambda>x36.
    rbind (iface_field f 37 (wf_Default d)) (\<lambda>x37.
    rbind (map_field f 38 (wf_Export d)) (\<lambda>x38.
    rbind (map_field f 39 (wf_ExportOnSuccess d)) (\<lambda>x39.
    rbind (map_field f 40 (wf_ExportOnFailure d)) (\<lambda>x40.
    rbind (map_field f 41 (wf_ExportOnError d)) (\<lambda>x41.
    rbind (strs_field f 42 (wf_NoExport d)) (\<lambda>x42.
    Inr (Workflow (
      d\<lparr>wf_Meta := x2, wf_Contexts := x4, wf_Local := x5, wf_Match := x6, wf_UnlessMatch := x7,
        wf_WhileMatch := x8, wf_UntilMatch := x9, wf_If := x10, wf_IfAny := x11, wf_Unless := x12,
        wf_UnlessAll := x13, wf_While := x14, wf_WhileAny := x15, wf_Until := x16, wf_UntilAll := x17,
        wf_Else := x18, wf_Iterate := x19, wf_IterateParallel := x20, wf_Function := x28, wf_Cases := x36,
        wf_Default := x37, wf_Export := x38, wf_ExportOnSuccess := x39, wf_ExportOnFailure := x40,
        wf_ExportOnError := x41, wf_NoExport := x42\<rparr>) x31 x32))))))))))))))))))))))))))))))))))))))))))))"

section \<open>Processing the staged configuration\<close>

text \<open>Only strings are handed on, and only staged data can be changed.\<close>

definition string_processor :: "item_processor \<Rightarrow> bool \<Rightarrow> item_processor" where
  "string_processor f stage name v = (case v of
      GStr _ \<Rightarrow> rmap (\<lambda>r. if stage then r else None) (f name v)
    | _ \<Rightarrow> Inr None)"

definition rec_trigger :: "item_processor \<Rightarrow> Trigger \<Rightarrow> Trigger res" where
  "rec_trigger f t =
    rbind (rec_map f (tr_Match t)) (\<lambda>match.
    rbind (rec_map f (tr_Parameters t)) (\<lambda>params.
    Inr (t\<lparr>tr_Match := match, tr_Parameters := params\<rparr>)))"

definition rec_function :: "item_processor \<Rightarrow> Function \<Rightarrow> Function res" where
  "rec_function f fn = rmap (\<lambda>params. fn\<lparr>fn_Parameters := params\<rparr>) (rec_map f (fn_Parameters fn))"

definition rec_system :: "item_processor \<Rightarrow> System \<Rightarrow> System res" where
  "rec_system f s =
    rbind (rec_map f (sys_Data s)) (\<lambda>data.
    rbind (rec_values (rec_trigger f) (sys_Triggers s)) (\<lambda>triggers.
    rbind (rec_values (rec_function f) (sys_Functions s)) (\<lambda>functions.
    Inr (s\<lparr>sys_Data := data, sys_Triggers := triggers, sys_Functions := functions\<rparr>))))"

fun rec_workflow :: "item_processor \<Rightarrow> Workflow \<Rightarrow> Workflow res" where
  "rec_workflow f (Workflow d steps threads) =
    rbind (Recursive f (wf_Match d)) (\<lambda>match.
    rbind (Recursive f (wf_UnlessMatch d)) (\<lambda>unless.
    rbind (case steps of None \<Rightarrow> Inr None | Some ws \<Rightarrow> rmap Some (rmapM (rec_workflow f) ws)) (\<lambda>steps'.
    rbind (case threads of None \<Rightarrow> Inr None | Some ws \<Rightarrow> rmap Some (rmapM (rec_workflow f) ws)) (\<lambda>threads'.
    rbind (Recursive f (wf_Else d)) (\<lambda>els.
    rbind (rec_map f (wf_Cases d)) (\<lambda>cases.
    Inr (Workflow (d\<lparr>wf_Match := match, wf_UnlessMatch := unless, wf_Else := els, wf_Cases := cases\<rparr>) steps' threads')))))))"

definition rec_rule :: "item_processor \<Rightarrow> Rule \<Rightarrow> Rule res" where
  "rec_rule f r =
    rbind (do_fields f (rec_function f) (rec_workflow f) (Do r)) (\<lambda>d.
    rbind (when_fields f (When r)) (\<lambda>w.
    Inr (r\<lparr>Do := d, When := w\<rparr>)))"

definition rec_driver :: "item_processor \<Rightarrow> string \<times> gval \<Rightarrow> (string \<times> gval) res" where
  "rec_driver f e = (if fst e = ''daemon'' then Inr e else rmap (Pair (fst e)) (Recursive f (snd e)))"

definition config_recursive :: "item_processor \<Rightarrow> bool \<Rightarrow> DataSet \<Rightarrow> DataSet res" where
  "config_recursive f stage target = (let processor = string_processor f stage in
    rbind (rec_values (rec_workflow processor) (Workflows target)) (\<lambda>workflows.
    rbind (rmapM (rec_rule processor) (Rules target)) (\<lambda>rules.
    rbind (rec_values (rec_system processor) (Systems target)) (\<lambda>systems.
    rbind (rec_map f (Contexts target)) (\<lambda>contexts.
    rbind (case Drivers target of None \<Rightarrow> Inr None | Some ds \<Rightarrow> rmap Some (rmapM (rec_driver f) ds)) (\<lambda>drivers.
    Inr (target\<lparr>Workflows := workflows, Rules := rules, Systems := systems, Contexts := contexts, Drivers := drivers\<rparr>)))))))"

definition RecursiveStaged :: "item_processor \<Rightarrow> DataSet \<Rightarrow> DataSet res" where
  "RecursiveStaged f staged = config_recursive f True staged"

section \<open>References to files\<close>

text \<open>\<open>@:\<close> followed by a path; \<open>read\<close> is \<open>os.ReadFile\<close>, whose error is raised as a panic.\<close>

definition file_ref :: "string \<Rightarrow> (string \<Rightarrow> string res) \<Rightarrow> string \<Rightarrow> item_processor" where
  "file_ref repo_root read cwd name v = (case v of
      GStr s \<Rightarrow>
        if length s > 2 \<and> has_prefix s ''@:'' then
          rbind (normalizeFilePath repo_root cwd (drop 2 s)) (\<lambda>path.
          rbind (read path) (\<lambda>txt.
          Inr (Some (GStr txt))))
        else Inr None
    | _ \<Rightarrow> Inr None)"

definition file_trigger :: "item_processor \<Rightarrow> Trigger \<Rightarrow> Trigger res" where
  "file_trigger f t =
    rbind (rec_map f (tr_Match t)) (\<lambda>match.
    rbind (rec_map f (tr_Parameters t)) (\<lambda>params.
    rbind (rec_map f (tr_Export t)) (\<lambda>export.
    Inr (t\<lparr>tr_Match := match, tr_Parameters := params, tr_Export := export\<rparr>))))"

definition file_function :: "item_processor \<Rightarrow> Function \<Rightarrow> Function res" where
  "file_function f fn =
    rbind (rec_map f (fn_Parameters fn)) (\<lambda>params.
    rbind (rec_map f (fn_Export fn)) (\<lambda>export.
    rbind (rec_map f (fn_ExportOnSuccess fn)) (\<lambda>success.
    rbind (rec_map f (fn_ExportOnFailure fn)) (\<lambda>failure.
    Inr (fn\<lparr>fn_Parameters := params, fn_Export := export, fn_ExportOnSuccess := success, fn_ExportOnFailure := failure\<rparr>)))))"

definition file_system :: "item_processor \<Rightarrow> System \<Rightarrow> System res" where
  "file_system f s =
    rbind (rec_values (file_trigger f) (sys_Triggers s)) (\<lambda>triggers.
    rbind (rec_values (file_function f) (sys_Functions s)) (\<lambda>functions.
    rbind (rec_map f (sys_Data s)) (\<lambda>data.
    Inr (s\<lparr>sys_Data := data, sys_Triggers := triggers, sys_Functions := functions\<rparr>))))"

fun file_workflow :: "item_processor \<Rightarrow> Workflow \<Rightarrow> Workflow res" where
  "file_workflow f (Workflow d steps threads) =
    rbind (Recursive f (wf_Match d)) (\<lambda>match.
    rbind (Recursive f (wf_UnlessMatch d)) (\<lambda>unless.
    rbind (Recursive f (wf_Local d)) (\<lambda>loc.
    rbind (rec_map f (wf_Export d)) (\<lambda>export.
    rbind (rec_map f (wf_ExportOnSuccess d)) (\<lambda>success.
    rbind (rec_map f (wf_ExportOnFailure d)) (\<lambda>failure.
    rbind (Recursive f (wf_Else d)) (\<lambda>els.
    rbind (case steps of None \<Rightarrow> Inr None | Some ws \<Rightarrow> rmap Some (rmapM (file_workflow f) ws)) (\<lambda>steps'.
    rbind (case threads of None \<Rightarrow> Inr None | Some ws \<Rightarrow> rmap Some (rmapM (file_workflow f) ws)) (\<lambda>threads'.
    rbind (rec_map f (wf_Cases d)) (\<lambda>cases.
    Inr (Workflow (d\<lparr>wf_Match := match, wf_UnlessMatch := unless, wf_Local := loc, wf_Export := export,
      wf_ExportOnSuccess := success, wf_ExportOnFailure := failure, wf_Else := els, wf_Cases := cases\<rparr>) steps' threads')))))))))))"

definition file_rule :: "item_processor \<Rightarrow> Rule \<Rightarrow> Rule res" where
  "file_rule f r =
    rbind (do_fields f (file_function f) (file_workflow f) (Do r)) (\<lambda>d.
    rbind (when_fields f (When r)) (\<lambda>w.
    Inr (r\<lparr>Do := d, When := w\<rparr>)))"

definition normalizeFilePaths :: "string \<Rightarrow> (string \<Rightarrow> string res) \<Rightarrow> string \<Rightarrow> DataSet \<Rightarrow> DataSet res" where
  "normalizeFilePaths repo_root read currentFile content = (let f = file_ref repo_root read (path_Dir currentFile) in
    rbind (rec_values (file_system f) (Systems content)) (\<lambda>systems.
    rbind (rmapM (file_rule f) (Rules content)) (\<lambda>rules.
    rbind (map_field f 2 (Drivers content)) (\<lambda>drivers.
    rbind (strs_field f 3 (Includes content)) (\<lambda>includes.
    rbind (rec_values (file_workflow f) (Workflows content)) (\<lambda>workflows.
    rbind (map_field f 6 (Contexts content)) (\<lambda>contexts.
    Inr (content\<lparr>Systems := systems, Rules := rules, Drivers := drivers, Includes := includes,
      Workflows := workflows, Contexts := contexts\<rparr>))))))))"

section \<open>What is processed\<close>

fun subflows :: "Workflow \<Rightarrow> Workflow list" where
  "subflows (Workflow d steps threads) = Workflow d steps threads #
     (case steps of None \<Rightarrow> [] | Some ws \<Rightarrow> concat (map subflows ws)) @
     (case threads of None \<Rightarrow> [] | Some ws \<Rightarrow> concat (map subflows ws))"

text \<open>What processing does to the conditions of one workflow.\<close>

definition conditions_processed :: "item_processor \<Rightarrow> Workflow \<Rightarrow> Workflow \<Rightarrow> bool" where
  "conditions_processed f w w' \<longleftrightarrow>
     Recursive f (wf_Match (wd w)) = Inr (wf_Match (wd w')) \<and>
     Recursive f (wf_UnlessMatch (wd w)) = Inr (wf_UnlessMatch (wd w')) \<and>
     wf_WhileMatch (wd w') = wf_WhileMatch (wd w) \<and> wf_UntilMatch (wd w') = wf_UntilMatch (wd w)"

lemma list_all2_concat: "list_all2 (list_all2 P) xss yss \<Longrightarrow> list_all2 P (concat xss) (concat yss)"
  by (induction xss yss rule: list_all2_induct) (auto intro: list_all2_appendI)

lemma rmapM_list_all2: "rmapM f xs = Inr ys \<Longrightarrow> list_all2 (\<lambda>x y. f x = Inr y) xs ys"
  by (induction xs arbitrary: ys) (auto simp: rbind_Inr_conv)

lemma rmapM_subflows:
  assumes "rmapM r ws = Inr ws'" and "\<And>w w'. w \<in> set ws \<Longrightarrow> r w = Inr w' \<Longrightarrow> list_all2 P (subflows w) (subflows w')"
  shows "list_all2 P (concat (map subflows ws)) (concat (map subflows ws'))"
proof -
  have "list_all2 (\<lambda>w w'. list_all2 P (subflows w) (subflows w')) ws ws'"
    by (rule list.rel_mono_strong [OF rmapM_list_all2 [OF assms(1)]]) (rule assms(2))
  then show ?thesis by (intro list_all2_concat) (simp add: list_all2_map1 list_all2_map2)
qed

lemma rec_workflow_conditions:
  "rec_workflow f w = Inr w' \<Longrightarrow> list_all2 (conditions_processed f) (subflows w) (subflows w')"
proof (induction f w arbitrary: w' rule: rec_workflow.induct)
  case (1 f d steps threads)
  from "1.prems" obtain m u s t e c where
    cond: "Recursive f (wf_Match d) = Inr m" "Recursive f (wf_UnlessMatch d) = Inr u" and
    s: "(case steps of None \<Rightarrow> Inr None | Some ws \<Rightarrow> rmap Some (rmapM (rec_workflow f) ws)) = Inr s" and
    t: "(case threads of None \<Rightarrow> Inr None | Some ws \<Rightarrow> rmap Some (rmapM (rec_workflow f) ws)) = Inr t" and
    w': "w' = Workflow (d\<lparr>wf_Match := m, wf_UnlessMatch := u, wf_Else := e, wf_Cases := c\<rparr>) s t"
    by (auto simp: rbind_Inr_conv)
  have "list_all2 (conditions_processed f) (case steps of None \<Rightarrow> [] | Some ws \<Rightarrow> concat (map subflows ws))
      (case s of None \<Rightarrow> [] | Some ws \<Rightarrow> concat (map subflows ws))"
    using s "1.IH"(1) [OF cond] rmapM_subflows by (fastforce simp: rmap_def rbind_Inr_conv split: option.splits)
  moreover have "list_all2 (conditions_processed f) (case threads of None \<Rightarrow> [] | Some ws \<Rightarrow> concat (map subflows ws))
      (case t of None \<Rightarrow> [] | Some ws \<Rightarrow> concat (map subflows ws))"
    using t "1.IH"(2) [OF cond s] rmapM_subflows by (fastforce simp: rmap_def rbind_Inr_conv split: option.splits)
  moreover have "conditions_processed f (Workflow d steps threads) w'" using cond by (simp add: w' conditions_processed_def)
  ultimately show ?case by (simp add: w' list_all2_appendI)
qed

lemma rec_values_map_of:
  "rec_values r m = Inr m' \<Longrightarrow> map_of m k = Some v \<Longrightarrow> \<exists>v'. r v = Inr v' \<and> map_of m' k = Some v'"
proof (induction m arbitrary: m')
  case (Cons kv m)
  obtain k1 v1 where kv: "kv = (k1, v1)" by fastforce
  with Cons.prems obtain v1' m1 where "r v1 = Inr v1'" "rec_values r m = Inr m1" "m' = (k1, v1') # m1"
    by (auto simp: rec_values_def rmap_def rbind_Inr_conv)
  with Cons kv show ?case by auto
qed (simp add: rec_values_def)

lemma config_recursive_workflow:
  assumes "config_recursive f stage d = Inr d'" and "map_of (Workflows d) name = Some w"
  shows "\<exists>w'. rec_workflow (string_processor f stage) w = Inr w' \<and> map_of (Workflows d') name = Some w'"
proof -
  obtain ws where "rec_values (rec_workflow (string_processor f stage)) (Workflows d) = Inr ws" "Workflows d' = ws"
    using assms(1) by (auto simp: config_recursive_def rbind_Inr_conv Let_def)
  with rec_values_map_of assms(2) show ?thesis by metis
qed

text \<open>
  When the staged configuration is processed, in a named workflow and in every step and thread
  nested in it the conditions \<open>if_match\<close> and \<open>unless_match\<close> are processed, but \<open>while_match\<close> and
  \<open>until_match\<close> are left as they were written.
\<close>

theorem RecursiveStaged_conditions:
  assumes "RecursiveStaged f d = Inr d'" and "map_of (Workflows d) name = Some w"
  shows "\<exists>w'. map_of (Workflows d') name = Some w' \<and>
    list_all2 (conditions_processed (string_processor f True)) (subflows w) (subflows w')"
  using config_recursive_workflow [OF assms(1) [unfolded RecursiveStaged_def] assms(2)] rec_workflow_conditions by blast

text \<open>
  So the regular expressions in the loop conditions of a workflow are not compiled when the
  configuration enters the serving stage: whatever the pattern, the criteria there matches only the
  text of the pattern itself, marker included, while the same criteria in \<open>if_match\<close> matches what
  the pattern matches.
\<close>

theorem loop_regex_not_compiled:
  assumes "RecursiveStaged (\<lambda>key v. Inr (RegexParser X key v)) d = Inr d'"
    and "map_of (Workflows d) name = Some (Workflow w steps threads)"
    and "wf_WhileMatch w = GMap [(k, GStr ('':regex:'' @ pat))]" and "wf_Match w = GMap [(k, GStr ('':regex:'' @ pat))]"
    and "ext_re_valid X pat"
  shows "\<exists>w' while match. map_of (Workflows d') name = Some w' \<and>
    wf_WhileMatch (wd w') = GMap [(k, while)] \<and> (\<forall>actual. Compare X actual while = (actual = '':regex:'' @ pat)) \<and>
    wf_Match (wd w') = GMap [(k, match)] \<and> (\<forall>actual. Compare X actual match = ext_re_match X pat actual)"
proof -
  let ?f = "string_processor (\<lambda>key v. Inr (RegexParser X key v)) True"
  obtain w' where w': "rec_workflow ?f (Workflow w steps threads) = Inr w'" "map_of (Workflows d') name = Some w'"
    using config_recursive_workflow [OF assms(1) [unfolded RecursiveStaged_def] assms(2)] by blast
  have "conditions_processed ?f (Workflow w steps threads) w'"
    using rec_workflow_conditions [OF w'(1)] by (cases w') simp
  moreover have "Recursive ?f (GMap [(k, GStr ('':regex:'' @ pat))]) = Inr (GMap [(k, GRegex pat)])"
    using assms(5) by (simp add: Recursive_def string_processor_def RegexParser_def has_prefix_def rmap_def)
  ultimately show ?thesis using assms(3,4) w'(2) by (auto simp: conditions_processed_def)
qed

text \<open>
  C40: whatever a configuration file contains, the files read for its references lie below the root of
  the repository: the outcome depends on nothing else in the file system.
\<close>

theorem normalizeFilePaths_confined:
  assumes "list_all plain_elem rs" and "rs \<noteq> []"
    and "\<And>rest. rest \<noteq> [] \<Longrightarrow> list_all plain_elem rest \<Longrightarrow> read (abs_path (rs @ rest)) = read' (abs_path (rs @ rest))"
  shows "normalizeFilePaths (abs_path rs) read currentFile content = normalizeFilePaths (abs_path rs) read' currentFile content"
proof -
  have "read p = read' p" if "normalizeFilePath (abs_path rs) cwd rel = Inr p" for cwd rel p
    using normalizeFilePath_inside [OF assms(1,2) that] assms(3) by auto
  then have "file_ref (abs_path rs) read cwd = file_ref (abs_path rs) read' cwd" for cwd
    by (auto simp: fun_eq_iff file_ref_def intro!: rbind_cong split: gval.split)
  then show ?thesis by (simp add: normalizeFilePaths_def)
qed

section \<open>Witnesses\<close>

definition sample_flows :: DataSet where
  "sample_flows = \<lparr>Systems = [(''s'', zero_system\<lparr>sys_Data := Some [(''cert'', GStr ''@:ca/cert.pem'')]\<rparr>)], Rules = [],
     Drivers = None, Includes = [], Repos = [],
     Workflows = [(''poll'', Workflow (zero_wfdata\<lparr>wf_WhileMatch := GMap [(''state'', GStr '':regex:^run'')],
       wf_Match := GMap [(''state'', GStr '':regex:^run'')]\<rparr>) (Some [zero_workflow]) None)],
     Contexts = None\<rparr>"

definition sample_regex :: ext where
  "sample_regex = no_ext\<lparr>ext_re_valid := (\<lambda>_. True)\<rparr>"

abbreviation sample_parser :: item_processor where
  "sample_parser \<equiv> \<lambda>key v. Inr (RegexParser sample_regex key v)"

definition sample_staged :: DataSet where
  "sample_staged = (case RecursiveStaged sample_parser sample_flows of Inr d \<Rightarrow> d | Inl _ \<Rightarrow> sample_flows)"

lemma sample_staged: "RecursiveStaged sample_parser sample_flows = Inr sample_staged"
proof -
  have "(case RecursiveStaged sample_parser sample_flows of Inr d \<Rightarrow> True | Inl _ \<Rightarrow> False)" by code_simp
  then show ?thesis by (auto simp: sample_staged_def split: sum.splits)
qed

theorem RecursiveStaged_conditions_witness:
  "\<exists>w w'. map_of (Workflows sample_flows) ''poll'' = Some w \<and> map_of (Workflows sample_staged) ''poll'' = Some w' \<and>
    length (subflows w) = 2 \<and> list_all2 (conditions_processed (string_processor sample_parser True)) (subflows w) (subflows w')"
proof -
  obtain w where w: "map_of (Workflows sample_flows) ''poll'' = Some w" "length (subflows w) = 2"
    by (simp add: sample_flows_def zero_workflow_def)
  from RecursiveStaged_conditions [OF sample_staged w(1)] w show ?thesis by blast
qed

theorem loop_regex_not_compiled_witness:
  "\<exists>w' while match. map_of (Workflows sample_staged) ''poll'' = Some w' \<and>
    wf_WhileMatch (wd w') = GMap [(''state'', while)] \<and> (\<forall>actual. Compare sample_regex actual while = (actual = '':regex:^run'')) \<and>
    wf_Match (wd w') = GMap [(''state'', match)] \<and> (\<forall>actual. Compare sample_regex actual match = ext_re_match sample_regex ''^run'' actual)"
  using loop_regex_not_compiled [OF sample_staged, of "''poll''" _ _ _ "''state''" "''^run''"]
  by (simp add: sample_flows_def sample_regex_def)

theorem normalizeFilePaths_confined_witness:
  "normalizeFilePaths ''/repo'' (\<lambda>p. if p = ''/repo/conf/ca/cert.pem'' then Inr ''PEM'' else Inl NilDereference) ''/repo/conf/init.yaml'' sample_flows =
   normalizeFilePaths ''/repo'' (\<lambda>p. if p = ''/repo/conf/ca/cert.pem'' then Inr ''PEM''
     else if has_prefix p ''/repo/'' then Inl NilDereference else Inr ''other'') ''/repo/conf/init.yaml'' sample_flows"
  (is "normalizeFilePaths _ ?r _ _ = normalizeFilePaths _ ?r' _ _")
proof -
  have repo: "list_all plain_elem [''repo'']" "[''repo''] \<noteq> []" by (code_simp, simp)
  have below: "has_prefix (abs_path ([''repo''] @ rest)) ''/repo/''" if "rest \<noteq> []" for rest
    using that by (cases rest) (simp_all add: abs_path_def has_prefix_conv)
  have "normalizeFilePaths (abs_path [''repo'']) ?r ''/repo/conf/init.yaml'' sample_flows =
      normalizeFilePaths (abs_path [''repo'']) ?r' ''/repo/conf/init.yaml'' sample_flows"
    by (rule normalizeFilePaths_confined [OF repo]) (simp only: below not_False_eq_True if_True)
  then show ?thesis by (simp add: abs_path_def)
qed

end
