(* ===== verification/RepoLoad.thy ===== *)
theory RepoLoad
  imports Traverse
begin

text \<open>
  \<open>internal/config/repo.go\<close> and \<open>loadRepo\<close> of \<open>config.go\<close>: reading the files of a repository with the
  files they include and the repositories they refer to.

  \<open>disk\<close> holds what is outside the program: files, globbing, the YAML decoder, git and the environment.
  A panic leaves behind what was loaded before it, so an operation returns the state together with the
  panic that ended it; \<open>recovering\<close> is the deferred function that turns a panic into an entry of the
  error list. Files may include each other and repositories may refer to each other in a circle, so the
  argument \<open>n\<close> bounds the nesting of the calls.
\<close>

section \<open>State\<close>

datatype pull = UpToDate | Pulled | UnstagedChanges | PullFailed string

datatype stat = StatOK | NotExist | StatError

record disk =
  os_ReadFile :: "string \<Rightarrow> string res"
  os_Glob :: "string \<Rightarrow> string list option"
  os_Getenv :: gmap
  yaml_Unmarshal :: "string \<Rightarrow> DataSet res"
  filepath_Abs :: "string \<Rightarrow> string res"
  os_Stat :: "string \<Rightarrow> stat"
  git_Clone :: "RepoInfo \<Rightarrow> string res"
  git_Pull :: "string \<Rightarrow> RepoInfo \<Rightarrow> pull res"
  git_Reset :: "string \<Rightarrow> gopanic option"

record Repo =
  rp_repo :: RepoInfo
  rp_DataSet :: DataSet
  rp_files :: "string list"
  rp_root :: string
  rp_Errors :: "(gopanic \<times> string) list"

text \<open>What loading reads of the configuration, and the repositories it has loaded.\<close>

record Parent =
  pa_ext :: ext
  pa_lib :: loader
  pa_disk :: disk
  pa_Overrides :: "(string, string) gomap"
  pa_IsConfigCheck :: bool
  pa_CheckRemote :: bool
  pa_IsDocGen :: bool

type_synonym repos = "(RepoInfo, Repo) gomap"
type_synonym lstate = "Repo \<times> repos"
type_synonym action = "lstate act"

definition zero_dataset :: DataSet where
  "zero_dataset = \<lparr>Systems = [], Rules = [], Drivers = None, Includes = [], Repos = [], Workflows = [], Contexts = None\<rparr>"

definition newRepo :: "RepoInfo \<Rightarrow> Repo" where
  "newRepo info = \<lparr>rp_repo = info, rp_DataSet = zero_dataset, rp_files = [], rp_root = [], rp_Errors = []\<rparr>"

section \<open>Panics\<close>

definition is_error :: "gopanic \<Rightarrow> bool" where
  "is_error e = (case e of PanicStr _ \<Rightarrow> False | _ \<Rightarrow> True)"

definition recovering :: "string \<Rightarrow> string \<Rightarrow> action \<Rightarrow> action" where
  "recovering filename repo a st = (case a st of
      (st', None) \<Rightarrow> (st', None)
    | ((c, loaded), Some e) \<Rightarrow>
        if fatal e then ((c, loaded), Some e)
        else if filename = [] \<and> repo = [] then ((c, loaded), None)
        else if \<not> is_error e then ((c, loaded), Some TypeAssertion)
        else ((c\<lparr>rp_Errors := rp_Errors c @ (if filename \<noteq> [] then [(e, filename)] else []) @
          (if repo \<noteq> [] then [(e, ''_'')] else [])\<rparr>, loaded), None))"

section \<open>Files\<close>

definition isRepoLoaded :: "repos \<Rightarrow> RepoInfo \<Rightarrow> bool" where
  "isRepoLoaded loaded info \<longleftrightarrow> map_of loaded info \<noteq> None"

text \<open>The text of a file after the loading templates; a template that returns anything but a string is ignored.\<close>

definition render_file :: "Parent \<Rightarrow> string \<Rightarrow> string \<Rightarrow> string \<Rightarrow> string res" where
  "render_file P root_dir filename txt =
    rmap (\<lambda>out. case out of TBuf ret \<Rightarrow> ret | TRet (GStr ret) \<Rightarrow> ret | _ \<Rightarrow> txt)
      (InterpolateGoTemplate (pa_ext P) True txt
        (GMap [(''env'', GMap (os_Getenv (pa_disk P))), (''local'', GMap [(''filename'', GStr (trim_prefix filename root_dir))])]))"

definition read_content :: "Parent \<Rightarrow> string \<Rightarrow> string \<Rightarrow> DataSet res" where
  "read_content P root_dir filename =
    rbind (os_ReadFile (pa_disk P) filename) (\<lambda>txt.
    rbind (render_file P root_dir filename txt) (\<lambda>yaml.
    yaml_Unmarshal (pa_disk P) yaml))"

definition loads_repos :: "Parent \<Rightarrow> bool" where
  "loads_repos P \<longleftrightarrow> \<not> pa_IsDocGen P \<and> (pa_CheckRemote P \<or> \<not> pa_IsConfigCheck P)"

definition finish_file :: "Parent \<Rightarrow> string \<Rightarrow> DataSet \<Rightarrow> action" where
  "finish_file P filename content st =
    lget (normalizeFilePaths (rp_root (fst st)) (os_ReadFile (pa_disk P)) filename content) (\<lambda>content'.
    lget (mergeDataSet (pa_lib P) (rp_DataSet (fst st)) content') (\<lambda>merged (c, loaded).
    ((c\<lparr>rp_DataSet := merged, rp_files := filename # rp_files c\<rparr>, loaded), None))) st"

definition loadFileGlob :: "Parent \<Rightarrow> (string \<Rightarrow> action) \<Rightarrow> string \<Rightarrow> action" where
  "loadFileGlob P load globname = (case os_Glob (pa_disk P) globname of
      None \<Rightarrow> lpanic (FatalError (''Unable to expand glob to filenames in '' @ globname))
    | Some filenames \<Rightarrow> load_each load filenames)"

definition load_include :: "Parent \<Rightarrow> (string \<Rightarrow> action) \<Rightarrow> string \<Rightarrow> string \<Rightarrow> action" where
  "load_include P load cwd include st = lget (normalizeFilePath (rp_root (fst st)) cwd include) (loadFileGlob P load) st"

definition load_referred :: "(RepoInfo \<Rightarrow> repos \<Rightarrow> repos \<times> gopanic option) \<Rightarrow> RepoInfo \<Rightarrow> action" where
  "load_referred load info st = (case st of (c, loaded) \<Rightarrow>
     if isRepoLoaded loaded info then (st, None)
     else (case load info loaded of (loaded', e) \<Rightarrow> ((c, loaded'), e)))"

definition init_path :: "string \<Rightarrow> RepoInfo \<Rightarrow> string \<Rightarrow> string" where
  "init_path root_dir info initFile =
     path_Clean (path_Join (path_Join root_dir (if ri_Path info \<noteq> [] then ri_Path info else ''/'')) initFile)"

section \<open>Repositories\<close>

text \<open>Where the files of a repository are: an override, a clone, or a local directory.\<close>

definition repo_root :: "Parent \<Rightarrow> RepoInfo \<Rightarrow> string res" where
  "repo_root P info = (case map_of (pa_Overrides P) (ri_Repo info) of
      Some override \<Rightarrow> filepath_Abs (pa_disk P) override
    | None \<Rightarrow>
        if os_Stat (pa_disk P) (ri_Repo info) = NotExist \<or> ri_Branch info \<noteq> [] then git_Clone (pa_disk P) info
        else filepath_Abs (pa_disk P) (ri_Repo info))"

fun loadFile :: "Parent \<Rightarrow> nat \<Rightarrow> string \<Rightarrow> action"
  and loadRepo :: "Parent \<Rightarrow> nat \<Rightarrow> Repo \<Rightarrow> repos \<Rightarrow> lstate \<times> gopanic option"
  and Config_loadRepo :: "Parent \<Rightarrow> nat \<Rightarrow> RepoInfo \<Rightarrow> repos \<Rightarrow> repos \<times> gopanic option" where
  "loadFile P 0 filename st = (st, Some StackOverflow)"
| "loadFile P (Suc n) filename st = recovering filename [] (\<lambda>st0.
     if filename \<in> set (rp_files (fst st0)) then (st0, None)
     else lget (read_content P (rp_root (fst st0)) filename) (\<lambda>content.
       lseq (if loads_repos P then load_each (load_referred (\<lambda>info loaded. Config_loadRepo P n info loaded)) (Repos content)
             else lskip)
       (lseq (load_each (load_include P (\<lambda>f s. loadFile P n f s) (path_Dir filename)) (Includes content))
       (finish_file P filename content))) st0) st"
| "loadRepo P 0 c loaded = ((c, loaded), Some StackOverflow)"
| "loadRepo P (Suc n) c loaded = recovering [] (ri_Repo (rp_repo c)) (\<lambda>st0.
     lget (repo_root P (rp_repo c)) (\<lambda>root_dir (c0, loaded0).
       loadFile P n (init_path root_dir (rp_repo c)
         (if ri_InitFile (rp_repo c) \<noteq> [] then ri_InitFile (rp_repo c) else ''init.yaml''))
         (c0\<lparr>rp_root := root_dir\<rparr>, loaded0)) st0) (c, loaded)"
| "Config_loadRepo P 0 info loaded = (loaded, Some StackOverflow)"
| "Config_loadRepo P (Suc n) info loaded =
     (if isRepoLoaded loaded info then (loaded, None)
      else (case loadRepo P n (newRepo info) loaded of
         ((c, loaded'), None) \<Rightarrow> (mput info c loaded', None)
       | ((c, loaded'), Some e) \<Rightarrow> (loaded', Some e)))"

text \<open>The result tells whether the repository has changed; after a panic it is \<open>false\<close>.\<close>

definition pull_repo :: "Parent \<Rightarrow> Repo \<Rightarrow> bool res" where
  "pull_repo P c = (let info = rp_repo c; D = pa_disk P in
     if map_of (pa_Overrides P) (ri_Repo info) \<noteq> None \<or> (os_Stat D (ri_Repo info) = StatOK \<and> ri_Branch info = [])
     then Inr True
     else rbind (git_Pull D (rp_root c) info) (\<lambda>r. case r of
         UpToDate \<Rightarrow> Inr False
       | Pulled \<Rightarrow> Inr True
       | UnstagedChanges \<Rightarrow> (case git_Reset D (rp_root c) of None \<Rightarrow> Inr True | Some e \<Rightarrow> Inl e)
       | PullFailed e \<Rightarrow> Inl (PanicErr e)))"

definition reload_files :: "Parent \<Rightarrow> nat \<Rightarrow> action" where
  "reload_files P n st = (case st of (c, loaded) \<Rightarrow>
     loadFile P n (init_path (rp_root c) (rp_repo c) ''init.yaml'')
       (c\<lparr>rp_DataSet := zero_dataset, rp_files := []\<rparr>, loaded))"

definition refreshRepo :: "Parent \<Rightarrow> nat \<Rightarrow> lstate \<Rightarrow> (lstate \<times> gopanic option) \<times> bool" where
  "refreshRepo P n st = (let c = (fst st)\<lparr>rp_Errors := []\<rparr>; st0 = (c, snd st) in
     (case pull_repo P c of
        Inr False \<Rightarrow> ((st0, None), False)
      | r \<Rightarrow> (let a = (\<lambda>s. lget r (\<lambda>_. reload_files P n) s) in
          (recovering [] (ri_Repo (rp_repo c)) a st0, snd (a st0) = None))))"

section \<open>Overrides\<close>

text \<open>\<open>strings.Cut\<close> with a separator that is not empty.\<close>

fun str_Cut :: "string \<Rightarrow> string \<Rightarrow> string \<times> string \<times> bool" where
  "str_Cut sep [] = ([], [], False)"
| "str_Cut sep (c # s) =
     (if has_prefix (c # s) sep then ([], drop (length sep) (c # s), True)
      else (case str_Cut sep s of (a, b, found) \<Rightarrow> (c # a, b, found)))"

definition override_step :: "string \<Rightarrow> (string, string) gomap \<Rightarrow> (string, string) gomap res" where
  "override_step ev overrides = (case str_Cut ''='' ev of (k, v, _) \<Rightarrow>
     if k = ''REPO_OVERRIDE'' \<or> has_prefix k ''REPO_OVERRIDE_'' then
       (case str_Cut ''=>'' v of (remote, override, found) \<Rightarrow>
          if \<not> found \<or> trim_space remote = [] \<or> trim_space override = []
          then Inl (PanicStr (''invalid repo override definition: '' @ ev))
          else Inr (mput (trim_space remote) (trim_space override) overrides))
     else Inr overrides)"

fun overrides_from :: "string list \<Rightarrow> (string, string) gomap \<Rightarrow> (string, string) gomap res" where
  "overrides_from [] overrides = Inr overrides"
| "overrides_from (ev # evs) overrides = rbind (override_step ev overrides) (overrides_from evs)"

text \<open>The overrides are read once; \<open>environ\<close> is what \<open>os.Environ\<close> returns.\<close>

definition loadOverrides :: "string list \<Rightarrow> (string, string) gomap option \<Rightarrow> (string, string) gomap res" where
  "loadOverrides environ current = (case current of None \<Rightarrow> overrides_from environ [] | Some o' \<Rightarrow> Inr o')"

lemma str_Cut_plain: "CHR ''='' \<notin> set k \<Longrightarrow> str_Cut ''='' (k @ CHR ''='' # v) = (k, v, True)"
  by (induction k) (auto simp: has_prefix_def)

text \<open>A well-formed definition overrides the repository it names, and no other.\<close>

lemma loadOverrides_entry:
  assumes "CHR ''='' \<notin> set name" and "str_Cut ''=>'' v = (remote, path, True)"
    and "trim_space remote \<noteq> []" and "trim_space path \<noteq> []"
  shows "override_step (''REPO_OVERRIDE_'' @ name @ CHR ''='' # v) overrides =
    Inr (mput (trim_space remote) (trim_space path) overrides)"
proof -
  have "CHR ''='' \<notin> set (''REPO_OVERRIDE_'' @ name)" using assms(1) by simp
  from str_Cut_plain [OF this, of v] have "str_Cut ''='' (''REPO_OVERRIDE_'' @ name @ CHR ''='' # v) = (''REPO_OVERRIDE_'' @ name, v, True)"
    by (simp only: append.assoc)
  then show ?thesis unfolding override_step_def using assms(2-4) by (simp add: has_prefix_conv)
qed

section \<open>Circles\<close>

lemma recovering_fatal: "snd (a st) = Some e \<Longrightarrow> fatal e \<Longrightarrow> snd (recovering filename repo a st) = Some e"
  by (auto simp: recovering_def split: prod.split)

text \<open>Files whose first include leads to another one of them.\<close>

definition include_circle :: "Parent \<Rightarrow> string \<Rightarrow> string set \<Rightarrow> bool" where
  "include_circle P root_dir C \<longleftrightarrow> (\<forall>f \<in> C. \<exists>content inc incs p g gs. read_content P root_dir f = Inr content \<and>
     (loads_repos P \<longrightarrow> Repos content = []) \<and> Includes content = inc # incs \<and>
     normalizeFilePath root_dir (path_Dir f) inc = Inr p \<and> os_Glob (pa_disk P) p = Some (g # gs) \<and> g \<in> C)"

text \<open>
  Files that include each other in a circle are not detected, because a file counts as loaded only
  after its includes: whatever the bound on the nesting of the calls, it is exceeded.
\<close>

theorem loadFile_circle:
  assumes "include_circle P (rp_root c) C" and "f \<in> C" and "set (rp_files c) \<inter> C = {}"
  shows "snd (loadFile P n f (c, loaded)) = Some StackOverflow"
  using assms(2)
proof (induction n arbitrary: f)
  case (Suc n)
  then obtain content inc incs p g gs where f: "read_content P (rp_root c) f = Inr content"
    "loads_repos P \<longrightarrow> Repos content = []" "Includes content = inc # incs"
    "normalizeFilePath (rp_root c) (path_Dir f) inc = Inr p" "os_Glob (pa_disk P) p = Some (g # gs)" "g \<in> C"
    using assms(1) unfolding include_circle_def by blast
  have "snd (load_include P (\<lambda>f s. loadFile P n f s) (path_Dir f) inc (c, loaded)) = Some StackOverflow"
    using f(4,5) Suc.IH [OF f(6)] by (simp add: load_include_def loadFileGlob_def)
  moreover have "f \<notin> set (rp_files c)" using assms(3) Suc.prems by auto
  moreover have "(if loads_repos P then load_each (load_referred (\<lambda>info loaded. Config_loadRepo P n info loaded)) (Repos content)
      else lskip) = lskip"
    using f(2) by (auto simp: lskip_def)
  ultimately show ?case using f(1,3) by (auto intro!: recovering_fatal simp: fatal_def)
qed simp

definition init_file :: "RepoInfo \<Rightarrow> string" where
  "init_file info = (if ri_InitFile info \<noteq> [] then ri_InitFile info else ''init.yaml'')"

text \<open>Repositories whose first file refers to another one of them first.\<close>

definition repo_circle :: "Parent \<Rightarrow> RepoInfo set \<Rightarrow> bool" where
  "repo_circle P R \<longleftrightarrow> loads_repos P \<and> (\<forall>info \<in> R. \<exists>root_dir content r rs. repo_root P info = Inr root_dir \<and>
     read_content P root_dir (init_path root_dir info (init_file info)) = Inr content \<and> Repos content = r # rs \<and> r \<in> R)"

text \<open>
  Repositories that refer to each other in a circle are not detected either, because a repository is
  registered only after it is loaded, although \<open>isRepoLoaded\<close> is tested before each load.
\<close>

theorem loadRepo_circle:
  assumes "repo_circle P R" and "info \<in> R" and "\<forall>r \<in> R. \<not> isRepoLoaded loaded r"
  shows "snd (Config_loadRepo P n info loaded) = Some StackOverflow"
  using assms(2)
proof (induction n arbitrary: info rule: less_induct)
  case (less n)
  have fresh: "\<not> isRepoLoaded loaded info" using less.prems assms(3) by blast
  obtain root_dir content r rs where r: "repo_root P info = Inr root_dir"
    "read_content P root_dir (init_path root_dir info (init_file info)) = Inr content" "Repos content = r # rs" "r \<in> R"
    using assms(1) less.prems unfolding repo_circle_def by blast
  let ?f = "init_path root_dir info (init_file info)"
  have load: "snd (loadFile P m ?f ((newRepo info)\<lparr>rp_root := root_dir\<rparr>, loaded)) = Some StackOverflow" if "m < n" for m
  proof (cases m)
    case (Suc k)
    have "snd (load_referred (\<lambda>info loaded. Config_loadRepo P k info loaded) r ((newRepo info)\<lparr>rp_root := root_dir\<rparr>, loaded)) = Some StackOverflow"
      using less.IH [of k r] r(4) assms(3) Suc that by (simp add: load_referred_def split: prod.split) (metis snd_conv)
    moreover have "loads_repos P" using assms(1) by (simp add: repo_circle_def)
    ultimately show ?thesis using r(2,3) by (auto intro!: recovering_fatal simp: Suc fatal_def newRepo_def)
  qed simp
  show ?case
  proof (cases n)
    case (Suc m)
    have "snd (loadRepo P m (newRepo info) loaded) = Some StackOverflow"
    proof (cases m)
      case (Suc k)
      have "k < n" using Suc \<open>n = Suc m\<close> by simp
      from load [OF this] r(1) show ?thesis
        by (auto intro!: recovering_fatal simp: Suc fatal_def init_file_def newRepo_def)
    qed simp
    with fresh show ?thesis by (auto simp: Suc split: prod.split)
  qed simp
qed

section \<open>Errors\<close>

text \<open>
  What becomes of a file that refers to a repository which cannot be found. An error value is noted
  in the errors of that repository, and the file is loaded; a panic with a string, which the logger
  raises for a missing SSH key, makes the recovery itself panic, and the file that refers to the
  repository is skipped with everything in it.
\<close>

theorem referred_repo_failure:
  assumes "read_content P (rp_root c) f = Inr content" and "f \<notin> set (rp_files c)" and "f \<noteq> []"
    and "Repos content = [info]" and "Includes content = []" and "loads_repos P" and "\<not> isRepoLoaded loaded info"
    and "repo_root P info = Inl e" and "\<not> fatal e" and "ri_Repo info \<noteq> []"
    and "normalizeFilePaths (rp_root c) (os_ReadFile (pa_disk P)) f content = Inr content'"
    and "mergeDataSet (pa_lib P) (rp_DataSet c) content' = Inr merged"
  shows "loadFile P (Suc (Suc (Suc n))) f (c, loaded) =
    (if is_error e
     then ((c\<lparr>rp_DataSet := merged, rp_files := f # rp_files c\<rparr>,
         mput info ((newRepo info)\<lparr>rp_Errors := [(e, ''_'')]\<rparr>) loaded), None)
     else ((c\<lparr>rp_Errors := rp_Errors c @ [(TypeAssertion, f)]\<rparr>, loaded), None))"
proof -
  have "loadRepo P (Suc n) (newRepo info) loaded =
      (if is_error e then (((newRepo info)\<lparr>rp_Errors := [(e, ''_'')]\<rparr>, loaded), None)
       else ((newRepo info, loaded), Some TypeAssertion))"
    using assms(8-10) by (simp add: recovering_def newRepo_def)
  then have referred: "load_referred (Config_loadRepo P (Suc (Suc n))) info (c, loaded) =
      (if is_error e then ((c, mput info ((newRepo info)\<lparr>rp_Errors := [(e, ''_'')]\<rparr>) loaded), None)
       else ((c, loaded), Some TypeAssertion))"
    using assms(7) by (simp add: load_referred_def)
  show ?thesis using assms(1-6,11,12)
    by (simp add: recovering_def lseq_def finish_file_def fatal_def is_error_def [of TypeAssertion] referred)
qed

text \<open>
  A refresh reads \<open>init.yaml\<close>, whatever the first file of the repository is: when the repository
  was loaded from another file and has no \<open>init.yaml\<close>, the refresh reports a change and leaves the
  repository empty.
\<close>

theorem refreshRepo_forgets:
  assumes "pull_repo P (c\<lparr>rp_Errors := []\<rparr>) = Inr True"
    and "os_ReadFile (pa_disk P) (init_path (rp_root c) (rp_repo c) ''init.yaml'') = Inl (PanicErr e)"
    and "init_path (rp_root c) (rp_repo c) ''init.yaml'' \<noteq> []"
  shows "refreshRepo P (Suc n) (c, loaded) =
    (((c\<lparr>rp_DataSet := zero_dataset, rp_files := [], rp_Errors := [(PanicErr e, init_path (rp_root c) (rp_repo c) ''init.yaml'')]\<rparr>,
       loaded), None), True)"
  using assms by (simp add: refreshRepo_def reload_files_def read_content_def recovering_def fatal_def is_error_def Let_def)

section \<open>Witnesses\<close>

text \<open>A disk that maps file names to their decoded contents.\<close>

definition sample_disk :: "(string, DataSet) gomap \<Rightarrow> disk" where
  "sample_disk fs = \<lparr>os_ReadFile = (\<lambda>f. if map_of fs f = None then Inl (PanicErr ''no such file'') else Inr f),
     os_Glob = (\<lambda>g. Some [g]), os_Getenv = [],
     yaml_Unmarshal = (\<lambda>f. case map_of fs f of None \<Rightarrow> Inl (PanicErr ''yaml'') | Some d \<Rightarrow> Inr d),
     filepath_Abs = (\<lambda>p. if p = ''locked'' then Inl (PanicStr ''no key'') else Inr p),
     os_Stat = (\<lambda>_. StatOK), git_Clone = (\<lambda>_. Inl (PanicErr ''clone'')), git_Pull = (\<lambda>_ _. Inr Pulled), git_Reset = (\<lambda>_. None)\<rparr>"

definition sample_parent :: "(string, DataSet) gomap \<Rightarrow> Parent" where
  "sample_parent fs = \<lparr>pa_ext = no_ext, pa_lib = last_wins, pa_disk = sample_disk fs, pa_Overrides = [],
     pa_IsConfigCheck = False, pa_CheckRemote = False, pa_IsDocGen = False\<rparr>"

definition sample_includes :: Parent where
  "sample_includes = sample_parent
    [(''/r/a.yaml'', zero_dataset\<lparr>Includes := [''b.yaml'']\<rparr>), (''/r/b.yaml'', zero_dataset\<lparr>Includes := [''a.yaml'']\<rparr>)]"

abbreviation sample_rooted :: "string \<Rightarrow> Repo" where
  "sample_rooted name \<equiv> (newRepo (sample_repo name))\<lparr>rp_root := name\<rparr>"

theorem loadFile_circle_witness:
  "snd (loadFile sample_includes 500 ''/r/a.yaml'' (sample_rooted ''/r'', [])) = Some StackOverflow"
proof -
  have "read_content sample_includes ''/r'' ''/r/a.yaml'' = Inr (zero_dataset\<lparr>Includes := [''b.yaml'']\<rparr>)"
    "read_content sample_includes ''/r'' ''/r/b.yaml'' = Inr (zero_dataset\<lparr>Includes := [''a.yaml'']\<rparr>)"
    "normalizeFilePath ''/r'' (path_Dir ''/r/a.yaml'') ''b.yaml'' = Inr ''/r/b.yaml''"
    "normalizeFilePath ''/r'' (path_Dir ''/r/b.yaml'') ''a.yaml'' = Inr ''/r/a.yaml''"
    by code_simp+
  then have "include_circle sample_includes ''/r'' {''/r/a.yaml'', ''/r/b.yaml''}"
    by (simp add: include_circle_def zero_dataset_def sample_includes_def sample_parent_def sample_disk_def)
  then show ?thesis
    using loadFile_circle [of sample_includes "sample_rooted ''/r''" "{''/r/a.yaml'', ''/r/b.yaml''}" "''/r/a.yaml''" 500 "[]"]
    by (simp add: newRepo_def)
qed

definition sample_referring :: Parent where
  "sample_referring = sample_parent
    [(''/x/init.yaml'', zero_dataset\<lparr>Repos := [sample_repo ''/y'']\<rparr>), (''/y/init.yaml'', zero_dataset\<lparr>Repos := [sample_repo ''/x'']\<rparr>)]"

theorem loadRepo_circle_witness:
  "snd (Config_loadRepo sample_referring 500 (sample_repo ''/x'') []) = Some StackOverflow"
proof -
  have "repo_root sample_referring (sample_repo name) = Inr name" if "name = ''/x'' \<or> name = ''/y''" for name
    using that by (auto simp: repo_root_def sample_referring_def sample_parent_def sample_disk_def sample_repo_def)
  moreover have "read_content sample_referring ''/x'' (init_path ''/x'' (sample_repo ''/x'') (init_file (sample_repo ''/x''))) =
      Inr (zero_dataset\<lparr>Repos := [sample_repo ''/y'']\<rparr>)"
    "read_content sample_referring ''/y'' (init_path ''/y'' (sample_repo ''/y'') (init_file (sample_repo ''/y''))) =
      Inr (zero_dataset\<lparr>Repos := [sample_repo ''/x'']\<rparr>)"
    "loads_repos sample_referring"
    by code_simp+
  ultimately have "repo_circle sample_referring {sample_repo ''/x'', sample_repo ''/y''}"
    by (simp add: repo_circle_def zero_dataset_def)
  then show ?thesis by (rule loadRepo_circle) (simp_all add: isRepoLoaded_def)
qed

definition sample_locked :: Parent where
  "sample_locked = sample_parent [(''/r/a.yaml'', zero_dataset\<lparr>Repos := [sample_repo ''locked'']\<rparr>)]"

theorem referred_repo_failure_witness:
  "loadFile sample_locked 3 ''/r/a.yaml'' (sample_rooted ''/r'', []) =
    (((sample_rooted ''/r'')\<lparr>rp_Errors := [(TypeAssertion, ''/r/a.yaml'')]\<rparr>, []), None)"
proof -
  let ?content = "zero_dataset\<lparr>Repos := [sample_repo ''locked'']\<rparr>"
  have "read_content sample_locked (rp_root (sample_rooted ''/r'')) ''/r/a.yaml'' = Inr ?content"
    "loads_repos sample_locked" "repo_root sample_locked (sample_repo ''locked'') = Inl (PanicStr ''no key'')"
    "normalizeFilePaths (rp_root (sample_rooted ''/r'')) (os_ReadFile (pa_disk sample_locked)) ''/r/a.yaml'' ?content = Inr ?content"
    "mergeDataSet (pa_lib sample_locked) (rp_DataSet (sample_rooted ''/r'')) ?content = Inr zero_dataset"
    by code_simp+
  moreover have "''/r/a.yaml'' \<notin> set (rp_files (sample_rooted ''/r''))" "\<not> fatal (PanicStr ''no key'')" "ri_Repo (sample_repo ''locked'') \<noteq> []"
    "Includes ?content = []" "Repos ?content = [sample_repo ''locked'']"
    by (simp_all add: newRepo_def fatal_def sample_repo_def zero_dataset_def)
  ultimately show ?thesis
    using referred_repo_failure [of sample_locked "sample_rooted ''/r''" "''/r/a.yaml''" ?content "sample_repo ''locked''" "[]" "PanicStr ''no key''" ?content zero_dataset 0]
    by (simp add: isRepoLoaded_def is_error_def numeral_3_eq_3 newRepo_def)
qed

definition sample_named :: Repo where
  "sample_named = (newRepo ((sample_repo ''/r'')\<lparr>ri_InitFile := ''main.yaml''\<rparr>))\<lparr>rp_root := ''/r'', rp_files := [''/r/main.yaml'']\<rparr>"

theorem refreshRepo_forgets_witness:
  "snd (refreshRepo (sample_parent [(''/r/main.yaml'', zero_dataset)]) 1 (sample_named, [])) \<and>
   rp_files (fst (fst (fst (refreshRepo (sample_parent [(''/r/main.yaml'', zero_dataset)]) 1 (sample_named, []))))) = []"
proof -
  have "pull_repo (sample_parent [(''/r/main.yaml'', zero_dataset)]) (sample_named\<lparr>rp_Errors := []\<rparr>) = Inr True"
    "os_ReadFile (pa_disk (sample_parent [(''/r/main.yaml'', zero_dataset)])) (init_path (rp_root sample_named) (rp_repo sample_named) ''init.yaml'') =
      Inl (PanicErr ''no such file'')"
    "init_path (rp_root sample_named) (rp_repo sample_named) ''init.yaml'' \<noteq> []"
    by code_simp+
  from refreshRepo_forgets [OF this, of 0 "[]"] show ?thesis by simp
qed

end
