(* ===== verification/Staging.thy ===== *)
theory Staging
  imports Traverse
begin

text \<open>
  How the services of a daemon move a new configuration through its stages together:
  \<open>ResetStage\<close>, \<open>AdvanceStage\<close>, \<open>RollBack\<close> and the reloading part of \<open>Refresh\<close> of
  \<open>internal/config/config.go\<close> on the wait groups of \<open>pkg/dipper/sync.go\<close>.

  A thread is one call of \<open>start\<close>, \<open>Reload\<close> or \<open>Drain\<close>, which calls \<open>AdvanceStage\<close> for one stage
  after the other. \<open>AdvanceStage\<close> is split where it can be interrupted: before the lock, between signing
  off and waiting, in the wait, and before it locks again. What it does under the lock is one step.

  The first \<open>ResetStage\<close> creates the locker and the wait groups of epoch 1, each further one those of the next
  epoch; \<open>Locker = None\<close> is the nil that a failed stage leaves. A wait group is a signed counter, the
  waiters are the threads blocked on it. As in \<open>sync.WaitGroup\<close>, a \<open>Done\<close> that reaches zero wakes all
  waiters, a \<open>Done\<close> below zero panics but stays counted, and a \<open>Wait\<close> returns at once only at zero.
\<close>

section \<open>State\<close>

datatype pc =
    Ready nat
  | Locking nat nat
  | Arrived nat nat
  | Blocked nat nat
  | Relocking nat nat
  | Stopped nat bool gopanic

text \<open>
  \<open>Ready k\<close>: the call for stage \<open>k\<close> is over, the one for the next stage to come. The others are in the
  call for the stage of their last number: with the locker read, signed off, in the wait, woken. A
  stopped thread has left a call by a panic, after \<open>k\<close> stages and with or without signing off.

  The data sets live in a store because the configuration keeps several pointers to them.
\<close>

record staged_data =
  store :: "nat \<Rightarrow> DataSet"
  next_ds :: nat
  Staged :: nat
  RawData :: "nat option"
  Serving :: "nat option"
  LastRunning :: "nat option"

record staging =
  services :: nat
  Locker :: "nat option"
  epoch :: nat
  Stage :: nat
  StageWG :: "nat \<Rightarrow> nat \<Rightarrow> int"
  held :: "nat set"
  threads :: "nat \<Rightarrow> pc"
  dat :: staged_data
  worked :: "(nat \<times> nat) list"
  crashed :: bool

text \<open>
  \<open>held\<close> are the locks that were taken and will not be released, \<open>worked\<close> records the stages whose work
  was done, with the epoch; \<open>crashed\<close> is a fatal error of the runtime.
\<close>

record stage_env =
  se_fns :: "nat \<Rightarrow> nat \<Rightarrow> item_processor list"
  se_lib :: loader
  se_ext :: ext
  se_fuel :: nat
  se_names :: "(string, System) gomap \<Rightarrow> string list"

definition ErrConfigRollback :: gopanic where
  "ErrConfigRollback = PanicErr ''config rollback''"

section \<open>Wait groups\<close>

definition wake :: "nat \<Rightarrow> nat \<Rightarrow> pc \<Rightarrow> pc" where
  "wake e k p = (if p = Blocked e (Suc k) then Relocking e (Suc k) else p)"

definition WaitGroupDone :: "nat \<Rightarrow> nat \<Rightarrow> staging \<Rightarrow> staging \<times> bool" where
  "WaitGroupDone e k st = (let v = StageWG st e k - 1; g = (StageWG st)(e := (StageWG st e)(k := v)) in
     (st\<lparr>StageWG := g, threads := (if v = 0 then wake e k \<circ> threads st else threads st)\<rparr>, v \<ge> 0))"

text \<open>\<open>Done\<close> until it panics: the counter passes zero when it was above.\<close>

definition WaitGroupDoneAll :: "nat \<Rightarrow> nat \<Rightarrow> staging \<Rightarrow> staging" where
  "WaitGroupDoneAll e k st = (let c = StageWG st e k in
     st\<lparr>StageWG := (StageWG st)(e := (StageWG st e)(k := if c \<ge> 0 then - 1 else c - 1)),
       threads := (if c > 0 then wake e k \<circ> threads st else threads st)\<rparr>)"

section \<open>Resetting\<close>

definition StageGroups :: nat where
  "StageGroups = 4"

definition drain_all :: "nat \<Rightarrow> staging \<Rightarrow> staging" where
  "drain_all e st = fold (WaitGroupDoneAll e) [0..<StageGroups] st"

definition ResetStage :: "staging \<Rightarrow> staging" where
  "ResetStage st = (let st1 = (if epoch st = 0 then st else drain_all (epoch st) st); e = Suc (epoch st) in
     st1\<lparr>Locker := Some e, epoch := e, Stage := 0,
       StageWG := (StageWG st1)(e := (\<lambda>_. int (services st)))\<rparr>)"

text \<open>The lock that \<open>ResetStage\<close> takes.\<close>

definition reset_lock :: "staging \<Rightarrow> bool" where
  "reset_lock st \<longleftrightarrow> (case Locker st of None \<Rightarrow> True | Some l \<Rightarrow> l \<notin> held st)"

section \<open>The work of a stage\<close>

fun run_fns :: "item_processor list \<Rightarrow> DataSet \<Rightarrow> DataSet res" where
  "run_fns [] d = Inr d"
| "run_fns (f # fs) d = rbind (RecursiveStaged f d) (run_fns fs)"

definition set_staged :: "DataSet \<Rightarrow> staged_data \<Rightarrow> staged_data" where
  "set_staged d D = D\<lparr>store := (store D)(Staged D := d)\<rparr>"

definition stage_work :: "stage_env \<Rightarrow> nat \<Rightarrow> nat \<Rightarrow> staged_data \<Rightarrow> staged_data res" where
  "stage_work W t stage D = rbind (run_fns (se_fns W t stage) (store D (Staged D))) (\<lambda>d.
     if stage = 1 then rmap (\<lambda>copy. (set_staged d D)\<lparr>store := (store (set_staged d D))(next_ds D := copy),
         RawData := Some (next_ds D), next_ds := Suc (next_ds D)\<rparr>) (lx_copy_dataset (se_lib W) d)
     else if stage = 2 then
       rmap (\<lambda>systems. set_staged (d\<lparr>Systems := systems\<rparr>) D)
         (extendAllSystems (se_lib W) (se_fuel W) (se_names W (Systems d)) (Systems d))
     else if stage = 3 then
       rmap (\<lambda>d'. (set_staged d' D)\<lparr>Serving := Some (Staged D)\<rparr>) (RecursiveStaged (\<lambda>key v. Inr (RegexParser (se_ext W) key v)) d)
     else Inr (set_staged d D))"

section \<open>Advancing\<close>

definition goto :: "nat \<Rightarrow> pc \<Rightarrow> staging \<Rightarrow> staging" where
  "goto t p st = st\<lparr>threads := (threads st)(t := p)\<rparr>"

definition advance_enter :: "nat \<Rightarrow> nat \<Rightarrow> staging \<Rightarrow> staging" where
  "advance_enter t k st = (case Locker st of
      None \<Rightarrow> goto t (Stopped k False NilDereference) st
    | Some l \<Rightarrow> goto t (Locking l (Suc k)) st)"

text \<open>
  The lock \<open>l\<close> has been taken. \<open>c.Locker\<close> is read again for the deferred unlock: when it is nil the unlock
  fails and \<open>l\<close> stays locked; when it is another locker, that one is unlocked without being locked.
\<close>

definition advance_locked :: "nat \<Rightarrow> nat \<Rightarrow> nat \<Rightarrow> staging \<Rightarrow> staging" where
  "advance_locked t l stage st = (let k = stage - 1 in
     case Locker st of
       Some l' \<Rightarrow>
         if l' \<noteq> l then st\<lparr>crashed := True\<rparr>
         else if Stage st \<ge> StageGroups then goto t (Stopped k False IndexOutOfRange) st
         else if Stage st \<ge> stage then goto t (Ready stage) st
         else if Suc (Stage st) < stage then goto t (Stopped k False ErrConfigRollback) st
         else (case WaitGroupDone l k st of (st1, counted) \<Rightarrow>
           goto t (if counted then Arrived l stage else Stopped k True ErrConfigRollback) st1)
     | None \<Rightarrow>
         if Stage st < StageGroups \<and> Suc (Stage st) = stage
         then goto t (Stopped k True NilDereference) (fst (WaitGroupDone (epoch st) k st))\<lparr>held := insert l (held st)\<rparr>
         else goto t (Stopped k False NilDereference) st\<lparr>held := insert l (held st)\<rparr>)"

definition WaitGroupWait :: "nat \<Rightarrow> nat \<Rightarrow> nat \<Rightarrow> staging \<Rightarrow> staging" where
  "WaitGroupWait t l stage st =
     goto t (if StageWG st l (stage - 1) = 0 then Relocking l stage else Blocked l stage) st"

definition advance_finish :: "stage_env \<Rightarrow> nat \<Rightarrow> nat \<Rightarrow> nat \<Rightarrow> staging \<Rightarrow> staging" where
  "advance_finish W t l stage st =
    (if Locker st \<noteq> Some l then goto t (Stopped (stage - 1) True ErrConfigRollback) st
     else if Stage st \<ge> stage then goto t (Ready stage) st
     else (case stage_work W t stage (dat st) of
         Inl e \<Rightarrow> goto t (Stopped (stage - 1) True e) st\<lparr>Locker := None\<rparr>
       | Inr D \<Rightarrow> goto t (Ready stage) st\<lparr>dat := D, Stage := stage, worked := worked st @ [(l, stage)]\<rparr>))"

section \<open>Rolling back\<close>

definition rolls_back :: "staging \<Rightarrow> bool" where
  "rolls_back st \<longleftrightarrow> LastRunning (dat st) \<noteq> None \<and> LastRunning (dat st) \<noteq> Serving (dat st)"

definition RollBack :: "staging \<Rightarrow> staging" where
  "RollBack st = (if rolls_back st
     then ResetStage (st\<lparr>dat := (dat st)\<lparr>Staged := the (LastRunning (dat st))\<rparr>\<rparr>) else st)"

text \<open>A refresh that found changes: \<open>assembled\<close> is the outcome of assembling the repositories again.\<close>

definition Refresh_changed :: "DataSet res \<Rightarrow> staging \<Rightarrow> staging" where
  "Refresh_changed assembled st = (let st1 = ResetStage st; D = (dat st1)\<lparr>LastRunning := RawData (dat st1)\<rparr> in
     case assembled of
       Inr d \<Rightarrow> st1\<lparr>dat := D\<lparr>store := (store D)(next_ds D := d), Staged := next_ds D, next_ds := Suc (next_ds D)\<rparr>\<rparr>
     | Inl e \<Rightarrow> RollBack (st1\<lparr>dat := D\<rparr>))"

section \<open>Runs\<close>

inductive advance_step :: "stage_env \<Rightarrow> nat \<Rightarrow> staging \<Rightarrow> staging \<Rightarrow> bool" for W t where
  enter: "threads st t = Ready k \<Longrightarrow> \<not> crashed st \<Longrightarrow> advance_step W t st (advance_enter t k st)"
| locked: "threads st t = Locking l stage \<Longrightarrow> \<not> crashed st \<Longrightarrow> l \<notin> held st \<Longrightarrow> advance_step W t st (advance_locked t l stage st)"
| wait: "threads st t = Arrived l stage \<Longrightarrow> \<not> crashed st \<Longrightarrow> advance_step W t st (WaitGroupWait t l stage st)"
| finish: "threads st t = Relocking l stage \<Longrightarrow> \<not> crashed st \<Longrightarrow> l \<notin> held st \<Longrightarrow> advance_step W t st (advance_finish W t l stage st)"

inductive_cases advanceE: "advance_step W t st st'"

text \<open>
  Any number of threads, and the operations that replace the configuration. A thread that is at the
  beginning or has left by a panic may start again, as a new call of \<open>Reload\<close>.
\<close>

inductive step :: "stage_env \<Rightarrow> staging \<Rightarrow> staging \<Rightarrow> bool" for W where
  thread: "advance_step W t st st' \<Longrightarrow> step W st st'"
| reload: "\<not> crashed st \<Longrightarrow> threads st t = Ready k \<or> threads st t = Stopped k b e \<Longrightarrow> step W st (goto t (Ready 0) st)"
| refresh: "\<not> crashed st \<Longrightarrow> reset_lock st \<Longrightarrow> step W st (Refresh_changed assembled st)"
| rollback: "\<not> crashed st \<Longrightarrow> reset_lock st \<Longrightarrow> step W st (RollBack st)"

definition initial :: "nat \<Rightarrow> DataSet \<Rightarrow> staging" where
  "initial n d = ResetStage \<lparr>services = n, Locker = None, epoch = 0, Stage = 0, StageWG = (\<lambda>_ _. 0), held = {},
     threads = (\<lambda>_. Ready 0), dat = \<lparr>store = (\<lambda>_. d), next_ds = 1, Staged = 0, RawData = None, Serving = None, LastRunning = None\<rparr>,
     worked = [], crashed = False\<rparr>"

abbreviation reachable :: "stage_env \<Rightarrow> nat \<Rightarrow> DataSet \<Rightarrow> staging \<Rightarrow> bool" where
  "reachable W n d \<equiv> (step W)\<^sup>*\<^sup>* (initial n d)"

section \<open>The work of a stage is done once\<close>

text \<open>The call a thread has signed off in.\<close>

fun waiting :: "pc \<Rightarrow> (nat \<times> nat) option" where
  "waiting (Arrived l s) = Some (l, s)"
| "waiting (Blocked l s) = Some (l, s)"
| "waiting (Relocking l s) = Some (l, s)"
| "waiting _ = None"

lemma waiting_wake [simp]: "waiting (wake e k p) = waiting p"
  by (simp add: wake_def)

lemma WaitGroupDone_sel [simp]:
  "services (fst (WaitGroupDone e k st)) = services st" "Locker (fst (WaitGroupDone e k st)) = Locker st"
  "epoch (fst (WaitGroupDone e k st)) = epoch st" "Stage (fst (WaitGroupDone e k st)) = Stage st"
  "held (fst (WaitGroupDone e k st)) = held st" "dat (fst (WaitGroupDone e k st)) = dat st"
  "worked (fst (WaitGroupDone e k st)) = worked st" "crashed (fst (WaitGroupDone e k st)) = crashed st"
  "StageWG (fst (WaitGroupDone e k st)) = (StageWG st)(e := (StageWG st e)(k := StageWG st e k - 1))"
  "snd (WaitGroupDone e k st) = (StageWG st e k > 0)"
  "waiting (threads (fst (WaitGroupDone e k st)) t) = waiting (threads st t)"
  by (auto simp: WaitGroupDone_def Let_def)

lemma WaitGroupDoneAll_sel [simp]:
  "services (WaitGroupDoneAll e k st) = services st" "Locker (WaitGroupDoneAll e k st) = Locker st"
  "epoch (WaitGroupDoneAll e k st) = epoch st" "Stage (WaitGroupDoneAll e k st) = Stage st"
  "held (WaitGroupDoneAll e k st) = held st" "dat (WaitGroupDoneAll e k st) = dat st"
  "worked (WaitGroupDoneAll e k st) = worked st" "crashed (WaitGroupDoneAll e k st) = crashed st"
  "waiting (threads (WaitGroupDoneAll e k st) t) = waiting (threads st t)"
  by (simp_all add: WaitGroupDoneAll_def Let_def)

lemma drain_sel [simp]:
  "services (fold (WaitGroupDoneAll e) ks st) = services st" "Locker (fold (WaitGroupDoneAll e) ks st) = Locker st"
  "epoch (fold (WaitGroupDoneAll e) ks st) = epoch st" "Stage (fold (WaitGroupDoneAll e) ks st) = Stage st"
  "held (fold (WaitGroupDoneAll e) ks st) = held st" "dat (fold (WaitGroupDoneAll e) ks st) = dat st"
  "worked (fold (WaitGroupDoneAll e) ks st) = worked st" "crashed (fold (WaitGroupDoneAll e) ks st) = crashed st"
  "waiting (threads (fold (WaitGroupDoneAll e) ks st) t) = waiting (threads st t)"
  by (induction ks arbitrary: st) simp_all

lemma goto_sel [simp]:
  "services (goto t p st) = services st" "Locker (goto t p st) = Locker st" "epoch (goto t p st) = epoch st"
  "Stage (goto t p st) = Stage st" "held (goto t p st) = held st" "dat (goto t p st) = dat st"
  "worked (goto t p st) = worked st" "crashed (goto t p st) = crashed st" "StageWG (goto t p st) = StageWG st"
  "threads (goto t p st) u = (if u = t then p else threads st u)"
  by (simp_all add: goto_def)

lemma ResetStage_sel [simp]:
  "services (ResetStage st) = services st" "Locker (ResetStage st) = Some (Suc (epoch st))"
  "epoch (ResetStage st) = Suc (epoch st)" "Stage (ResetStage st) = 0" "held (ResetStage st) = held st"
  "dat (ResetStage st) = dat st" "worked (ResetStage st) = worked st" "crashed (ResetStage st) = crashed st"
  "waiting (threads (ResetStage st) t) = waiting (threads st t)"
  by (simp_all add: ResetStage_def drain_all_def Let_def)

definition works_of :: "nat \<Rightarrow> staging \<Rightarrow> nat list" where
  "works_of e st = map snd (filter (\<lambda>w. fst w = e) (worked st))"

definition stages_to :: "nat \<Rightarrow> nat list" where
  "stages_to k = [1..<Suc k]"

lemma stages_to_simps [simp]: "stages_to 0 = []" "stages_to (Suc k) = stages_to k @ [Suc k]"
  by (simp_all add: stages_to_def)

definition waits_ok :: "staging \<Rightarrow> bool" where
  "waits_ok st \<longleftrightarrow> (\<forall>t l s. waiting (threads st t) = Some (l, s) \<longrightarrow>
     l \<le> epoch st \<and> 0 < s \<and> s \<le> StageGroups \<and> (l = epoch st \<longrightarrow> s \<le> Suc (Stage st)))"

definition works_ok :: "staging \<Rightarrow> bool" where
  "works_ok st \<longleftrightarrow> (\<forall>e. \<exists>k. works_of e st = stages_to k \<and> (e = epoch st \<longrightarrow> k = Stage st) \<and> (e > epoch st \<longrightarrow> k = 0))"

definition once :: "staging \<Rightarrow> bool" where
  "once st \<longleftrightarrow> (\<forall>l. Locker st = Some l \<longrightarrow> l = epoch st) \<and> waits_ok st \<and> works_ok st"

lemma waits_okD: "waits_ok st \<Longrightarrow> waiting (threads st t) = Some (l, s) \<Longrightarrow>
  l \<le> epoch st \<and> 0 < s \<and> s \<le> StageGroups \<and> (l = epoch st \<longrightarrow> s \<le> Suc (Stage st))"
  unfolding waits_ok_def by blast

lemma once_cong:
  assumes "once st" "Locker st' = Locker st \<or> Locker st' = None" "epoch st' = epoch st" "Stage st' = Stage st" "worked st' = worked st"
    "\<And>t. waiting (threads st' t) = waiting (threads st t) \<or> waiting (threads st' t) = None"
  shows "once st'"
proof -
  have "waiting (threads st t) = Some (l, s)" if "waiting (threads st' t) = Some (l, s)" for t l s
    using assms(6) [of t] that by auto
  then have "waits_ok st'" using assms(1,3,4) waits_okD [of st] unfolding once_def waits_ok_def by metis
  moreover have "works_ok st'" using assms(1,3-5) by (simp add: once_def works_ok_def works_of_def)
  ultimately show ?thesis using assms(1-3) by (auto simp: once_def)
qed

lemma once_reset: "once st \<Longrightarrow> once (ResetStage st)"
proof -
  assume st: "once st"
  have "waits_ok (ResetStage st)" using st waits_okD [of st] unfolding once_def waits_ok_def [of "ResetStage st"] by fastforce
  moreover have "works_ok (ResetStage st)" unfolding works_ok_def
  proof
    fix e
    obtain k where "works_of e st = stages_to k" "e > epoch st \<longrightarrow> k = 0" using st unfolding once_def works_ok_def by blast
    then show "\<exists>k. works_of e (ResetStage st) = stages_to k \<and> (e = epoch (ResetStage st) \<longrightarrow> k = Stage (ResetStage st)) \<and>
        (epoch (ResetStage st) < e \<longrightarrow> k = 0)"
      by (intro exI [of _ k]) (simp add: works_of_def)
  qed
  ultimately show ?thesis by (simp add: once_def)
qed

lemma once_dat [simp]: "once (st\<lparr>dat := D\<rparr>) = once st"
  by (simp add: once_def waits_ok_def works_ok_def works_of_def)

lemma once_RollBack: "once st \<Longrightarrow> once (RollBack st)"
  by (simp add: RollBack_def once_reset)

lemma once_Refresh: "once st \<Longrightarrow> once (Refresh_changed a st)"
  by (cases a) (simp_all add: Refresh_changed_def Let_def once_RollBack once_reset)

lemma once_goto: "once st \<Longrightarrow> waiting p = None \<or> waiting p = waiting (threads st t) \<Longrightarrow> once (goto t p st)"
  by (rule once_cong) auto

lemma once_arrive:
  assumes "once st" and "0 < s" "s \<le> StageGroups" "s \<le> Suc (Stage st)" "l = epoch st"
  shows "once (goto t (Arrived l s) st)"
proof -
  have "waits_ok (goto t (Arrived l s) st)" unfolding waits_ok_def
  proof (intro allI impI)
    fix u l' s' assume "waiting (threads (goto t (Arrived l s) st) u) = Some (l', s')"
    with assms waits_okD [of st u l' s'] show "l' \<le> epoch (goto t (Arrived l s) st) \<and> 0 < s' \<and> s' \<le> StageGroups \<and>
        (l' = epoch (goto t (Arrived l s) st) \<longrightarrow> s' \<le> Suc (Stage (goto t (Arrived l s) st)))"
      by (cases "u = t") (simp_all add: once_def)
  qed
  with assms(1) show ?thesis by (simp add: once_def works_ok_def works_of_def)
qed

lemma once_locked:
  assumes "once st"
  shows "once (advance_locked t l stage st)"
proof (cases "Locker st")
  case None
  have "once (goto t (Stopped (stage - 1) b e) st')"
    if "st' = st \<or> st' = fst (WaitGroupDone (epoch st) (stage - 1) st)" for b e st'
    using that by (intro once_goto once_cong [OF assms]) auto
  then have "once (goto t (Stopped (stage - 1) b e) st'\<lparr>held := H\<rparr>)"
    if "st' = st \<or> st' = fst (WaitGroupDone (epoch st) (stage - 1) st)" for b e st' H
    using that by (intro once_cong [where st' = "goto t (Stopped (stage - 1) b e) st'\<lparr>held := H\<rparr>" and st = "goto t (Stopped (stage - 1) b e) st'"]) auto
  with None show ?thesis by (auto simp: advance_locked_def Let_def)
next
  case (Some l')
  show ?thesis
  proof (cases "l' = l \<and> Stage st < StageGroups \<and> Suc (Stage st) = stage")
    case True
    let ?st1 = "fst (WaitGroupDone l (Stage st) st)"
    have st1: "once ?st1" by (rule once_cong [OF assms]) auto
    have "l = epoch st" using Some True assms by (auto simp: once_def)
    with True st1 have "once (goto t (Arrived l stage) ?st1)" by (intro once_arrive) simp_all
    moreover have "once (goto t (Stopped k b e) ?st1)" for k b e using st1 by (intro once_goto) auto
    ultimately show ?thesis using Some True by (auto simp: advance_locked_def Let_def split: prod.split)
  next
    case False
    have "once (st\<lparr>crashed := True\<rparr>)" by (rule once_cong [OF assms]) auto
    with False Some assms show ?thesis
      by (auto simp: advance_locked_def Let_def intro!: once_goto)
  qed
qed

lemma once_finish:
  assumes "once st" and "threads st t = Relocking l stage"
  shows "once (advance_finish W t l stage st)"
proof (cases "Locker st = Some l \<and> Stage st < stage")
  case False
  with assms show ?thesis by (auto simp: advance_finish_def intro!: once_goto)
next
  case True
  then have "l = epoch st" using assms(1) by (auto simp: once_def)
  moreover have "waiting (threads st t) = Some (l, stage)" using assms(2) by simp
  ultimately have stage: "stage = Suc (Stage st)" using waits_okD [of st t l stage] assms(1) True by (simp add: once_def)
  show ?thesis
  proof (cases "stage_work W t stage (dat st)")
    case (Inl e)
    have "once (goto t (Stopped (stage - 1) True e) st\<lparr>Locker := None\<rparr>)" by (rule once_cong [OF assms(1)]) auto
    with True Inl show ?thesis by (simp add: advance_finish_def)
  next
    case (Inr D)
    let ?st' = "goto t (Ready stage) st\<lparr>dat := D, Stage := stage, worked := worked st @ [(l, stage)]\<rparr>"
    have works: "works_of e ?st' = (if e = epoch st then works_of e st @ [stage] else works_of e st)" for e
      using \<open>l = epoch st\<close> by (simp add: works_of_def)
    have "works_ok ?st'" unfolding works_ok_def
    proof
      fix e
      obtain k where "works_of e st = stages_to k" "e = epoch st \<longrightarrow> k = Stage st" "e > epoch st \<longrightarrow> k = 0"
        using assms(1) unfolding once_def works_ok_def by blast
      then show "\<exists>k. works_of e ?st' = stages_to k \<and> (e = epoch ?st' \<longrightarrow> k = Stage ?st') \<and> (epoch ?st' < e \<longrightarrow> k = 0)"
        using stage works by (intro exI [of _ "if e = epoch st then stage else k"]) auto
    qed
    moreover have "waits_ok ?st'" unfolding waits_ok_def
    proof (intro allI impI)
      fix u l' s assume "waiting (threads ?st' u) = Some (l', s)"
      then have "waiting (threads st u) = Some (l', s)" by (auto split: if_splits)
      from waits_okD [OF _ this] assms(1) stage
      show "l' \<le> epoch ?st' \<and> 0 < s \<and> s \<le> StageGroups \<and> (l' = epoch ?st' \<longrightarrow> s \<le> Suc (Stage ?st'))"
        by (auto simp: once_def)
    qed
    ultimately have "once ?st'" using assms(1) by (simp add: once_def)
    with True Inr show ?thesis by (simp add: advance_finish_def)
  qed
qed

lemma once_step: "step W st st' \<Longrightarrow> once st \<Longrightarrow> once st'"
proof (induction rule: step.induct)
  case (thread t st st')
  then show ?case
    by (auto elim!: advanceE simp: advance_enter_def WaitGroupWait_def once_locked once_finish intro!: once_goto split: option.split)
next
  case (reload st t k b e)
  then show ?case by (intro once_goto) auto
qed (simp_all add: once_Refresh once_RollBack)

lemma once_initial: "once (initial n d)"
  unfolding initial_def by (rule once_reset) (simp add: once_def waits_ok_def works_ok_def works_of_def exI [of _ 0])

interpretation st: step_system "\<lambda>st. \<exists>n d. st = initial n d" "step W" once for W
  by unfold_locales (auto simp: once_initial dest: once_step)

lemma once_reachable: "reachable W n d st \<Longrightarrow> once st"
  by (rule st.invariant) blast+

text \<open>
  The work of a stage is done at most once in each epoch and the stages are worked through in
  order without a gap, whatever threads run, however they interleave and whenever the configuration
  is refreshed or rolled back; in the current epoch the work done is that of the stages up to the
  current one.
\<close>

theorem stage_work_once:
  assumes "reachable W n d st"
  shows "(\<exists>k. works_of e st = [1..<Suc k]) \<and> works_of (epoch st) st = [1..<Suc (Stage st)]"
  using once_reachable [OF assms] unfolding once_def works_ok_def stages_to_def by blast

section \<open>A reset in the middle of a call\<close>

text \<open>A thread that will wait for a wait group whose counter is below zero.\<close>

definition stuck :: "nat \<Rightarrow> nat \<Rightarrow> nat \<Rightarrow> staging \<Rightarrow> bool" where
  "stuck t l s st \<longleftrightarrow> (threads st t = Arrived l s \<or> threads st t = Blocked l s) \<and> StageWG st l (s - 1) < 0 \<and> l \<le> epoch st \<and> 0 < s"

lemma stuck_Done: "stuck t l s st \<Longrightarrow> stuck t l s (fst (WaitGroupDone e k st))"
  by (auto simp: stuck_def WaitGroupDone_def wake_def Let_def)

lemma stuck_DoneAll: "stuck t l s st \<Longrightarrow> stuck t l s (WaitGroupDoneAll e k st)"
  by (auto simp: stuck_def WaitGroupDoneAll_def wake_def Let_def)

lemma stuck_drain: "stuck t l s st \<Longrightarrow> stuck t l s (fold (WaitGroupDoneAll e) ks st)"
  by (induction ks arbitrary: st) (simp_all add: stuck_DoneAll)

lemma stuck_reset: "stuck t l s st \<Longrightarrow> stuck t l s (ResetStage st)"
  using stuck_drain [of t l s st] by (auto simp: stuck_def ResetStage_def drain_all_def Let_def)

lemma stuck_dat [simp]: "stuck t l s (st\<lparr>dat := D\<rparr>) = stuck t l s st"
  by (simp add: stuck_def)

lemma stuck_RollBack: "stuck t l s st \<Longrightarrow> stuck t l s (RollBack st)"
  by (simp add: RollBack_def stuck_reset)

lemma stuck_Refresh: "stuck t l s st \<Longrightarrow> stuck t l s (Refresh_changed a st)"
  by (cases a) (simp_all add: Refresh_changed_def Let_def stuck_RollBack stuck_reset)

lemma stuck_goto: "stuck t l s st \<Longrightarrow> u \<noteq> t \<Longrightarrow> stuck t l s (goto u p st)"
  by (simp add: stuck_def)

lemma stuck_upd [simp]:
  "stuck t l s (st\<lparr>held := H\<rparr>) = stuck t l s st" "stuck t l s (st\<lparr>crashed := b\<rparr>) = stuck t l s st"
  "stuck t l s (st\<lparr>Locker := L\<rparr>) = stuck t l s st" "stuck t l s (st\<lparr>Stage := k\<rparr>) = stuck t l s st"
  "stuck t l s (st\<lparr>worked := w\<rparr>) = stuck t l s st"
  by (simp_all add: stuck_def)

lemma goto_upd [simp]:
  "goto t p (st\<lparr>held := H\<rparr>) = (goto t p st)\<lparr>held := H\<rparr>" "goto t p (st\<lparr>Locker := L\<rparr>) = (goto t p st)\<lparr>Locker := L\<rparr>"
  by (simp_all add: goto_def)

lemma stuck_advance:
  assumes "advance_step W u st st'" and "stuck t l s st"
  shows "stuck t l s st'"
proof (cases "u = t")
  case True
  with assms show ?thesis
    by (auto simp: stuck_def WaitGroupWait_def elim!: advanceE)
next
  case False
  have "stuck t l s (advance_locked u l' stage st)" for l' stage
    using stuck_goto [OF assms(2) False] stuck_goto [OF stuck_Done [OF assms(2)] False] assms(2)
    by (auto simp: advance_locked_def Let_def case_prod_beta split: option.split)
  moreover have "stuck t l s (advance_finish W u l' stage st)" for l' stage
    using stuck_goto [OF assms(2) False]
    by (auto simp: advance_finish_def goto_def split: sum.split)
  ultimately show ?thesis using assms(1) stuck_goto [OF assms(2) False]
    by (auto simp: advance_enter_def WaitGroupWait_def elim!: advanceE split: option.split)
qed

lemma stuck_step: "step W st st' \<Longrightarrow> stuck t l s st \<Longrightarrow> stuck t l s st'"
proof (induction rule: step.induct)
  case (thread u st st')
  then show ?case by (rule stuck_advance)
next
  case (reload st u k b e)
  then have "u \<noteq> t" by (auto simp: stuck_def)
  with reload.prems show ?case by (rule stuck_goto)
qed (simp_all add: stuck_Refresh stuck_RollBack)

lemma stuck_forever: "(step W)\<^sup>*\<^sup>* st st' \<Longrightarrow> stuck t l s st \<Longrightarrow> stuck t l s st'"
  by (induction rule: rtranclp_induct) (auto dest: stuck_step)

lemma drain_negative:
  "k \<in> set ks \<Longrightarrow> StageWG (fold (WaitGroupDoneAll e) ks st) e k < 0"
proof -
  have less: "StageWG (WaitGroupDoneAll e j st) e k \<le> StageWG st e k" "StageWG (WaitGroupDoneAll e k st) e k < 0" for j st
    by (auto simp: WaitGroupDoneAll_def Let_def)
  have keep: "StageWG st e k < 0 \<Longrightarrow> StageWG (fold (WaitGroupDoneAll e) ks st) e k < 0" for ks st
  proof (induction ks arbitrary: st)
    case (Cons j ks)
    have "StageWG (WaitGroupDoneAll e j st) e k < 0" using less(1) [of j st] Cons.prems by linarith
    then show ?case using Cons.IH by simp
  qed simp
  show "k \<in> set ks \<Longrightarrow> StageWG (fold (WaitGroupDoneAll e) ks st) e k < 0"
    by (induction ks arbitrary: st) (auto simp: less(2) keep)
qed

lemma drain_keeps_arrived: "threads st t = Arrived l s \<Longrightarrow> threads (fold (WaitGroupDoneAll e) ks st) t = Arrived l s"
  by (induction ks arbitrary: st) (simp_all add: WaitGroupDoneAll_def wake_def Let_def)

lemma reset_strands:
  assumes "threads st t = Arrived l s" and "l = epoch st" and "0 < l" and "0 < s" and "s \<le> StageGroups"
  shows "stuck t l s (ResetStage st)"
proof -
  have "s - 1 \<in> set [0..<StageGroups]" using assms(4,5) by auto
  then show ?thesis using assms drain_keeps_arrived [OF assms(1)] drain_negative [of "s - 1" "[0..<StageGroups]" l st]
    by (simp add: stuck_def ResetStage_def drain_all_def Let_def)
qed

text \<open>
  A service that has signed off for a stage but has not begun to wait when the configuration is
  refreshed waits for ever: draining the wait group takes its counter below zero, where no \<open>Done\<close> can
  wake a waiter any more. The call does not return, whatever happens afterwards.
\<close>

theorem reset_strands_service:
  assumes "reachable W n d st" and "threads st t = Arrived l s" and "Locker st = Some l"
    and "(step W)\<^sup>*\<^sup>* (Refresh_changed assembled st) st'"
  shows "threads st' t = Arrived l s \<or> threads st' t = Blocked l s"
proof -
  have o: "once st" by (rule once_reachable [OF assms(1)])
  have l: "l = epoch st" using o assms(3) by (auto simp: once_def)
  have "0 < epoch st'" if "reachable W n d st'" for st'
    using that
  proof (induction rule: rtranclp_induct)
    case base
    show ?case by (simp add: initial_def)
  next
    case (step st1 st2)
    from step.hyps(2) step.IH show ?case
      by (induction rule: step.induct)
        (auto elim!: advanceE simp: advance_enter_def advance_locked_def WaitGroupWait_def advance_finish_def Refresh_changed_def
          RollBack_def Let_def case_prod_beta split: option.split sum.split)
  qed
  then have pos: "0 < l" using assms(1) l by blast
  have "waiting (threads st t) = Some (l, s)" using assms(2) by simp
  from waits_okD [OF _ this] o have s: "0 < s" "s \<le> StageGroups" by (auto simp: once_def)
  have "stuck t l s (ResetStage st)" by (rule reset_strands [OF assms(2) l pos s])
  then have "stuck t l s (Refresh_changed assembled st)"
    by (cases assembled) (simp_all add: Refresh_changed_def Let_def stuck_RollBack)
  from stuck_forever [OF assms(4) this] show ?thesis by (simp add: stuck_def)
qed

text \<open>
  A service that has read the locker and waits for it while the configuration is refreshed kills
  the process: it then holds the old locker, reads the new one and unlocks that, which is not locked.
\<close>

theorem reset_crashes_process:
  assumes "threads st t = Locking l s" and "Locker st = Some l" and "l = epoch st" and "l \<notin> held st" and "\<not> crashed st"
    and "st' = Refresh_changed assembled st"
  shows "step W st st' \<and> threads st' t = Locking l s \<and> (\<forall>st''. advance_step W t st' st'' \<longrightarrow> crashed st'') \<and> (\<exists>st''. advance_step W t st' st'')"
proof -
  have keep: "threads (fold (WaitGroupDoneAll e) ks x) t = Locking l s" if "threads x t = Locking l s" for e ks x
    using that by (induction ks arbitrary: x) (simp_all add: WaitGroupDoneAll_def wake_def Let_def)
  then have "threads (ResetStage x) t = Locking l s" if "threads x t = Locking l s" for x
    using that by (simp add: ResetStage_def drain_all_def Let_def)
  then have st': "threads st' t = Locking l s" "epoch st' > l" "Locker st' = Some (epoch st')" "held st' = held st" "\<not> crashed st'"
    using assms by (auto simp: Refresh_changed_def RollBack_def Let_def split: sum.split)
  moreover have "reset_lock st" using assms(2,4) by (simp add: reset_lock_def)
  then have "step W st st'" using step.refresh [of st W assembled] assms(5,6) by simp
  moreover have "crashed (advance_locked t l s st')" using st' by (simp add: advance_locked_def Let_def)
  moreover have "advance_step W t st' (advance_locked t l s st')" using st' assms(4) by (intro advance_step.locked) auto
  moreover have "st'' = advance_locked t l s st'" if "advance_step W t st' st''" for st''
    using that st'(1) by (auto elim!: advanceE)
  ultimately show ?thesis by blast
qed

text \<open>
  Rolling back does not restore the last running configuration a second time: the data set saved
  for it becomes the staged one and is processed in place, so that a further roll back starts from
  systems that are extended already and extends them again.
\<close>

theorem RollBack_modifies_saved:
  assumes "LastRunning (dat st) = Some a" and "Serving (dat st) \<noteq> Some a" and "se_fns W t 2 = []"
    and "extendAllSystems (se_lib W) (se_fuel W) (se_names W (Systems (store (dat st) a))) (Systems (store (dat st) a)) = Inr systems"
  shows "\<exists>D. stage_work W t 2 (dat (RollBack st)) = Inr D \<and>
    (\<forall>st'. dat st' = D \<longrightarrow> store (dat (RollBack st')) (Staged (dat (RollBack st'))) = (store (dat st) a)\<lparr>Systems := systems\<rparr>)"
  using assms by (simp add: stage_work_def RollBack_def rolls_back_def set_staged_def rmap_def)

section \<open>The barrier\<close>

text \<open>
  What the stages are meant to be: each of \<open>n\<close> services signs off for a stage and passes it when all
  have signed off for it. When one of those that may pass fails, all of them stop.
\<close>

record barrier =
  b_signed :: "nat \<Rightarrow> nat"
  b_passed :: "nat \<Rightarrow> nat"
  b_stopped :: "nat \<Rightarrow> bool"
  b_reached :: nat

definition may_pass :: "nat \<Rightarrow> nat \<Rightarrow> barrier \<Rightarrow> bool" where
  "may_pass n t b \<longleftrightarrow> t < n \<and> \<not> b_stopped b t \<and> b_signed b t = Suc (b_passed b t) \<and> (\<forall>u < n. b_passed b t < b_signed b u)"

inductive barrier_step :: "nat \<Rightarrow> barrier \<Rightarrow> barrier \<Rightarrow> bool" for n where
  sign: "t < n \<Longrightarrow> \<not> b_stopped b t \<Longrightarrow> b_signed b t = b_passed b t \<Longrightarrow>
    barrier_step n b (b\<lparr>b_signed := (b_signed b)(t := Suc (b_signed b t))\<rparr>)"
| pass: "may_pass n t b \<Longrightarrow>
    barrier_step n b (b\<lparr>b_passed := (b_passed b)(t := Suc (b_passed b t)), b_reached := max (b_reached b) (Suc (b_passed b t))\<rparr>)"
| fail: "may_pass n t b \<Longrightarrow> barrier_step n b (b\<lparr>b_stopped := (b_stopped b)(t := True)\<rparr>)"
| cancel: "t < n \<Longrightarrow> u < n \<Longrightarrow> b_stopped b u \<Longrightarrow> b_signed b t \<le> i \<Longrightarrow> i \<le> Suc (b_passed b t) \<Longrightarrow>
    barrier_step n b (b\<lparr>b_stopped := (b_stopped b)(t := True), b_signed := (b_signed b)(t := i)\<rparr>)"

definition barrier_init :: "barrier \<Rightarrow> bool" where
  "barrier_init b \<longleftrightarrow> b_signed b = (\<lambda>_. 0) \<and> b_passed b = (\<lambda>_. 0) \<and> b_stopped b = (\<lambda>_. False) \<and> b_reached b = 0"

text \<open>A stage is not reached, and nobody passes one, before all services have signed off for it.\<close>

lemma barrier_safe:
  assumes "(barrier_step n)\<^sup>*\<^sup>* b b'" and "barrier_init b"
  shows "\<forall>t < n. \<forall>u < n. b_passed b' t \<le> b_signed b' u \<and> b_reached b' \<le> b_signed b' u"
  using assms(1)
proof (induction rule: rtranclp_induct)
  case base
  with assms(2) show ?case by (simp add: barrier_init_def)
next
  case (step b1 b2)
  from step.hyps(2) step.IH show ?case
  proof (induction rule: barrier_step.induct)
    case (sign t b)
    then show ?case by simp (metis le_SucI)
  next
    case (cancel t u b i)
    then show ?case by (auto intro: le_trans)
  qed (auto simp: may_pass_def Suc_leI)
qed

section \<open>\<open>AdvanceStage\<close> is a barrier\<close>

fun level :: "pc \<Rightarrow> nat" where
  "level (Ready k) = k"
| "level (Locking l s) = s - 1"
| "level (Arrived l s) = s"
| "level (Blocked l s) = s"
| "level (Relocking l s) = s"
| "level (Stopped k b e) = (if b then Suc k else k)"

fun passes :: "pc \<Rightarrow> nat" where
  "passes (Ready k) = k"
| "passes (Locking l s) = s - 1"
| "passes (Arrived l s) = s - 1"
| "passes (Blocked l s) = s - 1"
| "passes (Relocking l s) = s - 1"
| "passes (Stopped k b e) = k"

fun is_stopped :: "pc \<Rightarrow> bool" where
  "is_stopped (Stopped k b e) = True"
| "is_stopped _ = False"

definition barrier_of :: "staging \<Rightarrow> barrier" where
  "barrier_of st = \<lparr>b_signed = (\<lambda>t. level (threads st t)), b_passed = (\<lambda>t. passes (threads st t)),
     b_stopped = (\<lambda>t. is_stopped (threads st t)), b_reached = Stage st\<rparr>"

text \<open>Runs of one thread for each service, without a refresh; the last stage there is has number 4.\<close>

definition serve :: "stage_env \<Rightarrow> nat \<Rightarrow> staging \<Rightarrow> staging \<Rightarrow> bool" where
  "serve W n st st' \<longleftrightarrow> (\<exists>t < n. advance_step W t st st' \<and> (\<forall>k. threads st t = Ready k \<longrightarrow> k < StageGroups))"

fun pc_ok :: "pc \<Rightarrow> bool" where
  "pc_ok (Ready k) \<longleftrightarrow> k \<le> StageGroups"
| "pc_ok (Stopped k b e) \<longleftrightarrow> True"
| "pc_ok (Locking l s) \<longleftrightarrow> l = Suc 0 \<and> 0 < s \<and> s \<le> StageGroups"
| "pc_ok (Arrived l s) \<longleftrightarrow> l = Suc 0 \<and> 0 < s \<and> s \<le> StageGroups"
| "pc_ok (Blocked l s) \<longleftrightarrow> l = Suc 0 \<and> 0 < s \<and> s \<le> StageGroups"
| "pc_ok (Relocking l s) \<longleftrightarrow> l = Suc 0 \<and> 0 < s \<and> s \<le> StageGroups"

definition missing :: "nat \<Rightarrow> nat \<Rightarrow> staging \<Rightarrow> nat set" where
  "missing n k st = {t. t < n \<and> level (threads st t) \<le> k}"

definition counts_ok :: "nat \<Rightarrow> staging \<Rightarrow> bool" where
  "counts_ok n st \<longleftrightarrow> (\<forall>k < StageGroups. StageWG st (Suc 0) k = int (card (missing n k st)))"

definition woken_ok :: "nat \<Rightarrow> staging \<Rightarrow> bool" where
  "woken_ok n st \<longleftrightarrow> (\<forall>t l s. threads st t = Relocking l s \<longrightarrow> missing n (s - 1) st = {}) \<and>
     (\<forall>t l s. threads st t = Blocked l s \<longrightarrow> missing n (s - 1) st \<noteq> {})"

definition serving_inv :: "nat \<Rightarrow> staging \<Rightarrow> bool" where
  "serving_inv n st \<longleftrightarrow> epoch st = Suc 0 \<and> (Locker st = Some (Suc 0) \<or> Locker st = None \<and> (\<exists>u < n. is_stopped (threads st u))) \<and> \<not> crashed st \<and>
     (\<forall>t. pc_ok (threads st t) \<and> passes (threads st t) \<le> Stage st) \<and> (\<forall>k < Stage st. missing n k st = {}) \<and>
     counts_ok n st \<and> woken_ok n st"

lemma finite_missing [simp]: "finite (missing n k st)"
  by (rule finite_subset [of _ "{..<n}"]) (auto simp: missing_def)

lemma level_wake [simp]: "level (wake e k p) = level p" "passes (wake e k p) = passes p" "is_stopped (wake e k p) = is_stopped p"
  "pc_ok (wake e k p) = pc_ok p"
  by (auto simp: wake_def)

lemma missing_cong: "(\<And>t. level (threads st' t) = level (threads st t)) \<Longrightarrow> missing n k st' = missing n k st"
  by (simp add: missing_def)

lemma missing_upd [simp]:
  "missing n k (st\<lparr>Locker := L\<rparr>) = missing n k st" "missing n k (st\<lparr>held := H\<rparr>) = missing n k st"
  "missing n k (st\<lparr>dat := D, Stage := s, worked := w\<rparr>) = missing n k st" "missing n k (st\<lparr>StageWG := g\<rparr>) = missing n k st"
  by (simp_all add: missing_def)

text \<open>A move of a thread that signs nothing off.\<close>

lemma serving_goto:
  assumes "serving_inv n st" and "level p = level (threads st t)" and "pc_ok p" and "passes p \<le> Stage st"
    and "\<And>l s. p = Relocking l s \<Longrightarrow> missing n (s - 1) st = {}" and "\<And>l s. p = Blocked l s \<Longrightarrow> missing n (s - 1) st \<noteq> {}"
    and "is_stopped (threads st t) \<Longrightarrow> is_stopped p"
  shows "serving_inv n (goto t p st)"
proof -
  have m: "missing n k (goto t p st) = missing n k st" for k using assms(2) by (intro missing_cong) simp
  have "\<exists>u < n. is_stopped (threads (goto t p st) u)" if "\<exists>u < n. is_stopped (threads st u)"
    using that assms(7) by (metis goto_sel(10))
  then have "Locker st = Some (Suc 0) \<or> Locker st = None \<and> (\<exists>u < n. is_stopped (threads (goto t p st) u))"
    using assms(1) unfolding serving_inv_def by blast
  moreover have "woken_ok n (goto t p st)" using assms(1,5,6) by (auto simp: serving_inv_def woken_ok_def m)
  moreover have "counts_ok n (goto t p st)" using assms(1) by (simp add: serving_inv_def counts_ok_def m)
  ultimately show ?thesis using assms(1,3,4) by (auto simp: serving_inv_def m)
qed

lemma serving_stop:
  assumes "serving_inv n st" and "level (threads st t) = level (Stopped k b e)" and "passes (threads st t) = k" and "t < n"
  shows "serving_inv n (goto t (Stopped k b e) st)" "serving_inv n (goto t (Stopped k b e) st\<lparr>Locker := None\<rparr>)"
proof -
  show st': "serving_inv n (goto t (Stopped k b e) st)"
    using assms by (intro serving_goto) (auto simp: serving_inv_def)
  then show "serving_inv n (goto t (Stopped k b e) st\<lparr>Locker := None\<rparr>)"
    using assms(4) by (auto simp: serving_inv_def counts_ok_def woken_ok_def)
qed

text \<open>Signing off: the counter is that of the services still missing.\<close>

lemma missing_sign:
  assumes "level (threads st t) = k" and "level p = Suc k" and "t < n"
  shows "missing n j (goto t p (fst (WaitGroupDone e i st))) = (if j = k then missing n k st - {t} else missing n j st)"
  using assms by (auto simp: missing_def WaitGroupDone_def Let_def)

lemma serving_sign:
  assumes "serving_inv n st" and "level (threads st t) = k" and "level p = Suc k" and "pc_ok p" and "passes p = k"
    and "t < n" and "k = Stage st" and "k < StageGroups" and "waiting p = None \<or> p = Arrived (Suc 0) (Suc k)"
    and "is_stopped (threads st t) \<Longrightarrow> is_stopped p"
  shows "serving_inv n (goto t p (fst (WaitGroupDone (Suc 0) k st)))"
proof -
  let ?st = "goto t p (fst (WaitGroupDone (Suc 0) k st))"
  have t: "t \<in> missing n k st" using assms(2,6) by (simp add: missing_def)
  have m: "missing n j ?st = (if j = k then missing n k st - {t} else missing n j st)" for j
    by (rule missing_sign [OF assms(2,3,6)])
  have count: "StageWG st (Suc 0) j = int (card (missing n j st))" if "j < StageGroups" for j
    using assms(1) that by (simp add: serving_inv_def counts_ok_def)
  have one: "StageWG st (Suc 0) k - 1 = int (card (missing n k st - {t}))"
    using card.remove [OF finite_missing t] count [OF assms(8)] by simp
  then have "counts_ok n ?st" using count by (simp add: counts_ok_def m)
  moreover have "woken_ok n ?st"
  proof -
    have old: "threads st u = Relocking l s \<Longrightarrow> missing n (s - 1) st = {}" "threads st u = Blocked l s \<Longrightarrow> missing n (s - 1) st \<noteq> {}" for u l s
      using assms(1) by (auto simp: serving_inv_def woken_ok_def)
    have pos: "pc_ok (threads st u)" for u using assms(1) by (simp add: serving_inv_def)
    have "missing n (s - 1) ?st = {}" if "threads ?st u = Relocking l s" for u l s
      using that assms(9) old(1) [of u l s] one m [of "s - 1"]
      by (auto simp: WaitGroupDone_def Let_def wake_def split: if_splits)
    moreover have "missing n (s - 1) ?st \<noteq> {}" if "threads ?st u = Blocked l s" for u l s
    proof -
      have b: "threads st u = Blocked l s" "u \<noteq> t" using that assms(9)
        by (auto simp: WaitGroupDone_def Let_def wake_def split: if_splits)
      then have "l = Suc 0" "0 < s" using pos [of u] by auto
      then have "missing n k st - {t} \<noteq> {}" if "s - 1 = k"
        using \<open>threads ?st u = Blocked l s\<close> b that one by (auto simp: WaitGroupDone_def Let_def wake_def split: if_splits)
      then show ?thesis using old(2) [OF b(1)] by (auto simp: m)
    qed
    ultimately show ?thesis unfolding woken_ok_def by blast
  qed
  moreover have "is_stopped (threads ?st u)" if "is_stopped (threads st u)" for u
    using that assms(10) by (auto simp: WaitGroupDone_def Let_def)
  then have "Locker st = Some (Suc 0) \<or> Locker st = None \<and> (\<exists>u < n. is_stopped (threads ?st u))"
    using assms(1) unfolding serving_inv_def by blast
  moreover have "pc_ok (threads ?st u) \<and> passes (threads ?st u) \<le> Stage st" for u
    using assms(1,4,5,7) by (auto simp: serving_inv_def WaitGroupDone_def Let_def)
  moreover have "missing n j ?st = {}" if "j < Stage st" for j
    using that assms(1,7) by (subst m) (simp add: serving_inv_def)
  ultimately show ?thesis using assms(1) by (simp add: serving_inv_def)
qed

text \<open>The calls of a service that has not signed off for the current stage come in time.\<close>

lemma serving_locking:
  assumes "serving_inv n st" and "threads st t = Locking l stage" and "t < n"
  shows "l = Suc 0" "stage = Suc (Stage st)" "Stage st < StageGroups"
proof -
  have pc: "pc_ok (threads st t)" "passes (threads st t) \<le> Stage st" using assms(1) by (auto simp: serving_inv_def)
  then show "l = Suc 0" using assms(2) by simp
  have "\<not> stage - 1 < Stage st"
  proof
    assume "stage - 1 < Stage st"
    then have "missing n (stage - 1) st = {}" using assms(1) by (auto simp: serving_inv_def)
    with assms(2,3) show False by (auto simp: missing_def)
  qed
  with pc assms(2) show "stage = Suc (Stage st)" by auto
  with pc assms(2) show "Stage st < StageGroups" by simp
qed

lemma barrier_of_goto:
  "barrier_of (goto t p st) = (barrier_of st)\<lparr>b_signed := (b_signed (barrier_of st))(t := level p),
     b_passed := (b_passed (barrier_of st))(t := passes p), b_stopped := (b_stopped (barrier_of st))(t := is_stopped p)\<rparr>"
  by (auto simp: barrier_of_def)

lemma barrier_of_Done [simp]: "barrier_of (fst (WaitGroupDone e k st)) = barrier_of st"
  by (auto simp: barrier_of_def WaitGroupDone_def Let_def)

lemma barrier_of_sel [simp]:
  "b_signed (barrier_of st) t = level (threads st t)" "b_passed (barrier_of st) t = passes (threads st t)"
  "b_stopped (barrier_of st) t = is_stopped (threads st t)" "b_reached (barrier_of st) = Stage st"
  by (simp_all add: barrier_of_def)

lemma barrier_of_upd [simp]:
  "barrier_of (st\<lparr>Locker := L\<rparr>) = barrier_of st" "barrier_of (st\<lparr>held := H\<rparr>) = barrier_of st"
  by (simp_all add: barrier_of_def)

definition simulated :: "nat \<Rightarrow> staging \<Rightarrow> staging \<Rightarrow> bool" where
  "simulated n st st' \<longleftrightarrow> serving_inv n st' \<and> (barrier_step n (barrier_of st) (barrier_of st') \<or> barrier_of st' = barrier_of st)"

text \<open>A cancelled call: it stops, with the sign-off it has made or makes.\<close>

lemma barrier_cancel:
  assumes "u < n" "is_stopped (threads st u)" "t < n" "passes (threads st t) = k" "level (threads st t) \<le> level (Stopped k b e)"
  shows "barrier_step n (barrier_of st) (barrier_of (goto t (Stopped k b e) st))"
proof -
  have "barrier_step n (barrier_of st) ((barrier_of st)\<lparr>b_stopped := (b_stopped (barrier_of st))(t := True),
      b_signed := (b_signed (barrier_of st))(t := level (Stopped k b e))\<rparr>)"
    using assms by (intro barrier_step.cancel [of t n u]) (simp_all split: if_splits)
  also have "(barrier_of st)\<lparr>b_stopped := (b_stopped (barrier_of st))(t := True),
      b_signed := (b_signed (barrier_of st))(t := level (Stopped k b e))\<rparr> = barrier_of (goto t (Stopped k b e) st)"
    using assms(4) by (auto simp: barrier_of_def)
  finally show ?thesis .
qed

lemma simulated_enter:
  assumes "serving_inv n st" and "threads st t = Ready k" and "t < n" and "k < StageGroups"
  shows "simulated n st (advance_enter t k st)"
proof (cases "Locker st")
  case None
  then obtain u where u: "u < n" "is_stopped (threads st u)" using assms(1) by (auto simp: serving_inv_def)
  have "barrier_step n (barrier_of st) (barrier_of (goto t (Stopped k False NilDereference) st))"
    by (rule barrier_cancel [OF u assms(3)]) (simp_all add: assms(2))
  moreover have "serving_inv n (goto t (Stopped k False NilDereference) st)"
    using assms by (intro serving_stop) simp_all
  ultimately show ?thesis by (simp add: simulated_def advance_enter_def None)
next
  case (Some l)
  have "l = Suc 0" using Some assms(1) by (auto simp: serving_inv_def)
  moreover have "passes (threads st t) \<le> Stage st" using assms(1) by (simp add: serving_inv_def)
  ultimately have "serving_inv n (goto t (Locking l (Suc k)) st)"
    using assms by (intro serving_goto) simp_all
  moreover have "barrier_of (goto t (Locking l (Suc k)) st) = barrier_of st"
    using assms(2) by (auto simp: barrier_of_def)
  ultimately show ?thesis by (simp add: simulated_def advance_enter_def Some)
qed

lemma simulated_locked:
  assumes "serving_inv n st" and "threads st t = Locking l stage" and "t < n"
  shows "simulated n st (advance_locked t l stage st)"
proof -
  note call = serving_locking [OF assms]
  have lv: "level (threads st t) = Stage st" "passes (threads st t) = Stage st" "\<not> is_stopped (threads st t)" using call(2) assms(2) by simp_all
  show ?thesis
  proof (cases "Locker st")
    case None
    let ?st1 = "fst (WaitGroupDone (Suc 0) (Stage st) st)"
    let ?p = "Stopped (Stage st) True NilDereference"
    have ep: "epoch st = Suc 0" using assms(1) by (simp add: serving_inv_def)
    obtain u where u: "u < n" "is_stopped (threads st u)" using None assms(1) by (auto simp: serving_inv_def)
    have "barrier_step n (barrier_of ?st1) (barrier_of (goto t ?p ?st1))"
      using u assms(3) lv by (intro barrier_cancel [of u]) (simp_all add: WaitGroupDone_def Let_def)
    moreover have "serving_inv n (goto t ?p ?st1)"
      using call lv assms(3) by (intro serving_sign [OF assms(1), where k = "Stage st"]) simp_all
    moreover have "serving_inv n (st'\<lparr>held := H\<rparr>) = serving_inv n st'" for st' H
      by (simp add: serving_inv_def counts_ok_def woken_ok_def)
    ultimately show ?thesis using None call ep
      by (simp add: simulated_def advance_locked_def Let_def)
  next
    case (Some l')
    let ?st1 = "fst (WaitGroupDone l (Stage st) st)"
    have l': "l' = l" using Some assms(1) call(1) by (auto simp: serving_inv_def)
    have "t \<in> missing n (Stage st) st" using lv(1) assms(3) by (simp add: missing_def)
    then have "card (missing n (Stage st) st) > 0" by (auto simp: card_gt_0_iff)
    then have pos: "StageWG st l (Stage st) > 0"
      using assms(1) call(1,3) by (simp add: serving_inv_def counts_ok_def)
    have adv: "advance_locked t l stage st = goto t (Arrived l stage) ?st1"
      using Some l' call pos WaitGroupDone_sel(10) [of l "Stage st" st] by (simp add: advance_locked_def Let_def case_prod_beta)
    have "serving_inv n (goto t (Arrived l stage) ?st1)"
      unfolding call(1) using call lv assms(3) by (intro serving_sign [OF assms(1), where k = "Stage st"]) simp_all
    moreover have "barrier_step n (barrier_of st) ((barrier_of st)\<lparr>b_signed := (b_signed (barrier_of st))(t := Suc (Stage st))\<rparr>)"
      using barrier_step.sign [of t n "barrier_of st"] lv assms(3) by simp
    moreover have "(barrier_of st)\<lparr>b_signed := (b_signed (barrier_of st))(t := Suc (Stage st))\<rparr> = barrier_of (goto t (Arrived l stage) ?st1)"
      using call(2) lv by (simp add: barrier_of_goto fun_upd_idem)
    ultimately show ?thesis by (simp add: simulated_def adv)
  qed
qed

lemma simulated_wait:
  assumes "serving_inv n st" and "threads st t = Arrived l stage"
  shows "simulated n st (WaitGroupWait t l stage st)"
proof -
  have pc: "l = Suc 0" "0 < stage" "stage \<le> StageGroups" "passes (threads st t) \<le> Stage st"
    using assms unfolding serving_inv_def by (metis pc_ok.simps(4))+
  then have count: "StageWG st l (stage - 1) = int (card (missing n (stage - 1) st))"
    using assms(1) by (simp add: serving_inv_def counts_ok_def)
  let ?p = "if StageWG st l (stage - 1) = 0 then Relocking l stage else Blocked l stage"
  have "serving_inv n (goto t ?p st)"
    using pc count assms by (intro serving_goto) (auto split: if_splits)
  moreover have "barrier_of (goto t ?p st) = barrier_of st" using assms(2) by (auto simp: barrier_of_def)
  ultimately show ?thesis by (simp add: simulated_def WaitGroupWait_def)
qed

lemma serving_relocking:
  assumes "serving_inv n st" and "threads st t = Relocking l stage" and "t < n"
  shows "l = Suc 0" "0 < stage" "stage \<le> Suc (Stage st)" "missing n (stage - 1) st = {}" "may_pass n t (barrier_of st)"
proof -
  have pc: "pc_ok (threads st t)" "passes (threads st t) \<le> Stage st" using assms(1) by (auto simp: serving_inv_def)
  then show l: "l = Suc 0" "0 < stage" "stage \<le> Suc (Stage st)" using assms(2) by auto
  show m: "missing n (stage - 1) st = {}" using assms(1,2) by (auto simp: serving_inv_def woken_ok_def)
  then have "\<forall>u < n. stage - 1 < level (threads st u)" by (auto simp: missing_def not_le)
  with assms(2,3) l(2) show "may_pass n t (barrier_of st)" by (simp add: may_pass_def)
qed

lemma barrier_passes:
  assumes "serving_inv n st" and "threads st t = Relocking l stage" and "t < n" and "Stage st' = max (Stage st) stage"
    and "threads st' = (threads st)(t := Ready stage)"
  shows "barrier_step n (barrier_of st) (barrier_of st')"
proof -
  note call = serving_relocking [OF assms(1-3)]
  have "(barrier_of st)\<lparr>b_passed := (b_passed (barrier_of st))(t := Suc (b_passed (barrier_of st) t)),
      b_reached := max (b_reached (barrier_of st)) (Suc (b_passed (barrier_of st) t))\<rparr> = barrier_of st'"
    using assms(2,4,5) call(2) by (auto simp: barrier_of_def)
  with barrier_step.pass [OF call(5)] show ?thesis by simp
qed

lemma serving_worked:
  assumes "serving_inv n st" and "threads st t = Relocking l stage" and "t < n" and "stage = Suc (Stage st)"
  shows "serving_inv n (goto t (Ready stage) st\<lparr>dat := D, Stage := stage, worked := w\<rparr>)"
proof -
  note call = serving_relocking [OF assms(1-3)]
  have "stage \<le> StageGroups" using assms(1,2) unfolding serving_inv_def by (metis pc_ok.simps(6))
  let ?st = "goto t (Ready stage) st\<lparr>dat := D, Stage := stage, worked := w\<rparr>"
  have m: "missing n k (goto t (Ready stage) st) = missing n k st" for k using assms(2) by (intro missing_cong) simp
  have "missing n k st = {}" if "k < stage" for k
    using that call(4) assms(1,4) by (cases "k = Stage st") (auto simp: serving_inv_def)
  moreover have "counts_ok n ?st" using assms(1) by (simp add: serving_inv_def counts_ok_def m)
  moreover have "woken_ok n ?st" using assms(1) by (auto simp: serving_inv_def woken_ok_def m)
  moreover have "is_stopped (threads ?st u)" if "is_stopped (threads st u)" for u using that assms(2) by auto
  then have "Locker st = Some (Suc 0) \<or> Locker st = None \<and> (\<exists>u < n. is_stopped (threads ?st u))"
    using assms(1) unfolding serving_inv_def by blast
  moreover have "pc_ok (threads ?st u) \<and> passes (threads ?st u) \<le> stage" for u
    using assms(1,4) \<open>stage \<le> StageGroups\<close> by (auto simp: serving_inv_def le_SucI)
  ultimately show ?thesis using assms(1) by (simp add: serving_inv_def m)
qed

lemma simulated_finish:
  assumes "serving_inv n st" and "threads st t = Relocking l stage" and "t < n"
  shows "simulated n st (advance_finish W t l stage st)"
proof (cases "Locker st = Some l")
  case False
  note call = serving_relocking [OF assms]
  let ?p = "Stopped (stage - 1) True ErrConfigRollback"
  have "Locker st = None" using False call(1) assms(1) by (auto simp: serving_inv_def)
  then obtain u where u: "u < n" "is_stopped (threads st u)" using assms(1) by (auto simp: serving_inv_def)
  have "barrier_step n (barrier_of st) (barrier_of (goto t ?p st))"
    by (rule barrier_cancel [OF u assms(3)]) (use assms(2) call(2) in simp_all)
  moreover have "serving_inv n (goto t ?p st)" using assms call(2) by (intro serving_stop) simp_all
  ultimately show ?thesis using False by (simp add: simulated_def advance_finish_def)
next
  case True
  note call = serving_relocking [OF assms]
  show ?thesis
  proof (cases "Stage st \<ge> stage")
    case True
    have "stage \<le> StageGroups" using assms(1,2) unfolding serving_inv_def by (metis pc_ok.simps(6))
    then have "serving_inv n (goto t (Ready stage) st)" using assms True call(2) by (intro serving_goto) simp_all
    moreover have "barrier_step n (barrier_of st) (barrier_of (goto t (Ready stage) st))"
      using True by (intro barrier_passes [OF assms]) (simp_all add: goto_def)
    ultimately show ?thesis using \<open>Locker st = Some l\<close> True by (simp add: simulated_def advance_finish_def)
  next
    case False
    then have stage: "stage = Suc (Stage st)" using call(3) by simp
    show ?thesis
    proof (cases "stage_work W t stage (dat st)")
      case (Inl e)
      have "serving_inv n (goto t (Stopped (stage - 1) True e) st\<lparr>Locker := None\<rparr>)"
        using assms call(2) by (intro serving_stop) simp_all
      moreover have "barrier_of (goto t (Stopped (stage - 1) True e) st) = (barrier_of st)\<lparr>b_stopped := (b_stopped (barrier_of st))(t := True)\<rparr>"
        using assms(2) call(2) by (auto simp: barrier_of_def)
      ultimately show ?thesis using \<open>Locker st = Some l\<close> False Inl barrier_step.fail [OF call(5)]
        by (simp add: simulated_def advance_finish_def)
    next
      case (Inr D)
      let ?st = "goto t (Ready stage) st\<lparr>dat := D, Stage := stage, worked := worked st @ [(l, stage)]\<rparr>"
      have "barrier_step n (barrier_of st) (barrier_of ?st)"
        using stage by (intro barrier_passes [OF assms]) (simp_all add: goto_def)
      with serving_worked [OF assms stage] show ?thesis
        using \<open>Locker st = Some l\<close> False Inr by (simp add: simulated_def advance_finish_def)
    qed
  qed
qed

lemma serve_simulated: "serving_inv n st \<Longrightarrow> serve W n st st' \<Longrightarrow> simulated n st st'"
  unfolding serve_def
  by (auto elim!: advanceE intro: simulated_enter simulated_locked simulated_wait simulated_finish)

lemma serving_initial: "serving_inv n (initial n d)"
proof -
  have "missing n k (initial n d) = {..<n}" for k by (auto simp: missing_def initial_def ResetStage_def)
  then show ?thesis by (simp add: serving_inv_def counts_ok_def woken_ok_def) (simp add: initial_def ResetStage_def)
qed

lemma barrier_initial: "barrier_init (barrier_of (initial n d))"
  by (simp add: barrier_init_def fun_eq_iff) (simp add: initial_def ResetStage_def)

interpretation sb: simulation "\<lambda>st. \<exists>d. st = initial n d" "serve W n" "serving_inv n" barrier_init "barrier_step n" barrier_of
  for W n
  by unfold_locales (use serving_initial barrier_initial serve_simulated in \<open>auto simp: simulated_def\<close>)

text \<open>
  C4: while the configuration is not refreshed, the calls of \<open>AdvanceStage\<close> by the services implement a
  barrier: every run, with all the steps inside the calls interleaved, is a run of the barrier in which
  a service passes a stage when all have signed off for it; so the work of a stage is done, and a
  service goes on, only after every service has signed off for the stage before.
\<close>

theorem AdvanceStage_refines_barrier:
  assumes "(serve W n)\<^sup>*\<^sup>* (initial n d) st"
  shows "(barrier_step n)\<^sup>*\<^sup>* (barrier_of (initial n d)) (barrier_of st) \<and>
    (\<forall>t < n. \<forall>u < n. passes (threads st t) \<le> level (threads st u) \<and> Stage st \<le> level (threads st u)) \<and> \<not> crashed st"
proof -
  have init: "\<exists>d'. initial n d = initial n d'" by blast
  note run = sb.refines [OF assms init]
  have "\<forall>t < n. \<forall>u < n. b_passed (barrier_of st) t \<le> b_signed (barrier_of st) u \<and> b_reached (barrier_of st) \<le> b_signed (barrier_of st) u"
    by (rule barrier_safe [OF run barrier_initial])
  moreover have "\<not> crashed st" using sb.invariant [OF assms init] by (simp add: serving_inv_def)
  ultimately show ?thesis using run by simp
qed

text \<open>
  C11: in such runs no wake-up is lost: a service is blocked in a stage only while another one has not
  signed off for it, and a service that is woken finds that all have.
\<close>

theorem AdvanceStage_no_lost_wakeup:
  assumes "(serve W n)\<^sup>*\<^sup>* (initial n d) st"
  shows "(threads st t = Blocked l s \<longrightarrow> (\<exists>u < n. level (threads st u) < s)) \<and>
    (threads st t = Relocking l s \<longrightarrow> (\<forall>u < n. s \<le> level (threads st u)))"
proof -
  have inv: "serving_inv n st" using sb.invariant [OF assms] by blast
  then have "0 < s" if "threads st t = Blocked l s \<or> threads st t = Relocking l s"
    using that unfolding serving_inv_def by (metis pc_ok.simps(5,6))
  with inv show ?thesis by (auto simp: serving_inv_def woken_ok_def missing_def) fastforce+
qed

section \<open>Witnesses\<close>

definition sample_stages :: stage_env where
  "sample_stages = \<lparr>se_fns = (\<lambda>_ _. []), se_lib = last_wins, se_ext = sample_regex, se_fuel = 3, se_names = map fst\<rparr>"

text \<open>The first service of two enters, signs off and blocks; a single service goes through the first stage.\<close>

definition entered :: "nat \<Rightarrow> staging" where
  "entered n = advance_enter 0 0 (initial n sample_flows)"

definition signed_off :: "nat \<Rightarrow> staging" where
  "signed_off n = advance_locked 0 1 1 (entered n)"

definition waited :: "nat \<Rightarrow> staging" where
  "waited n = WaitGroupWait 0 1 1 (signed_off n)"

definition booted :: staging where
  "booted = advance_finish sample_stages 0 1 1 (waited 1)"

lemma initial_sel [simp]:
  "threads (initial n d) t = Ready 0" "Locker (initial n d) = Some (Suc 0)" "Stage (initial n d) = 0" "crashed (initial n d) = False"
  "held (initial n d) = {}" "epoch (initial n d) = Suc 0" "StageWG (initial n d) (Suc 0) k = int n"
  by (simp_all add: initial_def ResetStage_def)

lemma entered_sel [simp]:
  "threads (entered n) 0 = Locking (Suc 0) (Suc 0)" "Locker (entered n) = Some (Suc 0)" "Stage (entered n) = 0" "crashed (entered n) = False"
  "held (entered n) = {}" "epoch (entered n) = Suc 0" "StageWG (entered n) (Suc 0) k = int n"
  by (simp_all add: entered_def advance_enter_def)

lemma signed_off_sel [simp]:
  assumes "0 < n"
  shows "threads (signed_off n) 0 = Arrived (Suc 0) (Suc 0)" "Locker (signed_off n) = Some (Suc 0)" "Stage (signed_off n) = 0"
    "crashed (signed_off n) = False" "held (signed_off n) = {}" "epoch (signed_off n) = Suc 0" "StageWG (signed_off n) (Suc 0) 0 = int n - 1"
  using assms by (simp_all add: signed_off_def advance_locked_def StageGroups_def case_prod_beta Let_def)

lemma waited_sel [simp]:
  assumes "0 < n"
  shows "threads (waited n) 0 = (if n = Suc 0 then Relocking (Suc 0) (Suc 0) else Blocked (Suc 0) (Suc 0))" "Locker (waited n) = Some (Suc 0)" "Stage (waited n) = 0"
    "crashed (waited n) = False" "held (waited n) = {}"
  using assms by (simp_all add: waited_def WaitGroupWait_def)

lemma serve_entered: "0 < n \<Longrightarrow> serve W n (initial n sample_flows) (entered n)"
  unfolding serve_def entered_def by (intro exI [of _ 0]) (auto intro!: advance_step.enter simp: StageGroups_def)

lemma serve_signed_off: "0 < n \<Longrightarrow> serve W n (entered n) (signed_off n)"
  unfolding serve_def signed_off_def by (intro exI [of _ 0]) (auto intro!: advance_step.locked)

lemma serve_waited: "0 < n \<Longrightarrow> serve W n (signed_off n) (waited n)"
  unfolding serve_def waited_def by (intro exI [of _ 0]) (auto intro!: advance_step.wait)

lemma run_signed_off: "0 < n \<Longrightarrow> (serve W n)\<^sup>*\<^sup>* (initial n sample_flows) (signed_off n)"
  using serve_entered serve_signed_off by (metis r_into_rtranclp rtranclp.rtrancl_into_rtrancl)

lemma run_waited: "0 < n \<Longrightarrow> (serve W n)\<^sup>*\<^sup>* (initial n sample_flows) (waited n)"
  using run_signed_off serve_waited by (metis rtranclp.rtrancl_into_rtrancl)

lemma serve_step: "(serve W n)\<^sup>*\<^sup>* st st' \<Longrightarrow> (step W)\<^sup>*\<^sup>* st st'"
  by (induction rule: rtranclp_induct) (auto simp: serve_def intro: step.thread rtranclp.rtrancl_into_rtrancl)

lemma run_booted: "(serve sample_stages 1)\<^sup>*\<^sup>* (initial 1 sample_flows) booted" "Stage booted = 1" "threads booted 0 = Ready 1"
proof -
  have "advance_step sample_stages 0 (waited 1) booted" unfolding booted_def by (intro advance_step.finish) simp_all
  then have "serve sample_stages 1 (waited 1) booted" by (auto simp: serve_def)
  with run_waited [of 1 sample_stages] show "(serve sample_stages 1)\<^sup>*\<^sup>* (initial 1 sample_flows) booted"
    by (metis rtranclp.rtrancl_into_rtrancl zero_less_one)
  have "\<exists>D. stage_work sample_stages 0 1 (dat (waited 1)) = Inr D"
    by (simp add: stage_work_def sample_stages_def last_wins_def)
  then show "Stage booted = 1" "threads booted 0 = Ready 1" by (auto simp: booted_def advance_finish_def)
qed

theorem AdvanceStage_refines_barrier_witness:
  "(barrier_step 1)\<^sup>*\<^sup>* (barrier_of (initial 1 sample_flows)) (barrier_of booted) \<and>
   passes (threads booted 0) = 1 \<and> passes (threads booted 0) \<le> level (threads booted 0)"
  using AdvanceStage_refines_barrier [OF run_booted(1)] run_booted(3) by simp

theorem AdvanceStage_no_lost_wakeup_witness: "\<exists>u < 2. level (threads (waited 2) u) < 1"
  using AdvanceStage_no_lost_wakeup [OF run_waited [of 2 sample_stages], of 0 1 1] by simp

theorem stage_work_once_witness: "works_of 1 booted = [1..<Suc (Stage booted)] \<and> Stage booted = 1"
proof -
  have "epoch booted = 1" using sb.invariant [OF run_booted(1)] by (auto simp: serving_inv_def)
  with stage_work_once [OF serve_step [OF run_booted(1)]] run_booted(2) show ?thesis by simp
qed

theorem reset_strands_service_witness:
  "\<forall>st'. (step sample_stages)\<^sup>*\<^sup>* (Refresh_changed (Inr sample_flows) (signed_off 2)) st' \<longrightarrow>
    threads st' 0 = Arrived 1 1 \<or> threads st' 0 = Blocked 1 1"
  using reset_strands_service [OF serve_step [OF run_signed_off [of 2 sample_stages]], of 0 1 1 "Inr sample_flows"] by simp

theorem reset_crashes_process_witness:
  "\<exists>st st' st''. reachable sample_stages 2 sample_flows st \<and> step sample_stages st st' \<and> advance_step sample_stages 0 st' st'' \<and> crashed st''"
proof -
  have "reachable sample_stages 2 sample_flows (entered 2)"
    using serve_step [OF r_into_rtranclp, of sample_stages 2] serve_entered [of 2 sample_stages] by simp
  with reset_crashes_process [of "entered 2" 0 1 1 "Refresh_changed (Inr sample_flows) (entered 2)" "Inr sample_flows" sample_stages]
  show ?thesis by auto
qed

definition sample_saved :: staging where
  "sample_saved = (initial 1 (sample_flows\<lparr>Systems := sample_systems\<rparr>))\<lparr>dat :=
     \<lparr>store = (\<lambda>_. sample_flows\<lparr>Systems := sample_systems\<rparr>), next_ds = 2, Staged = 1, RawData = Some 0, Serving = None, LastRunning = Some 0\<rparr>\<rparr>"

theorem RollBack_modifies_saved_witness:
  "\<exists>D. stage_work sample_stages 0 2 (dat (RollBack sample_saved)) = Inr D \<and>
    (\<forall>st'. dat st' = D \<longrightarrow> Systems (store (dat (RollBack st')) (Staged (dat (RollBack st')))) = sample_extended [''prod'', ''k8s'', ''slack''])"
proof -
  have "(case extendAllSystems last_wins 3 [''prod'', ''k8s'', ''slack''] sample_systems of Inr S \<Rightarrow> True | Inl _ \<Rightarrow> False)" by code_simp
  then have "extendAllSystems last_wins 3 [''prod'', ''k8s'', ''slack''] sample_systems = Inr (sample_extended [''prod'', ''k8s'', ''slack''])"
    by (auto simp: sample_extended_def split: sum.splits)
  moreover have "map fst sample_systems = [''prod'', ''k8s'', ''slack'']" by (simp add: sample_systems_def)
  ultimately obtain D where "stage_work sample_stages 0 2 (dat (RollBack sample_saved)) = Inr D"
    "\<forall>st'. dat st' = D \<longrightarrow> store (dat (RollBack st')) (Staged (dat (RollBack st'))) =
      (store (dat sample_saved) 0)\<lparr>Systems := sample_extended [''prod'', ''k8s'', ''slack'']\<rparr>"
    using RollBack_modifies_saved [of sample_saved 0 sample_stages 0 "sample_extended [''prod'', ''k8s'', ''slack'']"]
    by (auto simp: sample_saved_def sample_stages_def)
  then show ?thesis by auto
qed

end
