(* ===== verification/Runtime.thy ===== *)
theory Runtime
  imports Rpc Config Condition Paths
begin

text \<open>
  \<open>internal/service/service.go\<close> and \<open>internal/driver\<close>: the drivers a service runs for its features, the
  messages it expects from them, the routing of calls between drivers, and draining.

  Runtimes live in a heap because the service keeps pointers to them in a map and in goroutines. A
  goroutine that is started is an entry of \<open>jobs\<close>, with the function that runs it later; \<open>effects\<close> records
  what leaves the service. The handlers of expected messages all mark the driver of a feature alive, so
  a handler is the name of its feature. \<open>driver_env\<close> holds what is outside: decoding of the driver
  definition, the path of the builtin drivers, starting a process and writing to its pipe.
\<close>

section \<open>Drivers\<close>

datatype dstate = DriverLoading | DriverReloading | DriverAlive | DriverFailed | DriverStopped

fun state_code :: "dstate \<Rightarrow> nat" where
  "state_code DriverLoading = 0"
| "state_code DriverReloading = 1"
| "state_code DriverAlive = 2"
| "state_code DriverFailed = 3"
| "state_code DriverStopped = 4"

lemma state_code_inj: "state_code a = state_code b \<Longrightarrow> a = b"
  by (cases a; cases b) simp_all

instantiation dstate :: linorder
begin

definition "a \<le> b \<longleftrightarrow> state_code a \<le> state_code b" for a b :: dstate

definition "a < b \<longleftrightarrow> state_code a < state_code b" for a b :: dstate

instance
  by standard (auto simp: less_eq_dstate_def less_dstate_def intro: state_code_inj)

end

record Meta =
  m_Name :: string
  m_Type :: string
  m_Executable :: string
  m_Arguments :: "string list"
  m_HandlerData :: "gmap option"

record Runtime =
  rt_Data :: gval
  rt_DynamicData :: gval
  rt_Feature :: string
  rt_Meta :: Meta
  rt_Service :: string
  rt_State :: dstate
  rt_sent :: "Message list"
  rt_closed :: bool

record driver_env =
  de_ext :: ext
  de_decode :: "gmap \<Rightarrow> Meta res"
  de_builtinPath :: string
  de_start :: "Meta \<Rightarrow> string \<Rightarrow> gopanic option"
  de_write :: "nat \<Rightarrow> Message \<Rightarrow> gopanic option"

definition Builtin_Acquire :: "driver_env \<Rightarrow> Meta \<Rightarrow> Meta res" where
  "Builtin_Acquire E meta = (case map_of (omap (m_HandlerData meta)) ''shortName'' of
      Some (GStr shortName) \<Rightarrow>
        if shortName = [] then Inl (PanicErr (''driver error: shortName is missing for builtin driver: '' @ m_Name meta))
        else if CHR ''/'' \<in> set shortName
        then Inl (PanicErr (''driver error: shortName has path separator in driver: '' @ m_Name meta))
        else Inr (meta\<lparr>m_Executable := path_Join (de_builtinPath E) shortName\<rparr>)
    | _ \<Rightarrow> Inl (PanicErr (''driver error: shortName is missing for builtin driver: '' @ m_Name meta)))"

definition Builtin_Prepare :: "driver_env \<Rightarrow> Meta \<Rightarrow> Meta res" where
  "Builtin_Prepare E meta = (case map_of (omap (m_HandlerData meta)) ''arguments'' of
      None \<Rightarrow> Inr meta
    | Some (GList args) \<Rightarrow> Inr (meta\<lparr>m_Arguments := m_Arguments meta @ map (fmt_v (de_ext E)) args\<rparr>)
    | Some _ \<Rightarrow> Inl (PanicErr (''driver error: arguments in driver '' @ m_Name meta @ '' should be a list of strings'')))"

definition driver_meta :: "driver_env \<Rightarrow> Meta \<Rightarrow> Meta res" where
  "driver_meta E meta =
    (if m_Name meta = [] then Inl (PanicErr ''driver error: driver name missing'')
     else if m_Type meta = ''builtin'' then rbind (Builtin_Acquire E meta) (Builtin_Prepare E)
     else if m_Type meta = ''null'' then Inr meta
     else Inl (PanicErr (''driver error: unsupported driver type: '' @ m_Type meta)))"

definition NewDriver :: "driver_env \<Rightarrow> string \<Rightarrow> gmap \<Rightarrow> gval \<Rightarrow> gval \<Rightarrow> Runtime res" where
  "NewDriver E feature metaData driverData dynamicData =
    rbind (de_decode E metaData) (\<lambda>decoded.
    rbind (driver_meta E decoded) (\<lambda>meta.
    Inr \<lparr>rt_Data = driverData, rt_DynamicData = dynamicData, rt_Feature = feature, rt_Meta = meta, rt_Service = [],
      rt_State = DriverLoading, rt_sent = [], rt_closed = False\<rparr>))"

definition option_messages :: "Runtime \<Rightarrow> Message list" where
  "option_messages r =
    [zero_message\<lparr>Channel := ''command'', Subject := ''options'',
       Payload := PVal (GMap [(''data'', rt_Data r), (''dynamicData'', rt_DynamicData r)])\<rparr>,
     zero_message\<lparr>Channel := ''command'', Subject := ''start''\<rparr>]"

section \<open>Services\<close>

definition FeatureEmitter :: string where
  "FeatureEmitter = ''emitter''"

definition DriverRetryCount :: nat where
  "DriverRetryCount = 3"

datatype except =
    StartFailed string
  | ReloadFailed string string
  | FeatureFailed string
  | Retry nat nat

datatype job =
    WaitExit nat
  | CloseLater nat
  | ExpectTimeout string except
  | LoadFailed nat nat

datatype effect = RollBackConfig | RefreshConfig | ForcedReload bool | Exit string

record Service =
  sv_name :: string
  sv_daemonID :: string
  sv_master :: bool
  sv_drivers :: "gmap option"
  sv_dynamic :: gmap
  sv_runtimes :: "(string, nat option) gomap"
  sv_heap :: "nat \<Rightarrow> Runtime"
  sv_next :: nat
  sv_expects :: "(string, string list) gomap"
  sv_emitter :: bool
  sv_draining :: "int option"
  sv_rpc :: RPCCallerBase
  sv_jobs :: "job list"
  sv_effects :: "effect list"

text \<open>\<open>GetStagedDriverData\<close> and \<open>GetStagedDriverDataStr\<close> on the drivers of the staged configuration.\<close>

definition GetStagedDriverData :: "gmap option \<Rightarrow> string \<Rightarrow> gval option" where
  "GetStagedDriverData drivers path = (case drivers of None \<Rightarrow> None | Some d \<Rightarrow> GetMapData (GMap d) path)"

definition GetStagedDriverDataStr :: "gmap option \<Rightarrow> string \<Rightarrow> string option" where
  "GetStagedDriverDataStr drivers path = (case drivers of None \<Rightarrow> None | Some d \<Rightarrow> GetMapDataStr (GMap d) path)"

definition getDriverRuntime :: "Service \<Rightarrow> string \<Rightarrow> nat option" where
  "getDriverRuntime s feature = (case LockGetMap (Some (sv_runtimes s)) feature of None \<Rightarrow> None | Some r \<Rightarrow> r)"

definition setDriverRuntime :: "string \<Rightarrow> nat \<Rightarrow> Service \<Rightarrow> Service" where
  "setDriverRuntime feature a s = s\<lparr>sv_runtimes := mput feature (Some a) (sv_runtimes s)\<rparr>"

text \<open>The second argument is a pointer: as an \<open>interface{}\<close> it is not nil even when the pointer is.\<close>

definition checkDeleteDriverRuntime :: "string \<Rightarrow> nat option \<Rightarrow> Service \<Rightarrow> Service" where
  "checkDeleteDriverRuntime feature check s =
     s\<lparr>sv_runtimes := the (snd (LockCheckDeleteMap (Some (sv_runtimes s)) feature (Iface check)))\<rparr>"

definition set_runtime :: "nat \<Rightarrow> Runtime \<Rightarrow> Service \<Rightarrow> Service" where
  "set_runtime a r s = s\<lparr>sv_heap := (sv_heap s)(a := r)\<rparr>"

definition set_state :: "nat \<Rightarrow> dstate \<Rightarrow> Service \<Rightarrow> Service" where
  "set_state a d s = set_runtime a ((sv_heap s a)\<lparr>rt_State := d\<rparr>) s"

text \<open>\<open>s.driverRuntimes[feature].State = d\<close>\<close>

definition feature_state :: "string \<Rightarrow> dstate \<Rightarrow> Service act" where
  "feature_state feature d s = (case map_of (sv_runtimes s) feature of
      Some (Some a) \<Rightarrow> (set_state a d s, None)
    | _ \<Rightarrow> (s, Some NilDereference))"

definition spawn_job :: "job \<Rightarrow> Service \<Rightarrow> Service" where
  "spawn_job j s = s\<lparr>sv_jobs := sv_jobs s @ [j]\<rparr>"

definition emit :: "effect \<Rightarrow> Service \<Rightarrow> Service" where
  "emit x s = s\<lparr>sv_effects := sv_effects s @ [x]\<rparr>"

definition Runtime_SendMessage :: "driver_env \<Rightarrow> nat \<Rightarrow> Message \<Rightarrow> Service act" where
  "Runtime_SendMessage E a msg s = (case de_write E a msg of
      Some e \<Rightarrow> (s, Some e)
    | None \<Rightarrow> (set_runtime a ((sv_heap s a)\<lparr>rt_sent := rt_sent (sv_heap s a) @ [msg]\<rparr>) s, None))"

definition SendOptions :: "driver_env \<Rightarrow> nat \<Rightarrow> Service act" where
  "SendOptions E a s = load_each (Runtime_SendMessage E a) (option_messages (sv_heap s a)) s"

section \<open>Loading features\<close>

definition hotReload :: "driver_env \<Rightarrow> Runtime \<Rightarrow> nat \<Rightarrow> Service act" where
  "hotReload E new old s = SendOptions E old (set_runtime old ((sv_heap s old)\<lparr>rt_Data := rt_Data new,
     rt_DynamicData := rt_DynamicData new, rt_State := DriverReloading\<rparr>) s)"

text \<open>The new runtime gets the next free address.\<close>

definition replace_runtime :: "nat \<Rightarrow> nat option \<Rightarrow> Service act" where
  "replace_runtime a old s = (let feature = rt_Feature (sv_heap s a);
       s1 = spawn_job (WaitExit a) (setDriverRuntime feature a s) in
     case old of
       None \<Rightarrow> (s1, None)
     | Some b \<Rightarrow> (spawn_job (CloseLater b) ((checkDeleteDriverRuntime feature None s1)
         \<lparr>sv_emitter := (if feature = FeatureEmitter then False else sv_emitter s1)\<rparr>), None))"

definition coldReload :: "driver_env \<Rightarrow> Runtime \<Rightarrow> nat option \<Rightarrow> Service act" where
  "coldReload E new old s = (case de_start E (rt_Meta new) (sv_name s) of
      Some e \<Rightarrow> (s, Some e)
    | None \<Rightarrow> (let a = sv_next s; s1 = (set_runtime a (new\<lparr>rt_Service := sv_name s\<rparr>) s)\<lparr>sv_next := Suc a\<rparr> in
        lseq (SendOptions E a) (replace_runtime a old) s1))"

definition feature_driver :: "Service \<Rightarrow> string \<Rightarrow> string res" where
  "feature_driver s feature =
    (if has_prefix feature ''driver:'' then Inr (drop 7 feature)
     else (case GetStagedDriverDataStr (sv_drivers s) (''daemon.featureMap.'' @ sv_name s @ ''.'' @ feature) of
         Some name \<Rightarrow> Inr name
       | None \<Rightarrow> (case GetStagedDriverDataStr (sv_drivers s) (''daemon.featureMap.global.'' @ feature) of
           Some name \<Rightarrow> Inr name
         | None \<Rightarrow> Inl (PanicStr ''driver not defined for the feature''))))"

definition feature_runtime :: "driver_env \<Rightarrow> Service \<Rightarrow> string \<Rightarrow> string \<Rightarrow> Runtime res" where
  "feature_runtime E s feature driverName =
    (let or_nil = (\<lambda>v. case v of None \<Rightarrow> GNil | Some x \<Rightarrow> x);
         driverData = or_nil (GetStagedDriverData (sv_drivers s) driverName);
         dynamicData = (if has_prefix feature ''driver:'' then or_nil (map_of (sv_dynamic s) feature) else GNil) in
     case GetStagedDriverData (sv_drivers s) (''daemon.drivers.'' @ driverName) of
       None \<Rightarrow> Inl (PanicStr ''unable to get driver metadata'')
     | Some driverMeta \<Rightarrow>
         rbind (assert_type (as_map driverMeta)) (\<lambda>m. NewDriver E feature m driverData dynamicData))"

text \<open>
  \<open>reflect.DeepEqual\<close> on the values of the configuration. The order of the entries of a map does not
  count.
\<close>

function deep_equal :: "gval \<Rightarrow> gval \<Rightarrow> bool" where
  "deep_equal v w = (case (v, w) of
      (GMap m, GMap m') \<Rightarrow> length m = length m' \<and>
        list_all (\<lambda>(k, x). case map_of m' k of None \<Rightarrow> False | Some y \<Rightarrow> deep_equal x y) m
    | (GList xs, GList ys) \<Rightarrow> list_all2 deep_equal xs ys
    | _ \<Rightarrow> v = w)"
  by pat_completeness auto

termination
  by (relation "measure (\<lambda>(v, w). size v)") auto

declare deep_equal.simps [simp del]

definition meta_equal :: "Meta \<Rightarrow> Meta \<Rightarrow> bool" where
  "meta_equal m m' \<longleftrightarrow> m_Name m = m_Name m' \<and> m_Type m = m_Type m' \<and> m_Executable m = m_Executable m' \<and>
     m_Arguments m = m_Arguments m' \<and> (case (m_HandlerData m, m_HandlerData m') of
        (None, None) \<Rightarrow> True
      | (Some d, Some d') \<Rightarrow> deep_equal (GMap d) (GMap d')
      | _ \<Rightarrow> False)"

definition mark_failed :: "string \<Rightarrow> Service \<Rightarrow> Service" where
  "mark_failed feature s = (case getDriverRuntime s feature of None \<Rightarrow> s | Some a \<Rightarrow> set_state a DriverFailed s)"

text \<open>The result: whether the driver is affected, its name, and the error if there is one.\<close>

definition reload_result :: "string \<Rightarrow> string \<Rightarrow> Service \<times> gopanic option \<Rightarrow> Service \<times> bool \<times> string \<times> gopanic option" where
  "reload_result feature driverName r = (case r of
      (s, None) \<Rightarrow> (s, True, driverName, None)
    | (s, Some e) \<Rightarrow> (mark_failed feature s, True, driverName, Some e))"

definition loadFeature :: "driver_env \<Rightarrow> string \<Rightarrow> Service \<Rightarrow> Service \<times> bool \<times> string \<times> gopanic option" where
  "loadFeature E feature s = (let oldRuntime = getDriverRuntime s feature in
     case feature_driver s feature of
       Inl e \<Rightarrow> (mark_failed feature s, False, [], Some e)
     | Inr driverName \<Rightarrow> (case feature_runtime E s feature driverName of
         Inl e \<Rightarrow> (mark_failed feature s, False, driverName, Some e)
       | Inr new \<Rightarrow> (case oldRuntime of
           None \<Rightarrow> reload_result feature driverName (coldReload E new None s)
         | Some a \<Rightarrow> (let old = sv_heap s a in
             if rt_State old \<noteq> DriverFailed \<and> meta_equal (rt_Meta old) (rt_Meta new) then
               (if deep_equal (rt_Data old) (rt_Data new) \<and> deep_equal (rt_DynamicData old) (rt_DynamicData new)
                then (s, False, driverName, None)
                else reload_result feature driverName (hotReload E new a s))
             else reload_result feature driverName (coldReload E new (Some a) s)))))"

section \<open>Expected messages\<close>

definition addExpect :: "string \<Rightarrow> string \<Rightarrow> except \<Rightarrow> Service \<Rightarrow> Service" where
  "addExpect expectKey processor exc s = spawn_job (ExpectTimeout expectKey exc)
     (s\<lparr>sv_expects := mput expectKey ((case map_of (sv_expects s) expectKey of None \<Rightarrow> [] | Some es \<Rightarrow> es) @ [processor]) (sv_expects s)\<rparr>)"

definition isExpecting :: "Service \<Rightarrow> string \<Rightarrow> string list option" where
  "isExpecting s expectKey = map_of (sv_expects s) expectKey"

definition deleteExpect :: "string \<Rightarrow> Service \<Rightarrow> string list option \<times> Service" where
  "deleteExpect expectKey s = (case map_of (sv_expects s) expectKey of
      None \<Rightarrow> (None, s)
    | Some es \<Rightarrow> (Some es, s\<lparr>sv_expects := mdel expectKey (sv_expects s)\<rparr>))"

text \<open>The handler of an expected message.\<close>

definition driver_alive :: "string \<Rightarrow> Service act" where
  "driver_alive feature s = lseq (feature_state feature DriverAlive)
     (\<lambda>s1. (s1\<lparr>sv_emitter := (if feature = FeatureEmitter then True else sv_emitter s1)\<rparr>, None)) s"

definition retry_load :: "nat \<Rightarrow> nat \<Rightarrow> Service \<Rightarrow> Service" where
  "retry_load a count s = (if count < DriverRetryCount then spawn_job (LoadFailed a (Suc count)) s
     else emit (Exit (''quiting after failed to reload crashed driver '' @ m_Name (rt_Meta (sv_heap s a)))) s)"

definition run_except :: "except \<Rightarrow> Service act" where
  "run_except exc s = (case exc of
      StartFailed driverName \<Rightarrow> (emit (Exit (''failed to start driver '' @ driverName)) s, None)
    | ReloadFailed feature driverName \<Rightarrow>
        lseq (feature_state feature DriverFailed) (\<lambda>s1. (emit RollBackConfig s1, None)) s
    | FeatureFailed feature \<Rightarrow> feature_state feature DriverFailed s
    | Retry a count \<Rightarrow> (retry_load a count s, None))"

text \<open>
  The goroutine of \<open>addExpect\<close> after the time-out. The loop that looks for the handler compares the
  address of an element of the list with the address of the parameter, which are never equal, so it
  removes nothing; a list of one element is removed whole.
\<close>

definition expect_timeout :: "string \<Rightarrow> except \<Rightarrow> Service \<Rightarrow> Service" where
  "expect_timeout expectKey exc s = (case isExpecting s expectKey of
      None \<Rightarrow> s
    | Some es \<Rightarrow> lcatch (run_except exc)
        (if length es > 1 then s else s\<lparr>sv_expects := mdel expectKey (sv_expects s)\<rparr>))"

definition alive_key :: "string \<Rightarrow> string" where
  "alive_key driverName = ''state:alive:'' @ driverName"

section \<open>Feature lists\<close>

fun add_features :: "gval list \<Rightarrow> (string, bool) gomap \<Rightarrow> (string, bool) gomap res" where
  "add_features [] featureList = Inr featureList"
| "add_features (feature # fs) featureList =
     rbind (assert_type (as_map feature)) (\<lambda>m.
     rbind (assert_type (case map_of m ''name'' of None \<Rightarrow> None | Some v \<Rightarrow> as_str v)) (\<lambda>featureName.
     add_features fs (mput featureName (fst (GetMapDataBool feature ''required'')) featureList)))"

definition features_of :: "Service \<Rightarrow> string \<Rightarrow> (string, bool) gomap \<Rightarrow> (string, bool) gomap res" where
  "features_of s which featureList = (case GetStagedDriverData (sv_drivers s) (''daemon.features.'' @ which) of
      None \<Rightarrow> Inr featureList
    | Some cfgItem \<Rightarrow> rbind (assert_type (as_list cfgItem)) (\<lambda>fs. add_features fs featureList))"

definition getFeatureList :: "Service \<Rightarrow> (string, bool) gomap res" where
  "getFeatureList s = rbind (features_of s ''global'' []) (features_of s (sv_name s))"

definition remove_feature :: "(string, bool) gomap \<Rightarrow> string \<times> nat option \<Rightarrow> Service \<Rightarrow> Service" where
  "remove_feature featureList fr s = (case fr of (feature, runtime) \<Rightarrow>
     if map_of featureList feature \<noteq> None then s
     else (let s1 = checkDeleteDriverRuntime feature None
             (s\<lparr>sv_emitter := (if feature = FeatureEmitter then False else sv_emitter s)\<rparr>) in
       case runtime of None \<Rightarrow> s1 | Some a \<Rightarrow> spawn_job (CloseLater a) s1))"

definition removeUnusedFeatures :: "(string, bool) gomap \<Rightarrow> Service \<Rightarrow> Service" where
  "removeUnusedFeatures featureList s = fold (remove_feature featureList) (sv_runtimes s) s"

definition load_required :: "driver_env \<Rightarrow> bool \<Rightarrow> string \<times> bool \<Rightarrow> Service act" where
  "load_required E boot fr s = (case fr of (feature, required) \<Rightarrow>
     if \<not> required then (s, None)
     else (case loadFeature E feature s of
         (s1, affected, driverName, Some e) \<Rightarrow>
           (if boot then (emit (Exit (''failed to load required feature '' @ feature)) s1, Some (FatalError ''exit''))
            else (s1, Some (PanicStr (''failed to reload required feature '' @ feature))))
       | (s1, affected, driverName, None) \<Rightarrow>
           ((if affected then addExpect (alive_key driverName) feature
               (if boot then StartFailed driverName else ReloadFailed feature driverName) s1
             else s1), None)))"

definition loadRequiredFeatures :: "driver_env \<Rightarrow> (string, bool) gomap \<Rightarrow> bool \<Rightarrow> Service act" where
  "loadRequiredFeatures E featureList boot = load_each (load_required E boot) featureList"

definition load_additional :: "driver_env \<Rightarrow> string \<times> bool \<Rightarrow> Service \<Rightarrow> Service" where
  "load_additional E fr s = (case fr of (feature, required) \<Rightarrow>
     if required then s
     else (case loadFeature E feature s of (s1, affected, driverName, err) \<Rightarrow>
       if affected then addExpect (alive_key driverName) feature (FeatureFailed feature) s1 else s1))"

text \<open>\<open>discovered\<close> is the result of \<open>DiscoverFeatures\<close>, if the service has one.\<close>

definition loadAdditionalFeatures :: "driver_env \<Rightarrow> gmap option \<Rightarrow> (string, bool) gomap \<Rightarrow> Service \<Rightarrow> Service" where
  "loadAdditionalFeatures E discovered featureList s = (case discovered of
      None \<Rightarrow> fold (load_additional E) featureList s
    | Some dyn \<Rightarrow> fold (load_additional E) (fold (\<lambda>(name, _). mput name False) dyn featureList) (s\<lparr>sv_dynamic := dyn\<rparr>))"

section \<open>Failing drivers\<close>

definition coldReloadDriverRuntime :: "driver_env \<Rightarrow> nat \<Rightarrow> Service act" where
  "coldReloadDriverRuntime E a s = (let feature = rt_Feature (sv_heap s a);
       s1 = set_runtime a ((sv_heap s a)\<lparr>rt_closed := True\<rparr>) (checkDeleteDriverRuntime feature (Some a) s) in
     case loadFeature E feature s1 of (s2, _, _, err) \<Rightarrow> (s2, err))"

definition loadFailedDriverRuntime :: "driver_env \<Rightarrow> nat \<Rightarrow> nat \<Rightarrow> Service \<Rightarrow> Service" where
  "loadFailedDriverRuntime E a count s = (let s1 = set_state a DriverFailed s; driverName = m_Name (rt_Meta (sv_heap s a)) in
     case loadFeature E (rt_Feature (sv_heap s a)) s1 of
       (s2, _, _, Some e) \<Rightarrow> retry_load a count s2
     | (s2, _, _, None) \<Rightarrow> addExpect (alive_key driverName) (rt_Feature (sv_heap s a)) (Retry a count) s2)"

text \<open>The service loop finds the stream of a driver closed.\<close>

definition driver_crashed :: "nat \<Rightarrow> Service \<Rightarrow> Service" where
  "driver_crashed a s = (let r = sv_heap s a;
       s1 = s\<lparr>sv_emitter := (if rt_Feature r = FeatureEmitter then False else sv_emitter s)\<rparr> in
     if rt_State r = DriverAlive then spawn_job (LoadFailed a 0) s1 else s1)"

definition run_job :: "driver_env \<Rightarrow> job \<Rightarrow> Service \<Rightarrow> Service" where
  "run_job E j s = (case j of
      WaitExit a \<Rightarrow> checkDeleteDriverRuntime (rt_Feature (sv_heap s a)) (Some a) (set_runtime a ((sv_heap s a)\<lparr>rt_closed := True\<rparr>) s)
    | CloseLater a \<Rightarrow> set_runtime a ((sv_heap s a)\<lparr>rt_closed := True\<rparr>) s
    | ExpectTimeout expectKey exc \<Rightarrow> expect_timeout expectKey exc s
    | LoadFailed a count \<Rightarrow> loadFailedDriverRuntime E a count s)"

section \<open>Messages\<close>

text \<open>The sending of a routed message to the driver of a feature; a feature that is not loaded is a nil pointer.\<close>

definition send_to :: "driver_env \<Rightarrow> string \<Rightarrow> Message \<Rightarrow> Service act" where
  "send_to E feature m s = (case getDriverRuntime s feature of
      None \<Rightarrow> (s, Some NilDereference)
    | Some a \<Rightarrow> Runtime_SendMessage E a m s)"

definition handleRPCCall :: "driver_env \<Rightarrow> nat \<Rightarrow> Message \<Rightarrow> Service act" where
  "handleRPCCall E from m s =
     lget (set_label ''caller'' (rt_Feature (sv_heap s from)) m) (send_to E (label_str m ''feature'')) s"

definition handleRPCReturn :: "driver_env \<Rightarrow> nat \<Rightarrow> Message \<Rightarrow> Service \<Rightarrow> (Service \<times> gopanic option) option" where
  "handleRPCReturn E from m s = (let caller = label_str m ''caller'' in
     if caller = ''-'' then map_option (\<lambda>c. (s\<lparr>sv_rpc := c\<rparr>, None)) (HandleReturn m (sv_rpc s))
     else Some (send_to E caller m s))"

definition handleReload :: "ext \<Rightarrow> Message \<Rightarrow> Service \<Rightarrow> Service" where
  "handleReload X msg s =
    (if label msg ''daemonID'' \<noteq> None \<and> label msg ''daemonID'' \<noteq> Some (sv_daemonID s) then s
     else (case DeserializePayload X msg of
         Inl e \<Rightarrow> s
       | Inr m \<Rightarrow> (let force = (case GetMapData (payload_val m) ''force'' of None \<Rightarrow> False | Some f \<Rightarrow> IsTruthy f) in
           if \<not> force then (if sv_master s then emit RefreshConfig s else s)
           else emit (ForcedReload (sv_master s)) s)))"

definition handleDriverStop :: "nat \<Rightarrow> Service act" where
  "handleDriverStop from s =
    (if rt_State (sv_heap s from) = DriverStopped then (s, None)
     else (let s1 = set_state from DriverStopped s in
       case sv_draining s of
         None \<Rightarrow> (s1, Some NilDereference)
       | Some c \<Rightarrow> (s1\<lparr>sv_draining := Some (c - 1)\<rparr>, if c - 1 < 0 then Some (PanicStr ''sync: negative WaitGroup counter'') else None)))"

definition drains :: "Service \<Rightarrow> nat \<Rightarrow> bool" where
  "drains s a \<longleftrightarrow> rt_State (sv_heap s a) \<noteq> DriverFailed \<and> rt_State (sv_heap s a) \<noteq> DriverStopped"

definition running_drivers :: "Service \<Rightarrow> nat list" where
  "running_drivers s = [a. (feature, Some a) \<leftarrow> sv_runtimes s, drains s a]"

text \<open>The part of \<open>Drain\<close> before it waits for the drivers.\<close>

definition Drain_begin :: "driver_env \<Rightarrow> Service act" where
  "Drain_begin E s = (let ds = running_drivers s in
     if ds = [] then (s, None)
     else load_each (\<lambda>a. Runtime_SendMessage E a (zero_message\<lparr>Channel := ''command'', Subject := ''stop''\<rparr>)) ds
       (s\<lparr>sv_draining := Some (int (length ds))\<rparr>))"

text \<open>
  Responders of the service, run in goroutines that recover; \<open>None\<close> is a goroutine that blocks. The
  responder of \<open>api:call\<close> only starts the function of the call and changes nothing here.
\<close>

definition respond :: "driver_env \<Rightarrow> string \<Rightarrow> nat \<Rightarrow> Message \<Rightarrow> Service \<Rightarrow> Service" where
  "respond E subject from msg s =
    (if subject = ''state:cold'' then lcatch (coldReloadDriverRuntime E from) s
     else if subject = ''state:stopped'' then lcatch (handleDriverStop from) s
     else if subject = ''rpc:call'' then lcatch (handleRPCCall E from msg) s
     else if subject = ''rpc:return'' then (case handleRPCReturn E from msg s of None \<Rightarrow> s | Some r \<Rightarrow> fst r)
     else if subject = ''broadcast:reload'' then handleReload (de_ext E) msg s
     else s)"

fun transform :: "(Message \<Rightarrow> Message option) list \<Rightarrow> Message \<Rightarrow> Message option" where
  "transform [] msg = Some msg"
| "transform (f # fs) msg = (case f msg of None \<Rightarrow> None | Some m \<Rightarrow> transform fs m)"

text \<open>\<open>route\<close> is the router of the service, which names the features the messages go to.\<close>

definition process :: "driver_env \<Rightarrow> (string \<Rightarrow> (Message \<Rightarrow> Message option) list) \<Rightarrow> (Message \<Rightarrow> (string \<times> Message) list res) \<Rightarrow>
    Message \<Rightarrow> nat \<Rightarrow> Service \<Rightarrow> Service" where
  "process E transformers route msg from s =
    (let key = Channel msg @ '':'' @ Subject msg;
         s1 = (case deleteExpect (key @ '':'' @ m_Name (rt_Meta (sv_heap s from))) s of
           (None, s') \<Rightarrow> s'
         | (Some es, s') \<Rightarrow> fold (\<lambda>f. lcatch (driver_alive f)) es s');
         s2 = respond E key from msg s1 in
     case transform (transformers key) msg of
       None \<Rightarrow> s2
     | Some m \<Rightarrow> lcatch (lget (route m) (load_each (\<lambda>(feature, m'). send_to E feature m'))) s2)"

section \<open>Well-formed services\<close>

text \<open>The runtimes registered are allocated, and each is registered under its own feature.\<close>

definition svc_ok :: "Service \<Rightarrow> bool" where
  "svc_ok s \<longleftrightarrow> (\<forall>feature r. map_of (sv_runtimes s) feature = Some r \<longrightarrow>
     (\<exists>a. r = Some a \<and> a < sv_next s \<and> rt_Feature (sv_heap s a) = feature))"

lemma svc_okI:
  "(\<And>feature r. map_of (sv_runtimes s) feature = Some r \<Longrightarrow> \<exists>a. r = Some a \<and> a < sv_next s \<and> rt_Feature (sv_heap s a) = feature) \<Longrightarrow> svc_ok s"
  by (simp add: svc_ok_def)

lemma svc_ok_upd [simp]:
  "svc_ok (s\<lparr>sv_expects := x\<rparr>) = svc_ok s" "svc_ok (s\<lparr>sv_emitter := b\<rparr>) = svc_ok s" "svc_ok (s\<lparr>sv_draining := d\<rparr>) = svc_ok s"
  "svc_ok (s\<lparr>sv_rpc := c\<rparr>) = svc_ok s" "svc_ok (s\<lparr>sv_dynamic := y\<rparr>) = svc_ok s" "svc_ok (spawn_job j s) = svc_ok s"
  "svc_ok (emit e s) = svc_ok s"
  by (simp_all add: svc_ok_def spawn_job_def emit_def)

lemma svc_ok_set_runtime:
  "svc_ok s \<Longrightarrow> rt_Feature r = rt_Feature (sv_heap s a) \<Longrightarrow> svc_ok (set_runtime a r s)"
  unfolding svc_ok_def set_runtime_def by fastforce

lemma svc_ok_set_state: "svc_ok s \<Longrightarrow> svc_ok (set_state a d s)"
  by (simp add: set_state_def svc_ok_set_runtime)

lemma svc_ok_checkDelete: "svc_ok s \<Longrightarrow> svc_ok (checkDeleteDriverRuntime feature check s)"
  by (auto simp: svc_ok_def checkDeleteDriverRuntime_def LockCheckDeleteMap_def Let_def split: option.splits if_splits)

text \<open>A nil pointer never equals a registered runtime, so nothing is deleted.\<close>

lemma checkDelete_nil: "svc_ok s \<Longrightarrow> checkDeleteDriverRuntime feature None s = s"
  by (auto simp: svc_ok_def checkDeleteDriverRuntime_def LockCheckDeleteMap_def Let_def split: option.split)

lemma feature_state_ok: "svc_ok s \<Longrightarrow> svc_ok (fst (feature_state feature d s))"
  by (auto simp: feature_state_def svc_ok_set_state split: option.split)

lemma send_ok: "svc_ok s \<Longrightarrow> svc_ok (fst (Runtime_SendMessage E a m s))"
  by (auto simp: Runtime_SendMessage_def svc_ok_set_runtime split: option.split)

lemma lseq_ok: "(\<And>s. P s \<Longrightarrow> P (fst (f s))) \<Longrightarrow> (\<And>s. P s \<Longrightarrow> P (fst (g s))) \<Longrightarrow> P s \<Longrightarrow> P (fst (lseq f g s))"
  by (auto simp: lseq_def split: prod.split option.split) (metis fst_conv)+

lemma load_each_ok: "(\<And>x s. P s \<Longrightarrow> P (fst (f x s))) \<Longrightarrow> P s \<Longrightarrow> P (fst (load_each f xs s))"
proof (induction xs arbitrary: s)
  case (Cons x xs)
  then show ?case by (auto intro: lseq_ok)
qed simp

lemma fold_ok: "(\<And>x s. P s \<Longrightarrow> P (f x s)) \<Longrightarrow> P s \<Longrightarrow> P (fold f xs s)"
  by (induction xs arbitrary: s) auto

lemma SendOptions_ok: "svc_ok s \<Longrightarrow> svc_ok (fst (SendOptions E a s))"
  unfolding SendOptions_def by (rule load_each_ok [where P = svc_ok]) (rule send_ok)

lemma hotReload_ok: "svc_ok s \<Longrightarrow> svc_ok (fst (hotReload E new old s))"
  unfolding hotReload_def by (intro SendOptions_ok svc_ok_set_runtime) simp_all

text \<open>Sending changes neither the features of the runtimes nor what is registered.\<close>

lemma send_keeps:
  "sv_runtimes (fst (Runtime_SendMessage E a m s)) = sv_runtimes s" "sv_next (fst (Runtime_SendMessage E a m s)) = sv_next s"
  "rt_Feature (sv_heap (fst (Runtime_SendMessage E a m s)) b) = rt_Feature (sv_heap s b)"
  by (auto simp: Runtime_SendMessage_def set_runtime_def split: option.split)

lemma SendOptions_keeps:
  "sv_runtimes (fst (SendOptions E a s)) = sv_runtimes s \<and> sv_next (fst (SendOptions E a s)) = sv_next s \<and>
   rt_Feature (sv_heap (fst (SendOptions E a s)) b) = rt_Feature (sv_heap s b)"
  unfolding SendOptions_def
  by (rule load_each_ok [where P = "\<lambda>s'. sv_runtimes s' = sv_runtimes s \<and> sv_next s' = sv_next s \<and> rt_Feature (sv_heap s' b) = rt_Feature (sv_heap s b)"])
    (simp_all add: send_keeps)

lemma svc_ok_register:
  assumes "svc_ok s" and "a < sv_next s" and "feature = rt_Feature (sv_heap s a)"
  shows "svc_ok (setDriverRuntime feature a s)"
  using assms by (auto simp: svc_ok_def setDriverRuntime_def)

lemma replace_runtime_ok: "svc_ok s \<Longrightarrow> a < sv_next s \<Longrightarrow> svc_ok (fst (replace_runtime a old s))"
  by (auto simp: replace_runtime_def Let_def svc_ok_register svc_ok_checkDelete split: option.split)

lemma coldReload_ok:
  assumes "svc_ok s"
  shows "svc_ok (fst (coldReload E new old s))"
proof (cases "de_start E (rt_Meta new) (sv_name s)")
  case None
  let ?a = "sv_next s"
  let ?s1 = "(set_runtime ?a (new\<lparr>rt_Service := sv_name s\<rparr>) s)\<lparr>sv_next := Suc ?a\<rparr>"
  have "svc_ok ?s1" using assms unfolding svc_ok_def set_runtime_def by fastforce
  then have "svc_ok (fst (SendOptions E ?a ?s1))" by (rule SendOptions_ok)
  moreover have "?a < sv_next (fst (SendOptions E ?a ?s1))" using SendOptions_keeps [of E ?a ?s1] by simp
  ultimately show ?thesis using None replace_runtime_ok [of "fst (SendOptions E ?a ?s1)" ?a old]
    by (cases "SendOptions E ?a ?s1"; cases "snd (SendOptions E ?a ?s1)") (simp_all add: coldReload_def Let_def lseq_def)
qed (simp add: coldReload_def assms)

lemma mark_failed_ok: "svc_ok s \<Longrightarrow> svc_ok (mark_failed feature s)"
  by (simp add: mark_failed_def svc_ok_set_state split: option.split)

lemma reload_result_ok: "svc_ok (fst r) \<Longrightarrow> svc_ok (fst (reload_result feature name r))"
  by (auto simp: reload_result_def mark_failed_ok split: prod.split option.split)

lemma loadFeature_ok: "svc_ok s \<Longrightarrow> svc_ok (fst (loadFeature E feature s))"
  unfolding loadFeature_def Let_def
  by (simp add: mark_failed_ok reload_result_ok coldReload_ok hotReload_ok split: sum.split option.split)

lemma addExpect_ok [simp]: "svc_ok (addExpect k f e s) = svc_ok s"
  by (simp add: addExpect_def)

lemma retry_load_ok [simp]: "svc_ok (retry_load a c s) = svc_ok s"
  by (simp add: retry_load_def)

lemma run_except_ok: "svc_ok s \<Longrightarrow> svc_ok (fst (run_except exc s))"
  by (cases exc) (simp_all add: run_except_def feature_state_ok lseq_ok [where P = svc_ok])

lemma expect_timeout_ok: "svc_ok s \<Longrightarrow> svc_ok (expect_timeout k e s)"
  by (auto simp: expect_timeout_def lcatch_def intro!: run_except_ok split: option.split)

lemma loadFailed_ok: "svc_ok s \<Longrightarrow> svc_ok (loadFailedDriverRuntime E a c s)"
  using loadFeature_ok [OF svc_ok_set_state [of s a DriverFailed], of E "rt_Feature (sv_heap s a)"]
  by (auto simp: loadFailedDriverRuntime_def Let_def split: prod.split option.split)

lemma run_job_ok: "svc_ok s \<Longrightarrow> svc_ok (run_job E j s)"
  by (cases j) (simp_all add: run_job_def svc_ok_checkDelete svc_ok_set_runtime expect_timeout_ok loadFailed_ok)

lemma driver_alive_ok: "svc_ok s \<Longrightarrow> svc_ok (fst (driver_alive feature s))"
  unfolding driver_alive_def by (rule lseq_ok [where P = svc_ok]) (simp_all add: feature_state_ok)

lemma send_to_ok: "svc_ok s \<Longrightarrow> svc_ok (fst (send_to E feature m s))"
  by (simp add: send_to_def send_ok split: option.split)

lemma coldReloadDriver_ok: "svc_ok s \<Longrightarrow> svc_ok (fst (coldReloadDriverRuntime E a s))"
proof -
  assume "svc_ok s"
  then have "svc_ok (set_runtime a ((sv_heap s a)\<lparr>rt_closed := True\<rparr>) (checkDeleteDriverRuntime (rt_Feature (sv_heap s a)) (Some a) s))"
    by (intro svc_ok_set_runtime svc_ok_checkDelete) (simp_all add: checkDeleteDriverRuntime_def)
  from loadFeature_ok [OF this, of E "rt_Feature (sv_heap s a)"] show ?thesis
    by (auto simp: coldReloadDriverRuntime_def Let_def split: prod.split)
qed

lemma respond_ok: "svc_ok s \<Longrightarrow> svc_ok (respond E subject from msg s)"
proof -
  assume s: "svc_ok s"
  have "svc_ok (fst (handleDriverStop from s))"
    using s by (auto simp: handleDriverStop_def Let_def svc_ok_set_state split: option.split)
  moreover have "svc_ok (fst (handleRPCCall E from msg s))"
    using s by (cases "set_label ''caller'' (rt_Feature (sv_heap s from)) msg") (simp_all add: handleRPCCall_def send_to_ok)
  moreover have "svc_ok (case handleRPCReturn E from msg s of None \<Rightarrow> s | Some r \<Rightarrow> fst r)"
    using s by (auto simp: handleRPCReturn_def Let_def send_to_ok split: option.split)
  moreover have "svc_ok (handleReload (de_ext E) msg s)" using s by (simp add: handleReload_def Let_def split: sum.splits)
  ultimately show ?thesis using s coldReloadDriver_ok by (simp add: respond_def lcatch_def)
qed

lemma process_ok:
  assumes "svc_ok s"
  shows "svc_ok (process E transformers route msg from s)"
proof -
  let ?key = "Channel msg @ '':'' @ Subject msg"
  let ?s1 = "(case deleteExpect (?key @ '':'' @ m_Name (rt_Meta (sv_heap s from))) s of
      (None, s') \<Rightarrow> s' | (Some es, s') \<Rightarrow> fold (\<lambda>f. lcatch (driver_alive f)) es s')"
  have "svc_ok ?s1" using assms
    by (auto simp: deleteExpect_def lcatch_def intro!: fold_ok [where P = svc_ok] driver_alive_ok split: option.split)
  then have s2: "svc_ok (respond E ?key from msg ?s1)" by (rule respond_ok)
  have sends: "svc_ok (fst (load_each (\<lambda>(feature, m'). send_to E feature m') ms s'))" if "svc_ok s'" for ms s'
    using that by (intro load_each_ok [where P = svc_ok]) (auto simp: send_to_ok split: prod.split)
  have "svc_ok (lcatch (lget (route m) (load_each (\<lambda>(feature, m'). send_to E feature m'))) (respond E ?key from msg ?s1))" for m
    using s2 sends by (cases "route m") (simp_all add: lcatch_def)
  with s2 show ?thesis unfolding process_def Let_def by (auto split: option.split)
qed

section \<open>Runs of a service\<close>

definition NewService :: "string \<Rightarrow> string \<Rightarrow> bool \<Rightarrow> gmap option \<Rightarrow> Service" where
  "NewService name ip master drivers = \<lparr>sv_name = name, sv_daemonID = ip, sv_master = master, sv_drivers = drivers, sv_dynamic = [],
     sv_runtimes = [], sv_heap = (\<lambda>_. \<lparr>rt_Data = GNil, rt_DynamicData = GNil, rt_Feature = [],
       rt_Meta = \<lparr>m_Name = [], m_Type = [], m_Executable = [], m_Arguments = [], m_HandlerData = None\<rparr>, rt_Service = [],
       rt_State = DriverLoading, rt_sent = [], rt_closed = False\<rparr>),
     sv_next = 0, sv_expects = [], sv_emitter = False, sv_draining = None, sv_rpc = RPCCaller_Init ''rpc'' ''call'', sv_jobs = [], sv_effects = []\<rparr>"

inductive svc_step :: "driver_env \<Rightarrow> Service \<Rightarrow> Service \<Rightarrow> bool" for E where
  message: "svc_step E s (process E transformers route msg from s)"
| crash: "svc_step E s (driver_crashed a s)"
| job: "sv_jobs s = js @ j # js' \<Longrightarrow> svc_step E s (run_job E j (s\<lparr>sv_jobs := js @ js'\<rparr>))"
| config: "svc_step E s (s\<lparr>sv_drivers := drivers\<rparr>)"
| required: "svc_step E s (fst (loadRequiredFeatures E featureList boot s))"
| additional: "svc_step E s (loadAdditionalFeatures E discovered featureList s)"
| unused: "svc_step E s (removeUnusedFeatures featureList s)"
| drain: "svc_step E s (fst (Drain_begin E s))"

lemma svc_ok_more [simp]:
  "svc_ok (s\<lparr>sv_jobs := js\<rparr>) = svc_ok s" "svc_ok (s\<lparr>sv_drivers := d\<rparr>) = svc_ok s"
  by (simp_all add: svc_ok_def)

lemma load_required_ok: "svc_ok s \<Longrightarrow> svc_ok (fst (load_required E boot fr s))"
  using loadFeature_ok [of s E "fst fr"]
  by (cases fr; cases "loadFeature E (fst fr) s") (auto simp: load_required_def split: option.split)

lemma load_additional_ok: "svc_ok s \<Longrightarrow> svc_ok (load_additional E fr s)"
  using loadFeature_ok [of s E "fst fr"]
  by (cases fr; cases "loadFeature E (fst fr) s") (auto simp: load_additional_def)

lemma remove_feature_ok: "svc_ok s \<Longrightarrow> svc_ok (remove_feature fl fr s)"
  by (cases fr) (simp add: remove_feature_def Let_def svc_ok_checkDelete split: option.split)

lemma svc_step_ok: "svc_step E s s' \<Longrightarrow> svc_ok s \<Longrightarrow> svc_ok s'"
proof (induction rule: svc_step.induct)
  case (required s featureList boot)
  then show ?case unfolding loadRequiredFeatures_def by (intro load_each_ok [where P = svc_ok] load_required_ok)
next
  case (additional s discovered featureList)
  then show ?case
    by (simp add: loadAdditionalFeatures_def fold_ok [where P = svc_ok] load_additional_ok split: option.split)
next
  case (unused s featureList)
  then show ?case unfolding removeUnusedFeatures_def by (intro fold_ok [where P = svc_ok] remove_feature_ok)
next
  case (drain s)
  then show ?case by (simp add: Drain_begin_def Let_def load_each_ok [where P = svc_ok] send_ok)
qed (simp_all add: process_ok run_job_ok driver_crashed_def Let_def)

interpretation sv: step_system "\<lambda>s. \<exists>name ip master drivers. s = NewService name ip master drivers" "svc_step E" svc_ok for E
proof unfold_locales
  fix s
  assume "\<exists>name ip master drivers. s = NewService name ip master drivers"
  then show "svc_ok s" by (auto simp: NewService_def svc_ok_def)
qed (rule svc_step_ok)

lemma svc_reachable_ok: "(svc_step E)\<^sup>*\<^sup>* (NewService name ip master drivers) s \<Longrightarrow> svc_ok s"
  by (rule sv.invariant) blast+

text \<open>
  C16: whatever messages arrive, goroutines run, drivers crash and configurations are loaded, in
  whatever order, a feature of a service is never registered with a nil pointer or with a runtime
  that was made for another feature.
\<close>

theorem service_runtimes_ok:
  assumes "(svc_step E)\<^sup>*\<^sup>* (NewService name ip master drivers) s" and "map_of (sv_runtimes s) feature = Some r"
  shows "\<exists>a. r = Some a \<and> a < sv_next s \<and> rt_Feature (sv_heap s a) = feature"
  using svc_reachable_ok [OF assms(1)] assms(2) by (auto simp: svc_ok_def)

section \<open>Features that are no longer used\<close>

lemma remove_feature_keeps:
  assumes "svc_ok s"
  shows "sv_runtimes (remove_feature fl fr s) = sv_runtimes s" "sv_heap (remove_feature fl fr s) = sv_heap s"
    "set (sv_jobs s) \<subseteq> set (sv_jobs (remove_feature fl fr s))"
    "map_of fl (fst fr) = None \<Longrightarrow> snd fr = Some a \<Longrightarrow> CloseLater a \<in> set (sv_jobs (remove_feature fl fr s))"
  using checkDelete_nil [of "s\<lparr>sv_emitter := b\<rparr>" "fst fr" for b] assms
  by (cases fr; auto simp: remove_feature_def Let_def spawn_job_def split: option.split)+

lemma remove_features_keep:
  assumes "svc_ok s"
  shows "sv_runtimes (fold (remove_feature fl) frs s) = sv_runtimes s \<and> sv_heap (fold (remove_feature fl) frs s) = sv_heap s \<and>
    set (sv_jobs s) \<subseteq> set (sv_jobs (fold (remove_feature fl) frs s)) \<and>
    (\<forall>fr \<in> set frs. \<forall>a. map_of fl (fst fr) = None \<longrightarrow> snd fr = Some a \<longrightarrow> CloseLater a \<in> set (sv_jobs (fold (remove_feature fl) frs s)))"
  using assms
proof (induction frs arbitrary: s)
  case (Cons fr frs)
  let ?s = "remove_feature fl fr s"
  note keep = remove_feature_keeps [OF Cons.prems, of fl fr]
  have IH: "sv_runtimes (fold (remove_feature fl) frs ?s) = sv_runtimes ?s" "sv_heap (fold (remove_feature fl) frs ?s) = sv_heap ?s"
    "set (sv_jobs ?s) \<subseteq> set (sv_jobs (fold (remove_feature fl) frs ?s))"
    "\<forall>fr \<in> set frs. \<forall>a. map_of fl (fst fr) = None \<longrightarrow> snd fr = Some a \<longrightarrow> CloseLater a \<in> set (sv_jobs (fold (remove_feature fl) frs ?s))"
    using Cons.IH [OF remove_feature_ok [OF Cons.prems]] by blast+
  have "CloseLater a \<in> set (sv_jobs (fold (remove_feature fl) frs ?s))" if "map_of fl (fst fr) = None" "snd fr = Some a" for a
    using keep(4) [OF that] IH(3) by blast
  with IH keep(1-3) show ?case by auto
qed simp

text \<open>
  A feature that the configuration no longer lists is not removed from the service: the nil that
  stands for any runtime is a typed nil and matches none, so the driver stays registered and is closed.
  The service loop then takes the closed stream for a crash and has the driver loaded again.
\<close>

theorem unused_feature_reloaded:
  assumes "(svc_step E)\<^sup>*\<^sup>* (NewService name ip master drivers) s" and "map_of (sv_runtimes s) feature = Some (Some a)"
    and "rt_State (sv_heap s a) = DriverAlive" and "map_of featureList feature = None"
  shows "let s' = removeUnusedFeatures featureList s; s'' = run_job E (CloseLater a) s' in
    sv_runtimes s' = sv_runtimes s \<and> CloseLater a \<in> set (sv_jobs s') \<and>
    sv_runtimes s'' = sv_runtimes s \<and> rt_closed (sv_heap s'' a) \<and> LoadFailed a 0 \<in> set (sv_jobs (driver_crashed a s''))"
proof -
  have "svc_ok s" by (rule svc_reachable_ok [OF assms(1)])
  moreover have "(feature, Some a) \<in> set (sv_runtimes s)" using assms(2) by (rule map_of_SomeD)
  ultimately have "sv_runtimes (removeUnusedFeatures featureList s) = sv_runtimes s" "sv_heap (removeUnusedFeatures featureList s) = sv_heap s"
    "CloseLater a \<in> set (sv_jobs (removeUnusedFeatures featureList s))"
    using remove_features_keep [of s featureList "sv_runtimes s"] assms(4) unfolding removeUnusedFeatures_def by fastforce+
  then show ?thesis using assms(3)
    by (simp add: Let_def run_job_def set_runtime_def driver_crashed_def spawn_job_def)
qed

section \<open>Expectations\<close>

lemma addExpect_first: "isExpecting s key = None \<Longrightarrow> sv_expects (addExpect key f exc s) = mput key [f] (sv_expects s)"
  by (simp add: addExpect_def spawn_job_def isExpecting_def)

text \<open>
  A driver that is expected to answer: when the message comes first, its handler is the one that is
  taken, and the time-out then does nothing; when the time-out comes first, the exception runs and
  nothing is expected any more.
\<close>

theorem expect_answered_or_timed_out:
  assumes "isExpecting s key = None"
  shows "(case deleteExpect key (addExpect key f exc s) of (es, s') \<Rightarrow> es = Some [f] \<and> expect_timeout key exc s' = s') \<and>
    expect_timeout key exc (addExpect key f exc s) =
      lcatch (run_except exc) ((addExpect key f exc s)\<lparr>sv_expects := mdel key (mput key [f] (sv_expects s))\<rparr>)"
  using addExpect_first [OF assms, of f exc] by (simp add: deleteExpect_def expect_timeout_def isExpecting_def)

text \<open>
  The time-out of an expectation that was met is not cancelled: when the same driver is expected
  again before it fires, it takes the new expectation away and runs the exception of the old one,
  although neither is overdue.
\<close>

theorem stale_expect_timeout:
  assumes "isExpecting s key = None"
  shows "let s1 = snd (deleteExpect key (addExpect key f exc s)); s2 = addExpect key f' exc' s1; s3 = s2\<lparr>sv_expects := mdel key (sv_expects s2)\<rparr> in
    isExpecting s2 key = Some [f'] \<and> isExpecting s3 key = None \<and> expect_timeout key exc s2 = lcatch (run_except exc) s3"
proof -
  let ?s1 = "snd (deleteExpect key (addExpect key f exc s))"
  have "isExpecting ?s1 key = None"
    using addExpect_first [OF assms, of f exc] by (simp add: deleteExpect_def isExpecting_def)
  from addExpect_first [OF this, of f' exc'] show ?thesis by (simp add: Let_def isExpecting_def expect_timeout_def)
qed

lemma run_except_expects: "sv_expects (fst (run_except exc s)) = sv_expects s"
  by (auto simp: run_except_def lseq_def feature_state_def set_state_def set_runtime_def emit_def retry_load_def spawn_job_def
      split: except.split option.split)

text \<open>
  When two features expect the same message, their time-outs run both exceptions and remove neither
  handler: the loop that should remove one compares addresses that are never equal.
\<close>

theorem shared_expect_never_removed:
  assumes "isExpecting s key = Some es" and "length es > 1"
  shows "isExpecting (expect_timeout key exc' (expect_timeout key exc s)) key = Some es \<and>
    expect_timeout key exc s = lcatch (run_except exc) s"
  using assms run_except_expects [of exc s] run_except_expects [of exc' "fst (run_except exc s)"]
  by (simp add: expect_timeout_def isExpecting_def lcatch_def)

section \<open>Loading a feature again\<close>

lemma deep_equal_refl: "wfval v \<Longrightarrow> deep_equal v v"
proof (induction v)
  case (GList xs)
  then show ?case by (auto simp: deep_equal.simps wfvals_iff list_all2_same)
next
  case (GMap m)
  have "(case map_of m k of None \<Rightarrow> False | Some y \<Rightarrow> deep_equal x y)" if "(k, x) \<in> set m" for k x
  proof -
    have "map_of m k = Some x" using that GMap.prems by (simp add: wfmap_def)
    moreover have "wfval x" using that GMap.prems by (auto simp: wffields_iff)
    ultimately show ?thesis using GMap.IH that by auto
  qed
  then show ?case by (simp add: deep_equal.simps list_all_iff split_beta)
qed (simp_all add: deep_equal.simps)

lemma staged_wf: "GetStagedDriverData drivers path = Some x \<Longrightarrow> wfval (GMap (omap drivers)) \<Longrightarrow> wfval x"
  by (auto simp: GetStagedDriverData_def GetMapData_def omap_def dest: get_path_wf split: option.splits if_splits)

text \<open>Decoding a driver definition gives well-formed handler data.\<close>

definition decodes_wf :: "driver_env \<Rightarrow> bool" where
  "decodes_wf E \<longleftrightarrow> (\<forall>m meta d. de_decode E m = Inr meta \<longrightarrow> m_HandlerData meta = Some d \<longrightarrow> wfval (GMap d))"

lemma driver_meta_data: "driver_meta E m = Inr meta \<Longrightarrow> m_HandlerData meta = m_HandlerData m"
proof -
  have acquire: "m_HandlerData m' = m_HandlerData m" if "Builtin_Acquire E m = Inr m'" for m m'
    using that by (auto simp: Builtin_Acquire_def split: if_splits option.splits gval.splits)
  have "m_HandlerData m' = m_HandlerData m" if "Builtin_Prepare E m = Inr m'" for m m'
    using that by (auto simp: Builtin_Prepare_def split: option.splits gval.splits)
  with acquire show "driver_meta E m = Inr meta \<Longrightarrow> m_HandlerData meta = m_HandlerData m"
    by (fastforce simp: driver_meta_def rbind_Inr_conv split: if_splits)
qed

lemma feature_runtime_wf:
  assumes "feature_runtime E s feature name = Inr r" and "decodes_wf E" and "wfval (GMap (omap (sv_drivers s)))" and "wfval (GMap (sv_dynamic s))"
  shows "wfval (rt_Data r)" "wfval (rt_DynamicData r)" "meta_equal (rt_Meta r) (rt_Meta r)" "rt_Feature r = feature" "rt_State r = DriverLoading"
proof -
  obtain dm m meta0 where dm: "de_decode E m = Inr meta0" "driver_meta E meta0 = Inr (rt_Meta r)"
    "rt_Data r = (case GetStagedDriverData (sv_drivers s) name of None \<Rightarrow> GNil | Some x \<Rightarrow> x)"
    "rt_DynamicData r = (if has_prefix feature ''driver:'' then (case map_of (sv_dynamic s) feature of None \<Rightarrow> GNil | Some x \<Rightarrow> x) else GNil)"
    "rt_Feature r = feature" "rt_State r = DriverLoading"
    using assms(1) by (auto simp: feature_runtime_def NewDriver_def rbind_Inr_conv Let_def split: option.splits)
  show "wfval (rt_Data r)" using dm(3) staged_wf [OF _ assms(3)] by (auto split: option.split)
  show "wfval (rt_DynamicData r)" using dm(4) assms(4) by (auto dest: wffields_map_of split: option.split)
  have "wfval (GMap d)" if "m_HandlerData (rt_Meta r) = Some d" for d
    using that driver_meta_data [OF dm(2)] assms(2) dm(1) unfolding decodes_wf_def by metis
  then show "meta_equal (rt_Meta r) (rt_Meta r)"
    using deep_equal_refl by (simp add: meta_equal_def split: option.split)
  show "rt_Feature r = feature" "rt_State r = DriverLoading" by (rule dm)+
qed

text \<open>What sending the options keeps of a runtime.\<close>

lemma SendOptions_heap:
  "rt_Data (sv_heap (fst (SendOptions E a s)) b) = rt_Data (sv_heap s b) \<and> rt_DynamicData (sv_heap (fst (SendOptions E a s)) b) = rt_DynamicData (sv_heap s b) \<and>
   rt_Meta (sv_heap (fst (SendOptions E a s)) b) = rt_Meta (sv_heap s b) \<and> rt_State (sv_heap (fst (SendOptions E a s)) b) = rt_State (sv_heap s b) \<and>
   sv_drivers (fst (SendOptions E a s)) = sv_drivers s \<and> sv_dynamic (fst (SendOptions E a s)) = sv_dynamic s \<and> sv_name (fst (SendOptions E a s)) = sv_name s"
  unfolding SendOptions_def
  by (rule load_each_ok [where P = "\<lambda>s'. rt_Data (sv_heap s' b) = rt_Data (sv_heap s b) \<and> rt_DynamicData (sv_heap s' b) = rt_DynamicData (sv_heap s b) \<and>
      rt_Meta (sv_heap s' b) = rt_Meta (sv_heap s b) \<and> rt_State (sv_heap s' b) = rt_State (sv_heap s b) \<and>
      sv_drivers s' = sv_drivers s \<and> sv_dynamic s' = sv_dynamic s \<and> sv_name s' = sv_name s"])
    (auto simp: Runtime_SendMessage_def set_runtime_def split: option.split)

text \<open>The state in which a service has a driver for a feature as the configuration wants it.\<close>

definition up_to_date :: "driver_env \<Rightarrow> string \<Rightarrow> string \<Rightarrow> Service \<Rightarrow> bool" where
  "up_to_date E feature name s \<longleftrightarrow> (\<exists>a new. feature_driver s feature = Inr name \<and> feature_runtime E s feature name = Inr new \<and>
     getDriverRuntime s feature = Some a \<and> rt_State (sv_heap s a) \<noteq> DriverFailed \<and> meta_equal (rt_Meta (sv_heap s a)) (rt_Meta new) \<and>
     deep_equal (rt_Data (sv_heap s a)) (rt_Data new) \<and> deep_equal (rt_DynamicData (sv_heap s a)) (rt_DynamicData new))"

lemma loadFeature_up_to_date: "up_to_date E feature name s \<Longrightarrow> loadFeature E feature s = (s, False, name, None)"
  by (auto simp: up_to_date_def loadFeature_def Let_def)

lemma config_same:
  assumes "sv_drivers s' = sv_drivers s" "sv_dynamic s' = sv_dynamic s" "sv_name s' = sv_name s"
  shows "feature_driver s' = feature_driver s" "feature_runtime E s' = feature_runtime E s"
  unfolding fun_eq_iff feature_driver_def feature_runtime_def assms by (rule allI refl)+

lemma cold_up_to_date:
  assumes "coldReload E new old s = (s', None)" and "feature_driver s feature = Inr name" and new: "feature_runtime E s feature name = Inr new"
    and "svc_ok s" and wf: "decodes_wf E" "wfval (GMap (omap (sv_drivers s)))" "wfval (GMap (sv_dynamic s))"
  shows "up_to_date E feature name s'"
proof -
  let ?a = "sv_next s"
  let ?s1 = "(set_runtime ?a (new\<lparr>rt_Service := sv_name s\<rparr>) s)\<lparr>sv_next := Suc ?a\<rparr>"
  let ?s2 = "fst (SendOptions E ?a ?s1)"
  note r = feature_runtime_wf [OF new wf]
  have s': "replace_runtime ?a old ?s2 = (s', None)"
    using assms(1) by (cases "SendOptions E ?a ?s1") (auto simp: coldReload_def Let_def lseq_def split: option.splits)
  have ok1: "svc_ok ?s1" using assms(4) unfolding svc_ok_def set_runtime_def by fastforce
  have feat: "rt_Feature (sv_heap ?s2 ?a) = feature" "?a < sv_next ?s2" using SendOptions_keeps [of E ?a ?s1 ?a] r(4) by (auto simp: set_runtime_def)
  have "svc_ok (spawn_job (WaitExit ?a) (setDriverRuntime feature ?a ?s2))"
    using svc_ok_register [OF SendOptions_ok [OF ok1] feat(2) feat(1) [symmetric]] by simp
  from checkDelete_nil [OF this] s' feat(1) have "sv_runtimes s' = mput feature (Some ?a) (sv_runtimes ?s2)" "sv_heap s' = sv_heap ?s2"
    "sv_drivers s' = sv_drivers ?s2" "sv_dynamic s' = sv_dynamic ?s2" "sv_name s' = sv_name ?s2"
    by (auto simp: replace_runtime_def Let_def setDriverRuntime_def spawn_job_def split: option.splits)
  with SendOptions_heap [of E ?a ?s1 ?a] have st: "getDriverRuntime s' feature = Some ?a" "rt_State (sv_heap s' ?a) = DriverLoading"
    "rt_Meta (sv_heap s' ?a) = rt_Meta new" "rt_Data (sv_heap s' ?a) = rt_Data new" "rt_DynamicData (sv_heap s' ?a) = rt_DynamicData new"
    "sv_drivers s' = sv_drivers s" "sv_dynamic s' = sv_dynamic s" "sv_name s' = sv_name s"
    using r(5) by (simp_all add: getDriverRuntime_def LockGetMap_def set_runtime_def)
  show ?thesis unfolding up_to_date_def config_same [OF st(6-8)]
    using assms(2) new st(1-5) r(1-3) deep_equal_refl by auto
qed

lemma hot_up_to_date:
  assumes "hotReload E new a s = (s', None)" and "feature_driver s feature = Inr name" and new: "feature_runtime E s feature name = Inr new"
    and "getDriverRuntime s feature = Some a" and "meta_equal (rt_Meta (sv_heap s a)) (rt_Meta new)"
    and wf: "decodes_wf E" "wfval (GMap (omap (sv_drivers s)))" "wfval (GMap (sv_dynamic s))"
  shows "up_to_date E feature name s'"
proof -
  let ?s1 = "set_runtime a ((sv_heap s a)\<lparr>rt_Data := rt_Data new, rt_DynamicData := rt_DynamicData new, rt_State := DriverReloading\<rparr>) s"
  note r = feature_runtime_wf [OF new wf]
  have s': "s' = fst (SendOptions E a ?s1)" using assms(1) by (simp add: hotReload_def)
  with SendOptions_heap [of E a ?s1 a] SendOptions_keeps [of E a ?s1]
  have st: "getDriverRuntime s' feature = Some a" "rt_State (sv_heap s' a) = DriverReloading" "rt_Meta (sv_heap s' a) = rt_Meta (sv_heap s a)"
    "rt_Data (sv_heap s' a) = rt_Data new" "rt_DynamicData (sv_heap s' a) = rt_DynamicData new"
    "sv_drivers s' = sv_drivers s" "sv_dynamic s' = sv_dynamic s" "sv_name s' = sv_name s"
    using assms(4) by (simp_all add: getDriverRuntime_def set_runtime_def)
  show ?thesis unfolding up_to_date_def config_same [OF st(6-8)]
    using assms(2,5) new st(1-5) r(1,2) deep_equal_refl by auto
qed

lemma reload_result_success: "reload_result feature name r = (s', affected, n, None) \<Longrightarrow> r = (s', None) \<and> n = name"
  by (auto simp: reload_result_def split: prod.splits option.splits)

text \<open>
  Loading a feature successfully, by starting a driver, by sending new options to a running one or
  by finding it up to date, leaves the service in a state in which loading it again does nothing.
\<close>

theorem loadFeature_idempotent:
  assumes "loadFeature E feature s = (s', affected, name, None)" and "svc_ok s"
    and "decodes_wf E" and "wfval (GMap (omap (sv_drivers s)))" and "wfval (GMap (sv_dynamic s))"
  shows "loadFeature E feature s' = (s', False, name, None)"
proof (rule loadFeature_up_to_date)
  obtain nm new where d: "feature_driver s feature = Inr nm" "feature_runtime E s feature nm = Inr new"
    using assms(1) by (auto simp: loadFeature_def Let_def split: sum.splits)
  show "up_to_date E feature name s'"
  proof (cases "getDriverRuntime s feature")
    case None
    with assms(1) d have "coldReload E new None s = (s', None)" "name = nm"
      by (auto simp: loadFeature_def Let_def dest: reload_result_success)
    then show ?thesis using cold_up_to_date [OF _ d assms(2-5)] by simp
  next
    case (Some a)
    let ?same = "rt_State (sv_heap s a) \<noteq> DriverFailed \<and> meta_equal (rt_Meta (sv_heap s a)) (rt_Meta new)"
    let ?equal = "deep_equal (rt_Data (sv_heap s a)) (rt_Data new) \<and> deep_equal (rt_DynamicData (sv_heap s a)) (rt_DynamicData new)"
    consider (fresh) "\<not> ?same" | (equal) "?same" "?equal" | (hot) "?same" "\<not> ?equal" by blast
    then show ?thesis
    proof cases
      case fresh
      then have "coldReload E new (Some a) s = (s', None)" "name = nm"
        using assms(1) d Some by (auto simp: loadFeature_def Let_def dest: reload_result_success)
      then show ?thesis using cold_up_to_date [OF _ d assms(2-5)] by simp
    next
      case equal
      then have "s' = s" "name = nm" using assms(1) d Some by (auto simp: loadFeature_def Let_def)
      with equal d Some show ?thesis by (auto simp: up_to_date_def)
    next
      case hot
      then have "hotReload E new a s = (s', None)" "name = nm"
        using assms(1) d Some by (auto simp: loadFeature_def Let_def dest: reload_result_success)
      then show ?thesis using hot_up_to_date [OF _ d Some _ assms(3-5)] hot(1) by simp
    qed
  qed
qed

section \<open>Draining\<close>

lemma running_distinct:
  assumes "wfmap (sv_runtimes s)" and "svc_ok s"
  shows "distinct (running_drivers s)"
proof -
  have "distinct [a. (feature, Some a) \<leftarrow> rs, drains s a] \<and>
      (\<forall>a \<in> set [a. (feature, Some a) \<leftarrow> rs, drains s a]. rt_Feature (sv_heap s a) \<in> fst ` set rs)"
    if "set rs \<subseteq> set (sv_runtimes s)" "distinct (map fst rs)" for rs
    using that
  proof (induction rs)
    case (Cons fr rs)
    obtain f r where fr: "fr = (f, r)" by fastforce
    have "map_of (sv_runtimes s) f = Some r" using Cons.prems fr assms(1) by (auto simp: wfmap_def)
    then obtain a where "r = Some a" "rt_Feature (sv_heap s a) = f" using assms(2) unfolding svc_ok_def by blast
    with Cons fr show ?case by auto
  qed simp
  from this [of "sv_runtimes s"] assms(1) show ?thesis by (simp add: running_drivers_def wfmap_def)
qed

lemma send_state:
  "rt_State (sv_heap (fst (load_each (\<lambda>a. Runtime_SendMessage E a m) as s)) b) = rt_State (sv_heap s b) \<and>
   sv_draining (fst (load_each (\<lambda>a. Runtime_SendMessage E a m) as s)) = sv_draining s"
  by (rule load_each_ok [where P = "\<lambda>s'. rt_State (sv_heap s' b) = rt_State (sv_heap s b) \<and> sv_draining s' = sv_draining s"])
    (auto simp: Runtime_SendMessage_def set_runtime_def split: option.split)

text \<open>
  Draining waits for exactly the drivers that were running when it began: in whatever order these
  drivers report that they have stopped, and however often, the counter is the number of those that
  have not reported yet, so it reaches zero with the last of them and never goes below.
\<close>

theorem drain_counts_drivers:
  assumes "wfmap (sv_runtimes s)" and "svc_ok s" and "running_drivers s \<noteq> []" and "Drain_begin E s = (s1, None)"
    and "set stops \<subseteq> set (running_drivers s)"
  shows "sv_draining (fold (\<lambda>a. lcatch (handleDriverStop a)) stops s1) = Some (int (card (set (running_drivers s) - set stops)))"
proof -
  let ?D = "set (running_drivers s)"
  let ?s0 = "s\<lparr>sv_draining := Some (int (length (running_drivers s)))\<rparr>"
  let ?stop = "zero_message\<lparr>Channel := ''command'', Subject := ''stop''\<rparr>"
  have s1: "s1 = fst (load_each (\<lambda>a. Runtime_SendMessage E a ?stop) (running_drivers s) ?s0)"
    using assms(3,4) by (simp add: Drain_begin_def Let_def)
  have start: "sv_draining s1 = Some (int (card ?D))" "\<forall>a \<in> ?D. rt_State (sv_heap s1 a) \<noteq> DriverStopped"
    using send_state [of E ?stop "running_drivers s" ?s0] distinct_card [OF running_distinct [OF assms(1,2)]]
    by (auto simp: s1 running_drivers_def drains_def)
  have "sv_draining (fold (\<lambda>a. lcatch (handleDriverStop a)) stops s') = Some (int (card (R - set stops)))"
    if "sv_draining s' = Some (int (card R))" "R \<subseteq> ?D" "\<forall>a \<in> ?D. (rt_State (sv_heap s' a) \<noteq> DriverStopped) = (a \<in> R)" "set stops \<subseteq> ?D" for R s'
    using that
  proof (induction stops arbitrary: R s')
    case (Cons a stops)
    have fin: "finite R" using Cons.prems(2) finite_subset by blast
    let ?s = "lcatch (handleDriverStop a) s'"
    show ?case
    proof (cases "a \<in> R")
      case True
      then have "a \<in> ?D" "rt_State (sv_heap s' a) \<noteq> DriverStopped" using Cons.prems(2,3) by auto
      then have st: "?s = (set_state a DriverStopped s')\<lparr>sv_draining := Some (int (card R) - 1)\<rparr>"
        using Cons.prems(1) by (simp add: handleDriverStop_def lcatch_def Let_def)
      have "sv_draining ?s = Some (int (card (R - {a})))" using card.remove [OF fin True] by (simp add: st)
      moreover have "\<forall>b \<in> ?D. (rt_State (sv_heap ?s b) \<noteq> DriverStopped) = (b \<in> R - {a})"
        using Cons.prems(3) by (simp add: st set_state_def set_runtime_def)
      moreover have "R - {a} \<subseteq> ?D" "set stops \<subseteq> ?D" using Cons.prems(2,4) by auto
      ultimately have "sv_draining (fold (\<lambda>a. lcatch (handleDriverStop a)) stops ?s) = Some (int (card (R - {a} - set stops)))"
        by (intro Cons.IH [of ?s "R - {a}"])
      moreover have "R - {a} - set stops = R - set (a # stops)" by auto
      ultimately show ?thesis by simp
    next
      case False
      then have "?s = s'" using Cons.prems(3,4) by (auto simp: handleDriverStop_def lcatch_def)
      with Cons.IH [OF Cons.prems(1-3)] Cons.prems(4) False show ?thesis by (simp add: Diff_insert0)
    qed
  qed simp
  from this [of s1 ?D] start assms(5) show ?thesis by simp
qed

section \<open>Witnesses\<close>

definition sample_driver_env :: driver_env where
  "sample_driver_env = \<lparr>de_ext = no_ext, de_decode = (\<lambda>m. Inr \<lparr>m_Name = ''web'', m_Type = ''null'', m_Executable = [], m_Arguments = [], m_HandlerData = None\<rparr>),
     de_builtinPath = ''/opt'', de_start = (\<lambda>_ _. None), de_write = (\<lambda>_ _. None)\<rparr>"

definition sample_drivers :: gmap where
  "sample_drivers = [(''daemon'', GMap [(''drivers'', GMap [(''web'', GMap [])])]), (''web'', GMap [(''token'', GStr ''x'')])]"

definition sample_service :: Service where
  "sample_service = NewService ''operator'' ''10.0.0.1'' True (Some sample_drivers)"

text \<open>The service with the driver loaded, and then alive.\<close>

definition sample_loading :: Service where
  "sample_loading = loadAdditionalFeatures sample_driver_env (Some [(''driver:web'', GNil)]) [] sample_service"

definition sample_alive :: Service where
  "sample_alive = process sample_driver_env (\<lambda>_. []) (\<lambda>_. Inr []) (zero_message\<lparr>Channel := ''state'', Subject := ''alive''\<rparr>) 0 sample_loading"

lemma sample_service_run:
  "(svc_step sample_driver_env)\<^sup>*\<^sup>* (NewService ''operator'' ''10.0.0.1'' True (Some sample_drivers)) sample_alive"
  unfolding sample_alive_def sample_loading_def sample_service_def
  by (meson rtranclp.rtrancl_into_rtrancl rtranclp.rtrancl_refl svc_step.additional svc_step.message)

lemma sample_alive_facts:
  "map_of (sv_runtimes sample_alive) ''driver:web'' = Some (Some 0)" "rt_State (sv_heap sample_alive 0) = DriverAlive"
  "isExpecting sample_alive (alive_key ''web'') = None" "isExpecting sample_loading (alive_key ''web'') = Some [''driver:web'']"
  "running_drivers sample_alive = [0]" "sv_drivers sample_alive = Some sample_drivers" "sv_dynamic sample_alive = [(''driver:web'', GNil)]"
  "wfmap (sv_runtimes sample_alive)"
  by code_simp+

lemma sample_alive_ok: "svc_ok sample_alive"
  by (rule svc_reachable_ok [OF sample_service_run])

theorem service_runtimes_ok_witness:
  "\<exists>a. Some 0 = Some a \<and> a < sv_next sample_alive \<and> rt_Feature (sv_heap sample_alive a) = ''driver:web''"
  using service_runtimes_ok [OF sample_service_run sample_alive_facts(1)] .

theorem unused_feature_reloaded_witness:
  "LoadFailed 0 0 \<in> set (sv_jobs (driver_crashed 0 (run_job sample_driver_env (CloseLater 0) (removeUnusedFeatures [] sample_alive)))) \<and>
   map_of (sv_runtimes (removeUnusedFeatures [] sample_alive)) ''driver:web'' = Some (Some 0)"
  using unused_feature_reloaded [OF sample_service_run sample_alive_facts(1,2), of "[]"] sample_alive_facts(1) by (simp add: Let_def)

theorem expect_answered_or_timed_out_witness:
  "fst (deleteExpect (alive_key ''web'') (addExpect (alive_key ''web'') ''driver:web'' (FeatureFailed ''driver:web'') sample_alive)) = Some [''driver:web'']"
  using expect_answered_or_timed_out [OF sample_alive_facts(3), of "''driver:web''" "FeatureFailed ''driver:web''"] by (auto split: prod.splits)

text \<open>The driver comes alive, is expected again, and the old time-out marks it as failed.\<close>

theorem stale_expect_timeout_witness:
  "let s1 = snd (deleteExpect (alive_key ''web'') (addExpect (alive_key ''web'') ''driver:web'' (FeatureFailed ''driver:web'') sample_alive));
       s2 = addExpect (alive_key ''web'') ''driver:web'' (FeatureFailed ''driver:web'') s1;
       s3 = s2\<lparr>sv_expects := mdel (alive_key ''web'') (sv_expects s2)\<rparr> in
   isExpecting s2 (alive_key ''web'') = Some [''driver:web''] \<and> isExpecting s3 (alive_key ''web'') = None \<and>
   expect_timeout (alive_key ''web'') (FeatureFailed ''driver:web'') s2 = lcatch (run_except (FeatureFailed ''driver:web'')) s3"
  using stale_expect_timeout [OF sample_alive_facts(3)] .

theorem shared_expect_never_removed_witness:
  "isExpecting (expect_timeout ''k'' (FeatureFailed ''b'') (expect_timeout ''k'' (FeatureFailed ''a'') (sample_alive\<lparr>sv_expects := [(''k'', [''a'', ''b''])]\<rparr>))) ''k'' =
    Some [''a'', ''b'']"
proof -
  have "isExpecting (sample_alive\<lparr>sv_expects := [(''k'', [''a'', ''b''])]\<rparr>) ''k'' = Some [''a'', ''b'']" by (simp add: isExpecting_def)
  moreover have "length [''a'', ''b''] > 1" by simp
  ultimately show ?thesis by (rule shared_expect_never_removed [THEN conjunct1])
qed

theorem loadFeature_idempotent_witness:
  "\<exists>s'. loadFeature sample_driver_env ''driver:web'' sample_service = (s', True, ''web'', None) \<and>
    loadFeature sample_driver_env ''driver:web'' s' = (s', False, ''web'', None)"
proof -
  have "(case loadFeature sample_driver_env ''driver:web'' sample_service of (s', affected, name, err) \<Rightarrow> affected \<and> name = ''web'' \<and> err = None)"
    by code_simp
  then obtain s' where run: "loadFeature sample_driver_env ''driver:web'' sample_service = (s', True, ''web'', None)" by auto
  have "svc_ok sample_service" by (simp add: svc_ok_def sample_service_def NewService_def)
  moreover have "decodes_wf sample_driver_env" by (simp add: decodes_wf_def sample_driver_env_def)
  moreover have "wfval (GMap (omap (sv_drivers sample_service)))" "wfval (GMap (sv_dynamic sample_service))" by code_simp+
  ultimately show ?thesis using run loadFeature_idempotent [OF run] by blast
qed

theorem drain_counts_drivers_witness:
  "sv_draining (fold (\<lambda>a. lcatch (handleDriverStop a)) [0, 0] (fst (Drain_begin sample_driver_env sample_alive))) = Some 0"
proof -
  have "Drain_begin sample_driver_env sample_alive = (fst (Drain_begin sample_driver_env sample_alive), None)"
    by (simp add: prod_eq_iff) code_simp
  from drain_counts_drivers [OF sample_alive_facts(8) sample_alive_ok _ this, of "[0, 0]"] sample_alive_facts(5) show ?thesis by simp
qed

end
