(* ===== verification/Api.thy ===== *)
theory Api
  imports Comm Config
begin

text \<open>
  \<open>internal/api\<close> and the API parts of \<open>internal/service\<close>: the calls that the API service hands to the
  other services over the eventbus, and the collection of their acknowledgements and results.

  A request has its own goroutine, whose position is \<open>worker\<close>; handling an acknowledgement or a return
  is one step, and so are the events the goroutine waits for: the end of the time for acknowledgements,
  the time-out, the reaping. Sending on a channel that is nil blocks for ever, which \<open>rq_stuck\<close> counts;
  sending on a closed channel panics, and the handler recovers. The web framework, the RPC calls to
  authentication drivers, the casbin enforcer and the broadcast are parameters.
\<close>

section \<open>Definitions of the calls\<close>

datatype reqtype = TypeFirst | TypeAll | TypeMatch

record Def =
  df_Path :: string
  df_Object :: string
  df_Name :: string
  df_Method :: string
  df_ReqType :: reqtype
  df_Service :: string
  df_AckTimeout :: int
  df_Timeout :: int

definition InfiniteDuration :: int where
  "InfiniteDuration = - 1"

definition api_def :: "string \<Rightarrow> string \<Rightarrow> reqtype \<Rightarrow> string \<Rightarrow> int \<Rightarrow> Def" where
  "api_def object name rtype service timeout = \<lparr>df_Path = [], df_Object = object, df_Name = name, df_Method = [],
     df_ReqType = rtype, df_Service = service, df_AckTimeout = 0, df_Timeout = timeout\<rparr>"

definition GetDefs :: "(string, (string, Def) gomap) gomap" where
  "GetDefs =
    [(''events/:eventID/wait'', [(''GET'', api_def ''event'' ''eventWait'' TypeMatch ''engine'' InfiniteDuration)]),
     (''events'', [(''GET'', api_def ''event'' ''eventList'' TypeAll ''engine'' 0),
                   (''POST'', api_def ''event'' ''eventAdd'' TypeFirst ''receiver'' 0)])]"

fun defs_of_path :: "string \<Rightarrow> (string, Def) gomap \<Rightarrow> (string, Def) gomap \<Rightarrow> (string, Def) gomap" where
  "defs_of_path path [] ret = ret"
| "defs_of_path path ((m, d) # defs) ret =
     defs_of_path path defs (mput (df_Name d) (d\<lparr>df_Path := path, df_Method := m\<rparr>) ret)"

fun defs_by_name :: "(string, (string, Def) gomap) gomap \<Rightarrow> (string, Def) gomap \<Rightarrow> (string, Def) gomap" where
  "defs_by_name [] ret = ret"
| "defs_by_name ((path, defs) # ps) ret = defs_by_name ps (defs_of_path path defs ret)"

definition GetDefsByName :: "(string, Def) gomap" where
  "GetDefsByName = defs_by_name GetDefs []"

section \<open>Requests\<close>

datatype channel = NilChan | OpenChan | ClosedChan

datatype api_error = NoACK | TimedOut | Returned string

datatype worker = NotStarted | Acking | Collecting | Reaping | Gone

record Request =
  rq_uuid :: string
  rq_urlPath :: string
  rq_method :: string
  rq_contentType :: string
  rq_reqType :: reqtype
  rq_fn :: string
  rq_service :: string
  rq_params :: gmap
  rq_ackTimeout :: int
  rq_timeout :: int
  rq_results :: "(string, payload) gomap"
  rq_err :: "api_error option"
  rq_acks :: "string list"
  rq_ready :: channel
  rq_received :: channel
  rq_worker :: worker
  rq_stuck :: nat

record Store =
  st_config :: gval
  st_writeTimeout :: int
  st_pool :: "string \<Rightarrow> Request"
  st_requests :: "string list"
  st_byInput :: "(string, string) gomap"

text \<open>The request is over: the goroutine closes its channels and waits to be reaped.\<close>

definition finish_request :: "Request \<Rightarrow> Request" where
  "finish_request r = r\<lparr>rq_ready := ClosedChan, rq_worker := Reaping,
     rq_received := (if rq_received r = OpenChan then ClosedChan else rq_received r)\<rparr>"

text \<open>\<open>api.received <- 1\<close>\<close>

definition send_received :: "Request \<Rightarrow> Request" where
  "send_received r = (case rq_received r of
      NilChan \<Rightarrow> r\<lparr>rq_stuck := Suc (rq_stuck r)\<rparr>
    | OpenChan \<Rightarrow> finish_request r
    | ClosedChan \<Rightarrow> r)"

definition postACK :: "Request \<Rightarrow> Request" where
  "postACK r =
    (if rq_acks r \<noteq> [] \<and> length (rq_acks r) = length (rq_results r) then finish_request r
     else (let r1 = r\<lparr>rq_received := OpenChan\<rparr> in
       if rq_reqType r \<noteq> TypeFirst \<and> rq_acks r = [] then finish_request (r1\<lparr>rq_err := Some NoACK\<rparr>)
       else r1\<lparr>rq_worker := Collecting\<rparr>))"

text \<open>The wait for acknowledgements is over, by its time-out, by the first one, or because none are expected.\<close>

definition acks_over :: "Request \<Rightarrow> Request" where
  "acks_over r = (if rq_worker r = Acking then postACK r else r)"

definition request_timeout :: "Request \<Rightarrow> Request" where
  "request_timeout r = (if rq_worker r = Collecting \<and> rq_timeout r \<noteq> InfiniteDuration
     then finish_request (r\<lparr>rq_err := Some TimedOut\<rparr>) else r)"

text \<open>An acknowledgement; a second one for \<open>TypeMatch\<close> finds nobody to take it.\<close>

definition request_ack :: "string \<Rightarrow> Request \<Rightarrow> Request" where
  "request_ack responder r = (case rq_reqType r of
      TypeAll \<Rightarrow> r\<lparr>rq_acks := rq_acks r @ [responder]\<rparr>
    | TypeMatch \<Rightarrow> (let r1 = r\<lparr>rq_acks := rq_acks r @ [responder]\<rparr> in
        if rq_worker r = Acking then postACK r1 else r1\<lparr>rq_stuck := Suc (rq_stuck r1)\<rparr>)
    | TypeFirst \<Rightarrow> r)"

definition request_return :: "string \<Rightarrow> string option \<Rightarrow> payload \<Rightarrow> Request \<Rightarrow> Request" where
  "request_return responder errmsg result r = (case errmsg of
      Some e \<Rightarrow> send_received (r\<lparr>rq_err := Some (Returned e)\<rparr>)
    | None \<Rightarrow> (let r1 = r\<lparr>rq_results := mput responder result (rq_results r)\<rparr> in
        if rq_reqType r = TypeFirst then send_received r1
        else if rq_received r1 \<noteq> NilChan \<and> length (rq_results r1) = length (rq_acks r1) then send_received r1
        else r1))"

section \<open>The store\<close>

definition upd_request :: "string \<Rightarrow> (Request \<Rightarrow> Request) \<Rightarrow> Store \<Rightarrow> Store" where
  "upd_request uuid f st = st\<lparr>st_pool := (st_pool st)(uuid := f (st_pool st uuid))\<rparr>"

text \<open>A missing label or an unknown request is a panic that the handler recovers.\<close>

definition HandleAPIACK :: "Message \<Rightarrow> Store \<Rightarrow> Store" where
  "HandleAPIACK m st = (case (label m ''uuid'', label m ''from'') of
      (Some uuid, Some responder) \<Rightarrow> if uuid \<in> set (st_requests st) then upd_request uuid (request_ack responder) st else st
    | _ \<Rightarrow> st)"

definition HandleAPIReturn :: "ext \<Rightarrow> Message \<Rightarrow> Store \<Rightarrow> Store" where
  "HandleAPIReturn X msg st = (case DeserializePayload X msg of
      Inl e \<Rightarrow> st
    | Inr m \<Rightarrow> (case (label m ''uuid'', label m ''from'') of
        (Some uuid, Some responder) \<Rightarrow>
          if uuid \<in> set (st_requests st) then upd_request uuid (request_return responder (label m ''error'') (Payload m)) st else st
      | _ \<Rightarrow> st))"

definition handleAPIMessage :: "ext \<Rightarrow> Message \<Rightarrow> Store \<Rightarrow> Store" where
  "handleAPIMessage X m st = (case label m ''type'' of
      Some t \<Rightarrow> if t = ''ack'' then HandleAPIACK m st else if t = ''result'' then HandleAPIReturn X m st else st
    | None \<Rightarrow> st)"

definition kept_by_input :: "Store \<Rightarrow> Request \<Rightarrow> bool" where
  "kept_by_input st r \<longleftrightarrow> rq_method r = ''GET'' \<and> (rq_timeout r = InfiniteDuration \<or> rq_timeout r > st_writeTimeout st)"

definition SaveRequest :: "Request \<Rightarrow> Store \<Rightarrow> Store" where
  "SaveRequest r st = st\<lparr>st_requests := rq_uuid r # st_requests st, st_pool := (st_pool st)(rq_uuid r := r),
     st_byInput := (if kept_by_input st r then mput (rq_urlPath r) (rq_uuid r) (st_byInput st) else st_byInput st)\<rparr>"

definition ClearRequest :: "Request \<Rightarrow> Store \<Rightarrow> Store" where
  "ClearRequest r st = st\<lparr>st_requests := removeAll (rq_uuid r) (st_requests st),
     st_byInput := (if kept_by_input st r then mdel (rq_urlPath r) (st_byInput st) else st_byInput st)\<rparr>"

definition duration_of :: "ext \<Rightarrow> Store \<Rightarrow> string \<Rightarrow> int \<Rightarrow> int res" where
  "duration_of X st key dflt = (case GetMapDataStr (st_config st) key of
      None \<Rightarrow> Inr dflt
    | Some s \<Rightarrow> (case ext_parse_duration X s of None \<Rightarrow> Inl (PanicErr (''time: invalid duration '' @ s)) | Some d \<Rightarrow> Inr d))"

definition getAckTimeout :: "ext \<Rightarrow> Store \<Rightarrow> Def \<Rightarrow> int res" where
  "getAckTimeout X st d = (if df_AckTimeout d \<noteq> 0 then Inr (df_AckTimeout d) else duration_of X st ''ack_timeout'' (10 * 1000000))"

definition getTimeout :: "ext \<Rightarrow> Store \<Rightarrow> Def \<Rightarrow> int res" where
  "getTimeout X st d = (if df_Timeout d \<noteq> 0 then Inr (df_Timeout d) else duration_of X st ''timeout'' (st_writeTimeout st))"

text \<open>What a request reads of the HTTP context.\<close>

record RequestContext =
  rc_path :: string
  rc_payload :: "string \<Rightarrow> gmap res"
  rc_contentType :: string
  rc_subject :: "gval option"
  rc_provider :: "gval option"

definition new_request :: "string \<Rightarrow> Def \<Rightarrow> RequestContext \<Rightarrow> gmap \<Rightarrow> int \<Rightarrow> int \<Rightarrow> Request" where
  "new_request uuid d c params ackTimeout timeout = \<lparr>rq_uuid = uuid, rq_urlPath = rc_path c, rq_method = df_Method d,
     rq_contentType = rc_contentType c, rq_reqType = df_ReqType d, rq_fn = df_Name d, rq_service = df_Service d, rq_params = params,
     rq_ackTimeout = ackTimeout, rq_timeout = timeout, rq_results = [], rq_err = None, rq_acks = [],
     rq_ready = NilChan, rq_received = NilChan, rq_worker = NotStarted, rq_stuck = 0\<rparr>"

definition GetRequest :: "ext \<Rightarrow> string \<Rightarrow> Def \<Rightarrow> RequestContext \<Rightarrow> Store \<Rightarrow> Request res" where
  "GetRequest X uuid d c st = (case (if df_Method d = ''GET'' then map_of (st_byInput st) (rc_path c) else None) of
      Some old \<Rightarrow> Inr (st_pool st old)
    | None \<Rightarrow>
        rbind (rc_payload c (df_Method d)) (\<lambda>params.
        rbind (getAckTimeout X st d) (\<lambda>ack.
        rbind (getTimeout X st d) (\<lambda>timeout.
        Inr (new_request uuid d c params ack timeout)))))"

definition broadcast_call :: "Request \<Rightarrow> gval" where
  "broadcast_call r = GMap [(''broadcastSubject'', GStr ''call''),
     (''labels'', GMap [(''fn'', GStr (rq_fn r)), (''uuid'', GStr (rq_uuid r)), (''service'', GStr (rq_service r)),
       (''content-type'', GStr (rq_contentType r))]),
     (''data'', GMap (rq_params r))]"

text \<open>\<open>broadcast\<close> is the RPC call to the driver \<open>api-broadcast\<close>; its error is raised as a panic.\<close>

definition Dispatch :: "(gval \<Rightarrow> gopanic option) \<Rightarrow> Request \<Rightarrow> Store act" where
  "Dispatch broadcast r st =
    (if rq_ready r \<noteq> NilChan then (st, None)
     else (let r1 = r\<lparr>rq_ready := OpenChan, rq_results := []\<rparr>; st1 = SaveRequest r1 st in
       case broadcast (broadcast_call r1) of
         Some e \<Rightarrow> (st1, Some e)
       | None \<Rightarrow> (upd_request (rq_uuid r1) (\<lambda>x. x\<lparr>rq_worker := Acking\<rparr>) st1, None)))"

section \<open>Access\<close>

datatype auth = Anonymous | Authenticated gval string | Rejected | AuthPanic gopanic

text \<open>
  \<open>call\<close> is the RPC call to a driver: an error, or the bytes of the subject. A driver that answers
  without an error and without a subject makes the middleware read the text of a nil error.
\<close>

fun try_providers :: "ext \<Rightarrow> (string \<Rightarrow> string \<Rightarrow> string + string option) \<Rightarrow> gval list \<Rightarrow> auth" where
  "try_providers X call [] = Rejected"
| "try_providers X call (p # ps) = (case p of
      GStr s \<Rightarrow> (let parts = split_on CHR ''.'' s; provider = hd parts; fn = (if length parts > 1 then parts ! 1 else ''auth_web_request'') in
        case call (''driver:'' @ provider) fn of
          Inl err \<Rightarrow> try_providers X call ps
        | Inr None \<Rightarrow> AuthPanic NilDereference
        | Inr (Some bytes) \<Rightarrow> (case DeserializeContent X bytes of Inl e \<Rightarrow> AuthPanic e | Inr v \<Rightarrow> Authenticated v provider))
    | _ \<Rightarrow> AuthPanic TypeAssertion)"

definition AuthMiddleware :: "ext \<Rightarrow> (string \<Rightarrow> string \<Rightarrow> string + string option) \<Rightarrow> Store \<Rightarrow> auth" where
  "AuthMiddleware X call st = (case GetMapData (st_config st) ''auth-providers'' of
      None \<Rightarrow> Anonymous
    | Some GNil \<Rightarrow> Anonymous
    | Some (GList []) \<Rightarrow> Anonymous
    | Some (GList ps) \<Rightarrow> try_providers X call ps
    | Some _ \<Rightarrow> AuthPanic TypeAssertion)"

text \<open>\<open>enforce\<close> is the casbin enforcer; an error denies.\<close>

definition Authorize :: "(string \<Rightarrow> string \<Rightarrow> string \<Rightarrow> string \<Rightarrow> string + bool) \<Rightarrow> RequestContext \<Rightarrow> Def \<Rightarrow> bool res" where
  "Authorize enforce c d = (case rc_subject c of
      None \<Rightarrow> Inr False
    | Some subject \<Rightarrow>
        rbind (assert_type (as_str subject)) (\<lambda>sub.
        rbind (assert_type (case rc_provider c of None \<Rightarrow> None | Some p \<Rightarrow> as_str p)) (\<lambda>provider.
        Inr (enforce sub (df_Object d) (df_Method d) provider = Inr True))))"

datatype answer = Status nat | Pending Request

text \<open>The answer is pending until the request is ready or the time to write it is over.\<close>

definition HandleHTTPRequest :: "ext \<Rightarrow> (string \<Rightarrow> string \<Rightarrow> string \<Rightarrow> string \<Rightarrow> string + bool) \<Rightarrow> (gval \<Rightarrow> gopanic option) \<Rightarrow>
    string \<Rightarrow> RequestContext \<Rightarrow> Def \<Rightarrow> Store \<Rightarrow> Store \<times> answer res" where
  "HandleHTTPRequest X enforce broadcast uuid c d st = (case Authorize enforce c d of
      Inl e \<Rightarrow> (st, Inl e)
    | Inr False \<Rightarrow> (st, Inr (Status 403))
    | Inr True \<Rightarrow> (case GetRequest X uuid d c st of
        Inl e \<Rightarrow> (st, Inl e)
      | Inr r \<Rightarrow> (case Dispatch broadcast r st of
          (st', Some e) \<Rightarrow> (st', Inl e)
        | (st', None) \<Rightarrow> (st', Inr (Pending (st_pool st' (rq_uuid r)))))))"

definition http_status :: "Store \<Rightarrow> Request \<Rightarrow> nat" where
  "http_status st r =
    (if rq_ready r = ClosedChan then
       (case rq_err r of None \<Rightarrow> 200 | Some NoACK \<Rightarrow> 404 | Some _ \<Rightarrow> 500)
     else if kept_by_input st r then 202 else 500)"

text \<open>A request to a route, through the middleware; \<open>gin.Recovery\<close> turns a panic into status 500.\<close>

definition serve_request :: "ext \<Rightarrow> (string \<Rightarrow> string \<Rightarrow> string + string option) \<Rightarrow> (string \<Rightarrow> string \<Rightarrow> string \<Rightarrow> string \<Rightarrow> string + bool) \<Rightarrow>
    (gval \<Rightarrow> gopanic option) \<Rightarrow> string \<Rightarrow> RequestContext \<Rightarrow> Def \<Rightarrow> Store \<Rightarrow> Store \<times> answer" where
  "serve_request X call enforce broadcast uuid c d st =
    (let handle = (\<lambda>c'. case HandleHTTPRequest X enforce broadcast uuid c' d st of
         (st', Inl e) \<Rightarrow> (st', Status 500) | (st', Inr a) \<Rightarrow> (st', a)) in
     case AuthMiddleware X call st of
       Rejected \<Rightarrow> (st, Status 401)
     | AuthPanic e \<Rightarrow> (st, Status 500)
     | Anonymous \<Rightarrow> handle (c\<lparr>rc_subject := None, rc_provider := None\<rparr>)
     | Authenticated subject provider \<Rightarrow> handle (c\<lparr>rc_subject := Some subject, rc_provider := Some (GStr provider)\<rparr>))"

section \<open>Setting up\<close>

text \<open>\<open>newEnforcer\<close> loads the model and the policies into a casbin enforcer.\<close>

definition text_lines :: "gval \<Rightarrow> string \<Rightarrow> string res" where
  "text_lines cfg path =
    rbind (rbind (MustGetMapData cfg path) (\<lambda>v. assert_type (as_list v))) (\<lambda>ls.
    rmap (join_on newline) (rmapM (\<lambda>l. assert_type (as_str l)) ls))"

definition setupAuthorization :: "(string \<Rightarrow> string \<Rightarrow> 'e res) \<Rightarrow> gval \<Rightarrow> 'e res" where
  "setupAuthorization newEnforcer cfg =
    rbind (text_lines cfg ''auth.casbin.models'') (\<lambda>models.
    rbind (text_lines cfg ''auth.casbin.policies'') (\<lambda>policies.
    newEnforcer models policies))"

text \<open>The methods, paths and definitions that have a handler.\<close>

definition setupRoutes :: "(string, (string, Def) gomap) gomap \<Rightarrow> (string \<times> string \<times> Def) list" where
  "setupRoutes apiDef = [(m, path, d\<lparr>df_Method := m, df_Path := path\<rparr>). (path, defs) \<leftarrow> apiDef, (m, d) \<leftarrow> defs,
     m = ''GET'' \<or> m = ''POST'']"

text \<open>The write time-out in nanoseconds, the routes and the enforcer.\<close>

definition GetAPIHandler :: "ext \<Rightarrow> (string \<Rightarrow> string \<Rightarrow> 'e res) \<Rightarrow> gval \<Rightarrow> (int \<times> (string \<times> string \<times> Def) list \<times> 'e) res" where
  "GetAPIHandler X newEnforcer cfg =
    rbind (case GetMapDataStr cfg ''writeTimeout'' of
        None \<Rightarrow> Inr (10 * 1000000000)
      | Some s \<Rightarrow> (case ext_parse_duration X s of None \<Rightarrow> Inl (PanicErr (''time: invalid duration '' @ s)) | Some d \<Rightarrow> Inr d)) (\<lambda>writeTimeout.
    rbind (setupAuthorization newEnforcer cfg) (\<lambda>enforcer.
    Inr (writeTimeout, setupRoutes GetDefs, enforcer)))"

section \<open>Responding\<close>

definition response_message :: "Message \<Rightarrow> string \<Rightarrow> (string, string) gomap \<Rightarrow> payload \<Rightarrow> Message" where
  "response_message request kind extra p = zero_message\<lparr>Channel := ''eventbus'', Subject := ''api'',
     Labels := Some ([(''type'', kind), (''uuid'', label_str request ''uuid''), (''from'', label_str request ''from'')] @ extra), Payload := p\<rparr>"

definition Resp_Ack :: "Message \<Rightarrow> Message" where
  "Resp_Ack request = response_message request ''ack'' [] PNil"

definition Resp_Return :: "Message \<Rightarrow> payload \<Rightarrow> Message" where
  "Resp_Return request p = response_message request ''result'' [] p"

definition Resp_ReturnError :: "Message \<Rightarrow> string \<Rightarrow> Message" where
  "Resp_ReturnError request e = response_message request ''result'' [(''error'', e)] PNil"

text \<open>
  The messages sent at once, and whether the call is to be handled; \<open>lock\<close> is the call to the locker for
  the request.
\<close>

definition NewResponse :: "(string \<Rightarrow> bool) \<Rightarrow> Message \<Rightarrow> Message list \<times> bool" where
  "NewResponse lock m = (case map_of GetDefsByName (label_str m ''fn'') of
      None \<Rightarrow> ([], False)
    | Some d \<Rightarrow> (case df_ReqType d of
        TypeAll \<Rightarrow> ([Resp_Ack m], True)
      | TypeFirst \<Rightarrow> ([], lock (''api_candidate:'' @ label_str m ''uuid''))
      | TypeMatch \<Rightarrow> ([], True)))"

text \<open>\<open>unmarshal\<close> decodes the body of a simulated event; the result is the event, if any, and the answer.\<close>

definition event_add :: "ext \<Rightarrow> (string \<Rightarrow> (string list \<times> gmap option) res) \<Rightarrow> string \<Rightarrow> Message \<Rightarrow> (Message \<times> Message) res" where
  "event_add X unmarshal eventID request =
    rbind (DeserializePayload X request) (\<lambda>req.
    rbind (MustGetMapDataStr (payload_val req) ''body'') (\<lambda>body.
    if \<not> has_prefix (label_str req ''content-type'') ''application/json''
    then Inl (PanicErr (''feature not supported: content-type: '' @ label_str req ''content-type''))
    else rbind (unmarshal body) (\<lambda>(events, data).
      Inr (zero_message\<lparr>Channel := ''eventbus'', Subject := ''message'', Labels := Some [(''eventID'', eventID)],
          Payload := PVal (GMap [(''events'', GList (map GStr events)), (''data'', omap_val data)])\<rparr>,
        Resp_Return req (PVal (GMap [(''eventID'', GStr eventID)]))))))"

text \<open>A panic that is not an error value panics again in the deferred function.\<close>

definition handleEventAdd :: "ext \<Rightarrow> (string \<Rightarrow> (string list \<times> gmap option) res) \<Rightarrow> (gopanic \<Rightarrow> string) \<Rightarrow> string \<Rightarrow> Message \<Rightarrow>
    (Message list \<times> Message) res" where
  "handleEventAdd X unmarshal err_text eventID request = (case event_add X unmarshal eventID request of
      Inr (event, answer) \<Rightarrow> Inr ([event], answer)
    | Inl (PanicStr s) \<Rightarrow> Inl TypeAssertion
    | Inl e \<Rightarrow> Inr ([], Resp_ReturnError request (err_text e)))"

definition APIFeatures :: "gmap option \<Rightarrow> gmap res" where
  "APIFeatures drivers = (case GetMapData (omap_val drivers) ''daemon.services.api.auth-providers'' of
      None \<Rightarrow> Inr []
    | Some GNil \<Rightarrow> Inr []
    | Some (GList ps) \<Rightarrow> rmap (\<lambda>names. fold (\<lambda>n. mput (''driver:'' @ hd (split_on CHR ''.'' n)) GNil) names []) (rmapM (\<lambda>p. assert_type (as_str p)) ps)
    | Some _ \<Rightarrow> Inl TypeAssertion)"

section \<open>Complete answers\<close>

inductive req_step :: "Request \<Rightarrow> Request \<Rightarrow> bool" where
  ack: "req_step r (request_ack responder r)"
| return: "req_step r (request_return responder errmsg result r)"
| over: "req_step r (acks_over r)"
| timeout: "req_step r (request_timeout r)"

inductive_cases req_stepE: "req_step r r'"

lemmas request_defs = request_ack_def request_return_def acks_over_def request_timeout_def postACK_def finish_request_def send_received_def

definition request_complete :: "Request \<Rightarrow> bool" where
  "request_complete r \<longleftrightarrow> (if rq_reqType r = TypeFirst then rq_results r \<noteq> []
     else rq_acks r \<noteq> [] \<and> length (rq_results r) = length (rq_acks r))"

lemma mput_not_Nil [simp]: "mput k v m \<noteq> []"
  by (cases m) auto

text \<open>
  C19: a request becomes ready without an error only with a complete answer: with a result, when the
  first one counts, and otherwise with as many results as there are acknowledgements, at least one;
  this holds for every step, in whatever order acknowledgements, results and time-outs come.
\<close>

theorem request_ready_complete:
  assumes "req_step r r'" and "rq_ready r \<noteq> ClosedChan" and "rq_ready r' = ClosedChan" and "rq_err r' = None"
  shows "request_complete r'"
  using assms(1)
proof (cases rule: req_step.cases)
  case (ack responder)
  with assms(2-4) show ?thesis by (auto simp: request_defs request_complete_def Let_def split: reqtype.splits if_splits)
next
  case (return responder errmsg result)
  with assms(2-4) show ?thesis
    by (auto simp: request_defs request_complete_def Let_def split: option.splits if_splits channel.splits)
next
  case over
  with assms(2-4) show ?thesis by (auto simp: request_defs request_complete_def Let_def split: if_splits)
next
  case timeout
  with assms(2-4) show ?thesis by (auto simp: request_defs split: if_splits)
qed

section \<open>Collecting all results\<close>

lemma mput_length: "map_of m k = None \<Longrightarrow> length (mput k v m) = Suc (length m)"
  by (induction m) auto

text \<open>The results of some of the responders, while the request is collecting.\<close>

definition add_results :: "(string, payload) gomap \<Rightarrow> Request \<Rightarrow> Request" where
  "add_results ps r = fold (\<lambda>(x, p). request_return x None p) ps r"

lemma add_results_collecting:
  assumes "rq_reqType r = TypeAll" and "rq_received r = OpenChan" and "rq_worker r = Collecting" and "rq_ready r = OpenChan"
    and "distinct (map fst ps)" and "\<forall>x \<in> fst ` set ps. map_of (rq_results r) x = None"
    and "length (rq_results r) + length ps \<le> length (rq_acks r)"
  shows "(\<forall>x \<in> fst ` set ps. map_of (rq_results (add_results ps r)) x = map_of ps x) \<and>
    (\<forall>x. x \<notin> fst ` set ps \<longrightarrow> map_of (rq_results (add_results ps r)) x = map_of (rq_results r) x) \<and> rq_err (add_results ps r) = rq_err r \<and>
    (ps \<noteq> [] \<longrightarrow> (rq_ready (add_results ps r) = ClosedChan) = (length (rq_results r) + length ps = length (rq_acks r))) \<and>
    length (rq_results (add_results ps r)) = length (rq_results r) + length ps"
  using assms
proof (induction ps arbitrary: r)
  case Nil
  then show ?case by (simp add: add_results_def)
next
  case (Cons xp ps)
  obtain x p where xp: "xp = (x, p)" by fastforce
  let ?r = "request_return x None p r"
  have len: "length (mput x p (rq_results r)) = Suc (length (rq_results r))" using Cons.prems(6) by (intro mput_length) (simp add: xp)
  have res: "rq_results ?r = mput x p (rq_results r)" "rq_err ?r = rq_err r" "rq_acks ?r = rq_acks r" "rq_reqType ?r = TypeAll"
    "(rq_ready ?r = ClosedChan) = (Suc (length (rq_results r)) = length (rq_acks r))"
    using Cons.prems(1-4) len by (auto simp: request_defs Let_def)
  show ?case
  proof (cases "ps = []")
    case True
    with res xp len show ?thesis by (simp add: add_results_def)
  next
    case False
    then have "Suc (length (rq_results r)) < length (rq_acks r)" using Cons.prems(7) by (cases ps) auto
    then have r: "rq_received ?r = OpenChan" "rq_worker ?r = Collecting" "rq_ready ?r = OpenChan"
      using Cons.prems(1-4) len by (auto simp: request_defs Let_def)
    have x: "x \<notin> fst ` set ps" "\<forall>y \<in> fst ` set ps. map_of (rq_results ?r) y = None" "length (rq_results ?r) + length ps \<le> length (rq_acks ?r)"
      using Cons.prems(5-7) res len by (auto simp: xp)
    note IH = Cons.IH [OF res(4) r _ x(2,3)]
    have "add_results (xp # ps) r = add_results ps ?r" by (simp add: add_results_def xp)
    with IH Cons.prems(5) res x(1) len False show ?thesis by (auto simp: xp)
  qed
qed

text \<open>What arrives while acknowledgements are awaited: acknowledgements and results, in any order.\<close>

datatype reply = Ack string | Result string payload

fun handle_reply :: "reply \<Rightarrow> Request \<Rightarrow> Request" where
  "handle_reply (Ack x) = request_ack x"
| "handle_reply (Result x p) = request_return x None p"

fun reply_ack :: "reply \<Rightarrow> string option" where
  "reply_ack (Ack x) = Some x"
| "reply_ack (Result x p) = None"

fun reply_result :: "reply \<Rightarrow> (string \<times> payload) option" where
  "reply_result (Ack x) = None"
| "reply_result (Result x p) = Some (x, p)"

definition replied :: "reply list \<Rightarrow> string list \<times> (string, payload) gomap" where
  "replied es = (List.map_filter reply_ack es, List.map_filter reply_result es)"

lemma window_replies:
  assumes "rq_reqType r = TypeAll" and "rq_received r = NilChan" and "replied es = (rs, ps)"
  shows "fold handle_reply es r = r\<lparr>rq_acks := rq_acks r @ rs, rq_results := fold (\<lambda>(x, p). mput x p) ps (rq_results r)\<rparr>"
  using assms
proof (induction es arbitrary: r rs ps)
  case (Cons e es)
  show ?case
  proof (cases e)
    case (Ack x)
    with Cons show ?thesis by (auto simp: replied_def request_ack_def map_filter_simps)
  next
    case (Result x p)
    with Cons show ?thesis by (auto simp: replied_def request_return_def Let_def map_filter_simps)
  qed
qed (simp add: replied_def map_filter_simps)

lemma fold_mput:
  "distinct (map fst ps) \<Longrightarrow> (\<And>x. x \<in> fst ` set ps \<Longrightarrow> map_of m x = None) \<Longrightarrow>
    length (fold (\<lambda>(x, p). mput x p) ps m) = length m + length ps \<and>
    map_of (fold (\<lambda>(x, p). mput x p) ps m) x = (case map_of ps x of Some p \<Rightarrow> Some p | None \<Rightarrow> map_of m x)"
proof (induction ps arbitrary: m)
  case (Cons xp ps)
  obtain y p where xp: "xp = (y, p)" by fastforce
  have y: "map_of m y = None" "y \<notin> fst ` set ps" using Cons.prems by (auto simp: xp)
  then have none: "map_of ps y = None" by (simp add: map_of_eq_None_iff)
  from y have "map_of (mput y p m) z = None" if "z \<in> fst ` set ps" for z using that Cons.prems(2) by (auto simp: xp)
  from Cons.IH [OF _ this] Cons.prems(1) none mput_length [OF y(1)] show ?case by (simp add: xp split: option.split)
qed simp


section \<open>Lost answers\<close>

text \<open>
  An error that a node returns while acknowledgements are still awaited is lost: the handler blocks
  for ever on a channel that does not exist yet, the request goes on waiting, and after its time-out the
  error is replaced; a request without a time-out waits on.
\<close>

theorem early_error_lost:
  assumes "rq_reqType r = TypeAll" and "rq_worker r = Acking" and "rq_received r = NilChan" and "rq_ready r = OpenChan"
    and "length (rq_results r) < length (rq_acks r)"
  shows "let r' = acks_over (request_return responder (Some e) p r) in
    rq_stuck r' = Suc (rq_stuck r) \<and> rq_ready r' = OpenChan \<and>
    (if rq_timeout r = InfiniteDuration then request_timeout r' = r'
     else rq_err (request_timeout r') = Some TimedOut \<and> rq_ready (request_timeout r') = ClosedChan)"
  using assms by (auto simp: request_defs Let_def)

text \<open>A request whose goroutine was not started.\<close>

lemma not_started_stays:
  assumes "req_step r r'" and "rq_worker r = NotStarted" and "rq_received r = NilChan" and "rq_ready r = OpenChan"
  shows "rq_worker r' = NotStarted \<and> rq_received r' = NilChan \<and> rq_ready r' = OpenChan"
  using assms by (auto elim!: req_stepE simp: request_defs Let_def split: reqtype.split option.split)

text \<open>
  When the broadcast of a long-running GET fails, the request stays registered for its path without
  a goroutine: every later GET of that path gets this request again, dispatches nothing, and never
  becomes ready, whatever is acknowledged or returned.
\<close>

theorem failed_dispatch_blocks_path:
  assumes "Dispatch broadcast r st = (st', Some e)" and "rq_ready r = NilChan" and "rq_received r = NilChan"
    and "rq_worker r = NotStarted" and "kept_by_input st r"
    and "df_Method d = ''GET''" and "rc_path c = rq_urlPath r"
  shows "\<exists>r1. GetRequest X uuid d c st' = Inr r1 \<and> (\<forall>broadcast'. Dispatch broadcast' r1 st' = (st', None)) \<and>
    (\<forall>r'. req_step\<^sup>*\<^sup>* r1 r' \<longrightarrow> rq_ready r' \<noteq> ClosedChan)"
proof -
  let ?r1 = "r\<lparr>rq_ready := OpenChan, rq_results := []\<rparr>"
  have st': "st' = SaveRequest ?r1 st" using assms(1,2) by (auto simp: Dispatch_def Let_def split: option.splits)
  have "kept_by_input st ?r1" using assms(5) by (simp add: kept_by_input_def)
  then have get: "GetRequest X uuid d c st' = Inr ?r1" using assms(6,7) by (simp add: st' SaveRequest_def GetRequest_def)
  have "rq_worker r' = NotStarted \<and> rq_received r' = NilChan \<and> rq_ready r' = OpenChan" if "req_step\<^sup>*\<^sup>* ?r1 r'" for r'
    using that
  proof (induction rule: rtranclp_induct)
    case base
    with assms(3,4) show ?case by simp
  next
    case (step x y)
    then show ?case using not_started_stays by blast
  qed
  with get show ?thesis by (fastforce simp: Dispatch_def)
qed

section \<open>Who may call\<close>

lemma try_providers_Authenticated:
  "try_providers X call ps = Authenticated v provider \<Longrightarrow>
    \<exists>s fn bytes. GStr s \<in> set ps \<and> provider = hd (split_on CHR ''.'' s) \<and> call (''driver:'' @ provider) fn = Inr (Some bytes) \<and>
      DeserializeContent X bytes = Inr v"
proof (induction ps)
  case (Cons p ps)
  from Cons.prems obtain s where p: "p = GStr s" by (cases p) auto
  show ?case
  proof (cases "call (''driver:'' @ hd (split_on CHR ''.'' s)) (if length (split_on CHR ''.'' s) > 1 then split_on CHR ''.'' s ! 1 else ''auth_web_request'')")
    case (Inl err)
    with Cons p show ?thesis by (auto simp: Let_def)
  next
    case (Inr b)
    with Cons.prems p show ?thesis by (cases b) (auto simp: Let_def split: sum.splits)
  qed
qed simp

lemma Authorize_True:
  "Authorize enforce c d = Inr True \<Longrightarrow> \<exists>sub provider. rc_subject c = Some (GStr sub) \<and> rc_provider c = Some (GStr provider) \<and>
    enforce sub (df_Object d) (df_Method d) provider = Inr True"
  by (auto simp: Authorize_def rbind_Inr_conv assert_type_def split: option.splits elim!: as_str.elims)

lemma HandleHTTPRequest_changes:
  "HandleHTTPRequest X enforce broadcast uuid c d st = (st', a) \<Longrightarrow> st' \<noteq> st \<or> (\<exists>r. a = Inr (Pending r)) \<Longrightarrow> Authorize enforce c d = Inr True"
  by (auto simp: HandleHTTPRequest_def split: sum.splits bool.splits)

lemma dispatched_authorized:
  assumes "serve_request X call enforce broadcast uuid c d st = (st', a)" and "st' \<noteq> st \<or> (\<exists>r. a = Pending r)"
  shows "\<exists>ps s fn bytes sub provider. GetMapData (st_config st) ''auth-providers'' = Some (GList ps) \<and> GStr s \<in> set ps \<and>
    provider = hd (split_on CHR ''.'' s) \<and> call (''driver:'' @ provider) fn = Inr (Some bytes) \<and>
    DeserializeContent X bytes = Inr (GStr sub) \<and> enforce sub (df_Object d) (df_Method d) provider = Inr True"
proof (cases "AuthMiddleware X call st")
  case Anonymous
  let ?c = "c\<lparr>rc_subject := None, rc_provider := None\<rparr>"
  obtain st1 a1 where h: "HandleHTTPRequest X enforce broadcast uuid ?c d st = (st1, a1)" by fastforce
  with assms Anonymous have "st1 \<noteq> st \<or> (\<exists>r. a1 = Inr (Pending r))"
    by (auto simp: serve_request_def Let_def split: sum.splits)
  from HandleHTTPRequest_changes [OF h this] show ?thesis by (simp add: Authorize_def)
next
  case (Authenticated v provider)
  let ?c = "c\<lparr>rc_subject := Some v, rc_provider := Some (GStr provider)\<rparr>"
  obtain st1 a1 where h: "HandleHTTPRequest X enforce broadcast uuid ?c d st = (st1, a1)" by fastforce
  with assms Authenticated have "st1 \<noteq> st \<or> (\<exists>r. a1 = Inr (Pending r))"
    by (auto simp: serve_request_def Let_def split: sum.splits)
  from Authorize_True [OF HandleHTTPRequest_changes [OF h this]] obtain sub where sub: "v = GStr sub"
    "enforce sub (df_Object d) (df_Method d) provider = Inr True" by auto
  obtain ps where ps: "GetMapData (st_config st) ''auth-providers'' = Some (GList ps)" "try_providers X call ps = Authenticated v provider"
    using Authenticated by (auto simp: AuthMiddleware_def split: option.splits gval.splits list.splits)
  with try_providers_Authenticated [OF ps(2)] sub show ?thesis by blast
qed (use assms in \<open>auto simp: serve_request_def Let_def\<close>)

section \<open>An event added through the API\<close>

text \<open>
  A call that the first node to take it answers: the result that the node returns for the request it
  was sent finds its way to that request and answers it, and to no other one.
\<close>

theorem first_result_returns:
  assumes "label m ''uuid'' = Some uuid" and "label m ''from'' = Some node" and "uuid \<in> set (st_requests st)"
    and "st_pool st uuid = r" and "rq_reqType r = TypeFirst" and "rq_worker r = Acking" and "rq_acks r = []" and "rq_results r = []" and "rq_err r = None"
  shows "let st' = handleAPIMessage X (Resp_Return m (PVal v)) (upd_request uuid acks_over st); r' = st_pool st' uuid in
    http_status st' r' = 200 \<and> rq_results r' = [(node, PVal v)] \<and> (\<forall>u. u \<noteq> uuid \<longrightarrow> st_pool st' u = st_pool st u)"
proof -
  have "label (Resp_Return m (PVal v)) ''type'' = Some ''result''" "label (Resp_Return m (PVal v)) ''uuid'' = Some uuid"
    "label (Resp_Return m (PVal v)) ''from'' = Some node" "label (Resp_Return m (PVal v)) ''error'' = None"
    "Payload (Resp_Return m (PVal v)) = PVal v" "\<not> IsRaw (Resp_Return m (PVal v))"
    using assms(1,2) by (simp_all add: Resp_Return_def response_message_def label_def label_str_def labels_def zero_message_def)
  then have "handleAPIMessage X (Resp_Return m (PVal v)) s = upd_request uuid (request_return node None (PVal v)) s" if "uuid \<in> set (st_requests s)" for s
    using that by (simp add: handleAPIMessage_def HandleAPIReturn_def DeserializePayload_def)
  then show ?thesis using assms(3-9)
    by (simp add: upd_request_def acks_over_def postACK_def request_return_def send_received_def finish_request_def Let_def http_status_def)
qed

text \<open>
  Nothing is dispatched for a caller who is not allowed to: a request is stored or gets more than a
  status only when one of the configured providers has returned the subject through its driver and
  the enforcer allows this subject of this provider the object and method of the route.
\<close>

theorem api_authorized:
  assumes "serve_request X call enforce broadcast uuid c d st = (st', a)" and "st' \<noteq> st \<or> (\<exists>r. a = Pending r)"
  shows "\<exists>ps s fn bytes sub provider. GetMapData (st_config st) ''auth-providers'' = Some (GList ps) \<and> GStr s \<in> set ps \<and>
    provider = hd (split_on CHR ''.'' s) \<and> call (''driver:'' @ provider) fn = Inr (Some bytes) \<and>
    DeserializeContent X bytes = Inr (GStr sub) \<and> enforce sub (df_Object d) (df_Method d) provider = Inr True"
  by (rule dispatched_authorized [OF assms])

section \<open>Witnesses\<close>

definition sample_ctx :: RequestContext where
  "sample_ctx = \<lparr>rc_path = ''/api/events'', rc_payload = (\<lambda>_. Inr []), rc_contentType = ''application/json'', rc_subject = None, rc_provider = None\<rparr>"

definition sample_request :: "string \<Rightarrow> Request" where
  "sample_request name = (new_request ''u1'' (the (map_of GetDefsByName name)) sample_ctx [] 1 (df_Timeout (the (map_of GetDefsByName name))))
     \<lparr>rq_ready := OpenChan, rq_worker := Acking\<rparr>"

definition sample_store :: Store where
  "sample_store = \<lparr>st_config = GMap [(''auth-providers'', GList [GStr ''simple''])], st_writeTimeout = 10, st_pool = (\<lambda>_. sample_request ''eventAdd''),
     st_requests = [''u1''], st_byInput = []\<rparr>"

lemma sample_request_facts:
  "rq_reqType (sample_request ''eventList'') = TypeAll" "rq_worker (sample_request ''eventList'') = Acking"
  "rq_ready (sample_request ''eventList'') = OpenChan" "rq_received (sample_request ''eventList'') = NilChan"
  "rq_acks (sample_request ''eventList'') = []" "rq_results (sample_request ''eventList'') = []" "rq_err (sample_request ''eventList'') = None"
  "rq_timeout (sample_request ''eventList'') = 0"
  by code_simp+

theorem request_ready_complete_witness:
  "request_complete (request_return ''n1'' None (PVal GNil) (acks_over (sample_request ''eventAdd'')))"
proof (rule request_ready_complete)
  show "req_step (acks_over (sample_request ''eventAdd'')) (request_return ''n1'' None (PVal GNil) (acks_over (sample_request ''eventAdd'')))"
    by (rule req_step.return)
  show "rq_ready (acks_over (sample_request ''eventAdd'')) \<noteq> ClosedChan"
    "rq_ready (request_return ''n1'' None (PVal GNil) (acks_over (sample_request ''eventAdd''))) = ClosedChan"
    "rq_err (request_return ''n1'' None (PVal GNil) (acks_over (sample_request ''eventAdd''))) = None"
    by code_simp+
qed


theorem early_error_lost_witness:
  "rq_err (request_timeout (acks_over (request_return ''n1'' (Some ''boom'') PNil (request_ack ''n1'' (sample_request ''eventList''))))) = Some TimedOut"
proof -
  let ?r = "request_ack ''n1'' (sample_request ''eventList'')"
  have "rq_reqType ?r = TypeAll" "rq_worker ?r = Acking" "rq_received ?r = NilChan" "rq_ready ?r = OpenChan"
    "length (rq_results ?r) < length (rq_acks ?r)" "rq_timeout ?r \<noteq> InfiniteDuration"
    by code_simp+
  then show ?thesis using early_error_lost [of ?r "''n1''" "''boom''" PNil] by (simp add: Let_def)
qed

definition sample_wait :: Def where
  "sample_wait = the (map_of GetDefsByName ''eventWait'')"

theorem failed_dispatch_blocks_path_witness:
  "\<exists>st' r1. Dispatch (\<lambda>_. Some NilDereference) (new_request ''u2'' sample_wait sample_ctx [] 1 InfiniteDuration) sample_store = (st', Some NilDereference) \<and>
    GetRequest no_ext ''u3'' sample_wait sample_ctx st' = Inr r1 \<and> (\<forall>r'. req_step\<^sup>*\<^sup>* r1 r' \<longrightarrow> rq_ready r' \<noteq> ClosedChan)"
proof -
  let ?r = "new_request ''u2'' sample_wait sample_ctx [] 1 InfiniteDuration"
  have "df_Method sample_wait = ''GET''" by code_simp
  then have r: "rq_ready ?r = NilChan" "rq_received ?r = NilChan" "rq_worker ?r = NotStarted" "kept_by_input sample_store ?r"
    "df_Method sample_wait = ''GET''" "rc_path sample_ctx = rq_urlPath ?r"
    by (simp_all add: new_request_def kept_by_input_def)
  obtain st' where run: "Dispatch (\<lambda>_. Some NilDereference) ?r sample_store = (st', Some NilDereference)"
    using r(1) by (simp add: Dispatch_def Let_def)
  from failed_dispatch_blocks_path [OF run r, of no_ext "''u3''"] run show ?thesis by blast
qed

theorem api_authorized_witness:
  "\<exists>ps s fn bytes sub provider. GetMapData (st_config sample_store) ''auth-providers'' = Some (GList ps) \<and> GStr s \<in> set ps \<and>
    provider = hd (split_on CHR ''.'' s) \<and>
    (\<lambda>d f. if d = ''driver:simple'' then Inr (Some ''alice'') else Inl ''no'') (''driver:'' @ provider) fn = Inr (Some bytes) \<and>
    DeserializeContent no_ext bytes = Inr (GStr sub) \<and> (sub = ''alice'') \<and> provider = ''simple''"
proof -
  let ?call = "\<lambda>d f. if d = ''driver:simple'' then Inr (Some ''alice'') else Inl ''no''"
  let ?enforce = "\<lambda>sub obj act provider. Inr (sub = ''alice'' \<and> provider = ''simple'')"
  obtain st' a where run: "serve_request no_ext ?call ?enforce (\<lambda>_. None) ''u9'' sample_ctx (the (map_of GetDefsByName ''eventAdd'')) sample_store = (st', a)"
    by fastforce
  have "(case snd (serve_request no_ext ?call ?enforce (\<lambda>_. None) ''u9'' sample_ctx (the (map_of GetDefsByName ''eventAdd'')) sample_store) of
      Pending r \<Rightarrow> True | Status n \<Rightarrow> False)" by code_simp
  with run have "\<exists>r. a = Pending r" by (auto split: answer.splits)
  from api_authorized [OF run disjI2 [OF this]] show ?thesis by simp
qed

definition sample_api_call :: Message where
  "sample_api_call = zero_message\<lparr>Labels := Some [(''uuid'', ''u1''), (''from'', ''n1''), (''fn'', ''eventAdd'')]\<rparr>"

theorem first_result_returns_witness:
  "http_status sample_store (st_pool (handleAPIMessage no_ext (Resp_Return sample_api_call (PVal GNil)) (upd_request ''u1'' acks_over sample_store)) ''u1'') = 200"
proof -
  have "label sample_api_call ''uuid'' = Some ''u1''" "label sample_api_call ''from'' = Some ''n1''" "''u1'' \<in> set (st_requests sample_store)"
    "st_pool sample_store ''u1'' = sample_request ''eventAdd''"
    by (simp_all add: sample_api_call_def label_def labels_def sample_store_def)
  moreover have "rq_reqType (sample_request ''eventAdd'') = TypeFirst" "rq_worker (sample_request ''eventAdd'') = Acking"
    "rq_acks (sample_request ''eventAdd'') = []" "rq_results (sample_request ''eventAdd'') = []" "rq_err (sample_request ''eventAdd'') = None"
    by code_simp+
  ultimately have "let st' = handleAPIMessage no_ext (Resp_Return sample_api_call (PVal GNil)) (upd_request ''u1'' acks_over sample_store); r' = st_pool st' ''u1'' in
      http_status st' r' = 200 \<and> rq_results r' = [(''n1'', PVal GNil)] \<and> (\<forall>u. u \<noteq> ''u1'' \<longrightarrow> st_pool st' u = st_pool sample_store u)"
    by (rule first_result_returns)
  moreover have "rq_ready (st_pool (handleAPIMessage no_ext (Resp_Return sample_api_call (PVal GNil)) (upd_request ''u1'' acks_over sample_store)) ''u1'') = ClosedChan"
    by code_simp
  ultimately show ?thesis by (simp add: Let_def http_status_def)
qed

end
