(* ===== verification/ConfigCheck.thy ===== *)
theory ConfigCheck
  imports RepoLoad Staging Services Api
begin

text \<open>
  \<open>cmd/honeydipper/configcheck.go\<close>: the auxiliary service that checks a configuration before it is
  deployed. It loads the repositories, moves the data to the stage where systems are extended, and
  looks at the errors of loading, the contexts, the rules, the workflows and the authorisation tests.
  The exit code is 1 when anything is wrong.

  A check reports by a panic: with a value of its own type, which carries the place in the workflow, or
  with any other error. \<open>mapstructure\<close> decoding of a nested workflow, the text of a panic, the tests
  file and the casbin enforcer are parameters. A nested workflow is checked by recursion; \<open>n\<close> bounds
  its depth. What is printed is left out.
\<close>

section \<open>Checks\<close>

record auth_test =
  at_Subject :: string
  at_Object :: string
  at_Action :: string
  at_Provider :: string
  at_Result :: bool

record auth_tests =
  ats_Models :: "gval list"
  ats_Policies :: "gval list"
  ats_Tests :: "auth_test list"

record checker =
  ck_decode :: "gval \<Rightarrow> string + Workflow"
  ck_text :: "gopanic \<Rightarrow> string"
  ck_read :: "string \<Rightarrow> string res"
  ck_unmarshal :: "string \<Rightarrow> string + auth_tests"
  ck_ext :: ext
  ck_enforcer :: "string \<Rightarrow> string \<Rightarrow> (string \<Rightarrow> string \<Rightarrow> string \<Rightarrow> string \<Rightarrow> string + bool) res"

datatype check_panic = CLError string string | Panic gopanic

definition quoted :: "string \<Rightarrow> string" where
  "quoted s = CHR 0x22 # s @ [CHR 0x22]"

definition hasLiteral :: "string \<Rightarrow> bool" where
  "hasLiteral param = (let s = trim_space param in
     s \<noteq> [] \<and> hd s \<noteq> CHR ''$'' \<and> \<not> (has_prefix s ''{{'' \<and> has_suffix s ''}}'') \<and> \<not> has_prefix s '':yaml:'')"

definition hasInterpolation :: "string \<Rightarrow> bool" where
  "hasInterpolation param = (let s = trim_space param in
     s \<noteq> [] \<and> (hd s = CHR ''$'' \<or> contains s ''{{'') \<or> has_prefix s '':yaml:'')"

text \<open>\<open>fieldChecker\<close> is the name of the field that is set, empty when none is.\<close>

definition setField :: "string \<Rightarrow> bool \<Rightarrow> string \<Rightarrow> string res" where
  "setField name condition field =
    (if \<not> condition then Inr field
     else if field \<noteq> [] then Inl (PanicErr (''cannot define both '' @ quoted field @ '' and '' @ quoted name))
     else Inr name)"

definition allowFieldWhenSet :: "string \<Rightarrow> bool \<Rightarrow> string \<Rightarrow> unit res" where
  "allowFieldWhenSet name condition field =
    (if condition \<and> field = [] then Inl (PanicErr (''field '' @ quoted name @ '' not allowed without pairing field'')) else Inr ())"

fun set_fields :: "(string \<times> bool) list \<Rightarrow> string \<Rightarrow> string res" where
  "set_fields [] field = Inr field"
| "set_fields ((name, condition) # fs) field = rbind (setField name condition field) (set_fields fs)"

definition checkObjectExists :: "string \<Rightarrow> string \<Rightarrow> (string, 'a) gomap \<Rightarrow> unit res" where
  "checkObjectExists t name m =
    (if name \<noteq> [] \<and> \<not> hasInterpolation name \<and> map_of m name = None
     then Inl (PanicErr (t @ '' '' @ quoted name @ '' not defined'')) else Inr ())"

definition checkIsList :: "string \<Rightarrow> gval \<Rightarrow> unit res" where
  "checkIsList name v = (case v of
      GNil \<Rightarrow> Inr ()
    | GStr s \<Rightarrow> if s \<noteq> [] \<and> hasLiteral s
        then Inl (PanicErr (''field '' @ quoted name @ '' must be a list or something interpolated into a list'')) else Inr ()
    | GList _ \<Rightarrow> Inr ()
    | _ \<Rightarrow> Inl (PanicErr (''field '' @ quoted name @ '' must be a list or something interpolated into a list'')))"

definition given :: "'a list option \<Rightarrow> bool" where
  "given xs \<longleftrightarrow> (case xs of None \<Rightarrow> False | Some ys \<Rightarrow> ys \<noteq> [])"

definition action_fields :: "Workflow \<Rightarrow> (string \<times> bool) list" where
  "action_fields w = (let d = wd w in
    [(''call_workflow'', hasLiteral (wf_Workflow d)), (''call_function'', hasLiteral (wf_CallFunction d)),
     (''call_driver'', hasLiteral (wf_CallDriver d)), (''wait'', wf_Wait d \<noteq> []), (''steps'', given (Steps w)),
     (''threads'', given (Threads w)), (''switch'', wf_Switch d \<noteq> [])])"

definition checkWorkflowActions :: "Workflow \<Rightarrow> unit res" where
  "checkWorkflowActions w = rmap (\<lambda>_. ()) (set_fields (action_fields w) [])"

definition condition_fields :: "Workflow \<Rightarrow> (string \<times> bool) list" where
  "condition_fields w = (let d = wd w in
    [(''if_match'', wf_Match d \<noteq> GNil), (''unless_match'', wf_UnlessMatch d \<noteq> GNil),
     (''while_match'', wf_WhileMatch d \<noteq> GNil), (''until_match'', wf_UntilMatch d \<noteq> GNil),
     (''if'', wf_If d \<noteq> []), (''unless'', wf_Unless d \<noteq> []), (''if_any'', wf_IfAny d \<noteq> []),
     (''unless_all'', wf_UnlessAll d \<noteq> []), (''while'', wf_While d \<noteq> []), (''while_any'', wf_WhileAny d \<noteq> []),
     (''until_all'', wf_UntilAll d \<noteq> [])])"

definition checkWorkflowConditions :: "Workflow \<Rightarrow> unit res" where
  "checkWorkflowConditions w =
     rbind (set_fields (condition_fields w) []) (allowFieldWhenSet ''else'' (wf_Else (wd w) \<noteq> GNil))"

definition checkWorkflowFunction :: "Workflow \<Rightarrow> DataSet \<Rightarrow> unit res" where
  "checkWorkflowFunction w c = (let call = wf_CallFunction (wd w); f = wf_Function (wd w) in
    if call \<noteq> [] \<and> \<not> hasInterpolation call then
      (let parts = split_on CHR ''.'' call in
       rbind (checkObjectExists ''system'' (hd parts) (Systems c)) (\<lambda>_.
       if length parts < 2 then Inl IndexOutOfRange
       else checkObjectExists (hd parts @ '' function'') (parts ! 1) (sys_Functions (sys_of (Systems c) (hd parts)))))
    else if fn_TargetSystem f \<noteq> [] \<and> \<not> hasInterpolation (fn_TargetSystem f) then
      rbind (checkObjectExists ''system'' (fn_TargetSystem f) (Systems c)) (\<lambda>_.
      if hasInterpolation (fn_TargetFunction f) then Inr ()
      else checkObjectExists (fn_TargetSystem f @ '' function'') (fn_TargetFunction f)
        (sys_Functions (sys_of (Systems c) (fn_TargetSystem f))))
    else Inr ())"

definition checkWorkflowDriver :: "Workflow \<Rightarrow> DataSet \<Rightarrow> unit res" where
  "checkWorkflowDriver w c = (let call = wf_CallDriver (wd w); f = wf_Function (wd w) in
    if call \<noteq> [] \<and> \<not> hasInterpolation call then checkObjectExists ''driver'' (hd (split_on CHR ''.'' call)) (omap (Drivers c))
    else if fn_Driver f \<noteq> [] \<and> \<not> hasInterpolation (fn_Driver f) then checkObjectExists ''driver'' (fn_Driver f) (omap (Drivers c))
    else Inr ())"

text \<open>The checks of a workflow itself, in the order of the code.\<close>

definition own_checks :: "Workflow \<Rightarrow> DataSet \<Rightarrow> unit res" where
  "own_checks w c =
    rbind (checkWorkflowActions w) (\<lambda>_.
    rbind (checkWorkflowConditions w) (\<lambda>_.
    rbind (checkObjectExists ''workflow'' (wf_Workflow (wd w)) (Workflows c)) (\<lambda>_.
    rbind (checkWorkflowFunction w c) (\<lambda>_.
    rbind (checkWorkflowDriver w c) (\<lambda>_.
    rbind (checkIsList ''contexts'' (wf_Contexts (wd w))) (\<lambda>_.
    rbind (checkIsList ''iterate'' (wf_Iterate (wd w))) (\<lambda>_.
    checkIsList ''iterate_parallel'' (wf_IterateParallel (wd w)))))))))"

section \<open>Nested workflows\<close>

text \<open>\<open>self\<close> gives the location and the message, which is empty when nothing is wrong.\<close>

definition check_child :: "(Workflow \<Rightarrow> (string \<times> string) res) \<Rightarrow> string \<Rightarrow> Workflow \<Rightarrow> check_panic + unit" where
  "check_child self prefix w = (case self w of
      Inl e \<Rightarrow> Inl (Panic e)
    | Inr (l, msg) \<Rightarrow> if msg \<noteq> [] then Inl (CLError (prefix @ l) msg) else Inr ())"

definition check_else :: "checker \<Rightarrow> (Workflow \<Rightarrow> (string \<times> string) res) \<Rightarrow> gval \<Rightarrow> check_panic + unit" where
  "check_else P self child =
    (if child = GNil then Inr ()
     else (case ck_decode P child of
         Inl msg \<Rightarrow> Inl (CLError ''else/'' msg)
       | Inr w \<Rightarrow> check_child self ''else/'' w))"

fun check_numbered :: "(Workflow \<Rightarrow> (string \<times> string) res) \<Rightarrow> string \<Rightarrow> nat \<Rightarrow> Workflow list \<Rightarrow> check_panic + unit" where
  "check_numbered self kind i [] = Inr ()"
| "check_numbered self kind i (w # ws) = (case check_child self (kind @ utoa i @ ''/'') w of
      Inl e \<Rightarrow> Inl e
    | Inr _ \<Rightarrow> check_numbered self kind (Suc i) ws)"

definition check_children :: "checker \<Rightarrow> (Workflow \<Rightarrow> (string \<times> string) res) \<Rightarrow> Workflow \<Rightarrow> check_panic + unit" where
  "check_children P self w = (let or_none = (\<lambda>xs. case xs of None \<Rightarrow> [] | Some ys \<Rightarrow> ys) in
    case check_else P self (wf_Else (wd w)) of
      Inl e \<Rightarrow> Inl e
    | Inr _ \<Rightarrow> (case check_numbered self ''step/'' 0 (or_none (Steps w)) of
        Inl e \<Rightarrow> Inl e
      | Inr _ \<Rightarrow> check_numbered self ''thread/'' 0 (or_none (Threads w))))"

text \<open>The deferred function; it asserts that a value of another type is an error.\<close>

definition recovered_check :: "checker \<Rightarrow> check_panic + unit \<Rightarrow> (string \<times> string) res" where
  "recovered_check P r = (case r of
      Inr _ \<Rightarrow> Inr (''/'', [])
    | Inl (CLError l msg) \<Rightarrow> Inr (l, msg)
    | Inl (Panic e) \<Rightarrow> if fatal e then Inl e else if is_error e then Inr (''/'', ck_text P e) else Inl TypeAssertion)"

fun checkWorkflow :: "checker \<Rightarrow> nat \<Rightarrow> DataSet \<Rightarrow> Workflow \<Rightarrow> (string \<times> string) res" where
  "checkWorkflow P 0 c w = Inl StackOverflow"
| "checkWorkflow P (Suc n) c w = recovered_check P (case own_checks w c of
      Inl e \<Rightarrow> Inl (Panic e)
    | Inr _ \<Rightarrow> check_children P (checkWorkflow P n c) w)"

definition checkContext :: "checker \<Rightarrow> DataSet \<Rightarrow> string \<Rightarrow> string res" where
  "checkContext P c name = (case checkObjectExists ''workflow'' name (Workflows c) of
      Inr _ \<Rightarrow> Inr []
    | Inl e \<Rightarrow> if is_error e then Inr (ck_text P e) else Inl TypeAssertion)"

section \<open>The whole configuration\<close>

text \<open>Whether one of the loops found an error; a context that is no map panics.\<close>

fun check_names :: "checker \<Rightarrow> DataSet \<Rightarrow> string list \<Rightarrow> bool res" where
  "check_names P c [] = Inr False"
| "check_names P c (name # names) =
     rbind (if name = ''*'' \<or> name = ''_events'' then Inr [] else checkContext P c name) (\<lambda>msg.
     rmap (\<lambda>found. msg \<noteq> [] \<or> found) (check_names P c names))"

fun check_contexts :: "checker \<Rightarrow> DataSet \<Rightarrow> gmap \<Rightarrow> bool res" where
  "check_contexts P c [] = Inr False"
| "check_contexts P c ((_, contextValue) # cs) =
     rbind (assert_type (as_map contextValue)) (\<lambda>m.
     rbind (check_names P c (map fst m)) (\<lambda>bad.
     rmap (\<lambda>found. bad \<or> found) (check_contexts P c cs)))"

fun check_workflows :: "checker \<Rightarrow> nat \<Rightarrow> DataSet \<Rightarrow> Workflow list \<Rightarrow> bool res" where
  "check_workflows P n c [] = Inr False"
| "check_workflows P n c (w # ws) =
     rbind (checkWorkflow P n c w) (\<lambda>(_, msg).
     rmap (\<lambda>found. msg \<noteq> [] \<or> found) (check_workflows P n c ws))"

definition Repo_ReadFile :: "checker \<Rightarrow> Repo \<Rightarrow> string \<Rightarrow> string res" where
  "Repo_ReadFile P repo filename = ck_read P (path_Join (rp_root repo) (drop 1 filename))"

text \<open>The tests add their models and policies to those of the configuration.\<close>

definition append_to :: "string \<Rightarrow> gval list \<Rightarrow> gmap \<Rightarrow> gmap res" where
  "append_to key xs m = rmap (\<lambda>ys. mput key (GList (ys @ xs)) m)
     (assert_type (case map_of m key of None \<Rightarrow> None | Some v \<Rightarrow> as_list v))"

definition put_casbin :: "gmap \<Rightarrow> gmap \<Rightarrow> gmap" where
  "put_casbin casbin m = (case map_of m ''auth'' of
      Some (GMap auth) \<Rightarrow> mput ''auth'' (GMap (mput ''casbin'' (GMap casbin) auth)) m
    | _ \<Rightarrow> m)"

definition inject_tests :: "auth_tests \<Rightarrow> gmap option \<Rightarrow> gmap res" where
  "inject_tests tests drivers =
    rbind (rbind (MustGetMapData (omap_val drivers) ''daemon.services.api'') (\<lambda>v. assert_type (as_map v))) (\<lambda>apiCfg.
    rbind (rbind (MustGetMapData (GMap apiCfg) ''auth.casbin'') (\<lambda>v. assert_type (as_map v))) (\<lambda>casbin.
    rbind (append_to ''models'' (ats_Models tests) casbin) (\<lambda>c1.
    rbind (append_to ''policies'' (ats_Policies tests) c1) (\<lambda>c2.
    Inr (put_casbin c2 apiCfg)))))"

text \<open>The tests up to the first error of the enforcer: whether all are as expected.\<close>

fun run_auth_tests :: "(string \<Rightarrow> string \<Rightarrow> string \<Rightarrow> string \<Rightarrow> string + bool) \<Rightarrow> auth_test list \<Rightarrow> bool" where
  "run_auth_tests enforce [] \<longleftrightarrow> True"
| "run_auth_tests enforce (t # ts) \<longleftrightarrow> (case enforce (at_Subject t) (at_Object t) (at_Action t) (at_Provider t) of
      Inl e \<Rightarrow> False
    | Inr allowed \<Rightarrow> allowed = at_Result t \<and> run_auth_tests enforce ts)"

definition error_exit :: "gopanic \<Rightarrow> nat res" where
  "error_exit e = (if is_error e then Inr 1 else Inl TypeAssertion)"

definition checkAuthRules :: "checker \<Rightarrow> repos \<Rightarrow> RepoInfo \<Rightarrow> gmap option \<Rightarrow> nat res" where
  "checkAuthRules P loaded initRepo drivers = (case map_of loaded initRepo of
      None \<Rightarrow> Inr 0
    | Some repo \<Rightarrow> (case Repo_ReadFile P repo ''/tests/api_auth_tests.yaml'' of
        Inl _ \<Rightarrow> Inr 0
      | Inr b \<Rightarrow> (case ck_unmarshal P b of
          Inl _ \<Rightarrow> Inr 1
        | Inr tests \<Rightarrow> (case inject_tests tests drivers of
            Inl e \<Rightarrow> error_exit e
          | Inr apiCfg \<Rightarrow> (case GetAPIHandler (ck_ext P) (ck_enforcer P) (GMap apiCfg) of
              Inl e \<Rightarrow> error_exit e
            | Inr (_, _, enforce) \<Rightarrow> Inr (if run_auth_tests enforce (ats_Tests tests) then 0 else 1))))))"

text \<open>One service alone moves the configuration to a stage: it signs off, finds nobody to wait for and does the work.\<close>

definition advance_alone :: "stage_env \<Rightarrow> nat \<Rightarrow> staging \<Rightarrow> staging" where
  "advance_alone W stage st =
    (let l = the (Locker st); st1 = advance_locked 0 l stage (advance_enter 0 (stage - 1) st) in
     if threads st1 0 \<noteq> Arrived l stage then st1
     else (let st2 = WaitGroupWait 0 l stage st1 in
       if threads st2 0 \<noteq> Relocking l stage then st2 else advance_finish W 0 l stage st2))"

definition check_staged :: "checker \<Rightarrow> nat \<Rightarrow> repos \<Rightarrow> RepoInfo \<Rightarrow> DataSet \<Rightarrow> nat res" where
  "check_staged P n loaded initRepo c =
    rbind (check_contexts P c (omap (Contexts c))) (\<lambda>badContext.
    rbind (check_workflows P n c (map Do (Rules c))) (\<lambda>badRule.
    rbind (check_workflows P n c (map snd (Workflows c))) (\<lambda>badWorkflow.
    rbind (checkAuthRules P loaded initRepo (Drivers c)) (\<lambda>badAuth.
    Inr (if list_ex (\<lambda>(_, repo). rp_Errors repo \<noteq> []) loaded \<or> badContext \<or> badRule \<or> badWorkflow \<or> badAuth > 0
         then 1 else 0)))))"

text \<open>A stage that cannot be reached ends the program; \<open>None\<close> is a wait without end.\<close>

definition runConfigCheck :: "checker \<Rightarrow> stage_env \<Rightarrow> nat \<Rightarrow> repos \<Rightarrow> RepoInfo \<Rightarrow> staging \<Rightarrow> nat res option" where
  "runConfigCheck P W n loaded initRepo st0 =
    (let st1 = advance_alone W 1 (ResetStage st0) in
     case threads st1 0 of
       Stopped _ _ e \<Rightarrow> Some (Inl e)
     | Ready _ \<Rightarrow> (let st2 = advance_alone W 2 st1 in
         case threads st2 0 of
           Stopped _ _ e \<Rightarrow> Some (Inl e)
         | Ready _ \<Rightarrow> Some (check_staged P n loaded initRepo (store (dat st2) (Staged (dat st2))))
         | _ \<Rightarrow> None)
     | _ \<Rightarrow> None)"

section \<open>What the checks mean\<close>

definition named :: "string \<Rightarrow> (string, 'a) gomap \<Rightarrow> bool" where
  "named name m \<longleftrightarrow> name = [] \<or> hasInterpolation name \<or> map_of m name \<noteq> None"

definition is_list :: "gval \<Rightarrow> bool" where
  "is_list v \<longleftrightarrow> (case v of GNil \<Rightarrow> True | GStr s \<Rightarrow> s = [] \<or> \<not> hasLiteral s | GList _ \<Rightarrow> True | _ \<Rightarrow> False)"

text \<open>The function and the driver that a workflow calls by name.\<close>

definition function_named :: "Workflow \<Rightarrow> DataSet \<Rightarrow> bool" where
  "function_named w c = (let call = wf_CallFunction (wd w); f = wf_Function (wd w) in
    if call \<noteq> [] \<and> \<not> hasInterpolation call then
      (\<exists>system fname rest. split_on CHR ''.'' call = system # fname # rest \<and> named system (Systems c) \<and>
         named fname (sys_Functions (sys_of (Systems c) system)))
    else fn_TargetSystem f = [] \<or> hasInterpolation (fn_TargetSystem f) \<or>
      (named (fn_TargetSystem f) (Systems c) \<and> named (fn_TargetFunction f) (sys_Functions (sys_of (Systems c) (fn_TargetSystem f)))))"

definition driver_named :: "Workflow \<Rightarrow> DataSet \<Rightarrow> bool" where
  "driver_named w c = (let call = wf_CallDriver (wd w); f = wf_Function (wd w) in
    if call \<noteq> [] \<and> \<not> hasInterpolation call then named (hd (split_on CHR ''.'' call)) (omap (Drivers c))
    else named (fn_Driver f) (omap (Drivers c)))"

text \<open>At most one action, at most one condition, an else branch only with a condition, and everything named is there.\<close>

definition sound :: "Workflow \<Rightarrow> DataSet \<Rightarrow> bool" where
  "sound w c \<longleftrightarrow>
    length (filter snd (action_fields w)) \<le> 1 \<and> length (filter snd (condition_fields w)) \<le> 1 \<and>
    (wf_Else (wd w) \<noteq> GNil \<longrightarrow> filter snd (condition_fields w) \<noteq> []) \<and>
    named (wf_Workflow (wd w)) (Workflows c) \<and> function_named w c \<and> driver_named w c \<and>
    is_list (wf_Contexts (wd w)) \<and> is_list (wf_Iterate (wd w)) \<and> is_list (wf_IterateParallel (wd w))"

inductive nested :: "checker \<Rightarrow> Workflow \<Rightarrow> Workflow \<Rightarrow> bool" for P w where
  step: "Steps w = Some ws \<Longrightarrow> w' \<in> set ws \<Longrightarrow> nested P w w'"
| thread: "Threads w = Some ws \<Longrightarrow> w' \<in> set ws \<Longrightarrow> nested P w w'"
| els: "wf_Else (wd w) \<noteq> GNil \<Longrightarrow> ck_decode P (wf_Else (wd w)) = Inr w' \<Longrightarrow> nested P w w'"

inductive accepted :: "checker \<Rightarrow> DataSet \<Rightarrow> Workflow \<Rightarrow> bool" for P c where
  "sound w c \<Longrightarrow> (wf_Else (wd w) \<noteq> GNil \<Longrightarrow> \<exists>w'. ck_decode P (wf_Else (wd w)) = Inr w') \<Longrightarrow>
   (\<And>w'. nested P w w' \<Longrightarrow> accepted P c w') \<Longrightarrow> accepted P c w"

inductive_cases acceptedE: "accepted P c w"

text \<open>Panics and decoding errors have a text.\<close>

definition reports :: "checker \<Rightarrow> bool" where
  "reports P \<longleftrightarrow> (\<forall>e. ck_text P e \<noteq> []) \<and> (\<forall>v msg. ck_decode P v = Inl msg \<longrightarrow> msg \<noteq> [])"

lemma set_fields_iff:
  assumes "\<forall>(name, b) \<in> set fs. name \<noteq> []"
  shows "set_fields fs field = Inr f \<longleftrightarrow>
    (if field \<noteq> [] then filter snd fs = [] \<and> f = field
     else length (filter snd fs) \<le> 1 \<and> f = (case filter snd fs of [] \<Rightarrow> [] | x # _ \<Rightarrow> fst x))"
  using assms by (induction fs arbitrary: field) (auto simp: setField_def split: list.splits if_splits)

lemma set_fields_cases:
  assumes "\<forall>(name, b) \<in> set fs. name \<noteq> []"
  shows "(\<exists>f. set_fields fs [] = Inr f \<and> (f = [] \<longleftrightarrow> filter snd fs = [])) \<and> length (filter snd fs) \<le> 1 \<or>
    (\<exists>m. set_fields fs [] = Inl (PanicErr m)) \<and> length (filter snd fs) > 1"
proof (cases "set_fields fs []")
  case (Inr f)
  with set_fields_iff [OF assms, of "[]" f] assms have "length (filter snd fs) \<le> 1" "f = (case filter snd fs of [] \<Rightarrow> [] | x # _ \<Rightarrow> fst x)" by simp_all
  moreover have "fst x \<noteq> []" if "filter snd fs = x # xs" for x xs
  proof -
    have "x \<in> set (filter snd fs)" using that by simp
    with assms show ?thesis by auto
  qed
  ultimately show ?thesis using Inr by (cases "filter snd fs") auto
next
  case (Inl e)
  have "set_fields fs g = Inl e \<Longrightarrow> \<exists>m. e = PanicErr m" for g
    by (induction fs arbitrary: g) (auto simp: setField_def split: if_splits)
  with Inl have "\<exists>m. e = PanicErr m" by blast
  moreover have "length (filter snd fs) > 1" using Inl set_fields_iff [OF assms, of "[]"] by (metis not_less sum.distinct(1))
  ultimately show ?thesis using Inl by blast
qed

lemma fields_named:
  "\<forall>(name, b) \<in> set (action_fields w). name \<noteq> []" "\<forall>(name, b) \<in> set (condition_fields w). name \<noteq> []"
  by (simp_all add: action_fields_def condition_fields_def Let_def)

text \<open>A check passes exactly when its condition holds, and otherwise panics with an error.\<close>

definition decides :: "unit res \<Rightarrow> bool \<Rightarrow> bool" where
  "decides r b \<longleftrightarrow> (case r of Inr _ \<Rightarrow> b | Inl e \<Rightarrow> \<not> b \<and> is_error e \<and> \<not> fatal e)"

lemma decides_seq: "decides m a \<Longrightarrow> (a \<Longrightarrow> decides k b) \<Longrightarrow> decides (rbind m (\<lambda>_. k)) (a \<and> b)"
  by (cases m) (auto simp: decides_def split: sum.splits)

lemma decides_actions: "decides (checkWorkflowActions w) (length (filter snd (action_fields w)) \<le> 1)"
  using set_fields_cases [OF fields_named(1), of w] by (auto simp: decides_def checkWorkflowActions_def rmap_def is_error_def fatal_def)

lemma decides_conditions:
  "decides (checkWorkflowConditions w) (length (filter snd (condition_fields w)) \<le> 1 \<and>
     (wf_Else (wd w) \<noteq> GNil \<longrightarrow> filter snd (condition_fields w) \<noteq> []))"
  using set_fields_cases [OF fields_named(2), of w]
  by (auto simp: decides_def checkWorkflowConditions_def allowFieldWhenSet_def is_error_def fatal_def)

lemma decides_exists: "decides (checkObjectExists t name m) (named name m)"
  by (simp add: decides_def checkObjectExists_def named_def is_error_def fatal_def)

lemma decides_list: "decides (checkIsList name v) (is_list v)"
  by (simp add: decides_def checkIsList_def is_list_def is_error_def fatal_def split: gval.split)

lemma decides_driver: "decides (checkWorkflowDriver w c) (driver_named w c)"
  by (auto simp: checkWorkflowDriver_def driver_named_def Let_def decides_exists) (auto simp: decides_def named_def)

lemma decides_function: "decides (checkWorkflowFunction w c) (function_named w c)"
proof (cases "wf_CallFunction (wd w) \<noteq> [] \<and> \<not> hasInterpolation (wf_CallFunction (wd w))")
  case True
  obtain system rest where parts: "split_on CHR ''.'' (wf_CallFunction (wd w)) = system # rest"
    by (cases "split_on CHR ''.'' (wf_CallFunction (wd w))") simp_all
  show ?thesis
  proof (cases rest)
    case Nil
    have "decides (rbind (checkObjectExists ''system'' system (Systems c)) (\<lambda>_. Inl IndexOutOfRange)) (named system (Systems c) \<and> False)"
      by (intro decides_seq decides_exists) (simp add: decides_def is_error_def fatal_def)
    with True parts Nil show ?thesis by (simp add: checkWorkflowFunction_def function_named_def Let_def)
  next
    case (Cons fname rest')
    have "decides (rbind (checkObjectExists ''system'' system (Systems c)) (\<lambda>_.
        checkObjectExists (system @ '' function'') fname (sys_Functions (sys_of (Systems c) system))))
      (named system (Systems c) \<and> named fname (sys_Functions (sys_of (Systems c) system)))"
      by (intro decides_seq decides_exists)
    with True parts Cons show ?thesis by (simp add: checkWorkflowFunction_def function_named_def Let_def)
  qed
next
  case False
  show ?thesis
  proof (cases "fn_TargetSystem (wf_Function (wd w)) \<noteq> [] \<and> \<not> hasInterpolation (fn_TargetSystem (wf_Function (wd w)))")
    case True
    let ?f = "wf_Function (wd w)"
    have "decides (if hasInterpolation (fn_TargetFunction ?f) then Inr () else
        checkObjectExists (fn_TargetSystem ?f @ '' function'') (fn_TargetFunction ?f) (sys_Functions (sys_of (Systems c) (fn_TargetSystem ?f))))
      (named (fn_TargetFunction ?f) (sys_Functions (sys_of (Systems c) (fn_TargetSystem ?f))))"
      using decides_exists by (auto simp: decides_def named_def)
    from decides_seq [OF decides_exists this] False True show ?thesis
      by (auto simp: checkWorkflowFunction_def function_named_def Let_def)
  next
    case no_target: False
    with False show ?thesis by (auto simp: checkWorkflowFunction_def function_named_def Let_def decides_def)
  qed
qed

lemma decides_own: "decides (own_checks w c) (sound w c)"
proof -
  have "decides (own_checks w c) (length (filter snd (action_fields w)) \<le> 1 \<and>
      (length (filter snd (condition_fields w)) \<le> 1 \<and> (wf_Else (wd w) \<noteq> GNil \<longrightarrow> filter snd (condition_fields w) \<noteq> [])) \<and>
      named (wf_Workflow (wd w)) (Workflows c) \<and> function_named w c \<and> driver_named w c \<and>
      is_list (wf_Contexts (wd w)) \<and> is_list (wf_Iterate (wd w)) \<and> is_list (wf_IterateParallel (wd w)))"
    unfolding own_checks_def
    by (intro decides_seq decides_actions decides_conditions decides_exists decides_function decides_driver decides_list)
  then show ?thesis by (simp add: sound_def conj_assoc)
qed

text \<open>The same for checks that report with a place.\<close>

definition locates :: "check_panic + unit \<Rightarrow> bool \<Rightarrow> bool" where
  "locates r b \<longleftrightarrow> (case r of Inr _ \<Rightarrow> b | Inl (CLError l msg) \<Rightarrow> \<not> b \<and> msg \<noteq> [] | Inl (Panic _) \<Rightarrow> False)"

definition judges :: "(string \<times> string) res \<Rightarrow> bool \<Rightarrow> bool" where
  "judges r b \<longleftrightarrow> (\<exists>l msg. r = Inr (l, msg) \<and> (msg = [] \<longleftrightarrow> b))"

lemma locates_child: "judges (self w) b \<Longrightarrow> locates (check_child self prefix w) b"
  by (auto simp: judges_def locates_def check_child_def)

lemma locates_seq:
  "locates m a \<Longrightarrow> locates k b \<Longrightarrow> locates (case m of Inl e \<Rightarrow> Inl e | Inr _ \<Rightarrow> k) (a \<and> b)"
  by (auto simp: locates_def split: sum.splits check_panic.splits)

lemma locates_numbered:
  "(\<And>w. w \<in> set ws \<Longrightarrow> judges (self w) (A w)) \<Longrightarrow> locates (check_numbered self kind i ws) (\<forall>w \<in> set ws. A w)"
proof (induction ws arbitrary: i)
  case (Cons w ws)
  from Cons.prems have "judges (self w) (A w)" by simp
  then have "locates (check_child self (kind @ utoa i @ ''/'') w) (A w)" by (rule locates_child)
  moreover have "locates (check_numbered self kind (Suc i) ws) (\<forall>w \<in> set ws. A w)" using Cons by simp
  ultimately show ?case using locates_seq by fastforce
qed (simp add: locates_def)

lemma locates_else:
  assumes "reports P" and "\<And>w'. child \<noteq> GNil \<Longrightarrow> ck_decode P child = Inr w' \<Longrightarrow> judges (self w') (A w')"
  shows "locates (check_else P self child) (child \<noteq> GNil \<longrightarrow> (\<exists>w'. ck_decode P child = Inr w' \<and> A w'))"
proof (cases "ck_decode P child")
  case (Inl msg)
  with assms(1) show ?thesis by (auto simp: check_else_def locates_def reports_def)
next
  case (Inr w')
  with assms(2) show ?thesis using locates_child by (auto simp: check_else_def) (simp add: locates_def)
qed

definition ranked :: "checker \<Rightarrow> (Workflow \<Rightarrow> nat) \<Rightarrow> bool" where
  "ranked P r \<longleftrightarrow> (\<forall>w w'. nested P w w' \<longrightarrow> r w' < r w)"

lemma nested_list:
  "w' \<in> set (case Steps w of None \<Rightarrow> [] | Some ys \<Rightarrow> ys) \<Longrightarrow> nested P w w'"
  "w' \<in> set (case Threads w of None \<Rightarrow> [] | Some ys \<Rightarrow> ys) \<Longrightarrow> nested P w w'"
  by (cases "Steps w"; cases "Threads w"; auto intro: nested.intros)+

lemma accepted_iff:
  "accepted P c w \<longleftrightarrow> sound w c \<and>
    (wf_Else (wd w) \<noteq> GNil \<longrightarrow> (\<exists>w'. ck_decode P (wf_Else (wd w)) = Inr w' \<and> accepted P c w')) \<and>
    (\<forall>w' \<in> set (case Steps w of None \<Rightarrow> [] | Some ys \<Rightarrow> ys). accepted P c w') \<and>
    (\<forall>w' \<in> set (case Threads w of None \<Rightarrow> [] | Some ys \<Rightarrow> ys). accepted P c w')"
  (is "_ \<longleftrightarrow> ?r")
proof
  assume acc: "accepted P c w"
  then have "sound w c" "wf_Else (wd w) \<noteq> GNil \<Longrightarrow> \<exists>w'. ck_decode P (wf_Else (wd w)) = Inr w'"
    and sub: "\<And>w'. nested P w w' \<Longrightarrow> accepted P c w'" by (auto elim: acceptedE)
  then show ?r using nested_list [of _ w P] nested.els [of w P] by blast
next
  assume ?r
  then have own: "sound w c" and els: "wf_Else (wd w) \<noteq> GNil \<Longrightarrow> \<exists>w'. ck_decode P (wf_Else (wd w)) = Inr w' \<and> accepted P c w'"
    and lists: "\<And>ws w'. Steps w = Some ws \<or> Threads w = Some ws \<Longrightarrow> w' \<in> set ws \<Longrightarrow> accepted P c w'" by auto
  show "accepted P c w"
  proof (rule accepted.intros [OF own])
    fix w' assume "nested P w w'"
    then show "accepted P c w'" by cases (use els lists in auto)
  qed (use els in blast)
qed

lemma judges_recovered:
  assumes "reports P" and "decides own a" and "a \<Longrightarrow> locates kids b"
  shows "judges (recovered_check P (case own of Inl e \<Rightarrow> Inl (Panic e) | Inr _ \<Rightarrow> kids)) (a \<and> b)"
  using assms by (auto simp: judges_def recovered_check_def decides_def locates_def reports_def split: sum.splits check_panic.splits)

lemma checkWorkflow_judges:
  assumes "reports P" and "ranked P r"
  shows "r w < n \<Longrightarrow> judges (checkWorkflow P n c w) (accepted P c w)"
proof (induction n arbitrary: w)
  case (Suc n)
  have sub: "judges (checkWorkflow P n c w') (accepted P c w')" if "nested P w w'" for w'
    using Suc that assms(2) by (force simp: ranked_def)
  let ?steps = "case Steps w of None \<Rightarrow> [] | Some ys \<Rightarrow> ys" and ?threads = "case Threads w of None \<Rightarrow> [] | Some ys \<Rightarrow> ys"
  have kids: "locates (check_children P (checkWorkflow P n c) w)
      ((wf_Else (wd w) \<noteq> GNil \<longrightarrow> (\<exists>w'. ck_decode P (wf_Else (wd w)) = Inr w' \<and> accepted P c w')) \<and>
       (\<forall>w' \<in> set ?steps. accepted P c w') \<and> (\<forall>w' \<in> set ?threads. accepted P c w'))"
    unfolding check_children_def Let_def
    by (intro locates_seq locates_else [OF assms(1)] locates_numbered sub nested_list nested.els)
  show ?case using judges_recovered [OF assms(1) decides_own kids] by (simp add: accepted_iff [of P c w])
qed simp

section \<open>Loops and stages\<close>

lemma check_workflows_iff:
  assumes "reports P" and "ranked P r" and "\<forall>w \<in> set ws. r w < n"
  shows "check_workflows P n c ws = Inr (\<exists>w \<in> set ws. \<not> accepted P c w)"
  using assms(3)
proof (induction ws)
  case (Cons w ws)
  with checkWorkflow_judges [OF assms(1,2), of w n c] obtain l msg where "checkWorkflow P n c w = Inr (l, msg)"
    "msg = [] \<longleftrightarrow> accepted P c w" by (auto simp: judges_def)
  with Cons show ?case by (simp add: rmap_def)
qed simp

definition contexts_ok :: "DataSet \<Rightarrow> bool" where
  "contexts_ok c \<longleftrightarrow> (\<forall>v \<in> snd ` set (omap (Contexts c)). \<exists>m. v = GMap m \<and>
     (\<forall>name \<in> fst ` set m. name = ''*'' \<or> name = ''_events'' \<or> named name (Workflows c)))"

lemma check_names_iff:
  assumes "reports P"
  shows "check_names P c names = Inr (\<exists>name \<in> set names. \<not> (name = ''*'' \<or> name = ''_events'' \<or> named name (Workflows c)))"
proof (induction names)
  case (Cons name names)
  have "\<exists>msg. checkContext P c name = Inr msg \<and> (msg = [] \<longleftrightarrow> named name (Workflows c))"
    using decides_exists [of "''workflow''" name "Workflows c"] assms
    by (auto simp: checkContext_def decides_def reports_def split: sum.splits)
  with Cons show ?case by (auto simp: rmap_def)
qed simp

lemma check_contexts_iff:
  assumes "reports P"
  shows "check_contexts P c cs = Inr False \<longleftrightarrow> (\<forall>v \<in> snd ` set cs. \<exists>m. v = GMap m \<and>
     (\<forall>name \<in> fst ` set m. name = ''*'' \<or> name = ''_events'' \<or> named name (Workflows c)))"
proof (induction cs)
  case (Cons kv cs)
  obtain k v where kv: "kv = (k, v)" by force
  show ?case
  proof (cases "\<exists>m. v = GMap m")
    case True
    then obtain m where m: "v = GMap m" ..
    have "check_contexts P c (kv # cs) = Inr False \<longleftrightarrow>
        \<not> (\<exists>name \<in> set (map fst m). \<not> (name = ''*'' \<or> name = ''_events'' \<or> named name (Workflows c))) \<and> check_contexts P c cs = Inr False"
      using kv m by (auto simp: check_names_iff [OF assms] assert_type_def rmap_def rbind_Inr_conv)
    with Cons kv m show ?thesis by auto
  next
    case False
    then have "as_map v = None" by (cases v) auto
    with False kv show ?thesis by (auto simp: assert_type_def)
  qed
qed simp

text \<open>A service that is alone does the work of the next stage.\<close>

lemma advance_alone_done:
  assumes "Locker st = Some l" "Stage st = k" "k < StageGroups" "StageWG st l k = 1" "stage_work W 0 (Suc k) (dat st) = Inr D"
  shows "threads (advance_alone W (Suc k) st) 0 = Ready (Suc k)" "dat (advance_alone W (Suc k) st) = D"
    "Locker (advance_alone W (Suc k) st) = Some l" "Stage (advance_alone W (Suc k) st) = Suc k"
    "j \<noteq> k \<Longrightarrow> StageWG (advance_alone W (Suc k) st) l j = StageWG st l j"
proof -
  let ?s1 = "goto 0 (Arrived l (Suc k)) (fst (WaitGroupDone l k (goto 0 (Locking l (Suc k)) st)))"
  have e: "advance_enter 0 k st = goto 0 (Locking l (Suc k)) st" using assms(1) by (simp add: advance_enter_def)
  have s1: "advance_locked 0 l (Suc k) (goto 0 (Locking l (Suc k)) st) = ?s1"
    using assms(1-4) by (auto simp: advance_locked_def Let_def split_beta)
  have s2: "WaitGroupWait 0 l (Suc k) ?s1 = goto 0 (Relocking l (Suc k)) ?s1" using assms(4) by (simp add: WaitGroupWait_def)
  have alone: "advance_alone W (Suc k) st = advance_finish W 0 l (Suc k) (goto 0 (Relocking l (Suc k)) ?s1)"
    using assms(1) e s1 s2 by (simp add: advance_alone_def Let_def)
  show "threads (advance_alone W (Suc k) st) 0 = Ready (Suc k)" "dat (advance_alone W (Suc k) st) = D"
    "Locker (advance_alone W (Suc k) st) = Some l" "Stage (advance_alone W (Suc k) st) = Suc k"
    "j \<noteq> k \<Longrightarrow> StageWG (advance_alone W (Suc k) st) l j = StageWG st l j"
    using assms by (simp_all add: alone advance_finish_def)
qed

lemma runConfigCheck_stages:
  assumes "services st0 = 1" and "stage_work W 0 1 (dat st0) = Inr D1" and "stage_work W 0 2 D1 = Inr D2"
  shows "runConfigCheck P W n loaded initRepo st0 = Some (check_staged P n loaded initRepo (store D2 (Staged D2)))"
proof -
  let ?st = "ResetStage st0" and ?l = "Suc (epoch st0)"
  have wg: "StageWG ?st ?l k = 1" for k using assms(1) by (simp add: ResetStage_def Let_def)
  note one = advance_alone_done [of ?st ?l 0 W D1, simplified, OF _ wg] 
  let ?s1 = "advance_alone W (Suc 0) ?st"
  have w1: "stage_work W 0 (Suc 0) (dat st0) = Inr D1" and w2: "stage_work W 0 (Suc (Suc 0)) D1 = Inr D2"
    using assms(2,3) by (simp_all add: numeral_2_eq_2)
  have s1: "threads ?s1 0 = Ready (Suc 0)" "dat ?s1 = D1" "Locker ?s1 = Some ?l" "Stage ?s1 = Suc 0" "StageWG ?s1 ?l 1 = 1"
    using one w1 wg by (simp_all add: StageGroups_def)
  have s2: "threads (advance_alone W (Suc (Suc 0)) ?s1) 0 = Ready (Suc (Suc 0))" "dat (advance_alone W (Suc (Suc 0)) ?s1) = D2"
    using advance_alone_done [of ?s1 ?l "Suc 0" W D2] s1 w2 by (simp_all add: StageGroups_def)
  show ?thesis using s1 s2 by (simp add: runConfigCheck_def Let_def numeral_2_eq_2)
qed

section \<open>Properties\<close>

text \<open>
  C32: the check of a configuration accepts exactly what it is meant to. For nesting that ends and a
  bound above it, the exit code is 0 if and only if no repository had an error, the contexts name
  workflows that exist, every rule and every workflow is sound together with all workflows nested in
  it by else, steps and threads, and the authorisation tests pass. In all other cases the exit code is
  1 or the program panics, and it always returns.
\<close>

theorem runConfigCheck_accepts:
  assumes "reports P" and "ranked P r" and "services st0 = 1"
    and "stage_work W 0 1 (dat st0) = Inr D1" and "stage_work W 0 2 D1 = Inr D2" and "c = store D2 (Staged D2)"
    and "\<forall>w \<in> Do ` set (Rules c) \<union> snd ` set (Workflows c). r w < n"
  shows "(\<exists>code. runConfigCheck P W n loaded initRepo st0 = Some code) \<and>
    (runConfigCheck P W n loaded initRepo st0 = Some (Inr 0) \<longleftrightarrow>
      (\<forall>repo \<in> snd ` set loaded. rp_Errors repo = []) \<and> contexts_ok c \<and>
      (\<forall>w \<in> Do ` set (Rules c) \<union> snd ` set (Workflows c). accepted P c w) \<and>
      checkAuthRules P loaded initRepo (Drivers c) = Inr 0)"
proof -
  have run: "runConfigCheck P W n loaded initRepo st0 = Some (check_staged P n loaded initRepo c)"
    using runConfigCheck_stages [OF assms(3-5)] assms(6) by simp
  have rules: "check_workflows P n c (map Do (Rules c)) = Inr (\<exists>w \<in> Do ` set (Rules c). \<not> accepted P c w)"
    using check_workflows_iff [OF assms(1,2), of "map Do (Rules c)" n c] assms(7) by auto
  have flows: "check_workflows P n c (map snd (Workflows c)) = Inr (\<exists>w \<in> snd ` set (Workflows c). \<not> accepted P c w)"
    using check_workflows_iff [OF assms(1,2), of "map snd (Workflows c)" n c] assms(7) by auto
  have loads: "list_ex (\<lambda>(_, repo). rp_Errors repo \<noteq> []) loaded \<longleftrightarrow> \<not> (\<forall>repo \<in> snd ` set loaded. rp_Errors repo = [])"
    by (force simp: list_ex_iff)
  have "check_staged P n loaded initRepo c = Inr 0 \<longleftrightarrow> (\<forall>repo \<in> snd ` set loaded. rp_Errors repo = []) \<and>
      check_contexts P c (omap (Contexts c)) = Inr False \<and>
      (\<forall>w \<in> Do ` set (Rules c) \<union> snd ` set (Workflows c). accepted P c w) \<and> checkAuthRules P loaded initRepo (Drivers c) = Inr 0"
    unfolding check_staged_def rules flows loads by (auto simp: rbind_Inr_conv split: if_splits)
  with run show ?thesis using check_contexts_iff [OF assms(1), of c "omap (Contexts c)"] by (simp add: contexts_ok_def)
qed


text \<open>
  A call of a function of a subsystem, \<open>system.sub.fname\<close>, reaches its target at run time, and the
  check rejects it unless the system happens to have a function with the name of the subsystem.
\<close>

theorem subsystem_call_rejected:
  assumes "wf_CallFunction (wd w) = system @ ''.'' @ sub @ ''.'' @ fname" and "CHR ''.'' \<notin> set system" and "CHR ''.'' \<notin> set sub"
    and "\<not> hasInterpolation (wf_CallFunction (wd w))" and "\<not> hasInterpolation sub" and "sub \<noteq> []" and "reports P"
    and "map_of (Systems c) system = Some sys" and "map_of (sys_Functions sys) (sub @ ''.'' @ fname) = Some g"
    and "map_of (sys_Functions sys) sub = None" and "checkWorkflow P n c w = Inr (l, text_of)"
  shows "text_of \<noteq> [] \<and> (\<exists>f. callShorthandFunction a (wf_CallFunction (wd w)) msg = callFunction a f msg \<and> target c f = Some g)"
proof
  have split: "\<exists>rest. split_on CHR ''.'' (system @ ''.'' @ sub @ ''.'' @ fname) = system # sub # rest"
    using split_on_append_sep [OF assms(2)] split_on_append_sep [OF assms(3)] by simp
  then have "\<not> function_named w c" using assms(1,4-6,8,10) by (auto simp: function_named_def Let_def named_def sys_of_def)
  then have "\<exists>e. own_checks w c = Inl e" using decides_own [of w c] by (auto simp: decides_def sound_def split: sum.splits)
  then show "text_of \<noteq> []" using assms(7,11) by (cases n) (auto simp: recovered_check_def reports_def split: if_splits)
  have "takeWhile (\<lambda>x. x \<noteq> CHR ''.'') (wf_CallFunction (wd w)) = system"
    "dropWhile (\<lambda>x. x \<noteq> CHR ''.'') (wf_CallFunction (wd w)) = ''.'' @ sub @ ''.'' @ fname"
    using assms(1,2) by (auto simp: takeWhile_append dropWhile_append)
  then show "\<exists>f. callShorthandFunction a (wf_CallFunction (wd w)) msg = callFunction a f msg \<and> target c f = Some g"
    using assms(8,9) by (intro exI [of _ "zero_function\<lparr>fn_TargetSystem := system, fn_TargetFunction := sub @ ''.'' @ fname\<rparr>"])
      (simp add: callShorthandFunction_def target_def zero_function_def)
qed

section \<open>Witnesses\<close>

definition sample_calls :: "string \<Rightarrow> Workflow" where
  "sample_calls f = Workflow (zero_wfdata\<lparr>wf_CallFunction := f\<rparr>) None None"

definition sample_checked :: DataSet where
  "sample_checked = sample_web\<lparr>Workflows := [(''fetch'', Workflow zero_wfdata (Some [sample_calls ''site.get'']) None)],
     Contexts := Some [(''default'', GMap [(''fetch'', GNil), (''*'', GNil)])]\<rparr>"

definition sample_checker :: checker where
  "sample_checker = \<lparr>ck_decode = (\<lambda>_. Inl ''not a workflow''), ck_text = (\<lambda>_. ''error''), ck_read = (\<lambda>_. Inl (PanicErr ''read file'')),
     ck_unmarshal = (\<lambda>_. Inl ''yaml''), ck_ext = no_ext, ck_enforcer = (\<lambda>_ _. Inl (PanicErr ''model''))\<rparr>"

lemma sample_checker_ok: "reports sample_checker" "ranked sample_checker size"
proof -
  show "reports sample_checker" by (simp add: reports_def sample_checker_def)
  show "ranked sample_checker size"
    unfolding ranked_def
  proof (intro allI impI)
    fix w w' assume "nested sample_checker w w'"
    then show "size w' < size w"
      by cases (cases w; auto simp: sample_checker_def dest!: size_list_estimation' [of _ _ _ size, OF _ le_refl])+
  qed
qed

lemma sample_checked_stages:
  "\<exists>D1 D2. stage_work sample_stages 0 1 (dat (initial 1 sample_checked)) = Inr D1 \<and> stage_work sample_stages 0 2 D1 = Inr D2 \<and>
    store D2 (Staged D2) = sample_checked"
proof -
  have ext: "extendAllSystems last_wins 3 [''site''] (Systems sample_checked) = Inr (Systems sample_checked)" by code_simp
  have names: "map fst (Systems sample_checked) = [''site'']" by (simp add: sample_checked_def sample_web_def)
  have copy: "lx_copy_dataset last_wins d = Inr d" for d by (simp add: last_wins_def)
  show ?thesis
    by (simp add: stage_work_def sample_stages_def initial_def ResetStage_def Let_def ext names copy set_staged_def)
qed

theorem runConfigCheck_accepts_witness:
  "runConfigCheck sample_checker sample_stages 9 [] (sample_repo ''a'') (initial 1 sample_checked) = Some (Inr 0)"
proof -
  obtain D1 D2 where D: "stage_work sample_stages 0 1 (dat (initial 1 sample_checked)) = Inr D1"
    "stage_work sample_stages 0 2 D1 = Inr D2" "sample_checked = store D2 (Staged D2)" using sample_checked_stages by metis
  have small: "\<forall>w \<in> Do ` set (Rules sample_checked) \<union> snd ` set (Workflows sample_checked). size w < 9"
    by (simp add: sample_checked_def sample_web_def sample_calls_def)
  let ?w = "Workflow zero_wfdata (Some [sample_calls ''site.get'']) None"
  have "checkWorkflow sample_checker 9 sample_checked ?w = Inr (''/'', [])" by code_simp
  with checkWorkflow_judges [OF sample_checker_ok, of ?w 9 sample_checked] have "accepted sample_checker sample_checked ?w"
    by (simp add: judges_def sample_calls_def)
  then have flows: "\<forall>w \<in> Do ` set (Rules sample_checked) \<union> snd ` set (Workflows sample_checked). accepted sample_checker sample_checked w"
    by (simp add: sample_checked_def sample_web_def)
  have "contexts_ok sample_checked" by (auto simp: contexts_ok_def sample_checked_def omap_def named_def)
  with flows runConfigCheck_accepts [OF sample_checker_ok _ D small, of "[]" "sample_repo ''a''"] show ?thesis
    by (simp add: checkAuthRules_def initial_def)
qed


theorem subsystem_call_rejected_witness:
  "\<exists>l text_of g. checkWorkflow sample_checker 9 (sample_checked\<lparr>Systems := [(''site'', zero_system\<lparr>sys_Functions := [(''eu.get'', g)]\<rparr>)]\<rparr>)
     (sample_calls ''site.eu.get'') = Inr (l, text_of) \<and> text_of \<noteq> []"
proof -
  let ?c = "sample_checked\<lparr>Systems := [(''site'', zero_system\<lparr>sys_Functions := [(''eu.get'', zero_function)]\<rparr>)]\<rparr>"
  have r: "checkWorkflow sample_checker 9 ?c (sample_calls ''site.eu.get'') = Inr (''/'', ''error'')" by code_simp
  have "\<not> hasInterpolation ''site.eu.get''" "\<not> hasInterpolation ''eu''" by code_simp+
  moreover have "wf_CallFunction (wd (sample_calls ''site.eu.get'')) = ''site.eu.get''" by (simp add: sample_calls_def)
  ultimately have "''error'' \<noteq> []"
    using subsystem_call_rejected [OF _ _ _ _ _ _ sample_checker_ok(1) _ _ _ r, of "''site''" "''eu''" "''get''"] by simp
  with r show ?thesis by blast
qed

end
