(* ===== verification/Bus.thy ===== *)
theory Bus
  imports Api Command Services
begin

text \<open>
  The drivers that connect the nodes of a Honeydipper cluster: \<open>drivers/cmd/redisqueue/main.go\<close>, which
  relays events, commands, returns and API answers through lists in Redis, and
  \<open>drivers/cmd/redispubsub/main.go\<close>, which broadcasts.

  Redis is a map from topics to lists with the time at which they expire: \<open>RPUSH\<close> appends, \<open>BLPOP\<close> takes
  the first element, \<open>EXPIRE\<close> sets the time, from which on the list is gone; a published text is handed to every
  subscriber. Times are nanoseconds of the clock of Redis; \<open>now\<close> is the time of an operation, for \<open>BLPOP\<close>
  that at which it returns. \<open>ip\<close> is the address of the node, \<open>dipper.GetIP\<close>. Errors of the connection are left out.
\<close>

section \<open>\<open>redisqueue\<close>\<close>

record EventBusOptions =
  EventTopic :: string
  CommandTopic :: string
  ReturnTopic :: string
  APITopic :: string

definition option_or :: "gval \<Rightarrow> string \<Rightarrow> string \<Rightarrow> string" where
  "option_or options key dflt = (case GetMapDataStr options key of None \<Rightarrow> dflt | Some s \<Rightarrow> s)"

definition loadOptions :: "gval \<Rightarrow> EventBusOptions" where
  "loadOptions options = \<lparr>EventTopic = option_or options ''data.topics.event'' ''honeydipper:events'',
     CommandTopic = option_or options ''data.topics.command'' ''honeydipper:commands'',
     ReturnTopic = option_or options ''data.topics.return'' ''honeydipper:return:'',
     APITopic = option_or options ''data.topics.api'' ''honeydipper:api:''\<rparr>"

text \<open>Which messages a service sends through the queue, and where it listens.\<close>

definition relayed_subjects :: "string \<Rightarrow> string list" where
  "relayed_subjects service =
    (if service = ''receiver'' then [''message'']
     else if service = ''engine'' then [''command'']
     else if service = ''operator'' then [''return'', ''message''] else []) @ [''api'']"

definition subscriptions :: "EventBusOptions \<Rightarrow> string \<Rightarrow> (string \<times> string) list" where
  "subscriptions eb service =
    (if service = ''engine'' then [(EventTopic eb, ''message''), (ReturnTopic eb, ''return'')]
     else if service = ''operator'' then [(CommandTopic eb, ''command'')]
     else if service = ''api'' then [(APITopic eb, ''api'')] else [])"

text \<open>The elements of a list and the time at which it expires.\<close>

type_synonym redis = "string \<Rightarrow> string list \<times> int"

definition TopicExpireTimeout :: int where
  "TopicExpireTimeout = 1800 * 1000000000"

definition unexpired :: "int \<Rightarrow> string list \<times> int \<Rightarrow> string list" where
  "unexpired now l = (if now < snd l then fst l else [])"

definition relay_topic :: "EventBusOptions \<Rightarrow> string \<Rightarrow> string \<Rightarrow> string res" where
  "relay_topic eb subject returnTo =
    (if subject = ''command'' then Inr (CommandTopic eb)
     else if subject = ''api'' then
       (if returnTo = [] then Inl (PanicStr ''api return message without receipient'') else Inr (APITopic eb @ returnTo))
     else if subject = ''return'' then
       (if returnTo = [] then Inl (PanicStr ''return message without receipient'') else Inr (ReturnTopic eb @ returnTo))
     else Inr (EventTopic eb))"

definition queue_payload :: "(string, string) gomap \<Rightarrow> payload \<Rightarrow> gval res" where
  "queue_payload ls p = (let m = [(''labels'', GMap (map (\<lambda>(k, v). (k, GStr v)) ls))] in
     case p of
       PNil \<Rightarrow> Inr (GMap m)
     | PRaw bs \<Rightarrow> Inr (GMap (m @ [(''data'', GStr bs)]))
     | PVal _ \<Rightarrow> Inl TypeAssertion)"

definition relayToRedis :: "ext \<Rightarrow> EventBusOptions \<Rightarrow> int \<Rightarrow> string \<Rightarrow> Message \<Rightarrow> redis act" where
  "relayToRedis X eb now ip msg R =
    lget (rbind (set_label ''from'' ip msg) (\<lambda>msg'.
      rbind (relay_topic eb (Subject msg) (label_str msg ''from'')) (\<lambda>topic.
      rbind (queue_payload (labels msg') (Payload msg')) (\<lambda>payload.
      rmap (Pair topic) (SerializeContent X (PVal payload)))))) (\<lambda>(topic, buf) R.
        (R(topic := (unexpired now (R topic) @ [buf], now + TopicExpireTimeout)), None)) R"

definition real_topic :: "EventBusOptions \<Rightarrow> string \<Rightarrow> string \<Rightarrow> string" where
  "real_topic eb ip topic = (if topic = ReturnTopic eb \<or> topic = APITopic eb then topic @ ip else topic)"

fun string_labels :: "gmap \<Rightarrow> (string, string) gomap \<Rightarrow> (string, string) gomap res" where
  "string_labels [] ls = Inr ls"
| "string_labels ((k, v) # m) ls = rbind (assert_type (as_str v)) (\<lambda>s. string_labels m (mput k s ls))"

definition queue_message :: "ext \<Rightarrow> string \<Rightarrow> string \<Rightarrow> Message res" where
  "queue_message X subject buf =
    rbind (DeserializeContent X buf) (\<lambda>payload.
    rbind (case GetMapData payload ''labels'' of
        None \<Rightarrow> Inr []
      | Some labelMap \<Rightarrow> rbind (assert_type (as_map labelMap)) (\<lambda>m. string_labels m [])) (\<lambda>ls.
    Inr (zero_message\<lparr>Channel := ''eventbus'', Subject := subject,
      Payload := PRaw (case GetMapDataStr payload ''data'' of None \<Rightarrow> [] | Some s \<Rightarrow> s), Labels := Some ls, IsRaw := True\<rparr>)))"

text \<open>
  One turn of the loop in \<open>subscribe\<close>: nothing when the list is empty or has expired. A text that cannot be decoded is
  gone, and the loop starts again.
\<close>

definition queue_pop :: "ext \<Rightarrow> EventBusOptions \<Rightarrow> int \<Rightarrow> string \<Rightarrow> string \<times> string \<Rightarrow> redis \<Rightarrow> redis \<times> Message option" where
  "queue_pop X eb now ip sub R = (case sub of (topic, subject) \<Rightarrow>
     (case unexpired now (R (real_topic eb ip topic)) of
        [] \<Rightarrow> (R, None)
      | buf # rest \<Rightarrow> (R(real_topic eb ip topic := (rest, snd (R (real_topic eb ip topic)))),
          (case queue_message X subject buf of Inl e \<Rightarrow> None | Inr m \<Rightarrow> Some m))))"

section \<open>\<open>redispubsub\<close>\<close>

text \<open>The topic and the channel of the broadcasts.\<close>

definition broadcast_options :: "gval \<Rightarrow> string \<times> string" where
  "broadcast_options options = (option_or options ''data.topic'' ''honeydipper:broadcast'', option_or options ''data.channel'' ''broadcast'')"

definition broadcast_payload :: "string \<Rightarrow> gmap \<Rightarrow> gval \<Rightarrow> gval res" where
  "broadcast_payload ip ls payload =
    rmap (\<lambda>subject. GMap ([(''labels'', GMap (mput ''from'' (GStr ip) ls)), (''broadcastSubject'', GStr subject)] @
       (case GetMapData payload ''data'' of None \<Rightarrow> [] | Some d \<Rightarrow> if d = GNil then [] else [(''data'', d)])))
      (MustGetMapDataStr payload ''broadcastSubject'')"

text \<open>The command of the operator takes the labels of the message, the RPC call those in the payload.\<close>

definition broadcastToRedis :: "ext \<Rightarrow> string \<Rightarrow> Message \<Rightarrow> string res" where
  "broadcastToRedis X ip msg0 =
    rbind (DeserializePayload X msg0) (\<lambda>msg.
    rbind (broadcast_payload ip (map (\<lambda>(k, v). (k, GStr v)) (labels msg)) (payload_val msg)) (\<lambda>payload.
    SerializeContent X (PVal payload)))"

definition sendBroadcast :: "ext \<Rightarrow> string \<Rightarrow> Message \<Rightarrow> string res" where
  "sendBroadcast X ip msg0 =
    rbind (DeserializePayload X msg0) (\<lambda>msg.
    rbind (case GetMapData (payload_val msg) ''labels'' of
        None \<Rightarrow> Inr []
      | Some ls \<Rightarrow> if ls = GNil then Inr [] else assert_type (as_map ls)) (\<lambda>ls.
    rbind (broadcast_payload ip ls (payload_val msg)) (\<lambda>payload.
    SerializeContent X (PVal payload))))"

text \<open>The labels of a broadcast, unless it is for another service.\<close>

fun broadcast_labels :: "string \<Rightarrow> gmap \<Rightarrow> (string, string) gomap \<Rightarrow> (string, string) gomap option res" where
  "broadcast_labels service [] ls = Inr (Some ls)"
| "broadcast_labels service ((k, v) # m) ls =
     rbind (if k = ''service'' \<and> v \<noteq> GNil then rmap (\<lambda>s. s \<noteq> [] \<and> s \<noteq> service) (assert_type (as_str v)) else Inr False) (\<lambda>skip.
     if skip then Inr None
     else rbind (assert_type (as_str v)) (\<lambda>s. broadcast_labels service m (mput k s ls)))"

definition broadcast_message :: "ext \<Rightarrow> string \<Rightarrow> string \<Rightarrow> string \<Rightarrow> Message option res" where
  "broadcast_message X service channel buf =
    rbind (DeserializeContent X buf) (\<lambda>payload.
    rbind (case GetMapData payload ''labels'' of
        None \<Rightarrow> Inr (Some [])
      | Some labelMap \<Rightarrow> rbind (assert_type (as_map labelMap)) (\<lambda>m. broadcast_labels service m [])) (\<lambda>ls.
    case ls of
      None \<Rightarrow> Inr None
    | Some ls' \<Rightarrow> rmap (\<lambda>subject. Some (zero_message\<lparr>Channel := channel, Subject := subject,
          Payload := (case GetMapData payload ''data'' of None \<Rightarrow> PNil | Some d \<Rightarrow> val_payload d), Labels := Some ls'\<rparr>))
        (MustGetMapDataStr payload ''broadcastSubject'')))"

section \<open>Lemmas\<close>

text \<open>A value that survives the coding as JSON.\<close>

definition json_keeps :: "ext \<Rightarrow> gval \<Rightarrow> bool" where
  "json_keeps X v \<longleftrightarrow> (\<exists>s. ext_json_marshal X v = Inr s \<and> s \<noteq> [] \<and> ext_json_unmarshal X s = Inr v)"

lemma json_keepsE:
  assumes "json_keeps X v"
  obtains s where "SerializeContent X (PVal v) = Inr s" "DeserializeContent X s = Inr v"
  using assms by (auto simp: json_keeps_def SerializeContent_def DeserializeContent_def)

abbreviation strings :: "(string, string) gomap \<Rightarrow> gmap" where
  "strings ls \<equiv> map (\<lambda>(k, v). (k, GStr v)) ls"

lemma not_in_map: "wfmap ((k, s) # ls) \<Longrightarrow> map_of ls k = None"
  by (auto simp: wfmap_def map_of_eq_None_iff)

lemma wfmap_tl: "wfmap (x # ls) \<Longrightarrow> wfmap ls"
  by (simp add: wfmap_def)

lemma string_labels_strings: "wfmap ls \<Longrightarrow>
    \<exists>ls'. string_labels (strings ls) acc = Inr ls' \<and> (\<forall>k. map_of ls' k = (case map_of ls k of Some v \<Rightarrow> Some v | None \<Rightarrow> map_of acc k))"
proof (induction ls arbitrary: acc)
  case (Cons kv ls)
  obtain k s where kv: "kv = (k, s)" by force
  from Cons.IH [OF wfmap_tl [OF Cons.prems]] obtain ls' where "string_labels (strings ls) (mput k s acc) = Inr ls'"
    "\<forall>j. map_of ls' j = (case map_of ls j of Some v \<Rightarrow> Some v | None \<Rightarrow> map_of (mput k s acc) j)" by blast
  with not_in_map [of k s ls] Cons.prems kv show ?case by (auto simp: assert_type_def split: option.splits)
qed simp

lemma broadcast_labels_step: "broadcast_labels service ((k, GStr s) # m) ls =
    (if k = ''service'' \<and> s \<noteq> [] \<and> s \<noteq> service then Inr None else broadcast_labels service m (mput k s ls))"
  by (simp add: assert_type_def rmap_def)

declare broadcast_labels.simps(2) [simp del]

lemma broadcast_labels_strings: "wfmap ls \<Longrightarrow> (map_of ls ''service'' = None \<or> map_of ls ''service'' = Some [] \<or> map_of ls ''service'' = Some service) \<Longrightarrow>
    \<exists>ls'. broadcast_labels service (strings ls) acc = Inr (Some ls') \<and>
      (\<forall>k. map_of ls' k = (case map_of ls k of Some v \<Rightarrow> Some v | None \<Rightarrow> map_of acc k))"
proof (induction ls arbitrary: acc)
  case (Cons kv ls)
  obtain k s where kv: "kv = (k, s)" by force
  have "map_of ls ''service'' = None \<or> map_of ls ''service'' = Some [] \<or> map_of ls ''service'' = Some service"
    using Cons.prems(2) not_in_map [of k s ls] Cons.prems(1) kv by (auto split: if_splits)
  from Cons.IH [OF wfmap_tl [OF Cons.prems(1)] this] obtain ls' where "broadcast_labels service (strings ls) (mput k s acc) = Inr (Some ls')"
    "\<forall>j. map_of ls' j = (case map_of ls j of Some v \<Rightarrow> Some v | None \<Rightarrow> map_of (mput k s acc) j)" by blast
  moreover have "\<not> (k = ''service'' \<and> s \<noteq> [] \<and> s \<noteq> service)" using Cons.prems(2) kv by auto
  moreover have "map_of ls k = None" using not_in_map [of k s ls] Cons.prems(1) kv by simp
  ultimately show ?case using kv by (simp add: broadcast_labels_step split: option.split)
qed simp

lemma broadcast_labels_other: "wfmap ls \<Longrightarrow> map_of ls ''service'' = Some other \<Longrightarrow> other \<noteq> [] \<Longrightarrow> other \<noteq> service \<Longrightarrow>
    broadcast_labels service (strings ls) acc = Inr None"
  by (induction ls arbitrary: acc) (auto simp: broadcast_labels_step wfmap_def split: if_splits)

lemma string_labels_wf: "string_labels m ls = Inr ls' \<Longrightarrow> wfmap ls \<Longrightarrow> wfmap ls'"
  by (induction m ls rule: string_labels.induct) (auto simp: rbind_Inr_conv)

text \<open>What is written to a list for a message with a raw payload, and what the receiver makes of it.\<close>

definition carried :: "string \<Rightarrow> Message \<Rightarrow> gval" where
  "carried ip msg = GMap ((''labels'', GMap (strings (mput ''from'' ip (labels msg)))) #
     (case Payload msg of PRaw bs \<Rightarrow> [(''data'', GStr bs)] | _ \<Rightarrow> []))"

definition arrives :: "string \<Rightarrow> string \<Rightarrow> Message \<Rightarrow> Message \<Rightarrow> bool" where
  "arrives ip subject msg m \<longleftrightarrow> Channel m = ''eventbus'' \<and> Subject m = subject \<and> Payload m = Payload msg \<and> IsRaw m \<and>
     (\<forall>k. label m k = (if k = ''from'' then Some ip else label msg k)) \<and> (\<exists>ls. Labels m = Some ls \<and> wfmap ls)"

definition relayable :: "ext \<Rightarrow> EventBusOptions \<Rightarrow> string \<Rightarrow> string \<times> Message \<Rightarrow> bool" where
  "relayable X eb topic im \<longleftrightarrow> (case im of (ip, msg) \<Rightarrow>
     (\<exists>ls. Labels msg = Some ls \<and> wfmap ls) \<and> (\<exists>bs. Payload msg = PRaw bs) \<and>
     relay_topic eb (Subject msg) (label_str msg ''from'') = Inr topic \<and> json_keeps X (carried ip msg))"

lemma get_carried: "GetMapData (GMap ((''labels'', GMap ls) # rest)) ''labels'' = Some (GMap ls)"
  by (simp add: GetMapData_def)

lemma relay_queue:
  assumes "relayable X eb topic (ip, msg)"
  shows "\<exists>buf. (\<forall>now R. relayToRedis X eb now ip msg R = (R(topic := (unexpired now (R topic) @ [buf], now + TopicExpireTimeout)), None)) \<and>
    (\<forall>subject. \<exists>m. queue_message X subject buf = Inr m \<and> arrives ip subject msg m)"
proof -
  from assms obtain ls bs where m: "Labels msg = Some ls" "wfmap ls" "Payload msg = PRaw bs"
    "relay_topic eb (Subject msg) (label_str msg ''from'') = Inr topic" "json_keeps X (carried ip msg)"
    by (auto simp: relayable_def)
  let ?ls = "mput ''from'' ip ls"
  have carried: "carried ip msg = GMap [(''labels'', GMap (strings ?ls)), (''data'', GStr bs)]"
    using m(1,3) by (simp add: carried_def labels_def)
  obtain buf where buf: "SerializeContent X (PVal (carried ip msg)) = Inr buf" "DeserializeContent X buf = Inr (carried ip msg)"
    by (rule json_keepsE [OF m(5)])
  have relay: "relayToRedis X eb now ip msg R = (R(topic := (unexpired now (R topic) @ [buf], now + TopicExpireTimeout)), None)" for now R
    using m buf(1) carried by (simp add: relayToRedis_def set_label_def queue_payload_def labels_def Let_def rmap_def)
  from m(2) have wf: "wfmap ?ls" by simp
  from string_labels_strings [OF wf, of "[]"] obtain ls' where ls': "string_labels (strings ?ls) [] = Inr ls'"
    "\<forall>k. map_of ls' k = (case map_of ?ls k of Some v \<Rightarrow> Some v | None \<Rightarrow> map_of [] k)" by blast
  have wf': "wfmap ls'" using string_labels_wf [OF ls'(1)] by (simp add: wfmap_def)
  have "queue_message X subject buf = Inr (zero_message\<lparr>Channel := ''eventbus'', Subject := subject, Payload := PRaw bs,
      Labels := Some ls', IsRaw := True\<rparr>)" for subject
    using buf(2) ls'(1) by (simp add: queue_message_def carried get_carried assert_type_def) (simp add: GetMapDataStr_def GetMapData_def)
  moreover have "arrives ip subject msg (zero_message\<lparr>Channel := ''eventbus'', Subject := subject, Payload := PRaw bs,
      Labels := Some ls', IsRaw := True\<rparr>)" for subject
    using m(1,3) ls'(2) wf' by (simp add: arrives_def label_def labels_def split: option.split)
  ultimately show ?thesis using relay by blast
qed

section \<open>Order\<close>

text \<open>What happens to one list, in any order: nodes relay messages to it, the subscribed node reads from it. The
  outcomes of the reading, in the driver and in a queue that never loses anything.\<close>

datatype bus_event = Relayed int string Message | Read int

fun bus_run :: "ext \<Rightarrow> EventBusOptions \<Rightarrow> string \<Rightarrow> string \<times> string \<Rightarrow> bus_event list \<Rightarrow> redis \<Rightarrow> Message option list" where
  "bus_run X eb ip sub [] R = []"
| "bus_run X eb ip sub (Relayed now node msg # es) R = bus_run X eb ip sub es (lcatch (relayToRedis X eb now node msg) R)"
| "bus_run X eb ip sub (Read now # es) R = (case queue_pop X eb now ip sub R of (R', m) \<Rightarrow> m # bus_run X eb ip sub es R')"

fun queue_run :: "bus_event list \<Rightarrow> (string \<times> Message) list \<Rightarrow> (string \<times> Message) option list" where
  "queue_run [] q = []"
| "queue_run (Relayed now node msg # es) q = queue_run es (q @ [(node, msg)])"
| "queue_run (Read now # es) q = (case q of [] \<Rightarrow> None # queue_run es [] | x # q' \<Rightarrow> Some x # queue_run es q')"

text \<open>The list does not expire: less than \<open>TopicExpireTimeout\<close> passes after each relayed message until the next message or read.\<close>

fun timely :: "int option \<Rightarrow> bus_event list \<Rightarrow> bool" where
  "timely latest [] = True"
| "timely latest (Relayed now node msg # es) = ((case latest of None \<Rightarrow> True | Some t \<Rightarrow> now < t + TopicExpireTimeout) \<and> timely (Some now) es)"
| "timely latest (Read now # es) = ((case latest of None \<Rightarrow> True | Some t \<Rightarrow> now < t + TopicExpireTimeout) \<and> timely latest es)"

fun relayable_event :: "ext \<Rightarrow> EventBusOptions \<Rightarrow> string \<Rightarrow> bus_event \<Rightarrow> bool" where
  "relayable_event X eb topic (Relayed now node msg) = relayable X eb topic (node, msg)"
| "relayable_event X eb topic (Read now) = True"

text \<open>The list holds the texts of the messages in the queue.\<close>

definition holds :: "ext \<Rightarrow> string \<times> Message \<Rightarrow> string \<Rightarrow> bool" where
  "holds X im buf \<longleftrightarrow> (\<forall>subject. \<exists>m. queue_message X subject buf = Inr m \<and> arrives (fst im) subject (snd im) m)"

definition queued :: "ext \<Rightarrow> int option \<Rightarrow> (string \<times> Message) list \<Rightarrow> string list \<times> int \<Rightarrow> bool" where
  "queued X latest q l \<longleftrightarrow> list_all2 (holds X) q (fst l) \<and> (case latest of None \<Rightarrow> q = [] | Some t \<Rightarrow> snd l = t + TopicExpireTimeout)"

lemma queued_unexpired:
  assumes "queued X latest q l" and "case latest of None \<Rightarrow> True | Some t \<Rightarrow> now < t + TopicExpireTimeout"
  shows "unexpired now l = fst l"
  using assms by (auto simp: queued_def unexpired_def split: option.splits)

lemma bus_run_queue:
  assumes "\<forall>e \<in> set es. relayable_event X eb (real_topic eb ip topic) e" and "timely latest es" and "queued X latest q (R (real_topic eb ip topic))"
  shows "list_all2 (rel_option (\<lambda>im m. arrives (fst im) subject (snd im) m)) (queue_run es q) (bus_run X eb ip (topic, subject) es R)"
  using assms
proof (induction es arbitrary: latest q R)
  case (Cons e es)
  let ?l = "R (real_topic eb ip topic)"
  show ?case
  proof (cases e)
    case (Relayed now node msg)
    with Cons.prems(1) have "relayable X eb (real_topic eb ip topic) (node, msg)" by simp
    from relay_queue [OF this] obtain buf where buf: "\<And>R. relayToRedis X eb now node msg R =
        (R(real_topic eb ip topic := (unexpired now (R (real_topic eb ip topic)) @ [buf], now + TopicExpireTimeout)), None)" "holds X (node, msg) buf"
      unfolding holds_def by auto
    have "unexpired now ?l = fst ?l" using queued_unexpired [OF Cons.prems(3)] Cons.prems(2) Relayed by simp
    moreover define R' where "R' = R(real_topic eb ip topic := (fst ?l @ [buf], now + TopicExpireTimeout))"
    ultimately have "lcatch (relayToRedis X eb now node msg) R = R'" by (simp add: lcatch_def buf(1))
    moreover have "queued X (Some now) (q @ [(node, msg)]) (R' (real_topic eb ip topic))"
      using Cons.prems(3) buf(2) by (simp add: R'_def queued_def list_all2_appendI)
    ultimately show ?thesis using Cons.IH [of "Some now" "q @ [(node, msg)]" R'] Cons.prems(1,2) Relayed by simp
  next
    case (Read now)
    have live: "unexpired now ?l = fst ?l" using queued_unexpired [OF Cons.prems(3)] Cons.prems(2) Read by simp
    show ?thesis
    proof (cases q)
      case Nil
      with Cons.prems(3) live Cons.IH [of latest "[]" R] Cons.prems(1,2) Read show ?thesis by (simp add: queue_pop_def queued_def)
    next
      case (Cons im q')
      with Cons.prems(3) obtain buf bufs where l: "fst ?l = buf # bufs" "holds X im buf" "list_all2 (holds X) q' bufs"
        by (auto simp: queued_def list_all2_Cons1)
      then obtain m where m: "queue_message X subject buf = Inr m" "arrives (fst im) subject (snd im) m" by (auto simp: holds_def)
      define R' where "R' = R(real_topic eb ip topic := (bufs, snd ?l))"
      have "queued X latest q' (R' (real_topic eb ip topic))" using Cons.prems(3) l(3) Cons by (auto simp: R'_def queued_def split: option.splits)
      moreover have "queue_pop X eb now ip (topic, subject) R = (R', Some m)" using m(1) l(1) live by (simp add: queue_pop_def R'_def)
      ultimately show ?thesis using Cons.IH [of latest q' R'] Cons.prems(1,2) Read m(2) Cons by simp
    qed
  qed
qed simp

section \<open>Properties\<close>

text \<open>
  C34: while a topic does not expire, its list is a queue. When any nodes relay messages with raw payloads that JSON can carry to a
  list that is empty at first, and the subscribed node reads from it, in any interleaving, and less than half an hour passes after
  each relayed message until the next message or read, then every read gives the oldest message that has not been
  read, with its payload and labels and the address of the node that relayed it in the label \<open>from\<close>, and
  nothing only when there is none.
\<close>

theorem bus_fifo:
  assumes "\<forall>e \<in> set es. relayable_event X eb (real_topic eb ip topic) e" and "timely None es" and "fst (R (real_topic eb ip topic)) = []"
  shows "list_all2 (rel_option (\<lambda>im m. arrives (fst im) subject (snd im) m)) (queue_run es []) (bus_run X eb ip (topic, subject) es R)"
  using bus_run_queue [OF assms(1,2), of "[]" R] assms(3) by (simp add: queued_def)

text \<open>
  A topic that nobody writes to for half an hour is removed with every message in it that has not been read.
\<close>

theorem expired_topic_lost:
  assumes "relayable X eb (real_topic eb ip topic) (node, msg)" and "TopicExpireTimeout \<le> later - now"
  shows "snd (queue_pop X eb later ip (topic, subject) (fst (relayToRedis X eb now node msg R))) = None"
proof -
  from relay_queue [OF assms(1)] obtain buf where "\<And>now R. relayToRedis X eb now node msg R =
      (R(real_topic eb ip topic := (unexpired now (R (real_topic eb ip topic)) @ [buf], now + TopicExpireTimeout)), None)" by auto
  with assms(2) show ?thesis by (simp add: queue_pop_def unexpired_def)
qed

lemma option_labels_other: "option_labels E names data ls = Inr ls' \<Longrightarrow> k \<notin> set names \<Longrightarrow> map_of ls' k = map_of ls k"
  by (induction E names data ls rule: option_labels.induct) (auto split: sum.splits if_splits)

lemma option_labels_wf: "option_labels E names data ls = Inr ls' \<Longrightarrow> wfmap ls \<Longrightarrow> wfmap ls'"
  by (induction E names data ls rule: option_labels.induct) (auto split: sum.splits if_splits)

text \<open>What the operator and the driver leave of the labels of a command.\<close>

lemma command_labels:
  assumes "handleEventbusCommand Op m = (Inr [(worker, call)], sent)" and "wfmap (labels m)"
  shows "\<exists>ls. Labels call = Some ls \<and> wfmap ls \<and> (\<forall>k. k \<notin> {''method'', ''retry'', ''backoff_ms'', ''timeout''} \<longrightarrow> map_of ls k = label m k)"
proof -
  from assms(1) obtain msg w rawaction params ctx where r: "rbind (DeserializePayload (e_ext (oe Op)) m) (\<lambda>msg. rmap (Pair msg) (command_call Op msg)) =
      Inr (msg, w, rawaction, params, ctx)"
    by (auto simp: handleEventbusCommand_def command_failed_def split: sum.splits if_splits)
  then have same: "labels msg = labels m"
    by (auto simp: DeserializePayload_def rbind_Inr_conv rmap_def labels_def split: if_splits payload.splits)
  from assms(1) r obtain ls where ls: "option_labels (oe Op) [''retry'', ''backoff_ms'', ''timeout''] [(''ctx'', ctx), (''params'', omap_val params)]
      (mput ''method'' rawaction (labels msg)) = Inr ls" "Labels call = Some ls"
    by (auto simp: handleEventbusCommand_def command_failed_def split: sum.splits if_splits)
  have "map_of ls k = label m k" if "k \<notin> {''method'', ''retry'', ''backoff_ms'', ''timeout''}" for k
    using option_labels_other [OF ls(1), of k] that same by (simp add: label_def)
  with ls(2) option_labels_wf [OF ls(1)] assms(2) same show ?thesis by auto
qed

lemma result_labels_keep:
  "k \<notin> {''timeout'', ''retry'', ''backoff_ms'', ''status'', ''reason''} \<Longrightarrow> map_of (result_labels retval ls) k = map_of ls k"
  "map_of (result_labels retval ls) ''status'' \<noteq> None" "wfmap ls \<Longrightarrow> wfmap (result_labels retval ls)"
  by (auto simp: result_labels_def Let_def split: option.splits)

text \<open>
  C8: the return of a command reaches the node whose session waits for it. A command that an engine
  on node \<open>A\<close> relays and an operator on node \<open>B\<close> takes up and routes to a driver, and that the driver
  answers, is routed back to the event bus and read by the engine on \<open>A\<close>, with the ID of the session, a
  status and the payload of the answer, at any time until the list of \<open>A\<close> expires, half an hour after
  the answer, and not any more then; the lists of all other nodes stay as they are.
\<close>

theorem return_reaches_sender:
  assumes "relayable X eb (real_topic eb B (CommandTopic eb)) (A, cmd)" and "label cmd ''sessionID'' = Some sid"
    and "unexpired t0 (R0 (real_topic eb B (CommandTopic eb))) = []"
    and "snd (queue_pop X eb t1 B (CommandTopic eb, ''command'') (fst (relayToRedis X eb t0 A cmd R0))) = Some m"
    and "handleEventbusCommand Op m = (Inr [(worker, call)], sent)"
    and "cmdChannel p = ''eventbus''" and "cmdSubject p = ''return''" and "Payload retval = PRaw bs" and "A \<noteq> []"
    and "Cmd_Return p call retval = (call', [(writer, ans)])" and "json_keeps X (carried B ans)" and "unexpired t2 (R (ReturnTopic eb @ A)) = []"
  shows "operatorRoute Op ans = (Inr [(''eventbus'', ans)], []) \<and>
    (\<forall>C. C \<noteq> A \<longrightarrow> fst (relayToRedis X eb t2 B ans R) (real_topic eb C (ReturnTopic eb)) = R (real_topic eb C (ReturnTopic eb))) \<and>
    (\<exists>r. snd (queue_pop X eb t3 A (ReturnTopic eb, ''return'') (fst (relayToRedis X eb t2 B ans R))) = (if t3 < t2 + TopicExpireTimeout then Some r else None) \<and>
       label r ''sessionID'' = Some sid \<and> label r ''status'' \<noteq> None \<and> Payload r = PRaw bs)"
proof -
  from relay_queue [OF assms(1)] obtain cbuf where cbuf: "\<forall>now R. relayToRedis X eb now A cmd R = (R(real_topic eb B (CommandTopic eb) := (unexpired now (R (real_topic eb B (CommandTopic eb))) @ [cbuf], now + TopicExpireTimeout)), None)"
    "\<forall>subject. \<exists>m. queue_message X subject cbuf = Inr m \<and> arrives A subject cmd m" by blast
  from cbuf(2) obtain m' where m': "queue_message X ''command'' cbuf = Inr m'" "arrives A ''command'' cmd m'" by blast
  then have m: "arrives A ''command'' cmd m" using assms(3,4) by (auto simp: cbuf(1) queue_pop_def unexpired_def split: if_splits list.splits)
  then have mwf: "wfmap (labels m)" by (auto simp: arrives_def labels_def)
  have lm: "label m ''from'' = Some A" "label m ''sessionID'' = Some sid" using m assms(2) by (simp_all add: arrives_def)
  from command_labels [OF assms(5) mwf] obtain ls where call: "Labels call = Some ls" "wfmap ls"
    "\<forall>k. k \<notin> {''method'', ''retry'', ''backoff_ms'', ''timeout''} \<longrightarrow> map_of ls k = label m k" by blast
  have ls: "Labels call = Some ls" "wfmap ls" "map_of ls ''from'' = Some A" "map_of ls ''sessionID'' = Some sid"
    using call(1,2) call(3) [rule_format, of "''from''"] call(3) [rule_format, of "''sessionID''"] lm by simp_all
  from assms(6-8,10) ls have ans: "Channel ans = ''eventbus''" "Subject ans = ''return''" "Payload ans = PRaw bs"
    "Labels ans = Some (result_labels retval ls)" by (auto simp: Cmd_Return_def Let_def)
  have from_A: "label_str ans ''from'' = A" and sid: "label ans ''sessionID'' = Some sid" and status: "label ans ''status'' \<noteq> None"
    using ans(4) ls(3,4) result_labels_keep(1) [of "''from''" retval ls] result_labels_keep(1) [of "''sessionID''" retval ls] result_labels_keep(2)
    by (simp_all add: label_str_def label_def labels_def)
  have topic: "real_topic eb C (ReturnTopic eb) = ReturnTopic eb @ C" for C by (simp add: real_topic_def)
  have "relayable X eb (ReturnTopic eb @ A) (B, ans)"
    using ans from_A assms(9,11) ls(2) result_labels_keep(3) by (simp add: relayable_def relay_topic_def)
  from relay_queue [OF this] obtain buf where buf: "\<forall>now R. relayToRedis X eb now B ans R = (R(ReturnTopic eb @ A := (unexpired now (R (ReturnTopic eb @ A)) @ [buf], now + TopicExpireTimeout)), None)"
    "\<forall>subject. \<exists>m. queue_message X subject buf = Inr m \<and> arrives B subject ans m" by blast
  from buf(2) obtain r where r: "queue_message X ''return'' buf = Inr r" "arrives B ''return'' ans r" by blast
  have "operatorRoute Op ans = (Inr [(''eventbus'', ans)], [])" using ans by (simp add: operatorRoute_def channel_defs)
  moreover have "snd (queue_pop X eb t3 A (ReturnTopic eb, ''return'') (fst (relayToRedis X eb t2 B ans R))) = (if t3 < t2 + TopicExpireTimeout then Some r else None)"
    using assms(12) r(1) by (simp add: buf(1) queue_pop_def topic) (simp add: unexpired_def)
  moreover have "label r ''sessionID'' = Some sid" "label r ''status'' \<noteq> None" "Payload r = PRaw bs"
    using r(2) sid status ans(3) by (simp_all add: arrives_def)
  ultimately show ?thesis using topic by (intro conjI allI impI exI [of _ r]) (simp_all add: buf(1))
qed

lemma request_return_results: "rq_results (request_return responder None p r) = mput responder p (rq_results r)"
  by (auto simp: request_return_def send_received_def finish_request_def Let_def split: channel.split)

text \<open>What the broadcast of an API call carries.\<close>

definition call_labels :: "Request \<Rightarrow> string \<Rightarrow> (string, string) gomap" where
  "call_labels r ip = [(''fn'', rq_fn r), (''uuid'', rq_uuid r), (''service'', rq_service r), (''content-type'', rq_contentType r), (''from'', ip)]"

definition call_broadcast :: "Request \<Rightarrow> string \<Rightarrow> gval" where
  "call_broadcast r ip = GMap [(''labels'', GMap (strings (call_labels r ip))), (''broadcastSubject'', GStr ''call''), (''data'', GMap (rq_params r))]"

lemma sendBroadcast_call:
  "sendBroadcast X ip (zero_message\<lparr>Payload := PVal (broadcast_call r)\<rparr>) = SerializeContent X (PVal (call_broadcast r ip))"
  by (simp add: sendBroadcast_def DeserializePayload_def payload_val_def broadcast_call_def broadcast_payload_def call_broadcast_def
      call_labels_def MustGetMapDataStr_def MustGetMapData_def GetMapData_def assert_type_def zero_message_def rmap_def)

lemma broadcast_call_message:
  assumes "DeserializeContent X buf = Inr (call_broadcast r ip)"
  shows "service \<noteq> rq_service r \<Longrightarrow> rq_service r \<noteq> [] \<Longrightarrow> broadcast_message X service channel buf = Inr None"
    and "\<exists>m. broadcast_message X (rq_service r) channel buf = Inr (Some m) \<and> Channel m = channel \<and> Subject m = ''call'' \<and>
      label_str m ''uuid'' = rq_uuid r \<and> label_str m ''fn'' = rq_fn r \<and> label_str m ''from'' = ip \<and> Payload m = PVal (GMap (rq_params r))"
proof -
  have wf: "wfmap (call_labels r ip)" by (simp add: call_labels_def wfmap_def)
  have get: "GetMapData (call_broadcast r ip) ''labels'' = Some (GMap (strings (call_labels r ip)))"
    "GetMapData (call_broadcast r ip) ''data'' = Some (GMap (rq_params r))"
    "MustGetMapDataStr (call_broadcast r ip) ''broadcastSubject'' = Inr ''call''"
    by (simp_all add: call_broadcast_def MustGetMapDataStr_def MustGetMapData_def GetMapData_def assert_type_def)
  have srv: "map_of (call_labels r ip) ''service'' = Some (rq_service r)" by (simp add: call_labels_def)
  show "service \<noteq> rq_service r \<Longrightarrow> rq_service r \<noteq> [] \<Longrightarrow> broadcast_message X service channel buf = Inr None"
    using broadcast_labels_other [OF wf srv, of service "[]"] by (simp add: broadcast_message_def assms get assert_type_def)
  from broadcast_labels_strings [OF wf, of "rq_service r" "[]"] srv obtain ls' where
    "broadcast_labels (rq_service r) (strings (call_labels r ip)) [] = Inr (Some ls')"
    "\<forall>k. map_of ls' k = (case map_of (call_labels r ip) k of Some v \<Rightarrow> Some v | None \<Rightarrow> map_of [] k)" by blast
  then show "\<exists>m. broadcast_message X (rq_service r) channel buf = Inr (Some m) \<and> Channel m = channel \<and> Subject m = ''call'' \<and>
      label_str m ''uuid'' = rq_uuid r \<and> label_str m ''fn'' = rq_fn r \<and> label_str m ''from'' = ip \<and> Payload m = PVal (GMap (rq_params r))"
    by (simp add: broadcast_message_def assms get assert_type_def rmap_def val_payload_def label_str_def label_def labels_def call_labels_def)
qed

text \<open>
  C9: an API call and its answer find their way through the cluster. The broadcast of a call from node
  \<open>A\<close> is taken up only by nodes of the service it is for; the answer of such a node \<open>B\<close>, sent
  over the queue, is read by the API service on \<open>A\<close> and recorded in the request as the result of \<open>B\<close>.
\<close>

theorem api_call_returns:
  assumes "json_keeps X (call_broadcast r A)" and "sendBroadcast X A (zero_message\<lparr>Payload := PVal (broadcast_call r)\<rparr>) = Inr buf"
    and "rq_service r \<noteq> []" and "A \<noteq> []" and "broadcast_message X (rq_service r) channel buf = Inr (Some call)"
    and "ans = (Resp_Return call p)\<lparr>Payload := PRaw bs, IsRaw := True\<rparr>" and "DeserializeContent X bs = Inr v"
    and "json_keeps X (carried B ans)" and "unexpired t1 (R (APITopic eb @ A)) = []" and "rq_uuid r \<in> set (st_requests st)"
    and "snd (queue_pop X eb t2 A (APITopic eb, ''api'') (fst (relayToRedis X eb t1 B ans R))) = Some got"
  shows "(\<forall>service. service \<noteq> rq_service r \<longrightarrow> broadcast_message X service channel buf = Inr None) \<and>
    label_str call ''fn'' = rq_fn r \<and> Payload call = PVal (GMap (rq_params r)) \<and>
    map_of (rq_results (st_pool (handleAPIMessage X got st) (rq_uuid r))) B = Some (val_payload v)"
proof -
  obtain s where s: "SerializeContent X (PVal (call_broadcast r A)) = Inr s" "DeserializeContent X s = Inr (call_broadcast r A)"
    by (rule json_keepsE [OF assms(1)])
  with assms(2) have buf: "DeserializeContent X buf = Inr (call_broadcast r A)" by (simp add: sendBroadcast_call)
  from broadcast_call_message(2) [OF buf, of channel] assms(5) have call: "label_str call ''uuid'' = rq_uuid r" "label_str call ''fn'' = rq_fn r"
    "label_str call ''from'' = A" "Payload call = PVal (GMap (rq_params r))" by auto
  have ans: "Labels ans = Some [(''type'', ''result''), (''uuid'', rq_uuid r), (''from'', A)]" "Subject ans = ''api''" "Payload ans = PRaw bs"
    using assms(6) call by (simp_all add: Resp_Return_def response_message_def)
  have "relayable X eb (APITopic eb @ A) (B, ans)"
    using ans assms(4,8) by (simp add: relayable_def relay_topic_def label_str_def label_def labels_def wfmap_def)
  from relay_queue [OF this] obtain abuf where abuf: "\<forall>now R. relayToRedis X eb now B ans R = (R(APITopic eb @ A := (unexpired now (R (APITopic eb @ A)) @ [abuf], now + TopicExpireTimeout)), None)"
    "\<forall>subject. \<exists>m. queue_message X subject abuf = Inr m \<and> arrives B subject ans m" by blast
  from abuf(2) obtain got' where "queue_message X ''api'' abuf = Inr got'" "arrives B ''api'' ans got'" by blast
  then have got: "arrives B ''api'' ans got" using assms(9,11)
    by (auto simp: abuf(1) queue_pop_def real_topic_def unexpired_def split: if_splits list.splits)
  then have lb: "label got ''type'' = Some ''result''" "label got ''uuid'' = Some (rq_uuid r)" "label got ''from'' = Some B"
    "label got ''error'' = None" "IsRaw got" "Payload got = PRaw bs"
    using ans by (simp_all add: arrives_def label_def labels_def)
  have "handleAPIMessage X got st = upd_request (rq_uuid r) (request_return B None (val_payload v)) st"
    using lb assms(7,10) by (simp add: handleAPIMessage_def HandleAPIReturn_def DeserializePayload_def rmap_def label_def labels_def)
  then have "map_of (rq_results (st_pool (handleAPIMessage X got st) (rq_uuid r))) B = Some (val_payload v)"
    by (simp add: upd_request_def request_return_results)
  with call broadcast_call_message(1) [OF buf _ assms(3)] show ?thesis by blast
qed

section \<open>Witnesses\<close>

text \<open>A coding of the values of the samples.\<close>

definition json_table :: "(string \<times> gval) list \<Rightarrow> ext" where
  "json_table t = no_ext\<lparr>ext_json_marshal := (\<lambda>v. case find (\<lambda>e. snd e = v) t of None \<Rightarrow> Inl (ExternalPanic ''json'') | Some e \<Rightarrow> Inr (fst e)),
     ext_json_unmarshal := (\<lambda>s. case map_of t s of None \<Rightarrow> Inl (ExternalPanic ''json'') | Some v \<Rightarrow> Inr v)\<rparr>"

abbreviation sample_bus :: EventBusOptions where
  "sample_bus \<equiv> loadOptions GNil"

abbreviation empty_redis :: redis where
  "empty_redis \<equiv> (\<lambda>_. ([], 0))"

definition sample_bus_event :: Message where
  "sample_bus_event = zero_message\<lparr>Channel := ''eventbus'', Subject := ''message'', Labels := Some [(''eventID'', ''e'')], Payload := PRaw ''x'', IsRaw := True\<rparr>"

definition event_json :: ext where
  "event_json = json_table [(''1'', carried ''n1'' sample_bus_event), (''2'', carried ''n2'' sample_bus_event)]"

lemma sample_bus_relayable:
  "relayable event_json sample_bus ''honeydipper:events'' (''n1'', sample_bus_event)" "relayable event_json sample_bus ''honeydipper:events'' (''n2'', sample_bus_event)"
proof -
  have topic: "relay_topic sample_bus (Subject sample_bus_event) (label_str sample_bus_event ''from'') = Inr ''honeydipper:events''" by code_simp
  have "json_keeps event_json (carried ''n1'' sample_bus_event)" unfolding json_keeps_def
    by (intro exI [of _ "''1''"]) (simp add: event_json_def json_table_def)
  moreover have "json_keeps event_json (carried ''n2'' sample_bus_event)" unfolding json_keeps_def
    by (intro exI [of _ "''2''"]) (simp add: event_json_def json_table_def carried_def sample_bus_event_def labels_def)
  moreover have "Labels sample_bus_event = Some [(''eventID'', ''e'')]" "Payload sample_bus_event = PRaw ''x''" by (simp_all add: sample_bus_event_def)
  ultimately show "relayable event_json sample_bus ''honeydipper:events'' (''n1'', sample_bus_event)"
    "relayable event_json sample_bus ''honeydipper:events'' (''n2'', sample_bus_event)"
    using topic by (simp_all add: relayable_def wfmap_def)
qed

definition sample_bus_events :: "bus_event list" where
  "sample_bus_events = [Relayed 0 ''n2'' sample_bus_event, Relayed 5 ''n1'' sample_bus_event, Read 6, Read 7, Read 8]"

theorem bus_fifo_witness:
  "list_all2 (rel_option (\<lambda>im m. arrives (fst im) ''message'' (snd im) m)) [Some (''n2'', sample_bus_event), Some (''n1'', sample_bus_event), None]
    (bus_run event_json sample_bus ''n3'' (''honeydipper:events'', ''message'') sample_bus_events empty_redis)"
proof -
  have topic: "real_topic sample_bus ''n3'' ''honeydipper:events'' = ''honeydipper:events''" by code_simp
  have "\<forall>e \<in> set sample_bus_events. relayable_event event_json sample_bus (real_topic sample_bus ''n3'' ''honeydipper:events'') e"
    unfolding topic using sample_bus_relayable by (simp add: sample_bus_events_def)
  moreover have "timely None sample_bus_events" by (simp add: sample_bus_events_def TopicExpireTimeout_def)
  moreover have "queue_run sample_bus_events [] = [Some (''n2'', sample_bus_event), Some (''n1'', sample_bus_event), None]" by (simp add: sample_bus_events_def)
  moreover have "fst (empty_redis (real_topic sample_bus ''n3'' ''honeydipper:events'')) = []" by (rule fst_conv)
  ultimately show ?thesis using bus_fifo [of sample_bus_events event_json sample_bus "''n3''" "''honeydipper:events''" empty_redis "''message''"] by (simp only:)
qed

theorem expired_topic_lost_witness:
  "snd (queue_pop event_json sample_bus TopicExpireTimeout ''n3'' (''honeydipper:events'', ''message'') (fst (relayToRedis event_json sample_bus 0 ''n1'' sample_bus_event empty_redis))) = None"
proof (rule expired_topic_lost)
  have topic: "real_topic sample_bus ''n3'' ''honeydipper:events'' = ''honeydipper:events''" by code_simp
  show "relayable event_json sample_bus (real_topic sample_bus ''n3'' ''honeydipper:events'') (''n1'', sample_bus_event)"
    unfolding topic by (rule sample_bus_relayable(1))
qed simp

definition sample_bus_command :: Message where
  "sample_bus_command = zero_message\<lparr>Channel := ''eventbus'', Subject := ''command'', Labels := Some [(''sessionID'', ''7'')], Payload := PRaw ''cmd'', IsRaw := True\<rparr>"

definition sample_bus_call :: Message where
  "sample_bus_call = zero_message\<lparr>Channel := ''eventbus'', Subject := ''command'', Labels := Some [(''sessionID'', ''7''), (''from'', ''A'')], Payload := PRaw ''cmd'', IsRaw := True\<rparr>"

definition sample_bus_routed :: Message where
  "sample_bus_routed = zero_message\<lparr>Channel := ''eventbus'', Subject := ''command'',
     Labels := Some [(''sessionID'', ''7''), (''from'', ''A''), (''method'', ''request'')], Payload := PVal (GMap [])\<rparr>"

definition sample_bus_answer :: Message where
  "sample_bus_answer = zero_message\<lparr>Channel := ''eventbus'', Subject := ''return'',
     Labels := Some [(''sessionID'', ''7''), (''from'', ''A''), (''method'', ''request''), (''status'', ''success'')], Payload := PRaw ''ok'', IsRaw := True\<rparr>"

definition sample_bus_op :: openv where
  "sample_bus_op = sample_op\<lparr>oe := sample_env\<lparr>e_ext := json_table [(''cmd'', GMap [(''function'', GStr ''get'')])]\<rparr>\<rparr>"

definition command_json :: ext where
  "command_json = json_table [(''1'', carried ''A'' sample_bus_command), (''2'', carried ''B'' sample_bus_answer)]"

definition sample_bus_provider :: CommandProvider where
  "sample_bus_provider = \<lparr>Commands = [''request''], ReturnWriter = 0, cmdChannel = ''eventbus'', cmdSubject = ''return''\<rparr>"

lemma sample_bus_run:
  "relay_topic sample_bus ''command'' [] = Inr ''honeydipper:commands''"
  "real_topic sample_bus ''B'' (CommandTopic sample_bus) = ''honeydipper:commands''"
  "snd (queue_pop command_json sample_bus 1 ''B'' (CommandTopic sample_bus, ''command'') (fst (relayToRedis command_json sample_bus 0 ''A'' sample_bus_command empty_redis))) = Some sample_bus_call"
  "handleEventbusCommand sample_bus_op sample_bus_call = (Inr [(''driver:web'', sample_bus_routed)], [])"
  "Cmd_Return sample_bus_provider sample_bus_routed (zero_message\<lparr>Payload := PRaw ''ok'', IsRaw := True\<rparr>) =
     (sample_bus_routed\<lparr>Labels := Labels sample_bus_answer\<rparr>, [(0, sample_bus_answer)])"
  by code_simp+

lemma sample_bus_json:
  "json_keeps command_json (carried ''A'' sample_bus_command)" "json_keeps command_json (carried ''B'' sample_bus_answer)"
  unfolding json_keeps_def
  by (intro exI [of _ "''1''"]; simp add: command_json_def json_table_def)
    (intro exI [of _ "''2''"]; simp add: command_json_def json_table_def carried_def sample_bus_answer_def sample_bus_command_def labels_def)

theorem return_reaches_sender_witness:
  "\<exists>r. snd (queue_pop command_json sample_bus 3 ''A'' (ReturnTopic sample_bus, ''return'')
      (fst (relayToRedis command_json sample_bus 2 ''B'' sample_bus_answer empty_redis))) = Some r \<and> label r ''sessionID'' = Some ''7''"
proof -
  have "relayable command_json sample_bus ''honeydipper:commands'' (''A'', sample_bus_command)"
    using sample_bus_run(1) sample_bus_json(1)
    by (simp add: relayable_def) (simp add: sample_bus_command_def wfmap_def label_str_def label_def labels_def)
  moreover have "label sample_bus_command ''sessionID'' = Some ''7''" by (simp add: sample_bus_command_def label_def labels_def)
  ultimately have "\<exists>r. snd (queue_pop command_json sample_bus 3 ''A'' (ReturnTopic sample_bus, ''return'')
      (fst (relayToRedis command_json sample_bus 2 ''B'' sample_bus_answer empty_redis))) = Some r \<and>
      label r ''sessionID'' = Some ''7'' \<and> label r ''status'' \<noteq> None \<and> Payload r = PRaw ''ok''"
    using return_reaches_sender [OF _ _ _ sample_bus_run(3,4) _ _ _ _ sample_bus_run(5) sample_bus_json(2), of "''7''" "''ok''" 2 empty_redis 3] sample_bus_run(2)
    by (simp add: sample_bus_provider_def unexpired_def TopicExpireTimeout_def)
  then show ?thesis by blast
qed

definition sample_bus_answered :: Message where
  "sample_bus_answered = zero_message\<lparr>Channel := ''eventbus'', Subject := ''api'',
     Labels := Some [(''type'', ''result''), (''uuid'', ''u1''), (''from'', ''A'')], Payload := PRaw ''res'', IsRaw := True\<rparr>"

definition sample_bus_request :: Message where
  "sample_bus_request = zero_message\<lparr>Channel := ''api'', Subject := ''call'',
     Labels := Some (call_labels (sample_request ''eventAdd'') ''A''), Payload := PVal (GMap [])\<rparr>"

definition api_json :: ext where
  "api_json = json_table [(''1'', call_broadcast (sample_request ''eventAdd'') ''A''), (''2'', carried ''B'' sample_bus_answered), (''res'', GStr ''done'')]"

lemma sample_api_run:
  "sendBroadcast api_json ''A'' (zero_message\<lparr>Payload := PVal (broadcast_call (sample_request ''eventAdd''))\<rparr>) = Inr ''1''"
  "broadcast_message api_json (rq_service (sample_request ''eventAdd'')) ''api'' ''1'' = Inr (Some sample_bus_request)"
  "sample_bus_answered = (Resp_Return sample_bus_request PNil)\<lparr>Payload := PRaw ''res'', IsRaw := True\<rparr>"
  "DeserializeContent api_json ''res'' = Inr (GStr ''done'')"
  "rq_service (sample_request ''eventAdd'') \<noteq> []" "rq_uuid (sample_request ''eventAdd'') \<in> set (st_requests sample_store)"
  "rq_uuid (sample_request ''eventAdd'') = ''u1''"
  by code_simp+

lemma sample_api_json:
  "json_keeps api_json (call_broadcast (sample_request ''eventAdd'') ''A'')" "json_keeps api_json (carried ''B'' sample_bus_answered)"
  unfolding json_keeps_def
  by (intro exI [of _ "''1''"]; simp add: api_json_def json_table_def)
    (intro exI [of _ "''2''"]; simp add: api_json_def json_table_def carried_def sample_bus_answered_def call_broadcast_def labels_def)

theorem api_call_returns_witness:
  "\<exists>got. snd (queue_pop api_json sample_bus 1 ''A'' (APITopic sample_bus, ''api'') (fst (relayToRedis api_json sample_bus 0 ''B'' sample_bus_answered empty_redis))) = Some got \<and>
    map_of (rq_results (st_pool (handleAPIMessage api_json got sample_store) ''u1'')) ''B'' = Some (PVal (GStr ''done''))"
proof -
  have "snd (queue_pop api_json sample_bus 1 ''A'' (APITopic sample_bus, ''api'') (fst (relayToRedis api_json sample_bus 0 ''B'' sample_bus_answered empty_redis))) \<noteq> None"
    by code_simp
  then obtain got where got: "snd (queue_pop api_json sample_bus 1 ''A'' (APITopic sample_bus, ''api'') (fst (relayToRedis api_json sample_bus 0 ''B'' sample_bus_answered empty_redis))) = Some got" by blast
  with api_call_returns [OF sample_api_json(1) sample_api_run(1,5) _ sample_api_run(2-4) sample_api_json(2) _ sample_api_run(6) got]
  show ?thesis by (simp add: sample_api_run(7) val_payload_def unexpired_def)
qed

end
