(* ===== verification/Lifecycle.thy ===== *)
theory Lifecycle
  imports Runtime Staging RepoLoad Api
begin

text \<open>
  How a service starts and how it follows a change of the configuration: \<open>start\<close>, \<open>Reload\<close> and \<open>Drain\<close>
  of \<open>internal/service/service.go\<close>, with the loading of features from \<open>Runtime\<close> and the stages of
  \<open>Staging\<close> in the order of the code; \<open>Ready\<close> of \<open>internal/driver/driver.go\<close>, \<open>GetReceiver\<close> and
  \<open>handleAPI\<close>.

  What the other services contribute is given: for each stage whether \<open>AdvanceStage\<close> panics and which
  drivers are staged afterwards, and what \<open>DiscoverFeatures\<close> and \<open>ServiceReload\<close> of the service do. Both
  functions run in goroutines of their own, so a panic that leaves them ends the process.
\<close>

section \<open>Waiting for a driver\<close>

text \<open>The states of the driver that \<open>Ready\<close> reads, one after each second; it looks at most \<open>secs + 1\<close> times.\<close>

fun ready_state :: "nat \<Rightarrow> dstate \<Rightarrow> dstate list \<Rightarrow> dstate" where
  "ready_state 0 d ds = d"
| "ready_state (Suc secs) d [] = d"
| "ready_state (Suc secs) d (d' # ds) = (if d < DriverAlive then ready_state secs d' ds else d)"

definition Ready :: "nat \<Rightarrow> string \<Rightarrow> dstate \<Rightarrow> dstate list \<Rightarrow> unit res" where
  "Ready secs feature d ds =
    (if ready_state secs d ds = DriverAlive then Inr ()
     else Inl (PanicErr (''driver error: feature failed or loading timeout: '' @ feature)))"

definition DriverReadyTimeout :: nat where
  "DriverReadyTimeout = 10"

definition GetReceiver :: "string \<Rightarrow> dstate list \<Rightarrow> Service \<Rightarrow> nat res" where
  "GetReceiver feature seen s = (case getDriverRuntime s feature of
      None \<Rightarrow> Inl (PanicErr (''service error: feature not loaded: '' @ feature))
    | Some a \<Rightarrow> rmap (\<lambda>_. a) (Ready DriverReadyTimeout (rt_Feature (sv_heap s a)) (rt_State (sv_heap s a)) seen))"

text \<open>The messages sent at once and the function that is started for an API call; \<open>APIs\<close> are the calls the service serves.\<close>

definition handleAPI :: "ext \<Rightarrow> (string \<Rightarrow> bool) \<Rightarrow> string list \<Rightarrow> dstate list \<Rightarrow> Message \<Rightarrow> Service \<Rightarrow> (Message list \<times> (string \<times> Message) option) res" where
  "handleAPI X lock APIs seen m s =
    rbind (DeserializePayload X m) (\<lambda>req.
    rbind (GetReceiver ''eventbus'' seen s) (\<lambda>eventbus.
    Inr (case NewResponse lock req of (sent, handled) \<Rightarrow>
      (sent, if handled \<and> label_str req ''fn'' \<in> set APIs then Some (label_str req ''fn'', req) else None))))"

section \<open>Starting and reloading\<close>

record stages =
  sg_panic :: "nat \<Rightarrow> gopanic option"
  sg_drivers :: "nat \<Rightarrow> gmap option"
  sg_discover :: "gmap res option"
  sg_reload :: "gopanic option"

record lifecycle =
  lc_svc :: Service
  lc_healthy :: bool

definition on_svc :: "Service act \<Rightarrow> lifecycle act" where
  "on_svc f l = (case f (lc_svc l) of (s, e) \<Rightarrow> (l\<lparr>lc_svc := s\<rparr>, e))"

definition advance_to :: "stages \<Rightarrow> nat \<Rightarrow> lifecycle act" where
  "advance_to G k l = (case sg_panic G k of
      Some e \<Rightarrow> (l, Some e)
    | None \<Rightarrow> (l\<lparr>lc_svc := (lc_svc l)\<lparr>sv_drivers := sg_drivers G k\<rparr>\<rparr>, None))"

text \<open>The discovered features are added to the list; all of them are optional.\<close>

definition all_features :: "gmap option \<Rightarrow> (string, bool) gomap \<Rightarrow> (string, bool) gomap" where
  "all_features discovered featureList = (case discovered of
      None \<Rightarrow> featureList | Some dyn \<Rightarrow> fold (\<lambda>(name, _). mput name False) dyn featureList)"

definition discover :: "stages \<Rightarrow> gmap option res" where
  "discover G = (case sg_discover G of None \<Rightarrow> Inr None | Some r \<Rightarrow> rmap Some r)"

definition serve_features :: "stages \<Rightarrow> driver_env \<Rightarrow> (string, bool) gomap \<Rightarrow> gmap option \<Rightarrow> lifecycle act" where
  "serve_features G E featureList dyn =
    lseq (on_svc (\<lambda>s. (loadAdditionalFeatures E dyn featureList s, None)))
    (lseq (advance_to G 3)
    (\<lambda>l. case sg_reload G of Some e \<Rightarrow> (l, Some e) | None \<Rightarrow> (l\<lparr>lc_healthy := True\<rparr>, None)))"

definition load_features :: "stages \<Rightarrow> driver_env \<Rightarrow> bool \<Rightarrow> ((string, bool) gomap \<Rightarrow> gmap option \<Rightarrow> lifecycle act) \<Rightarrow> lifecycle act" where
  "load_features G E boot k =
    lseq (advance_to G 1) (\<lambda>l. lget (getFeatureList (lc_svc l)) (\<lambda>featureList.
    lseq (on_svc (loadRequiredFeatures E featureList boot))
    (lseq (advance_to G 2) (\<lambda>l. lget (discover G) (k featureList) l))) l)"

definition start :: "stages \<Rightarrow> driver_env \<Rightarrow> lifecycle act" where
  "start G E = load_features G E True (serve_features G E)"

definition reload_body :: "stages \<Rightarrow> driver_env \<Rightarrow> lifecycle act" where
  "reload_body G E = load_features G E False (\<lambda>featureList dyn.
     lseq (serve_features G E featureList dyn)
       (on_svc (\<lambda>s. (removeUnusedFeatures (all_features dyn featureList) s, None))))"

text \<open>The deferred function asserts that the panic is an error.\<close>

definition Reload :: "stages \<Rightarrow> driver_env \<Rightarrow> lifecycle act" where
  "Reload G E l = (case reload_body G E l of
      (l', None) \<Rightarrow> (l', None)
    | (l', Some e) \<Rightarrow>
        if fatal e then (l', Some e)
        else (let l1 = l'\<lparr>lc_healthy := False\<rparr> in
          if \<not> is_error e then (l1, Some TypeAssertion)
          else if e = ErrConfigRollback then (l1, None)
          else (l1\<lparr>lc_svc := emit RollBackConfig (lc_svc l1)\<rparr>, None)))"

text \<open>\<open>Drain\<close>: the drivers are told to stop, then the configuration goes to its last stage.\<close>

definition Drain :: "stages \<Rightarrow> driver_env \<Rightarrow> lifecycle act" where
  "Drain G E l = lseq (on_svc (Drain_begin E)) (advance_to G 4) (l\<lparr>lc_healthy := False\<rparr>)"

section \<open>Lemmas\<close>

definition registered :: "Service \<Rightarrow> string \<Rightarrow> bool" where
  "registered s feature \<longleftrightarrow> getDriverRuntime s feature \<noteq> None"

lemma registered_eq: "sv_runtimes s' = sv_runtimes s \<Longrightarrow> registered s' f = registered s f"
  by (simp add: registered_def getDriverRuntime_def)

lemma runtimes_keep [simp]:
  "sv_runtimes (set_runtime a r s) = sv_runtimes s" "sv_runtimes (set_state a d s) = sv_runtimes s"
  "sv_runtimes (mark_failed feature s) = sv_runtimes s" "sv_runtimes (spawn_job j s) = sv_runtimes s"
  "sv_runtimes (emit x s) = sv_runtimes s" "sv_runtimes (addExpect k f e s) = sv_runtimes s"
  by (simp_all add: set_runtime_def set_state_def mark_failed_def spawn_job_def emit_def addExpect_def split: option.split)

lemma effects_keep [simp]:
  "sv_effects (set_runtime a r s) = sv_effects s" "sv_effects (set_state a d s) = sv_effects s"
  "sv_effects (mark_failed feature s) = sv_effects s" "sv_effects (spawn_job j s) = sv_effects s"
  "sv_effects (addExpect k f e s) = sv_effects s" "sv_effects (setDriverRuntime f a s) = sv_effects s"
  "sv_effects (checkDeleteDriverRuntime f c s) = sv_effects s"
  by (simp_all add: set_runtime_def set_state_def mark_failed_def spawn_job_def addExpect_def setDriverRuntime_def checkDeleteDriverRuntime_def split: option.split)

lemma registered_set: "registered (setDriverRuntime f a s) g \<longleftrightarrow> g = f \<or> registered s g"
  by (simp add: registered_def getDriverRuntime_def setDriverRuntime_def LockGetMap_def)

text \<open>What loading keeps: the service stays well formed, nothing leaves it, and no feature is lost.\<close>

definition kept :: "Service \<Rightarrow> Service \<Rightarrow> bool" where
  "kept s s' \<longleftrightarrow> svc_ok s' \<and> sv_effects s' = sv_effects s \<and> (\<forall>g. registered s g \<longrightarrow> registered s' g)"

lemma kept_refl: "svc_ok s \<Longrightarrow> kept s s"
  by (simp add: kept_def)

lemma kept_trans: "kept s s' \<Longrightarrow> kept s' s'' \<Longrightarrow> kept s s''"
  by (simp add: kept_def)

lemma kept_same: "sv_runtimes s' = sv_runtimes s \<Longrightarrow> sv_effects s' = sv_effects s \<Longrightarrow> svc_ok s' \<Longrightarrow> kept s s'"
  by (simp add: kept_def registered_eq [of s' s])

lemma send_effects: "sv_effects (fst (SendOptions E a s)) = sv_effects s"
  unfolding SendOptions_def
  by (rule load_each_ok [where P = "\<lambda>s'. sv_effects s' = sv_effects s"]) (simp_all add: Runtime_SendMessage_def split: option.split)

lemma replace_runtime_kept:
  assumes "svc_ok s" and "a < sv_next s"
  shows "kept s (fst (replace_runtime a old s))" and "registered (fst (replace_runtime a old s)) (rt_Feature (sv_heap s a))"
proof -
  let ?s = "spawn_job (WaitExit a) (setDriverRuntime (rt_Feature (sv_heap s a)) a s)"
  have svc: "svc_ok ?s" using assms by (simp add: svc_ok_register)
  have reg: "registered ?s g \<longleftrightarrow> g = rt_Feature (sv_heap s a) \<or> registered s g" for g
    using registered_set [of "rt_Feature (sv_heap s a)" a s g] registered_eq [of ?s] by simp
  have same: "sv_runtimes (fst (replace_runtime a old s)) = sv_runtimes ?s" "sv_effects (fst (replace_runtime a old s)) = sv_effects s"
    using arg_cong [OF checkDelete_nil [OF svc, of "rt_Feature (sv_heap s a)"], of sv_runtimes]
    by (simp_all only: replace_runtime_def Let_def split: option.split) (simp_all del: if_split)
  then show "kept s (fst (replace_runtime a old s))" "registered (fst (replace_runtime a old s)) (rt_Feature (sv_heap s a))"
    using replace_runtime_ok [OF assms, of old] reg registered_eq [OF same(1)] by (simp_all add: kept_def)
qed

lemma coldReload_kept:
  assumes "svc_ok s"
  shows "kept s (fst (coldReload E new old s))" and "snd (coldReload E new old s) = None \<Longrightarrow> registered (fst (coldReload E new old s)) (rt_Feature new)"
proof -
  let ?a = "sv_next s"
  let ?s1 = "(set_runtime ?a (new\<lparr>rt_Service := sv_name s\<rparr>) s)\<lparr>sv_next := Suc ?a\<rparr>"
  let ?s2 = "fst (SendOptions E ?a ?s1)"
  have keep: "sv_runtimes ?s2 = sv_runtimes s" "sv_next ?s2 = Suc ?a" "rt_Feature (sv_heap ?s2 ?a) = rt_Feature new" "sv_effects ?s2 = sv_effects s"
    using SendOptions_keeps [of E ?a ?s1 ?a] send_effects [of E ?a ?s1] by (simp_all add: set_runtime_def)
  have "svc_ok ?s1" using assms unfolding svc_ok_def set_runtime_def by fastforce
  then have svc: "svc_ok ?s2" by (rule SendOptions_ok)
  have s2: "kept s ?s2" using kept_same [OF keep(1,4) svc] .
  have lt: "?a < sv_next ?s2" using keep(2) by simp
  note rep = replace_runtime_kept [OF svc lt, of old]
  show "kept s (fst (coldReload E new old s))"
    using s2 kept_trans [OF s2 rep(1)] kept_refl [OF assms]
    by (cases "SendOptions E ?a ?s1"; cases "snd (SendOptions E ?a ?s1)"; cases "de_start E (rt_Meta new) (sv_name s)")
      (simp_all add: coldReload_def Let_def lseq_def)
  show "registered (fst (coldReload E new old s)) (rt_Feature new)" if "snd (coldReload E new old s) = None"
    using that rep(2) keep(3)
    by (cases "SendOptions E ?a ?s1"; cases "snd (SendOptions E ?a ?s1)"; cases "de_start E (rt_Meta new) (sv_name s)")
      (simp_all add: coldReload_def Let_def lseq_def)
qed

lemma hotReload_kept: "svc_ok s \<Longrightarrow> kept s (fst (hotReload E new old s))"
  by (rule kept_same) (simp_all add: hotReload_ok, simp_all add: hotReload_def SendOptions_keeps send_effects)

lemma mark_failed_kept: "svc_ok s \<Longrightarrow> kept s (mark_failed feature s)"
  by (simp add: kept_same mark_failed_ok)

lemma reload_result_kept: "kept s (fst r) \<Longrightarrow> kept s (fst (reload_result feature name r))"
  by (auto simp: reload_result_def kept_def mark_failed_ok registered_eq [of "mark_failed feature s'" s' for s'] split: prod.split option.split)

lemma feature_runtime_feature: "feature_runtime E s feature name = Inr new \<Longrightarrow> rt_Feature new = feature"
  by (auto simp: feature_runtime_def NewDriver_def Let_def rbind_def assert_type_def split: option.splits sum.splits)

lemma loadFeature_kept: "svc_ok s \<Longrightarrow> kept s (fst (loadFeature E feature s))"
  unfolding loadFeature_def Let_def
  by (simp add: mark_failed_kept reload_result_kept coldReload_kept hotReload_kept kept_refl split: sum.split option.split)

lemma loadFeature_registers:
  assumes "svc_ok s" and "loadFeature E feature s = (s', affected, name, None)"
  shows "registered s' feature"
proof (cases "getDriverRuntime s feature")
  case (Some a)
  then have "registered s feature" by (simp add: registered_def)
  with loadFeature_kept [OF assms(1), of E feature] assms(2) show ?thesis by (simp add: kept_def)
next
  case None
  with assms(2) obtain n new where new: "feature_runtime E s feature n = Inr new"
    and res: "reload_result feature n (coldReload E new None s) = (s', affected, name, None)"
    by (auto simp: loadFeature_def Let_def split: sum.splits)
  from reload_result_success [OF res] have "coldReload E new None s = (s', None)" by simp
  with coldReload_kept(2) [OF assms(1), of E new None] feature_runtime_feature [OF new] show ?thesis by simp
qed

lemma addExpect_kept [simp]: "kept s (addExpect k f e s') = kept s s'"
  by (simp add: kept_def registered_eq [of "addExpect k f e s'" s'])

lemma load_additional_kept: "svc_ok s \<Longrightarrow> kept s (load_additional E fr s)"
  using loadFeature_kept [of s E "fst fr"] by (auto simp: load_additional_def kept_refl split: prod.splits)

lemma fold_kept: "(\<And>x s. svc_ok s \<Longrightarrow> kept s (f x s)) \<Longrightarrow> svc_ok s \<Longrightarrow> kept s (fold f xs s)"
  by (rule fold_ok [where P = "kept s"]) (auto intro: kept_refl kept_trans simp: kept_def)

lemma loadAdditional_kept: "svc_ok s \<Longrightarrow> kept s (loadAdditionalFeatures E dyn fl s)"
proof (cases dyn)
  case (Some d)
  assume s: "svc_ok s"
  have "kept s (s\<lparr>sv_dynamic := d\<rparr>)" using s by (simp add: kept_same)
  moreover have "kept (s\<lparr>sv_dynamic := d\<rparr>) (fold (load_additional E) fs (s\<lparr>sv_dynamic := d\<rparr>))" for fs
    using s by (intro fold_kept load_additional_kept) simp_all
  ultimately show ?thesis using kept_trans Some by (simp add: loadAdditionalFeatures_def)
qed (simp add: loadAdditionalFeatures_def fold_kept load_additional_kept)

lemma remove_effects [simp]: "sv_effects (remove_feature fl fr s) = sv_effects s"
  by (auto simp: remove_feature_def Let_def split: prod.split option.split)

lemma remove_kept: "svc_ok s \<Longrightarrow> kept s (removeUnusedFeatures fl s)"
  unfolding removeUnusedFeatures_def
  by (rule fold_kept [OF kept_same]) (simp_all add: remove_feature_keeps remove_feature_ok remove_effects)

text \<open>Reloading a required feature registers it or raises a panic with a string.\<close>

lemma load_required_step:
  assumes "svc_ok s"
  shows "kept s (fst (load_required E False fr s))"
    and "snd (load_required E False fr s) = None \<Longrightarrow> snd fr \<Longrightarrow> registered (fst (load_required E False fr s)) (fst fr)"
    and "snd (load_required E False fr s) = Some e \<Longrightarrow> \<not> is_error e \<and> \<not> fatal e"
proof -
  obtain feature required where fr: "fr = (feature, required)" by (cases fr)
  obtain s1 affected name err where load: "loadFeature E feature s = (s1, affected, name, err)" by (metis prod_cases4)
  have k: "kept s s1" using loadFeature_kept [OF assms, of E feature] load by simp
  then show "kept s (fst (load_required E False fr s))"
    using kept_refl [OF assms] by (cases err) (simp_all add: fr load load_required_def)
  show "registered (fst (load_required E False fr s)) (fst fr)" if "snd (load_required E False fr s) = None" "snd fr"
  proof (cases err)
    case None
    then show ?thesis using that(2) loadFeature_registers [OF assms] load registered_eq [of "addExpect k f x s1" s1 feature for k f x]
      by (simp add: fr load_required_def)
  qed (use that in \<open>simp add: fr load load_required_def\<close>)
  show "\<not> is_error e \<and> \<not> fatal e" if "snd (load_required E False fr s) = Some e"
    using that by (cases err) (auto simp: fr load load_required_def is_error_def fatal_def split: if_splits)
qed

lemma loadRequired_outcome:
  assumes "svc_ok s" and "loadRequiredFeatures E fl False s = (s', e)"
  shows "kept s s' \<and> (case e of None \<Rightarrow> \<forall>fr \<in> set fl. snd fr \<longrightarrow> registered s' (fst fr) | Some p \<Rightarrow> \<not> is_error p \<and> \<not> fatal p)"
  using assms unfolding loadRequiredFeatures_def
proof (induction fl arbitrary: s)
  case Nil
  then show ?case by (simp add: kept_refl)
next
  case (Cons fr fl)
  note step = load_required_step [OF Cons.prems(1), of E fr]
  obtain s1 e1 where one: "load_required E False fr s = (s1, e1)" by (cases "load_required E False fr s")
  show ?case
  proof (cases e1)
    case None
    have rest: "load_each (load_required E False) fl s1 = (s', e)" using Cons.prems(2) one None by (simp add: lseq_def)
    have k: "kept s s1" using step(1) one by simp
    then have "svc_ok s1" by (simp add: kept_def)
    from Cons.IH [OF this rest] have IH: "kept s1 s'" "case e of None \<Rightarrow> \<forall>fr \<in> set fl. snd fr \<longrightarrow> registered s' (fst fr) | Some p \<Rightarrow> \<not> is_error p \<and> \<not> fatal p"
      by simp_all
    have "snd fr \<Longrightarrow> registered s' (fst fr)" using step(2) one None IH(1) by (simp add: kept_def)
    with IH kept_trans [OF k IH(1)] show ?thesis by (simp split: option.splits)
  next
    case (Some p)
    then have "s' = s1" "e = Some p" using Cons.prems(2) one by (simp_all add: lseq_def)
    then show ?thesis using one Some step(1) step(3) [of p] by simp
  qed
qed

section \<open>A change of the configuration\<close>

text \<open>The service of a stage, and the features it has to load.\<close>

definition staged_at :: "stages \<Rightarrow> nat \<Rightarrow> lifecycle \<Rightarrow> lifecycle" where
  "staged_at G k l = l\<lparr>lc_svc := (lc_svc l)\<lparr>sv_drivers := sg_drivers G k\<rparr>\<rparr>"

lemma advance_to_cases: "advance_to G k l = (case sg_panic G k of Some e \<Rightarrow> (l, Some e) | None \<Rightarrow> (staged_at G k l, None))"
  by (simp add: advance_to_def staged_at_def split: option.split)

lemma lseq_advance: "lseq (advance_to G k) g l = (case sg_panic G k of Some e \<Rightarrow> (l, Some e) | None \<Rightarrow> g (staged_at G k l))"
  by (simp add: lseq_def advance_to_cases split: option.split)

lemma lseq_on_svc: "lseq (on_svc f) g l = (case f (lc_svc l) of (s, None) \<Rightarrow> g (l\<lparr>lc_svc := s\<rparr>) | (s, Some e) \<Rightarrow> (l\<lparr>lc_svc := s\<rparr>, Some e))"
  by (simp add: lseq_def on_svc_def split: prod.split option.split)

lemma staged_at_svc [simp]:
  "svc_ok (lc_svc (staged_at G k l)) = svc_ok (lc_svc l)" "sv_effects (lc_svc (staged_at G k l)) = sv_effects (lc_svc l)"
  "registered (lc_svc (staged_at G k l)) f = registered (lc_svc l) f" "lc_healthy (staged_at G k l) = lc_healthy l"
  by (simp_all add: staged_at_def svc_ok_def registered_def getDriverRuntime_def)

lemma staged_at_kept: "svc_ok (lc_svc l) \<Longrightarrow> kept (lc_svc l) (lc_svc (staged_at G k l))"
  by (simp add: kept_def)

lemma on_svc_simps [simp]:
  "lc_svc (fst (on_svc f l)) = fst (f (lc_svc l))" "snd (on_svc f l) = snd (f (lc_svc l))" "lc_healthy (fst (on_svc f l)) = lc_healthy l"
  by (simp_all add: on_svc_def split: prod.split)

lemma serve_features_outcome:
  assumes "svc_ok (lc_svc l)"
  shows "kept (lc_svc l) (lc_svc (fst (serve_features G E fl dyn l)))"
    and "snd (serve_features G E fl dyn l) = None \<Longrightarrow> lc_healthy (fst (serve_features G E fl dyn l))"
  using loadAdditional_kept [OF assms, of E dyn fl] staged_at_kept [of "l\<lparr>lc_svc := loadAdditionalFeatures E dyn fl (lc_svc l)\<rparr>" G 3] kept_trans
  by (auto simp: serve_features_def lseq_on_svc lseq_advance kept_def split: option.split)

definition loaded_required :: "stages \<Rightarrow> lifecycle \<Rightarrow> lifecycle \<Rightarrow> bool" where
  "loaded_required G l l' = (case getFeatureList (lc_svc (staged_at G 1 l)) of
      Inl _ \<Rightarrow> False | Inr fl \<Rightarrow> list_all (\<lambda>(feature, required). required \<longrightarrow> registered (lc_svc l') feature) fl)"

lemma loaded_required_kept: "loaded_required G l l1 \<Longrightarrow> kept (lc_svc l1) (lc_svc l2) \<Longrightarrow> loaded_required G l l2"
  by (auto simp: loaded_required_def kept_def list_all_iff split: sum.splits)

text \<open>Up to the discovery of the optional features, and the whole body.\<close>

lemma reload_rest_outcome:
  assumes "svc_ok (lc_svc l)"
  shows "let r = lseq (serve_features G E fl dyn) (on_svc (\<lambda>s. (removeUnusedFeatures (all_features dyn fl) s, None))) l in
    kept (lc_svc l) (lc_svc (fst r)) \<and> (snd r = None \<longrightarrow> lc_healthy (fst r))"
proof -
  obtain l1 e where r: "serve_features G E fl dyn l = (l1, e)" by (cases "serve_features G E fl dyn l")
  note o = serve_features_outcome [OF assms, of G E fl dyn, unfolded r]
  have "svc_ok (lc_svc l1)" using o(1) by (simp add: kept_def)
  from kept_trans [OF _ remove_kept [OF this]] o show ?thesis
    by (cases e) (simp_all add: lseq_def r on_svc_def)
qed

lemma reload_body_outcome:
  assumes "svc_ok (lc_svc l)"
  shows "kept (lc_svc l) (lc_svc (fst (reload_body G E l))) \<and>
    (snd (reload_body G E l) = None \<longrightarrow> lc_healthy (fst (reload_body G E l)) \<and> loaded_required G l (fst (reload_body G E l)))"
proof (cases "sg_panic G 1")
  case None
  let ?l1 = "staged_at G 1 l"
  show ?thesis
  proof (cases "getFeatureList (lc_svc ?l1)")
    case (Inr fl)
    obtain s2 e2 where req: "loadRequiredFeatures E fl False (lc_svc ?l1) = (s2, e2)" by (cases "loadRequiredFeatures E fl False (lc_svc ?l1)")
    let ?l2 = "?l1\<lparr>lc_svc := s2\<rparr>"
    have svc: "svc_ok (lc_svc ?l1)" using assms by simp
    note o = loadRequired_outcome [OF svc req]
    have k2: "kept (lc_svc l) s2" using o kept_trans [OF staged_at_kept [OF assms]] by blast
    then have ok2: "svc_ok (lc_svc ?l2)" by (simp add: kept_def)
    have k3: "kept (lc_svc l) (lc_svc (staged_at G 2 ?l2))" using kept_trans [OF k2] staged_at_kept [OF ok2, of G 2] by simp
    have need: "e2 = None \<Longrightarrow> loaded_required G l (staged_at G 2 ?l2)" using o Inr by (auto simp: loaded_required_def list_all_iff)
    let ?rest = "\<lambda>dyn. lseq (serve_features G E fl dyn) (on_svc (\<lambda>s. (removeUnusedFeatures (all_features dyn fl) s, None))) (staged_at G 2 ?l2)"
    have rest: "kept (lc_svc (staged_at G 2 ?l2)) (lc_svc (fst (?rest dyn)))" "snd (?rest dyn) = None \<Longrightarrow> lc_healthy (fst (?rest dyn))" for dyn
      using reload_rest_outcome [of "staged_at G 2 ?l2" G E fl dyn] ok2 by (simp_all add: Let_def)
    have body: "reload_body G E l = (case e2 of Some e \<Rightarrow> (?l2, Some e) | None \<Rightarrow> (case sg_panic G 2 of Some e \<Rightarrow> (?l2, Some e)
        | None \<Rightarrow> (case discover G of Inl e \<Rightarrow> (staged_at G 2 ?l2, Some e) | Inr dyn \<Rightarrow> ?rest dyn)))"
      using None Inr req by (simp add: reload_body_def load_features_def lseq_advance lseq_on_svc lget_def split: option.split del: One_nat_def)
    show ?thesis
      unfolding body using k2 k3 need rest kept_trans [OF k3 rest(1)] loaded_required_kept [OF need rest(1)]
      by (simp split: option.split sum.split)
  qed (use None assms in \<open>simp add: reload_body_def load_features_def lseq_advance staged_at_kept del: One_nat_def\<close>)
qed (use assms in \<open>simp add: reload_body_def load_features_def lseq_advance kept_refl del: One_nat_def\<close>)

text \<open>
  A reload that returns has either made the service healthy, with a driver for every required
  feature and nothing asked of the configuration; or the service is unhealthy, and the configuration is
  rolled back unless the roll-back came from elsewhere. No driver that was there is lost.
\<close>

theorem Reload_outcome:
  assumes "(svc_step E)\<^sup>*\<^sup>* (NewService name ip master drivers) (lc_svc l)" and "Reload G E l = (l', None)"
  shows "(lc_healthy l' \<and> loaded_required G l l' \<and> sv_effects (lc_svc l') = sv_effects (lc_svc l) \<or>
      \<not> lc_healthy l' \<and> sv_effects (lc_svc l') = sv_effects (lc_svc l) @ (if snd (reload_body G E l) = Some ErrConfigRollback then [] else [RollBackConfig])) \<and>
    (\<forall>feature. registered (lc_svc l) feature \<longrightarrow> registered (lc_svc l') feature)"
proof -
  obtain l1 e where body: "reload_body G E l = (l1, e)" by (cases "reload_body G E l")
  have o: "kept (lc_svc l) (lc_svc l1)" "e = None \<Longrightarrow> lc_healthy l1 \<and> loaded_required G l l1"
    using reload_body_outcome [OF svc_reachable_ok [OF assms(1)], of G E] body by simp_all
  have reg: "registered (emit x s) = registered s" for x s by (simp add: fun_eq_iff registered_eq [of "emit x s" s])
  show ?thesis
    using assms(2) o unfolding Reload_def body
    by (cases e) (auto simp: Let_def kept_def reg split: if_splits, auto simp: emit_def)
qed

text \<open>
  A required feature that cannot be reloaded ends the process: the panic carries a string, and the
  deferred function of \<open>Reload\<close>, which asserts an error, panics again before it rolls back.
\<close>

theorem reload_failure_crashes:
  assumes "(svc_step E)\<^sup>*\<^sup>* (NewService name ip master drivers) (lc_svc l)"
    and "sg_panic G 1 = None" and "getFeatureList (lc_svc (staged_at G 1 l)) = Inr fl"
    and "snd (loadRequiredFeatures E fl False (lc_svc (staged_at G 1 l))) \<noteq> None"
  shows "snd (Reload G E l) = Some TypeAssertion \<and> sv_effects (lc_svc (fst (Reload G E l))) = sv_effects (lc_svc l)"
proof -
  obtain s2 p where req: "loadRequiredFeatures E fl False (lc_svc (staged_at G 1 l)) = (s2, Some p)"
    using assms(4) by (cases "loadRequiredFeatures E fl False (lc_svc (staged_at G 1 l))") auto
  have "kept (lc_svc (staged_at G 1 l)) s2 \<and> \<not> is_error p \<and> \<not> fatal p"
    using loadRequired_outcome [OF _ req] svc_reachable_ok [OF assms(1)] by simp
  moreover have "reload_body G E l = ((staged_at G 1 l)\<lparr>lc_svc := s2\<rparr>, Some p)"
    using assms(2,3) req by (simp add: reload_body_def load_features_def lseq_advance lseq_on_svc del: One_nat_def)
  ultimately show ?thesis by (simp add: Reload_def Let_def kept_def)
qed

section \<open>Waiting is bounded\<close>

text \<open>A receiver that is returned is the driver of the feature, and it was alive.\<close>

definition first_alive :: "dstate list \<Rightarrow> nat \<Rightarrow> bool" where
  "first_alive ds n \<longleftrightarrow> n < length ds \<and> ds ! n = DriverAlive \<and> (\<forall>k < n. ds ! k < DriverAlive)"

lemma first_alive_Cons:
  "first_alive (d # ds) 0 \<longleftrightarrow> d = DriverAlive" "first_alive (d # ds) (Suc n) \<longleftrightarrow> d < DriverAlive \<and> first_alive ds n"
  by (auto simp: first_alive_def All_less_Suc2)

lemma ready_state_alive: "ready_state n d ds = DriverAlive \<longleftrightarrow> (\<exists>k \<le> n. first_alive (d # ds) k)"
proof (induction n d ds rule: ready_state.induct)
  case (1 d ds)
  then show ?case by (simp add: first_alive_Cons)
next
  case (2 secs d)
  then show ?case by (auto simp: first_alive_def intro: exI [of _ 0])
next
  case (3 secs d d' ds)
  have "(\<exists>k \<le> Suc secs. first_alive (d # d' # ds) k) \<longleftrightarrow> d = DriverAlive \<or> d < DriverAlive \<and> (\<exists>k \<le> secs. first_alive (d' # ds) k)"
    by (metis Suc_le_mono first_alive_Cons not0_implies_Suc zero_le)
  then show ?case using 3 by auto
qed

lemma Ready_alive: "Ready n feature d ds = Inr () \<longleftrightarrow> (\<exists>k \<le> n. first_alive (d # ds) k)"
  by (simp add: Ready_def ready_state_alive [symmetric])

text \<open>
  The function \<open>GetReceiver\<close> returns a driver only if the feature is loaded and the driver was seen alive within
  the time-out; a driver that has failed or stopped before is refused at once.
\<close>

theorem GetReceiver_alive:
  "GetReceiver feature seen s = Inr a \<longleftrightarrow> map_of (sv_runtimes s) feature = Some (Some a) \<and>
    (\<exists>n \<le> DriverReadyTimeout. first_alive (rt_State (sv_heap s a) # seen) n)"
proof -
  have reg: "getDriverRuntime s feature = Some a \<longleftrightarrow> map_of (sv_runtimes s) feature = Some (Some a)" for a
    by (auto simp: getDriverRuntime_def LockGetMap_def split: option.split)
  show ?thesis
  proof (cases "getDriverRuntime s feature")
    case None
    then show ?thesis using reg [of a] by (simp add: GetReceiver_def)
  next
    case (Some b)
    have "rmap (\<lambda>_. b) r = Inr a \<longleftrightarrow> b = a \<and> r = Inr ()" for r :: "unit res" by (cases r) (auto simp: rmap_def)
    then show ?thesis using Some reg [of a] Ready_alive by (auto simp: GetReceiver_def)
  qed
qed

section \<open>Witnesses\<close>

text \<open>The driver \<open>web\<close> is required; then its entry is gone from the staged configuration.\<close>

definition sample_required :: gmap where
  "sample_required = [(''daemon'', GMap [(''drivers'', GMap [(''web'', GMap [])]),
     (''features'', GMap [(''global'', GList [GMap [(''name'', GStr ''driver:web''), (''required'', GBool True)]])])])]"

definition sample_broken :: gmap where
  "sample_broken = [(''daemon'', GMap [
     (''features'', GMap [(''global'', GList [GMap [(''name'', GStr ''driver:web''), (''required'', GBool True)]])])])]"

definition sample_calm :: "gmap \<Rightarrow> stages" where
  "sample_calm d = \<lparr>sg_panic = (\<lambda>_. None), sg_drivers = (\<lambda>_. Some d), sg_discover = None, sg_reload = None\<rparr>"

definition sample_lifecycle :: lifecycle where
  "sample_lifecycle = \<lparr>lc_svc = sample_alive, lc_healthy = True\<rparr>"

lemma sample_lifecycle_run:
  "(svc_step sample_driver_env)\<^sup>*\<^sup>* (NewService ''operator'' ''10.0.0.1'' True (Some sample_drivers)) (lc_svc sample_lifecycle)"
  using sample_service_run by (simp add: sample_lifecycle_def)

theorem Reload_outcome_witness:
  "registered (lc_svc (fst (Reload (sample_calm sample_required) sample_driver_env sample_lifecycle))) ''driver:web'' \<and>
   lc_healthy (fst (Reload (sample_calm sample_required) sample_driver_env sample_lifecycle))"
proof -
  have "snd (Reload (sample_calm sample_required) sample_driver_env sample_lifecycle) = None"
    "lc_healthy (fst (Reload (sample_calm sample_required) sample_driver_env sample_lifecycle))" "registered sample_alive ''driver:web''" by code_simp+
  then show ?thesis using Reload_outcome [OF sample_lifecycle_run, of "sample_calm sample_required" "fst (Reload (sample_calm sample_required) sample_driver_env sample_lifecycle)"]
    by (simp add: prod_eq_iff sample_lifecycle_def)
qed

theorem reload_failure_crashes_witness:
  "snd (Reload (sample_calm sample_broken) sample_driver_env sample_lifecycle) = Some TypeAssertion"
proof -
  have "getFeatureList (lc_svc (staged_at (sample_calm sample_broken) 1 sample_lifecycle)) = Inr [(''driver:web'', True)]"
    "snd (loadRequiredFeatures sample_driver_env [(''driver:web'', True)] False (lc_svc (staged_at (sample_calm sample_broken) 1 sample_lifecycle))) \<noteq> None"
    by code_simp+
  then show ?thesis using reload_failure_crashes [OF sample_lifecycle_run] by (simp add: sample_calm_def)
qed

theorem GetReceiver_alive_witness:
  "GetReceiver ''driver:web'' [] sample_alive = Inr 0"
  unfolding GetReceiver_alive
  using sample_alive_facts(1,2) by (auto simp: first_alive_Cons intro!: exI [of _ 0])

end
