(* ===== verification/DriverProcess.thy ===== *)
theory DriverProcess
  imports Runtime Command Interpolation Condition
begin

text \<open>
  \<open>pkg/dipper/driver.go\<close>: the process of a driver, which the daemon talks to over two pipes.

  Every message gets a goroutine of its own, so messages that arrive in an order may be handled in any
  other; \<open>dp_pending\<close> holds the messages whose goroutine has not run. A handler is atomic, except that
  \<open>start\<close> cannot run before \<open>ReadySignal\<close> is closed. The functions \<open>Start\<close>, \<open>Stop\<close> and \<open>Reload\<close> belong to the
  particular driver: \<open>driver_hooks\<close> says which are set and when they panic, and \<open>dv_runs\<close> records the
  options each of them has seen. Answers to calls and commands are the subject of \<open>Rpc\<close> and \<open>Command\<close>.
\<close>

section \<open>State\<close>

datatype signal = NilSignal | OpenSignal | ClosedSignal

datatype hook = Start | Stop | Reload_hook

record Driver =
  dv_Name :: string
  dv_Service :: string
  dv_State :: string
  dv_Options :: gval
  dv_signal :: signal
  dv_APITimeout :: int
  dv_sent :: "Message list"
  dv_runs :: "(hook \<times> gval) list"

record driver_hooks =
  dh_ext :: ext
  dh_callRaw :: "string \<Rightarrow> string \<Rightarrow> string \<Rightarrow> string"
  dh_hooks :: "hook \<Rightarrow> (gval \<Rightarrow> gopanic option) option"

definition DefaultAPITimeout :: int where
  "DefaultAPITimeout = 10"

definition NewDriverProcess :: "string \<Rightarrow> string \<Rightarrow> Driver" where
  "NewDriverProcess service name = \<lparr>dv_Name = name, dv_Service = service, dv_State = ''loaded'', dv_Options = GNil,
     dv_signal = OpenSignal, dv_APITimeout = 0, dv_sent = [], dv_runs = []\<rparr>"

section \<open>Options\<close>

definition GetOption :: "Driver \<Rightarrow> string \<Rightarrow> gval option" where
  "GetOption d path = GetMapData (dv_Options d) path"

definition GetOptionStr :: "Driver \<Rightarrow> string \<Rightarrow> string option" where
  "GetOptionStr d path = GetMapDataStr (dv_Options d) path"

text \<open>The context of a call to the outside ends after so many nanoseconds.\<close>

definition GetContext :: "Driver \<Rightarrow> duration" where
  "GetContext d = word_of_int (dv_APITimeout d) * Second"

text \<open>What a message with options becomes: compiled expressions and decrypted values.\<close>

definition received_options :: "driver_hooks \<Rightarrow> Message \<Rightarrow> gval res" where
  "received_options H msg =
    rbind (DeserializePayload (dh_ext H) msg) (\<lambda>m.
    rbind (Recursive (\<lambda>k v. Inr (RegexParser (dh_ext H) k v)) (payload_val m)) (\<lambda>parsed.
    DecryptAll (dh_ext H) (dh_callRaw H) parsed))"

definition api_timeout :: "gval \<Rightarrow> int" where
  "api_timeout options = (case GetMapDataStr options ''data.api_timeout'' of
      None \<Rightarrow> DefaultAPITimeout
    | Some str \<Rightarrow> (case atoi str of None \<Rightarrow> DefaultAPITimeout | Some n \<Rightarrow> n))"

text \<open>A closed channel cannot be closed again; the options are set by then.\<close>

definition ReceiveOptions :: "driver_hooks \<Rightarrow> Message \<Rightarrow> Driver act" where
  "ReceiveOptions H msg = lget (received_options H msg) (\<lambda>options d.
     let d1 = d\<lparr>dv_Options := options, dv_APITimeout := api_timeout options\<rparr> in
     case dv_signal d of
       NilSignal \<Rightarrow> (d1, None)
     | OpenSignal \<Rightarrow> (d1\<lparr>dv_signal := ClosedSignal\<rparr>, None)
     | ClosedSignal \<Rightarrow> (d1, Some (PanicErr ''close of closed channel'')))"

section \<open>Handlers\<close>

definition Driver_SendMessage :: "Message \<Rightarrow> Driver \<Rightarrow> Driver" where
  "Driver_SendMessage m d = d\<lparr>dv_sent := dv_sent d @ [m]\<rparr>"

definition Ping :: "Driver \<Rightarrow> Driver" where
  "Ping d = Driver_SendMessage (zero_message\<lparr>Channel := ''state'', Subject := dv_State d\<rparr>) d"

definition EmitEvent :: "string \<Rightarrow> gmap \<Rightarrow> Driver \<Rightarrow> Driver" where
  "EmitEvent uuid payload d = Driver_SendMessage (zero_message\<lparr>Channel := ''eventbus'', Subject := ''message'',
     Payload := PVal (GMap payload), Labels := Some [(''eventID'', uuid)]\<rparr>) d"

text \<open>The function of the driver for a hook, if it has one.\<close>

definition run_hook :: "driver_hooks \<Rightarrow> hook \<Rightarrow> Driver act" where
  "run_hook H h d = (case dh_hooks H h of
      None \<Rightarrow> (d, None)
    | Some f \<Rightarrow> (d\<lparr>dv_runs := dv_runs d @ [(h, dv_Options d)]\<rparr>, f (dv_Options d)))"

definition set_driver_state :: "string \<Rightarrow> Driver act" where
  "set_driver_state state d = (d\<lparr>dv_State := state\<rparr>, None)"

definition driver_start :: "driver_hooks \<Rightarrow> Driver act" where
  "driver_start H d = (let d1 = d\<lparr>dv_signal := NilSignal\<rparr> in
     lseq (if dv_State d1 = ''alive''
           then (if dh_hooks H Reload_hook \<noteq> None then run_hook H Reload_hook else set_driver_state ''cold'')
           else lseq (run_hook H Start) (set_driver_state ''alive''))
       (\<lambda>d2. (Ping d2, None)) d1)"

definition driver_stop :: "driver_hooks \<Rightarrow> Driver act" where
  "driver_stop H d = lseq (run_hook H Stop) (\<lambda>d1. (Ping d1, None)) (d\<lparr>dv_State := ''stopped''\<rparr>)"

text \<open>The handlers registered by \<open>NewDriver\<close>; \<open>None\<close> is a goroutine that waits for \<open>ReadySignal\<close>.\<close>

definition handle_message :: "driver_hooks \<Rightarrow> Message \<Rightarrow> Driver \<Rightarrow> (Driver \<times> gopanic option) option" where
  "handle_message H msg d = (let key = Channel msg @ '':'' @ Subject msg in
     if key = ''command:options'' then Some (ReceiveOptions H msg d)
     else if key = ''command:ping'' then Some (Ping d, None)
     else if key = ''command:start'' then (if dv_signal d = OpenSignal then None else Some (driver_start H d))
     else if key = ''command:stop'' then Some (driver_stop H d)
     else Some (d, None))"

section \<open>The message loop\<close>

text \<open>One round of \<open>Run\<close>: a goroutine is started, the loop resumes after an error, or the daemon is gone.\<close>

datatype run_round = Spawned Message string | Resumed gopanic | DaemonClosed

definition Run_round :: "(string \<Rightarrow> (int \<times> string) option) \<Rightarrow> string \<Rightarrow> run_round" where
  "Run_round scan_odd inp = (case FetchRawMessage scan_odd inp of
      Inr (msg, rest) \<Rightarrow> Spawned msg rest
    | Inl e \<Rightarrow> if e = PanicErr ''EOF'' then DaemonClosed else Resumed e)"

text \<open>\<open>dp_fetched\<close> are all messages that have arrived.\<close>

record driver_process =
  dp_fetched :: "Message list"
  dp_pending :: "Message list"
  dp_driver :: Driver

definition finish_goroutine :: "nat \<Rightarrow> Driver \<Rightarrow> driver_process \<Rightarrow> driver_process" where
  "finish_goroutine i d p = p\<lparr>dp_pending := take i (dp_pending p) @ drop (Suc i) (dp_pending p), dp_driver := d\<rparr>"

text \<open>A goroutine that is pending runs; the loop fetches a message.\<close>

inductive goroutine_step :: "driver_hooks \<Rightarrow> driver_process \<Rightarrow> driver_process \<Rightarrow> bool" for H :: driver_hooks where
  goroutine: "i < length (dp_pending p) \<Longrightarrow> handle_message H (dp_pending p ! i) (dp_driver p) = Some (d, e) \<Longrightarrow>
    goroutine_step H p (finish_goroutine i d p)"

inductive driver_step :: "driver_hooks \<Rightarrow> driver_process \<Rightarrow> driver_process \<Rightarrow> bool" for H :: driver_hooks where
  fetched: "driver_step H p (p\<lparr>dp_fetched := dp_fetched p @ [msg], dp_pending := dp_pending p @ [msg]\<rparr>)"
| handled: "goroutine_step H p q \<Longrightarrow> driver_step H p q"

inductive_cases goroutine_stepE: "goroutine_step H p q"

definition new_process :: "string \<Rightarrow> string \<Rightarrow> driver_process" where
  "new_process service name = \<lparr>dp_fetched = [], dp_pending = [], dp_driver = NewDriverProcess service name\<rparr>"

section \<open>No function of a driver runs without options\<close>

definition options_from :: "driver_hooks \<Rightarrow> Message list \<Rightarrow> gval \<Rightarrow> bool" where
  "options_from H msgs options \<longleftrightarrow> (\<exists>msg \<in> set msgs. Channel msg @ '':'' @ Subject msg = ''command:options'' \<and> received_options H msg = Inr options)"

definition driver_inv :: "driver_hooks \<Rightarrow> Message list \<Rightarrow> Driver \<Rightarrow> bool" where
  "driver_inv H msgs d \<longleftrightarrow>
    (dv_signal d = OpenSignal \<longrightarrow> dv_State d \<noteq> ''alive'') \<and>
    (dv_signal d \<noteq> OpenSignal \<longrightarrow> options_from H msgs (dv_Options d)) \<and>
    (\<forall>(h, options) \<in> set (dv_runs d). h = Stop \<or> options_from H msgs options)"

lemma options_from_more: "options_from H msgs v \<Longrightarrow> set msgs \<subseteq> set msgs' \<Longrightarrow> options_from H msgs' v"
  by (auto simp: options_from_def)

lemma driver_inv_more: "driver_inv H msgs d \<Longrightarrow> set msgs \<subseteq> set msgs' \<Longrightarrow> driver_inv H msgs' d"
  unfolding driver_inv_def by (auto intro: options_from_more)

lemma driver_inv_ping [simp]: "driver_inv H msgs (Ping d) = driver_inv H msgs d"
  by (simp add: driver_inv_def Ping_def Driver_SendMessage_def)

lemma start_inv:
  assumes "driver_inv H msgs d" and "dv_signal d \<noteq> OpenSignal"
  shows "driver_inv H msgs (fst (driver_start H d))"
  using assms
  by (auto simp: driver_start_def Let_def lseq_def run_hook_def set_driver_state_def driver_inv_def Ping_def Driver_SendMessage_def split: option.split)

lemma stop_inv: "driver_inv H msgs d \<Longrightarrow> driver_inv H msgs (fst (driver_stop H d))"
  by (auto simp: driver_stop_def lseq_def run_hook_def driver_inv_def Ping_def Driver_SendMessage_def split: option.split)

lemma options_inv:
  assumes "driver_inv H msgs d" and "msg \<in> set msgs" and "Channel msg @ '':'' @ Subject msg = ''command:options''"
  shows "driver_inv H msgs (fst (ReceiveOptions H msg d))"
proof (cases "received_options H msg")
  case (Inr options)
  then have "options_from H msgs options" using assms(2,3) by (auto simp: options_from_def)
  with assms(1) Inr show ?thesis by (auto simp: ReceiveOptions_def driver_inv_def Let_def split: signal.split)
qed (simp add: ReceiveOptions_def assms(1))

lemma handle_inv:
  assumes "driver_inv H msgs d" and "msg \<in> set msgs" and "handle_message H msg d = Some (d', e)"
  shows "driver_inv H msgs d'"
  using options_inv [OF assms(1,2)] start_inv [OF assms(1)] stop_inv [OF assms(1)] assms(1,3)
  by (auto simp: handle_message_def Let_def split: if_splits dest: arg_cong [of "Some _" _ "\<lambda>r. fst (the r)"])

definition process_inv :: "driver_hooks \<Rightarrow> driver_process \<Rightarrow> bool" where
  "process_inv H p \<longleftrightarrow> set (dp_pending p) \<subseteq> set (dp_fetched p) \<and> driver_inv H (dp_fetched p) (dp_driver p)"

lemma process_inv_new: "process_inv H (new_process service name)"
  by (simp add: process_inv_def new_process_def NewDriverProcess_def driver_inv_def)

lemma goroutine_inv: "goroutine_step H p q \<Longrightarrow> process_inv H p \<Longrightarrow> process_inv H q"
proof (erule goroutine_stepE)
  fix i d e
  assume p: "process_inv H p" and i: "i < length (dp_pending p)" and q: "q = finish_goroutine i d p"
    and run: "handle_message H (dp_pending p ! i) (dp_driver p) = Some (d, e)"
  have "dp_pending p ! i \<in> set (dp_fetched p)" using p nth_mem [OF i] by (auto simp: process_inv_def)
  with handle_inv [OF _ this run] p show "process_inv H q"
    using set_take_subset [of i "dp_pending p"] set_drop_subset [of "Suc i" "dp_pending p"] by (auto simp: process_inv_def finish_goroutine_def q)
qed

lemma driver_step_inv: "driver_step H p q \<Longrightarrow> process_inv H p \<Longrightarrow> process_inv H q"
proof (induction rule: driver_step.induct)
  case (fetched p msg)
  then show ?case using driver_inv_more [of H "dp_fetched p" "dp_driver p" "dp_fetched p @ [msg]"] by (auto simp: process_inv_def)
qed (rule goroutine_inv)

interpretation dp: step_system "\<lambda>p. \<exists>service name. p = new_process service name" "driver_step H" "process_inv H" for H
  by unfold_locales (auto simp: process_inv_new driver_step_inv)

lemma driver_reachable_inv: "(driver_step H)\<^sup>*\<^sup>* (new_process service name) p \<Longrightarrow> process_inv H p"
  by (rule dp.invariant) blast+

text \<open>
  C37: In every state of a driver process, whatever the order in which the goroutines of the messages
  run, the functions of the driver that start or reload it have only seen options that arrived in a
  message and were decoded and decrypted; and a driver that says it is alive has such options.
\<close>

theorem driver_runs_with_options:
  assumes "(driver_step H)\<^sup>*\<^sup>* (new_process service name) p"
  shows "(\<forall>h options. (h, options) \<in> set (dv_runs (dp_driver p)) \<longrightarrow> h \<noteq> Stop \<longrightarrow> options_from H (dp_fetched p) options) \<and>
    (dv_State (dp_driver p) = ''alive'' \<longrightarrow> options_from H (dp_fetched p) (dv_Options (dp_driver p)))"
proof -
  have "driver_inv H (dp_fetched p) (dp_driver p)" using driver_reachable_inv [OF assms] by (simp add: process_inv_def)
  then show ?thesis unfolding driver_inv_def by (cases "dv_signal (dp_driver p) = OpenSignal") auto
qed

section \<open>The two messages that start a driver\<close>

lemma key_cases:
  assumes "Channel m = ''command''"
  shows "handle_message H m d = (
     if Subject m = ''options'' then Some (ReceiveOptions H m d)
     else if Subject m = ''ping'' then Some (Ping d, None)
     else if Subject m = ''start'' then (if dv_signal d = OpenSignal then None else Some (driver_start H d))
     else if Subject m = ''stop'' then Some (driver_stop H d)
     else Some (d, None))"
  using assms by (simp add: handle_message_def Let_def)

definition ready_driver :: "driver_hooks \<Rightarrow> gval \<Rightarrow> Driver \<Rightarrow> Driver" where
  "ready_driver H options d = d\<lparr>dv_Options := options, dv_APITimeout := api_timeout options, dv_signal := NilSignal, dv_State := ''alive'',
     dv_runs := dv_runs d @ (if dh_hooks H Start = None then [] else [(Start, options)]),
     dv_sent := dv_sent d @ [zero_message\<lparr>Channel := ''state'', Subject := ''alive''\<rparr>]\<rparr>"

definition start_works :: "driver_hooks \<Rightarrow> gval \<Rightarrow> bool" where
  "start_works H options = (case dh_hooks H Start of None \<Rightarrow> True | Some f \<Rightarrow> f options = None)"

lemma start_ready:
  assumes "dv_signal d = ClosedSignal" and "dv_State d \<noteq> ''alive''" and "start_works H (dv_Options d)" and "dv_APITimeout d = api_timeout (dv_Options d)"
  shows "driver_start H d = (ready_driver H (dv_Options d) d, None)"
  using assms
  by (auto simp: driver_start_def Let_def lseq_def run_hook_def set_driver_state_def ready_driver_def Ping_def Driver_SendMessage_def start_works_def split: option.split)

text \<open>The states on the way.\<close>

definition starting :: "driver_hooks \<Rightarrow> Message \<Rightarrow> Message \<Rightarrow> gval \<Rightarrow> Driver \<Rightarrow> driver_process \<Rightarrow> bool" where
  "starting H mo ms options d p \<longleftrightarrow>
    ((dp_pending p = [mo, ms] \<or> dp_pending p = [ms, mo]) \<and> dp_driver p = d) \<or>
    (dp_pending p = [ms] \<and> dp_driver p = d\<lparr>dv_Options := options, dv_APITimeout := api_timeout options, dv_signal := ClosedSignal\<rparr>) \<or>
    (dp_pending p = [] \<and> dp_driver p = ready_driver H options d)"

lemma starting_step:
  assumes "goroutine_step H p q" and "starting H mo ms options d p"
    and "Channel mo = ''command''" and "Subject mo = ''options''" and "Channel ms = ''command''" and "Subject ms = ''start''"
    and "received_options H mo = Inr options" and "start_works H options" and "dv_signal d = OpenSignal" and "dv_State d \<noteq> ''alive''"
  shows "starting H mo ms options d q"
proof -
  let ?d1 = "d\<lparr>dv_Options := options, dv_APITimeout := api_timeout options, dv_signal := ClosedSignal\<rparr>"
  have recv: "handle_message H mo d = Some (?d1, None)"
    using assms by (simp add: key_cases ReceiveOptions_def Let_def)
  have block: "handle_message H ms d = None" using assms by (simp add: key_cases)
  have start: "handle_message H ms ?d1 = Some (ready_driver H options d, None)"
    using assms start_ready [of ?d1 H] by (simp add: key_cases) (simp add: ready_driver_def)
  from assms(1) obtain i d' e where i: "i < length (dp_pending p)" and run: "handle_message H (dp_pending p ! i) (dp_driver p) = Some (d', e)"
    and q: "q = finish_goroutine i d' p" by (rule goroutine_stepE)
  consider "dp_pending p = [mo, ms]" "dp_driver p = d" | "dp_pending p = [ms, mo]" "dp_driver p = d"
    | "dp_pending p = [ms]" "dp_driver p = ?d1" | "dp_pending p = []"
    using assms(2) unfolding starting_def by argo
  then show ?thesis
  proof cases
    case 1
    then have "i = 0 \<or> i = 1" using i by auto
    then show ?thesis using 1 run by (elim disjE) (simp_all add: recv block starting_def q finish_goroutine_def)
  next
    case 2
    then have "i = 0 \<or> i = 1" using i by auto
    then show ?thesis using 2 run by (elim disjE) (simp_all add: recv block starting_def q finish_goroutine_def)
  next
    case 3
    then show ?thesis using i run by (simp add: start starting_def q finish_goroutine_def)
  qed (use i in simp)
qed

lemma starting_ends:
  assumes "starting H mo ms options d p" and "\<nexists>q. goroutine_step H p q"
    and "Channel mo = ''command''" and "Subject mo = ''options''" and "Channel ms = ''command''" and "Subject ms = ''start''"
  shows "dp_pending p = [] \<and> dp_driver p = ready_driver H options d"
proof -
  have stuck: "handle_message H (dp_pending p ! i) (dp_driver p) = None" if "i < length (dp_pending p)" for i
    using assms(2) goroutine_step.goroutine [OF that] by (cases "handle_message H (dp_pending p ! i) (dp_driver p)") auto
  show ?thesis using assms(1) unfolding starting_def
    using stuck [of 0] stuck [of 1] assms(3-6) by (elim disjE conjE) (simp_all add: key_cases)
qed

lemma driver_comes_alive_lemma:
  assumes "(goroutine_step H)\<^sup>*\<^sup>* \<lparr>dp_fetched = f, dp_pending = [mo, ms], dp_driver = NewDriverProcess service name\<rparr> p"
    and "\<nexists>q. goroutine_step H p q"
    and "Channel mo = ''command''" and "Subject mo = ''options''" and "Channel ms = ''command''" and "Subject ms = ''start''"
    and "received_options H mo = Inr options" and "start_works H options"
  shows "dp_pending p = [] \<and> dv_State (dp_driver p) = ''alive'' \<and> dv_Options (dp_driver p) = options \<and>
    dv_runs (dp_driver p) = (if dh_hooks H Start = None then [] else [(Start, options)]) \<and>
    dv_sent (dp_driver p) = [zero_message\<lparr>Channel := ''state'', Subject := ''alive''\<rparr>]"
proof -
  let ?d = "NewDriverProcess service name"
  have "starting H mo ms options ?d p"
    using assms(1)
  proof (induction rule: rtranclp_induct)
    case base
    then show ?case by (simp add: starting_def)
  next
    case (step p q)
    from starting_step [OF step(2,3) assms(3-8)] show ?case by (simp add: NewDriverProcess_def)
  qed
  from starting_ends [OF this assms(2-6)] show ?thesis by (simp add: ready_driver_def NewDriverProcess_def)
qed

text \<open>
  A new driver that is sent its options and the command to start becomes alive with these options,
  whichever of the two goroutines runs first: every run of the goroutines that cannot go on has handled
  both messages, has called \<open>Start\<close> once with the options and has sent \<open>state:alive\<close> once.
\<close>

theorem driver_comes_alive:
  assumes "(goroutine_step H)\<^sup>*\<^sup>* \<lparr>dp_fetched = f, dp_pending = [mo, ms], dp_driver = NewDriverProcess service name\<rparr> p"
    and "\<nexists>q. goroutine_step H p q"
    and "Channel mo = ''command''" and "Subject mo = ''options''" and "Channel ms = ''command''" and "Subject ms = ''start''"
    and "received_options H mo = Inr options" and "start_works H options"
  shows "dp_pending p = [] \<and> dv_State (dp_driver p) = ''alive'' \<and> dv_Options (dp_driver p) = options \<and>
    dv_runs (dp_driver p) = (if dh_hooks H Start = None then [] else [(Start, options)]) \<and>
    dv_sent (dp_driver p) = [zero_message\<lparr>Channel := ''state'', Subject := ''alive''\<rparr>]"
  by (rule driver_comes_alive_lemma [OF assms])

text \<open>
  A driver that is alive does not wait: when the goroutine of the command runs before the goroutine of
  the options, \<open>Reload\<close> sees the old options, and nothing makes it see the new ones.
\<close>

theorem reload_sees_old_options:
  assumes "dv_State d = ''alive''" and "dv_signal d = NilSignal" and "dh_hooks H Reload_hook = Some f" and "f (dv_Options d) = None"
    and "Channel mo = ''command''" and "Subject mo = ''options''" and "Channel ms = ''command''" and "Subject ms = ''start''"
    and "received_options H mo = Inr options"
  shows "\<exists>p. (goroutine_step H)\<^sup>*\<^sup>* \<lparr>dp_fetched = fs, dp_pending = [mo, ms], dp_driver = d\<rparr> p \<and> dp_pending p = [] \<and>
    dv_State (dp_driver p) = ''alive'' \<and> dv_Options (dp_driver p) = options \<and> dv_runs (dp_driver p) = dv_runs d @ [(Reload_hook, dv_Options d)]"
proof -
  let ?p = "\<lparr>dp_fetched = fs, dp_pending = [mo, ms], dp_driver = d\<rparr>"
  let ?d1 = "Ping (d\<lparr>dv_signal := NilSignal, dv_runs := dv_runs d @ [(Reload_hook, dv_Options d)]\<rparr>)"
  let ?d2 = "?d1\<lparr>dv_Options := options, dv_APITimeout := api_timeout options\<rparr>"
  have "handle_message H ms d = Some (?d1, None)"
    using assms by (simp add: key_cases driver_start_def Let_def lseq_def run_hook_def)
  then have 1: "goroutine_step H ?p (finish_goroutine 1 ?d1 ?p)" using goroutine_step.goroutine [of 1 ?p H ?d1] by simp
  have "handle_message H mo ?d1 = Some (?d2, None)"
    using assms by (simp add: key_cases ReceiveOptions_def Let_def Ping_def Driver_SendMessage_def)
  then have 2: "goroutine_step H (finish_goroutine 1 ?d1 ?p) (finish_goroutine 0 ?d2 (finish_goroutine 1 ?d1 ?p))"
    using goroutine_step.goroutine [of 0 "finish_goroutine 1 ?d1 ?p" H ?d2] by (simp add: finish_goroutine_def)
  from 1 2 have "(goroutine_step H)\<^sup>*\<^sup>* ?p (finish_goroutine 0 ?d2 (finish_goroutine 1 ?d1 ?p))" by (rule converse_rtranclp_into_rtranclp [OF _ r_into_rtranclp])
  then show ?thesis using assms(1)
    by (intro exI [of _ "finish_goroutine 0 ?d2 (finish_goroutine 1 ?d1 ?p)"]) (simp add: finish_goroutine_def Ping_def Driver_SendMessage_def)
qed

section \<open>From the service to the driver and back\<close>

lemma routed_keeps:
  "rt_State (sv_heap (lcatch (lget r (load_each (\<lambda>(feature, m). send_to E feature m))) s) b) = rt_State (sv_heap s b) \<and>
   sv_runtimes (lcatch (lget r (load_each (\<lambda>(feature, m). send_to E feature m))) s) = sv_runtimes s \<and>
   sv_expects (lcatch (lget r (load_each (\<lambda>(feature, m). send_to E feature m))) s) = sv_expects s"
proof (cases r)
  case (Inr ms)
  then show ?thesis unfolding lcatch_def
    by simp (rule load_each_ok [where P = "\<lambda>s'. rt_State (sv_heap s' b) = rt_State (sv_heap s b) \<and> sv_runtimes s' = sv_runtimes s \<and> sv_expects s' = sv_expects s"],
      auto simp: send_to_def Runtime_SendMessage_def set_runtime_def split: option.split)
qed (simp add: lcatch_def)

lemma alive_message:
  assumes "isExpecting s (alive_key name) = Some [feature]" and "map_of (sv_runtimes s) feature = Some (Some a)" and "m_Name (rt_Meta (sv_heap s a)) = name"
    and m: "m = zero_message\<lparr>Channel := ''state'', Subject := ''alive''\<rparr>"
  shows "rt_State (sv_heap (process E tr route m a s) a) = DriverAlive" and "getDriverRuntime (process E tr route m a s) feature = Some a"
    and "isExpecting (process E tr route m a s) (alive_key name) = None"
proof -
  let ?s1 = "lcatch (driver_alive feature) (s\<lparr>sv_expects := mdel (alive_key name) (sv_expects s)\<rparr>)"
  have s1: "rt_State (sv_heap ?s1 a) = DriverAlive" "sv_runtimes ?s1 = sv_runtimes s" "sv_expects ?s1 = mdel (alive_key name) (sv_expects s)"
    using assms(2) by (simp_all add: lcatch_def driver_alive_def lseq_def feature_state_def set_state_def set_runtime_def)
  have key: "''state:alive'' @ '':'' @ name = alive_key name" by (simp add: alive_key_def)
  have chan: "Channel m @ '':'' @ Subject m = ''state:alive''" by (simp add: m)
  have del: "deleteExpect (alive_key name) s = (Some [feature], s\<lparr>sv_expects := mdel (alive_key name) (sv_expects s)\<rparr>)"
    using assms(1) by (simp add: deleteExpect_def isExpecting_def)
  have run: "process E tr route m a s = (case transform (tr ''state:alive'') m of None \<Rightarrow> ?s1
     | Some m' \<Rightarrow> lcatch (lget (route m') (load_each (\<lambda>(feature, m'). send_to E feature m'))) ?s1)"
    unfolding process_def Let_def chan assms(3) key del by (simp add: respond_def split: option.split)
  have keep: "rt_State (sv_heap (process E tr route m a s) a) = rt_State (sv_heap ?s1 a)" "sv_runtimes (process E tr route m a s) = sv_runtimes ?s1"
    "sv_expects (process E tr route m a s) = sv_expects ?s1"
    unfolding run using routed_keeps [of _ E ?s1 a] by (simp_all split: option.split)
  show "rt_State (sv_heap (process E tr route m a s) a) = DriverAlive" by (simp add: keep s1)
  show "getDriverRuntime (process E tr route m a s) feature = Some a" using assms(2) by (simp add: getDriverRuntime_def LockGetMap_def keep s1)
  show "isExpecting (process E tr route m a s) (alive_key name) = None" by (simp add: isExpecting_def keep s1)
qed

text \<open>A service that can start a driver for a feature it has none for.\<close>

definition can_start :: "driver_env \<Rightarrow> string \<Rightarrow> string \<Rightarrow> Runtime \<Rightarrow> Service \<Rightarrow> bool" where
  "can_start E feature name new s \<longleftrightarrow> getDriverRuntime s feature = None \<and> feature_driver s feature = Inr name \<and>
    feature_runtime E s feature name = Inr new \<and> m_Name (rt_Meta new) = name \<and> isExpecting s (alive_key name) = None \<and>
    de_start E (rt_Meta new) (sv_name s) = None \<and> (\<forall>a m. de_write E a m = None)"

lemma new_runtime_fields:
  "feature_runtime E s feature name = Inr new \<Longrightarrow> rt_Feature new = feature \<and> rt_sent new = []"
  by (auto simp: feature_runtime_def NewDriver_def Let_def rbind_def assert_type_def split: option.splits sum.splits)

lemma load_new:
  assumes "can_start E feature name new s" and "s1 = load_additional E (feature, False) s"
  shows "map_of (sv_runtimes s1) feature = Some (Some (sv_next s))" and "rt_sent (sv_heap s1 (sv_next s)) = option_messages new"
    and "m_Name (rt_Meta (sv_heap s1 (sv_next s))) = name" and "isExpecting s1 (alive_key name) = Some [feature]"
proof -
  note c = assms(1) [unfolded can_start_def]
  note new = new_runtime_fields [of E s feature name new]
  let ?r = "new\<lparr>rt_Service := sv_name s, rt_sent := option_messages new\<rparr>"
  let ?s1 = "(set_runtime (sv_next s) ?r s)\<lparr>sv_next := Suc (sv_next s)\<rparr>"
  have send: "SendOptions E (sv_next s) ((set_runtime (sv_next s) (new\<lparr>rt_Service := sv_name s\<rparr>) s)\<lparr>sv_next := Suc (sv_next s)\<rparr>) = (?s1, None)"
    using c new by (simp add: SendOptions_def option_messages_def Runtime_SendMessage_def lseq_def set_runtime_def fun_upd_def cong: if_cong)
  have "coldReload E new None s = (spawn_job (WaitExit (sv_next s)) (setDriverRuntime feature (sv_next s) ?s1), None)"
    using c new send by (simp add: coldReload_def Let_def lseq_def replace_runtime_def set_runtime_def)
  then have s1: "s1 = addExpect (alive_key name) feature (FeatureFailed feature) (spawn_job (WaitExit (sv_next s)) (setDriverRuntime feature (sv_next s) ?s1))"
    using c by (simp add: assms(2) load_additional_def loadFeature_def reload_result_def)
  show "map_of (sv_runtimes s1) feature = Some (Some (sv_next s))" "rt_sent (sv_heap s1 (sv_next s)) = option_messages new"
    "m_Name (rt_Meta (sv_heap s1 (sv_next s))) = name" "isExpecting s1 (alive_key name) = Some [feature]"
    using c by (simp_all add: s1 addExpect_def spawn_job_def setDriverRuntime_def set_runtime_def isExpecting_def)
qed

text \<open>The options that arrive over the wire.\<close>

definition driver_options :: "Runtime \<Rightarrow> gval" where
  "driver_options r = GMap [(''data'', rt_Data r), (''dynamicData'', rt_DynamicData r)]"

definition prepared_options :: "driver_hooks \<Rightarrow> gval \<Rightarrow> gval res" where
  "prepared_options H v = rbind (Recursive (\<lambda>k v. Inr (RegexParser (dh_ext H) k v)) v) (DecryptAll (dh_ext H) (dh_callRaw H))"

lemma sent_options:
  assumes "ext_json_marshal X (driver_options r) = Inr bs" and "bs \<noteq> []" and "int (length bs) < 2 ^ 63"
  shows "send_all X [] (option_messages r) = Inr w \<Longrightarrow>
    fetch_all scan_odd 2 w = Inr ([received (option_messages r ! 0) bs, received (option_messages r ! 1) []], [])"
proof -
  assume w: "send_all X [] (option_messages r) = Inr w"
  let ?ps = "[(option_messages r ! 0, bs), (option_messages r ! 1, [])]"
  have "\<forall>(msg, p) \<in> set ?ps. payload_bytes X msg = Inr p \<and> sendable msg p"
    using assms by (auto simp: option_messages_def payload_bytes_def zero_message_def driver_options_def sendable_def labels_def name_ok_def is_space_def SerializeContent_def)
  then have "send_all X [] (map fst ?ps) = Inr (wires ?ps)" "fetch_all scan_odd (length ?ps) (wires ?ps @ []) = Inr (map (\<lambda>(msg, p). received msg p) ?ps, [])"
    using send_all_wires [of ?ps X "[]"] fetch_all_wires [of ?ps scan_odd "[]"] by auto
  moreover have "map fst ?ps = option_messages r" "length ?ps = 2" by (simp_all add: option_messages_def)
  ultimately have "send_all X [] (option_messages r) = Inr (wires ?ps)" "fetch_all scan_odd 2 (wires ?ps @ []) = Inr (map (\<lambda>(msg, p). received msg p) ?ps, [])"
    by (simp_all only:)
  then show ?thesis using w by (simp del: fetch_all.simps)
qed

lemma received_option_messages:
  assumes "ext_json_unmarshal (dh_ext H) bs = Inr (driver_options r)" and "bs \<noteq> []"
  shows "received_options H (received (option_messages r ! 0) bs) = prepared_options H (driver_options r)"
proof -
  have "DeserializePayload (dh_ext H) (received (option_messages r ! 0) bs) = Inr ((received (option_messages r ! 0) bs)\<lparr>Payload := PVal (driver_options r), IsRaw := False\<rparr>)"
    using assms by (simp add: DeserializePayload_def received_def DeserializeContent_def rmap_def val_payload_def driver_options_def)
  then show ?thesis by (simp add: received_options_def prepared_options_def payload_val_def)
qed

text \<open>
  C10: From the configuration to a running driver: the service starts a driver for a feature and writes
  its options and the command to start to the pipe; the driver process fetches the two messages,
  handles them in either order, calls \<open>Start\<close> with the options of the configuration and reports; the
  service that receives the report has the driver of the feature alive and expects nothing any more.
\<close>

theorem feature_comes_alive:
  assumes "can_start E feature name new s" and s1: "s1 = load_additional E (feature, False) s"
    and "ext_json_marshal (de_ext E) (driver_options new) = Inr bs" and "bs \<noteq> []" and "int (length bs) < 2 ^ 63"
    and "ext_json_unmarshal (dh_ext H) bs = Inr (driver_options new)"
    and "send_all (de_ext E) [] (rt_sent (sv_heap s1 (sv_next s))) = Inr w" and "fetch_all scan_odd 2 w = Inr (msgs, rest)"
    and "prepared_options H (driver_options new) = Inr options" and "start_works H options"
    and "(goroutine_step H)\<^sup>*\<^sup>* \<lparr>dp_fetched = msgs, dp_pending = msgs, dp_driver = NewDriverProcess service name\<rparr> p" and "\<nexists>q. goroutine_step H p q"
  shows "\<exists>report. dv_sent (dp_driver p) = [report] \<and> dv_Options (dp_driver p) = options \<and>
    (let s2 = process E transformers route report (sv_next s) s1 in
       rt_State (sv_heap s2 (sv_next s)) = DriverAlive \<and> getDriverRuntime s2 feature = Some (sv_next s) \<and> isExpecting s2 (alive_key name) = None)"
proof -
  note svc = load_new [OF assms(1,2)]
  let ?mo = "received (option_messages new ! 0) bs" and ?ms = "received (option_messages new ! 1) []"
  have "msgs = [?mo, ?ms]" using sent_options [OF assms(3-5), of w scan_odd] assms(7,8) svc(2) by (simp del: fetch_all.simps)
  moreover have "Channel ?mo = ''command''" "Subject ?mo = ''options''" "Channel ?ms = ''command''" "Subject ?ms = ''start''"
    by (simp_all add: received_def option_messages_def)
  moreover have "received_options H ?mo = Inr options" using received_option_messages [OF assms(6,4)] assms(9) by simp
  ultimately have "dv_sent (dp_driver p) = [zero_message\<lparr>Channel := ''state'', Subject := ''alive''\<rparr>]" "dv_Options (dp_driver p) = options"
    using driver_comes_alive_lemma [of H msgs ?mo ?ms service name p options] assms(10-12) by simp_all
  then show ?thesis using alive_message [OF svc(4,1,3) refl] by (simp add: Let_def)
qed

section \<open>Witnesses\<close>

text \<open>The driver of the examples of \<open>Runtime\<close>, with a function to start and one to reload.\<close>

definition sample_hooks :: driver_hooks where
  "sample_hooks = \<lparr>dh_ext = no_ext\<lparr>ext_json_unmarshal := (\<lambda>_. Inr (GMap [(''data'', GMap [(''token'', GStr ''x'')]), (''dynamicData'', GNil)]))\<rparr>,
     dh_callRaw = (\<lambda>_ _ s. s), dh_hooks = (\<lambda>_. Some (\<lambda>_. None))\<rparr>"

definition sample_options :: gval where
  "sample_options = GMap [(''data'', GMap [(''token'', GStr ''x'')]), (''dynamicData'', GNil)]"

definition sample_new :: Runtime where
  "sample_new = \<lparr>rt_Data = GMap [(''token'', GStr ''x'')], rt_DynamicData = GNil, rt_Feature = ''driver:web'',
     rt_Meta = \<lparr>m_Name = ''web'', m_Type = ''null'', m_Executable = [], m_Arguments = [], m_HandlerData = None\<rparr>,
     rt_Service = [], rt_State = DriverLoading, rt_sent = [], rt_closed = False\<rparr>"

definition sample_mo :: Message where
  "sample_mo = received (option_messages sample_new ! 0) ''{}''"

definition sample_ms :: Message where
  "sample_ms = received (option_messages sample_new ! 1) []"

lemma sample_messages:
  "Channel sample_mo = ''command''" "Subject sample_mo = ''options''" "Channel sample_ms = ''command''" "Subject sample_ms = ''start''"
  "received_options sample_hooks sample_mo = Inr sample_options" "start_works sample_hooks sample_options"
  by code_simp+

definition sample_started :: Driver where
  "sample_started = ready_driver sample_hooks sample_options (NewDriverProcess ''operator'' ''web'')"

lemma sample_start:
  "(goroutine_step sample_hooks)\<^sup>*\<^sup>* \<lparr>dp_fetched = [sample_mo, sample_ms], dp_pending = [sample_mo, sample_ms], dp_driver = NewDriverProcess ''operator'' ''web''\<rparr>
     \<lparr>dp_fetched = [sample_mo, sample_ms], dp_pending = [], dp_driver = sample_started\<rparr>"
proof -
  let ?p = "\<lparr>dp_fetched = [sample_mo, sample_ms], dp_pending = [sample_mo, sample_ms], dp_driver = NewDriverProcess ''operator'' ''web''\<rparr>"
  let ?r = "\<lparr>dp_fetched = [sample_mo, sample_ms], dp_pending = [], dp_driver = sample_started\<rparr>"
  let ?d = "NewDriverProcess ''operator'' ''web''"
  let ?d1 = "?d\<lparr>dv_Options := sample_options, dv_APITimeout := api_timeout sample_options, dv_signal := ClosedSignal\<rparr>"
  let ?q = "\<lparr>dp_fetched = [sample_mo, sample_ms], dp_pending = [sample_ms], dp_driver = ?d1\<rparr>"
  have "handle_message sample_hooks sample_mo ?d = Some (?d1, None)"
    by (simp add: key_cases sample_messages ReceiveOptions_def Let_def NewDriverProcess_def)
  then have 1: "goroutine_step sample_hooks ?p ?q" using goroutine_step.goroutine [of 0 ?p sample_hooks ?d1 None] by (simp add: finish_goroutine_def)
  have "handle_message sample_hooks sample_ms ?d1 = Some (ready_driver sample_hooks sample_options ?d1, None)"
    using start_ready [of ?d1 sample_hooks] by (simp add: key_cases sample_messages NewDriverProcess_def)
  moreover have "ready_driver sample_hooks sample_options ?d1 = sample_started" by (simp add: ready_driver_def sample_started_def NewDriverProcess_def)
  ultimately have 2: "goroutine_step sample_hooks ?q ?r" using goroutine_step.goroutine [of 0 ?q sample_hooks sample_started None] by (simp add: finish_goroutine_def)
  from 1 2 show ?thesis by (rule converse_rtranclp_into_rtranclp [OF _ r_into_rtranclp])
qed

lemma sample_stuck: "\<nexists>q. goroutine_step H \<lparr>dp_fetched = fs, dp_pending = [], dp_driver = d\<rparr> q"
  by (auto elim: goroutine_stepE)

theorem driver_comes_alive_witness: "dv_runs sample_started = [(Start, sample_options)]"
  using driver_comes_alive [OF sample_start sample_stuck sample_messages] by (simp add: sample_hooks_def)

theorem driver_runs_with_options_witness: "options_from sample_hooks [sample_mo, sample_ms] (dv_Options sample_started)"
proof -
  let ?q = "\<lparr>dp_fetched = [sample_mo, sample_ms], dp_pending = [sample_mo, sample_ms], dp_driver = NewDriverProcess ''operator'' ''web''\<rparr>"
  let ?q1 = "(new_process ''operator'' ''web'')\<lparr>dp_fetched := [sample_mo], dp_pending := [sample_mo]\<rparr>"
  have "driver_step sample_hooks (new_process ''operator'' ''web'') ?q1" "driver_step sample_hooks ?q1 ?q"
    using driver_step.fetched [of sample_hooks "new_process ''operator'' ''web''" sample_mo] driver_step.fetched [of sample_hooks ?q1 sample_ms]
    by (simp_all add: new_process_def)
  then have "(driver_step sample_hooks)\<^sup>*\<^sup>* (new_process ''operator'' ''web'') ?q" by (rule converse_rtranclp_into_rtranclp [OF _ r_into_rtranclp])
  moreover have "(driver_step sample_hooks)\<^sup>*\<^sup>* ?q \<lparr>dp_fetched = [sample_mo, sample_ms], dp_pending = [], dp_driver = sample_started\<rparr>"
    using mono_rtranclp [of "goroutine_step sample_hooks" "driver_step sample_hooks"] driver_step.handled sample_start by blast
  ultimately have run: "(driver_step sample_hooks)\<^sup>*\<^sup>* (new_process ''operator'' ''web'') \<lparr>dp_fetched = [sample_mo, sample_ms], dp_pending = [], dp_driver = sample_started\<rparr>"
    by (rule rtranclp_trans)
  from driver_runs_with_options [OF run] show ?thesis by (simp add: sample_started_def ready_driver_def)
qed

theorem reload_sees_old_options_witness:
  "\<exists>p :: driver_process. dp_pending p = [] \<and> dv_Options (dp_driver p) = sample_options \<and> dv_runs (dp_driver p) = [(Start, sample_options), (Reload_hook, GStr ''old'')]"
proof -
  let ?d = "sample_started\<lparr>dv_Options := GStr ''old''\<rparr>"
  have d: "dv_State ?d = ''alive''" "dv_signal ?d = NilSignal" "dh_hooks sample_hooks Reload_hook = Some (\<lambda>_. None)" "dv_runs ?d = [(Start, sample_options)]"
    by (simp_all add: sample_started_def ready_driver_def sample_hooks_def NewDriverProcess_def)
  have "\<exists>p. (goroutine_step sample_hooks)\<^sup>*\<^sup>* \<lparr>dp_fetched = [], dp_pending = [sample_mo, sample_ms], dp_driver = ?d\<rparr> p \<and> dp_pending p = [] \<and>
    dv_State (dp_driver p) = ''alive'' \<and> dv_Options (dp_driver p) = sample_options \<and> dv_runs (dp_driver p) = dv_runs ?d @ [(Reload_hook, dv_Options ?d)]"
    by (rule reload_sees_old_options [OF d(1-3) _ sample_messages(1-5)]) simp
  then obtain p :: driver_process where "dp_pending p = []" "dv_Options (dp_driver p) = sample_options" "dv_runs (dp_driver p) = dv_runs ?d @ [(Reload_hook, dv_Options ?d)]" by blast
  with d(4) show ?thesis by (intro exI [of _ p]) simp
qed

theorem feature_comes_alive_witness:
  "rt_State (sv_heap (process sample_driver_env (\<lambda>_. []) (\<lambda>_. Inr []) (hd (dv_sent sample_started)) 0 (load_additional sample_driver_env (''driver:web'', False) sample_service)) 0) = DriverAlive"
proof -
  let ?s1 = "load_additional sample_driver_env (''driver:web'', False) sample_service"
  have cs: "can_start sample_driver_env ''driver:web'' ''web'' sample_new sample_service"
    unfolding can_start_def
  proof (intro conjI allI)
    show "de_write sample_driver_env a m = None" for a m by (simp add: sample_driver_env_def)
  qed code_simp+
  have nxt: "sv_next sample_service = 0" by code_simp
  let ?w = "wires [(option_messages sample_new ! 0, ''{}''), (option_messages sample_new ! 1, [])]"
  have w: "send_all (de_ext sample_driver_env) [] (rt_sent (sv_heap ?s1 (sv_next sample_service))) = Inr ?w" by code_simp
  have f: "fetch_all (\<lambda>_. None) 2 ?w = Inr ([sample_mo, sample_ms], [])" by code_simp
  have json: "ext_json_marshal (de_ext sample_driver_env) (driver_options sample_new) = Inr ''{}''" "ext_json_unmarshal (dh_ext sample_hooks) ''{}'' = Inr (driver_options sample_new)"
    "prepared_options sample_hooks (driver_options sample_new) = Inr sample_options" by code_simp+
  from feature_comes_alive [OF cs refl json(1) _ _ json(2) w f json(3) sample_messages(6) sample_start sample_stuck, of "\<lambda>_. []" "\<lambda>_. Inr []"] nxt
  show ?thesis by (auto simp: Let_def)
qed

end
