(* ===== verification/Handlers.thy ===== *)
theory Handlers
  imports Rpc
begin

text \<open>
  The handlers of the drivers for calls and commands. A handler works on a state outside of the program
  (a Redis server, a cluster, a web server) and returns the new state and how its run looks to
  \<open>RPC_Router\<close> and to the command wrapper: the replies it puts on the channel and the panic that ends it.
\<close>

type_synonym 'r handled = "'r \<times> handler_run"

definition answer_with :: "'r \<Rightarrow> Message \<Rightarrow> 'r handled" where
  "answer_with r m = (r, \<lparr>replies = [m], panics = None, late = False\<rparr>)"

definition failed :: "'r \<Rightarrow> gopanic \<Rightarrow> 'r handled" where
  "failed r e = (r, \<lparr>replies = [], panics = Some e, late = False\<rparr>)"

text \<open>\<open>Must\<close>, and a function that panics before the outside is called.\<close>

definition with_value :: "'r \<Rightarrow> 'a res \<Rightarrow> ('a \<Rightarrow> 'r handled) \<Rightarrow> 'r handled" where
  "with_value r m k = (case m of Inl e \<Rightarrow> failed r e | Inr x \<Rightarrow> k x)"

definition answered :: "'r handled \<Rightarrow> Message \<Rightarrow> bool" where
  "answered h m \<longleftrightarrow> snd h = \<lparr>replies = [m], panics = None, late = False\<rparr>"

lemma answered_answer [simp]: "answered (answer_with r m) m' \<longleftrightarrow> m' = m" "\<not> answered (failed r e) m'"
  by (auto simp: answered_def answer_with_def failed_def)

lemma handled_state [simp]: "fst (answer_with r m) = r" "fst (failed r e) = r"
  by (simp_all add: answer_with_def failed_def)

lemma with_value_simps [simp]: "with_value r (Inr x) k = k x" "with_value r (Inl e) k = failed r e"
  by (simp_all add: with_value_def)

end
