(* ===== verification/RedisDrivers.thy ===== *)
theory RedisDrivers
  imports Handlers Command Condition
begin

text \<open>
  The drivers that keep shared data in Redis: \<open>drivers/cmd/redis-cache/main.go\<close> and
  \<open>drivers/cmd/redislock/main.go\<close>, with the options of \<open>drivers/pkg/redisclient/redisclient.go\<close>.

  Redis is outside: \<open>redis_server\<close> holds its commands on some state, with \<open>redis_ok\<close> for what its documentation says of
  them. A handler returns the new state and how its run looks to \<open>RPC_Router\<close>: the replies it puts on the
  channel and the panic that ends it.
\<close>

section \<open>Redis\<close>

text \<open>\<open>redis.Nil\<close> says that there is no value; other errors carry a text.\<close>

datatype 'a reply = RNil | RErr gopanic | RVal 'a

record 'r redis_server =
  rd_get :: "string \<Rightarrow> 'r \<Rightarrow> string reply"
  rd_set :: "string \<Rightarrow> gval \<Rightarrow> duration \<Rightarrow> 'r \<Rightarrow> 'r \<times> unit reply"
  rd_setnx :: "string \<Rightarrow> string \<Rightarrow> duration \<Rightarrow> 'r \<Rightarrow> 'r \<times> bool reply"
  rd_del :: "string \<Rightarrow> 'r \<Rightarrow> 'r \<times> int reply"
  rd_incr :: "string \<Rightarrow> 'r \<Rightarrow> 'r \<times> int reply"
  rd_lrange :: "string \<Rightarrow> int \<Rightarrow> int \<Rightarrow> 'r \<Rightarrow> string list reply"
  rd_rpush :: "string \<Rightarrow> string \<Rightarrow> 'r \<Rightarrow> 'r \<times> unit reply"
  rd_expire :: "string \<Rightarrow> duration \<Rightarrow> 'r \<Rightarrow> 'r \<times> unit reply"
  rd_blpop :: "duration \<Rightarrow> duration \<Rightarrow> string \<Rightarrow> 'r \<Rightarrow> 'r \<times> string list reply"
  rd_exists :: "string \<Rightarrow> 'r \<Rightarrow> int reply"
  rd_lapse :: "string \<Rightarrow> 'r \<Rightarrow> 'r"

text \<open>
  What the commands do to the stored values, where nothing fails. \<open>rd_lapse\<close> is the expiry of a key, which
  happens on its own; a command whose context is over returns its error and does nothing.
\<close>

datatype stored = Plain string | Items "string list"

definition items :: "stored option \<Rightarrow> string list option" where
  "items v = (case v of None \<Rightarrow> Some [] | Some (Items xs) \<Rightarrow> Some xs | Some (Plain _) \<Rightarrow> None)"

definition counted :: "stored option \<Rightarrow> int option" where
  "counted v = (case v of None \<Rightarrow> Some 0 | Some (Plain s) \<Rightarrow> atoi s | Some (Items _) \<Rightarrow> None)"

definition redis_ok :: "'r redis_server \<Rightarrow> ('r \<Rightarrow> string \<Rightarrow> stored option) \<Rightarrow> bool" where
  "redis_ok R view \<longleftrightarrow>
    (\<forall>k r. view r k = None \<longrightarrow> rd_get R k r = RNil) \<and> (\<forall>k r s. view r k = Some (Plain s) \<longrightarrow> rd_get R k r = RVal s) \<and>
    (\<forall>k s d r. \<exists>r'. rd_set R k (GStr s) d r = (r', RVal ()) \<and> view r' = (view r)(k \<mapsto> Plain s)) \<and>
    (\<forall>k s d r. \<exists>r'. rd_setnx R k s d r = (r', RVal (view r k = None)) \<and> view r' = (if view r k = None then (view r)(k \<mapsto> Plain s) else view r)) \<and>
    (\<forall>k r. \<exists>r'. rd_del R k r = (r', RVal (if view r k = None then 0 else 1)) \<and> view r' = (view r)(k := None)) \<and>
    (\<forall>k r n. counted (view r k) = Some n \<longrightarrow> in_int64 (n + 1) \<longrightarrow> (\<exists>r'. rd_incr R k r = (r', RVal (n + 1)) \<and> view r' = (view r)(k \<mapsto> Plain (itoa (n + 1))))) \<and>
    (\<forall>k r xs. items (view r k) = Some xs \<longrightarrow> rd_lrange R k 0 (- 1) r = RVal xs) \<and>
    (\<forall>k s r xs. items (view r k) = Some xs \<longrightarrow> (\<exists>r'. rd_rpush R k s r = (r', RVal ()) \<and> view r' = (view r)(k \<mapsto> Items (xs @ [s])))) \<and>
    (\<forall>k d r. \<exists>r'. rd_expire R k d r = (r', RVal ()) \<and> view r' = view r) \<and>
    (\<forall>k t c r x xs. items (view r k) = Some (x # xs) \<longrightarrow> sint c > 0 \<longrightarrow>
       (\<exists>r'. rd_blpop R c t k r = (r', RVal [k, x]) \<and> view r' = (view r)(k := (if xs = [] then None else Some (Items xs))))) \<and>
    (\<forall>k t r. rd_blpop R 0 t k r = (r, RErr (PanicErr ''context deadline exceeded''))) \<and>
    (\<forall>k r. rd_exists R k r = RVal (if view r k = None then 0 else 1)) \<and>
    (\<forall>k r. view (rd_lapse R k r) = (view r)(k := None))"

definition raw_message :: "string \<Rightarrow> Message" where
  "raw_message bs = zero_message\<lparr>Payload := PRaw bs, IsRaw := True\<rparr>"

definition decoded :: "ext \<Rightarrow> Message \<Rightarrow> gval res" where
  "decoded X msg = rmap payload_val (DeserializePayload X msg)"

definition redis_error :: "gopanic" where
  "redis_error = PanicStr ''redis error''"

section \<open>The cache\<close>

definition cache_load :: "ext \<Rightarrow> 'r redis_server \<Rightarrow> Message \<Rightarrow> 'r \<Rightarrow> 'r handled" where
  "cache_load X R msg r =
    with_value r (rbind (decoded X msg) (\<lambda>p. MustGetMapDataStr p ''key'')) (\<lambda>key.
    case rd_get R key r of
      RNil \<Rightarrow> answer_with r zero_message
    | RErr _ \<Rightarrow> failed r redis_error
    | RVal val \<Rightarrow> answer_with r (raw_message val))"

definition join_sep :: "string \<Rightarrow> string list \<Rightarrow> string" where
  "join_sep sep xs = (case xs of [] \<Rightarrow> [] | x # ys \<Rightarrow> x @ concat (map (\<lambda>y. sep @ y) ys))"

text \<open>Deleting the list afterwards only logs its errors.\<close>

definition cache_lrange :: "ext \<Rightarrow> 'r redis_server \<Rightarrow> Message \<Rightarrow> 'r \<Rightarrow> 'r handled" where
  "cache_lrange X R msg r =
    with_value r (decoded X msg) (\<lambda>p.
    with_value r (MustGetMapDataStr p ''key'') (\<lambda>key.
    let start = fst (GetMapDataInt p ''start''); raw = fst (GetMapDataBool p ''raw''); del = fst (GetMapDataBool p ''del'') in
    with_value r (assert_type (as_map p)) (\<lambda>m.
    with_value r (if map_of m ''stop'' \<noteq> None then MustGetMapDataInt p ''stop'' else Inr (- 1)) (\<lambda>stop.
    case rd_lrange R key start stop r of
      RNil \<Rightarrow> answer_with r zero_message
    | RErr _ \<Rightarrow> failed r redis_error
    | RVal val \<Rightarrow>
        (let buf = (if raw then concat val else ''['' @ join_sep '', '' val @ '']'') in
         answer_with (if del then fst (rd_del R key r) else r) (raw_message buf))))))"

definition cache_incr :: "ext \<Rightarrow> 'r redis_server \<Rightarrow> Message \<Rightarrow> 'r \<Rightarrow> 'r handled" where
  "cache_incr X R msg r =
    with_value r (rbind (decoded X msg) (\<lambda>p. MustGetMapDataStr p ''key'')) (\<lambda>key.
    case rd_incr R key r of
      (r1, RNil) \<Rightarrow> answer_with r1 zero_message
    | (r1, RErr _) \<Rightarrow> failed r1 redis_error
    | (r1, RVal val) \<Rightarrow> answer_with r1 (raw_message (itoa val)))"

text \<open>The time to live: whole seconds as an integer, or a duration as a string; no other type is known.\<close>

definition save_ttl :: "ext \<Rightarrow> gval option \<Rightarrow> duration res" where
  "save_ttl X ttl = (case ttl of
      None \<Rightarrow> Inr 0
    | Some GNil \<Rightarrow> Inr 0
    | Some (GInt t) \<Rightarrow> Inr (Second * word_of_int t)
    | Some (GStr t) \<Rightarrow> (case ext_parse_duration X t of
          None \<Rightarrow> Inl (PanicErr (''time: invalid duration '' @ t))
        | Some d \<Rightarrow> Inr (word_of_int d))
    | Some _ \<Rightarrow> Inl (PanicStr ''redis cache unknown TTL type''))"

text \<open>A command without a value answers with an empty message unless there is an error other than \<open>redis.Nil\<close>.\<close>

definition finish_command :: "'r \<times> unit reply \<Rightarrow> ('r \<Rightarrow> 'r handled) \<Rightarrow> 'r handled" where
  "finish_command c k = (case c of (r, RErr _) \<Rightarrow> failed r redis_error | (r, _) \<Rightarrow> k r)"

definition cache_save :: "ext \<Rightarrow> 'r redis_server \<Rightarrow> Message \<Rightarrow> 'r \<Rightarrow> 'r handled" where
  "cache_save X R msg r =
    with_value r (decoded X msg) (\<lambda>p.
    with_value r (MustGetMapDataStr p ''key'') (\<lambda>key.
    with_value r (MustGetMapData p ''value'') (\<lambda>val.
    with_value r (save_ttl X (GetMapData p ''ttl'')) (\<lambda>exp.
    finish_command (rd_set R key val exp r) (\<lambda>r1. answer_with r1 zero_message)))))"

text \<open>A value that is a string is pushed as it is unless \<open>toJson\<close> asks for JSON; other values become JSON.\<close>

definition rpush_value :: "ext \<Rightarrow> bool \<Rightarrow> gval \<Rightarrow> string res" where
  "rpush_value X toJSON val = (case val of
      GStr s \<Rightarrow> if toJSON then ext_json_marshal X val else Inr s
    | _ \<Rightarrow> ext_json_marshal X val)"

definition rpush_ttl :: "gval option \<Rightarrow> duration res" where
  "rpush_ttl ttl = (case ttl of
      None \<Rightarrow> Inr 0
    | Some GNil \<Rightarrow> Inr 0
    | Some (GFloat d) \<Rightarrow> Inr (word_of_int (trunc d))
    | Some _ \<Rightarrow> Inl TypeAssertion)"

definition cache_rpush :: "ext \<Rightarrow> 'r redis_server \<Rightarrow> Message \<Rightarrow> 'r \<Rightarrow> 'r handled" where
  "cache_rpush X R msg r =
    with_value r (decoded X msg) (\<lambda>p.
    with_value r (MustGetMapDataStr p ''key'') (\<lambda>key.
    with_value r (MustGetMapData p ''value'') (\<lambda>val.
    with_value r (rpush_value X (fst (GetMapDataBool p ''toJson'')) val) (\<lambda>valStr.
    with_value r (rpush_ttl (GetMapData p ''ttl'')) (\<lambda>ttl.
    finish_command (rd_rpush R key valStr r) (\<lambda>r1.
    if sint ttl > 0 then finish_command (rd_expire R key ttl r1) (\<lambda>r2. answer_with r2 zero_message)
    else answer_with r1 zero_message))))))"

text \<open>The context gets the same time-out as the command; without a label both are zero.\<close>

definition blpop_timeout :: "ext \<Rightarrow> Message \<Rightarrow> duration res" where
  "blpop_timeout X msg = (let timeout = label_str msg ''timeout'' in
     if timeout = [] then Inr 0
     else (case ext_parse_duration X timeout of
         None \<Rightarrow> Inl (PanicErr (''time: invalid duration '' @ timeout))
       | Some d \<Rightarrow> Inr (word_of_int (if d > 2 * second then d - 2 * second else d))))"

definition cache_blpop :: "ext \<Rightarrow> 'r redis_server \<Rightarrow> Message \<Rightarrow> 'r \<Rightarrow> 'r handled" where
  "cache_blpop X R msg r =
    with_value r (rbind (decoded X msg) (\<lambda>p. MustGetMapDataStr p ''key'')) (\<lambda>key.
    with_value r (blpop_timeout X msg) (\<lambda>timeoutDuration.
    case rd_blpop R timeoutDuration timeoutDuration key r of
      (r1, RErr e) \<Rightarrow> if e = PanicErr ''context deadline exceeded'' then answer_with r1 (raw_message []) else failed r1 redis_error
    | (r1, RNil) \<Rightarrow> answer_with r1 (raw_message [])
    | (r1, RVal val) \<Rightarrow> answer_with r1 (raw_message (if length val > 1 then val ! 1 else []))))"

definition cache_del :: "ext \<Rightarrow> 'r redis_server \<Rightarrow> Message \<Rightarrow> 'r \<Rightarrow> 'r handled" where
  "cache_del X R msg r =
    with_value r (rbind (decoded X msg) (\<lambda>p. MustGetMapDataStr p ''key'')) (\<lambda>key.
    case rd_del R key r of (r1, RErr _) \<Rightarrow> failed r1 redis_error | (r1, _) \<Rightarrow> answer_with r1 zero_message)"

text \<open>The payload is the key itself; the answer_with has a byte if the key exists.\<close>

definition cache_exists :: "'r redis_server \<Rightarrow> Message \<Rightarrow> 'r \<Rightarrow> 'r handled" where
  "cache_exists R msg r = (case Payload msg of
      PRaw key \<Rightarrow> (case rd_exists R key r of
          RNil \<Rightarrow> failed r (PanicErr ''redis: nil'')
        | RErr e \<Rightarrow> failed r e
        | RVal found \<Rightarrow> answer_with r (zero_message\<lparr>Payload := (if found > 0 then PRaw [CHR 0x01] else PRaw []), IsRaw := True\<rparr>))
    | _ \<Rightarrow> failed r TypeAssertion)"

text \<open>The handlers \<open>main\<close> registers.\<close>

definition cache_handler :: "ext \<Rightarrow> 'r redis_server \<Rightarrow> string \<Rightarrow> (Message \<Rightarrow> 'r \<Rightarrow> 'r handled) option" where
  "cache_handler X R meth = map_of [(''save'', cache_save X R), (''load'', cache_load X R), (''incr'', cache_incr X R), (''lrange'', cache_lrange X R),
     (''blpop'', cache_blpop X R), (''rpush'', cache_rpush X R), (''del'', cache_del X R), (''exists'', cache_exists R)] meth"

section \<open>The locks\<close>

definition DefaultPrefix :: string where
  "DefaultPrefix = ''lock:''"

record Locker =
  lk_prefix :: string
  lk_nodeID :: string

text \<open>\<open>main\<close> sets \<open>nodeID\<close> after \<open>Run\<close>, which does not return.\<close>

definition Locker_loadOptions :: "gval \<Rightarrow> Locker \<Rightarrow> Locker" where
  "Locker_loadOptions options l = l\<lparr>lk_prefix := (case GetMapDataStr options ''data.prefix'' of None \<Rightarrow> DefaultPrefix | Some p \<Rightarrow> p)\<rparr>"

definition new_Locker :: Locker where
  "new_Locker = \<lparr>lk_prefix = [], lk_nodeID = []\<rparr>"

definition ErrFailToLock :: gopanic where
  "ErrFailToLock = PanicErr ''fail to lock''"

definition ErrFailToUnlock :: gopanic where
  "ErrFailToUnlock = PanicErr ''fail to unlock''"

definition must_reply :: "'a reply \<Rightarrow> 'a res" where
  "must_reply v = (case v of RNil \<Rightarrow> Inl (PanicErr ''redis: nil'') | RErr e \<Rightarrow> Inl e | RVal x \<Rightarrow> Inr x)"

text \<open>The expiry, the name and the time for the attempt; the attempt only bounds the context.\<close>

definition lock_request :: "ext \<Rightarrow> Message \<Rightarrow> (duration \<times> string) res" where
  "lock_request X msg =
    rbind (decoded X msg) (\<lambda>p.
    rbind (MustGetMapDataStr p ''expire'') (\<lambda>e.
    rbind (case ext_parse_duration X e of None \<Rightarrow> Inl (PanicErr (''time: invalid duration '' @ e)) | Some d \<Rightarrow> Inr (word_of_int d)) (\<lambda>expire.
    rbind (MustGetMapDataStr p ''name'') (\<lambda>name.
    rmap (\<lambda>_. (expire, name)) (case GetMapDataStr p ''attempt_ms'' of
        None \<Rightarrow> Inr 0
      | Some ms \<Rightarrow> (case atoi ms of None \<Rightarrow> Inl (PanicErr (''strconv.Atoi: parsing '' @ ms)) | Some n \<Rightarrow> Inr n))))))"

definition Locker_lock :: "ext \<Rightarrow> 'r redis_server \<Rightarrow> Locker \<Rightarrow> Message \<Rightarrow> 'r \<Rightarrow> 'r handled" where
  "Locker_lock X R l msg r =
    with_value r (lock_request X msg) (\<lambda>(expire, name).
    case rd_setnx R (lk_prefix l @ name) (lk_nodeID l) expire r of (r1, v) \<Rightarrow>
      with_value r1 (must_reply v) (\<lambda>got. if got then answer_with r1 zero_message else failed r1 ErrFailToLock))"

definition Locker_unlock :: "ext \<Rightarrow> 'r redis_server \<Rightarrow> Locker \<Rightarrow> Message \<Rightarrow> 'r \<Rightarrow> 'r handled" where
  "Locker_unlock X R l msg r =
    with_value r (rbind (decoded X msg) (\<lambda>p. MustGetMapDataStr p ''name'')) (\<lambda>name.
    case rd_del R (lk_prefix l @ name) r of (r1, v) \<Rightarrow>
      with_value r1 (must_reply v) (\<lambda>n. if n > 0 then answer_with r1 zero_message else failed r1 ErrFailToUnlock))"

section \<open>What Redis promises\<close>

lemma redis_okD:
  assumes "redis_ok R view"
  shows "view r k = None \<Longrightarrow> rd_get R k r = RNil" "view r k = Some (Plain s) \<Longrightarrow> rd_get R k r = RVal s"
    and "\<exists>r'. rd_set R k (GStr s) d r = (r', RVal ()) \<and> view r' = (view r)(k \<mapsto> Plain s)"
    and "\<exists>r'. rd_setnx R k s d r = (r', RVal (view r k = None)) \<and> view r' = (if view r k = None then (view r)(k \<mapsto> Plain s) else view r)"
    and "\<exists>r'. rd_del R k r = (r', RVal (if view r k = None then 0 else 1)) \<and> view r' = (view r)(k := None)"
    and "counted (view r k) = Some n \<Longrightarrow> in_int64 (n + 1) \<Longrightarrow> \<exists>r'. rd_incr R k r = (r', RVal (n + 1)) \<and> view r' = (view r)(k \<mapsto> Plain (itoa (n + 1)))"
    and "items (view r k) = Some xs \<Longrightarrow> rd_lrange R k 0 (- 1) r = RVal xs"
    and "items (view r k) = Some xs \<Longrightarrow> \<exists>r'. rd_rpush R k s r = (r', RVal ()) \<and> view r' = (view r)(k \<mapsto> Items (xs @ [s]))"
    and "items (view r k) = Some (x # xs) \<Longrightarrow> sint c > 0 \<Longrightarrow>
       \<exists>r'. rd_blpop R c t k r = (r', RVal [k, x]) \<and> view r' = (view r)(k := (if xs = [] then None else Some (Items xs)))"
    and "rd_blpop R 0 t k r = (r, RErr (PanicErr ''context deadline exceeded''))"
    and "rd_exists R k r = RVal (if view r k = None then 0 else 1)"
    and "view (rd_lapse R k r) = (view r)(k := None)"
  using assms unfolding redis_ok_def by (simp_all)

section \<open>The cache keeps what it is given\<close>

definition request_with :: "gmap \<Rightarrow> Message" where
  "request_with m = zero_message\<lparr>Payload := PVal (GMap m)\<rparr>"

lemma decoded_request [simp]: "decoded X (request_with m) = Inr (GMap m)"
  by (simp add: decoded_def request_with_def DeserializePayload_def zero_message_def payload_val_def rmap_def)

lemma key_of [simp]:
  "MustGetMapDataStr (GMap ((''key'', GStr k) # m)) ''key'' = Inr k"
  "MustGetMapData (GMap [(''key'', GStr k), (''value'', GStr v)]) ''value'' = Inr (GStr v)"
  "GetMapData (GMap [(''key'', GStr k), (''value'', v')]) ''ttl'' = None"
  "GetMapDataBool (GMap [(''key'', GStr k), (''value'', v')]) ''toJson'' = (False, False)"
  by (simp_all add: MustGetMapDataStr_def GetMapDataStr_def MustGetMapData_def GetMapData_def GetMapDataBool_def)

definition put_request :: "string \<Rightarrow> string \<Rightarrow> Message" where
  "put_request k v = request_with [(''key'', GStr k), (''value'', GStr v)]"

definition key_request :: "string \<Rightarrow> Message" where
  "key_request k = request_with [(''key'', GStr k)]"

text \<open>
  What is saved under a key is what a later load of the key answers, whatever was stored there
  before; no other key changes, and a key that was deleted answers with an empty message.
\<close>

theorem cache_save_load:
  assumes "redis_ok R view"
  shows "let r1 = fst (cache_save X R (put_request k v) r) in
    answered (cache_save X R (put_request k v) r) zero_message \<and> answered (cache_load X R (key_request k) r1) (raw_message v) \<and>
    (\<forall>k'. k' \<noteq> k \<longrightarrow> view r1 k' = view r k') \<and>
    answered (cache_load X R (key_request k) (fst (cache_del X R (key_request k) r1))) zero_message"
proof -
  obtain r1 where save: "rd_set R k (GStr v) 0 r = (r1, RVal ())" and v1: "view r1 = (view r)(k \<mapsto> Plain v)"
    using redis_okD(3) [OF assms] by blast
  obtain r2 where del: "rd_del R k r1 = (r2, RVal 1)" and v2: "view r2 = (view r1)(k := None)"
    using redis_okD(5) [OF assms, of k r1] v1 by auto
  have "cache_save X R (put_request k v) r = answer_with r1 zero_message"
    by (simp add: cache_save_def put_request_def save_ttl_def save finish_command_def)
  moreover have "cache_load X R (key_request k) r1 = answer_with r1 (raw_message v)" "cache_del X R (key_request k) r1 = answer_with r2 zero_message"
    "cache_load X R (key_request k) r2 = answer_with r2 zero_message"
    using redis_okD(1,2) [OF assms] v1 v2 by (simp_all add: cache_load_def cache_del_def key_request_def del)
  ultimately show ?thesis using v1 by (simp add: Let_def)
qed

section \<open>A list of the cache is a queue\<close>

datatype queue_op = Push string | Pop

fun queue_spec :: "string list \<Rightarrow> queue_op list \<Rightarrow> (string list \<times> string list) option" where
  "queue_spec q [] = Some ([], q)"
| "queue_spec q (Push v # ops) = queue_spec (q @ [v]) ops"
| "queue_spec [] (Pop # ops) = None"
| "queue_spec (x # q) (Pop # ops) = map_option (\<lambda>(out, q'). (x # out, q')) (queue_spec q ops)"

text \<open>The calls of the cache driver, with the answers to \<open>blpop\<close>.\<close>

definition pop_request :: "string \<Rightarrow> string \<Rightarrow> Message" where
  "pop_request timeout k = (request_with [(''key'', GStr k)])\<lparr>Labels := Some [(''timeout'', timeout)]\<rparr>"

fun queue_calls :: "ext \<Rightarrow> 'r redis_server \<Rightarrow> string \<Rightarrow> string \<Rightarrow> queue_op list \<Rightarrow> 'r \<Rightarrow> handler_run list \<times> 'r" where
  "queue_calls X R timeout k [] r = ([], r)"
| "queue_calls X R timeout k (Push v # ops) r = queue_calls X R timeout k ops (fst (cache_rpush X R (put_request k v) r))"
| "queue_calls X R timeout k (Pop # ops) r = (case cache_blpop X R (pop_request timeout k) r of
      (r1, run) \<Rightarrow> (case queue_calls X R timeout k ops r1 of (runs, r2) \<Rightarrow> (run # runs, r2)))"

lemma rpush_call:
  assumes "redis_ok R view" and "items (view r k) = Some xs"
  shows "\<exists>r'. cache_rpush X R (put_request k v) r = answer_with r' zero_message \<and> view r' = (view r)(k \<mapsto> Items (xs @ [v]))"
  using redis_okD(8) [OF assms(1,2), of v]
  by (auto simp: cache_rpush_def put_request_def rpush_value_def rpush_ttl_def finish_command_def)

lemma blpop_call:
  assumes "redis_ok R view" and "items (view r k) = Some (x # xs)" and "blpop_timeout X (pop_request timeout k) = Inr t" and "sint t > 0"
  shows "\<exists>r'. cache_blpop X R (pop_request timeout k) r = answer_with r' (raw_message x) \<and> view r' = (view r)(k := (if xs = [] then None else Some (Items xs)))"
proof -
  obtain r' where pop: "rd_blpop R t t k r = (r', RVal [k, x])" and v: "view r' = (view r)(k := (if xs = [] then None else Some (Items xs)))"
    using redis_okD(9) [OF assms(1,2,4)] by blast
  have "decoded X (pop_request timeout k) = Inr (GMap [(''key'', GStr k)])"
    by (simp add: decoded_def pop_request_def request_with_def DeserializePayload_def zero_message_def payload_val_def rmap_def)
  then show ?thesis using pop v by (intro exI [of _ r']) (simp add: cache_blpop_def assms(3))
qed


section \<open>One holder of a lock\<close>

datatype lock_op = LockOp string | UnlockOp string | Lapse string

definition lock_message :: "string \<Rightarrow> string \<Rightarrow> Message" where
  "lock_message expire name = request_with [(''name'', GStr name), (''expire'', GStr expire)]"

definition unlock_message :: "string \<Rightarrow> Message" where
  "unlock_message name = request_with [(''name'', GStr name)]"

fun lock_run :: "ext \<Rightarrow> 'r redis_server \<Rightarrow> Locker \<Rightarrow> string \<Rightarrow> lock_op list \<Rightarrow> 'r \<Rightarrow> 'r" where
  "lock_run X R l expire [] r = r"
| "lock_run X R l expire (LockOp name # ops) r = lock_run X R l expire ops (fst (Locker_lock X R l (lock_message expire name) r))"
| "lock_run X R l expire (UnlockOp name # ops) r = lock_run X R l expire ops (fst (Locker_unlock X R l (unlock_message name) r))"
| "lock_run X R l expire (Lapse name # ops) r = lock_run X R l expire ops (rd_lapse R (lk_prefix l @ name) r)"

lemma lock_request_message:
  "ext_parse_duration X expire = Some d \<Longrightarrow> lock_request X (lock_message expire name) = Inr (word_of_int d, name)"
  by (simp add: lock_request_def lock_message_def MustGetMapDataStr_def MustGetMapData_def GetMapData_def GetMapDataStr_def)

lemma lock_call:
  assumes "redis_ok R view" and "ext_parse_duration X expire = Some d"
  shows "\<exists>r'. Locker_lock X R l (lock_message expire name) r =
      (if view r (lk_prefix l @ name) = None then answer_with r' zero_message else failed r' ErrFailToLock) \<and>
    view r' = (if view r (lk_prefix l @ name) = None then (view r)(lk_prefix l @ name \<mapsto> Plain (lk_nodeID l)) else view r)"
proof -
  obtain r' where "rd_setnx R (lk_prefix l @ name) (lk_nodeID l) (word_of_int d) r = (r', RVal (view r (lk_prefix l @ name) = None))"
    "view r' = (if view r (lk_prefix l @ name) = None then (view r)(lk_prefix l @ name \<mapsto> Plain (lk_nodeID l)) else view r)"
    using redis_okD(4) [OF assms(1)] by blast
  then show ?thesis using lock_request_message [OF assms(2)] by (intro exI [of _ r']) (simp add: Locker_lock_def must_reply_def)
qed

lemma unlock_call:
  assumes "redis_ok R view"
  shows "\<exists>r'. Locker_unlock X R l (unlock_message name) r =
      (if view r (lk_prefix l @ name) = None then failed r' ErrFailToUnlock else answer_with r' zero_message) \<and>
    view r' = (view r)(lk_prefix l @ name := None)"
proof -
  obtain r' where "rd_del R (lk_prefix l @ name) r = (r', RVal (if view r (lk_prefix l @ name) = None then 0 else 1))"
    "view r' = (view r)(lk_prefix l @ name := None)"
    using redis_okD(5) [OF assms] by blast
  then show ?thesis
    by (intro exI [of _ r']) (simp add: Locker_unlock_def unlock_message_def MustGetMapDataStr_def MustGetMapData_def GetMapData_def must_reply_def)
qed

lemma lock_kept:
  assumes "redis_ok R view" and "ext_parse_duration X expire = Some d"
    and "view r (lk_prefix l @ name) \<noteq> None" and "UnlockOp name \<notin> set ops" and "Lapse name \<notin> set ops"
  shows "view (lock_run X R l expire ops r) (lk_prefix l @ name) \<noteq> None"
  using assms(3-5)
proof (induction ops arbitrary: r)
  case (Cons op ops)
  show ?case
  proof (cases op)
    case (LockOp n)
    obtain r' where "fst (Locker_lock X R l (lock_message expire n) r) = r'" "view r' (lk_prefix l @ name) \<noteq> None"
      using lock_call [OF assms(1,2), of l n r] Cons.prems(1) by (auto split: if_splits)
    then show ?thesis using Cons LockOp by simp
  next
    case (UnlockOp n)
    obtain r' where "fst (Locker_unlock X R l (unlock_message n) r) = r'" "view r' (lk_prefix l @ name) \<noteq> None"
      using unlock_call [OF assms(1), of X l n r] Cons.prems(1,2) UnlockOp by (auto split: if_splits)
    then show ?thesis using Cons UnlockOp by simp
  next
    case (Lapse n)
    then have "view (rd_lapse R (lk_prefix l @ n) r) (lk_prefix l @ name) \<noteq> None"
      using redis_okD(12) [OF assms(1), of "lk_prefix l @ n" r] Cons.prems(1,3) by simp
    then show ?thesis using Cons Lapse by simp
  qed
qed simp

text \<open>
  A lock has one holder: once a lock was answered, every further request for the same name fails,
  whatever is locked and unlocked in between, until somebody unlocks the name or its time is over.
\<close>

theorem lock_exclusive:
  assumes "redis_ok R view" and "ext_parse_duration X expire = Some d"
    and "answered (Locker_lock X R l (lock_message expire name) r) zero_message"
    and "UnlockOp name \<notin> set ops" and "Lapse name \<notin> set ops"
  shows "panics (snd (Locker_lock X R l (lock_message expire name)
    (lock_run X R l expire ops (fst (Locker_lock X R l (lock_message expire name) r))))) = Some ErrFailToLock"
proof -
  let ?r1 = "fst (Locker_lock X R l (lock_message expire name) r)"
  have "view ?r1 (lk_prefix l @ name) \<noteq> None"
    using lock_call [OF assms(1,2), of l name r] assms(3) by (auto split: if_splits)
  from lock_kept [OF assms(1,2) this assms(4,5)] lock_call [OF assms(1,2), of l name "lock_run X R l expire ops ?r1"]
  show ?thesis by (auto simp: failed_def)
qed

text \<open>
  Unlocking does not look at the holder: when the time of a lock is over and another client has locked
  the name, the first client still unlocks it, and a third one gets it although the second one never
  gave it back.
\<close>

theorem stale_unlock_frees:
  assumes "redis_ok R view" and "ext_parse_duration X expire = Some d" and "view r (lk_prefix l @ name) = None"
  shows "let r1 = lock_run X R l expire [LockOp name, Lapse name] r;
      second = Locker_lock X R l (lock_message expire name) r1;
      first_unlock = Locker_unlock X R l (unlock_message name) (fst second) in
    answered second zero_message \<and> answered first_unlock zero_message \<and>
    answered (Locker_lock X R l (lock_message expire name) (fst first_unlock)) zero_message"
proof -
  let ?k = "lk_prefix l @ name"
  let ?r1 = "lock_run X R l expire [LockOp name, Lapse name] r"
  have free: "view ?r1 ?k = None" using redis_okD(12) [OF assms(1)] by simp
  obtain r2 where second: "Locker_lock X R l (lock_message expire name) ?r1 = answer_with r2 zero_message" and v2: "view r2 ?k \<noteq> None"
    using lock_call [OF assms(1,2), of l name ?r1] free by auto
  obtain r3 where unlock: "Locker_unlock X R l (unlock_message name) r2 = answer_with r3 zero_message" and v3: "view r3 ?k = None"
    using unlock_call [OF assms(1), of X l name r2] v2 by auto
  obtain r4 where "Locker_lock X R l (lock_message expire name) r3 = answer_with r4 zero_message"
    using lock_call [OF assms(1,2), of l name r3] v3 by auto
  then show ?thesis by (simp only: Let_def second unlock handled_state answered_answer)
qed

section \<open>What callers meet\<close>

text \<open>A time to live in seconds never arrives as an integer: JSON numbers are decoded as \<open>float64\<close>.\<close>

theorem save_numeric_ttl_panics:
  "snd (cache_save X R (request_with [(''key'', GStr k), (''value'', GStr v), (''ttl'', GFloat n)]) r) =
    \<lparr>replies = [], panics = Some (PanicStr ''redis cache unknown TTL type''), late = False\<rparr>"
  by (simp add: cache_save_def save_ttl_def MustGetMapDataStr_def MustGetMapData_def GetMapData_def failed_def)

text \<open>Without a label \<open>timeout\<close> the context of \<open>blpop\<close> is over at once: it answers empty and takes nothing.\<close>

theorem blpop_without_timeout:
  assumes "redis_ok R view"
  shows "cache_blpop X R (key_request k) r = answer_with r (raw_message [])"
  using redis_okD(10) [OF assms]
  by (simp add: cache_blpop_def key_request_def blpop_timeout_def label_str_def label_def labels_def request_with_def zero_message_def
      decoded_def DeserializePayload_def payload_val_def rmap_def Let_def)

section \<open>The connection\<close>

text \<open>
  \<open>GetRedisOpts\<close> and \<open>setupTLSConfig\<close>. The secrets are deleted from the options of the driver when
  \<open>GetRedisOpts\<close> ends, by a panic too. \<open>LOCALREDIS\<close> and the parsing of its URL are given; \<open>tc_verifyPeer\<close> says
  that \<open>VerifyPeerCertificate\<close> is set, which checks the chain without the name, and \<open>tc_CACerts\<close> are the
  certificates handed to \<open>LoadCACerts\<close>.
\<close>

record tls_config =
  tc_InsecureSkipVerify :: bool
  tc_ServerName :: string
  tc_verifyPeer :: bool
  tc_CACerts :: "gval list option"

record redis_options =
  ro_Addr :: string
  ro_Username :: string
  ro_Password :: string
  ro_DB :: int
  ro_TLSConfig :: "tls_config option"

definition CheckMapData :: "gval \<Rightarrow> string \<Rightarrow> bool" where
  "CheckMapData from path = (case GetMapData from path of None \<Rightarrow> False | Some v \<Rightarrow> IsTruthy v)"

definition setupTLSConfig :: "gval \<Rightarrow> tls_config res" where
  "setupTLSConfig options =
    (if CheckMapData options ''data.connection.TLS.InsecureSkipVerify''
     then Inr \<lparr>tc_InsecureSkipVerify = True, tc_ServerName = [], tc_verifyPeer = False, tc_CACerts = None\<rparr>
     else rbind (case GetMapData options ''data.connection.TLS.CACerts'' of None \<Rightarrow> Inr [] | Some c \<Rightarrow> assert_type (as_list c)) (\<lambda>pemblocks.
       Inr (case GetMapDataStr options ''data.connection.TLS.VerifyServerName'' of
           None \<Rightarrow> \<lparr>tc_InsecureSkipVerify = False, tc_ServerName = [], tc_verifyPeer = False, tc_CACerts = Some pemblocks\<rparr>
         | Some serverName \<Rightarrow>
             if trim_space serverName \<noteq> ''*''
             then \<lparr>tc_InsecureSkipVerify = False, tc_ServerName = serverName, tc_verifyPeer = False, tc_CACerts = Some pemblocks\<rparr>
             else \<lparr>tc_InsecureSkipVerify = True, tc_ServerName = [], tc_verifyPeer = True, tc_CACerts = Some pemblocks\<rparr>)))"

definition option_str :: "gval \<Rightarrow> string \<Rightarrow> string" where
  "option_str options path = (case GetMapDataStr options path of None \<Rightarrow> [] | Some v \<Rightarrow> v)"

definition connection_opts :: "string option \<Rightarrow> (string \<Rightarrow> redis_options option) \<Rightarrow> gval \<Rightarrow> redis_options res" where
  "connection_opts localRedis parseURL options = (case localRedis of
      Some (c # cs) \<Rightarrow> Inr (case parseURL (c # cs) of
          Some opts \<Rightarrow> opts
        | None \<Rightarrow> \<lparr>ro_Addr = ''127.0.0.1:6379'', ro_Username = [], ro_Password = [], ro_DB = 0, ro_TLSConfig = None\<rparr>)
    | _ \<Rightarrow>
        rbind (case GetMapDataStr options ''data.connection.DB'' of
            None \<Rightarrow> Inr 0
          | Some db \<Rightarrow> (case atoi db of None \<Rightarrow> Inl (PanicErr (''strconv.Atoi: parsing '' @ db)) | Some n \<Rightarrow> Inr n)) (\<lambda>db.
        rbind (if CheckMapData options ''data.connection.TLS.Enabled'' then rmap Some (setupTLSConfig options) else Inr None) (\<lambda>tls.
        Inr \<lparr>ro_Addr = option_str options ''data.connection.Addr'', ro_Username = option_str options ''data.connection.Username'',
          ro_Password = option_str options ''data.connection.Password'', ro_DB = db, ro_TLSConfig = tls\<rparr>)))"

text \<open>\<open>delete\<close> on a map inside the options.\<close>

fun delete_key :: "string list \<Rightarrow> string \<Rightarrow> gval \<Rightarrow> gval" where
  "delete_key [] key (GMap m) = GMap (mdel key m)"
| "delete_key (c # cs) key (GMap m) = GMap (map (\<lambda>(k, v). (k, if k = c then delete_key cs key v else v)) m)"
| "delete_key cs key v = v"

definition GetRedisOpts :: "string option \<Rightarrow> (string \<Rightarrow> redis_options option) \<Rightarrow> gval \<Rightarrow> gval \<times> redis_options res" where
  "GetRedisOpts localRedis parseURL options =
    (case GetMapData options ''data.connection'' of
       None \<Rightarrow> (options, connection_opts localRedis parseURL options)
     | Some (GMap conn) \<Rightarrow>
         (let without = delete_key [''data'', ''connection''] ''Password'' in
          case GetMapData options ''data.connection.TLS'' of
            None \<Rightarrow> (without options, connection_opts localRedis parseURL options)
          | Some (GMap tls) \<Rightarrow>
              (without (delete_key [''data'', ''connection'', ''TLS''] ''CACerts'' options), connection_opts localRedis parseURL options)
          | Some _ \<Rightarrow> (without options, Inl TypeAssertion))
     | Some _ \<Rightarrow> (options, Inl TypeAssertion))"

lemma get_path_names:
  "list_all (\<lambda>c. atoi c = None) (c # cs) \<Longrightarrow> (\<nexists>m. v = GMap m) \<Longrightarrow> get_path v (c # cs) = None"
  by (cases v) auto

lemma get_path_delete_key: "list_all (\<lambda>c. atoi c = None) (cs @ [key]) \<Longrightarrow> get_path (delete_key cs key v) (cs @ [key]) = None"
proof (induction cs arbitrary: v)
  case Nil
  then show ?case by (cases v) auto
next
  case (Cons c cs)
  show ?case
  proof (cases "\<exists>m. v = GMap m")
    case True
    then obtain m where m: "v = GMap m" by blast
    have "map_of (map (\<lambda>(k, v). (k, if k = c then delete_key cs key v else v)) m) c = map_option (delete_key cs key) (map_of m c)"
      by (induction m) auto
    then show ?thesis using Cons m by (simp split: option.split)
  next
    case False
    then show ?thesis using get_path_names [of c "cs @ [key]" v] Cons.prems by (cases v) auto
  qed
qed

lemma setup_tls_skips:
  "setupTLSConfig options = Inr tls \<Longrightarrow>
    tc_InsecureSkipVerify tls \<and> \<not> tc_verifyPeer tls \<longleftrightarrow> CheckMapData options ''data.connection.TLS.InsecureSkipVerify''"
  unfolding setupTLSConfig_def
  by (cases "CheckMapData options ''data.connection.TLS.InsecureSkipVerify''"; cases "GetMapDataStr options ''data.connection.TLS.VerifyServerName''")
    (auto simp: rbind_Inr_conv split: if_splits)

lemma connection_tls:
  "connection_opts None parseURL options = Inr opts \<Longrightarrow> ro_TLSConfig opts = Some tls \<Longrightarrow> setupTLSConfig options = Inr tls"
  unfolding connection_opts_def
  by (cases "CheckMapData options ''data.connection.TLS.Enabled''"; cases "setupTLSConfig options") (auto simp: rbind_Inr_conv rmap_def simp del: split_on.simps)

lemma opts_from_connection: "snd (GetRedisOpts localRedis parseURL options) = Inr opts \<Longrightarrow> connection_opts localRedis parseURL options = Inr opts"
  unfolding GetRedisOpts_def Let_def by (simp split: option.splits gval.splits)

text \<open>
  After \<open>GetRedisOpts\<close>, whether it returned or not, the options of the driver no longer contain the
  password; and a connection with TLS accepts an unverified certificate only if the configuration says
  \<open>InsecureSkipVerify\<close>.
\<close>

theorem redis_connection_safe:
  "GetMapData (fst (GetRedisOpts localRedis parseURL options)) ''data.connection.Password'' = None \<and>
   (snd (GetRedisOpts None parseURL options) = Inr opts \<longrightarrow> ro_TLSConfig opts = Some tls \<longrightarrow>
     tc_InsecureSkipVerify tls \<and> \<not> tc_verifyPeer tls \<longleftrightarrow> CheckMapData options ''data.connection.TLS.InsecureSkipVerify'')"
proof
  have split: "split_on CHR ''.'' ''data.connection.Password'' = [''data'', ''connection''] @ [''Password'']"
    "split_on CHR ''.'' ''data.connection'' = [''data'', ''connection'']" by simp_all
  have names: "list_all (\<lambda>c. atoi c = None) ([''data'', ''connection''] @ [''Password''])" by code_simp
  have del: "GetMapData (delete_key [''data'', ''connection''] ''Password'' v) ''data.connection.Password'' = None" for v
    unfolding GetMapData_def split using get_path_delete_key [OF names] by simp
  have none: "GetMapData options ''data.connection.Password'' = None" if "\<nexists>conn. GetMapData options ''data.connection'' = Some (GMap conn)"
  proof -
    have "get_path options ([''data'', ''connection''] @ [''Password'']) = None"
    proof (cases "options = GNil")
      case False
      have "get_path w [''Password''] = None" if "get_path options [''data'', ''connection''] = Some w" for w
        using get_path_names [of "''Password''" "[]" w] names that \<open>\<nexists>conn. _ conn\<close> False unfolding GetMapData_def split by auto
      then show ?thesis unfolding get_path_append [OF list.distinct(2)] by (cases "get_path options [''data'', ''connection'']") simp_all
    qed simp
    then show ?thesis unfolding GetMapData_def split by simp
  qed
  show "GetMapData (fst (GetRedisOpts localRedis parseURL options)) ''data.connection.Password'' = None"
    using del none by (auto simp: GetRedisOpts_def Let_def split: option.splits gval.splits)
  show "snd (GetRedisOpts None parseURL options) = Inr opts \<longrightarrow> ro_TLSConfig opts = Some tls \<longrightarrow>
     tc_InsecureSkipVerify tls \<and> \<not> tc_verifyPeer tls \<longleftrightarrow> CheckMapData options ''data.connection.TLS.InsecureSkipVerify''"
    using opts_from_connection connection_tls setup_tls_skips by blast
qed

section \<open>Witnesses\<close>

text \<open>Redis in memory, without expiry.\<close>

definition memory_redis :: "(string, stored) gomap redis_server" where
  "memory_redis = \<lparr>
    rd_get = (\<lambda>k r. case map_of r k of None \<Rightarrow> RNil | Some (Plain s) \<Rightarrow> RVal s | Some (Items _) \<Rightarrow> RErr (PanicErr ''WRONGTYPE'')),
    rd_set = (\<lambda>k v d r. case v of GStr s \<Rightarrow> (mput k (Plain s) r, RVal ()) | _ \<Rightarrow> (r, RErr (PanicErr ''can't marshal''))),
    rd_setnx = (\<lambda>k s d r. if map_of r k = None then (mput k (Plain s) r, RVal True) else (r, RVal False)),
    rd_del = (\<lambda>k r. (mdel k r, RVal (if map_of r k = None then 0 else 1))),
    rd_incr = (\<lambda>k r. case counted (map_of r k) of None \<Rightarrow> (r, RErr (PanicErr ''WRONGTYPE'')) | Some n \<Rightarrow> (mput k (Plain (itoa (n + 1))) r, RVal (n + 1))),
    rd_lrange = (\<lambda>k start stop r. case items (map_of r k) of None \<Rightarrow> RErr (PanicErr ''WRONGTYPE'') | Some xs \<Rightarrow> RVal xs),
    rd_rpush = (\<lambda>k s r. case items (map_of r k) of None \<Rightarrow> (r, RErr (PanicErr ''WRONGTYPE'')) | Some xs \<Rightarrow> (mput k (Items (xs @ [s])) r, RVal ())),
    rd_expire = (\<lambda>k d r. (r, RVal ())),
    rd_blpop = (\<lambda>c t k r. if sint c \<le> 0 then (r, RErr (PanicErr ''context deadline exceeded'')) else (case items (map_of r k) of
        Some (x # xs) \<Rightarrow> ((if xs = [] then mdel k r else mput k (Items xs) r), RVal [k, x])
      | _ \<Rightarrow> (r, RNil))),
    rd_exists = (\<lambda>k r. RVal (if map_of r k = None then 0 else 1)),
    rd_lapse = (\<lambda>k r. mdel k r)\<rparr>"

lemma memory_redis_ok: "redis_ok memory_redis map_of"
  unfolding redis_ok_def memory_redis_def by (intro conjI allI impI) (auto simp: fun_eq_iff)

theorem cache_save_load_witness:
  "answered (cache_load no_ext memory_redis (key_request ''k'') (fst (cache_save no_ext memory_redis (put_request ''k'' ''v'') []))) (raw_message ''v'')"
  using cache_save_load [OF memory_redis_ok, of no_ext "''k''" "''v''" "[]"] by (simp add: Let_def)

definition sample_clock :: ext where
  "sample_clock = no_ext\<lparr>ext_parse_duration := (\<lambda>_. Some (5 * second))\<rparr>"


theorem lock_exclusive_witness:
  "panics (snd (Locker_lock sample_clock memory_redis new_Locker (lock_message ''5s'' ''conv'')
    (lock_run sample_clock memory_redis new_Locker ''5s'' [LockOp ''other'', UnlockOp ''other'']
      (fst (Locker_lock sample_clock memory_redis new_Locker (lock_message ''5s'' ''conv'') []))))) = Some ErrFailToLock"
proof -
  have d: "ext_parse_duration sample_clock ''5s'' = Some (5 * second)" by (simp add: sample_clock_def)
  have "answered (Locker_lock sample_clock memory_redis new_Locker (lock_message ''5s'' ''conv'') []) zero_message"
    using lock_call [OF memory_redis_ok d, of new_Locker "''conv''" "[]"] by auto
  from lock_exclusive [OF memory_redis_ok d this, of "[LockOp ''other'', UnlockOp ''other'']"] show ?thesis by simp
qed

theorem stale_unlock_frees_witness:
  "\<exists>r. answered (Locker_lock sample_clock memory_redis new_Locker (lock_message ''5s'' ''conv'') r) zero_message"
proof -
  have "ext_parse_duration sample_clock ''5s'' = Some (5 * second)" by (simp add: sample_clock_def)
  from stale_unlock_frees [OF memory_redis_ok this, of "[]" new_Locker "''conv''"] show ?thesis unfolding Let_def by auto
qed

theorem blpop_without_timeout_witness:
  "cache_blpop no_ext memory_redis (key_request ''k'') [(''k'', Items [''a''])] = answer_with [(''k'', Items [''a''])] (raw_message [])"
  by (rule blpop_without_timeout [OF memory_redis_ok])

theorem redis_connection_safe_witness:
  "GetMapData (fst (GetRedisOpts None (\<lambda>_. None) (GMap [(''data'', GMap [(''connection'', GMap [(''Password'', GStr ''p'')])])]))) ''data.connection.Password'' = None"
  using redis_connection_safe [of None "\<lambda>_. None" "GMap [(''data'', GMap [(''connection'', GMap [(''Password'', GStr ''p'')])])]"] by blast

end
