(* ===== verification/Webhook.thy ===== *)
theory Webhook
  imports DriverProcess
begin

text \<open>
  The webhook driver, \<open>drivers/cmd/webhook/main.go\<close>, with \<open>ExtractWebRequest\<close> of \<open>pkg/dipper/web.go\<close>: from an HTTP
  request to the data of an event, the verification of signatures, the search for a matching hook, and
  the answer.

  The HTTP server is outside; a request is a record of what the handler reads from it. HMAC-SHA256 and
  the time are given. Header names are stored in the canonical form of \<open>net/http\<close>.
\<close>

section \<open>Requests\<close>

type_synonym headers = "(string, string list) gomap"

record http_request =
  hr_Path :: string
  hr_Method :: string
  hr_Form :: "headers res"
  hr_Header :: headers
  hr_Host :: string
  hr_RemoteAddr :: string
  hr_Body :: "string res option"

definition upper_char :: "char \<Rightarrow> char" where
  "upper_char c = (let n = of_char c :: nat in if 97 \<le> n \<and> n \<le> 122 then char_of (n - 32) else c)"

text \<open>\<open>textproto.CanonicalMIMEHeaderKey\<close>: upper case at the start and after a hyphen.\<close>

fun canonical_key :: "bool \<Rightarrow> string \<Rightarrow> string" where
  "canonical_key upper [] = []"
| "canonical_key upper (c # cs) = (if upper then upper_char c else lower_char c) # canonical_key (c = CHR ''-'') cs"

definition header_Get :: "headers \<Rightarrow> string \<Rightarrow> string" where
  "header_Get h key = (case map_of h (canonical_key True key) of Some (v # _) \<Rightarrow> v | _ \<Rightarrow> [])"

definition headers_val :: "headers \<Rightarrow> gval" where
  "headers_val h = GMap (map (\<lambda>(k, vs). (k, GList (map GStr vs))) h)"

text \<open>A slice of bytes, as reflection sees it.\<close>

definition bytes_val :: "string \<Rightarrow> gval" where
  "bytes_val bs = GList (map (\<lambda>c. GInt (of_char c)) bs)"

text \<open>The data of an event is a map; \<open>ed_Header\<close> and \<open>ed_body\<close> are the entries the driver reads back with their Go types.\<close>

record event_data =
  ed_map :: gmap
  ed_Header :: headers
  ed_body :: "string option"

definition ExtractWebRequestExceptBody :: "http_request \<Rightarrow> event_data res" where
  "ExtractWebRequestExceptBody r = rbind (hr_Form r) (\<lambda>form.
     Inr \<lparr>ed_map = [(''url'', GStr (hr_Path r)), (''method'', GStr (hr_Method r)), (''form'', headers_val form),
       (''headers'', headers_val (hr_Header r)), (''host'', GStr (hr_Host r)), (''remoteAddr'', GStr (hr_RemoteAddr r))],
       ed_Header = hr_Header r, ed_body = None\<rparr>)"

text \<open>Unmarshalling into a map: an object, or \<open>null\<close>, which leaves it empty.\<close>

definition json_object :: "ext \<Rightarrow> string \<Rightarrow> gmap res" where
  "json_object X body = rbind (ext_json_unmarshal X body) (\<lambda>v. case v of
      GMap j \<Rightarrow> Inr j | GNil \<Rightarrow> Inr [] | _ \<Rightarrow> Inl (PanicErr ''json: cannot unmarshal''))"

definition ExtractWebRequest :: "ext \<Rightarrow> http_request \<Rightarrow> event_data res" where
  "ExtractWebRequest X r =
    rbind (case hr_Body r of None \<Rightarrow> Inr [] | Some b \<Rightarrow> b) (\<lambda>body.
    rbind (ExtractWebRequestExceptBody r) (\<lambda>req.
    if body = [] then Inr req
    else let req1 = req\<lparr>ed_map := mput ''body'' (bytes_val body) (ed_map req), ed_body := Some body\<rparr> in
      if contains (header_Get (hr_Header r) ''content-type'') ''json''
      then rmap (\<lambda>j. req1\<lparr>ed_map := mput ''json'' (GMap j) (ed_map req1)\<rparr>) (json_object X body)
      else Inr req1))"

section \<open>Signatures\<close>

definition SupportedSignatureHeaders :: "string list" where
  "SupportedSignatureHeaders = [''X-Hub-Signature-256'', ''X-PagerDuty-Signature'', ''X-Slack-Signature'']"

definition ErrCalcHash :: gopanic where
  "ErrCalcHash = PanicErr ''unable to calculate the hash''"

definition ErrReplayAttack :: gopanic where
  "ErrReplayAttack = PanicErr ''replay attack detected''"

definition hex_value :: "char \<Rightarrow> nat option" where
  "hex_value c = (let n = of_char c :: nat in
     if 48 \<le> n \<and> n \<le> 57 then Some (n - 48) else if 97 \<le> n \<and> n \<le> 102 then Some (n - 87)
     else if 65 \<le> n \<and> n \<le> 70 then Some (n - 55) else None)"

text \<open>\<open>hex.DecodeString\<close>\<close>

fun hex_DecodeString :: "string \<Rightarrow> string option" where
  "hex_DecodeString [] = Some []"
| "hex_DecodeString [c] = None"
| "hex_DecodeString (a # b # cs) = (case (hex_value a, hex_value b, hex_DecodeString cs) of
      (Some h, Some l, Some bs) \<Rightarrow> Some (char_of (16 * h + l) # bs)
    | _ \<Rightarrow> None)"

text \<open>The replay check works on 64-bit integers.\<close>

definition replay_ok :: "64 word \<Rightarrow> 64 word \<Rightarrow> bool" where
  "replay_ok current requestedAt \<longleftrightarrow> \<not> (sint (current - requestedAt) > 300 \<or> sint (current + 2) < sint requestedAt)"

record webhook_env =
  we_ext :: ext
  we_now :: "64 word"
  we_mac :: "string \<Rightarrow> string \<Rightarrow> string"
  we_fuel :: nat

text \<open>What is signed before the body, and the hashes a header carries.\<close>

definition signed_prefix :: "webhook_env \<Rightarrow> string \<Rightarrow> event_data \<Rightarrow> string res" where
  "signed_prefix W header eventData =
    (if header = ''X-Slack-Signature'' then
       (let timestamp = header_Get (ed_Header eventData) ''X-Slack-Request-Timestamp'' in
        if timestamp = [] then Inl ErrCalcHash
        else if map_of (ed_map eventData) ''skip_replay_check'' \<noteq> None then Inr (''v0:'' @ timestamp @ '':'')
        else (case atoi timestamp of
            None \<Rightarrow> Inl (PanicErr (''strconv.ParseInt: parsing '' @ timestamp))
          | Some requestedAt \<Rightarrow>
              if replay_ok (we_now W) (word_of_int requestedAt) then Inr (''v0:'' @ timestamp @ '':'') else Inl ErrReplayAttack))
     else Inr [])"

definition presented_hashes :: "string \<Rightarrow> string \<Rightarrow> string list" where
  "presented_hashes header actual =
    (if header = ''X-Slack-Signature'' then [trim_prefix actual ''v0='']
     else if header = ''X-PagerDuty-Signature'' then map (\<lambda>sig. trim_prefix sig ''v1='') (split_on CHR '','' actual)
     else if header = ''X-Hub-Signature-256'' then [trim_prefix actual ''sha256='']
     else [])"

definition hash_matches :: "string \<Rightarrow> string \<Rightarrow> bool res" where
  "hash_matches expected hash = (case hex_DecodeString hash of
      None \<Rightarrow> Inl (PanicErr ''encoding/hex: invalid byte'') | Some bs \<Rightarrow> Inr (expected = bs))"

definition verifySignature :: "webhook_env \<Rightarrow> string \<Rightarrow> string \<Rightarrow> string \<Rightarrow> event_data \<Rightarrow> bool res" where
  "verifySignature W header actual secret eventData =
    rbind (signed_prefix W header eventData) (\<lambda>prefix.
    rbind (assert_type (ed_body eventData)) (\<lambda>body.
    any_loop (hash_matches (we_mac W secret (prefix @ body))) (presented_hashes header actual)))"

text \<open>The first supported header that the request has.\<close>

definition signature_header :: "headers \<Rightarrow> (string \<times> string) option" where
  "signature_header h = (case filter (\<lambda>supported. header_Get h supported \<noteq> []) SupportedSignatureHeaders of
      [] \<Rightarrow> None | supported # _ \<Rightarrow> Some (supported, header_Get h supported))"

definition secret_list :: "gval \<Rightarrow> gval list" where
  "secret_list v = (case v of GList ss \<Rightarrow> ss | _ \<Rightarrow> [v])"

definition system_verified :: "webhook_env \<Rightarrow> string \<Rightarrow> string \<Rightarrow> event_data \<Rightarrow> gmap \<Rightarrow> bool res" where
  "system_verified W header actual eventData sys = (case map_of sys ''signatureHeader'' of
      None \<Rightarrow> Inr False
    | Some expectedHeader \<Rightarrow> rbind (assert_type (as_str expectedHeader)) (\<lambda>expected.
        if to_lower expected \<noteq> to_lower header then Inr False
        else (case GetMapData (GMap sys) ''signatureSecret'' of
            None \<Rightarrow> Inr False
          | Some secretValue \<Rightarrow>
              any_loop (\<lambda>secret. rbind (assert_type (as_str secret)) (\<lambda>s. verifySignature W header actual s eventData)) (secret_list secretValue))))"

text \<open>The loop over the systems, with the names verified so far.\<close>

fun verified_systems :: "webhook_env \<Rightarrow> string \<Rightarrow> string \<Rightarrow> event_data \<Rightarrow> (string, gmap) gomap \<Rightarrow> string list res" where
  "verified_systems W header actual eventData [] = Inr []"
| "verified_systems W header actual eventData ((name, sys) # systems) =
     rbind (system_verified W header actual eventData sys) (\<lambda>b.
     rmap (\<lambda>names. if b then name # names else names) (verified_systems W header actual eventData systems))"

definition verifySystems :: "webhook_env \<Rightarrow> (string, gmap) gomap \<Rightarrow> event_data \<Rightarrow> event_data res" where
  "verifySystems W sysMap eventData = (case signature_header (ed_Header eventData) of
      None \<Rightarrow> Inr eventData
    | Some (header, actual) \<Rightarrow> rmap (\<lambda>names. eventData\<lparr>ed_map := mput ''verifiedSystem'' (GList (map GStr names)) (ed_map eventData)\<rparr>)
        (verified_systems W header actual eventData sysMap))"

section \<open>Options\<close>

text \<open>\<open>loadOptions\<close>: the hooks, the systems they belong to, and the address to listen on.\<close>

record Webhook =
  wh_hooks :: gmap
  wh_sysMap :: "(string, gmap) gomap"
  wh_Addr :: string
  wh_restarts :: nat

definition add_system :: "gval \<Rightarrow> Webhook act" where
  "add_system collapsed = lget (assert_type (as_map collapsed)) (\<lambda>rule w. case map_of rule ''sysName'' of
      None \<Rightarrow> (w, None)
    | Some sys \<Rightarrow> lget (assert_type (as_str sys)) (\<lambda>name.
        if name = [] then lskip
        else lget (assert_type (case map_of rule ''sysData'' of None \<Rightarrow> None | Some v \<Rightarrow> as_map v)) (\<lambda>sysData w.
          (w\<lparr>wh_sysMap := mput name sysData (wh_sysMap w)\<rparr>, None))) w)"

definition add_systems :: "gmap \<Rightarrow> Webhook act" where
  "add_systems = load_each (\<lambda>(_, hook). lget (assert_type (as_list hook)) (load_each add_system))"

text \<open>A new address stops the listener, which is then started again.\<close>

definition set_Addr :: "Driver \<Rightarrow> Webhook act" where
  "set_Addr d w = (let NewAddr = (case GetOptionStr d ''data.Addr'' of None \<Rightarrow> '':8080'' | Some a \<Rightarrow> a) in
     (w\<lparr>wh_Addr := NewAddr, wh_restarts := (if dv_State d = ''alive'' \<and> NewAddr \<noteq> wh_Addr w then Suc (wh_restarts w) else wh_restarts w)\<rparr>, None))"

definition webhook_loadOptions :: "Driver \<Rightarrow> Webhook act" where
  "webhook_loadOptions d w = (case GetOption d ''dynamicData.collapsedEvents'' of
      None \<Rightarrow> (w, Some (PanicStr ''no hooks defined for webhook driver''))
    | Some (GMap hooks) \<Rightarrow> lseq (add_systems hooks) (set_Addr d) (w\<lparr>wh_hooks := hooks, wh_sysMap := []\<rparr>)
    | Some _ \<Rightarrow> (w\<lparr>wh_hooks := []\<rparr>, Some (PanicStr ''hook data should be a map of event to conditions'')))"

section \<open>The handler\<close>

record http_response =
  rs_status :: nat
  rs_type :: string
  rs_body :: string

definition status_only :: "nat \<Rightarrow> http_response" where
  "status_only n = \<lparr>rs_status = n, rs_type = [], rs_body = []\<rparr>"

fun find_hook :: "webhook_env \<Rightarrow> gval \<Rightarrow> gval list \<Rightarrow> gmap option res" where
  "find_hook W event [] = Inr None"
| "find_hook W event (collapsed # cs) =
     rbind (CompareAll (we_ext W) event (case GetMapData collapsed ''match'' of None \<Rightarrow> GNil | Some c \<Rightarrow> c)) (\<lambda>b.
     if b then rmap Some (assert_type (as_map collapsed)) else find_hook W event cs)"

fun find_match :: "webhook_env \<Rightarrow> gval \<Rightarrow> gmap \<Rightarrow> gmap option res" where
  "find_match W event [] = Inr None"
| "find_match W event ((_, hook) # hooks) =
     rbind (assert_type (as_list hook)) (\<lambda>cs. rbind (find_hook W event cs) (\<lambda>m.
     if m \<noteq> None then Inr m else find_match W event hooks))"

definition writeCustomizedResponse :: "webhook_env \<Rightarrow> gmap \<Rightarrow> string \<Rightarrow> gval \<Rightarrow> http_response res" where
  "writeCustomizedResponse W matched tpl event =
    rbind (InterpolateStr (we_ext W) (we_fuel W) tpl (GMap [(''event'', event)])) (\<lambda>resp.
    let ctype = (case GetMapDataStr (GMap matched) ''parameters.response_content_type'' of None \<Rightarrow> [] | Some c \<Rightarrow> c) in
    Inr \<lparr>rs_status = 200, rs_type = (if ctype = [] then ''application/text'' else ctype), rs_body = resp\<rparr>)"

definition matched_response :: "webhook_env \<Rightarrow> string \<Rightarrow> gmap \<Rightarrow> gval \<Rightarrow> http_response res" where
  "matched_response W uuid matched event = (case GetMapDataStr (GMap matched) ''parameters.response_payload'' of
      Some (c # cs) \<Rightarrow> writeCustomizedResponse W matched (c # cs) event
    | _ \<Rightarrow> Inr (if GetMapDataStr event ''form.accept_uuid.0'' \<noteq> None
        then \<lparr>rs_status = 200, rs_type = ''application/json'', rs_body = ''{'' @ [CHR 0x22] @ ''eventID'' @ [CHR 0x22] @ '': '' @ [CHR 0x22] @ uuid @ [CHR 0x22] @ ''}''\<rparr>
        else status_only 200))"

definition event_payload :: "gval \<Rightarrow> gmap" where
  "event_payload event = [(''events'', GList [GStr ''webhook.'']), (''data'', event)]"

text \<open>The handler without the deferred function: the answer or a panic, and the driver, which may have sent an event by then.\<close>

definition handle_event :: "webhook_env \<Rightarrow> Webhook \<Rightarrow> string \<Rightarrow> event_data \<Rightarrow> Driver \<Rightarrow> Driver \<times> http_response res" where
  "handle_event W w uuid eventData d =
    (if map_of (ed_map eventData) ''url'' = Some (GStr ''/hz/alive'') then (d, Inr (status_only 200))
     else case verifySystems W (wh_sysMap w) eventData of
       Inl e \<Rightarrow> (d, Inl e)
     | Inr verified \<Rightarrow> (let event = GMap (ed_map verified) in
         case find_match W event (wh_hooks w) of
           Inl e \<Rightarrow> (d, Inl e)
         | Inr None \<Rightarrow> (d, Inr \<lparr>rs_status = 404, rs_type = ''text/plain; charset=utf-8'', rs_body = ''404 page not found'' @ [newline]\<rparr>)
         | Inr (Some matched) \<Rightarrow> (EmitEvent uuid (event_payload event) d, matched_response W uuid matched event)))"

text \<open>No answer means that the process has ended.\<close>

definition hookHandler :: "webhook_env \<Rightarrow> Webhook \<Rightarrow> string \<Rightarrow> http_request \<Rightarrow> Driver \<Rightarrow> Driver \<times> http_response option" where
  "hookHandler W w uuid r d = (case ExtractWebRequest (we_ext W) r of
      Inl e \<Rightarrow> (d, Some \<lparr>rs_status = 400, rs_type = [], rs_body = ''Bad Request'' @ [newline]\<rparr>)
    | Inr eventData \<Rightarrow> (case handle_event W w uuid eventData d of
        (d', Inr response) \<Rightarrow> (d', Some response)
      | (d', Inl e) \<Rightarrow> (d', if fatal e then None else Some \<lparr>rs_status = 500, rs_type = [], rs_body = ''Internal server error'' @ [newline]\<rparr>)))"

section \<open>Who signed a request\<close>

lemma any_loop_iff: "any_loop f xs = Inr b \<Longrightarrow> b \<longleftrightarrow> (\<exists>x \<in> set xs. f x = Inr True)"
  by (induction xs) (auto simp: rbind_Inr_conv split: if_splits)

lemma any_loop_False: "any_loop f xs = Inr False \<Longrightarrow> x \<in> set xs \<Longrightarrow> f x = Inr False"
  by (induction xs) (auto simp: rbind_Inr_conv split: if_splits)

definition signed_with :: "webhook_env \<Rightarrow> string \<Rightarrow> string \<Rightarrow> string \<Rightarrow> event_data \<Rightarrow> bool" where
  "signed_with W header actual secret ev \<longleftrightarrow> (\<exists>prefix body hash. signed_prefix W header ev = Inr prefix \<and> ed_body ev = Some body \<and>
     hash \<in> set (presented_hashes header actual) \<and> hex_DecodeString hash = Some (we_mac W secret (prefix @ body)))"

definition signed_by :: "webhook_env \<Rightarrow> event_data \<Rightarrow> gmap \<Rightarrow> bool" where
  "signed_by W ev sys \<longleftrightarrow> (\<exists>header actual expected secretValue secret. signature_header (ed_Header ev) = Some (header, actual) \<and>
     map_of sys ''signatureHeader'' = Some (GStr expected) \<and> to_lower expected = to_lower header \<and>
     GetMapData (GMap sys) ''signatureSecret'' = Some secretValue \<and> GStr secret \<in> set (secret_list secretValue) \<and>
     signed_with W header actual secret ev)"

lemma verifySignature_iff:
  assumes "verifySignature W header actual secret ev = Inr b"
  shows "b \<longleftrightarrow> signed_with W header actual secret ev"
proof -
  obtain prefix body where p: "signed_prefix W header ev = Inr prefix" "ed_body ev = Some body"
    and loop: "any_loop (hash_matches (we_mac W secret (prefix @ body))) (presented_hashes header actual) = Inr b"
    using assms by (auto simp: verifySignature_def rbind_Inr_conv assert_type_def split: option.splits)
  have "hash_matches expected hash = Inr True \<longleftrightarrow> hex_DecodeString hash = Some expected" for expected hash
    by (auto simp: hash_matches_def split: option.split)
  with any_loop_iff [OF loop] p show ?thesis by (auto simp: signed_with_def)
qed

lemma system_verified_iff:
  assumes "system_verified W header actual ev sys = Inr b" and "signature_header (ed_Header ev) = Some (header, actual)"
  shows "b \<longleftrightarrow> signed_by W ev sys"
proof (cases "map_of sys ''signatureHeader''")
  case (Some v)
  then obtain expected where v: "v = GStr expected" using assms(1) by (cases v) (auto simp: system_verified_def)
  show ?thesis
  proof (cases "to_lower expected = to_lower header")
    case True
    show ?thesis
    proof (cases "GetMapData (GMap sys) ''signatureSecret''")
      case (Some sv)
      let ?f = "\<lambda>secret. rbind (assert_type (as_str secret)) (\<lambda>s. verifySignature W header actual s ev)"
      have loop: "any_loop ?f (secret_list sv) = Inr b"
        using assms(1) True v Some \<open>map_of sys _ = _\<close> by (simp add: system_verified_def)
      have "b \<longleftrightarrow> (\<exists>s. GStr s \<in> set (secret_list sv) \<and> signed_with W header actual s ev)"
      proof (cases b)
        case True
        then obtain secret where "secret \<in> set (secret_list sv)" "?f secret = Inr True" using any_loop_iff [OF loop] by auto
        moreover from \<open>?f secret = Inr True\<close> obtain s where "secret = GStr s" "verifySignature W header actual s ev = Inr True" by (cases secret) auto
        ultimately show ?thesis using verifySignature_iff \<open>b\<close> by blast
      next
        case False
        then have none: "any_loop ?f (secret_list sv) = Inr False" using loop by simp
        have "\<not> signed_with W header actual s ev" if "GStr s \<in> set (secret_list sv)" for s
          using any_loop_False [OF none that] verifySignature_iff [of W header actual s ev False] by simp
        with False show ?thesis by blast
      qed
      then show ?thesis using assms(2) True v Some \<open>map_of sys _ = _\<close> by (auto simp: signed_by_def)
    qed (use assms True v Some in \<open>auto simp: system_verified_def signed_by_def\<close>)
  qed (use assms v Some in \<open>auto simp: system_verified_def signed_by_def\<close>)
qed (use assms in \<open>auto simp: system_verified_def signed_by_def\<close>)

lemma verified_systems_iff:
  assumes "verified_systems W header actual ev systems = Inr names" and "signature_header (ed_Header ev) = Some (header, actual)"
  shows "name \<in> set names \<longleftrightarrow> (\<exists>sys. (name, sys) \<in> set systems \<and> signed_by W ev sys)"
  using assms(1)
proof (induction systems arbitrary: names)
  case (Cons ns systems)
  obtain n sys where ns: "ns = (n, sys)" by (cases ns)
  obtain b names' where b: "system_verified W header actual ev sys = Inr b" and rest: "verified_systems W header actual ev systems = Inr names'"
    and names: "names = (if b then n # names' else names')"
    using Cons.prems ns by (auto simp: rbind_Inr_conv rmap_def split: sum.splits)
  show ?case using Cons.IH [OF rest] system_verified_iff [OF b assms(2)] names ns by auto
qed simp

lemma extracted_keys: "ExtractWebRequest X r = Inr ev \<Longrightarrow> map_of (ed_map ev) ''verifiedSystem'' = None \<and> map_of (ed_map ev) ''skip_replay_check'' = None"
  by (auto simp: ExtractWebRequest_def ExtractWebRequestExceptBody_def rbind_Inr_conv rmap_def Let_def split: if_splits sum.splits)

text \<open>The event that is sent for a request, if any.\<close>

definition webhook_message :: "string \<Rightarrow> gmap \<Rightarrow> Message" where
  "webhook_message uuid data = zero_message\<lparr>Channel := ''eventbus'', Subject := ''message'', Payload := PVal (GMap (event_payload (GMap data))),
     Labels := Some [(''eventID'', uuid)]\<rparr>"

lemma handle_event_sent:
  assumes "handle_event W w uuid ev d = (d', res)" and "dv_sent d' \<noteq> dv_sent d"
  shows "\<exists>ev'. verifySystems W (wh_sysMap w) ev = Inr ev' \<and> dv_sent d' = dv_sent d @ [webhook_message uuid (ed_map ev')]"
  using assms
  by (auto simp: handle_event_def Let_def EmitEvent_def Driver_SendMessage_def webhook_message_def split: if_splits sum.splits option.splits)

text \<open>
  C21: An event of the webhook driver names exactly the systems that signed the request: a system is in
  \<open>verifiedSystem\<close> if and only if the request has a signature header, it is the header the system asks
  for, and one of the hashes in it is the HMAC of the signed content under a secret of that system. A
  request can not bring the entry itself, and without a signature header there is none.
\<close>

theorem webhook_names_signers:
  assumes "ExtractWebRequest (we_ext W) r = Inr ev" and "hookHandler W w uuid r d = (d', res)" and "dv_sent d' \<noteq> dv_sent d"
  shows "\<exists>data. dv_sent d' = dv_sent d @ [webhook_message uuid data] \<and>
    (case map_of data ''verifiedSystem'' of
       None \<Rightarrow> signature_header (hr_Header r) = None
     | Some v \<Rightarrow> \<exists>names. v = GList (map GStr names) \<and>
         (\<forall>name. name \<in> set names \<longleftrightarrow> (\<exists>sys. (name, sys) \<in> set (wh_sysMap w) \<and> signed_by W ev sys)))"
proof -
  have hdr: "ed_Header ev = hr_Header r"
    using assms(1) by (auto simp: ExtractWebRequest_def ExtractWebRequestExceptBody_def rbind_Inr_conv rmap_def Let_def split: if_splits sum.splits)
  obtain out where out: "handle_event W w uuid ev d = (d', out)"
    using assms(1,2) by (cases "handle_event W w uuid ev d") (auto simp: hookHandler_def split: sum.splits)
  obtain ev' where ver: "verifySystems W (wh_sysMap w) ev = Inr ev'" and sent: "dv_sent d' = dv_sent d @ [webhook_message uuid (ed_map ev')]"
    using handle_event_sent [OF out assms(3)] by blast
  show ?thesis
  proof (cases "signature_header (hr_Header r)")
    case None
    then have "ev' = ev" using ver hdr by (simp add: verifySystems_def)
    then show ?thesis using sent extracted_keys [OF assms(1)] None by (intro exI [of _ "ed_map ev'"]) simp
  next
    case (Some ha)
    obtain header actual where ha: "ha = (header, actual)" by (cases ha)
    obtain names where names: "verified_systems W header actual ev (wh_sysMap w) = Inr names"
      and ev': "ev' = ev\<lparr>ed_map := mput ''verifiedSystem'' (GList (map GStr names)) (ed_map ev)\<rparr>"
      using ver Some ha hdr by (auto simp: verifySystems_def rmap_def rbind_Inr_conv)
    have "name \<in> set names \<longleftrightarrow> (\<exists>sys. (name, sys) \<in> set (wh_sysMap w) \<and> signed_by W ev sys)" for name
      using verified_systems_iff [OF names] Some ha hdr by simp
    then show ?thesis using sent ev' by (intro exI [of _ "ed_map ev'"]) auto
  qed
qed

section \<open>Replayed requests\<close>

lemma sint_of_int_small: "- (2 ^ 63) \<le> t \<Longrightarrow> t < 2 ^ 63 \<Longrightarrow> sint (word_of_int t :: 64 word) = t"
  by (subst int_word_sint) simp

lemma sint_diff_small: "- (2 ^ 63) \<le> sint a - sint b \<Longrightarrow> sint a - sint b < 2 ^ 63 \<Longrightarrow> sint (a - b) = sint a - sint b" for a b :: "64 word"
  by (simp add: sint_word_ariths signed_take_bit_int_eq_self)

lemma sint_plus_small: "sint a + 2 < 2 ^ 63 \<Longrightarrow> 0 \<le> sint a \<Longrightarrow> sint (a + 2) = sint a + 2" for a :: "64 word"
  by (simp add: sint_word_ariths signed_take_bit_int_eq_self)

lemma atoi_bounds: "atoi s = Some t \<Longrightarrow> - (2 ^ 63) \<le> t \<and> t < 2 ^ 63"
  by (cases s) (auto simp: atoi_def check_int64_def in_int64_def bind_eq_Some_conv split: if_splits)

text \<open>
  A request with a Slack signature is only accepted while its time stamp is at most five minutes old
  and at most two seconds ahead, for time stamps that are not negative.
\<close>

theorem slack_replay_window:
  assumes "ExtractWebRequest X r = Inr ev" and "signed_prefix W ''X-Slack-Signature'' ev = Inr prefix"
    and "atoi (header_Get (ed_Header ev) ''X-Slack-Request-Timestamp'') = Some t" and "0 \<le> t"
    and "0 \<le> sint (we_now W)" and "sint (we_now W) < 2 ^ 62"
  shows "sint (we_now W) - 300 \<le> t \<and> t \<le> sint (we_now W) + 2"
proof -
  have t: "t < 2 ^ 63" using atoi_bounds [OF assms(3)] by simp
  have "replay_ok (we_now W) (word_of_int t)"
    using assms(2,3) extracted_keys [OF assms(1)] by (auto simp: signed_prefix_def Let_def split: if_splits)
  moreover have "sint (word_of_int t :: 64 word) = t"
    using assms(4) t by (simp add: sint_of_int_small)
  moreover have "sint (we_now W - word_of_int t) = sint (we_now W) - sint (word_of_int t :: 64 word)"
    using assms(4-6) t calculation(2) by (simp add: sint_diff_small)
  moreover have "sint (we_now W + 2) = sint (we_now W) + 2"
    using assms(5,6) by (simp add: sint_plus_small)
  ultimately show ?thesis by (simp add: replay_ok_def)
qed

text \<open>The difference wraps around: a time stamp from before the smallest difference counts as fresh.\<close>

theorem replay_check_wraps:
  "replay_ok 1700000000 (word_of_int (- (2 ^ 63)))"
  by (simp add: replay_ok_def)

section \<open>Which requests become events\<close>

definition match_of :: "gmap \<Rightarrow> gval" where
  "match_of collapsed = (case GetMapData (GMap collapsed) ''match'' of None \<Rightarrow> GNil | Some c \<Rightarrow> c)"

text \<open>Hooks of the right shape whose conditions can be evaluated.\<close>

definition hooks_ok :: "webhook_env \<Rightarrow> gval \<Rightarrow> gmap \<Rightarrow> bool" where
  "hooks_ok W event hooks \<longleftrightarrow> (\<forall>(k, hook) \<in> set hooks. \<exists>cs. hook = GList (map GMap cs) \<and> (\<forall>c \<in> set cs. ok (CompareAll (we_ext W) event (match_of c))))"

definition some_match :: "webhook_env \<Rightarrow> gval \<Rightarrow> gmap \<Rightarrow> bool" where
  "some_match W event hooks \<longleftrightarrow> (\<exists>k cs c. (k, GList (map GMap cs)) \<in> set hooks \<and> c \<in> set cs \<and> CompareAll (we_ext W) event (match_of c) = Inr True)"

lemma find_hook_total:
  assumes "\<forall>c \<in> set cs. ok (CompareAll (we_ext W) event (match_of c))"
  shows "\<exists>m. find_hook W event (map GMap cs) = Inr m \<and> (m \<noteq> None \<longleftrightarrow> (\<exists>c \<in> set cs. CompareAll (we_ext W) event (match_of c) = Inr True))"
  using assms
proof (induction cs)
  case (Cons c cs)
  obtain b where b: "CompareAll (we_ext W) event (match_of c) = Inr b" using Cons.prems by (auto simp: ok_conv)
  have run: "find_hook W event (map GMap (c # cs)) = (if b then Inr (Some c) else find_hook W event (map GMap cs))"
    using b by (simp add: match_of_def)
  show ?case
  proof (cases b)
    case False
    then show ?thesis using Cons.IH Cons.prems run b by auto
  qed (use run b in auto)
qed simp

lemma find_match_total:
  assumes "hooks_ok W event hooks"
  shows "\<exists>m. find_match W event hooks = Inr m \<and> (m \<noteq> None \<longleftrightarrow> some_match W event hooks)"
  using assms
proof (induction hooks)
  case (Cons h hooks)
  obtain k hook where h: "h = (k, hook)" by (cases h)
  obtain cs where cs: "hook = GList (map GMap cs)" "\<forall>c \<in> set cs. ok (CompareAll (we_ext W) event (match_of c))"
    using Cons.prems h by (auto simp: hooks_ok_def)
  obtain m1 where m1: "find_hook W event (map GMap cs) = Inr m1" "m1 \<noteq> None \<longleftrightarrow> (\<exists>c \<in> set cs. CompareAll (we_ext W) event (match_of c) = Inr True)"
    using find_hook_total [OF cs(2)] by blast
  have "hooks_ok W event hooks" using Cons.prems by (simp add: hooks_ok_def)
  then obtain m2 where m2: "find_match W event hooks = Inr m2" "m2 \<noteq> None \<longleftrightarrow> some_match W event hooks" using Cons.IH by blast
  have some: "some_match W event (h # hooks) \<longleftrightarrow> (\<exists>c \<in> set cs. CompareAll (we_ext W) event (match_of c) = Inr True) \<or> some_match W event hooks"
    using inj_map_eq_map [of GMap] by (auto simp: some_match_def h cs(1) inj_def)
  have "find_match W event (h # hooks) = (if m1 \<noteq> None then Inr m1 else Inr m2)"
    using m1(1) m2(1) by (simp add: h cs(1))
  then show ?case using m1(2) m2(2) some by auto
qed (simp add: some_match_def)

text \<open>
  A request becomes an event exactly when the condition of some hook holds of its data; then one
  event with this data is sent and the answer is 200, or 500 when the template of the answer fails. A
  request that matches no hook is answered with 404 and nothing is sent.
\<close>

theorem webhook_events:
  assumes "ExtractWebRequest (we_ext W) r = Inr ev" and "hr_Path r \<noteq> ''/hz/alive''" and "verifySystems W (wh_sysMap w) ev = Inr ev'"
    and "hooks_ok W (GMap (ed_map ev')) (wh_hooks w)" and "hookHandler W w uuid r d = (d', Some response)"
  shows "if some_match W (GMap (ed_map ev')) (wh_hooks w)
    then dv_sent d' = dv_sent d @ [webhook_message uuid (ed_map ev')] \<and> rs_status response \<in> {200, 500}
    else d' = d \<and> rs_status response = 404"
proof -
  have url: "map_of (ed_map ev) ''url'' = Some (GStr (hr_Path r))"
    using assms(1) by (auto simp: ExtractWebRequest_def ExtractWebRequestExceptBody_def rbind_Inr_conv rmap_def Let_def split: if_splits sum.splits)
  obtain m where m: "find_match W (GMap (ed_map ev')) (wh_hooks w) = Inr m" "m \<noteq> None \<longleftrightarrow> some_match W (GMap (ed_map ev')) (wh_hooks w)"
    using find_match_total [OF assms(4)] by blast
  show ?thesis
  proof (cases m)
    case None
    then show ?thesis using m url assms(1,2,3,5) by (auto simp: hookHandler_def handle_event_def)
  next
    case (Some matched)
    have "rs_status x = 200" if "matched_response W uuid matched event = Inr x" for x event
      using that by (auto simp: matched_response_def writeCustomizedResponse_def status_only_def rbind_Inr_conv Let_def split: option.splits list.splits if_splits)
    moreover have "hookHandler W w uuid r d = (EmitEvent uuid (event_payload (GMap (ed_map ev'))) d,
        case matched_response W uuid matched (GMap (ed_map ev')) of Inr x \<Rightarrow> Some x
        | Inl e \<Rightarrow> if fatal e then None else Some \<lparr>rs_status = 500, rs_type = [], rs_body = ''Internal server error'' @ [newline]\<rparr>)"
      using m(1) Some url assms(1-3) by (simp add: hookHandler_def handle_event_def split: sum.split)
    ultimately show ?thesis using m Some assms(5)
      by (auto simp: EmitEvent_def Driver_SendMessage_def webhook_message_def split: sum.splits if_splits)
  qed
qed

section \<open>Witnesses\<close>

text \<open>A system that signs with the secret \<open>k\<close>; the MAC of the example is the secret itself.\<close>

definition sample_webhook_env :: webhook_env where
  "sample_webhook_env = \<lparr>we_ext = no_ext, we_now = 1700000000, we_mac = (\<lambda>secret _. secret), we_fuel = 0\<rparr>"

definition sample_request_ok :: http_request where
  "sample_request_ok = \<lparr>hr_Path = ''/hook'', hr_Method = ''POST'', hr_Form = Inr [], hr_Header = [(''X-Hub-Signature-256'', [''sha256=6b''])],
     hr_Host = ''h'', hr_RemoteAddr = ''a'', hr_Body = Some (Inr ''b'')\<rparr>"

definition sample_webhook :: Webhook where
  "sample_webhook = \<lparr>wh_hooks = [(''e'', GList (map GMap [[(''match'', GMap [(''url'', GStr ''/hook''), (''verifiedSystem'', GStr ''git'')])]]))],
     wh_sysMap = [(''git'', [(''signatureHeader'', GStr ''x-hub-signature-256''), (''signatureSecret'', GStr ''k'')])], wh_Addr = '':8080'', wh_restarts = 0\<rparr>"

definition sample_webhook_driver :: Driver where
  "sample_webhook_driver = NewDriverProcess ''receiver'' ''webhook''"




definition sample_web_event :: event_data where
  "sample_web_event = \<lparr>ed_map = [(''url'', GStr ''/hook''), (''method'', GStr ''POST''), (''form'', GMap []),
     (''headers'', GMap [(''X-Hub-Signature-256'', GList [GStr ''sha256=6b''])]), (''host'', GStr ''h''), (''remoteAddr'', GStr ''a''),
     (''body'', GList [GInt 98])], ed_Header = [(''X-Hub-Signature-256'', [''sha256=6b''])], ed_body = Some ''b''\<rparr>"

definition sample_verified :: event_data where
  "sample_verified = sample_web_event\<lparr>ed_map := ed_map sample_web_event @ [(''verifiedSystem'', GList [GStr ''git''])]\<rparr>"

lemma sample_webhook_facts:
  "ExtractWebRequest (we_ext sample_webhook_env) sample_request_ok = Inr sample_web_event"
  "verifySystems sample_webhook_env (wh_sysMap sample_webhook) sample_web_event = Inr sample_verified"
  "CompareAll (we_ext sample_webhook_env) (GMap (ed_map sample_verified)) (match_of [(''match'', GMap [(''url'', GStr ''/hook''), (''verifiedSystem'', GStr ''git'')])]) = Inr True"
  "hookHandler sample_webhook_env sample_webhook ''u'' sample_request_ok sample_webhook_driver =
     (EmitEvent ''u'' (event_payload (GMap (ed_map sample_verified))) sample_webhook_driver, Some (status_only 200))"
  by code_simp+

theorem webhook_names_signers_witness:
  "\<exists>sys. (''git'', sys) \<in> set (wh_sysMap sample_webhook) \<and> signed_by sample_webhook_env sample_web_event sys"
proof -
  let ?d' = "EmitEvent ''u'' (event_payload (GMap (ed_map sample_verified))) sample_webhook_driver"
  have sent: "dv_sent ?d' = dv_sent sample_webhook_driver @ [webhook_message ''u'' (ed_map sample_verified)]"
    by (simp add: EmitEvent_def Driver_SendMessage_def webhook_message_def)
  from webhook_names_signers [OF sample_webhook_facts(1,4)] sent
  obtain data where data: "dv_sent ?d' = dv_sent sample_webhook_driver @ [webhook_message ''u'' data]"
    and names: "case map_of data ''verifiedSystem'' of None \<Rightarrow> signature_header (hr_Header sample_request_ok) = None
      | Some v \<Rightarrow> \<exists>names. v = GList (map GStr names) \<and> (\<forall>name. name \<in> set names \<longleftrightarrow>
          (\<exists>sys. (name, sys) \<in> set (wh_sysMap sample_webhook) \<and> signed_by sample_webhook_env sample_web_event sys))"
    by (auto simp del: split_paired_Ex)
  have "data = ed_map sample_verified" using data sent by (simp add: webhook_message_def event_payload_def zero_message_def)
  then have "map_of data ''verifiedSystem'' = Some (GList [GStr ''git''])" by (simp add: sample_verified_def sample_web_event_def)
  with names have "\<forall>name. (name = ''git'') = (\<exists>sys. (name, sys) \<in> set (wh_sysMap sample_webhook) \<and> signed_by sample_webhook_env sample_web_event sys)"
    by auto
  then show ?thesis by blast
qed

theorem webhook_events_witness:
  "dv_sent (fst (hookHandler sample_webhook_env sample_webhook ''u'' sample_request_ok sample_webhook_driver)) = [webhook_message ''u'' (ed_map sample_verified)]"
proof -
  have path: "hr_Path sample_request_ok \<noteq> ''/hz/alive''" by (simp add: sample_request_ok_def)
  have ok: "hooks_ok sample_webhook_env (GMap (ed_map sample_verified)) (wh_hooks sample_webhook)"
    unfolding hooks_ok_def sample_webhook_def using sample_webhook_facts(3)
    by (auto intro!: exI [of _ "[[(''match'', GMap [(''url'', GStr ''/hook''), (''verifiedSystem'', GStr ''git'')])]]"])
  have "some_match sample_webhook_env (GMap (ed_map sample_verified)) (wh_hooks sample_webhook)"
    unfolding some_match_def sample_webhook_def using sample_webhook_facts(3)
    by (intro exI [of _ "''e''"] exI [of _ "[[(''match'', GMap [(''url'', GStr ''/hook''), (''verifiedSystem'', GStr ''git'')])]]"]) auto
  with webhook_events [OF sample_webhook_facts(1) path sample_webhook_facts(2) ok sample_webhook_facts(4)] sample_webhook_facts(4)
  show ?thesis by (simp add: sample_webhook_driver_def NewDriverProcess_def)
qed

definition sample_slack :: event_data where
  "sample_slack = sample_web_event\<lparr>ed_Header := [(''X-Slack-Request-Timestamp'', [''350''])]\<rparr>"

theorem slack_replay_window_witness:
  "signed_prefix (sample_webhook_env\<lparr>we_now := 500\<rparr>) ''X-Slack-Signature''
     (sample_slack\<lparr>ed_map := mput ''headers'' (headers_val [(''X-Slack-Request-Timestamp'', [''350''])]) (ed_map sample_slack)\<rparr>) = Inr ''v0:350:'' \<and>
   (500 :: int) - 300 \<le> 350 \<and> (350 :: int) \<le> 500 + 2"
proof -
  let ?r = "sample_request_ok\<lparr>hr_Header := [(''X-Slack-Request-Timestamp'', [''350''])]\<rparr>"
  have ex: "ExtractWebRequest no_ext ?r = Inr (sample_slack\<lparr>ed_map := mput ''headers'' (headers_val (hr_Header ?r)) (ed_map sample_slack)\<rparr>)" by code_simp
  have p: "signed_prefix (sample_webhook_env\<lparr>we_now := 500\<rparr>) ''X-Slack-Signature'' (sample_slack\<lparr>ed_map := mput ''headers'' (headers_val (hr_Header ?r)) (ed_map sample_slack)\<rparr>) =
      Inr ''v0:350:''" by code_simp
  have t: "atoi (header_Get (ed_Header (sample_slack\<lparr>ed_map := mput ''headers'' (headers_val (hr_Header ?r)) (ed_map sample_slack)\<rparr>)) ''X-Slack-Request-Timestamp'') = Some 350"
    by code_simp
  from slack_replay_window [OF ex p t] p show ?thesis by (simp add: sample_webhook_env_def)
qed

end
