(* ===== verification/AuthSimple.thy ===== *)
theory AuthSimple
  imports DriverProcess Api
begin

text \<open>
  The driver that authenticates web requests, \<open>drivers/cmd/auth-simple/main.go\<close>, and what it means for the
  API service that asks it (\<open>Api\<close>).

  Comparing a password with its bcrypt hash is given. A handler takes the driver and returns it with the
  subject, an error of one scheme, or a panic.
\<close>

section \<open>Schemes\<close>

datatype auth_error = ErrSkipped | ErrInvalidBearerToken | ErrInvalidBasicAuth | ErrInvalidBasicCreds

fun auth_error_text :: "auth_error \<Rightarrow> string" where
  "auth_error_text ErrSkipped = ''skipped''"
| "auth_error_text ErrInvalidBearerToken = ''the bearer token is invalid''"
| "auth_error_text ErrInvalidBasicAuth = ''the basic auth header is invalid''"
| "auth_error_text ErrInvalidBasicCreds = ''the basic auth credential is invalid''"

record auth_env =
  ae_ext :: ext
  ae_callRaw :: "string \<Rightarrow> string \<Rightarrow> string \<Rightarrow> string"
  ae_bcrypt :: "string \<Rightarrow> string \<Rightarrow> bool"

type_synonym auth_result = "auth_error + string"

text \<open>The header of a scheme, without its prefix.\<close>

definition authorization :: "gval \<Rightarrow> string option" where
  "authorization req = (case GetMapDataStr req ''headers.Authorization.0'' of
      Some h \<Rightarrow> Some h | None \<Rightarrow> GetMapDataStr req ''headers.authorization.0'')"

definition scheme_header :: "string \<Rightarrow> gval \<Rightarrow> string option" where
  "scheme_header prefix req = (case authorization req of
      None \<Rightarrow> None
    | Some authHash \<Rightarrow> if length authHash < length prefix \<or> to_lower (take (length prefix) authHash) \<noteq> prefix then None else Some authHash)"

text \<open>The options are decrypted once.\<close>

definition decrypt_options :: "auth_env \<Rightarrow> Driver act" where
  "decrypt_options A d =
    (if GetOption d ''decrypted'' \<noteq> None then (d, None)
     else lget (DecryptAll (ae_ext A) (ae_callRaw A) (dv_Options d)) (\<lambda>options d.
       case options of
         GMap m \<Rightarrow> (d\<lparr>dv_Options := GMap (mput ''decrypted'' (GBool True) m)\<rparr>, None)
       | v \<Rightarrow> (d\<lparr>dv_Options := v\<rparr>, Some TypeAssertion)) d)"

definition subject_of :: "gmap \<Rightarrow> string res" where
  "subject_of entry = (case map_of entry ''subject'' of
      None \<Rightarrow> Inr [] | Some GNil \<Rightarrow> Inr [] | Some v \<Rightarrow> assert_type (as_str v))"

definition field_str :: "gmap \<Rightarrow> string \<Rightarrow> string res" where
  "field_str entry key = assert_type (case map_of entry key of None \<Rightarrow> None | Some v \<Rightarrow> as_str v)"

fun find_token :: "auth_env \<Rightarrow> string \<Rightarrow> gval list \<Rightarrow> auth_result res" where
  "find_token A token [] = Inr (Inl ErrInvalidBearerToken)"
| "find_token A token (t # ts) =
     rbind (assert_type (as_map t)) (\<lambda>kt.
     rbind (field_str kt ''token'') (\<lambda>hash.
     if ae_bcrypt A hash token then rmap Inr (subject_of kt) else find_token A token ts))"

fun find_user :: "auth_env \<Rightarrow> string \<Rightarrow> string \<Rightarrow> gval list \<Rightarrow> auth_result res" where
  "find_user A user pass [] = Inr (Inl ErrInvalidBasicCreds)"
| "find_user A user pass (k # ks) =
     rbind (assert_type (as_map k)) (\<lambda>ku.
     rbind (field_str ku ''name'') (\<lambda>name.
     if name = user then
       rbind (field_str ku ''pass'') (\<lambda>hash.
       if ae_bcrypt A hash pass then rmap Inr (subject_of ku) else find_user A user pass ks)
     else find_user A user pass ks))"

definition known :: "Driver \<Rightarrow> string \<Rightarrow> gval list res" where
  "known d path = (case GetMapData (dv_Options d) path of None \<Rightarrow> Inr [] | Some v \<Rightarrow> assert_type (as_list v))"

definition tokenAuth :: "auth_env \<Rightarrow> gval \<Rightarrow> Driver \<Rightarrow> Driver \<times> auth_result res" where
  "tokenAuth A req d = (case scheme_header ''bearer '' req of
      None \<Rightarrow> (d, Inr (Inl ErrSkipped))
    | Some authHash \<Rightarrow> (case decrypt_options A d of
        (d', Some e) \<Rightarrow> (d', Inl e)
      | (d', None) \<Rightarrow> (d', rbind (known d' ''data.tokens'') (find_token A (drop 7 authHash)))))"

text \<open>\<open>Request.BasicAuth\<close>: base64, then the user up to the first colon.\<close>

definition BasicAuth :: "auth_env \<Rightarrow> string \<Rightarrow> (string \<times> string) option" where
  "BasicAuth A authHash = (case ext_base64 (ae_ext A) (drop 6 authHash) of
      None \<Rightarrow> None
    | Some cs \<Rightarrow> (case dropWhile (\<lambda>c. c \<noteq> CHR '':'') cs of [] \<Rightarrow> None | _ # pass \<Rightarrow> Some (takeWhile (\<lambda>c. c \<noteq> CHR '':'') cs, pass)))"

definition basicAuth :: "auth_env \<Rightarrow> gval \<Rightarrow> Driver \<Rightarrow> Driver \<times> auth_result res" where
  "basicAuth A req d = (case scheme_header ''basic '' req of
      None \<Rightarrow> (d, Inr (Inl ErrSkipped))
    | Some authHash \<Rightarrow> (case BasicAuth A authHash of
        None \<Rightarrow> (d, Inr (Inl ErrInvalidBasicAuth))
      | Some (user, pass) \<Rightarrow> (case decrypt_options A d of
          (d', Some e) \<Rightarrow> (d', Inl e)
        | (d', None) \<Rightarrow> (d', rbind (known d' ''data.users'') (find_user A user pass)))))"

section \<open>The handler\<close>

definition ErrUnsupportedScheme :: gopanic where
  "ErrUnsupportedScheme = PanicErr ''the auth scheme is not supported''"

definition run_scheme :: "auth_env \<Rightarrow> gval \<Rightarrow> gval \<Rightarrow> Driver \<Rightarrow> Driver \<times> auth_result res" where
  "run_scheme A req scheme d = (case scheme of
      GStr s \<Rightarrow> if s = ''basic'' then basicAuth A req d else if s = ''token'' then tokenAuth A req d else (d, Inl ErrUnsupportedScheme)
    | _ \<Rightarrow> (d, Inl TypeAssertion))"

text \<open>A scheme that is skipped hands on to the next one; the last error is the panic at the end, which is nil without any scheme.\<close>

fun try_schemes :: "auth_env \<Rightarrow> gval \<Rightarrow> auth_error option \<Rightarrow> gval list \<Rightarrow> Driver \<Rightarrow> Driver \<times> string res" where
  "try_schemes A req err [] d = (d, Inl (PanicErr (case err of None \<Rightarrow> ''panic called with nil argument'' | Some e \<Rightarrow> auth_error_text e)))"
| "try_schemes A req err (scheme # schemes) d = (case run_scheme A req scheme d of
      (d', Inl e) \<Rightarrow> (d', Inl e)
    | (d', Inr (Inr subject)) \<Rightarrow> (d', Inr subject)
    | (d', Inr (Inl e)) \<Rightarrow> if e = ErrSkipped then try_schemes A req (Some e) schemes d' else (d', Inl (PanicErr (auth_error_text e))))"

definition auth_schemes :: "Driver \<Rightarrow> gval list res" where
  "auth_schemes d = (case GetOption d ''data.schemes'' of None \<Rightarrow> Inr [GStr ''token''] | Some v \<Rightarrow> assert_type (as_list v))"

definition authWebRequest :: "auth_env \<Rightarrow> Message \<Rightarrow> Driver \<Rightarrow> Driver \<times> handler_run" where
  "authWebRequest A msg d =
    (case rbind (DeserializePayload (ae_ext A) msg) (\<lambda>m. rmap (\<lambda>ss. (payload_val m, ss)) (auth_schemes d)) of
       Inl e \<Rightarrow> (d, \<lparr>replies = [], panics = Some e, late = False\<rparr>)
     | Inr (req, schemes) \<Rightarrow> (case try_schemes A req None schemes d of
         (d', Inl e) \<Rightarrow> (d', \<lparr>replies = [], panics = Some e, late = False\<rparr>)
       | (d', Inr subject) \<Rightarrow> (d', \<lparr>replies = [zero_message\<lparr>Payload := PVal (GStr subject)\<rparr>], panics = None, late = False\<rparr>)))"

section \<open>Who is let in\<close>

text \<open>The credentials of a request match an entry of the options, which names the subject.\<close>

definition token_known :: "auth_env \<Rightarrow> gval \<Rightarrow> gval \<Rightarrow> string \<Rightarrow> bool" where
  "token_known A options req subject \<longleftrightarrow> (\<exists>h ts kt hash. scheme_header ''bearer '' req = Some h \<and>
     GetMapData options ''data.tokens'' = Some (GList ts) \<and> GMap kt \<in> set ts \<and> map_of kt ''token'' = Some (GStr hash) \<and>
     ae_bcrypt A hash (drop 7 h) \<and> subject_of kt = Inr subject)"

definition user_known :: "auth_env \<Rightarrow> gval \<Rightarrow> gval \<Rightarrow> string \<Rightarrow> bool" where
  "user_known A options req subject \<longleftrightarrow> (\<exists>h us ku user pass hash. scheme_header ''basic '' req = Some h \<and> BasicAuth A h = Some (user, pass) \<and>
     GetMapData options ''data.users'' = Some (GList us) \<and> GMap ku \<in> set us \<and> map_of ku ''name'' = Some (GStr user) \<and>
     map_of ku ''pass'' = Some (GStr hash) \<and> ae_bcrypt A hash pass \<and> subject_of ku = Inr subject)"

lemma field_str_Inr: "field_str m k = Inr s \<longleftrightarrow> map_of m k = Some (GStr s)"
  by (auto simp: field_str_def assert_type_def split: option.splits elim!: as_str.elims)

lemma as_map_Inr: "assert_type (as_map v) = Inr m \<longleftrightarrow> v = GMap m"
  by (auto simp: assert_type_def split: option.splits elim!: as_map.elims)

lemma find_token_known:
  "find_token A token ts = Inr (Inr subject) \<Longrightarrow>
    \<exists>kt hash. GMap kt \<in> set ts \<and> map_of kt ''token'' = Some (GStr hash) \<and> ae_bcrypt A hash token \<and> subject_of kt = Inr subject"
  by (induction ts) (auto simp: rbind_Inr_conv rmap_def as_map_Inr field_str_Inr split: if_splits)

lemma find_user_known:
  "find_user A user pass us = Inr (Inr subject) \<Longrightarrow>
    \<exists>ku hash. GMap ku \<in> set us \<and> map_of ku ''name'' = Some (GStr user) \<and> map_of ku ''pass'' = Some (GStr hash) \<and> ae_bcrypt A hash pass \<and> subject_of ku = Inr subject"
  by (induction us) (auto simp: rbind_Inr_conv rmap_def as_map_Inr field_str_Inr split: if_splits)

lemma known_list: "known d path = Inr (x # xs) \<Longrightarrow> GetMapData (dv_Options d) path = Some (GList (x # xs))"
  by (auto simp: known_def assert_type_def split: option.splits elim!: as_list.elims)

lemma run_scheme_known:
  assumes "run_scheme A req scheme d = (d', Inr (Inr subject))"
  shows "scheme = GStr ''token'' \<and> token_known A (dv_Options d') req subject \<or> scheme = GStr ''basic'' \<and> user_known A (dv_Options d') req subject"
proof -
  obtain s where s: "scheme = GStr s" "s = ''basic'' \<or> s = ''token''" using assms by (cases scheme) (auto simp: run_scheme_def split: if_splits)
  from s(2) show ?thesis
  proof
    assume b: "s = ''basic''"
    then obtain h user pass us where h: "scheme_header ''basic '' req = Some h" "BasicAuth A h = Some (user, pass)"
      and us: "known d' ''data.users'' = Inr us" "find_user A user pass us = Inr (Inr subject)"
      using assms s(1) by (auto simp: run_scheme_def basicAuth_def rbind_Inr_conv split: option.splits prod.splits)
    then have "us \<noteq> []" by auto
    with known_list us have "GetMapData (dv_Options d') ''data.users'' = Some (GList us)" by (cases us) auto
    with find_user_known [OF us(2)] h show ?thesis using s(1) b unfolding user_known_def by blast
  next
    assume t: "s = ''token''"
    then obtain h ts where h: "scheme_header ''bearer '' req = Some h"
      and ts: "known d' ''data.tokens'' = Inr ts" "find_token A (drop 7 h) ts = Inr (Inr subject)"
      using assms s(1) by (auto simp: run_scheme_def tokenAuth_def rbind_Inr_conv split: option.splits prod.splits)
    then have "ts \<noteq> []" by auto
    with known_list ts have "GetMapData (dv_Options d') ''data.tokens'' = Some (GList ts)" by (cases ts) auto
    with find_token_known [OF ts(2)] h show ?thesis using s(1) t unfolding token_known_def by blast
  qed
qed

lemma try_schemes_known:
  "try_schemes A req err schemes d = (d', Inr subject) \<Longrightarrow>
    GStr ''token'' \<in> set schemes \<and> token_known A (dv_Options d') req subject \<or> GStr ''basic'' \<in> set schemes \<and> user_known A (dv_Options d') req subject"
proof (induction schemes arbitrary: err d)
  case (Cons scheme schemes)
  obtain d1 r where run: "run_scheme A req scheme d = (d1, r)" by (cases "run_scheme A req scheme d")
  consider e where "r = Inl e" | e where "r = Inr (Inl e)" | sub where "r = Inr (Inr sub)" by (metis sum.exhaust)
  then show ?case
  proof cases
    case 2
    then show ?thesis using Cons run by (auto split: if_splits)
  next
    case 3
    then show ?thesis using Cons.prems run run_scheme_known [of A req scheme d d1 sub] by auto
  qed (use Cons.prems run in simp)
qed simp

lemma auth_answers:
  assumes "authWebRequest A msg d = (d', run)"
  shows "(\<exists>e. run = \<lparr>replies = [], panics = Some e, late = False\<rparr>) \<or>
    (\<exists>m schemes subject. run = \<lparr>replies = [zero_message\<lparr>Payload := PVal (GStr subject)\<rparr>], panics = None, late = False\<rparr> \<and>
      DeserializePayload (ae_ext A) msg = Inr m \<and> auth_schemes d = Inr schemes \<and>
      (GStr ''token'' \<in> set schemes \<and> token_known A (dv_Options d') (payload_val m) subject \<or>
       GStr ''basic'' \<in> set schemes \<and> user_known A (dv_Options d') (payload_val m) subject))"
proof (cases "DeserializePayload (ae_ext A) msg")
  case (Inr m)
  note m = this
  show ?thesis
  proof (cases "auth_schemes d")
    case (Inr schemes)
    obtain d1 r where tried: "try_schemes A (payload_val m) None schemes d = (d1, r)" by (cases "try_schemes A (payload_val m) None schemes d")
    show ?thesis
    proof (cases r)
      case (Inr subject)
      have run: "d' = d1" "run = \<lparr>replies = [zero_message\<lparr>Payload := PVal (GStr subject)\<rparr>], panics = None, late = False\<rparr>"
        using assms m \<open>auth_schemes d = _\<close> tried Inr by (auto simp: authWebRequest_def)
      from try_schemes_known [OF tried [unfolded Inr]] show ?thesis using run m \<open>auth_schemes d = _\<close> by blast
    qed (use assms m Inr tried in \<open>auto simp: authWebRequest_def\<close>)
  qed (use assms m in \<open>auto simp: authWebRequest_def\<close>)
qed (use assms in \<open>auto simp: authWebRequest_def\<close>)

text \<open>
  The driver answers a request with a subject only if one of the configured schemes found the
  credentials of the request among the configured ones, and the subject is the one configured for them.
  In every other case the call ends with a panic, which the caller sees as an error.
\<close>

theorem auth_sound:
  assumes "authWebRequest A msg d = (d', run)"
  shows "(\<exists>e. run = \<lparr>replies = [], panics = Some e, late = False\<rparr>) \<or>
    (\<exists>m schemes subject. run = \<lparr>replies = [zero_message\<lparr>Payload := PVal (GStr subject)\<rparr>], panics = None, late = False\<rparr> \<and>
      DeserializePayload (ae_ext A) msg = Inr m \<and> auth_schemes d = Inr schemes \<and>
      (GStr ''token'' \<in> set schemes \<and> token_known A (dv_Options d') (payload_val m) subject \<or>
       GStr ''basic'' \<in> set schemes \<and> user_known A (dv_Options d') (payload_val m) subject))"
  using auth_answers [OF assms] .

text \<open>
  A bearer token that is configured is accepted: with the scheme \<open>token\<close> and decrypted options, the
  subject is that of the first entry whose hash the token matches, and without such an entry the call
  ends with an error.
\<close>

theorem token_accepted:
  assumes "DeserializePayload (ae_ext A) msg = Inr m" and "auth_schemes d = Inr [GStr ''token'']" and "GetOption d ''decrypted'' \<noteq> None"
    and "scheme_header ''bearer '' (payload_val m) = Some h" and "GetMapData (dv_Options d) ''data.tokens'' = Some (GList (map GMap kts))"
    and "\<forall>kt \<in> set kts. (\<exists>hash. map_of kt ''token'' = Some (GStr hash)) \<and> (\<exists>subject. subject_of kt = Inr subject)"
  shows "snd (authWebRequest A msg d) = (case find (\<lambda>kt. case field_str kt ''token'' of Inr hash \<Rightarrow> ae_bcrypt A hash (drop 7 h) | Inl _ \<Rightarrow> False) kts of
      None \<Rightarrow> \<lparr>replies = [], panics = Some (PanicErr ''the bearer token is invalid''), late = False\<rparr>
    | Some kt \<Rightarrow> (case subject_of kt of Inr subject \<Rightarrow> \<lparr>replies = [zero_message\<lparr>Payload := PVal (GStr subject)\<rparr>], panics = None, late = False\<rparr>
        | Inl e \<Rightarrow> \<lparr>replies = [], panics = Some e, late = False\<rparr>))"
proof -
  let ?P = "\<lambda>kt. case field_str kt ''token'' of Inr hash \<Rightarrow> ae_bcrypt A hash (drop 7 h) | Inl _ \<Rightarrow> False"
  have loop: "find_token A (drop 7 h) (map GMap kts) = (case find ?P kts of None \<Rightarrow> Inr (Inl ErrInvalidBearerToken) | Some kt \<Rightarrow> rmap Inr (subject_of kt))"
    using assms(6)
  proof (induction kts)
    case (Cons kt kts)
    then obtain hash where "field_str kt ''token'' = Inr hash" by (auto simp: field_str_Inr)
    then show ?case using Cons by simp
  qed simp
  have "known d ''data.tokens'' = Inr (map GMap kts)" by (simp add: known_def assms(5))
  then have run: "run_scheme A (payload_val m) (GStr ''token'') d = (d, find_token A (drop 7 h) (map GMap kts))"
    by (simp add: run_scheme_def tokenAuth_def decrypt_options_def assms(3,4))
  show ?thesis
  proof (cases "find ?P kts")
    case None
    then show ?thesis using run loop by (simp add: authWebRequest_def assms(1,2))
  next
    case (Some kt)
    then obtain subject where "subject_of kt = Inr subject" using assms(6) by (auto simp: find_Some_iff set_conv_nth)
    then show ?thesis using run loop Some by (simp add: authWebRequest_def assms(1,2))
  qed
qed

section \<open>With the API service\<close>

text \<open>The call of the middleware when \<open>auth-simple\<close> is the driver it asks; \<open>text\<close> prints a panic.\<close>

definition auth_rpc :: "auth_env \<Rightarrow> ext \<Rightarrow> (gopanic \<Rightarrow> string) \<Rightarrow> Message \<Rightarrow> Driver \<Rightarrow> string \<Rightarrow> string \<Rightarrow> string + string option" where
  "auth_rpc A X text msg d feature fn =
    (if feature = ''driver:auth-simple'' \<and> fn = ''auth_web_request'' then
       (case channel_content text (snd (authWebRequest A msg d)) of
          [] \<Rightarrow> Inl ''timeout''
        | reply # _ \<Rightarrow> (case label reply ''error'' of
            Some reason \<Rightarrow> Inl reason
          | None \<Rightarrow> (case payload_bytes X reply of Inl e \<Rightarrow> Inl (text e) | Inr bs \<Rightarrow> Inr (Some bs))))
     else Inl ''feature not loaded'')"

text \<open>
  C18: With the driver \<open>auth-simple\<close> behind it, the API service dispatches a request only if the request
  carries a token, or a user name and password, of the driver's configuration, and the enforcer allows
  the subject configured for them the object and the method of the route.
\<close>

theorem api_needs_credentials:
  assumes "serve_request X (auth_rpc A X text msg drv) enforce broadcast uuid c d st = (st', a)" and "st' \<noteq> st \<or> (\<exists>r. a = Pending r)"
    and "\<forall>s bs. ext_json_marshal X (GStr s) = Inr bs \<longrightarrow> DeserializeContent X bs = Inr (GStr s)"
  shows "\<exists>m options subject. DeserializePayload (ae_ext A) msg = Inr m \<and>
    (token_known A options (payload_val m) subject \<or> user_known A options (payload_val m) subject) \<and>
    options = dv_Options (fst (authWebRequest A msg drv)) \<and> enforce subject (df_Object d) (df_Method d) ''auth-simple'' = Inr True"
proof -
  from dispatched_authorized [OF assms(1,2)] obtain fn bytes sub provider where
    call: "auth_rpc A X text msg drv (''driver:'' @ provider) fn = Inr (Some bytes)" and dec: "DeserializeContent X bytes = Inr (GStr sub)"
    and allowed: "enforce sub (df_Object d) (df_Method d) provider = Inr True" by blast
  have prov: "provider = ''auth-simple''" using call by (simp add: auth_rpc_def split: if_splits)
  obtain d' run where run: "authWebRequest A msg drv = (d', run)" by (cases "authWebRequest A msg drv")
  from auth_answers [OF run] show ?thesis
  proof
    assume "\<exists>e. run = \<lparr>replies = [], panics = Some e, late = False\<rparr>"
    then show ?thesis using call run prov by (auto simp: auth_rpc_def channel_content_def error_reply_def label_def labels_def split: if_splits)
  next
    assume "\<exists>m schemes subject. run = \<lparr>replies = [zero_message\<lparr>Payload := PVal (GStr subject)\<rparr>], panics = None, late = False\<rparr> \<and>
      DeserializePayload (ae_ext A) msg = Inr m \<and> auth_schemes drv = Inr schemes \<and>
      (GStr ''token'' \<in> set schemes \<and> token_known A (dv_Options d') (payload_val m) subject \<or>
       GStr ''basic'' \<in> set schemes \<and> user_known A (dv_Options d') (payload_val m) subject)"
    then obtain m subject where r: "run = \<lparr>replies = [zero_message\<lparr>Payload := PVal (GStr subject)\<rparr>], panics = None, late = False\<rparr>"
      "DeserializePayload (ae_ext A) msg = Inr m" "token_known A (dv_Options d') (payload_val m) subject \<or> user_known A (dv_Options d') (payload_val m) subject"
      by blast
    have "ext_json_marshal X (GStr subject) = Inr bytes"
      using call run r(1) prov
      by (auto simp: auth_rpc_def channel_content_def label_def labels_def zero_message_def payload_bytes_def SerializeContent_def split: sum.splits if_splits)
    with assms(3) dec have "sub = subject" by auto
    then show ?thesis using r(2,3) allowed prov run by auto
  qed
qed

section \<open>Witnesses\<close>

definition sample_auth :: auth_env where
  "sample_auth = \<lparr>ae_ext = no_ext, ae_callRaw = (\<lambda>_ _ s. s), ae_bcrypt = (\<lambda>hash s. hash = s)\<rparr>"

definition sample_json :: ext where
  "sample_json = no_ext\<lparr>ext_json_marshal := (\<lambda>v. case v of GStr s \<Rightarrow> Inr (CHR 0x22 # s) | _ \<Rightarrow> Inr ''{}''),
     ext_json_unmarshal := (\<lambda>s. Inr (GStr (drop 1 s)))\<rparr>"

definition sample_auth_driver :: Driver where
  "sample_auth_driver = (NewDriverProcess ''api'' ''auth-simple'')\<lparr>dv_Options := GMap [(''decrypted'', GBool True),
     (''data'', GMap [(''tokens'', GList (map GMap [[(''token'', GStr ''t1''), (''subject'', GStr ''alice'')]]))])]\<rparr>"

definition sample_auth_call :: Message where
  "sample_auth_call = zero_message\<lparr>Payload := PVal (GMap [(''headers'', GMap [(''Authorization'', GList [GStr ''Bearer t1''])])])\<rparr>"

lemma sample_auth_facts:
  "DeserializePayload (ae_ext sample_auth) sample_auth_call = Inr sample_auth_call" "auth_schemes sample_auth_driver = Inr [GStr ''token'']"
  "GetOption sample_auth_driver ''decrypted'' \<noteq> None" "scheme_header ''bearer '' (payload_val sample_auth_call) = Some ''Bearer t1''"
  "GetMapData (dv_Options sample_auth_driver) ''data.tokens'' = Some (GList (map GMap [[(''token'', GStr ''t1''), (''subject'', GStr ''alice'')]]))"
  "snd (authWebRequest sample_auth sample_auth_call sample_auth_driver) =
     \<lparr>replies = [zero_message\<lparr>Payload := PVal (GStr ''alice'')\<rparr>], panics = None, late = False\<rparr>"
  by code_simp+

theorem token_accepted_witness:
  "replies (snd (authWebRequest sample_auth sample_auth_call sample_auth_driver)) = [zero_message\<lparr>Payload := PVal (GStr ''alice'')\<rparr>]"
proof -
  have "\<forall>kt \<in> set [[(''token'', GStr ''t1''), (''subject'', GStr ''alice'')]]. (\<exists>hash. map_of kt ''token'' = Some (GStr hash)) \<and> (\<exists>subject. subject_of kt = Inr subject)"
    by (simp add: subject_of_def)
  from token_accepted [OF sample_auth_facts(1-5) this] show ?thesis by (simp add: field_str_def sample_auth_def subject_of_def)
qed

theorem auth_sound_witness:
  "\<exists>options. token_known sample_auth options (payload_val sample_auth_call) ''alice'' \<or> user_known sample_auth options (payload_val sample_auth_call) ''alice''"
proof -
  have "authWebRequest sample_auth sample_auth_call sample_auth_driver = (fst (authWebRequest sample_auth sample_auth_call sample_auth_driver),
      \<lparr>replies = [zero_message\<lparr>Payload := PVal (GStr ''alice'')\<rparr>], panics = None, late = False\<rparr>)"
    using sample_auth_facts(6) by (simp add: prod_eq_iff)
  from auth_sound [OF this] sample_auth_facts(1) show ?thesis by (auto simp: zero_message_def)
qed

theorem api_needs_credentials_witness:
  "\<exists>options. token_known sample_auth options (payload_val sample_auth_call) ''alice'' \<or> user_known sample_auth options (payload_val sample_auth_call) ''alice''"
proof -
  let ?call = "auth_rpc sample_auth sample_json (\<lambda>_. ''panic'') sample_auth_call sample_auth_driver"
  let ?enforce = "\<lambda>sub obj act provider. Inr (sub = ''alice'' \<and> provider = ''auth-simple'')"
  let ?st = "sample_store\<lparr>st_config := GMap [(''auth-providers'', GList [GStr ''auth-simple''])]\<rparr>"
  obtain st' a where run: "serve_request sample_json ?call ?enforce (\<lambda>_. None) ''u9'' sample_ctx (the (map_of GetDefsByName ''eventAdd'')) ?st = (st', a)" by fastforce
  have "(case snd (serve_request sample_json ?call ?enforce (\<lambda>_. None) ''u9'' sample_ctx (the (map_of GetDefsByName ''eventAdd'')) ?st) of
      Pending r \<Rightarrow> True | Status n \<Rightarrow> False)" by code_simp
  with run have p: "\<exists>r. a = Pending r" by (auto split: answer.splits)
  have json: "\<forall>s bs. ext_json_marshal sample_json (GStr s) = Inr bs \<longrightarrow> DeserializeContent sample_json bs = Inr (GStr s)"
    by (simp add: sample_json_def DeserializeContent_def)
  from api_needs_credentials [OF run disjI2 [OF p] json] sample_auth_facts(1) show ?thesis by auto
qed

end
