(* ===== verification/EngineApi.thy ===== *)
theory EngineApi
  imports EngineProps Api
begin

text \<open>
  The API calls that the engine serves, \<open>internal/service/engine_apis.go\<close>, on the session store of
  \<open>Engine\<close>, and the parameters of a call, \<open>GetPayload\<close> of \<open>internal/api/request_context.go\<close>, in front of the
  request store of \<open>Api\<close>.

  \<open>handleEventWait\<close> runs in a goroutine of its own and is split where others may run in between: looking the
  sessions up, watching them, waiting until all of them are cancelled, answering. The formatted time
  stamps of a session are arguments, because the model of sessions has none.
\<close>

section \<open>Waiting for the sessions of an event\<close>

definition event_wait_find :: "ext \<Rightarrow> Message \<Rightarrow> store \<Rightarrow> (Message \<times> nat list) res" where
  "event_wait_find X request s =
    rbind (DeserializePayload X request) (\<lambda>req.
    rbind (MustGetMapDataStr (payload_val req) ''eventID'') (\<lambda>eventID.
    Inr (req, ByEventID s eventID)))"

text \<open>Without a session of the event nothing is sent.\<close>

definition event_wait_ack :: "Message \<Rightarrow> nat list \<Rightarrow> Message list" where
  "event_wait_ack req as = (if as = [] then [] else [Resp_Ack req])"

definition watch_all :: "nat list \<Rightarrow> store \<Rightarrow> store" where
  "watch_all as s = fold (\<lambda>a s. s\<lparr>heap := (heap s)(a := Watch (heap s a))\<rparr>) as s"

definition wait_over :: "nat list \<Rightarrow> store \<Rightarrow> bool" where
  "wait_over as s \<longleftrightarrow> list_all (\<lambda>a. s_cancelled (heap s a)) as"

definition wait_entry :: "Session \<Rightarrow> gval res" where
  "wait_entry w =
    rbind (GetStatus w) (\<lambda>(status, reason).
    rbind (GetEventName w) (\<lambda>event.
    Inr (GMap [(''name'', GStr (wf_Name (wfd w))), (''description'', GStr (wf_Description (wfd w))),
      (''exported'', GList (map GMap (s_exported w))), (''event'', GStr event),
      (''status'', GStr status), (''reason'', GStr reason)])))"

definition event_wait_answer :: "Message \<Rightarrow> nat list \<Rightarrow> store \<Rightarrow> Message res" where
  "event_wait_answer req as s =
    rmap (\<lambda>ret. Resp_Return req (PVal (GMap [(''sessions'', GList ret)]))) (rmapM (\<lambda>a. wait_entry (heap s a)) as)"

section \<open>Listing the events\<close>

definition list_entry :: "string \<Rightarrow> string option \<Rightarrow> Session \<Rightarrow> gval res" where
  "list_entry startTime completionTime w =
    rmap (\<lambda>event. GMap ([(''name'', GStr (wf_Name (wfd w))), (''description'', GStr (wf_Description (wfd w))),
      (''exported'', GList (map GMap (s_exported w))), (''eventID'', GStr (s_EventID w)), (''event'', GStr event),
      (''startTime'', GStr startTime)] @
      (case completionTime of None \<Rightarrow> [] | Some t \<Rightarrow> [(''completionTime'', GStr t)])))
    (GetEventName w)"

definition handleEventList :: "ext \<Rightarrow> (nat \<Rightarrow> string) \<Rightarrow> (nat \<Rightarrow> string option) \<Rightarrow> Message \<Rightarrow> store \<Rightarrow> Message res" where
  "handleEventList X startTime completionTime request s =
    rbind (DeserializePayload X request) (\<lambda>req.
    rmap (\<lambda>ret. Resp_Return req (PVal (GMap [(''sessions'', GList ret)])))
      (rmapM (\<lambda>a. list_entry (startTime a) (completionTime a) (heap s a)) (GetEvents s)))"

section \<open>Parameters of a call\<close>

text \<open>The parameters in the path, the fields of the form (parsed by the authentication), the raw body.\<close>

record gin_context =
  gin_Params :: "(string \<times> string) list"
  gin_Form :: "(string, string list) gomap"
  gin_RawData :: "string res"

fun form_fields :: "(string, string list) gomap \<Rightarrow> gmap \<Rightarrow> gmap res" where
  "form_fields [] payload = Inr payload"
| "form_fields ((k, varr) # form) payload = (case varr of
      [] \<Rightarrow> Inl IndexOutOfRange
    | [v] \<Rightarrow> form_fields form (mput k (GStr v) payload)
    | vs \<Rightarrow> form_fields form (mput k (GList (map GStr vs)) payload))"

definition GetPayload :: "gin_context \<Rightarrow> string \<Rightarrow> gmap res" where
  "GetPayload g meth =
    (let payload = fold (\<lambda>(k, v). mput k (GStr v)) (gin_Params g) [] in
     rbind (if meth = ''POST'' \<or> meth = ''PUT'' then rmap (\<lambda>body. mput ''body'' (GStr body) payload) (gin_RawData g) else Inr payload)
       (form_fields (gin_Form g)))"

section \<open>Lemmas\<close>

lemma watch_all_same [simp]:
  "sessions (watch_all as s) = sessions s" "tasks (watch_all as s) = tasks s"
  by (simp_all add: watch_all_def) (induction as arbitrary: s, simp_all)+

lemma watch_all_heap: "heap (watch_all as s) a = (if a \<in> set as then Watch (heap s a) else heap s a)"
  unfolding watch_all_def by (induction as arbitrary: s) (auto simp: Watch_def)

lemma find_sessions:
  assumes "store_inv s"
  shows "set (ByEventID s eventID) =
    {a. (\<exists>k. IDMapGet (sessions s) k = Some a) \<and> s_parent (heap s a) = [] \<and> s_EventID (heap s a) = eventID}"
proof -
  have "distinct (map fst (entries (sessions s)))" using assms by (simp add: store_inv_def idmap_inv_def wfmap_def)
  then have "snd ` set (entries (sessions s)) = {a. \<exists>k. IDMapGet (sessions s) k = Some a}"
    by (force simp: IDMapGet_def image_iff)
  then show ?thesis by (auto simp: ByEventID_def)
qed

lemma complete_top:
  assumes "is_saved a s" and "s_currentHook (heap s a) = []"
    and ex: "processExport W a (completion_message (heap s a) msg)
      (s\<lparr>heap := (heap s)(a := (heap s a)\<lparr>s_savedMsg := Some (completion_message (heap s a) msg)\<rparr>)\<rparr>) = (Done result, t)"
    and "no_complete_hooks (heap t a)" and "s_parent (heap s a) = []"
  shows "\<exists>u. complete W self a msg s = (Done (), u) \<and> tasks u = tasks s \<and> (\<forall>b. b \<noteq> a \<longrightarrow> heap u b = heap s b) \<and>
    s_savedMsg (heap u a) = Some result \<and> s_watched (heap u a) = s_watched (heap s a) \<and>
    s_cancelled (heap u a) = (s_cancelled (heap s a) \<or> s_watched (heap s a)) \<and>
    sessions u = IDMapDel (sessions s) (s_ID (heap s a))"
proof -
  have "quiet a (s\<lparr>heap := (heap s)(a := (heap s a)\<lparr>s_savedMsg := Some (completion_message (heap s a) msg)\<rparr>)\<rparr>) t"
    using quietly_processExport ex by (metis quietly_def snd_conv)
  then have t: "sessions t = sessions s" "tasks t = tasks s" "s_ID (heap t a) = s_ID (heap s a)" "s_parent (heap t a) = []"
    "watch_state (heap t a) = watch_state (heap s a)" "\<forall>b. b \<noteq> a \<longrightarrow> heap t b = heap s b"
    using assms(5) by (simp_all add: quiet_def same_ids_def)
  show ?thesis unfolding complete_finishes [OF assms(1-4)]
    using t by (auto simp: wseq_def wbind_def finish_def close_session_def wmod_def Let_def watch_state_def split: option.split)
qed

section \<open>Properties\<close>


text \<open>
  The answer calls every session a success: whatever status the session ended with, if it has one, is
  replaced by \<open>success\<close>.
\<close>

theorem event_wait_masks_status:
  assumes "event_wait_answer req as s = Inr answer" and "i < length as" and "s_savedMsg (heap s (as ! i)) = Some result"
    and "label result ''status'' = Some status"
  shows "\<exists>ret entry. Payload answer = PVal (GMap [(''sessions'', GList ret)]) \<and> length ret = length as \<and> ret ! i = GMap entry \<and>
    map_of entry ''status'' = Some (GStr SessionStatusSuccess) \<and> map_of entry ''reason'' = Some (GStr (label_str result ''reason''))"
proof -
  from assms(1) obtain ret where ret: "rmapM (\<lambda>a. wait_entry (heap s a)) as = Inr ret" "answer = Resp_Return req (PVal (GMap [(''sessions'', GList ret)]))"
    by (auto simp: event_wait_answer_def rmap_def rbind_Inr_conv)
  from rmapM_nth [OF ret(1) assms(2)] have "wait_entry (heap s (as ! i)) = Inr (ret ! i)" .
  with assms(3,4) show ?thesis using rmapM_length [OF ret(1)]
    by (auto simp: ret(2) Resp_Return_def response_message_def wait_entry_def GetStatus_def rbind_Inr_conv dest!: sym [where t = "ret ! i"])
qed

text \<open>
  A session that completes after the lookup and before \<open>Watch\<close> leaves nobody to cancel the new watch: the
  wait is not over, although the session is gone from the store.
\<close>

theorem event_wait_race:
  assumes "store_reachable W s" and "event_wait_find X request s = Inr (req, as)" and "a \<in> set as"
    and "\<not> s_watched (heap s a)" and "\<not> s_cancelled (heap s a)"
    and "s_currentHook (heap s a) = []" and "no_complete_hooks (heap t a)"
    and "processExport W a (completion_message (heap s a) msg)
      (s\<lparr>heap := (heap s)(a := (heap s a)\<lparr>s_savedMsg := Some (completion_message (heap s a) msg)\<rparr>)\<rparr>) = (Done result, t)"
  shows "\<exists>u. complete W self a msg s = (Done (), u) \<and> IDMapGet (sessions u) (s_ID (heap s a)) = None \<and> \<not> wait_over as (watch_all as u)"
proof -
  have inv: "store_inv s" by (rule store_reachable_inv [OF assms(1)])
  from assms(2) obtain eventID where as: "as = ByEventID s eventID" by (auto simp: event_wait_find_def rbind_Inr_conv)
  with assms(3) find_sessions [OF inv] obtain k where k: "IDMapGet (sessions s) k = Some a" "s_parent (heap s a) = []" by auto
  with inv have "is_saved a s" by (auto simp: store_inv_def is_saved_def)
  from complete_top [OF this assms(6,8,7) k(2), of self] assms(4,5) obtain u where
    u: "complete W self a msg s = (Done (), u)" "\<not> s_cancelled (heap u a)" "sessions u = IDMapDel (sessions s) (s_ID (heap s a))" by auto
  have "\<not> s_cancelled (heap (watch_all as u) a)" using u(2) by (simp add: watch_all_heap Watch_def)
  with u assms(3) show ?thesis by (auto simp: wait_over_def list_all_iff idm.del_get)
qed

text \<open>
  A field of the query replaces the parameter of the same name in the path. The request is still kept
  under its path, so whoever waits for the event of the path afterwards is given the request for the
  other event.
\<close>

theorem query_redirects_wait:
  assumes "gin_Params g = [(''eventID'', A)]" and "gin_Form g = [(''eventID'', [B])]" and "rc_payload c = GetPayload g"
    and "map_of GetDefsByName ''eventWait'' = Some d" and "map_of (st_byInput st) (rc_path c) = None"
    and "getAckTimeout X st d = Inr t" and "rc_path c' = rc_path c"
  shows "\<exists>r. GetRequest X uuid d c st = Inr r \<and> rq_params r = [(''eventID'', GStr B)] \<and>
    GetRequest X uuid' d c' (fst (Dispatch broadcast r st)) = Inr (st_pool (fst (Dispatch broadcast r st)) uuid) \<and>
    rq_params (st_pool (fst (Dispatch broadcast r st)) uuid) = [(''eventID'', GStr B)]"
proof -
  have "map_of GetDefsByName ''eventWait'' = Some (api_def ''event'' ''eventWait'' TypeMatch ''engine'' InfiniteDuration
      \<lparr>df_Path := ''events/:eventID/wait'', df_Method := ''GET''\<rparr>)" by code_simp
  with assms(4) have d: "df_Method d = ''GET''" "df_Timeout d = InfiniteDuration" by (auto simp: api_def_def)
  let ?r = "new_request uuid d c [(''eventID'', GStr B)] t InfiniteDuration"
  have "GetPayload g ''GET'' = Inr [(''eventID'', GStr B)]" using assms(1,2) by (simp add: GetPayload_def)
  then have get: "GetRequest X uuid d c st = Inr ?r"
    using assms(3,5,6) d by (simp add: GetRequest_def getTimeout_def InfiniteDuration_def)
  have "fst (Dispatch broadcast ?r st) = SaveRequest (?r\<lparr>rq_ready := OpenChan, rq_results := []\<rparr>) st \<or>
    fst (Dispatch broadcast ?r st) = upd_request uuid (\<lambda>x. x\<lparr>rq_worker := Acking\<rparr>) (SaveRequest (?r\<lparr>rq_ready := OpenChan, rq_results := []\<rparr>) st)"
    by (simp add: Dispatch_def new_request_def Let_def split: option.split)
  then have "map_of (st_byInput (fst (Dispatch broadcast ?r st))) (rc_path c') = Some uuid \<and>
      rq_params (st_pool (fst (Dispatch broadcast ?r st)) uuid) = [(''eventID'', GStr B)]"
    using assms(7) d by (auto simp: SaveRequest_def upd_request_def new_request_def kept_by_input_def)
  then show ?thesis using get d by (simp add: GetRequest_def) (simp add: new_request_def)
qed

section \<open>Witnesses\<close>

text \<open>An event has started a session that calls a driver; a client waits for it.\<close>

definition sample_trigger :: Message where
  "sample_trigger = Success\<lparr>Labels := Some [(''status'', ''success''), (''eventID'', ''e1'')]\<rparr>"

definition event_store :: store where
  "event_store = snd (run_pending sample_wfenv 9 0 (snd (StartSession sample_wfenv 9 sample_driver_call sample_trigger (Some []) (NewSessionStore blank_session))))"

lemma event_store_reachable: "store_reachable sample_wfenv event_store"
  unfolding event_store_def
  by (rule store_reachable.step [OF store_reachable.step [OF store_reachable.init store_step.starts] store_step.goroutine])

definition sample_wait_request :: Message where
  "sample_wait_request = zero_message\<lparr>Payload := PVal (GMap [(''eventID'', GStr ''e1'')]), Labels := Some [(''uuid'', ''u1''), (''from'', ''n1'')]\<rparr>"

definition event_export :: "Message \<Rightarrow> store \<Rightarrow> Message out \<times> store" where
  "event_export msg s = processExport sample_wfenv 0 (completion_message (heap s 0) msg)
     (s\<lparr>heap := (heap s)(0 := (heap s 0)\<lparr>s_savedMsg := Some (completion_message (heap s 0) msg)\<rparr>)\<rparr>)"

lemma event_store_facts:
  "event_wait_find no_ext sample_wait_request event_store = Inr (sample_wait_request, [0])"
  "s_currentHook (heap event_store 0) = []" "\<not> s_watched (heap event_store 0)" "\<not> s_cancelled (heap event_store 0)"
  by code_simp+

lemma event_export_facts:
  "fst (event_export (error_message ''boom'') event_store) = Done (completion_message (heap event_store 0) (error_message ''boom''))"
  "no_complete_hooks (heap (snd (event_export (error_message ''boom'') event_store)) 0)"
  "fst (event_export (error_message ''boom'') (watch_all [0] event_store)) = Done (completion_message (heap event_store 0) (error_message ''boom''))"
  "no_complete_hooks (heap (snd (event_export (error_message ''boom'') (watch_all [0] event_store))) 0)"
  by code_simp+


theorem event_wait_race_witness:
  "\<exists>u. complete sample_wfenv (\<lambda>_. skip) 0 (error_message ''boom'') event_store = (Done (), u) \<and> \<not> wait_over [0] (watch_all [0] u)"
proof -
  have "event_export (error_message ''boom'') event_store = (Done (completion_message (heap event_store 0) (error_message ''boom'')), snd (event_export (error_message ''boom'') event_store))"
    using event_export_facts(1) by (metis prod.collapse)
  then show ?thesis
    using event_wait_race [OF event_store_reachable event_store_facts(1) _ event_store_facts(3,4,2) event_export_facts(2), of "error_message ''boom''" _ "\<lambda>_. skip"]
    by (auto simp: event_export_def)
qed

theorem event_wait_masks_status_witness:
  "\<exists>answer ret entry. event_wait_answer sample_wait_request [0] (NewSessionStore (blank_session\<lparr>s_savedMsg := Some (error_message ''boom'')\<rparr>)) = Inr answer \<and>
     Payload answer = PVal (GMap [(''sessions'', GList ret)]) \<and> ret ! 0 = GMap entry \<and> map_of entry ''status'' = Some (GStr ''success'')"
proof -
  let ?s = "NewSessionStore (blank_session\<lparr>s_savedMsg := Some (error_message ''boom'')\<rparr>)"
  have "isl (event_wait_answer sample_wait_request [0] ?s) = False" "s_savedMsg (heap ?s 0) = Some (error_message ''boom'')"
    "label (error_message ''boom'') ''status'' = Some ''error''" by code_simp+
  then obtain answer where "event_wait_answer sample_wait_request [0] ?s = Inr answer" by (cases "event_wait_answer sample_wait_request [0] ?s") auto
  with event_wait_masks_status [OF this, of 0 "error_message ''boom''" "''error''"] show ?thesis
    using \<open>s_savedMsg _ = _\<close> \<open>label _ _ = _\<close> by (auto simp: SessionStatusSuccess_def)
qed

definition sample_gin :: gin_context where
  "sample_gin = \<lparr>gin_Params = [(''eventID'', ''e1'')], gin_Form = [(''eventID'', [''e2''])], gin_RawData = Inr []\<rparr>"

theorem query_redirects_wait_witness:
  "\<exists>d r. map_of GetDefsByName ''eventWait'' = Some d \<and>
     GetRequest no_ext ''u8'' d (sample_ctx\<lparr>rc_payload := GetPayload sample_gin, rc_path := ''/api/events/e1/wait''\<rparr>) sample_store = Inr r \<and>
     rq_params r = [(''eventID'', GStr ''e2'')]"
proof -
  have "map_option df_AckTimeout (map_of GetDefsByName ''eventWait'') = Some 0" by code_simp
  then obtain d where d: "map_of GetDefsByName ''eventWait'' = Some d" "df_AckTimeout d = 0" by auto
  let ?c = "sample_ctx\<lparr>rc_payload := GetPayload sample_gin, rc_path := ''/api/events/e1/wait''\<rparr>"
  have "map_of (st_byInput sample_store) ''/api/events/e1/wait'' = None" "GetMapDataStr (st_config sample_store) ''ack_timeout'' = None" by code_simp+
  then have "getAckTimeout no_ext sample_store d = Inr 10000000" using d(2) by (simp add: getAckTimeout_def duration_of_def)
  with query_redirects_wait [of sample_gin "''e1''" "''e2''" ?c d sample_store no_ext 10000000 ?c "''u8''"] d(1) \<open>map_of (st_byInput _) _ = _\<close>
  show ?thesis by (auto simp: sample_gin_def)
qed

end
