(* ===== verification/Chat.thy ===== *)
theory Chat
  imports Condition Rpc Config Interpolation
begin

text \<open>
  The part the AI drivers share, \<open>drivers/pkg/ai\<close>: a turn of a conversation, whose text arrives from the
  model in pieces and is put into the cache in larger ones, never in the middle of code; the calls of
  tools; and the commands that read, stop and extend a conversation.

  The cache and the locker are other drivers, reached by RPC. \<open>cw_calls\<close> lists the calls made so far, and
  \<open>ce_answer\<close> says how the last of a list of calls is answered, by an error or by bytes. The AI backend is
  the \<open>Chatter\<close> of the code: it builds messages and calls the two handlers; a turn is the list of these
  calls. \<open>streamHandler\<close> calls \<open>SafeExitOnError\<close> without \<open>defer\<close>, where it has no effect. Time is counted
  in nanoseconds from the zero time of Go.
\<close>

section \<open>Strings\<close>

text \<open>\<open>strings.Count\<close> and \<open>strings.ReplaceAll\<close> by nothing, for a non-empty \<open>sub\<close>.\<close>

fun count_sub :: "string \<Rightarrow> string \<Rightarrow> nat" where
  "count_sub sub [] = 0"
| "count_sub sub (c # s) =
     (if has_prefix (c # s) sub then Suc (count_sub sub (drop (length sub - 1) s)) else count_sub sub s)"

fun remove_sub :: "string \<Rightarrow> string \<Rightarrow> string" where
  "remove_sub sub [] = []"
| "remove_sub sub (c # s) =
     (if has_prefix (c # s) sub then remove_sub sub (drop (length sub - 1) s) else c # remove_sub sub s)"

text \<open>\<open>strings.LastIndex\<close>, and what follows the first occurrence.\<close>

fun last_index :: "string \<Rightarrow> string \<Rightarrow> nat option" where
  "last_index sub [] = None"
| "last_index sub (c # s) = (case last_index sub s of
      Some i \<Rightarrow> Some (Suc i)
    | None \<Rightarrow> if has_prefix (c # s) sub then Some 0 else None)"

fun after_sub :: "string \<Rightarrow> string \<Rightarrow> string" where
  "after_sub sub [] = []"
| "after_sub sub (c # s) = (if has_prefix (c # s) sub then drop (length sub) (c # s) else after_sub sub s)"

section \<open>The wrapper\<close>

datatype chat_call = ChatCall string string "(string, string) gomap" payload

record chatter =
  ct_InitMessages :: "string \<Rightarrow> gval list"
  ct_BuildMessage :: "string \<Rightarrow> gval"
  ct_BuildUserMessage :: "string \<Rightarrow> string \<Rightarrow> gval"
  ct_BuildToolReturnMessage :: "string \<Rightarrow> string \<Rightarrow> string \<Rightarrow> gval"

text \<open>
  \<open>ce_labels\<close> is the decoding of labels by \<open>mapstructure\<close>, \<open>ce_error\<close> the JSON of a recovered value, \<open>ce_uuid\<close> the
  ID of the n-th event, \<open>ce_factory\<close> how the creation of the backend session ends.
\<close>

record chat_env =
  ce_ext :: ext
  ce_fuel :: nat
  ce_answer :: "chat_call list \<Rightarrow> string + string"
  ce_chatter :: chatter
  ce_labels :: "gval \<Rightarrow> (string, string) gomap res"
  ce_error :: "gopanic \<Rightarrow> string res"
  ce_uuid :: "nat \<Rightarrow> string"
  ce_factory :: "gopanic option"

record ChatWrapper =
  cw_driver :: string
  cw_engine :: string
  cw_convID :: string
  cw_prefix :: string
  cw_counter :: string
  cw_step :: string
  cw_ttl :: string
  cw_user :: string
  cw_prompt :: string
  cw_hideThink :: bool
  cw_msgType :: string
  cw_codeBlock :: bool
  cw_inlineCode :: bool
  cw_builder :: string
  cw_lastCheck :: int
  cw_done :: bool
  cw_context :: bool
  cw_cancelled :: bool
  cw_calls :: "chat_call list"
  cw_tools :: "(string, Workflow) gomap"
  cw_events :: "(string \<times> Workflow \<times> gval) list"

type_synonym chat = "ChatWrapper act"

definition chat_do :: "chat_env \<Rightarrow> chat_call \<Rightarrow> (string + string \<Rightarrow> chat) \<Rightarrow> chat" where
  "chat_do E c k w = k (ce_answer E (cw_calls w @ [c])) (w\<lparr>cw_calls := cw_calls w @ [c]\<rparr>)"

text \<open>\<open>dipper.Must\<close> of a call.\<close>

definition must_do :: "chat_env \<Rightarrow> chat_call \<Rightarrow> (string \<Rightarrow> chat) \<Rightarrow> chat" where
  "must_do E c k = chat_do E c (\<lambda>r. case r of Inl e \<Rightarrow> lpanic (PanicErr e) | Inr b \<Rightarrow> k b)"

definition call_params :: "string \<Rightarrow> string \<Rightarrow> gmap \<Rightarrow> chat_call" where
  "call_params feature meth params = ChatCall feature meth [] (PVal (GMap params))"

definition Lock_conv :: "chat_env \<Rightarrow> chat" where
  "Lock_conv E w = must_do E (call_params ''locker'' ''lock'' [(''name'', GStr (cw_prefix w @ ''lock'')), (''expire'', GStr (cw_ttl w))]) (\<lambda>_. lskip) w"

text \<open>\<open>internalCancel\<close> is nil until the contexts exist.\<close>

definition unlock_calls :: "ChatWrapper \<Rightarrow> chat_call list" where
  "unlock_calls w = [call_params ''locker'' ''unlock'' [(''name'', GStr (cw_prefix w @ ''lock''))], call_params ''cache'' ''del'' [(''key'', GStr (cw_step w))]]"

definition Unlock_conv :: "chat_env \<Rightarrow> chat" where
  "Unlock_conv E w = (if \<not> cw_context w then (w, Some NilDereference) else load_each (\<lambda>c. must_do E c (\<lambda>_. lskip)) (unlock_calls w) w)"

definition AppendHistory :: "chat_env \<Rightarrow> string \<Rightarrow> chat" where
  "AppendHistory E msg w = must_do E (call_params ''cache'' ''rpush'' [(''key'', GStr (cw_prefix w @ ''history'')), (''value'', GStr msg)]) (\<lambda>_. lskip) w"

definition append_json :: "chat_env \<Rightarrow> gval \<Rightarrow> chat" where
  "append_json E v = lget (ext_json_marshal (ce_ext E) v) (AppendHistory E)"

text \<open>The initial messages are stored one by one; the result is the JSON list of them.\<close>

fun init_history :: "chat_env \<Rightarrow> gval list \<Rightarrow> string \<Rightarrow> (string \<Rightarrow> chat) \<Rightarrow> chat" where
  "init_history E [] buf k = k (buf @ '']'')"
| "init_history E (m # ms) buf k =
     lget (ext_json_marshal (ce_ext E) m) (\<lambda>j.
     lseq (AppendHistory E j) (init_history E ms (buf @ (if length buf > 2 then '','' else []) @ j) k))"

definition GetHistory :: "chat_env \<Rightarrow> (string \<Rightarrow> chat) \<Rightarrow> chat" where
  "GetHistory E k w = chat_do E (call_params ''cache'' ''lrange'' [(''key'', GStr (cw_prefix w @ ''history''))]) (\<lambda>r.
     let resp = (case r of Inl _ \<Rightarrow> [] | Inr b \<Rightarrow> b) in
     if length resp \<le> 2 then init_history E (ct_InitMessages (ce_chatter E) (cw_engine w)) ''['' k else k resp) w"

section \<open>Starting a turn\<close>

text \<open>The steps after the lock; the deferred function unlocks when one of them panics.\<close>

definition start_turn :: "chat_env \<Rightarrow> chat" where
  "start_turn E w =
    must_do E (call_params ''cache'' ''incr'' [(''key'', GStr (cw_prefix w @ ''counter''))]) (\<lambda>counter w1.
      let w2 = w1\<lparr>cw_counter := counter, cw_step := cw_prefix w1 @ counter\<rparr> in
      must_do E (call_params ''cache'' ''save'' [(''key'', GStr (cw_step w2)), (''value'', GStr ''1'')]) (\<lambda>_ w3.
        case ext_parse_duration (ce_ext E) (cw_ttl w3) of
          None \<Rightarrow> (w3, Some (PanicErr (''time: invalid duration '' @ cw_ttl w3)))
        | Some _ \<Rightarrow> (w3\<lparr>cw_context := True\<rparr>, ce_factory E)) w2) w"

definition NewWrapper_fields :: "chat_env \<Rightarrow> string \<Rightarrow> gval \<Rightarrow> (string, Workflow) gomap \<Rightarrow> Message \<Rightarrow> ChatWrapper res" where
  "NewWrapper_fields E dname options tools msg =
    rbind (DeserializePayload (ce_ext E) msg) (\<lambda>m.
    rbind (MustGetMapDataStr (payload_val m) ''user'') (\<lambda>user.
    rbind (MustGetMapDataStr (payload_val m) ''prompt'') (\<lambda>prompt.
    rbind (MustGetMapDataStr (payload_val m) ''convID'') (\<lambda>convID.
    let or_else = (\<lambda>s d. case s of Some v \<Rightarrow> if v = [] then d else v | None \<Rightarrow> d);
        engine = or_else (GetMapDataStr (payload_val m) ''engine'') ''default'';
        opt = ''data.engine.'' @ engine @ ''.'' in
    Inr \<lparr>cw_driver = dname, cw_engine = engine, cw_convID = convID, cw_prefix = dname @ ''/conv/'' @ convID @ ''/'',
      cw_counter = [], cw_step = [], cw_ttl = or_else (GetMapDataStr options (opt @ ''ttl'')) ''10m'', cw_user = user, cw_prompt = prompt,
      cw_hideThink = fst (GetMapDataBool options (opt @ ''hide_think'')), cw_msgType = [], cw_codeBlock = False, cw_inlineCode = False,
      cw_builder = [], cw_lastCheck = 0, cw_done = False, cw_context = False, cw_cancelled = False, cw_calls = [], cw_tools = tools,
      cw_events = []\<rparr>))))"

definition busy_reply :: Message where
  "busy_reply = zero_message\<lparr>Payload := PVal (GMap [(''busy'', GBool True)])\<rparr>"

text \<open>The wrapper with its calls, the replies, and the panic that ends \<open>NewWrapper\<close>.\<close>

definition NewWrapper :: "chat_env \<Rightarrow> string \<Rightarrow> gval \<Rightarrow> (string, Workflow) gomap \<Rightarrow> Message \<Rightarrow> (ChatWrapper \<times> Message list \<times> gopanic option) res" where
  "NewWrapper E dname options tools msg = rmap (\<lambda>w.
     case Lock_conv E w of
       (w1, Some e) \<Rightarrow> (w1, [busy_reply], Some e)
     | (w1, None) \<Rightarrow> (case start_turn E w1 of
         (w2, None) \<Rightarrow> (w2, [], None)
       | (w2, Some e) \<Rightarrow> (case Unlock_conv E w2 of
           (w3, None) \<Rightarrow> (w3, [], Some e)
         | (w3, Some e') \<Rightarrow> (w3, [], Some e'))))
    (NewWrapper_fields E dname options tools msg)"

section \<open>Streaming\<close>

definition response_params :: "ChatWrapper \<Rightarrow> bool \<Rightarrow> string \<Rightarrow> gmap" where
  "response_params w done content = [(''key'', GStr (cw_step w @ ''/response'')),
     (''value'', GMap [(''done'', GBool done), (''content'', GStr content), (''type'', GStr (cw_msgType w))])]"

definition chatEmit :: "chat_env \<Rightarrow> bool \<Rightarrow> chat" where
  "chatEmit E done w = (if cw_done w then (w, None) else
     let content = cw_builder w in
     lseq (if content \<noteq> [] then append_json E (ct_BuildMessage (ce_chatter E) content) else lskip)
       (\<lambda>w'. must_do E (call_params ''cache'' ''rpush'' (response_params w' done content)) (\<lambda>_. lskip) w')
       (w\<lparr>cw_done := done, cw_builder := []\<rparr>))"

text \<open>The text that is left, whether the thoughts end with it, and whether there is nothing to do.\<close>

definition handleThoughts :: "string \<Rightarrow> ChatWrapper \<Rightarrow> ChatWrapper \<times> string \<times> bool \<times> bool" where
  "handleThoughts text w =
    (let w1 = (if contains text ''<think>'' then w\<lparr>cw_msgType := ''think''\<rparr> else w);
         typeChange = contains text ''</think>'' in
     if cw_hideThink w1 \<and> cw_msgType w1 = ''think'' then
       (if \<not> typeChange then (w1, [], typeChange, True)
        else (let text' = trim_space (after_sub ''</think>'' text) in
          (w1\<lparr>cw_msgType := []\<rparr>, text', typeChange, text' = [])))
     else (w1, text, typeChange, False))"

definition fence :: string where "fence = [CHR 0x60, CHR 0x60, CHR 0x60]"
definition backtick :: string where "backtick = [CHR 0x60]"

text \<open>The text up to the end of the code block is emitted with the block, the rest goes on.\<close>

definition close_block :: "chat_env \<Rightarrow> bool \<Rightarrow> string \<Rightarrow> (string \<Rightarrow> chat) \<Rightarrow> chat" where
  "close_block E done text k w = (case last_index fence text of
      None \<Rightarrow> (w, Some IndexOutOfRange)
    | Some i \<Rightarrow> (let rest = trim_space (drop (i + 3) text) in
        lseq (chatEmit E (done \<and> rest = [])) (k rest) (w\<lparr>cw_builder := cw_builder w @ take i text @ fence\<rparr>)))"

definition user_check :: "chat_env \<Rightarrow> int \<Rightarrow> chat" where
  "user_check E now w = (if now > cw_lastCheck w + 10 * 1000000000 then
     chat_do E (ChatCall ''cache'' ''exists'' [] (PRaw (cw_step w))) (\<lambda>r w1. case r of
         Inl e \<Rightarrow> (w1, Some (PanicErr e))
       | Inr b \<Rightarrow> if b = [] then chatEmit E True (w1\<lparr>cw_cancelled := True\<rparr>) else (w1, None))
       (w\<lparr>cw_lastCheck := now\<rparr>)
     else (w, None))"

definition buffer_text :: "chat_env \<Rightarrow> int \<Rightarrow> bool \<Rightarrow> bool \<Rightarrow> bool \<Rightarrow> string \<Rightarrow> chat" where
  "buffer_text E now done typeChange boundary text w =
    (let inlineBoundary = odd (count_sub backtick (remove_sub fence text));
         w1 = w\<lparr>cw_codeBlock := (cw_codeBlock w \<noteq> boundary), cw_inlineCode := (cw_inlineCode w \<noteq> inlineBoundary),
              cw_builder := cw_builder w @ text\<rparr> in
     lseq (if cw_codeBlock w1 \<or> cw_inlineCode w1 then lskip
           else if done \<or> typeChange \<or> has_suffix text [newline] \<or> length (cw_builder w1) > 2990 then chatEmit E done
           else lskip)
      (\<lambda>w2. let w3 = (if typeChange then w2\<lparr>cw_msgType := []\<rparr> else w2) in if done then (w3, None) else user_check E now w3) w1)"

definition streamHandler :: "chat_env \<Rightarrow> int \<Rightarrow> string \<Rightarrow> bool \<Rightarrow> chat" where
  "streamHandler E now t done w = (case handleThoughts t w of (w1, text, typeChange, skip) \<Rightarrow>
     if skip then (w1, None)
     else (let boundary = odd (count_sub fence text) in
       if cw_codeBlock w1 \<and> boundary then close_block E done text (buffer_text E now done typeChange boundary) w1
       else lseq (if boundary then chatEmit E False else lskip) (buffer_text E now done typeChange boundary text) w1))"

section \<open>Tools\<close>

definition fetch_call :: "ChatWrapper \<Rightarrow> string \<Rightarrow> chat_call" where
  "fetch_call w s =
    (let parts0 = split_on CHR '','' (trim_prefix s ''@cache:'');
         useRaw = (length parts0 > 3 \<and> hd parts0 = ''raw''); parts1 = (if length parts0 > 3 then tl parts0 else parts0);
         del = (length parts1 > 2 \<and> hd parts1 = ''del''); parts2 = (if length parts1 > 2 then tl parts1 else parts1);
         useStep = (length parts2 > 1 \<and> hd parts2 = ''step''); parts3 = (if length parts2 > 1 then tl parts2 else parts2);
         key = (if useStep then cw_step w else cw_prefix w) @ ''/'' @ hd parts3 in
     call_params ''cache'' ''lrange'' [(''key'', GStr key), (''raw'', GBool useRaw), (''del'', GBool del)])"

text \<open>\<open>dipper.Recursive\<close> with \<open>fetchCache\<close>: every string that asks for a cached value is replaced by it.\<close>

fun fetch_val :: "chat_env \<Rightarrow> gval \<Rightarrow> (gval \<Rightarrow> chat) \<Rightarrow> chat"
  and fetch_fields :: "chat_env \<Rightarrow> gmap \<Rightarrow> (gmap \<Rightarrow> chat) \<Rightarrow> chat"
  and fetch_elems :: "chat_env \<Rightarrow> gval list \<Rightarrow> (gval list \<Rightarrow> chat) \<Rightarrow> chat" where
  "fetch_val E (GMap m) k = fetch_fields E m (\<lambda>m'. k (GMap m'))"
| "fetch_val E (GList xs) k = fetch_elems E xs (\<lambda>xs'. k (GList xs'))"
| "fetch_val E (GStr s) k = (if has_prefix s ''@cache:'' then (\<lambda>w. must_do E (fetch_call w s) (\<lambda>val. k (GStr val)) w) else k (GStr s))"
| "fetch_val E v k = k v"
| "fetch_fields E [] k = k []"
| "fetch_fields E ((f, v) # m) k = fetch_val E v (\<lambda>v'. fetch_fields E m (\<lambda>m'. k ((f, v') # m')))"
| "fetch_elems E [] k = k []"
| "fetch_elems E (v # vs) k = fetch_val E v (\<lambda>v'. fetch_elems E vs (\<lambda>vs'. k (v' # vs')))"

text \<open>A string at the root has no parent to be replaced in.\<close>

definition fetch_args :: "chat_env \<Rightarrow> gval \<Rightarrow> (gval \<Rightarrow> chat) \<Rightarrow> chat" where
  "fetch_args E v k = (case v of GStr s \<Rightarrow> k v | _ \<Rightarrow> fetch_val E v k)"

text \<open>What the backend does with the message comes back as further calls of the handlers.\<close>

definition relayFuncReturn :: "chat_env \<Rightarrow> string \<Rightarrow> string \<Rightarrow> string \<Rightarrow> chat" where
  "relayFuncReturn E name callID b = append_json E (ct_BuildToolReturnMessage (ce_chatter E) name callID b)"

definition tool_env :: "gval \<Rightarrow> ChatWrapper \<Rightarrow> gmap" where
  "tool_env args w = [(''args'', args), (''prefix'', GStr (cw_prefix w)), (''step'', GStr (cw_step w))]"

fun interpolate_labels :: "chat_env \<Rightarrow> gval \<Rightarrow> (string, string) gomap \<Rightarrow> (string, string) gomap res" where
  "interpolate_labels E data [] = Inr []"
| "interpolate_labels E data ((k, v) # ls) =
     rbind (InterpolateStr (ce_ext E) (ce_fuel E) v data) (\<lambda>v'.
     rbind (interpolate_labels E data ls) (\<lambda>ls'. Inr ((k, v') # ls')))"

text \<open>The payload, the labels with the receiver, and whether to wait.\<close>

definition tool_message :: "chat_env \<Rightarrow> gval \<Rightarrow> Workflow \<Rightarrow> ChatWrapper \<Rightarrow> (chat_call \<times> bool) res" where
  "tool_message E args workflow w =
    (let Local = wf_Local (wd workflow); data = GMap (tool_env args w);
         interpolate = (\<lambda>v. Interpolate (ce_ext E) (ce_fuel E) v data);
         value = (\<lambda>key. case GetMapData Local key of Some v \<Rightarrow> v | None \<Rightarrow> GNil) in
     rbind (case GetMapData Local ''labels'' of None \<Rightarrow> Inr [] | Some l \<Rightarrow> ce_labels E l) (\<lambda>labels.
     rbind (interpolate (value ''parameters'')) (\<lambda>payload.
     rbind (interpolate (value ''no_wait'')) (\<lambda>noWait.
     rbind (interpolate_labels E data labels) (\<lambda>ls.
     let parts = split_on CHR ''.'' (wf_CallDriver (wd workflow)) in
     if length parts < 2 then Inl IndexOutOfRange
     else Inr (ChatCall (hd parts) (parts ! 1) ls (val_payload payload), IsTruthy noWait))))))"

definition toolCallDriverHandler :: "chat_env \<Rightarrow> string \<Rightarrow> gval \<Rightarrow> Workflow \<Rightarrow> string \<Rightarrow> chat" where
  "toolCallDriverHandler E name args workflow callID w =
    (let output = (case GetMapData (wf_Local (wd workflow)) ''output'' of Some v \<Rightarrow> v | None \<Rightarrow> GNil);
         relay = (\<lambda>ret. lget (rbind (Interpolate (ce_ext E) (ce_fuel E) output (GMap (tool_env args w @ ret))) (ext_json_marshal (ce_ext E)))
           (relayFuncReturn E name callID)) in
     lget (tool_message E args workflow w) (\<lambda>(call, noWait).
       must_do E call (\<lambda>b. if noWait then relay []
         else lget (DeserializeContent (ce_ext E) b) (\<lambda>ret. relay [(''ret'', ret)]))) w)"

text \<open>
  The workflow of a tool is an object of the driver: taking \<open>_local\<close> out of it and filling it in changes
  it for all later calls.
\<close>

definition set_local :: "string \<Rightarrow> gval \<Rightarrow> ChatWrapper \<Rightarrow> ChatWrapper" where
  "set_local name Local w = (case map_of (cw_tools w) name of
      None \<Rightarrow> w
    | Some workflow \<Rightarrow> w\<lparr>cw_tools := mput name (upd_wd (\<lambda>d. d\<lparr>wf_Local := Local\<rparr>) workflow) (cw_tools w)\<rparr>)"

definition fill_local :: "chat_env \<Rightarrow> string \<Rightarrow> gval \<Rightarrow> Workflow \<Rightarrow> chat \<Rightarrow> chat" where
  "fill_local E name args workflow k w = (case (wf_Local (wd workflow), GetMapData (wf_Local (wd workflow)) ''_local'') of
      (GMap Local, Some local) \<Rightarrow>
        (let rest = mdel ''_local'' Local in
         lget (Interpolate (ce_ext E) (ce_fuel E) local (GMap (tool_env args w))) (\<lambda>local'.
         fetch_args E local' (\<lambda>filled w1. k (set_local name (if rest \<noteq> [] then GList [filled, GMap rest] else filled) w1)))
         (set_local name (GMap rest) w))
    | _ \<Rightarrow> k w)"

definition emit_tool_event :: "chat_env \<Rightarrow> string \<Rightarrow> gval \<Rightarrow> string \<Rightarrow> chat" where
  "emit_tool_event E name args callID w = (case map_of (cw_tools w) name of
      None \<Rightarrow> (w, Some NilDereference)
    | Some workflow \<Rightarrow>
        (let eventID = ce_uuid E (length (cw_events w)) in
         must_do E (ChatCall ''cache'' ''blpop'' [(''timeout'', ''15m'')] (PVal (GMap [(''key'', GStr (''honeydipper/result/'' @ eventID))])))
           (relayFuncReturn E name callID)
           (w\<lparr>cw_events := cw_events w @ [(eventID, workflow, args)]\<rparr>)))"

definition tool_body :: "chat_env \<Rightarrow> string \<Rightarrow> gval \<Rightarrow> string \<Rightarrow> string \<Rightarrow> chat" where
  "tool_body E json args name callID w =
    lseq (if cw_builder w \<noteq> [] then chatEmit E False else lskip)
    (lseq (AppendHistory E json)
    (fetch_args E args (\<lambda>args' w1. case map_of (cw_tools w1) name of
        None \<Rightarrow> (w1, Some (PanicErr (''map error: path not valid: data.tools.'' @ name @ ''.workflow'')))
      | Some workflow \<Rightarrow>
          if fn_RawAction (wf_Function (wd workflow)) = ''rpc'' then toolCallDriverHandler E name args' workflow callID w1
          else fill_local E name args' workflow (emit_tool_event E name args' callID) w1))) w"

text \<open>A panic is relayed to the model as the result of the tool.\<close>

definition toolCallHandler :: "chat_env \<Rightarrow> string \<Rightarrow> gval \<Rightarrow> string \<Rightarrow> string \<Rightarrow> chat" where
  "toolCallHandler E json args name callID w = (case tool_body E json args name callID w of
      (w1, None) \<Rightarrow> (w1, None)
    | (w1, Some e) \<Rightarrow> if fatal e then (w1, Some e) else lget (ce_error E e) (relayFuncReturn E name callID) w1)"

section \<open>A turn\<close>

datatype chat_event = Chunk int string bool | ToolCall string gval string string

fun handle_chat_event :: "chat_env \<Rightarrow> chat_event \<Rightarrow> chat" where
  "handle_chat_event E (Chunk now text done) = streamHandler E now text done"
| "handle_chat_event E (ToolCall json args name callID) = toolCallHandler E json args name callID"

definition turn_body :: "chat_env \<Rightarrow> (gval \<Rightarrow> string \<Rightarrow> chat_event list) \<Rightarrow> chat" where
  "turn_body E stream w = GetHistory E (\<lambda>h.
     let m = ct_BuildUserMessage (ce_chatter E) (cw_user w) (cw_prompt w) in
     lseq (append_json E m) (load_each (handle_chat_event E) (stream m h))) w"

text \<open>The reply that opens the turn, and its goroutine, which unlocks the conversation however it ends.\<close>

definition relay_reply :: "ChatWrapper \<Rightarrow> Message" where
  "relay_reply w = zero_message\<lparr>Payload := PVal (GMap [(''counter'', GStr (cw_counter w)), (''convID'', GStr (cw_convID w))])\<rparr>"

definition ChatRelay :: "chat_env \<Rightarrow> (gval \<Rightarrow> string \<Rightarrow> chat_event list) \<Rightarrow> ChatWrapper \<Rightarrow> Message \<times> ChatWrapper" where
  "ChatRelay E stream w = (relay_reply w, case turn_body E stream w of
      (w1, Some e) \<Rightarrow> if fatal e then w1 else fst (Unlock_conv E w1)
    | (w1, None) \<Rightarrow> fst (Unlock_conv E w1))"

section \<open>Commands on a conversation\<close>

text \<open>The calls of a command, its replies, and the panic that ends it.\<close>

type_synonym chat_run = "chat_call list \<times> Message list \<times> gopanic option"

definition conv_step :: "string \<Rightarrow> string \<Rightarrow> string \<Rightarrow> string" where
  "conv_step dname convID counter = dname @ ''/conv/'' @ convID @ ''/'' @ counter"

definition pop_response :: "string \<Rightarrow> string \<Rightarrow> chat_call" where
  "pop_response timeout step = ChatCall ''cache'' ''blpop'' [(''timeout'', timeout)] (PVal (GMap [(''key'', GStr (step @ ''/response''))]))"

definition continue_reply :: "bool \<Rightarrow> string \<Rightarrow> Message" where
  "continue_reply cancelled resp =
    (if resp = [] then zero_message\<lparr>Payload := PVal (GMap [(''done'', GBool cancelled), (''content'', GStr []), (''type'', GStr [])])\<rparr>
     else zero_message\<lparr>Payload := PRaw resp, IsRaw := True\<rparr>)"

definition answer_bytes :: "string + string \<Rightarrow> string" where
  "answer_bytes r = (case r of Inl _ \<Rightarrow> [] | Inr b \<Rightarrow> b)"

definition no_timeout_reply :: Message where
  "no_timeout_reply = zero_message\<lparr>Labels := Some [(''no-timeout'', ''true'')]\<rparr>"

definition continue_conv :: "(chat_call list \<Rightarrow> string + string) \<Rightarrow> string \<Rightarrow> string \<Rightarrow> chat_run" where
  "continue_conv answer timeout step =
    (let c1 = [pop_response timeout step]; r1 = answer_bytes (answer c1) in
     if r1 \<noteq> [] then (c1, [no_timeout_reply, continue_reply False r1], None)
     else (let c2 = c1 @ [ChatCall ''cache'' ''exists'' [] (PRaw step)] in
       case answer c2 of
         Inl e \<Rightarrow> (c2, [no_timeout_reply], Some (PanicErr e))
       | Inr b \<Rightarrow> if b \<noteq> [] then (c2, [no_timeout_reply, continue_reply False []], None)
           else (let c3 = c2 @ [pop_response ''1s'' step] in
             (c3, [no_timeout_reply, continue_reply True (answer_bytes (answer c3))], None))))"

definition ChatContinue :: "ext \<Rightarrow> (chat_call list \<Rightarrow> string + string) \<Rightarrow> string \<Rightarrow> Message \<Rightarrow> chat_run" where
  "ChatContinue X answer dname msg =
    (case rbind (DeserializePayload X msg) (\<lambda>m. rbind (MustGetMapDataStr (payload_val m) ''convID'') (\<lambda>convID.
        rmap (conv_step dname convID) (MustGetMapDataStr (payload_val m) ''counter''))) of
      Inl e \<Rightarrow> ([], [no_timeout_reply], Some e)
    | Inr step \<Rightarrow> continue_conv answer (if label_str msg ''timeout'' \<noteq> [] then label_str msg ''timeout'' @ ''s'' else ''30s'') step)"

definition ChatStop :: "ext \<Rightarrow> (chat_call list \<Rightarrow> string + string) \<Rightarrow> string \<Rightarrow> Message \<Rightarrow> chat_run" where
  "ChatStop X answer dname msg =
    (case rbind (DeserializePayload X msg) (\<lambda>m. rmap (Pair m) (MustGetMapDataStr (payload_val m) ''convID'')) of
      Inl e \<Rightarrow> ([], [], Some e)
    | Inr (m, convID) \<Rightarrow>
        (let finish = (\<lambda>cs counter. let cs' = cs @ [call_params ''cache'' ''del'' [(''key'', GStr (conv_step dname convID counter))]] in
           case answer cs' of Inl e \<Rightarrow> (cs', [], Some (PanicErr e)) | Inr _ \<Rightarrow> (cs', [zero_message], None));
             load = [call_params ''cache'' ''load'' [(''key'', GStr (conv_step dname convID ''counter''))]] in
         case GetMapDataStr (payload_val m) ''counter'' of
           Some (c # counter) \<Rightarrow> finish [] (c # counter)
         | _ \<Rightarrow> (case answer load of Inl e \<Rightarrow> (load, [], Some (PanicErr e)) | Inr counter \<Rightarrow> finish load counter)))"

text \<open>\<open>builder\<close> makes the message of the user; it is appended to a conversation that exists.\<close>

definition ChatListen :: "ext \<Rightarrow> (chat_call list \<Rightarrow> string + string) \<Rightarrow> (string \<Rightarrow> string \<Rightarrow> gval) \<Rightarrow> string \<Rightarrow> Message \<Rightarrow> chat_run" where
  "ChatListen X answer builder dname msg =
    (case rbind (DeserializePayload X msg) (\<lambda>m. rmap (Pair m) (MustGetMapDataStr (payload_val m) ''convID'')) of
      Inl e \<Rightarrow> ([], [], Some e)
    | Inr (m, convID) \<Rightarrow>
        (let history = conv_step dname convID ''history''; c1 = [ChatCall ''cache'' ''exists'' [] (PRaw history)] in
         case answer c1 of
           Inl e \<Rightarrow> (c1, [], Some (PanicErr e))
         | Inr [] \<Rightarrow> (c1, [zero_message], None)
         | Inr _ \<Rightarrow> (case rbind (MustGetMapDataStr (payload_val m) ''user'') (\<lambda>user.
               rbind (MustGetMapDataStr (payload_val m) ''prompt'') (\<lambda>prompt. ext_json_marshal X (builder user prompt))) of
             Inl e \<Rightarrow> (c1, [], Some e)
           | Inr j \<Rightarrow> (let c2 = c1 @ [call_params ''cache'' ''rpush'' [(''key'', GStr history), (''value'', GStr j)]] in
               case answer c2 of Inl e \<Rightarrow> (c2, [], Some (PanicErr e)) | Inr _ \<Rightarrow> (c2, [zero_message], None)))))"

section \<open>Lemmas\<close>

lemma lseq_None: "a st = (st', None) \<Longrightarrow> lseq a b st = b st'"
  by (simp add: lseq_def)

text \<open>What a reader of the conversation has been given: the pieces put under \<open>response\<close>, with their end marks.\<close>

definition response_of :: "chat_call \<Rightarrow> (bool \<times> string) option" where
  "response_of c = (case c of ChatCall feature meth ls p \<Rightarrow> (case p of
      PVal (GMap [(k1, v), (k2, GMap [(d, GBool done), (t, GStr content), ty])]) \<Rightarrow> Some (done, content)
    | _ \<Rightarrow> None))"

definition responses :: "ChatWrapper \<Rightarrow> (bool \<times> string) list" where
  "responses w = List.map_filter response_of (cw_calls w)"

definition spoken :: "ChatWrapper \<Rightarrow> string" where
  "spoken w = concat (map snd (responses w)) @ cw_builder w"

text \<open>What is kept of the text of the model, piece by piece: everything, but in a piece that closes a code block the
  white space around what follows the block is cut off. A piece with an odd number of fences opens or closes a block.\<close>

definition kept_piece :: "bool \<Rightarrow> string \<Rightarrow> string" where
  "kept_piece inside t = (if inside \<and> odd (count_sub fence t) then
     (case last_index fence t of None \<Rightarrow> t | Some i \<Rightarrow> take i t @ fence @ trim_space (drop (i + 3) t)) else t)"

fun kept :: "bool \<Rightarrow> string list \<Rightarrow> string" where
  "kept inside [] = []"
| "kept inside (t # ts) = kept_piece inside t @ kept (inside \<noteq> odd (count_sub fence t)) ts"

lemma kept_append: "kept inside (ts @ us) = kept inside ts @ kept (inside \<noteq> odd (\<Sum>t\<leftarrow>ts. count_sub fence t)) us"
proof (induction ts arbitrary: inside)
  case (Cons t ts)
  have "((inside \<noteq> odd (count_sub fence t)) \<noteq> odd (\<Sum>t\<leftarrow>ts. count_sub fence t)) = (inside \<noteq> odd (\<Sum>t\<leftarrow>t # ts. count_sub fence t))"
    by auto
  with Cons show ?case by simp
qed simp

lemma kept_outside: "list_all (\<lambda>t. even (count_sub fence t)) ts \<Longrightarrow> kept inside ts = concat ts"
  by (induction ts) (simp_all add: kept_piece_def)

text \<open>The other drivers answer, and every message has a JSON form.\<close>

definition working :: "chat_env \<Rightarrow> bool" where
  "working E \<longleftrightarrow> (\<forall>cs. ce_answer E cs \<in> range Inr) \<and> (\<forall>v. ext_json_marshal (ce_ext E) v \<in> range Inr)"

lemma workingE:
  assumes "working E"
  obtains b where "ce_answer E cs = Inr b"
  using assms by (auto simp: working_def)

lemma working_json:
  assumes "working E"
  obtains j where "ext_json_marshal (ce_ext E) v = Inr j"
  using assms by (auto simp: working_def)

lemma map_filter_append [simp]: "List.map_filter f (xs @ ys) = List.map_filter f xs @ List.map_filter f ys"
  by (simp add: List.map_filter_def)

lemma map_filter_single [simp]: "List.map_filter f [x] = (case f x of None \<Rightarrow> [] | Some y \<Rightarrow> [y])"
  by (simp add: List.map_filter_def split: option.split)

lemma last_index_found:
  assumes "last_index sub s = Some i" and "sub \<noteq> []"
  shows "s = take i s @ sub @ drop (i + length sub) s"
  using assms
proof (induction s arbitrary: i)
  case (Cons c s)
  show ?case
  proof (cases "last_index sub s")
    case None
    with Cons.prems have "i = 0" "take (length sub) (c # s) = sub" by (auto simp: has_prefix_def split: if_splits)
    then show ?thesis by (metis add_0 append_Nil append_take_drop_id take0)
  next
    case (Some j)
    with Cons.prems have i: "i = Suc j" by simp
    from Cons.IH [OF Some Cons.prems(2)] have "s = take j s @ sub @ drop (j + length sub) s" .
    then show ?thesis unfolding i by simp
  qed
qed simp

lemma last_index_counted: "count_sub sub s \<noteq> 0 \<Longrightarrow> last_index sub s \<noteq> None"
  by (induction s) (auto split: if_splits option.splits)

section \<open>Emitting\<close>

text \<open>Only the last piece may carry the end mark.\<close>

definition ended :: "ChatWrapper \<Rightarrow> bool" where
  "ended w \<longleftrightarrow> (\<exists>n. map fst (responses w) = replicate n False @ (if cw_done w then [True] else []))"

text \<open>A handler of a working wrapper: no panic, exactly the given text is added, the end mark comes last.\<close>

definition relays :: "string \<Rightarrow> bool \<Rightarrow> ChatWrapper \<Rightarrow> ChatWrapper \<times> gopanic option \<Rightarrow> bool" where
  "relays t turns w r \<longleftrightarrow> snd r = None \<and> spoken (fst r) = spoken w @ t \<and> (ended w \<longrightarrow> ended (fst r)) \<and>
     cw_hideThink (fst r) = cw_hideThink w \<and> (cw_done w \<longrightarrow> cw_done (fst r)) \<and> cw_codeBlock (fst r) = (cw_codeBlock w \<noteq> turns)"

lemma relaysD:
  assumes "relays t turns w r"
  shows "r = (fst r, None)" and "spoken (fst r) = spoken w @ t" and "ended w \<Longrightarrow> ended (fst r)"
    and "cw_hideThink (fst r) = cw_hideThink w" and "cw_done w \<Longrightarrow> cw_done (fst r)" and "cw_codeBlock (fst r) = (cw_codeBlock w \<noteq> turns)"
  using assms by (auto simp: relays_def prod_eq_iff)

lemma relays_lseq:
  assumes "relays t1 b1 w (a w)" and "relays t2 b2 (fst (a w)) (b (fst (a w)))"
  shows "relays (t1 @ t2) (b1 \<noteq> b2) w (lseq a b w)"
proof -
  have "lseq a b w = b (fst (a w))" using relaysD(1) [OF assms(1)] by (rule lseq_None)
  with assms show ?thesis by (auto simp: relays_def)
qed

lemma relays_same [simp]: "relays [] False w (w, None)" "relays [] False w (lskip w)"
  by (simp_all add: relays_def lskip_def)

lemma append_json_works:
  assumes "working E"
  shows "\<exists>c. append_json E v w = (w\<lparr>cw_calls := cw_calls w @ [c]\<rparr>, None) \<and> response_of c = None"
proof -
  obtain j where j: "ext_json_marshal (ce_ext E) v = Inr j" by (rule working_json [OF assms])
  let ?c = "call_params ''cache'' ''rpush'' [(''key'', GStr (cw_prefix w @ ''history'')), (''value'', GStr j)]"
  obtain b where "ce_answer E (cw_calls w @ [?c]) = Inr b" by (rule workingE [OF assms])
  then show ?thesis using j
    by (intro exI [of _ ?c]) (simp add: append_json_def AppendHistory_def must_do_def chat_do_def lskip_def response_of_def call_params_def)
qed

lemma chatEmit_works:
  assumes "working E"
  shows "\<exists>cs. chatEmit E d w = (if cw_done w then w else w\<lparr>cw_done := d, cw_builder := [], cw_calls := cw_calls w @ cs\<rparr>, None) \<and>
    (cw_done w \<or> List.map_filter response_of cs = [(d, cw_builder w)])"
proof (cases "cw_done w")
  case False
  let ?w = "w\<lparr>cw_done := d, cw_builder := []\<rparr>"
  let ?hist = "if cw_builder w \<noteq> [] then append_json E (ct_BuildMessage (ce_chatter E) (cw_builder w)) else lskip"
  obtain cs where hist: "?hist ?w = (?w\<lparr>cw_calls := cw_calls w @ cs\<rparr>, None)" "List.map_filter response_of cs = []"
  proof (cases "cw_builder w = []")
    case True
    then show ?thesis using that [of "[]"] by (simp add: lskip_def List.map_filter_def)
  next
    case False
    with append_json_works [OF assms, of "ct_BuildMessage (ce_chatter E) (cw_builder w)" ?w] obtain c where
      "?hist ?w = (?w\<lparr>cw_calls := cw_calls w @ [c]\<rparr>, None)" "response_of c = None" by auto
    then show ?thesis using that [of "[c]"] by simp
  qed
  let ?w1 = "?w\<lparr>cw_calls := cw_calls w @ cs\<rparr>"
  let ?c = "call_params ''cache'' ''rpush'' (response_params ?w1 d (cw_builder w))"
  obtain b where b: "ce_answer E ((cw_calls w @ cs) @ [?c]) = Inr b" by (rule workingE [OF assms])
  have "chatEmit E d w = must_do E ?c (\<lambda>_. lskip) ?w1"
    using False by (simp add: chatEmit_def Let_def lseq_None [where a = ?hist, OF hist(1)])
  also have "\<dots> = (?w1\<lparr>cw_calls := (cw_calls w @ cs) @ [?c]\<rparr>, None)" using b by (simp add: must_do_def chat_do_def lskip_def)
  finally show ?thesis using False hist(2)
    by (intro exI [of _ "cs @ [?c]"]) (simp add: response_of_def call_params_def response_params_def)
qed (simp add: chatEmit_def)

lemma chatEmit_relays:
  assumes "working E"
  shows "relays [] False w (chatEmit E d w)"
proof -
  obtain cs where cs: "chatEmit E d w = (if cw_done w then w else w\<lparr>cw_done := d, cw_builder := [], cw_calls := cw_calls w @ cs\<rparr>, None)"
    "cw_done w \<or> List.map_filter response_of cs = [(d, cw_builder w)]" using chatEmit_works [OF assms] by blast
  have "ended w \<Longrightarrow> \<not> cw_done w \<Longrightarrow> \<exists>n. map fst (responses w) @ [d] = replicate n False @ (if d then [True] else [])"
    by (auto simp: ended_def simp flip: replicate_append_same intro: exI [of _ "Suc _"])
  with cs show ?thesis
    by (auto simp: relays_def responses_def spoken_def ended_def)
qed

lemma user_check_relays:
  assumes "working E"
  shows "relays [] False w (user_check E now w)"
proof (cases "now > cw_lastCheck w + 10 * 1000000000")
  case True
  let ?c = "ChatCall ''cache'' ''exists'' [] (PRaw (cw_step w))"
  let ?w = "w\<lparr>cw_lastCheck := now, cw_calls := cw_calls w @ [?c]\<rparr>"
  obtain b where b: "ce_answer E (cw_calls w @ [?c]) = Inr b" by (rule workingE [OF assms])
  have check: "user_check E now w = (if b = [] then chatEmit E True (?w\<lparr>cw_cancelled := True\<rparr>) else (?w, None))"
    using True b by (simp add: user_check_def chat_do_def)
  have "responses ?w = responses w" by (simp add: responses_def response_of_def)
  then have same: "relays [] False w r" if "relays [] False (?w\<lparr>cw_cancelled := c\<rparr>) r" for r c
    using that by (simp add: relays_def spoken_def ended_def responses_def)
  have "relays [] False w (chatEmit E True (?w\<lparr>cw_cancelled := True\<rparr>))" by (rule same [OF chatEmit_relays [OF assms]])
  moreover have "relays [] False w (?w, None)" using same [OF relays_same(1), of "cw_cancelled w"] by simp
  ultimately show ?thesis unfolding check by simp
qed (simp add: user_check_def)

text \<open>Fields that have no part in what has been said.\<close>

lemma relays_msgType: "relays t b (w\<lparr>cw_msgType := ty\<rparr>) r \<Longrightarrow> relays t b w r"
  by (simp add: relays_def spoken_def ended_def responses_def)

lemma relays_buffer: "relays t b (w\<lparr>cw_builder := cw_builder w @ s\<rparr>) r \<Longrightarrow> relays (s @ t) b w r"
  by (simp add: relays_def spoken_def ended_def responses_def)

lemma buffer_text_relays:
  assumes "working E"
  shows "relays text boundary w (buffer_text E now done typeChange boundary text w)"
proof -
  define ic where "ic = (cw_inlineCode w \<noteq> odd (count_sub backtick (remove_sub fence text)))"
  define w1 where "w1 = w\<lparr>cw_codeBlock := (cw_codeBlock w \<noteq> boundary), cw_inlineCode := ic, cw_builder := cw_builder w @ text\<rparr>"
  define emit where "emit = (if cw_codeBlock w1 \<or> cw_inlineCode w1 then lskip
    else if done \<or> typeChange \<or> has_suffix text [newline] \<or> length (cw_builder w1) > 2990 then chatEmit E done else lskip)"
  define fin where "fin = (\<lambda>w2. let w3 = (if typeChange then w2\<lparr>cw_msgType := []\<rparr> else w2) in if done then (w3, None) else user_check E now w3)"
  have "relays [] False w1 (emit w1)" by (simp add: emit_def chatEmit_relays [OF assms])
  moreover have "relays [] False w2 (fin w2)" for w2
    using user_check_relays [OF assms] relays_same(1) by (auto simp: fin_def Let_def intro: relays_msgType [where ty = "[]"])
  ultimately have "relays ([] @ []) (False \<noteq> False) w1 (lseq emit fin w1)" by (rule relays_lseq)
  moreover have "lseq emit fin w1 = buffer_text E now done typeChange boundary text w"
    unfolding buffer_text_def Let_def w1_def ic_def emit_def fin_def ..
  ultimately show ?thesis by (auto simp: w1_def relays_def spoken_def ended_def responses_def)
qed

lemma close_block_relays:
  assumes "working E" and "odd (count_sub fence text)" and "cw_codeBlock w" and "\<And>rest w'. relays rest b w' (k rest w')"
  shows "relays (kept_piece True text) b w (close_block E done text k w)"
proof -
  have "count_sub fence text \<noteq> 0" using assms(2) by (auto simp: odd_pos)
  then obtain i where i: "last_index fence text = Some i" using last_index_counted by blast
  let ?rest = "trim_space (drop (i + 3) text)"
  let ?w = "w\<lparr>cw_builder := cw_builder w @ (take i text @ fence)\<rparr>"
  have "relays ([] @ ?rest) (False \<noteq> b) ?w (lseq (chatEmit E (done \<and> ?rest = [])) (k ?rest) ?w)"
    by (rule relays_lseq) (rule chatEmit_relays [OF assms(1)], rule assms(4))
  then have "relays ((take i text @ fence) @ ?rest) b w (close_block E done text k w)"
    using i relays_buffer [of "?rest" b w "take i text @ fence"] by (simp add: close_block_def Let_def)
  then show ?thesis using i assms(2) by (simp add: kept_piece_def)
qed

lemma streamHandler_relays:
  assumes "working E" and "\<not> cw_hideThink w"
  shows "relays (kept_piece (cw_codeBlock w) t) (odd (count_sub fence t)) w (streamHandler E now t done w)"
proof -
  define w1 where "w1 = (if contains t ''<think>'' then w\<lparr>cw_msgType := ''think''\<rparr> else w)"
  have th: "handleThoughts t w = (w1, t, contains t ''</think>'', False)" using assms(2) by (simp add: handleThoughts_def w1_def)
  let ?b = "odd (count_sub fence t)" and ?tc = "contains t ''</think>''"
  have "relays (kept_piece (cw_codeBlock w1) t) ?b w1 (streamHandler E now t done w)"
  proof (cases "cw_codeBlock w1 \<and> ?b")
    case True
    from close_block_relays [OF assms(1) conjunct2 [OF True] conjunct1 [OF True] buffer_text_relays [OF assms(1)]] True show ?thesis
      by (simp add: streamHandler_def th Let_def)
  next
    case False
    have "relays ([] @ t) (False \<noteq> ?b) w1 (lseq (if ?b then chatEmit E False else lskip) (buffer_text E now done ?tc ?b t) w1)"
      by (rule relays_lseq) (simp_all add: chatEmit_relays [OF assms(1)] buffer_text_relays [OF assms(1)])
    with False show ?thesis by (auto simp: streamHandler_def th Let_def kept_piece_def)
  qed
  moreover have "cw_codeBlock w1 = cw_codeBlock w" by (simp add: w1_def)
  ultimately show ?thesis using relays_msgType by (auto simp: w1_def split: if_splits)
qed

text \<open>The pieces of a turn in which no tool is called.\<close>

fun chunk_text :: "chat_event \<Rightarrow> string" where
  "chunk_text (Chunk now t done) = t"
| "chunk_text (ToolCall json args name callID) = []"

fun is_chunk :: "chat_event \<Rightarrow> bool" where
  "is_chunk (Chunk now t done) = True"
| "is_chunk (ToolCall json args name callID) = False"

lemma stream_relays:
  assumes "working E"
  shows "list_all is_chunk evs \<Longrightarrow> \<not> cw_hideThink w \<Longrightarrow>
    relays (kept (cw_codeBlock w) (map chunk_text evs)) (odd (\<Sum>t\<leftarrow>map chunk_text evs. count_sub fence t)) w (load_each (handle_chat_event E) evs w)"
proof (induction evs arbitrary: w)
  case (Cons ev evs)
  then obtain now t d where ev: "ev = Chunk now t d" by (cases ev) auto
  let ?w = "fst (handle_chat_event E ev w)" and ?n = "\<Sum>t\<leftarrow>map chunk_text evs. count_sub fence t"
  have first: "relays (kept_piece (cw_codeBlock w) t) (odd (count_sub fence t)) w (handle_chat_event E ev w)"
    using streamHandler_relays [OF assms Cons.prems(2)] by (simp add: ev)
  note after = relaysD(4,6) [OF first]
  have "list_all is_chunk evs" "\<not> cw_hideThink ?w" using Cons.prems after(1) by simp_all
  then have "relays (kept (cw_codeBlock ?w) (map chunk_text evs)) (odd ?n) ?w (load_each (handle_chat_event E) evs ?w)"
    by (rule Cons.IH)
  from relays_lseq [where a = "handle_chat_event E ev" and b = "load_each (handle_chat_event E) evs", OF first this]
  have "relays (kept (cw_codeBlock w) (map chunk_text (ev # evs))) (odd (count_sub fence t) \<noteq> odd ?n) w (load_each (handle_chat_event E) (ev # evs) w)"
    unfolding after(2) by (simp add: ev)
  moreover have "(odd (count_sub fence t) \<noteq> odd ?n) = odd (count_sub fence t + ?n)" by auto
  ultimately show ?case by (simp add: ev)
qed simp

section \<open>Whatever happens in a turn, it can be unlocked\<close>

named_theorems keeps_intros "rules for actions that keep the identity of a turn"

definition turn_id :: "ChatWrapper \<Rightarrow> string \<times> string \<times> bool" where
  "turn_id w = (cw_prefix w, cw_step w, cw_context w)"

definition keeps :: "chat \<Rightarrow> bool" where
  "keeps a \<longleftrightarrow> (\<forall>w. turn_id (fst (a w)) = turn_id w)"

lemma turn_id_upd [simp]:
  "turn_id (w\<lparr>cw_calls := cs\<rparr>) = turn_id w" "turn_id (w\<lparr>cw_done := b\<rparr>) = turn_id w" "turn_id (w\<lparr>cw_builder := s\<rparr>) = turn_id w"
  "turn_id (w\<lparr>cw_msgType := s\<rparr>) = turn_id w" "turn_id (w\<lparr>cw_codeBlock := b\<rparr>) = turn_id w" "turn_id (w\<lparr>cw_inlineCode := b\<rparr>) = turn_id w"
  "turn_id (w\<lparr>cw_lastCheck := i\<rparr>) = turn_id w" "turn_id (w\<lparr>cw_cancelled := b\<rparr>) = turn_id w" "turn_id (w\<lparr>cw_tools := ts\<rparr>) = turn_id w"
  "turn_id (w\<lparr>cw_events := es\<rparr>) = turn_id w"
  by (simp_all add: turn_id_def)

lemma keepsI: "(\<And>w. turn_id (fst (a w)) = turn_id w) \<Longrightarrow> keeps a"
  by (simp add: keeps_def)

lemma keepsD: "keeps a \<Longrightarrow> turn_id (fst (a w)) = turn_id w"
  by (simp add: keeps_def)

text \<open>An action that is chosen by the state, and one that changes other fields first.\<close>

lemma keeps_by: "(\<And>w. keeps (a w)) \<Longrightarrow> keeps (\<lambda>w. a w w)"
  by (simp add: keeps_def)

lemma keeps_after: "keeps a \<Longrightarrow> (\<And>w. turn_id (f w) = turn_id w) \<Longrightarrow> keeps (\<lambda>w. a (f w))"
  by (simp add: keeps_def)

lemma keeps_skip [keeps_intros]: "keeps lskip" "keeps (lpanic e)" "keeps (\<lambda>w. (w, p))"
  by (simp_all add: keeps_def lskip_def lpanic_def)

lemma keeps_lseq [keeps_intros]: "keeps a \<Longrightarrow> keeps b \<Longrightarrow> keeps (lseq a b)"
  unfolding keeps_def lseq_def by (metis (mono_tags, lifting) case_prod_conv option.exhaust option.simps(4,5) prod.collapse)

lemma keeps_lget [keeps_intros]: "(\<And>x. keeps (k x)) \<Longrightarrow> keeps (lget m k)"
  by (cases m) (simp_all add: keeps_def)

lemma keeps_each [keeps_intros]: "(\<And>x. keeps (f x)) \<Longrightarrow> keeps (load_each f xs)"
proof (induction xs)
  case (Cons x xs)
  then have "keeps (lseq (f x) (load_each f xs))" by (intro keeps_lseq) auto
  then show ?case by (simp add: keeps_def)
qed (simp add: keeps_def)

lemma keeps_do [keeps_intros]: "(\<And>r. keeps (k r)) \<Longrightarrow> keeps (chat_do E c k)"
  by (simp add: keeps_def chat_do_def)

lemma keeps_must [keeps_intros]: "(\<And>b. keeps (k b)) \<Longrightarrow> keeps (must_do E c k)"
  unfolding must_do_def by (intro keeps_do) (simp add: keeps_skip split: sum.split)

lemma keeps_if [keeps_intros]: "keeps a \<Longrightarrow> keeps b \<Longrightarrow> keeps (if c then a else b)"
  by simp

lemma keeps_history [keeps_intros]: "keeps (AppendHistory E msg)" "keeps (append_json E v)"
proof -
  show h: "keeps (AppendHistory E msg)" for msg
    unfolding AppendHistory_def [abs_def] by (rule keeps_by) (intro keeps_intros)
  show "keeps (append_json E v)" unfolding append_json_def by (intro keeps_lget h)
qed

lemma keeps_init: "(\<And>h. keeps (k h)) \<Longrightarrow> keeps (init_history E ms buf k)"
proof (induction ms arbitrary: buf)
  case (Cons m ms)
  then show ?case by (auto intro!: keeps_intros)
qed simp

lemma keeps_GetHistory: "(\<And>h. keeps (k h)) \<Longrightarrow> keeps (GetHistory E k)"
  unfolding GetHistory_def [abs_def] by (rule keeps_by) (auto simp: Let_def intro!: keeps_do keeps_init)

lemma keeps_chatEmit [keeps_intros]: "keeps (chatEmit E d)"
proof (rule keepsI)
  fix w
  let ?a = "\<lambda>content. lseq (if content \<noteq> [] then append_json E (ct_BuildMessage (ce_chatter E) content) else lskip)
       (\<lambda>w'. must_do E (call_params ''cache'' ''rpush'' (response_params w' d content)) (\<lambda>_. lskip) w')"
  have "keeps (\<lambda>w'. must_do E (call_params ''cache'' ''rpush'' (response_params w' d content)) (\<lambda>_. lskip) w')" for content
    by (rule keeps_by) (intro keeps_must keeps_skip)
  then have "keeps (?a content)" for content by (intro keeps_lseq keeps_if keeps_history(2) keeps_skip(1))
  from keepsD [OF this, of "cw_builder w" "w\<lparr>cw_done := d, cw_builder := []\<rparr>"] show "turn_id (fst (chatEmit E d w)) = turn_id w"
    by (simp add: chatEmit_def Let_def)
qed

lemma keeps_user_check [keeps_intros]: "keeps (user_check E now)"
proof (rule keepsI)
  fix w
  let ?k = "\<lambda>r w1. case r of Inl e \<Rightarrow> (w1, Some (PanicErr e))
       | Inr b \<Rightarrow> if b = [] then chatEmit E True (w1\<lparr>cw_cancelled := True\<rparr>) else (w1, None)"
  have "keeps (?k r)" for r
    by (cases r) (auto intro!: keepsI simp: keepsD [OF keeps_chatEmit])
  then have "keeps (chat_do E c ?k)" for c by (rule keeps_do)
  from keepsD [OF this, of "ChatCall ''cache'' ''exists'' [] (PRaw (cw_step w))" "w\<lparr>cw_lastCheck := now\<rparr>"]
  show "turn_id (fst (user_check E now w)) = turn_id w" by (simp add: user_check_def)
qed

lemma keeps_buffer_text [keeps_intros]: "keeps (buffer_text E now d tc bd s)"
proof -
  let ?f = "\<lambda>w2. let w3 = (if tc then w2\<lparr>cw_msgType := []\<rparr> else w2) in if d then (w3, None) else user_check E now w3"
  have "keeps ?f" by (rule keepsI) (simp add: Let_def keepsD [OF keeps_user_check])
  then have "keeps (lseq (if c then lskip else if c' then chatEmit E d else lskip) ?f)" for c c'
    by (intro keeps_lseq keeps_if keeps_skip keeps_chatEmit)
  note k = keepsD [OF this]
  show ?thesis by (rule keepsI) (simp add: buffer_text_def Let_def k [unfolded Let_def])
qed

lemma keeps_streamHandler [keeps_intros]: "keeps (streamHandler E now t d)"
proof (rule keepsI)
  fix w
  obtain w1 s tc skip where th: "handleThoughts t w = (w1, s, tc, skip)" by (metis prod_cases4)
  then have w1: "turn_id w1 = turn_id w" by (auto simp: handleThoughts_def Let_def split: if_splits)
  have "turn_id (fst (close_block E d s (buffer_text E now d tc True) w1)) = turn_id w1"
    using keepsD [OF keeps_lseq [OF keeps_chatEmit keeps_buffer_text]]
    by (simp add: close_block_def Let_def split: option.split)
  then show "turn_id (fst (streamHandler E now t d w)) = turn_id w"
    using w1 keepsD [OF keeps_lseq [OF keeps_if [OF keeps_chatEmit keeps_skip(1)] keeps_buffer_text]]
    by (simp add: streamHandler_def th Let_def del: if_split)
qed

lemma keeps_fetch:
  "(\<And>v'. keeps (k1 v')) \<Longrightarrow> keeps (fetch_val E v k1)"
  "(\<And>m'. keeps (k2 m')) \<Longrightarrow> keeps (fetch_fields E m k2)"
  "(\<And>vs'. keeps (k3 vs')) \<Longrightarrow> keeps (fetch_elems E vs k3)"
proof (induction E v k1 and E m k2 and E vs k3 rule: fetch_val_fetch_fields_fetch_elems.induct)
  case (3 E s k)
  have "keeps (\<lambda>w. must_do E (fetch_call w s) (\<lambda>val. k (GStr val)) w)" by (rule keeps_by) (intro keeps_must 3)
  with 3 show ?case by simp
qed simp_all

lemma keeps_fetch_args: "(\<And>v'. keeps (k v')) \<Longrightarrow> keeps (fetch_args E v k)"
  using keeps_fetch(1) [of k E v] by (cases v) (simp_all add: fetch_args_def)

lemma keeps_relay [keeps_intros]: "keeps (relayFuncReturn E name callID b)"
  unfolding relayFuncReturn_def by (rule keeps_history)

lemma keeps_set_local [simp]: "turn_id (set_local name v w) = turn_id w"
  by (simp add: set_local_def split: option.split)

lemma keeps_driver_tool: "keeps (toolCallDriverHandler E name args workflow callID)"
proof -
  have "keeps (case r of (call, noWait) \<Rightarrow> must_do E call (\<lambda>b. if noWait then lget m0 (relayFuncReturn E name callID)
      else lget (DeserializeContent (ce_ext E) b) (\<lambda>ret. lget (m1 ret) (relayFuncReturn E name callID))))" for r m0 m1
    by (cases r) (simp add: keeps_must keeps_lget keeps_relay)
  then have k: "keeps (lget m (\<lambda>(call, noWait). must_do E call (\<lambda>b. if noWait then lget m0 (relayFuncReturn E name callID)
      else lget (DeserializeContent (ce_ext E) b) (\<lambda>ret. lget (m1 ret) (relayFuncReturn E name callID)))))" for m m0 m1
    by (rule keeps_lget)
  show ?thesis unfolding toolCallDriverHandler_def [abs_def] Let_def by (rule keeps_by) (rule k)
qed

lemma keeps_emit_tool: "keeps (emit_tool_event E name args callID)"
  by (rule keepsI) (simp add: emit_tool_event_def Let_def keepsD [OF keeps_must [OF keeps_relay]] split: option.split)

lemma keeps_fill: "keeps k \<Longrightarrow> keeps (fill_local E name args workflow k)"
proof (rule keepsI)
  fix w
  assume k: "keeps k"
  then have "keeps (\<lambda>w1. k (set_local name v w1))" for v by (rule keeps_after) simp
  then have f: "keeps (lget m (\<lambda>l. fetch_args E l (\<lambda>filled w1. k (set_local name (h filled) w1))))" for m h
    by (intro keeps_lget keeps_fetch_args)
  show "turn_id (fst (fill_local E name args workflow k w)) = turn_id w"
    using keepsD [OF k] keepsD [OF f] by (auto simp: fill_local_def Let_def split: gval.split option.split)
qed

lemma keeps_tool_body: "keeps (tool_body E json args name callID)"
proof -
  have "keeps (\<lambda>w1. case map_of (cw_tools w1) name of
        None \<Rightarrow> (w1, Some (PanicErr (''map error: path not valid: data.tools.'' @ name @ ''.workflow'')))
      | Some workflow \<Rightarrow>
          if fn_RawAction (wf_Function (wd workflow)) = ''rpc'' then toolCallDriverHandler E name args' workflow callID w1
          else fill_local E name args' workflow (emit_tool_event E name args' callID) w1)" for args'
    by (rule keepsI) (simp add: keepsD [OF keeps_driver_tool] keepsD [OF keeps_fill [OF keeps_emit_tool]] split: option.split)
  then have "keeps (lseq (if c then chatEmit E False else lskip) (lseq (AppendHistory E json) (fetch_args E args (\<lambda>args' w1. case map_of (cw_tools w1) name of
        None \<Rightarrow> (w1, Some (PanicErr (''map error: path not valid: data.tools.'' @ name @ ''.workflow'')))
      | Some workflow \<Rightarrow>
          if fn_RawAction (wf_Function (wd workflow)) = ''rpc'' then toolCallDriverHandler E name args' workflow callID w1
          else fill_local E name args' workflow (emit_tool_event E name args' callID) w1))))" for c
    by (intro keeps_lseq keeps_if keeps_chatEmit keeps_skip keeps_history keeps_fetch_args)
  then show ?thesis unfolding tool_body_def [abs_def] by (rule keeps_by)
qed

lemma keeps_event: "keeps (handle_chat_event E ev)"
proof (cases ev)
  case (Chunk now t d)
  then show ?thesis by (simp add: keeps_streamHandler)
next
  case (ToolCall json args name callID)
  have "turn_id (fst (toolCallHandler E json args name callID w)) = turn_id w" for w
    using keepsD [OF keeps_tool_body, of E json args name callID w]
    by (auto simp: toolCallHandler_def keepsD [OF keeps_lget [OF keeps_relay]] split: prod.split option.split)
  then show ?thesis by (auto simp: ToolCall intro: keepsI)
qed

lemma keeps_turn: "keeps (turn_body E stream)"
proof -
  have "keeps (GetHistory E (\<lambda>h. lseq (append_json E m) (load_each (handle_chat_event E) (stream m h))))" for m
    by (intro keeps_GetHistory keeps_lseq keeps_history keeps_each keeps_event)
  then show ?thesis unfolding turn_body_def [abs_def] Let_def by (rule keeps_by)
qed

section \<open>Properties\<close>

lemma emit_then:
  assumes "working E"
  shows "\<exists>v. lseq (chatEmit E d) k u = k v \<and> cw_codeBlock v = cw_codeBlock u \<and> (cw_done v \<longrightarrow> cw_done u \<or> d \<and> cw_builder v = [])"
proof -
  obtain cs where "chatEmit E d u = (if cw_done u then u else u\<lparr>cw_done := d, cw_builder := [], cw_calls := cw_calls u @ cs\<rparr>, None)"
    using chatEmit_works [OF assms] by blast
  then show ?thesis by (intro exI [of _ "fst (chatEmit E d u)"]) (simp add: lseq_def)
qed

text \<open>The last piece of a turn, put into the buffer.\<close>

definition buffered :: "bool \<Rightarrow> string \<Rightarrow> ChatWrapper \<Rightarrow> ChatWrapper" where
  "buffered bd s w = w\<lparr>cw_codeBlock := (cw_codeBlock w \<noteq> bd), cw_inlineCode := (cw_inlineCode w \<noteq> odd (count_sub backtick (remove_sub fence s))),
     cw_builder := cw_builder w @ s\<rparr>"

lemma buffer_text_last:
  assumes "working E"
  obtains ty cs where "buffer_text E now True tc bd s w = ((if cw_codeBlock (buffered bd s w) \<or> cw_inlineCode (buffered bd s w) \<or> cw_done w
      then buffered bd s w else (buffered bd s w)\<lparr>cw_done := True, cw_builder := [], cw_calls := cs\<rparr>)\<lparr>cw_msgType := ty\<rparr>, None)"
proof -
  let ?w = "buffered bd s w"
  obtain cs where emit: "chatEmit E True ?w = (if cw_done ?w then ?w else ?w\<lparr>cw_done := True, cw_builder := [], cw_calls := cw_calls ?w @ cs\<rparr>, None)"
    using chatEmit_works [OF assms] by blast
  have run: "buffer_text E now True tc bd s w = lseq (if cw_codeBlock ?w \<or> cw_inlineCode ?w then lskip else chatEmit E True)
      (\<lambda>w2. (if tc then w2\<lparr>cw_msgType := []\<rparr> else w2, None)) ?w"
    by (simp add: buffer_text_def Let_def buffered_def)
  show ?thesis
  proof (rule that [of "if tc then [] else cw_msgType w" "cw_calls ?w @ cs"])
    show "buffer_text E now True tc bd s w = ((if cw_codeBlock ?w \<or> cw_inlineCode ?w \<or> cw_done w then ?w
        else ?w\<lparr>cw_done := True, cw_builder := [], cw_calls := cw_calls ?w @ cs\<rparr>)\<lparr>cw_msgType := if tc then [] else cw_msgType w\<rparr>, None)"
    proof (cases "cw_codeBlock ?w \<or> cw_inlineCode ?w")
      case True
      then show ?thesis unfolding run by (auto simp: buffered_def)
    next
      case False
      then show ?thesis unfolding run using emit by (simp add: lseq_def) (simp add: buffered_def)
    qed
  qed
qed

lemma buffer_text_ends:
  assumes "working E" and "buffer_text E now True tc bd s w = (w', p)" and "\<not> cw_codeBlock w'" and "\<not> cw_inlineCode w'"
  shows "cw_done w' \<and> cw_builder w' = (if cw_done w then cw_builder w @ s else [])"
  using assms(2-4) by (rule_tac buffer_text_last [OF assms(1), of now tc bd s w]) (auto simp: buffered_def split: if_splits)

lemma buffer_text_open:
  assumes "working E" and "cw_codeBlock (fst (buffer_text E now True tc bd s w))"
  shows "cw_codeBlock w \<noteq> bd \<and> cw_done (fst (buffer_text E now True tc bd s w)) = cw_done w \<and>
    cw_builder (fst (buffer_text E now True tc bd s w)) = cw_builder w @ s"
  using assms(2) by (rule_tac buffer_text_last [OF assms(1), of now tc bd s w]) (auto simp: buffered_def split: if_splits)

lemma streamHandler_ends:
  assumes "working E" and "\<not> cw_hideThink w" and "streamHandler E now t True w = (w', p)" and "\<not> cw_codeBlock w'" and "\<not> cw_inlineCode w'"
  shows "cw_done w' \<and> (cw_done w \<or> cw_builder w' = [])"
proof -
  define w1 where "w1 = (if contains t ''<think>'' then w\<lparr>cw_msgType := ''think''\<rparr> else w)"
  have th: "handleThoughts t w = (w1, t, contains t ''</think>'', False)" using assms(2) by (simp add: handleThoughts_def w1_def)
  have same: "cw_done w1 = cw_done w" by (simp add: w1_def)
  let ?buf = "buffer_text E now True (contains t ''</think>'') (odd (count_sub fence t))"
  note emit = emit_then [OF assms(1)]
  from assms(3) consider
      (close) i where "last_index fence t = Some i" "lseq (chatEmit E (True \<and> trim_space (drop (i + 3) t) = [])) (?buf (trim_space (drop (i + 3) t)))
        (w1\<lparr>cw_builder := cw_builder w1 @ take i t @ fence\<rparr>) = (w', p)"
    | (plain) "lseq (if odd (count_sub fence t) then chatEmit E False else lskip) (?buf t) w1 = (w', p)"
    | (none) "last_index fence t = None" "odd (count_sub fence t)"
    by (auto simp: streamHandler_def th Let_def close_block_def split: if_splits option.splits)
  then show ?thesis
  proof cases
    case close
    from emit [of "True \<and> trim_space (drop (i + 3) t) = []" "?buf (trim_space (drop (i + 3) t))" "w1\<lparr>cw_builder := cw_builder w1 @ take i t @ fence\<rparr>"]
    obtain v where v: "?buf (trim_space (drop (i + 3) t)) v = (w', p)" "cw_done v \<longrightarrow> cw_done w \<or> trim_space (drop (i + 3) t) = [] \<and> cw_builder v = []"
      using close(2) same by auto
    from buffer_text_ends [OF assms(1) v(1) assms(4,5)] v(2) show ?thesis by (auto split: if_splits)
  next
    case plain
    have "\<exists>v. ?buf t v = (w', p) \<and> (cw_done v \<longrightarrow> cw_done w)"
      using plain emit [of False "?buf t" w1] same by (cases "odd (count_sub fence t)") auto
    then obtain v where v: "?buf t v = (w', p)" "cw_done v \<longrightarrow> cw_done w" by blast
    from buffer_text_ends [OF assms(1) v(1) assms(4,5)] v(2) show ?thesis by (auto split: if_splits)
  next
    case none
    then show ?thesis using last_index_counted odd_pos by fastforce
  qed
qed

lemma turn_delivered:
  assumes "working E" and "\<not> cw_hideThink w" and "responses w = []" and "cw_builder w = []" and "\<not> cw_done w" and "\<not> cw_codeBlock w"
    and "list_all is_chunk evs" and "\<not> cw_done (fst (load_each (handle_chat_event E) evs w))"
    and "streamHandler E now t True (fst (load_each (handle_chat_event E) evs w)) = (w', p)"
    and "\<not> cw_codeBlock w'" and "\<not> cw_inlineCode w'"
  shows "load_each (handle_chat_event E) evs w = (fst (load_each (handle_chat_event E) evs w), None) \<and> p = None \<and>
    concat (map snd (responses w')) = kept False (map chunk_text evs @ [t]) \<and>
    (\<exists>n. map fst (responses w') = replicate n False @ [True])"
proof -
  let ?r = "load_each (handle_chat_event E) evs w"
  have evs: "relays (kept False (map chunk_text evs)) (odd (\<Sum>t\<leftarrow>map chunk_text evs. count_sub fence t)) w ?r"
    using stream_relays [OF assms(1,7,2)] assms(6) by simp
  then have hide: "\<not> cw_hideThink (fst ?r)" using assms(2) by (simp add: relays_def)
  have last: "relays (kept_piece (cw_codeBlock (fst ?r)) t) (odd (count_sub fence t)) (fst ?r) (w', p)"
    using streamHandler_relays [OF assms(1) hide, of t now True] assms(9) by simp
  have fin: "cw_done w'" "cw_builder w' = []" using streamHandler_ends [OF assms(1) hide assms(9,10,11)] assms(8) by auto
  have "spoken w = []" "ended w" using assms(3,4,5) by (simp_all add: spoken_def ended_def)
  then have "spoken w' = kept False (map chunk_text evs) @ kept_piece (cw_codeBlock (fst ?r)) t" "ended w'" "p = None"
    using relaysD [OF evs] relaysD [OF last] by simp_all
  moreover have "cw_codeBlock (fst ?r) = odd (\<Sum>t\<leftarrow>map chunk_text evs. count_sub fence t)" using relaysD(6) [OF evs] assms(6) by simp
  ultimately show ?thesis using fin relaysD(1) [OF evs] by (auto simp: spoken_def ended_def kept_append)
qed


text \<open>
  A turn that ends inside a code block has its last piece dropped: it stays in the buffer, and the end
  mark is never sent.
\<close>

theorem chat_loses_open_code:
  assumes "working E" and "\<not> cw_hideThink w" and "streamHandler E now t True w = (w', p)" and "cw_codeBlock w'" and "\<not> cw_done w"
  shows "\<not> cw_done w' \<and> (\<exists>s. cw_builder w' = s @ t)"
proof -
  define w1 where "w1 = (if contains t ''<think>'' then w\<lparr>cw_msgType := ''think''\<rparr> else w)"
  have th: "handleThoughts t w = (w1, t, contains t ''</think>'', False)" using assms(2) by (simp add: handleThoughts_def w1_def)
  have buf: "cw_codeBlock (fst (buffer_text E now True tc b s u)) \<Longrightarrow> cw_codeBlock u \<noteq> b \<and> cw_done (fst (buffer_text E now True tc b s u)) = cw_done u \<and>
      cw_builder (fst (buffer_text E now True tc b s u)) = cw_builder u @ s" for tc b s u
    by (rule buffer_text_open [OF assms(1)])
  show ?thesis
  proof (cases "cw_codeBlock w1 \<and> odd (count_sub fence t)")
    case True
    with assms(3) obtain k u s where "lseq (chatEmit E (s = [])) (buffer_text E now True k True s) u = (w', p)" "cw_codeBlock u"
      using last_index_counted [of fence t]
      by (auto simp: streamHandler_def th close_block_def Let_def dest: odd_pos split: option.splits)
    with emit_then [OF assms(1), of "s = []" "buffer_text E now True k True s" u] buf assms(4) show ?thesis by (metis fst_conv)
  next
    case False
    let ?b = "odd (count_sub fence t)"
    from assms(3) False have "lseq (if ?b then chatEmit E False else lskip) (buffer_text E now True (contains t ''</think>'') ?b t) w1 = (w', p)"
      by (simp add: streamHandler_def th Let_def)
    then obtain v where "buffer_text E now True (contains t ''</think>'') ?b t v = (w', p)" "\<not> cw_done v"
      using emit_then [OF assms(1), of False "buffer_text E now True (contains t ''</think>'') ?b t" w1] assms(5) by (cases ?b) (auto simp: w1_def split: if_splits)
    with buf [of "contains t ''</think>''" ?b t v] assms(4) show ?thesis by auto
  qed
qed

text \<open>With the thoughts hidden, a turn that ends while the model thinks is never ended for the reader.\<close>

theorem thinking_end_lost:
  assumes "cw_hideThink w" and "cw_msgType w = ''think'' \<or> contains t ''<think>''" and "\<not> contains t ''</think>''"
  shows "streamHandler E now t d w = (w\<lparr>cw_msgType := ''think''\<rparr>, None)"
  using assms by (auto simp: streamHandler_def handleThoughts_def Let_def)

text \<open>The call that takes the lock.\<close>

definition chat_lock :: "ChatWrapper \<Rightarrow> chat_call" where
  "chat_lock w = call_params ''locker'' ''lock'' [(''name'', GStr (cw_prefix w @ ''lock'')), (''expire'', GStr (cw_ttl w))]"

text \<open>
  A turn begins with the lock of its conversation. When the locker refuses it, the caller is told
  that the conversation is busy and nothing else is touched; a wrapper that is returned holds the lock.
\<close>

theorem chat_needs_lock:
  assumes "NewWrapper E dname options tools msg = Inr (w, rs, p)"
  shows "\<exists>cs. cw_calls w = chat_lock w # cs \<and>
    (ce_answer E [chat_lock w] \<in> range Inl \<longrightarrow> cs = [] \<and> rs = [busy_reply] \<and> p \<noteq> None) \<and>
    (p = None \<longrightarrow> ce_answer E [chat_lock w] \<in> range Inr \<and> rs = [] \<and> cw_context w)"
proof -
  from assms obtain w0 where w0: "NewWrapper_fields E dname options tools msg = Inr w0" "cw_calls w0 = []"
    by (auto simp: NewWrapper_def rmap_def rbind_Inr_conv NewWrapper_fields_def Let_def)
  let ?w1 = "w0\<lparr>cw_calls := [chat_lock w0]\<rparr>"
  have lock: "Lock_conv E w0 = (?w1, case ce_answer E [chat_lock w0] of Inl e \<Rightarrow> Some (PanicErr e) | Inr _ \<Rightarrow> None)"
    using w0(2) by (simp add: Lock_conv_def must_do_def chat_do_def chat_lock_def lpanic_def lskip_def split: sum.split)
  have same: "chat_lock (u\<lparr>cw_calls := cs\<rparr>) = chat_lock u" for u cs by (simp add: chat_lock_def)
  have start: "\<exists>cs. cw_calls (fst (start_turn E u)) = cw_calls u @ cs \<and> chat_lock (fst (start_turn E u)) = chat_lock u \<and>
      (snd (start_turn E u) = None \<longrightarrow> cw_context (fst (start_turn E u)))" for u
    by (auto simp: start_turn_def must_do_def chat_do_def Let_def lpanic_def chat_lock_def split: sum.split option.split)
  have unlock: "\<exists>cs. cw_calls (fst (Unlock_conv E u)) = cw_calls u @ cs \<and> chat_lock (fst (Unlock_conv E u)) = chat_lock u" for u
    by (auto simp: Unlock_conv_def unlock_calls_def lseq_def must_do_def chat_do_def lpanic_def lskip_def chat_lock_def split: sum.split)
  show ?thesis
  proof (cases "ce_answer E [chat_lock w0]")
    case (Inl e)
    then have "w = ?w1" "rs = [busy_reply]" "p = Some (PanicErr e)" using assms lock by (simp_all add: NewWrapper_def w0)
    then show ?thesis using Inl by (auto simp: same)
  next
    case (Inr b)
    from start [of ?w1] obtain cs where s: "cw_calls (fst (start_turn E ?w1)) = chat_lock w0 # cs" "chat_lock (fst (start_turn E ?w1)) = chat_lock w0"
      "snd (start_turn E ?w1) = None \<longrightarrow> cw_context (fst (start_turn E ?w1))" by (auto simp: same)
    show ?thesis
    proof (cases "snd (start_turn E ?w1)")
      case None
      then have "w = fst (start_turn E ?w1)" "rs = []" "p = None"
        using assms lock Inr by (auto simp: NewWrapper_def w0 split: prod.splits)
      then show ?thesis using s None Inr by auto
    next
      case (Some e)
      from unlock [of "fst (start_turn E ?w1)"] obtain cs' where u: "cw_calls (fst (Unlock_conv E (fst (start_turn E ?w1)))) = chat_lock w0 # cs @ cs'"
        "chat_lock (fst (Unlock_conv E (fst (start_turn E ?w1)))) = chat_lock w0" using s by auto
      have "w = fst (Unlock_conv E (fst (start_turn E ?w1)))" "p \<noteq> None"
        using assms lock Inr Some by (auto simp: NewWrapper_def w0 split: prod.splits option.splits)
      then show ?thesis using u Inr by auto
    qed
  qed
qed

lemma unlock_in_order:
  assumes "cw_context u"
  shows "cw_calls (fst (Unlock_conv E u)) = cw_calls u @ hd (unlock_calls u) #
    (case ce_answer E (cw_calls u @ [hd (unlock_calls u)]) of Inl _ \<Rightarrow> [] | Inr _ \<Rightarrow> tl (unlock_calls u))"
  using assms by (simp add: Unlock_conv_def unlock_calls_def lseq_def must_do_def chat_do_def lpanic_def lskip_def split: sum.split)

text \<open>
  C23: a turn that was started, so that it holds the lock of its conversation, always asks for the lock to be
  given back: whatever the model says, whichever tools it calls, whichever calls of other drivers fail
  and whatever of this panics, unless the panic is fatal, the first call after the turn is the one that
  unlocks the lock taken at its start; when it is answered, the mark of the turn is removed as well, and
  nothing else is called.
\<close>

theorem chat_turn_unlocks:
  assumes "NewWrapper E dname options tools msg = Inr (w, rs, None)" and "\<forall>e. snd (turn_body E stream w) = Some e \<longrightarrow> \<not> fatal e"
  shows "hd (cw_calls w) = call_params ''locker'' ''lock'' [(''name'', GStr (cw_prefix w @ ''lock'')), (''expire'', GStr (cw_ttl w))] \<and>
    cw_calls (snd (ChatRelay E stream w)) = cw_calls (fst (turn_body E stream w)) @
      call_params ''locker'' ''unlock'' [(''name'', GStr (cw_prefix w @ ''lock''))] #
      (case ce_answer E (cw_calls (fst (turn_body E stream w)) @ [call_params ''locker'' ''unlock'' [(''name'', GStr (cw_prefix w @ ''lock''))]]) of
         Inl _ \<Rightarrow> [] | Inr _ \<Rightarrow> [call_params ''cache'' ''del'' [(''key'', GStr (cw_step w))]])"
proof -
  let ?w1 = "fst (turn_body E stream w)"
  from chat_needs_lock [OF assms(1)] have lock: "hd (cw_calls w) = chat_lock w" "cw_context w" by auto
  have id: "turn_id ?w1 = turn_id w" by (rule keepsD [OF keeps_turn])
  then have calls: "unlock_calls ?w1 = unlock_calls w" "cw_context ?w1" using lock(2) by (simp_all add: turn_id_def unlock_calls_def)
  have "snd (ChatRelay E stream w) = fst (Unlock_conv E ?w1)"
    using assms(2) by (auto simp: ChatRelay_def split: prod.split option.split)
  then show ?thesis using lock(1) unlock_in_order [OF calls(2), of E] calls(1) by (simp add: chat_lock_def unlock_calls_def split: sum.split)
qed

text \<open>
  When the turn cannot be counted, the lock is not given back: \<open>Unlock\<close> calls the cancel function that does
  not exist yet and panics before it reaches the locker. The conversation stays busy until the lock
  expires.
\<close>

theorem failed_start_keeps_lock:
  assumes "NewWrapper_fields E dname options tools msg = Inr w0" and "ce_answer E [chat_lock w0] = Inr b"
    and "ce_answer E [chat_lock w0, call_params ''cache'' ''incr'' [(''key'', GStr (cw_prefix w0 @ ''counter''))]] = Inl e"
  shows "NewWrapper E dname options tools msg =
    Inr (w0\<lparr>cw_calls := [chat_lock w0, call_params ''cache'' ''incr'' [(''key'', GStr (cw_prefix w0 @ ''counter''))]]\<rparr>, [], Some NilDereference)"
proof -
  have w0: "cw_calls w0 = []" "\<not> cw_context w0" using assms(1) by (auto simp: NewWrapper_fields_def rbind_Inr_conv Let_def)
  have "Lock_conv E w0 = (w0\<lparr>cw_calls := [chat_lock w0]\<rparr>, None)"
    using w0 assms(2) by (simp add: Lock_conv_def must_do_def chat_do_def chat_lock_def [symmetric] lskip_def)
  then show ?thesis using assms w0
    by (simp add: NewWrapper_def start_turn_def must_do_def chat_do_def lpanic_def Unlock_conv_def)
qed

text \<open>
  The arguments of a tool stay with it: the first call fills the values under \<open>_local\<close> into the workflow of
  the driver, so that every later call of the tool starts the workflow with the arguments of the first
  one.
\<close>

lemma tool_event_once:
  assumes "working E" and "fetch_args E args = (\<lambda>k. k args)" and "map_of (cw_tools w) name = Some flow"
    and "fn_RawAction (wf_Function (wd flow)) \<noteq> ''rpc''" and "cw_builder w = []"
    and "\<And>w1. cw_tools w1 = cw_tools w \<Longrightarrow> turn_id w1 = turn_id w \<Longrightarrow> cw_events w1 = cw_events w \<Longrightarrow> cw_builder w1 = [] \<Longrightarrow>
      \<exists>w2. fill_local E name args flow (emit_tool_event E name args callID) w1 = emit_tool_event E name args callID w2 \<and>
        cw_tools w2 = ts \<and> cw_events w2 = cw_events w \<and> turn_id w2 = turn_id w \<and> cw_builder w2 = []"
    and "map_of ts name = Some flow'"
  shows "\<exists>w'. toolCallHandler E json args name callID w = (w', None) \<and> cw_tools w' = ts \<and> cw_builder w' = [] \<and> turn_id w' = turn_id w \<and>
    cw_events w' = cw_events w @ [(ce_uuid E (length (cw_events w)), flow', args)]"
proof -
  let ?h = "call_params ''cache'' ''rpush'' [(''key'', GStr (cw_prefix w @ ''history'')), (''value'', GStr json)]"
  let ?w1 = "w\<lparr>cw_calls := cw_calls w @ [?h]\<rparr>"
  obtain b where "ce_answer E (cw_calls w @ [?h]) = Inr b" by (rule workingE [OF assms(1)])
  then have hist: "AppendHistory E json w = (?w1, None)" by (simp add: AppendHistory_def must_do_def chat_do_def lskip_def)
  obtain w2 where w2: "fill_local E name args flow (emit_tool_event E name args callID) ?w1 = emit_tool_event E name args callID w2"
    "cw_tools w2 = ts" "cw_events w2 = cw_events w" "turn_id w2 = turn_id w" "cw_builder w2 = []"
    using assms(6) [of ?w1] assms(5) by auto
  have body: "tool_body E json args name callID w = emit_tool_event E name args callID w2"
    using assms(2-5) w2(1) by (simp add: tool_body_def lseq_def lskip_def hist)
  let ?id = "ce_uuid E (length (cw_events w))"
  let ?w3 = "w2\<lparr>cw_events := cw_events w @ [(?id, flow', args)]\<rparr>"
  let ?c = "ChatCall ''cache'' ''blpop'' [(''timeout'', ''15m'')] (PVal (GMap [(''key'', GStr (''honeydipper/result/'' @ ?id))]))"
  obtain r where r: "ce_answer E (cw_calls w2 @ [?c]) = Inr r" by (rule workingE [OF assms(1)])
  obtain c where "append_json E (ct_BuildToolReturnMessage (ce_chatter E) name callID r) (?w3\<lparr>cw_calls := cw_calls w2 @ [?c]\<rparr>) =
      (?w3\<lparr>cw_calls := (cw_calls w2 @ [?c]) @ [c]\<rparr>, None)" using append_json_works [OF assms(1), of _ "?w3\<lparr>cw_calls := cw_calls w2 @ [?c]\<rparr>"] by auto
  then have "emit_tool_event E name args callID w2 = (?w3\<lparr>cw_calls := (cw_calls w2 @ [?c]) @ [c]\<rparr>, None)"
    using w2 assms(7) r by (simp add: emit_tool_event_def Let_def must_do_def chat_do_def relayFuncReturn_def)
  then show ?thesis using body w2 by (simp add: toolCallHandler_def)
qed

theorem tool_reuses_arguments:
  assumes "working E" and "cw_builder w = []" and "map_of (cw_tools w) name = Some flow" and "fn_RawAction (wf_Function (wd flow)) \<noteq> ''rpc''"
    and "wf_Local (wd flow) = GMap [(''_local'', template)]" and "template \<noteq> GNil"
    and "Interpolate (ce_ext E) (ce_fuel E) template (GMap (tool_env args1 w)) = Inr (GMap filled)" and "map_of filled ''_local'' = None"
    and "fetch_args E (GMap filled) = (\<lambda>k. k (GMap filled))" and "fetch_args E args1 = (\<lambda>k. k args1)" and "fetch_args E args2 = (\<lambda>k. k args2)"
  shows "\<exists>w'. load_each (handle_chat_event E) [ToolCall json1 args1 name id1, ToolCall json2 args2 name id2] w = (w', None) \<and>
    (let n = length (cw_events w); flow' = upd_wd (\<lambda>d. d\<lparr>wf_Local := GMap filled\<rparr>) flow in
     cw_events w' = cw_events w @ [(ce_uuid E n, flow', args1), (ce_uuid E (Suc n), flow', args2)])"
proof -
  let ?flow' = "upd_wd (\<lambda>d. d\<lparr>wf_Local := GMap filled\<rparr>) flow"
  let ?ts = "mput name ?flow' (cw_tools w)"
  have ts: "map_of ?ts name = Some ?flow'" by simp
  have env: "tool_env args1 u = tool_env args1 w" if "turn_id u = turn_id w" for u
    using that by (simp add: tool_env_def turn_id_def)
  have fill: "\<exists>w2. fill_local E name args1 flow (emit_tool_event E name args1 id1) u = emit_tool_event E name args1 id1 w2 \<and>
      cw_tools w2 = ?ts \<and> cw_events w2 = cw_events w \<and> turn_id w2 = turn_id w \<and> cw_builder w2 = []"
    if u: "cw_tools u = cw_tools w" "turn_id u = turn_id w" "cw_events u = cw_events w" "cw_builder u = []" for u
  proof -
    have "GetMapData (GMap [(''_local'', template)]) ''_local'' = Some template" using assms(6) by (simp add: GetMapData_def)
    then have run: "fill_local E name args1 flow (emit_tool_event E name args1 id1) u =
        emit_tool_event E name args1 id1 (set_local name (GMap filled) (set_local name (GMap []) u))"
      using assms(5,7,9) by (simp add: fill_local_def env [OF u(2)])
    have "upd_wd (\<lambda>d. d\<lparr>wf_Local := GMap filled\<rparr>) (upd_wd (\<lambda>d. d\<lparr>wf_Local := GMap []\<rparr>) flow) = ?flow'" by (cases flow) (simp add: upd_wd_def)
    then have "cw_tools (set_local name (GMap filled) (set_local name (GMap []) u)) = ?ts" "cw_events (set_local name (GMap filled) (set_local name (GMap []) u)) = cw_events w"
      "cw_builder (set_local name (GMap filled) (set_local name (GMap []) u)) = []"
      using assms(3) u by (simp_all add: set_local_def)
    then show ?thesis using run u(2) keeps_set_local by metis
  qed
  obtain w1 where w1: "toolCallHandler E json1 args1 name id1 w = (w1, None)" "cw_tools w1 = ?ts" "cw_builder w1 = []" "turn_id w1 = turn_id w"
    "cw_events w1 = cw_events w @ [(ce_uuid E (length (cw_events w)), ?flow', args1)]"
    using tool_event_once [OF assms(1,10,3,4,2) fill ts] by blast
  have flow': "wf_Local (wd ?flow') = GMap filled" "fn_RawAction (wf_Function (wd ?flow')) \<noteq> ''rpc''" using assms(4) by (cases flow, simp add: upd_wd_def)+
  have none: "GetMapData (GMap filled) ''_local'' = None" using assms(8) by (simp add: GetMapData_def)
  have "fill_local E name args2 ?flow' (emit_tool_event E name args2 id2) u = emit_tool_event E name args2 id2 u" for u
    by (simp add: fill_local_def flow' none)
  then have "\<exists>w2. fill_local E name args2 ?flow' (emit_tool_event E name args2 id2) u = emit_tool_event E name args2 id2 w2 \<and>
      cw_tools w2 = ?ts \<and> cw_events w2 = cw_events w1 \<and> turn_id w2 = turn_id w1 \<and> cw_builder w2 = []"
    if "cw_tools u = cw_tools w1" "turn_id u = turn_id w1" "cw_events u = cw_events w1" "cw_builder u = []" for u
    using that w1(2) by metis
  from tool_event_once [OF assms(1,11) _ flow'(2) w1(3) this ts] w1(2) ts
  obtain w2 where "toolCallHandler E json2 args2 name id2 w1 = (w2, None)"
    "cw_events w2 = cw_events w1 @ [(ce_uuid E (length (cw_events w1)), ?flow', args2)]" by fastforce
  then show ?thesis using w1 by (simp add: lseq_def Let_def)
qed

section \<open>Witnesses\<close>

definition sample_chatter :: chatter where
  "sample_chatter = \<lparr>ct_InitMessages = (\<lambda>_. []), ct_BuildMessage = GStr, ct_BuildUserMessage = (\<lambda>user s. GStr s),
     ct_BuildToolReturnMessage = (\<lambda>name callID b. GStr b)\<rparr>"

text \<open>All calls are answered, with a value that is not empty.\<close>

definition sample_chat :: chat_env where
  "sample_chat = \<lparr>ce_ext = no_ext\<lparr>ext_parse_duration := (\<lambda>_. Some 600)\<rparr>, ce_fuel = 3, ce_answer = (\<lambda>_. Inr ''1''), ce_chatter = sample_chatter,
     ce_labels = (\<lambda>_. Inr []), ce_error = (\<lambda>_. Inr ''{}''), ce_uuid = utoa, ce_factory = None\<rparr>"

lemma sample_chat_works: "working sample_chat"
  by (simp add: working_def sample_chat_def no_ext_def split: gval.split)

definition sample_prompt :: Message where
  "sample_prompt = zero_message\<lparr>Payload := PVal (GMap [(''user'', GStr ''u''), (''prompt'', GStr ''hello''), (''convID'', GStr ''c'')])\<rparr>"

definition sample_wrapper :: ChatWrapper where
  "sample_wrapper = (case NewWrapper sample_chat ''openai'' GNil [] sample_prompt of Inr (w, _) \<Rightarrow> w)"

lemma sample_wrapper_facts:
  "NewWrapper sample_chat ''openai'' GNil [] sample_prompt = Inr (sample_wrapper, [], None)"
  "\<not> cw_hideThink sample_wrapper" "responses sample_wrapper = []" "cw_builder sample_wrapper = []" "\<not> cw_done sample_wrapper" "\<not> cw_codeBlock sample_wrapper"
  by code_simp+

definition code_start :: string where
  "code_start = fence @ ''go''"


theorem chat_loses_open_code_witness:
  "\<not> cw_done (fst (streamHandler sample_chat 1 code_start True sample_wrapper)) \<and>
   (\<exists>s. cw_builder (fst (streamHandler sample_chat 1 code_start True sample_wrapper)) = s @ code_start)"
proof (rule chat_loses_open_code [OF sample_chat_works sample_wrapper_facts(2) _ _ sample_wrapper_facts(5)])
  show "streamHandler sample_chat 1 code_start True sample_wrapper =
    (fst (streamHandler sample_chat 1 code_start True sample_wrapper), snd (streamHandler sample_chat 1 code_start True sample_wrapper))" by simp
  show "cw_codeBlock (fst (streamHandler sample_chat 1 code_start True sample_wrapper))" by code_simp
qed

theorem thinking_end_lost_witness:
  "streamHandler sample_chat 1 ''so'' True (sample_wrapper\<lparr>cw_hideThink := True, cw_msgType := ''think''\<rparr>) =
    (sample_wrapper\<lparr>cw_hideThink := True, cw_msgType := ''think''\<rparr>, None)"
  using thinking_end_lost [of "sample_wrapper\<lparr>cw_hideThink := True, cw_msgType := ''think''\<rparr>" "''so''" sample_chat 1 True]
  by (simp add: has_prefix_def)

text \<open>A turn whose cache stops answering when it has begun.\<close>

definition failing_chat :: chat_env where
  "failing_chat = sample_chat\<lparr>ce_answer := (\<lambda>cs. if length cs = 5 then Inl ''down'' else Inr ''1'')\<rparr>"

definition failing_wrapper :: ChatWrapper where
  "failing_wrapper = (case NewWrapper failing_chat ''openai'' GNil [] sample_prompt of Inr (w, _) \<Rightarrow> w)"

theorem chat_turn_unlocks_witness:
  "snd (turn_body failing_chat (\<lambda>_ _. [Chunk 1 ''Hi'' True]) failing_wrapper) \<noteq> None \<and>
   drop (length (cw_calls (fst (turn_body failing_chat (\<lambda>_ _. [Chunk 1 ''Hi'' True]) failing_wrapper)))) (cw_calls (snd (ChatRelay failing_chat (\<lambda>_ _. [Chunk 1 ''Hi'' True]) failing_wrapper))) = unlock_calls failing_wrapper"
proof -
  let ?stream = "\<lambda>_ _. [Chunk 1 ''Hi'' True]"
  have new: "NewWrapper failing_chat ''openai'' GNil [] sample_prompt = Inr (failing_wrapper, [], None)" by code_simp
  have down: "snd (turn_body failing_chat ?stream failing_wrapper) = Some (PanicErr ''down'')" by code_simp
  have fine: "length cs \<noteq> 5 \<Longrightarrow> ce_answer failing_chat cs = Inr ''1''" for cs by (simp add: failing_chat_def)
  have "length (cw_calls (fst (turn_body failing_chat ?stream failing_wrapper))) = 5" by code_simp
  with chat_turn_unlocks [OF new, of ?stream] down fine show ?thesis by (simp add: fatal_def unlock_calls_def)
qed

theorem chat_needs_lock_witness:
  "\<exists>w p. NewWrapper (sample_chat\<lparr>ce_answer := (\<lambda>_. Inl ''locked'')\<rparr>) ''openai'' GNil [] sample_prompt = Inr (w, [busy_reply], p) \<and> cw_calls w = [chat_lock w]"
proof -
  let ?E = "sample_chat\<lparr>ce_answer := (\<lambda>_. Inl ''locked'')\<rparr>"
  have "\<not> isl (NewWrapper ?E ''openai'' GNil [] sample_prompt)" by code_simp
  then obtain w rs p where n: "NewWrapper ?E ''openai'' GNil [] sample_prompt = Inr (w, rs, p)" by (cases "NewWrapper ?E ''openai'' GNil [] sample_prompt") auto
  then show ?thesis using chat_needs_lock [OF n] by auto
qed

definition down_chat :: chat_env where
  "down_chat = sample_chat\<lparr>ce_answer := (\<lambda>cs. if length cs = 1 then Inr [] else Inl ''down'')\<rparr>"

theorem failed_start_keeps_lock_witness:
  "\<exists>w. NewWrapper down_chat ''openai'' GNil [] sample_prompt = Inr (w, [], Some NilDereference) \<and> length (cw_calls w) = 2"
proof -
  have "\<not> isl (NewWrapper_fields down_chat ''openai'' GNil [] sample_prompt)" by code_simp
  then obtain w0 where w0: "NewWrapper_fields down_chat ''openai'' GNil [] sample_prompt = Inr w0"
    by (cases "NewWrapper_fields down_chat ''openai'' GNil [] sample_prompt") auto
  show ?thesis using failed_start_keeps_lock [OF w0] by (simp add: down_chat_def)
qed

definition sample_tool :: Workflow where
  "sample_tool = upd_wd (\<lambda>d. d\<lparr>wf_Local := GMap [(''_local'', GMap [(''city'', GStr ''$args.city'')])]\<rparr>) zero_workflow"

definition sample_args :: "string \<Rightarrow> gval" where
  "sample_args city = GMap [(''city'', GStr city)]"

theorem tool_reuses_arguments_witness:
  "\<exists>w'. load_each (handle_chat_event sample_chat) [ToolCall [] (sample_args ''Rome'') ''weather'' ''1'', ToolCall [] (sample_args ''Oslo'') ''weather'' ''2'']
      (sample_wrapper\<lparr>cw_tools := [(''weather'', sample_tool)]\<rparr>) = (w', None) \<and>
     map (\<lambda>(i, flow, args). wf_Local (wd flow)) (cw_events w') = [sample_args ''Rome'', sample_args ''Rome'']"
proof -
  let ?w = "sample_wrapper\<lparr>cw_tools := [(''weather'', sample_tool)]\<rparr>"
  have e: "cw_events ?w = []" "cw_builder ?w = []" by code_simp+
  have i: "Interpolate (ce_ext sample_chat) (ce_fuel sample_chat) (GMap [(''city'', GStr ''$args.city'')]) (GMap (tool_env (sample_args ''Rome'') ?w)) = Inr (GMap [(''city'', GStr ''Rome'')])"
    by code_simp
  have f: "fetch_args sample_chat (sample_args c) = (\<lambda>k. k (sample_args c))" if "\<not> has_prefix c ''@cache:''" for c
    using that by (simp add: fun_eq_iff fetch_args_def sample_args_def)
  have "\<not> has_prefix ''Rome'' ''@cache:''" "\<not> has_prefix ''Oslo'' ''@cache:''" by (simp_all add: has_prefix_def)
  note f = f [OF this(1)] f [OF this(2)]
  have t: "wf_Local (wd sample_tool) = GMap [(''_local'', GMap [(''city'', GStr ''$args.city'')])]" "fn_RawAction (wf_Function (wd sample_tool)) \<noteq> ''rpc''"
    by code_simp+
  have m: "map_of (cw_tools ?w) ''weather'' = Some sample_tool" "GMap [(''city'', GStr ''$args.city'')] \<noteq> GNil"
    "map_of [(''city'', GStr ''Rome'')] ''_local'' = None" by simp_all
  note r = tool_reuses_arguments [OF sample_chat_works e(2) m(1) t(2,1) m(2) i m(3) f(1) [unfolded sample_args_def] f, of "[]" "''1''" "[]" "''2''"]
  show ?thesis
  proof (rule exE [OF r], erule conjE, intro exI conjI, assumption)
    fix w'
    assume "let n = length (cw_events ?w); flow' = upd_wd (\<lambda>d. d\<lparr>wf_Local := GMap [(''city'', GStr ''Rome'')]\<rparr>) sample_tool in
      cw_events w' = cw_events ?w @ [(ce_uuid sample_chat n, flow', sample_args ''Rome''), (ce_uuid sample_chat (Suc n), flow', sample_args ''Oslo'')]"
    then show "map (\<lambda>(i, flow, args). wf_Local (wd flow)) (cw_events w') = [sample_args ''Rome'', sample_args ''Rome'']"
      unfolding e(1) Let_def by (simp add: sample_args_def)
  qed
qed

end
