(* ===== verification/Kubernetes.thy ===== *)
theory Kubernetes
  imports Handlers Condition Config
begin

text \<open>
  The driver that manages jobs, deployments and volume claims of a Kubernetes cluster,
  \<open>drivers/cmd/kubernetes/main.go\<close> and \<open>pv.go\<close>.

  The cluster and its client library are outside: \<open>kube\<close> holds the operations of the client on some state of
  the cluster, the YAML reader for manifests and the merge of \<open>mergo\<close>. Of the objects of the API the records
  have the fields that the driver reads; \<open>jb_Meta\<close> and \<open>jb_Status\<close> are what it passes on. The texts of panics
  are shortened. Waiting for a job is a loop over lists and watches of the job; what each round sees is an
  argument, and a watch whose events are used up is ended by the time-out.
\<close>

section \<open>Objects\<close>

record JobCondition =
  jc_Type :: string
  jc_Status :: string
  jc_Reason :: string

record Job =
  jb_Labels :: "(string, string) gomap"
  jb_Spec :: gval
  jb_Active :: int
  jb_Conditions :: "JobCondition list"
  jb_Meta :: gval
  jb_Status :: gval

datatype exit_state = Running | Exited int

record Pod =
  pd_Name :: string
  pd_Statuses :: "(string \<times> exit_state) list"
  pd_InitStatuses :: "(string \<times> exit_state) list"
  pd_InitContainers :: "string list"
  pd_Containers :: "string list"

record Deployment =
  dep_MatchLabels :: "(string, string) gomap"
  dep_Annotations :: "(string, string) gomap"

record ReplicaSet =
  rs_Name :: string
  rs_Annotations :: "(string, string) gomap"

datatype container_log = LogUnavailable | LogUnreadable | LogText string

datatype cronjob = CronNotFound | CronError | CronSpec gval

record 'k kube =
  kb_listJobs :: "string \<Rightarrow> string \<Rightarrow> 'k \<Rightarrow> string + Job list"
  kb_createJob :: "string \<Rightarrow> Job \<Rightarrow> 'k \<Rightarrow> 'k \<times> (string + Job)"
  kb_deleteJob :: "string \<Rightarrow> string \<Rightarrow> 'k \<Rightarrow> 'k \<times> string option"
  kb_listPods :: "string \<Rightarrow> string \<Rightarrow> 'k \<Rightarrow> string + Pod list"
  kb_logs :: "string \<Rightarrow> string \<Rightarrow> string \<Rightarrow> 'k \<Rightarrow> container_log"
  kb_getCronJob :: "string \<Rightarrow> string \<Rightarrow> 'k \<Rightarrow> cronjob"
  kb_listDeployments :: "string \<Rightarrow> string \<Rightarrow> 'k \<Rightarrow> string + Deployment list"
  kb_getDeployment :: "string \<Rightarrow> string \<Rightarrow> 'k \<Rightarrow> string + Deployment"
  kb_listReplicaSets :: "string \<Rightarrow> string \<Rightarrow> 'k \<Rightarrow> string + ReplicaSet list"
  kb_deleteReplicaSet :: "string \<Rightarrow> string \<Rightarrow> 'k \<Rightarrow> 'k \<times> string option"
  kb_createPVC :: "string \<Rightarrow> gval \<Rightarrow> 'k \<Rightarrow> 'k \<times> (string + gval \<times> gval)"
  kb_deletePVC :: "string \<Rightarrow> string \<Rightarrow> 'k \<Rightarrow> 'k \<times> string option"
  kb_decodeJob :: "gval \<Rightarrow> Job res"
  kb_decodePVC :: "gval \<Rightarrow> gval res"
  kb_mergeJob :: "Job \<Rightarrow> Job \<Rightarrow> Job res"

section \<open>Configuration\<close>

record rest_config =
  rc_Host :: string
  rc_BearerToken :: string
  rc_CAData :: string

text \<open>The call to the driver \<open>gcloud-gke\<close>, the configuration of a process in the cluster, and \<open>NewForConfig\<close>.\<close>

record kube_env =
  ke_ext :: ext
  ke_gke :: "gmap \<Rightarrow> string + string"
  ke_inCluster :: "rest_config res"
  ke_newClient :: "rest_config \<Rightarrow> gopanic option"

definition or_empty :: "string option \<Rightarrow> string" where
  "or_empty s = (case s of None \<Rightarrow> [] | Some v \<Rightarrow> v)"

definition getGKEConfig :: "kube_env \<Rightarrow> gmap \<Rightarrow> rest_config res" where
  "getGKEConfig K cfg = (case ke_gke K cfg of
      Inl e \<Rightarrow> Inl (PanicStr (''failed call gcloud to get kubeconfig '' @ e))
    | Inr bytes \<Rightarrow>
        rmap (\<lambda>ret.
          let host = or_empty (GetMapDataStr ret ''Host'');
              token = or_empty (GetMapDataStr ret ''Token'');
              cacert = or_empty (GetMapDataStr ret ''CACert'') in
          if fst (GetMapDataBool ret ''useDNS'') then
            \<lparr>rc_Host = (if has_prefix host ''https://'' then host else ''https://'' @ host), rc_BearerToken = token, rc_CAData = []\<rparr>
          else \<lparr>rc_Host = host, rc_BearerToken = token, rc_CAData = or_empty (ext_base64 (ke_ext K) cacert)\<rparr>)
        (DeserializeContent (ke_ext K) bytes))"

definition prepareKubeConfig :: "kube_env \<Rightarrow> Message \<Rightarrow> Message res" where
  "prepareKubeConfig K msg =
    rbind (DeserializePayload (ke_ext K) msg) (\<lambda>m.
    case GetMapData (payload_val m) ''source'' of
      None \<Rightarrow> Inl (PanicStr ''source is missing in parameters'')
    | Some source \<Rightarrow> (case GetMapDataStr source ''type'' of
        None \<Rightarrow> Inl (PanicStr ''source type is missing in parameters'')
      | Some stype \<Rightarrow>
          rbind (if stype = ''gcloud-gke'' then rbind (assert_type (as_map source)) (getGKEConfig K)
                 else if stype = ''local'' then ke_inCluster K
                 else Inl (PanicStr (''unsupported kubernetes source type: '' @ stype))) (\<lambda>cfg.
          case ke_newClient K cfg of Some e \<Rightarrow> Inl e | None \<Rightarrow> Inr m)))"

definition DefaultNamespace :: string where "DefaultNamespace = ''default''"

definition namespace_of :: "Message \<Rightarrow> string" where
  "namespace_of m = (case GetMapDataStr (payload_val m) ''namespace'' of None \<Rightarrow> DefaultNamespace | Some ns \<Rightarrow> ns)"

section \<open>Jobs\<close>

definition StatusSuccess :: string where "StatusSuccess = ''success''"
definition StatusFailure :: string where "StatusFailure = ''failure''"

fun job_conditions :: "JobCondition list \<Rightarrow> JobCondition list \<Rightarrow> string \<times> bool \<times> string list" where
  "job_conditions conds [] = (StatusSuccess, False, [])"
| "job_conditions conds (c # cs) =
     (if jc_Type c = ''Failed'' \<and> jc_Status c = ''True'' then (StatusFailure, True, map jc_Reason conds)
      else if (jc_Type c = ''Complete'' \<or> jc_Type c = ''SuccessCriteriaMet'') \<and> jc_Status c = ''True'' then (StatusSuccess, True, [])
      else job_conditions conds cs)"

definition getJobStatus :: "Job \<Rightarrow> string \<times> bool \<times> string list" where
  "getJobStatus job = job_conditions (jb_Conditions job) (jb_Conditions job)"

definition job_reply :: "Job \<Rightarrow> Message" where
  "job_reply job = (case getJobStatus job of (jobStatus, completed, reason) \<Rightarrow>
     zero_message\<lparr>Payload := PVal (GMap [(''status'', jb_Status job)]),
       Labels := Some [(''status'', jobStatus), (''reason'', join_on newline reason)]\<rparr>)"

text \<open>The reply that is sent, if the job is completed.\<close>

definition returnJobStatus :: "Job \<Rightarrow> Message option" where
  "returnJobStatus job = (case getJobStatus job of (_, completed, _) \<Rightarrow> if completed then Some (job_reply job) else None)"

datatype watch_event = WatchClosed | WatchError int | JobEvent Job | WatchExpired

datatype watched = WatchEnds "Message list" | WatchAgain | WatchPanics gopanic

text \<open>The inner loop; \<open>job\<close> is the object from the list, which the events do not replace.\<close>

fun watch_loop :: "Job \<Rightarrow> watch_event list \<Rightarrow> watched" where
  "watch_loop job [] = WatchEnds (case returnJobStatus job of None \<Rightarrow> [] | Some m \<Rightarrow> [m])"
| "watch_loop job (WatchExpired # evs) = WatchEnds (case returnJobStatus job of None \<Rightarrow> [] | Some m \<Rightarrow> [m])"
| "watch_loop job (WatchClosed # evs) = WatchAgain"
| "watch_loop job (WatchError code # evs) =
     (if code = 410 then WatchAgain else WatchPanics (PanicStr ''error from watching channel for job''))"
| "watch_loop job (JobEvent j # evs) = (case returnJobStatus j of Some m \<Rightarrow> WatchEnds [m] | None \<Rightarrow> watch_loop job evs)"

text \<open>One round of the outer loop: the client, the list of jobs, and the watch.\<close>

record wait_round =
  wr_client :: "gopanic option"
  wr_list :: "string + Job list"
  wr_watch :: "string + watch_event list"

fun wait_rounds :: "wait_round list \<Rightarrow> handler_run option" where
  "wait_rounds [] = None"
| "wait_rounds (r # rounds) = (case wr_client r of
      Some e \<Rightarrow> Some \<lparr>replies = [], panics = Some e, late = False\<rparr>
    | None \<Rightarrow> (case wr_list r of
        Inr (job # _) \<Rightarrow> (case returnJobStatus job of
            Some m \<Rightarrow> Some \<lparr>replies = [m], panics = None, late = False\<rparr>
          | None \<Rightarrow> (case wr_watch r of
              Inl e \<Rightarrow> Some \<lparr>replies = [], panics = Some (PanicStr (''unable to watch the job '' @ e)), late = False\<rparr>
            | Inr evs \<Rightarrow> (case watch_loop job evs of
                WatchEnds ms \<Rightarrow> Some \<lparr>replies = ms, panics = None, late = False\<rparr>
              | WatchPanics e \<Rightarrow> Some \<lparr>replies = [], panics = Some e, late = False\<rparr>
              | WatchAgain \<Rightarrow> wait_rounds rounds)))
      | _ \<Rightarrow> Some \<lparr>replies = [], panics = Some (PanicStr ''job not found''), late = False\<rparr>))"

text \<open>The job to wait for, its namespace and the time-out in seconds, and the wait.\<close>

definition wait_request :: "ext \<Rightarrow> Message \<Rightarrow> (string \<times> string \<times> int) res" where
  "wait_request X msg =
    rbind (DeserializePayload X msg) (\<lambda>m.
    rbind (MustGetMapDataStr (payload_val m) ''job'') (\<lambda>jobName.
    Inr (namespace_of m, jobName, case label m ''timeout'' of None \<Rightarrow> 10 | Some t \<Rightarrow> fst (atoi_val t))))"

definition waitForJob :: "ext \<Rightarrow> (string \<Rightarrow> string \<Rightarrow> int \<Rightarrow> wait_round list) \<Rightarrow> Message \<Rightarrow> handler_run option" where
  "waitForJob X rounds msg = (case wait_request X msg of
      Inl e \<Rightarrow> Some \<lparr>replies = [], panics = Some e, late = False\<rparr>
    | Inr (ns, jobName, timeout) \<Rightarrow> wait_rounds (rounds ns jobName timeout))"

definition deleteJob :: "kube_env \<Rightarrow> 'k kube \<Rightarrow> Message \<Rightarrow> 'k \<Rightarrow> 'k handled" where
  "deleteJob K C msg k =
    with_value k (rbind (prepareKubeConfig K msg) (\<lambda>m. rmap (Pair m) (MustGetMapDataStr (payload_val m) ''job''))) (\<lambda>(m, jobName).
    case kb_deleteJob C (namespace_of m) jobName k of
      (k1, Some e) \<Rightarrow> failed k1 (PanicStr (''unable to delete the job '' @ jobName))
    | (k1, None) \<Rightarrow> answer_with k1 (zero_message\<lparr>Labels := Some [(''status'', ''success'')]\<rparr>))"

text \<open>The messages and logs of the containers of a pod.\<close>

definition status_message :: "string \<Rightarrow> string \<times> exit_state \<Rightarrow> string" where
  "status_message pod c = ''container '' @ pod @ ''.'' @ fst c @ (case snd c of
      Running \<Rightarrow> '' not terminated''
    | Exited code \<Rightarrow> if code \<noteq> 0 then '' exit with code '' @ itoa code else '' completed successfully'')"

definition container_text :: "string \<Rightarrow> string \<Rightarrow> container_log \<Rightarrow> string" where
  "container_text pod container l = (case l of
      LogUnavailable \<Rightarrow> ''Error: unable to fetch the logs from the container '' @ pod @ ''.'' @ container
    | LogUnreadable \<Rightarrow> ''Error: unable to read the logs from the stream '' @ pod @ ''.'' @ container
    | LogText s \<Rightarrow> s)"

definition pod_logs :: "'k kube \<Rightarrow> string \<Rightarrow> 'k \<Rightarrow> Pod \<Rightarrow> (string \<times> string) list" where
  "pod_logs C ns k pod = map (\<lambda>c. (c, container_text (pd_Name pod) c (kb_logs C ns (pd_Name pod) c k))) (pd_InitContainers pod @ pd_Containers pod)"

definition pod_messages :: "'k kube \<Rightarrow> string \<Rightarrow> 'k \<Rightarrow> Pod \<Rightarrow> string list" where
  "pod_messages C ns k pod = map (status_message (pd_Name pod)) (pd_InitStatuses pod @ pd_Statuses pod) @ [''>>>Logs<<<''] @ map snd (pod_logs C ns k pod)"

definition log_reply :: "string \<Rightarrow> gmap \<Rightarrow> string \<Rightarrow> Message" where
  "log_reply jobStatus alllogs output =
    zero_message\<lparr>Labels := Some ((''status'', jobStatus) # (if jobStatus \<noteq> StatusSuccess then [(''reason'', output)] else [])),
      Payload := PVal (GMap [(''log'', GMap alllogs), (''output'', GStr output)])\<rparr>"

definition getJobLog :: "kube_env \<Rightarrow> 'k kube \<Rightarrow> Message \<Rightarrow> 'k \<Rightarrow> 'k handled" where
  "getJobLog K C msg k =
    with_value k (rbind (prepareKubeConfig K msg) (\<lambda>m. rmap (Pair m) (MustGetMapDataStr (payload_val m) ''job''))) (\<lambda>(m, jobName).
    case kb_listJobs C (namespace_of m) (''metadata.name=='' @ jobName) k of
      Inr (job # _) \<Rightarrow> (case kb_listPods C (namespace_of m) (''job-name=='' @ jobName) k of
          Inr (p # ps) \<Rightarrow> (let pods = p # ps; ns = namespace_of m in
            answer_with k (log_reply (fst (getJobStatus job))
              (fold (\<lambda>pod. mput (pd_Name pod) (GMap (fold (\<lambda>(c, l). mput c (GStr l)) (pod_logs C ns k pod) []))) pods [])
              (join_on newline (concat (map (pod_messages C ns k) pods)))))
        | _ \<Rightarrow> failed k (PanicStr ''unable to find the pod for the job''))
    | _ \<Rightarrow> failed k (PanicStr (''job not found '' @ jobName)))"

section \<open>Creating jobs\<close>

definition UniqueLabel :: string where "UniqueLabel = ''honeydipper-unique-identifier''"

text \<open>\<open>path.Split\<close> cuts after the last slash, which stays with the directory.\<close>

definition path_split :: "string \<Rightarrow> string \<times> string" where
  "path_split s = (rev (dropWhile (\<lambda>c. c \<noteq> CHR ''/'') (rev s)), rev (takeWhile (\<lambda>c. c \<noteq> CHR ''/'') (rev s)))"

definition zero_job :: Job where
  "zero_job = \<lparr>jb_Labels = [], jb_Spec = GNil, jb_Active = 0, jb_Conditions = [], jb_Meta = GNil, jb_Status = GNil\<rparr>"

definition cron_template :: "'k kube \<Rightarrow> string \<Rightarrow> string \<Rightarrow> 'k \<Rightarrow> Job res" where
  "cron_template C ns fromCronJob k = (case path_split fromCronJob of (dir, name) \<Rightarrow>
     let cns = (if dir = [] then ns else dir) in
     case kb_getCronJob C cns name k of
       CronSpec spec \<Rightarrow> Inr (zero_job\<lparr>jb_Spec := spec\<rparr>)
     | CronError \<Rightarrow> Inl (PanicStr (''unable get cronJob information '' @ fromCronJob))
     | CronNotFound \<Rightarrow> (case kb_getCronJob C cns name k of
         CronSpec spec \<Rightarrow> Inr (zero_job\<lparr>jb_Spec := spec\<rparr>) | _ \<Rightarrow> Inl (PanicErr ''not found'')))"

definition constructJob :: "'k kube \<Rightarrow> Message \<Rightarrow> string \<Rightarrow> 'k \<Rightarrow> Job res" where
  "constructJob C m ns k =
    rbind (case GetMapDataStr (payload_val m) ''fromCronJob'' of None \<Rightarrow> Inr zero_job | Some c \<Rightarrow> cron_template C ns c k) (\<lambda>job.
    rbind (MustGetMapData (payload_val m) ''job'') (\<lambda>source.
    rbind (kb_decodeJob C source) (kb_mergeJob C job)))"

definition getExistingJob :: "'k kube \<Rightarrow> string \<Rightarrow> Job \<Rightarrow> 'k \<Rightarrow> Job option res" where
  "getExistingJob C ns spec k = (case map_of (jb_Labels spec) UniqueLabel of
      None \<Rightarrow> Inr None
    | Some uniqID \<Rightarrow> (case kb_listJobs C ns (UniqueLabel @ ''='' @ uniqID) k of
        Inl e \<Rightarrow> Inl (PanicErr e)
      | Inr jobs \<Rightarrow> Inr (find (\<lambda>job. jb_Active job > 0) jobs)))"

definition created_reply :: "gval \<Rightarrow> gval \<Rightarrow> Message" where
  "created_reply meta status = zero_message\<lparr>Payload := PVal (GMap [(''metadata'', meta), (''status'', status)])\<rparr>"

definition createJob :: "kube_env \<Rightarrow> 'k kube \<Rightarrow> Message \<Rightarrow> 'k \<Rightarrow> 'k handled" where
  "createJob K C msg k =
    with_value k (prepareKubeConfig K msg) (\<lambda>m. let ns = namespace_of m in
    with_value k (constructJob C m ns k) (\<lambda>job.
    with_value k (getExistingJob C ns job k) (\<lambda>existing. case existing of
        Some j \<Rightarrow> answer_with k (created_reply (jb_Meta j) (jb_Status j))
      | None \<Rightarrow> (case kb_createJob C ns job k of
          (k1, Inl e) \<Rightarrow> failed k1 (PanicStr (''failed to create job '' @ e))
        | (k1, Inr j) \<Rightarrow> answer_with k1 (created_reply (jb_Meta j) (jb_Status j))))))"

section \<open>Deployments and volume claims\<close>

definition revision :: "(string, string) gomap \<Rightarrow> string" where
  "revision annotations = mget_str annotations ''deployment.kubernetes.io/revision''"

text \<open>The deployment and the selector of its replica sets.\<close>

definition find_deployment :: "'k kube \<Rightarrow> string \<Rightarrow> string \<Rightarrow> 'k \<Rightarrow> (Deployment \<times> string) res" where
  "find_deployment C ns name k =
    (if contains name ''='' then (case kb_listDeployments C ns name k of
        Inr (d # _) \<Rightarrow> Inr (d, name)
      | _ \<Rightarrow> Inl (PanicStr (''unable to find the deployment '' @ name)))
     else (case kb_getDeployment C ns name k of
        Inl e \<Rightarrow> Inl (PanicStr (''unable to find the deployment '' @ name))
      | Inr d \<Rightarrow> Inr (d, join_on CHR '','' (map (\<lambda>(l, v). l @ ''='' @ v) (dep_MatchLabels d)))))"

definition current_replicaset :: "Deployment \<Rightarrow> ReplicaSet list \<Rightarrow> string" where
  "current_replicaset d rs = (case find (\<lambda>r. revision (rs_Annotations r) = revision (dep_Annotations d)) rs of
      None \<Rightarrow> [] | Some r \<Rightarrow> rs_Name r)"

definition recycleDeployment :: "kube_env \<Rightarrow> 'k kube \<Rightarrow> Message \<Rightarrow> 'k \<Rightarrow> 'k handled" where
  "recycleDeployment K C msg k =
    with_value k (prepareKubeConfig K msg) (\<lambda>m. let ns = namespace_of m in
    case GetMapDataStr (payload_val m) ''deployment'' of
      None \<Rightarrow> failed k (PanicStr ''deployment is missing in parameters'')
    | Some name \<Rightarrow> with_value k (find_deployment C ns name k) (\<lambda>(d, labels).
        case kb_listReplicaSets C ns labels k of
          Inr (r # rs) \<Rightarrow> (let rsName = current_replicaset d (r # rs) in
            if rsName = [] then failed k (PanicStr (''unable to figure out which is current replicaset for '' @ name))
            else (case kb_deleteReplicaSet C ns rsName k of
                (k1, Some e) \<Rightarrow> failed k1 (PanicStr (''failed to recycle replicaset '' @ rsName))
              | (k1, None) \<Rightarrow> answer_with k1 zero_message))
        | _ \<Rightarrow> failed k (PanicStr (''unable to find the replicaset for the deployment '' @ name))))"

definition createPVC :: "kube_env \<Rightarrow> 'k kube \<Rightarrow> Message \<Rightarrow> 'k \<Rightarrow> 'k handled" where
  "createPVC K C msg k =
    with_value k (rbind (prepareKubeConfig K msg) (\<lambda>m. rbind (MustGetMapData (payload_val m) ''pvc'') (\<lambda>source.
      rmap (Pair m) (kb_decodePVC C source)))) (\<lambda>(m, pvc).
    case kb_createPVC C (namespace_of m) pvc k of
      (k1, Inl e) \<Rightarrow> failed k1 (PanicStr (''failed to create pvc '' @ e))
    | (k1, Inr (meta, status)) \<Rightarrow> answer_with k1 (created_reply meta status))"

definition deletePVC :: "kube_env \<Rightarrow> 'k kube \<Rightarrow> Message \<Rightarrow> 'k \<Rightarrow> 'k handled" where
  "deletePVC K C msg k =
    with_value k (rbind (prepareKubeConfig K msg) (\<lambda>m. rmap (Pair m) (MustGetMapDataStr (payload_val m) ''pvc''))) (\<lambda>(m, name).
    case kb_deletePVC C (namespace_of m) name k of
      (k1, Some e) \<Rightarrow> failed k1 (PanicStr (''failed to delete pvc '' @ e))
    | (k1, None) \<Rightarrow> answer_with k1 zero_message)"

section \<open>Properties\<close>

text \<open>The jobs a wait has seen, in the lists and in the events.\<close>

fun event_jobs :: "watch_event list \<Rightarrow> Job list" where
  "event_jobs [] = []"
| "event_jobs (JobEvent j # evs) = j # event_jobs evs"
| "event_jobs (_ # evs) = event_jobs evs"

definition seen_jobs :: "wait_round \<Rightarrow> Job list" where
  "seen_jobs r = (case wr_list r of Inl _ \<Rightarrow> [] | Inr js \<Rightarrow> take 1 js) @ (case wr_watch r of Inl _ \<Rightarrow> [] | Inr evs \<Rightarrow> event_jobs evs)"

definition completed :: "Job \<Rightarrow> bool" where
  "completed job \<longleftrightarrow> (\<exists>c \<in> set (jb_Conditions job). jc_Status c = ''True'' \<and> jc_Type c \<in> {''Failed'', ''Complete'', ''SuccessCriteriaMet''})"

lemma job_conditions_completed:
  "fst (snd (job_conditions conds cs)) \<longleftrightarrow> (\<exists>c \<in> set cs. jc_Status c = ''True'' \<and> jc_Type c \<in> {''Failed'', ''Complete'', ''SuccessCriteriaMet''})"
  by (induction cs) auto

lemma returnJobStatus_Some: "returnJobStatus job = (if completed job then Some (job_reply job) else None)"
  using job_conditions_completed [of "jb_Conditions job" "jb_Conditions job"]
  by (auto simp: returnJobStatus_def getJobStatus_def completed_def split: prod.split)

lemma watch_loop_ends:
  "watch_loop job evs = WatchEnds ms \<Longrightarrow> \<not> completed job \<Longrightarrow> ms = [] \<or> (\<exists>j \<in> set (event_jobs evs). completed j \<and> ms = [job_reply j])"
  by (induction job evs rule: watch_loop.induct) (auto simp: returnJobStatus_Some split: if_splits)

text \<open>
  A wait tells only what the cluster has said: it sends at most one reply, and that is the state of a
  completed job which was listed or arrived in an event.
\<close>

lemma wait_reports:
  "wait_rounds rounds = Some run \<Longrightarrow> replies run = [] \<or>
    (\<exists>r \<in> set rounds. \<exists>job \<in> set (seen_jobs r). completed job \<and> replies run = [job_reply job])"
proof (induction rounds)
  case (Cons r rounds)
  show ?case
  proof (cases "wr_list r")
    case (Inr js)
    show ?thesis
    proof (cases js)
      case (Cons job js')
      show ?thesis
      proof (cases "completed job")
        case True
        with Cons.prems Inr \<open>js = job # js'\<close> show ?thesis
          by (auto simp: returnJobStatus_Some seen_jobs_def split: option.splits)
      next
        case False
        with Cons.prems Cons.IH Inr \<open>js = job # js'\<close> watch_loop_ends [of job] show ?thesis
          by (auto simp: returnJobStatus_Some seen_jobs_def split: option.splits sum.splits watched.splits) fastforce+
      qed
    qed (use Cons.prems Inr in \<open>auto split: option.splits\<close>)
  qed (use Cons.prems in \<open>auto split: option.splits\<close>)
qed simp

text \<open>A round in which the watch ends before the job does, and one that sees the end of the job.\<close>

definition quiet_round :: "wait_round \<Rightarrow> bool" where
  "quiet_round r \<longleftrightarrow> wr_client r = None \<and> (\<exists>job js evs. wr_list r = Inr (job # js) \<and> \<not> completed job \<and>
     wr_watch r = Inr evs \<and> watch_loop job evs = WatchAgain)"

definition last_round :: "Job \<Rightarrow> wait_round \<Rightarrow> bool" where
  "last_round j r \<longleftrightarrow> wr_client r = None \<and> completed j \<and> (\<exists>job js. wr_list r = Inr (job # js) \<and>
     (job = j \<or> \<not> completed job \<and> (\<exists>before after. wr_watch r = Inr (map JobEvent before @ JobEvent j # after) \<and> list_all (\<lambda>x. \<not> completed x) before)))"

lemma watch_loop_found:
  "list_all (\<lambda>x. \<not> completed x) before \<Longrightarrow> completed j \<Longrightarrow> watch_loop job (map JobEvent before @ JobEvent j # after) = WatchEnds [job_reply j]"
  by (induction before) (simp_all add: returnJobStatus_Some)

lemma job_failed: "fst (job_conditions conds cs) = StatusFailure \<Longrightarrow> \<exists>c \<in> set cs. jc_Type c = ''Failed'' \<and> jc_Status c = ''True''"
  by (induction cs) (auto simp: StatusSuccess_def StatusFailure_def split: if_splits)

text \<open>
  However often the watch on a job breaks, the wait for it is answered when the job ends: with one
  reply, the state of the job in the first list or event that shows it completed. A job is called failed
  only if the cluster says so.
\<close>

theorem wait_finds_completion:
  assumes "\<forall>r \<in> set rounds. quiet_round r" and "last_round j r"
  shows "wait_rounds (rounds @ r # more_rounds) = Some \<lparr>replies = [job_reply j], panics = None, late = False\<rparr> \<and>
    (label (job_reply j) ''status'' = Some StatusFailure \<longrightarrow> (\<exists>c \<in> set (jb_Conditions j). jc_Type c = ''Failed'' \<and> jc_Status c = ''True''))"
proof
  show "wait_rounds (rounds @ r # more_rounds) = Some \<lparr>replies = [job_reply j], panics = None, late = False\<rparr>"
    using assms(1)
  proof (induction rounds)
    case Nil
    from assms(2) show ?case by (auto simp: last_round_def returnJobStatus_Some watch_loop_found)
  next
    case (Cons q rounds)
    then have "quiet_round q" "wait_rounds (rounds @ r # more_rounds) = Some \<lparr>replies = [job_reply j], panics = None, late = False\<rparr>" by simp_all
    then show ?case by (auto simp: quiet_round_def returnJobStatus_Some)
  qed
  have "label (job_reply j) ''status'' = Some (fst (getJobStatus j))"
    by (cases "getJobStatus j") (simp add: job_reply_def label_def labels_def)
  then show "label (job_reply j) ''status'' = Some StatusFailure \<longrightarrow> (\<exists>c \<in> set (jb_Conditions j). jc_Type c = ''Failed'' \<and> jc_Status c = ''True'')"
    using job_failed [of "jb_Conditions j" "jb_Conditions j"] by (auto simp: getJobStatus_def)
qed

text \<open>When the time is over nothing is sent: the handler looks at the job from the list, which was not completed.\<close>

theorem wait_timeout_silent:
  assumes "wr_client r = None" and "wr_list r = Inr (job # js)" and "\<not> completed job"
    and "wr_watch r = Inr (map JobEvent events)" and "list_all (\<lambda>x. \<not> completed x) events"
  shows "wait_rounds (r # rounds) = Some \<lparr>replies = [], panics = None, late = False\<rparr>"
proof -
  have "watch_loop job (map JobEvent events) = WatchEnds []"
    using assms(5) by (induction events) (simp_all add: returnJobStatus_Some assms(3))
  then show ?thesis using assms by (simp add: returnJobStatus_Some)
qed

text \<open>The log of a job that still runs is returned with the status \<open>success\<close>.\<close>

theorem running_job_success:
  assumes "prepareKubeConfig K msg = Inr m" and "MustGetMapDataStr (payload_val m) ''job'' = Inr jobName"
    and "kb_listJobs C (namespace_of m) (''metadata.name=='' @ jobName) k = Inr (job # js)" and "\<not> completed job"
    and "kb_listPods C (namespace_of m) (''job-name=='' @ jobName) k = Inr (p # ps)"
  shows "\<exists>answer. getJobLog K C msg k = answer_with k answer \<and> label answer ''status'' = Some StatusSuccess"
proof -
  have "fst (job_conditions conds cs) = StatusSuccess" if "\<not> fst (snd (job_conditions conds cs))" for conds cs
    using that by (induction cs) (auto split: if_splits)
  moreover have "\<not> fst (snd (job_conditions (jb_Conditions job) (jb_Conditions job)))"
    using assms(4) unfolding job_conditions_completed completed_def .
  ultimately have "fst (getJobStatus job) = StatusSuccess" by (simp add: getJobStatus_def)
  then show ?thesis using assms(1,2,3,5)
    by (intro exI conjI, simp add: getJobLog_def with_value_def Let_def) (simp add: log_reply_def label_def labels_def)
qed

text \<open>
  A job with a unique identifier is not started twice: while the cluster has an active job with this
  identifier, the request changes nothing and is answered with that job; otherwise exactly the
  constructed job is created.
\<close>

theorem createJob_unique:
  assumes "prepareKubeConfig K msg = Inr m" and "constructJob C m (namespace_of m) k = Inr job" and "map_of (jb_Labels job) UniqueLabel = Some uid"
    and "kb_listJobs C (namespace_of m) (UniqueLabel @ ''='' @ uid) k = Inr jobs"
  shows "if \<exists>j \<in> set jobs. jb_Active j > 0
    then \<exists>j \<in> set jobs. jb_Active j > 0 \<and> createJob K C msg k = answer_with k (created_reply (jb_Meta j) (jb_Status j))
    else fst (createJob K C msg k) = fst (kb_createJob C (namespace_of m) job k)"
proof -
  have run: "createJob K C msg k = (case find (\<lambda>job. jb_Active job > 0) jobs of
        Some j \<Rightarrow> answer_with k (created_reply (jb_Meta j) (jb_Status j))
      | None \<Rightarrow> (case kb_createJob C (namespace_of m) job k of
          (k1, Inl e) \<Rightarrow> failed k1 (PanicStr (''failed to create job '' @ e))
        | (k1, Inr j) \<Rightarrow> answer_with k1 (created_reply (jb_Meta j) (jb_Status j))))"
    using assms by (simp add: createJob_def with_value_def getExistingJob_def Let_def)
  show ?thesis
  proof (cases "find (\<lambda>job. jb_Active job > 0) jobs")
    case None
    then have "\<not> (\<exists>j \<in> set jobs. jb_Active j > 0)" by (simp add: find_None_iff)
    with None show ?thesis unfolding run by (simp add: failed_def answer_with_def split: prod.split sum.split)
  next
    case (Some j)
    then have "j \<in> set jobs" "jb_Active j > 0" by (auto simp: find_Some_iff)
    with Some show ?thesis unfolding run by auto
  qed
qed

text \<open>
  The namespace in front of the name of a cron job keeps its slash, so the cluster is asked for a
  namespace that cannot exist.
\<close>

theorem cron_namespace_slash:
  assumes "CHR ''/'' \<notin> set name"
  shows "cron_template C ns (cns @ ''/'' @ name) k = (case kb_getCronJob C (cns @ ''/'') name k of
      CronSpec spec \<Rightarrow> Inr (zero_job\<lparr>jb_Spec := spec\<rparr>)
    | CronError \<Rightarrow> Inl (PanicStr (''unable get cronJob information '' @ cns @ ''/'' @ name))
    | CronNotFound \<Rightarrow> Inl (PanicErr ''not found''))"
proof -
  have "\<forall>c \<in> set (rev name). c \<noteq> CHR ''/''" using assms by auto
  then have "path_split (cns @ ''/'' @ name) = (cns @ ''/'', name)"
    by (simp add: path_split_def dropWhile_append3 takeWhile_append)
  then show ?thesis by (simp add: cron_template_def Let_def split: cronjob.split)
qed

text \<open>
  Recycling deletes one replica set and nothing else, one of those the cluster lists for the deployment,
  with the revision the deployment has now; in every other case the cluster is left as it is.
\<close>

theorem recycle_current_revision:
  "fst (recycleDeployment K C msg k) = k \<or>
   (\<exists>m name d labels rs r. prepareKubeConfig K msg = Inr m \<and> GetMapDataStr (payload_val m) ''deployment'' = Some name \<and>
      find_deployment C (namespace_of m) name k = Inr (d, labels) \<and> kb_listReplicaSets C (namespace_of m) labels k = Inr rs \<and> r \<in> set rs \<and>
      revision (rs_Annotations r) = revision (dep_Annotations d) \<and>
      fst (recycleDeployment K C msg k) = fst (kb_deleteReplicaSet C (namespace_of m) (rs_Name r) k))"
proof (cases "fst (recycleDeployment K C msg k) = k")
  case False
  then obtain m name d labels r rs where run: "prepareKubeConfig K msg = Inr m" "GetMapDataStr (payload_val m) ''deployment'' = Some name"
    "find_deployment C (namespace_of m) name k = Inr (d, labels)" "kb_listReplicaSets C (namespace_of m) labels k = Inr (r # rs)"
    "current_replicaset d (r # rs) \<noteq> []"
    by (auto simp: recycleDeployment_def with_value_def failed_def Let_def split: sum.splits option.splits list.splits if_splits)
  then obtain q where q: "find (\<lambda>r. revision (rs_Annotations r) = revision (dep_Annotations d)) (r # rs) = Some q"
    by (auto simp: current_replicaset_def split: option.splits)
  then have "q \<in> set (r # rs)" "revision (rs_Annotations q) = revision (dep_Annotations d)" by (auto simp: find_Some_iff split: if_splits)
  moreover have "fst (recycleDeployment K C msg k) = fst (kb_deleteReplicaSet C (namespace_of m) (rs_Name q) k)"
    using run q by (simp add: recycleDeployment_def with_value_def Let_def current_replicaset_def failed_def answer_with_def split: prod.split option.split)
  ultimately show ?thesis using run by blast
qed simp

section \<open>Witnesses\<close>

definition done_job :: Job where
  "done_job = zero_job\<lparr>jb_Conditions := [\<lparr>jc_Type = ''Complete'', jc_Status = ''True'', jc_Reason = []\<rparr>]\<rparr>"

definition broken_round :: wait_round where
  "broken_round = \<lparr>wr_client = None, wr_list = Inr [zero_job], wr_watch = Inr [JobEvent zero_job, WatchClosed]\<rparr>"

definition good_round :: wait_round where
  "good_round = \<lparr>wr_client = None, wr_list = Inr [zero_job], wr_watch = Inr [JobEvent zero_job, JobEvent done_job]\<rparr>"

lemma sample_jobs: "\<not> completed zero_job" "completed done_job" "quiet_round broken_round" "last_round done_job good_round"
proof -
  show j: "\<not> completed zero_job" "completed done_job" by code_simp+
  show "quiet_round broken_round" using j by (simp add: quiet_round_def broken_round_def returnJobStatus_Some)
  show "last_round done_job good_round" using j
    by (simp add: last_round_def good_round_def) (intro disjI2 exI [of _ "[zero_job]"], simp)
qed

theorem wait_finds_completion_witness:
  "wait_rounds [broken_round, good_round] = Some \<lparr>replies = [job_reply done_job], panics = None, late = False\<rparr>"
  using wait_finds_completion [of "[broken_round]" done_job good_round "[]"] sample_jobs by simp

theorem wait_timeout_silent_witness:
  "wait_rounds [\<lparr>wr_client = None, wr_list = Inr [zero_job], wr_watch = Inr [JobEvent zero_job]\<rparr>] = Some \<lparr>replies = [], panics = None, late = False\<rparr>"
  using wait_timeout_silent [of "\<lparr>wr_client = None, wr_list = Inr [zero_job], wr_watch = Inr [JobEvent zero_job]\<rparr>" zero_job "[]" "[zero_job]" "[]"] sample_jobs(1)
  by simp

text \<open>A cluster whose state is the list of its jobs.\<close>

definition small_kube :: "Job list kube" where
  "small_kube = \<lparr>kb_listJobs = (\<lambda>ns sel k. Inr k), kb_createJob = (\<lambda>ns j k. (k @ [j], Inr j)), kb_deleteJob = (\<lambda>ns n k. (tl k, None)),
     kb_listPods = (\<lambda>ns j k. Inr [\<lparr>pd_Name = ''p'', pd_Statuses = [(''main'', Running)], pd_InitStatuses = [], pd_InitContainers = [], pd_Containers = [''main'']\<rparr>]),
     kb_logs = (\<lambda>ns p c k. LogText ''working''), kb_getCronJob = (\<lambda>ns n k. if ns = ''jobs'' then CronSpec (GMap []) else CronNotFound),
     kb_listDeployments = (\<lambda>ns s k. Inr []), kb_getDeployment = (\<lambda>ns n k. Inl ''not found''), kb_listReplicaSets = (\<lambda>ns s k. Inr []),
     kb_deleteReplicaSet = (\<lambda>ns n k. (k, None)), kb_createPVC = (\<lambda>ns v k. (k, Inr (GNil, GNil))), kb_deletePVC = (\<lambda>ns n k. (k, None)),
     kb_decodeJob = (\<lambda>v. Inr (zero_job\<lparr>jb_Labels := [(UniqueLabel, ''a'')]\<rparr>)), kb_decodePVC = Inr, kb_mergeJob = (\<lambda>a b. Inr b)\<rparr>"

definition small_env :: kube_env where
  "small_env = \<lparr>ke_ext = no_ext, ke_gke = (\<lambda>_. Inl ''down''), ke_inCluster = Inr \<lparr>rc_Host = ''h'', rc_BearerToken = ''t'', rc_CAData = []\<rparr>, ke_newClient = (\<lambda>_. None)\<rparr>"

definition job_request :: "gval \<Rightarrow> Message" where
  "job_request job = zero_message\<lparr>Payload := PVal (GMap [(''source'', GMap [(''type'', GStr ''local'')]), (''job'', job)])\<rparr>"

lemma job_request_facts:
  "prepareKubeConfig small_env (job_request (GStr ''j'')) = Inr (job_request (GStr ''j''))"
  "MustGetMapDataStr (payload_val (job_request (GStr ''j''))) ''job'' = Inr ''j''"
  by code_simp+

theorem running_job_success_witness:
  "\<exists>answer. getJobLog small_env small_kube (job_request (GStr ''j'')) [zero_job] = answer_with [zero_job] answer \<and> label answer ''status'' = Some StatusSuccess"
  using running_job_success [OF job_request_facts, of small_kube "[zero_job]" zero_job "[]"] sample_jobs(1) by (simp add: small_kube_def)

theorem createJob_unique_witness:
  "\<exists>answer. createJob small_env small_kube (job_request (GStr ''j'')) [zero_job\<lparr>jb_Active := 1\<rparr>] = answer_with [zero_job\<lparr>jb_Active := 1\<rparr>] answer"
proof -
  let ?k = "[zero_job\<lparr>jb_Active := 1\<rparr>]" and ?m = "job_request (GStr ''j'')" and ?job = "zero_job\<lparr>jb_Labels := [(UniqueLabel, ''a'')]\<rparr>"
  have "constructJob small_kube ?m (namespace_of ?m) ?k = Inr ?job" by code_simp
  moreover have "map_of (jb_Labels ?job) UniqueLabel = Some ''a''" "kb_listJobs small_kube (namespace_of ?m) (UniqueLabel @ ''='' @ ''a'') ?k = Inr ?k"
    by (simp_all add: small_kube_def)
  ultimately show ?thesis using createJob_unique [OF job_request_facts(1)] by fastforce
qed

theorem cron_namespace_slash_witness:
  "cron_template small_kube ''default'' ''jobs/nightly'' [] = Inl (PanicErr ''not found'')"
  using cron_namespace_slash [of "''nightly''" small_kube "''default''" "''jobs''" "[]"] by (simp add: small_kube_def)

end
