(* ===== verification/Web.thy ===== *)
theory Web
  imports Webhook Handlers
begin

text \<open>
  The driver for outgoing web requests, \<open>drivers/cmd/web/main.go\<close> and \<open>token.go\<close>.

  The network is a parameter: \<open>wb_send\<close> is \<open>client.Do\<close> on some state of the outside. \<open>wb_newRequest\<close> is the URL
  parsing of \<open>http.NewRequest\<close>; the RSA keys and the signing of JSON web tokens are given too. Times are
  nanoseconds. What the driver keeps in the options of a token source (\<open>_saved\<close>, \<open>_expiresAt\<close>, \<open>_parsed_key\<close>)
  is a record per source beside the options; the configuration itself has no such entries.
\<close>

section \<open>The network\<close>

record url =
  url_base :: string
  url_query :: string

record web_call =
  wc_method :: string
  wc_url :: url
  wc_header :: headers
  wc_body :: "string option"

record web_response =
  wp_status :: int
  wp_header :: headers
  wp_cookies :: "(string \<times> string) list"
  wp_body :: "string res"

record jwt_claims =
  jw_IssuedAt :: int
  jw_ExpiresAt :: int
  jw_Issuer :: string

record 'h web_env =
  wb_ext :: ext
  wb_newRequest :: "string \<Rightarrow> string \<Rightarrow> url res"
  wb_send :: "web_call \<Rightarrow> 'h \<Rightarrow> 'h \<times> web_response res"
  wb_parseKey :: "string \<Rightarrow> string res"
  wb_sign :: "string \<Rightarrow> jwt_claims \<Rightarrow> string res"

record token_cache =
  tk_saved :: "(string \<times> int) option"
  tk_key :: "string option"

record 'h web =
  wb_tokens :: "(string, token_cache) gomap"
  wb_net :: 'h

definition cache_of :: "'h web \<Rightarrow> string \<Rightarrow> token_cache" where
  "cache_of st source = (case map_of (wb_tokens st) source of None \<Rightarrow> \<lparr>tk_saved = None, tk_key = None\<rparr> | Some c \<Rightarrow> c)"

section \<open>Headers and forms\<close>

text \<open>A header name with a byte that is not allowed in one is left as it is.\<close>

definition token_byte :: "char \<Rightarrow> bool" where
  "token_byte c \<longleftrightarrow> (let n = of_char c :: nat in 48 \<le> n \<and> n \<le> 57 \<or> 65 \<le> n \<and> n \<le> 90 \<or> 97 \<le> n \<and> n \<le> 122) \<or> c \<in> set ''!#$%&*+-.^_`|~'' \<or> c = CHR 0x27"

definition header_Set :: "string \<Rightarrow> string \<Rightarrow> headers \<Rightarrow> headers" where
  "header_Set key v = mput (if list_all token_byte key then canonical_key True key else key) [v]"

definition values_of :: "headers \<Rightarrow> string \<Rightarrow> string list" where
  "values_of m k = (case map_of m k of None \<Rightarrow> [] | Some vs \<Rightarrow> vs)"

definition form_Add :: "string \<Rightarrow> string \<Rightarrow> headers \<Rightarrow> headers" where
  "form_Add k v m = mput k (values_of m k @ [v]) m"

definition unreserved :: "char \<Rightarrow> bool" where
  "unreserved c \<longleftrightarrow> (let n = of_char c :: nat in 48 \<le> n \<and> n \<le> 57 \<or> 65 \<le> n \<and> n \<le> 90 \<or> 97 \<le> n \<and> n \<le> 122) \<or> c \<in> set ''-_.~''"

definition hex_digit :: "nat \<Rightarrow> char" where
  "hex_digit n = char_of (if n < 10 then 48 + n else 55 + n)"

definition escape_char :: "char \<Rightarrow> string" where
  "escape_char c = (if unreserved c then [c] else if c = CHR '' '' then ''+''
     else [CHR ''%'', hex_digit (of_char c div 16), hex_digit (of_char c mod 16)])"

definition QueryEscape :: "string \<Rightarrow> string" where
  "QueryEscape s = concat (map escape_char s)"

definition form_Encode :: "headers \<Rightarrow> string" where
  "form_Encode form = join_on CHR ''&'' (concat (map (\<lambda>k. map (\<lambda>v. QueryEscape k @ CHR ''='' # QueryEscape v) (values_of form k)) (sort (map fst form))))"

section \<open>Requests\<close>

text \<open>A form value that is neither a string nor a list is left out.\<close>

definition add_field :: "string \<times> gval \<Rightarrow> headers \<Rightarrow> headers res" where
  "add_field kv form = (case snd kv of
      GStr s \<Rightarrow> Inr (form_Add (fst kv) s form)
    | GList xs \<Rightarrow> rmap (\<lambda>ss. fold (form_Add (fst kv)) ss form) (rmapM (\<lambda>x. assert_type (as_str x)) xs)
    | _ \<Rightarrow> Inr form)"

fun add_fields :: "gmap \<Rightarrow> headers \<Rightarrow> headers res" where
  "add_fields [] form = Inr form"
| "add_fields (kv # kvs) form = rbind (add_field kv form) (add_fields kvs)"

fun set_headers :: "gmap \<Rightarrow> headers \<Rightarrow> headers res" where
  "set_headers [] h = Inr h"
| "set_headers ((k, v) # kvs) h = rbind (assert_type (as_str v)) (\<lambda>s. set_headers kvs (header_Set k s h))"

fun post_fields :: "gmap \<Rightarrow> headers \<Rightarrow> headers res" where
  "post_fields [] form = Inr form"
| "post_fields ((k, v) # kvs) form = rbind (assert_type (as_str v)) (\<lambda>s. post_fields kvs (form_Add k s form))"

definition needs_json :: "headers \<Rightarrow> bool" where
  "needs_json header \<longleftrightarrow> has_prefix (header_Get header ''content-type'') ''application/json''"

definition prepareRequestBody :: "ext \<Rightarrow> headers \<Rightarrow> headers \<Rightarrow> gval \<Rightarrow> string res" where
  "prepareRequestBody X form header payload = (case GetMapData payload ''content'' of
      Some (GStr s) \<Rightarrow> Inr s
    | Some content \<Rightarrow>
        if needs_json header then ext_json_marshal X content
        else rbind (assert_type (as_map content)) (\<lambda>m. rmap form_Encode (post_fields m []))
    | None \<Rightarrow>
        if needs_json header then ext_json_marshal X (case GetMapData payload ''form'' of None \<Rightarrow> GNil | Some f \<Rightarrow> f)
        else Inr (form_Encode form))"

definition with_query :: "string \<Rightarrow> url \<Rightarrow> url" where
  "with_query q u = u\<lparr>url_query := (if url_query u \<noteq> [] then url_query u @ ''&'' else []) @ q\<rparr>"

definition createRequest :: "'h web_env \<Rightarrow> string \<Rightarrow> string \<Rightarrow> headers \<Rightarrow> headers \<Rightarrow> gval \<Rightarrow> web_call res" where
  "createRequest W meth rurl header form payload =
    (if meth \<in> {''PATCH'', ''POST'', ''PUT''} then
       rbind (prepareRequestBody (wb_ext W) form header payload) (\<lambda>body.
       rmap (\<lambda>u. \<lparr>wc_method = meth, wc_url = u, wc_header = header, wc_body = Some body\<rparr>) (wb_newRequest W meth rurl))
     else
       rmap (\<lambda>u. \<lparr>wc_method = (if meth = [] then ''GET'' else meth), wc_url = with_query (form_Encode form) u, wc_header = header, wc_body = None\<rparr>)
         (wb_newRequest W meth rurl))"

section \<open>Tokens\<close>

definition truncate_second :: "int \<Rightarrow> int" where
  "truncate_second t = t - t mod second"

definition save_key :: "string \<Rightarrow> string \<Rightarrow> 'h web \<Rightarrow> 'h web" where
  "save_key source key st = st\<lparr>wb_tokens := mput source ((cache_of st source)\<lparr>tk_key := Some key\<rparr>) (wb_tokens st)\<rparr>"

definition save_token :: "string \<Rightarrow> string \<Rightarrow> int \<Rightarrow> 'h web \<Rightarrow> 'h web" where
  "save_token source token expiresAt st = st\<lparr>wb_tokens := mput source ((cache_of st source)\<lparr>tk_saved := Some (token, expiresAt)\<rparr>) (wb_tokens st)\<rparr>"

definition jwt_expiry :: "int \<Rightarrow> int" where
  "jwt_expiry now = truncate_second (now + 10 * 60 * second)"

definition getGitHubJWT :: "'h web_env \<Rightarrow> int \<Rightarrow> string \<Rightarrow> gmap \<Rightarrow> 'h web \<Rightarrow> 'h web \<times> (string \<times> int) res" where
  "getGitHubJWT W now source s st = (case assert_type (Option.bind (map_of s ''app_id'') as_str) of
      Inl e \<Rightarrow> (st, Inl e)
    | Inr app_id \<Rightarrow>
        (let claims = \<lparr>jw_IssuedAt = truncate_second (now - 30 * second), jw_ExpiresAt = jwt_expiry now, jw_Issuer = app_id\<rparr> in
         case (case tk_key (cache_of st source) of
            Some key \<Rightarrow> Inr key
          | None \<Rightarrow> rbind (MustGetMapDataStr (GMap s) ''key'') (wb_parseKey W)) of
           Inl e \<Rightarrow> (st, Inl e)
         | Inr key \<Rightarrow> (save_key source key st, rmap (\<lambda>jwt. (jwt, jwt_expiry now)) (wb_sign W key claims))))"

definition globalGitHubURL :: string where "globalGitHubURL = ''https://api.github.com''"

definition token_call :: "'h web_env \<Rightarrow> string \<Rightarrow> gmap \<Rightarrow> web_call res" where
  "token_call W jwt s =
    rbind (MustGetMapData (GMap s) ''permissions'') (\<lambda>p. rbind (assert_type (as_map p)) (\<lambda>permissions.
    rbind (ext_json_marshal (wb_ext W) (GMap [(''permissions'', GMap permissions)])) (\<lambda>content.
    rbind (MustGetMapDataStr (GMap s) ''installation_id'') (\<lambda>instID.
    rbind (case map_of s ''github_url'' of None \<Rightarrow> Inr globalGitHubURL | Some u \<Rightarrow> assert_type (as_str u)) (\<lambda>u.
    rmap (\<lambda>target. \<lparr>wc_method = ''POST'', wc_url = target,
        wc_header = header_Set ''Authorization'' (''Bearer '' @ jwt) (header_Set ''Accept'' ''application/vnd.github+json'' []), wc_body = Some content\<rparr>)
      (wb_newRequest W ''POST'' (u @ ''/app/installations/'' @ instID @ ''/access_tokens'')))))))"

definition granted_token :: "ext \<Rightarrow> web_response \<Rightarrow> string res" where
  "granted_token X resp = rbind (wp_body resp) (\<lambda>body.
     if wp_status resp \<noteq> 201 then Inl (PanicStr ''failed to fetch github access token'')
     else rbind (json_object X body) (\<lambda>obj. MustGetMapDataStr (GMap obj) ''token''))"

definition usable :: "int \<Rightarrow> int \<Rightarrow> bool" where
  "usable now expiresAt \<longleftrightarrow> now + 2 * second < expiresAt"

definition fetch_token :: "'h web_env \<Rightarrow> int \<Rightarrow> string \<Rightarrow> gmap \<Rightarrow> 'h web \<Rightarrow> 'h web \<times> string res" where
  "fetch_token W now source s st = (case getGitHubJWT W now source s st of
      (st1, Inl e) \<Rightarrow> (st1, Inl e)
    | (st1, Inr (jwt, expiresAt)) \<Rightarrow> (case token_call W jwt s of
        Inl e \<Rightarrow> (st1, Inl e)
      | Inr call \<Rightarrow> (case wb_send W call (wb_net st1) of (h, result) \<Rightarrow>
          (case rbind result (granted_token (wb_ext W)) of
             Inl e \<Rightarrow> (st1\<lparr>wb_net := h\<rparr>, Inl e)
           | Inr token \<Rightarrow> (save_token source token expiresAt (st1\<lparr>wb_net := h\<rparr>), Inr token)))))"

definition getGitHubToken :: "'h web_env \<Rightarrow> int \<Rightarrow> string \<Rightarrow> gmap \<Rightarrow> 'h web \<Rightarrow> 'h web \<times> string res" where
  "getGitHubToken W now source s st = (case tk_saved (cache_of st source) of
      Some (token, expiresAt) \<Rightarrow> if usable now expiresAt then (st, Inr token) else fetch_token W now source s st
    | None \<Rightarrow> fetch_token W now source s st)"

definition web_getToken :: "'h web_env \<Rightarrow> gval \<Rightarrow> int \<Rightarrow> string \<Rightarrow> 'h web \<Rightarrow> 'h web \<times> string res" where
  "web_getToken W options now source st =
    (case rbind (MustGetMapData options (''data.token_sources.'' @ source)) (\<lambda>v. rbind (assert_type (as_map v)) (\<lambda>s.
        rmap (Pair s) (assert_type (Option.bind (map_of s ''type'') as_str)))) of
      Inl e \<Rightarrow> (st, Inl e)
    | Inr (s, stype) \<Rightarrow>
        if stype = ''github'' then getGitHubToken W now source s st
        else (st, Inl (PanicStr (''unknown token source type: '' @ stype))))"

section \<open>The command\<close>

definition prepareRequest :: "'h web_env \<Rightarrow> gval \<Rightarrow> int \<Rightarrow> gval \<Rightarrow> 'h web \<Rightarrow> 'h web \<times> web_call res" where
  "prepareRequest W options now payload st =
    (case rbind (case GetMapDataStr payload ''URL'' of None \<Rightarrow> Inl (PanicStr ''URL is required but missing'') | Some u \<Rightarrow> Inr u) (\<lambda>rurl.
       rbind (case GetMapData payload ''form'' of None \<Rightarrow> Inr [] | Some f \<Rightarrow> rbind (assert_type (as_map f)) (\<lambda>m. add_fields m [])) (\<lambda>form.
       rmap (\<lambda>header. (rurl, form, header))
         (case GetMapData payload ''header'' of None \<Rightarrow> Inr [] | Some h \<Rightarrow> rbind (assert_type (as_map h)) (\<lambda>m. set_headers m [])))) of
      Inl e \<Rightarrow> (st, Inl e)
    | Inr (rurl, form, header) \<Rightarrow>
        (let meth = (case GetMapDataStr payload ''method'' of None \<Rightarrow> ''GET'' | Some m \<Rightarrow> m) in
         case GetMapDataStr payload ''tokenSource'' of
           Some (c # cs) \<Rightarrow> (case web_getToken W options now (c # cs) st of
               (st1, Inl e) \<Rightarrow> (st1, Inl e)
             | (st1, Inr token) \<Rightarrow> (st1, createRequest W meth rurl (header_Set ''Authorization'' (''Bearer '' @ token) header) form payload))
         | _ \<Rightarrow> (st, createRequest W meth rurl header form payload)))"

definition extractHTTPResponseData :: "ext \<Rightarrow> web_response \<Rightarrow> gmap res" where
  "extractHTTPResponseData X r = rbind (case wp_body r of Inl e \<Rightarrow> Inl (PanicStr ''unable to read resp body'') | Inr b \<Rightarrow> Inr b) (\<lambda>body.
     let respData = [(''status_code'', GStr (itoa (wp_status r))), (''cookies'', GMap (fold (\<lambda>(n, v). mput n (GStr v)) (wp_cookies r) [])),
           (''headers'', headers_val (wp_header r)), (''body'', GStr body)];
         contentType = header_Get (wp_header r) ''Content-type'' in
     if contains contentType ''json'' then (case ext_json_unmarshal X body of
         Inl e \<Rightarrow> Inl (PanicStr ''invalid json in response body'')
       | Inr v \<Rightarrow> Inr (mput ''json'' v respData))
     else Inr respData)"

definition web_reply :: "gmap \<Rightarrow> Message res" where
  "web_reply response = rmap (\<lambda>s. let statusCode = fst (atoi_val s) in
      zero_message\<lparr>Payload := PVal (GMap response),
        Labels := (if statusCode \<ge> 400 then Some [(''error'', ''Error: got status code: '' @ itoa statusCode)] else Labels zero_message)\<rparr>)
    (assert_type (Option.bind (map_of response ''status_code'') as_str))"

definition sendRequest :: "'h web_env \<Rightarrow> gval \<Rightarrow> int \<Rightarrow> Message \<Rightarrow> 'h web \<Rightarrow> 'h web handled" where
  "sendRequest W options now msg st = with_value st (DeserializePayload (wb_ext W) msg) (\<lambda>m.
    case prepareRequest W options now (payload_val m) st of
      (st1, Inl e) \<Rightarrow> failed st1 e
    | (st1, Inr call) \<Rightarrow> (case wb_send W call (wb_net st1) of (h, result) \<Rightarrow>
        with_value (st1\<lparr>wb_net := h\<rparr>) (rbind result (\<lambda>resp. rbind (extractHTTPResponseData (wb_ext W) resp) web_reply))
          (answer_with (st1\<lparr>wb_net := h\<rparr>))))"

section \<open>The form arrives\<close>

text \<open>How a server reads a query, as \<open>url.ParseQuery\<close> does: segments that are malformed are left out.\<close>

fun QueryUnescape :: "string \<Rightarrow> string option" where
  "QueryUnescape [] = Some []"
| "QueryUnescape (c # s) =
     (if c = CHR ''%'' then (case s of
          a # b # s' \<Rightarrow> (case (hex_value a, hex_value b) of
              (Some x, Some y) \<Rightarrow> map_option ((#) (char_of (16 * x + y))) (QueryUnescape s')
            | _ \<Rightarrow> None)
        | _ \<Rightarrow> None)
      else map_option ((#) (if c = CHR ''+'' then CHR '' '' else c)) (QueryUnescape s))"

definition read_segment :: "string \<Rightarrow> (string \<times> string) option" where
  "read_segment seg = (if seg = [] \<or> CHR '';'' \<in> set seg then None else
     case (QueryUnescape (takeWhile (\<lambda>c. c \<noteq> CHR ''='') seg), QueryUnescape (tl (dropWhile (\<lambda>c. c \<noteq> CHR ''='') seg))) of
       (Some k, Some v) \<Rightarrow> Some (k, v) | _ \<Rightarrow> None)"

definition read_query :: "string \<Rightarrow> headers" where
  "read_query q = fold (\<lambda>(k, v). form_Add k v) (List.map_filter read_segment (split_on CHR ''&'' q)) []"

lemma hex_digit_facts:
  assumes "n < 16"
  shows "hex_value (hex_digit n) = Some n" "unreserved (hex_digit n)"
proof -
  have n: "of_char (hex_digit n) = (if n < 10 then 48 + n else 55 + n)" using assms by (simp add: hex_digit_def)
  show "hex_value (hex_digit n) = Some n" unfolding hex_value_def Let_def n using assms by auto
  show "unreserved (hex_digit n)" unfolding unreserved_def Let_def n using assms by auto
qed

lemma char_nibbles: "(of_char c :: nat) div 16 < 16" "char_of (16 * (of_char c div 16) + of_char c mod 16 :: nat) = c"
proof -
  have "(of_char c :: nat) < 256" by simp
  then show "(of_char c :: nat) div 16 < 16" by linarith
  show "char_of (16 * (of_char c div 16) + of_char c mod 16 :: nat) = c" by (simp add: mult_div_mod_eq)
qed

lemma unreserved_plain: "unreserved c \<Longrightarrow> c \<noteq> CHR ''%'' \<and> c \<noteq> CHR ''+'' \<and> c \<noteq> CHR ''='' \<and> c \<noteq> CHR ''&'' \<and> c \<noteq> CHR '';''"
  by (auto simp: unreserved_def Let_def)

lemma QueryUnescape_escape_char: "QueryUnescape (escape_char c @ s) = map_option ((#) c) (QueryUnescape s)"
  using unreserved_plain [of c] char_nibbles [of c] by (auto simp: escape_char_def hex_digit_facts)

lemma QueryUnescape_QueryEscape [simp]: "QueryUnescape (QueryEscape s) = Some s"
  by (induction s) (simp_all add: QueryEscape_def QueryUnescape_escape_char)

lemma QueryEscape_chars: "c \<in> set (QueryEscape s) \<Longrightarrow> c \<noteq> CHR ''='' \<and> c \<noteq> CHR ''&'' \<and> c \<noteq> CHR '';''"
proof (induction s)
  case (Cons a s)
  have "c \<noteq> CHR ''='' \<and> c \<noteq> CHR ''&'' \<and> c \<noteq> CHR '';''" if "c \<in> set (escape_char a)"
    using that unreserved_plain [of c] hex_digit_facts(2) [of "of_char a div 16"] hex_digit_facts(2) [of "of_char a mod 16"] char_nibbles(1) [of a]
    by (auto simp: escape_char_def split: if_splits)
  with Cons show ?case by (auto simp: QueryEscape_def)
qed (simp add: QueryEscape_def)

definition field_text :: "string \<Rightarrow> string \<Rightarrow> string" where
  "field_text k v = QueryEscape k @ CHR ''='' # QueryEscape v"

lemma read_segment_field [simp]: "read_segment (field_text k v) = Some (k, v)"
proof -
  have "\<forall>c \<in> set (QueryEscape k). c \<noteq> CHR ''=''" "CHR '';'' \<notin> set (QueryEscape k)" "CHR '';'' \<notin> set (QueryEscape v)"
    using QueryEscape_chars by blast+
  then show ?thesis by (simp add: read_segment_def field_text_def takeWhile_append2 dropWhile_append2)
qed

lemma values_of_Add [simp]: "values_of (form_Add k v m) k' = (if k' = k then values_of m k @ [v] else values_of m k')"
  by (simp add: form_Add_def values_of_def)

lemma values_of_fold: "values_of (fold (\<lambda>(k, v). form_Add k v) kvs m) k = values_of m k @ map snd (filter (\<lambda>kv. fst kv = k) kvs)"
  by (induction kvs arbitrary: m) auto

definition read_values :: "string \<Rightarrow> string \<Rightarrow> string list" where
  "read_values q k = map snd (filter (\<lambda>kv. fst kv = k) (List.map_filter read_segment (split_on CHR ''&'' q)))"

lemma values_of_read_query: "values_of (read_query q) k = read_values q k"
  by (simp add: read_query_def read_values_def values_of_fold) (simp add: values_of_def)

lemma read_values_empty [simp]: "read_values [] k = []"
  by (simp add: read_values_def map_filter_simps read_segment_def)

lemma read_values_append: "read_values (p @ CHR ''&'' # q) k = read_values p k @ read_values q k"
  by (simp add: read_values_def split_on_append List.map_filter_def)

definition query_fields :: "headers \<Rightarrow> (string \<times> string) list" where
  "query_fields form = concat (map (\<lambda>k. map (Pair k) (values_of form k)) (sort (map fst form)))"

lemma form_Encode_fields: "form_Encode form = join_on CHR ''&'' (map (\<lambda>(k, v). field_text k v) (query_fields form))"
  by (simp add: form_Encode_def query_fields_def field_text_def map_concat comp_def)

lemma read_values_fields: "read_values (join_on CHR ''&'' (map (\<lambda>(k, v). field_text k v) kvs)) k = map snd (filter (\<lambda>kv. fst kv = k) kvs)"
proof (cases "kvs = []")
  case False
  have "CHR ''&'' \<notin> set (field_text a b)" for a b using QueryEscape_chars [of "CHR ''&''"] by (auto simp: field_text_def)
  then have "split_on CHR ''&'' (join_on CHR ''&'' (map (\<lambda>(k, v). field_text k v) kvs)) = map (\<lambda>(k, v). field_text k v) kvs"
    using False by (intro split_join) auto
  moreover have "List.map_filter read_segment (map (\<lambda>(k, v). field_text k v) kvs) = kvs"
    by (induction kvs) (auto simp: map_filter_simps)
  ultimately show ?thesis by (simp add: read_values_def)
qed simp

lemma concat_one: "distinct xs \<Longrightarrow> concat (map (\<lambda>x. if x = k then f x else []) xs) = (if k \<in> set xs then f k else [])"
  by (induction xs) auto

lemma read_values_Encode: "wfmap form \<Longrightarrow> read_values (form_Encode form) k = values_of form k"
proof -
  assume "wfmap form"
  then have dist: "distinct (sort (map fst form))" by (simp add: wfmap_def)
  have "map snd (filter (\<lambda>kv. fst kv = k) (query_fields form)) = concat (map (\<lambda>x. if x = k then values_of form x else []) (sort (map fst form)))"
    by (simp add: query_fields_def filter_concat map_concat comp_def filter_map) (intro arg_cong [of _ _ concat] map_cong; simp)
  also have "\<dots> = values_of form k"
    unfolding concat_one [OF dist] by (cases "map_of form k") (auto simp: values_of_def dest: map_of_SomeD intro: rev_image_eqI)
  finally show ?thesis by (simp add: form_Encode_fields read_values_fields)
qed

text \<open>
  A form arrives as it was given. The server that decodes the query of a request finds, under every
  name, the values in the URL followed by those of the form; and the body of a posted form decodes to the
  form, whatever bytes its names and values have.
\<close>

theorem form_arrives:
  assumes "createRequest W meth rurl header form payload = Inr call" and "wfmap form"
    and "meth \<in> {''PATCH'', ''POST'', ''PUT''} \<longrightarrow> GetMapData payload ''content'' = None \<and> \<not> needs_json header"
  shows "\<exists>u. wb_newRequest W meth rurl = Inr u \<and>
    (\<forall>k. values_of (read_query (url_query (wc_url call))) k @ (case wc_body call of None \<Rightarrow> [] | Some b \<Rightarrow> values_of (read_query b) k)
       = values_of (read_query (url_query u)) k @ values_of form k)"
proof (cases "meth \<in> {''PATCH'', ''POST'', ''PUT''}")
  case True
  with assms obtain u where "wb_newRequest W meth rurl = Inr u" "call = \<lparr>wc_method = meth, wc_url = u, wc_header = header, wc_body = Some (form_Encode form)\<rparr>"
    by (auto simp: createRequest_def prepareRequestBody_def rmap_def rbind_Inr_conv)
  with assms(2) show ?thesis by (simp add: values_of_read_query read_values_Encode)
next
  case False
  with assms(1) obtain u where u: "wb_newRequest W meth rurl = Inr u" "url_query (wc_url call) = url_query (with_query (form_Encode form) u)" "wc_body call = None"
    unfolding createRequest_def by (auto simp: rmap_def rbind_Inr_conv)
  have "read_values (url_query (with_query (form_Encode form) u)) k = read_values (url_query u) k @ values_of form k" for k
    using assms(2) by (simp add: with_query_def read_values_append read_values_Encode)
  with u show ?thesis by (simp add: values_of_read_query)
qed

section \<open>Tokens are fresh\<close>

text \<open>The state after a run of requests for tokens, and what it means that a request brought a token:
  one call went out over the network as it was then, GitHub granted the token with status 201, and the network
  is as after this one call.\<close>

definition token_run :: "'h web_env \<Rightarrow> gval \<Rightarrow> (int \<times> string) list \<Rightarrow> 'h web \<Rightarrow> 'h web" where
  "token_run W options calls st = fold (\<lambda>(now, source) st. fst (web_getToken W options now source st)) calls st"

definition token_granted :: "'h web_env \<Rightarrow> gval \<Rightarrow> int \<Rightarrow> string \<Rightarrow> 'h web \<Rightarrow> string \<Rightarrow> bool" where
  "token_granted W options now source st t \<longleftrightarrow> (\<exists>call resp.
     wb_send W call (wb_net st) = (wb_net (fst (web_getToken W options now source st)), Inr resp) \<and>
     wp_status resp = 201 \<and> granted_token (wb_ext W) resp = Inr t \<and> snd (web_getToken W options now source st) = Inr t)"

lemma cache_of_save [simp]:
  "cache_of (save_key source key st) s' = (if s' = source then (cache_of st source)\<lparr>tk_key := Some key\<rparr> else cache_of st s')"
  "cache_of (save_token source t e st) s' = (if s' = source then (cache_of st source)\<lparr>tk_saved := Some (t, e)\<rparr> else cache_of st s')"
  "cache_of (st\<lparr>wb_net := h\<rparr>) s' = cache_of st s'"
  by (simp_all add: cache_of_def save_key_def save_token_def)

lemma getGitHubJWT_saved:
  assumes "getGitHubJWT W now source s st = (st1, r)"
  shows "tk_saved (cache_of st1 s') = tk_saved (cache_of st s')" and "r = Inr (jwt, e) \<Longrightarrow> e = jwt_expiry now"
  using assms by (auto simp: getGitHubJWT_def Let_def rmap_def rbind_Inr_conv split: sum.splits option.splits if_splits)

lemma fetch_token_saved:
  assumes "fetch_token W now source s st = (st', r)"
  shows "tk_saved (cache_of st' s') = (case r of Inr t \<Rightarrow> if s' = source then Some (t, jwt_expiry now) else tk_saved (cache_of st s') | Inl _ \<Rightarrow> tk_saved (cache_of st s'))"
proof -
  obtain st1 j where j: "getGitHubJWT W now source s st = (st1, j)" by (cases "getGitHubJWT W now source s st")
  note keeps = getGitHubJWT_saved(1) [OF j] getGitHubJWT_saved(2) [OF j]
  from assms j keeps show ?thesis
    by (auto simp: fetch_token_def split: sum.splits prod.splits)
qed

lemma jwt_expiry_bound: "jwt_expiry now \<le> now + 10 * 60 * second"
  by (simp add: jwt_expiry_def truncate_second_def second_def)

lemma web_getToken_cases:
  assumes "web_getToken W options now source st = (st', r)"
  obtains (failed) e where "st' = st" "r = Inl e"
    | (reused) t e where "st' = st" "r = Inr t" "tk_saved (cache_of st source) = Some (t, e)" "usable now e"
    | (fetched) s where "fetch_token W now source s st = (st', r)"
  using assms by (auto simp: web_getToken_def getGitHubToken_def split: sum.splits option.splits prod.splits if_splits)

lemma fetch_token_granted:
  assumes "web_getToken W options now source st = (st', Inr t)" and "fetch_token W now source s st = (st', Inr t)"
  shows "token_granted W options now source st t"
proof -
  obtain st1 jwt e call where j: "getGitHubJWT W now source s st = (st1, Inr (jwt, e))" "token_call W jwt s = Inr call"
    using assms(2) by (auto simp: fetch_token_def split: sum.splits prod.splits)
  then have net: "wb_net st1 = wb_net st"
    by (auto simp: getGitHubJWT_def save_key_def Let_def split: sum.splits option.splits if_splits)
  obtain h res where sent: "wb_send W call (wb_net st) = (h, res)" by (cases "wb_send W call (wb_net st)")
  with assms(2) j net have *: "rbind res (granted_token (wb_ext W)) = Inr t" "wb_net st' = h"
    by (auto simp: fetch_token_def save_token_def split: sum.splits)
  then obtain resp where resp: "res = Inr resp" "granted_token (wb_ext W) resp = Inr t" by (auto simp: rbind_Inr_conv)
  then have "wp_status resp = 201" by (auto simp: granted_token_def rbind_Inr_conv split: if_splits)
  with sent resp * assms(1) show ?thesis unfolding token_granted_def by (intro exI [of _ call] exI [of _ resp]) simp
qed

lemma token_run_snoc [simp]: "token_run W options (calls @ [(now, source)]) st = fst (web_getToken W options now source (token_run W options calls st))"
  by (simp add: token_run_def)

lemma saved_was_granted:
  assumes "wb_tokens st = []" and "i \<le> length calls"
    and "tk_saved (cache_of (token_run W options (take i calls) st) source) = Some (t, e)"
  shows "\<exists>j now0. j < i \<and> calls ! j = (now0, source) \<and> token_granted W options now0 source (token_run W options (take j calls) st) t \<and> e = jwt_expiry now0"
  using assms(2,3)
proof (induction i)
  case 0
  with assms(1) show ?case by (simp add: token_run_def cache_of_def)
next
  case (Suc i)
  let ?st = "token_run W options (take i calls) st"
  obtain now1 source1 where call: "calls ! i = (now1, source1)" by (cases "calls ! i")
  obtain st1 r where run: "web_getToken W options now1 source1 ?st = (st1, r)" by (cases "web_getToken W options now1 source1 ?st")
  have after: "token_run W options (take (Suc i) calls) st = st1" using Suc.prems(1) call run by (simp add: take_Suc_conv_app_nth)
  consider (kept) "tk_saved (cache_of ?st source) = Some (t, e)"
    | (new) s where "source1 = source" "r = Inr t" "fetch_token W now1 source1 s ?st = (st1, r)" "e = jwt_expiry now1"
  proof (cases rule: web_getToken_cases [OF run])
    case (3 s)
    with fetch_token_saved [OF 3, of source] Suc.prems(2) after that show thesis by (auto split: sum.splits if_splits)
  qed (use Suc.prems(2) after that in auto)
  then show ?case
  proof cases
    case kept
    with Suc.IH Suc.prems(1) show ?thesis using less_Suc_eq by auto
  next
    case new
    with run fetch_token_granted [of W options now1 source1 ?st st1 t s] call show ?thesis by (intro exI [of _ i] exI [of _ now1]) simp
  qed
qed

text \<open>
  C38: whatever requests for tokens are made, at whatever times and for whatever sources, starting with
  nothing saved: a token that a request returns either was granted by GitHub in answer to a call that this very
  request sent, or was granted in answer to the call that an earlier request for the same source sent less than
  ten minutes minus two seconds before, and then nothing at all is sent or changed.
\<close>

theorem token_never_stale:
  assumes "wb_tokens st = []" and "i < length calls" and "calls ! i = (now, source)"
    and "web_getToken W options now source (token_run W options (take i calls) st) = (st', Inr t)"
  shows "token_granted W options now source (token_run W options (take i calls) st) t \<or>
    st' = token_run W options (take i calls) st \<and>
    (\<exists>j now0. j < i \<and> calls ! j = (now0, source) \<and> now - now0 < (10 * 60 - 2) * second \<and>
       token_granted W options now0 source (token_run W options (take j calls) st) t)"
proof (cases rule: web_getToken_cases [OF assms(4)])
  case (2 t' e)
  with saved_was_granted [OF assms(1), of i calls W options source t e] assms(2) obtain j now0 where
    "j < i" "calls ! j = (now0, source)" "token_granted W options now0 source (token_run W options (take j calls) st) t" "usable now (jwt_expiry now0)" by auto
  with 2 jwt_expiry_bound [of now0] show ?thesis
    by (intro disjI2 conjI exI [of _ j] exI [of _ now0]) (auto simp: usable_def second_def)
next
  case (3 s)
  then show ?thesis by (rule disjI1 [OF fetch_token_granted [OF assms(4)]])
qed (use assms(4) in auto)

section \<open>The reply\<close>

text \<open>
  The reply to a request says what the server said: it has the status and the body, and it is an
  error exactly for the status codes from 400 on.
\<close>

theorem reply_reports_status:
  assumes "answered (sendRequest W options now msg st) reply"
  shows "\<exists>m st1 call h resp body. DeserializePayload (wb_ext W) msg = Inr m \<and> prepareRequest W options now (payload_val m) st = (st1, Inr call) \<and>
    wb_send W call (wb_net st1) = (h, Inr resp) \<and> wb_net (fst (sendRequest W options now msg st)) = h \<and>
    GetMapDataStr (payload_val reply) ''status_code'' = Some (itoa (wp_status resp)) \<and>
    wp_body resp = Inr body \<and> GetMapDataStr (payload_val reply) ''body'' = Some body \<and>
    (in_int64 (wp_status resp) \<longrightarrow> (label reply ''error'' \<noteq> None \<longleftrightarrow> wp_status resp \<ge> 400))"
proof -
  obtain m where m: "DeserializePayload (wb_ext W) msg = Inr m"
    using assms by (cases "DeserializePayload (wb_ext W) msg") (simp_all add: sendRequest_def)
  obtain st1 c where p: "prepareRequest W options now (payload_val m) st = (st1, c)" by (cases "prepareRequest W options now (payload_val m) st")
  with assms m obtain call where c: "c = Inr call" by (cases c) (simp_all add: sendRequest_def)
  obtain h res where sent: "wb_send W call (wb_net st1) = (h, res)" by (cases "wb_send W call (wb_net st1)")
  have run: "sendRequest W options now msg st =
      with_value (st1\<lparr>wb_net := h\<rparr>) (rbind res (\<lambda>resp. rbind (extractHTTPResponseData (wb_ext W) resp) web_reply)) (answer_with (st1\<lparr>wb_net := h\<rparr>))"
    using m p c sent by (simp add: sendRequest_def)
  then obtain resp data where resp: "res = Inr resp" "extractHTTPResponseData (wb_ext W) resp = Inr data" "web_reply data = Inr reply"
    using assms by (auto simp: with_value_def split: sum.splits simp: rbind_Inr_conv)
  then obtain body where body: "wp_body resp = Inr body" by (auto simp: extractHTTPResponseData_def rbind_Inr_conv split: sum.splits)
  with resp(2) have data: "map_of data ''status_code'' = Some (GStr (itoa (wp_status resp)))" "map_of data ''body'' = Some (GStr body)"
    by (auto simp: extractHTTPResponseData_def Let_def split: sum.splits if_splits)
  with resp(3) have reply: "reply = zero_message\<lparr>Payload := PVal (GMap data), Labels := (if fst (atoi_val (itoa (wp_status resp))) \<ge> 400
      then Some [(''error'', ''Error: got status code: '' @ itoa (fst (atoi_val (itoa (wp_status resp)))))] else Labels zero_message)\<rparr>"
    by (auto simp: web_reply_def Let_def)
  have pv: "payload_val reply = GMap data" unfolding reply by (simp add: payload_val_def)
  have "label reply ''error'' \<noteq> None \<longleftrightarrow> wp_status resp \<ge> 400" if "in_int64 (wp_status resp)"
    using that by (simp add: reply label_def labels_def zero_message_def atoi_val_def atoi_itoa)
  moreover have "GetMapDataStr (payload_val reply) ''status_code'' = Some (itoa (wp_status resp))" "GetMapDataStr (payload_val reply) ''body'' = Some body"
    using data pv by (simp_all add: GetMapDataStr_def GetMapData_def split_on_no_sep)
  moreover have "wb_net (fst (sendRequest W options now msg st)) = h" unfolding run resp(1) rbind_simps resp(2,3) by simp
  ultimately show ?thesis using m p c sent resp(1) body by blast
qed

section \<open>Witnesses\<close>

text \<open>A network that keeps the requests and answers each of them with a token, and one that refuses.\<close>

definition sample_net :: "int \<Rightarrow> web_call list web_env" where
  "sample_net status = \<lparr>wb_ext = no_ext\<lparr>ext_json_unmarshal := (\<lambda>_. Inr (GMap [(''token'', GStr ''t'')]))\<rparr>,
     wb_newRequest = (\<lambda>meth u. Inr \<lparr>url_base = u, url_query = ''x=1''\<rparr>),
     wb_send = (\<lambda>call h. (h @ [call], Inr \<lparr>wp_status = status, wp_header = [], wp_cookies = [], wp_body = Inr ''{}''\<rparr>)),
     wb_parseKey = Inr, wb_sign = (\<lambda>key claims. Inr ''jwt'')\<rparr>"

definition no_tokens :: "web_call list web" where
  "no_tokens = \<lparr>wb_tokens = [], wb_net = []\<rparr>"

definition github_options :: gval where
  "github_options = GMap [(''data'', GMap [(''token_sources'', GMap [(''gh'', GMap [(''type'', GStr ''github''), (''app_id'', GStr ''1''), (''key'', GStr ''k''),
     (''permissions'', GMap []), (''installation_id'', GStr ''7'')])])])]"

definition sample_form :: headers where
  "sample_form = [(''a b'', [''1&2'', ''=''])]"

lemma sample_form_call:
  "createRequest (sample_net 200) ''GET'' ''http://h/'' [] sample_form GNil =
    Inr \<lparr>wc_method = ''GET'', wc_url = with_query (form_Encode sample_form) \<lparr>url_base = ''http://h/'', url_query = ''x=1''\<rparr>, wc_header = [], wc_body = None\<rparr>"
  by (simp add: createRequest_def sample_net_def)

theorem form_arrives_witness:
  "values_of (read_query (url_query (with_query (form_Encode sample_form) \<lparr>url_base = ''http://h/'', url_query = ''x=1''\<rparr>))) ''a b'' = [''1&2'', ''='']"
proof -
  have wf: "wfmap sample_form" by (simp add: sample_form_def wfmap_def)
  have "values_of (read_query ''x=1'') ''a b'' = []" by code_simp
  moreover have "values_of sample_form ''a b'' = [''1&2'', ''='']" by (simp add: sample_form_def values_of_def)
  moreover have "wb_newRequest (sample_net 200) ''GET'' ''http://h/'' = Inr \<lparr>url_base = ''http://h/'', url_query = ''x=1''\<rparr>" by (simp add: sample_net_def)
  ultimately show ?thesis using form_arrives [OF sample_form_call wf] by simp
qed

theorem token_never_stale_witness:
  "\<exists>j now0. j < (1::nat) \<and> [(0, ''gh''), (5 * second, ''gh'')] ! j = (now0, ''gh'') \<and> 5 * second - now0 < (10 * 60 - 2) * second \<and>
    token_granted (sample_net 201) github_options now0 ''gh'' (token_run (sample_net 201) github_options (take j [(0, ''gh''), (5 * second, ''gh'')]) no_tokens) ''t''"
proof -
  let ?calls = "[(0, ''gh''), (5 * second, ''gh'')]"
  let ?st = "token_run (sample_net 201) github_options (take 1 ?calls) no_tokens"
  have empty: "wb_tokens no_tokens = []" by (simp add: no_tokens_def)
  have i: "1 < length ?calls" "?calls ! 1 = (5 * second, ''gh'')" by simp_all
  have "snd (web_getToken (sample_net 201) github_options (5 * second) ''gh'' ?st) = Inr ''t''" by code_simp
  then have again: "web_getToken (sample_net 201) github_options (5 * second) ''gh'' ?st = (fst (web_getToken (sample_net 201) github_options (5 * second) ''gh'' ?st), Inr ''t'')"
    by (metis prod.collapse)
  have sent: "length h' = Suc (length h)" if "wb_send (sample_net 201) call h = (h', r)" for call h h' r
    using that by (auto simp: sample_net_def)
  have "length (wb_net (fst (web_getToken (sample_net 201) github_options (5 * second) ''gh'' ?st))) = length (wb_net ?st)" by code_simp
  then have "\<not> token_granted (sample_net 201) github_options (5 * second) ''gh'' ?st ''t''"
    unfolding token_granted_def by (auto dest!: sent)
  with token_never_stale [OF empty i again] show ?thesis by blast
qed

definition sample_get :: Message where
  "sample_get = zero_message\<lparr>Payload := PVal (GMap [(''URL'', GStr ''http://h/'')])\<rparr>"

theorem reply_reports_status_witness:
  "\<exists>reply. answered (sendRequest (sample_net 404) GNil 0 sample_get no_tokens) reply \<and> label reply ''error'' \<noteq> None"
proof -
  let ?run = "sendRequest (sample_net 404) GNil 0 sample_get no_tokens"
  have "snd ?run = \<lparr>replies = [hd (replies (snd ?run))], panics = None, late = False\<rparr>" by code_simp
  then have reply: "answered ?run (hd (replies (snd ?run)))" by (simp add: answered_def)
  from reply_reports_status [OF reply] obtain call net h resp where "wb_send (sample_net 404) call net = (h, Inr resp)"
    "in_int64 (wp_status resp) \<longrightarrow> (label (hd (replies (snd ?run))) ''error'' \<noteq> None \<longleftrightarrow> wp_status resp \<ge> 400)" by blast
  then have "label (hd (replies (snd ?run))) ''error'' \<noteq> None" by (auto simp: sample_net_def in_int64_def)
  with reply show ?thesis by blast
qed

end
