(* ===== verification/Storage.thy ===== *)
theory Storage
  imports Handlers Condition Config
begin

text \<open>
  The driver for cloud storage, \<open>drivers/cmd/gcloud-storage/main.go\<close>.

  The client library is a parameter: \<open>buckets\<close> holds its operations on some state of the storage. An iterator is
  the list of what it returns, ended by \<open>iterator.Done\<close> or an error. \<open>gs_writeError\<close> is the error of \<open>Write\<close>, and \<open>gs_close\<close> is
  \<open>Close\<close>, which commits what was written and returns an error of its own. The YAML writer and the content sniffing of
  \<open>net/http\<close> are given. Values of requests come from JSON, so that a slice of bytes is not among them.
\<close>

section \<open>Operations\<close>

record object_attrs =
  oa_ContentType :: string
  oa_val :: gval

datatype attrs_result = NoObject gopanic | AttrsError gopanic | Attrs object_attrs

record 'k buckets =
  gs_ext :: ext
  gs_yaml :: "gval \<Rightarrow> string res"
  gs_detect :: "string \<Rightarrow> string"
  gs_newClient :: "string \<Rightarrow> bool"
  gs_listBuckets :: "string \<Rightarrow> 'k \<Rightarrow> string list \<times> gopanic option"
  gs_listObjects :: "string \<Rightarrow> string \<Rightarrow> string \<Rightarrow> 'k \<Rightarrow> (string \<times> string) list \<times> gopanic option"
  gs_read :: "string \<Rightarrow> string \<Rightarrow> 'k \<Rightarrow> string res"
  gs_attrs :: "string \<Rightarrow> string \<Rightarrow> 'k \<Rightarrow> attrs_result"
  gs_writeError :: "string \<Rightarrow> 'k \<Rightarrow> gopanic option"
  gs_close :: "string \<Rightarrow> string \<Rightarrow> string \<Rightarrow> 'k \<Rightarrow> 'k \<times> gopanic option"
  gs_update :: "string \<Rightarrow> string \<Rightarrow> string \<Rightarrow> 'k \<Rightarrow> 'k \<times> gopanic option"

definition ErrCreateClient :: gopanic where "ErrCreateClient = PanicErr ''failed to create gs client''"
definition ErrMissingProject :: gopanic where "ErrMissingProject = PanicErr ''missing project''"
definition ErrMissingBucketSpec :: gopanic where "ErrMissingBucketSpec = PanicErr ''missing bucket spec''"
definition ErrMissingFileSpec :: gopanic where "ErrMissingFileSpec = PanicErr ''missing file spec''"
definition ErrNotMatchingFileType :: gopanic where "ErrNotMatchingFileType = PanicErr ''file content not matching fileType''"

definition string_param :: "gval \<Rightarrow> string \<Rightarrow> string" where
  "string_param params path = (case GetMapDataStr params path of None \<Rightarrow> [] | Some s \<Rightarrow> s)"

definition required_param :: "gopanic \<Rightarrow> gval \<Rightarrow> string \<Rightarrow> string res" where
  "required_param e params path = (case GetMapDataStr params path of None \<Rightarrow> Inl e | Some s \<Rightarrow> Inr s)"

definition storage_getCommonParams :: "gval \<Rightarrow> string" where
  "storage_getCommonParams params = string_param params ''service_account''"

definition getStorageClient :: "'k buckets \<Rightarrow> gval \<Rightarrow> unit res" where
  "getStorageClient G params = (if gs_newClient G (storage_getCommonParams params) then Inr () else Inl ErrCreateClient)"

definition storage_params :: "'k buckets \<Rightarrow> Message \<Rightarrow> gval res" where
  "storage_params G msg = rmap payload_val (DeserializePayload (gs_ext G) msg)"

definition string_list :: "string list \<Rightarrow> gval" where
  "string_list xs = GList (map GStr xs)"

text \<open>A nil slice is the \<open>null\<close> of JSON.\<close>

definition listBucketsHelper :: "string list \<times> gopanic option \<Rightarrow> Message res" where
  "listBucketsHelper it = (case it of
      (_, Some e) \<Rightarrow> Inl e
    | (names, None) \<Rightarrow> Inr (zero_message\<lparr>Payload := PVal (GMap [(''buckets'', if names = [] then GNil else string_list names)])\<rparr>))"

definition listBuckets :: "'k buckets \<Rightarrow> Message \<Rightarrow> 'k \<Rightarrow> 'k handled" where
  "listBuckets G msg k = with_value k
    (rbind (storage_params G msg) (\<lambda>params. rbind (required_param ErrMissingProject params ''project'') (\<lambda>project.
     rbind (getStorageClient G params) (\<lambda>_. listBucketsHelper (gs_listBuckets G project k))))) (answer_with k)"

definition listFilesHelper :: "(string \<times> string) list \<times> gopanic option \<Rightarrow> Message res" where
  "listFilesHelper it = (case it of
      (_, Some e) \<Rightarrow> Inl e
    | (objs, None) \<Rightarrow> Inr (zero_message\<lparr>Payload := PVal (GMap [
        (''files'', string_list (map fst (filter (\<lambda>(name, prefix). prefix = []) objs))),
        (''prefixes'', string_list (map snd (filter (\<lambda>(name, prefix). prefix \<noteq> []) objs)))])\<rparr>))"

definition listFiles :: "'k buckets \<Rightarrow> Message \<Rightarrow> 'k \<Rightarrow> 'k handled" where
  "listFiles G msg k = with_value k
    (rbind (storage_params G msg) (\<lambda>params. rbind (required_param ErrMissingBucketSpec params ''bucket'') (\<lambda>bucket.
     rbind (getStorageClient G params) (\<lambda>_.
     listFilesHelper (gs_listObjects G bucket (string_param params ''prefix'') (string_param params ''delimiter'') k))))) (answer_with k)"

definition file_params :: "gval \<Rightarrow> (string \<times> string) res" where
  "file_params params = rbind (required_param ErrMissingBucketSpec params ''bucket'') (\<lambda>bucket.
     rmap (Pair bucket) (required_param ErrMissingFileSpec params ''fileObject''))"

definition fetchFile :: "'k buckets \<Rightarrow> Message \<Rightarrow> 'k \<Rightarrow> 'k handled" where
  "fetchFile G msg k = with_value k
    (rbind (storage_params G msg) (\<lambda>params. rbind (file_params params) (\<lambda>(bucket, fileObj).
     rbind (getStorageClient G params) (\<lambda>_. rbind (gs_read G bucket fileObj k) (\<lambda>content.
     let fileType = string_param params ''fileType'' in
     if fileType \<noteq> [] \<and> gs_detect G content \<noteq> fileType then Inl ErrNotMatchingFileType
     else Inr (zero_message\<lparr>Payload := PVal (GMap [(''content'', GStr content)])\<rparr>))))))
    (answer_with k)"

definition getAttrs :: "'k buckets \<Rightarrow> Message \<Rightarrow> 'k \<Rightarrow> 'k handled" where
  "getAttrs G msg k = with_value k
    (rbind (storage_params G msg) (\<lambda>params. rbind (file_params params) (\<lambda>(bucket, fileObj).
     rbind (getStorageClient G params) (\<lambda>_. case gs_attrs G bucket fileObj k of
         AttrsError e \<Rightarrow> Inl e
       | NoObject e \<Rightarrow> Inr (zero_message\<lparr>Payload := PVal (GMap [(''attrs'', GNil), (''exists'', GBool False)])\<rparr>)
       | Attrs a \<Rightarrow> Inr (zero_message\<lparr>Payload := PVal (GMap [(''attrs'', oa_val a), (''exists'', GBool True)])\<rparr>)))))
    (answer_with k)"

section \<open>Writing\<close>

text \<open>The bytes that are written, if any, and the type of the file after that.\<close>

definition encode_content :: "'k buckets \<Rightarrow> string \<Rightarrow> gval option \<Rightarrow> string \<times> string option res" where
  "encode_content G fileType content = (case content of
      None \<Rightarrow> (fileType, Inr None)
    | Some (GStr s) \<Rightarrow> (fileType, Inr (Some s))
    | Some v \<Rightarrow>
        if contains fileType ''yaml'' then (fileType, rmap Some (gs_yaml G v))
        else (if fileType = [] then ''application/json'' else fileType, rmap Some (ext_json_marshal (gs_ext G) v)))"

text \<open>\<open>attr\<close> is nil when the object does not exist.\<close>

definition attr_type :: "attrs_result \<Rightarrow> string res" where
  "attr_type a = (case a of Attrs old \<Rightarrow> Inr (oa_ContentType old) | NoObject _ \<Rightarrow> Inl NilDereference | AttrsError e \<Rightarrow> Inl e)"

text \<open>The deferred \<open>Close\<close>, which runs however the handler ends.\<close>

definition closing :: "'k buckets \<Rightarrow> string \<Rightarrow> string \<Rightarrow> string \<Rightarrow> 'k handled \<Rightarrow> 'k handled" where
  "closing G bucket fileObj written h = (fst (gs_close G bucket fileObj written (fst h)), snd h)"

text \<open>What follows the write: the type of the object is set when it differs.\<close>

definition set_type :: "'k buckets \<Rightarrow> string \<Rightarrow> string \<Rightarrow> string \<Rightarrow> attrs_result \<Rightarrow> 'k \<Rightarrow> 'k handled" where
  "set_type G bucket fileObj fileType a k =
    (if fileType = [] then answer_with k zero_message
     else with_value k (attr_type a) (\<lambda>old.
       if fileType \<noteq> old then (case gs_update G bucket fileObj fileType k of
           (k1, Some e) \<Rightarrow> failed k1 e
         | (k1, None) \<Rightarrow> answer_with k1 zero_message)
       else answer_with k zero_message))"

definition write_object :: "'k buckets \<Rightarrow> string \<Rightarrow> string \<Rightarrow> string \<Rightarrow> gval option \<Rightarrow> attrs_result \<Rightarrow> 'k \<Rightarrow> 'k handled" where
  "write_object G bucket fileObj fileType content a k = (case encode_content G fileType content of
      (_, Inl e) \<Rightarrow> closing G bucket fileObj [] (failed k e)
    | (ft, Inr None) \<Rightarrow> closing G bucket fileObj [] (set_type G bucket fileObj ft a k)
    | (ft, Inr (Some bytes)) \<Rightarrow> (case gs_writeError G bytes k of
        Some e \<Rightarrow> closing G bucket fileObj bytes (failed k e)
      | None \<Rightarrow> closing G bucket fileObj bytes (set_type G bucket fileObj ft a k)))"

definition writeFile :: "'k buckets \<Rightarrow> Message \<Rightarrow> 'k \<Rightarrow> 'k handled" where
  "writeFile G msg k = with_value k
    (rbind (storage_params G msg) (\<lambda>params. rbind (file_params params) (\<lambda>(bucket, fileObj).
     rmap (\<lambda>_. (params, bucket, fileObj)) (getStorageClient G params)))) (\<lambda>(params, bucket, fileObj).
    let a = gs_attrs G bucket fileObj k; fileType = string_param params ''fileType'' in
    case a of
      AttrsError e \<Rightarrow> failed k e
    | _ \<Rightarrow> with_value k (if fileType = [] then attr_type a else Inr fileType) (\<lambda>ft.
        write_object G bucket fileObj ft (GetMapData params ''content'') a k))"

section \<open>Properties\<close>

text \<open>
  What the storage promises: after a \<open>Close\<close> without error an object has the bytes that were written and, since the
  writer has no type of its own, the type that is found by sniffing.
\<close>

definition storage_ok :: "'k buckets \<Rightarrow> bool" where
  "storage_ok G \<longleftrightarrow> (\<forall>bucket fileObj bytes k k'. gs_close G bucket fileObj bytes k = (k', None) \<longrightarrow>
     gs_read G bucket fileObj k' = Inr bytes \<and> (\<exists>v. gs_attrs G bucket fileObj k' = Attrs \<lparr>oa_ContentType = gs_detect G bytes, oa_val = v\<rparr>))"

text \<open>A request to write a string to a file.\<close>

definition writes_string :: "'k buckets \<Rightarrow> Message \<Rightarrow> string \<Rightarrow> string \<Rightarrow> string \<Rightarrow> string \<Rightarrow> bool" where
  "writes_string G msg bucket fileObj fileType s \<longleftrightarrow> (\<exists>params. storage_params G msg = Inr params \<and> file_params params = Inr (bucket, fileObj) \<and>
     getStorageClient G params = Inr () \<and> string_param params ''fileType'' = fileType \<and> GetMapData params ''content'' = Some (GStr s))"

lemma write_string_run:
  assumes "writes_string G msg bucket fileObj fileType s" and "gs_attrs G bucket fileObj k = Attrs a" and "gs_writeError G s k = None"
  shows "writeFile G msg k = closing G bucket fileObj s (set_type G bucket fileObj (if fileType = [] then oa_ContentType a else fileType) (Attrs a) k)"
  using assms by (auto simp: writes_string_def writeFile_def write_object_def encode_content_def attr_type_def)

lemma closing_result: "snd (closing G bucket fileObj written h) = snd h" "fst (closing G bucket fileObj written h) = fst (gs_close G bucket fileObj written (fst h))"
  by (simp_all add: closing_def)

lemma set_type_same: "set_type G bucket fileObj (oa_ContentType a) (Attrs a) k = answer_with k zero_message"
  by (simp add: set_type_def attr_type_def)

text \<open>
  What is written to a file that exists is what is read back. If the write is answered and the
  storage accepts the upload, a fetch of the file returns the string, whatever type was asked for.
\<close>

theorem write_then_fetch:
  assumes "storage_ok G" and "writes_string G msg bucket fileObj fileType s" and "gs_attrs G bucket fileObj k = Attrs a"
    and "answered (writeFile G msg k) reply" and "\<forall>k1. snd (gs_close G bucket fileObj s k1) = None"
    and "storage_params G fetch = Inr params" and "file_params params = Inr (bucket, fileObj)" and "getStorageClient G params = Inr ()"
    and "string_param params ''fileType'' = []"
  shows "fetchFile G fetch (fst (writeFile G msg k)) = answer_with (fst (writeFile G msg k)) (zero_message\<lparr>Payload := PVal (GMap [(''content'', GStr s)])\<rparr>)"
proof -
  have "gs_writeError G s k = None"
  proof (rule ccontr)
    assume "gs_writeError G s k \<noteq> None"
    then obtain e where "gs_writeError G s k = Some e" by auto
    then have "writeFile G msg k = closing G bucket fileObj s (failed k e)"
      using assms(2,3) by (auto simp: writes_string_def writeFile_def write_object_def encode_content_def attr_type_def Let_def)
    with assms(4) show False by (simp add: answered_def closing_result failed_def)
  qed
  from write_string_run [OF assms(2,3) this] obtain k1 where "fst (writeFile G msg k) = fst (gs_close G bucket fileObj s k1)"
    by (simp add: closing_result)
  with assms(5) have "gs_close G bucket fileObj s k1 = (fst (writeFile G msg k), None)" by (metis prod.collapse)
  with assms(1) have "gs_read G bucket fileObj (fst (writeFile G msg k)) = Inr s" by (auto simp: storage_ok_def)
  with assms(6-9) show ?thesis by (simp add: fetchFile_def Let_def)
qed

text \<open>
  A file that does not exist cannot be written: the handler reads the type of the attributes it did not
  get and panics, although with a type in the request the upload is committed.
\<close>

theorem new_file_fails:
  assumes "writes_string G msg bucket fileObj fileType s" and "gs_attrs G bucket fileObj k = NoObject e" and "gs_writeError G s k = None"
  shows "snd (writeFile G msg k) = \<lparr>replies = [], panics = Some NilDereference, late = False\<rparr> \<and>
    fst (writeFile G msg k) = (if fileType = [] then k else fst (gs_close G bucket fileObj s k))"
  using assms by (auto simp: writes_string_def writeFile_def write_object_def encode_content_def attr_type_def set_type_def closing_def failed_def)

text \<open>The error of the deferred \<open>Close\<close> is dropped, so an upload that the storage refuses is reported as done.\<close>

theorem refused_upload_reported:
  assumes "writes_string G msg bucket fileObj [] s" and "gs_attrs G bucket fileObj k = Attrs a" and "gs_writeError G s k = None"
    and "gs_close G bucket fileObj s k = (k', Some e)"
  shows "writeFile G msg k = answer_with k' zero_message"
  using write_string_run [OF assms(1-3)] assms(4) by (simp add: set_type_same closing_def answer_with_def)

text \<open>
  The type in the request is set on the object that is replaced: after the \<open>Close\<close>, which comes last, the file has the
  type that sniffing finds.
\<close>

theorem fileType_not_kept:
  assumes "storage_ok G" and "writes_string G msg bucket fileObj fileType s" and "gs_attrs G bucket fileObj k = Attrs a"
    and "gs_writeError G s k = None" and "\<forall>k1. snd (gs_close G bucket fileObj s k1) = None"
  shows "\<exists>v. gs_attrs G bucket fileObj (fst (writeFile G msg k)) = Attrs \<lparr>oa_ContentType = gs_detect G s, oa_val = v\<rparr>"
proof -
  from write_string_run [OF assms(2-4)] obtain k1 where "fst (writeFile G msg k) = fst (gs_close G bucket fileObj s k1)"
    by (simp add: closing_result)
  with assms(5) have "gs_close G bucket fileObj s k1 = (fst (writeFile G msg k), None)" by (metis prod.collapse)
  with assms(1) show ?thesis by (auto simp: storage_ok_def)
qed

section \<open>Witnesses\<close>

text \<open>A storage with one bucket: names with content and type; every text is sniffed as plain text.\<close>

definition memory_storage :: "gopanic option \<Rightarrow> (string, string \<times> string) gomap buckets" where
  "memory_storage fault = \<lparr>gs_ext = no_ext, gs_yaml = (\<lambda>_. Inr []), gs_detect = (\<lambda>_. ''text/plain''), gs_newClient = (\<lambda>_. True),
     gs_listBuckets = (\<lambda>_ k. ([''b''], None)), gs_listObjects = (\<lambda>_ _ _ k. (map (\<lambda>(n, _). (n, [])) k, None)),
     gs_read = (\<lambda>b f k. case map_of k f of None \<Rightarrow> Inl (PanicErr ''no object'') | Some (s, _) \<Rightarrow> Inr s),
     gs_attrs = (\<lambda>b f k. case map_of k f of None \<Rightarrow> NoObject (PanicErr ''no object'') | Some (_, t) \<Rightarrow> Attrs \<lparr>oa_ContentType = t, oa_val = GNil\<rparr>),
     gs_writeError = (\<lambda>_ _. None),
     gs_close = (\<lambda>b f s k. case fault of None \<Rightarrow> (mput f (s, ''text/plain'') k, None) | Some e \<Rightarrow> (k, Some e)),
     gs_update = (\<lambda>b f t k. case map_of k f of None \<Rightarrow> (k, Some (PanicErr ''no object'')) | Some (s, _) \<Rightarrow> (mput f (s, t) k, None))\<rparr>"

lemma memory_storage_ok: "storage_ok (memory_storage None)"
  by (auto simp: storage_ok_def memory_storage_def)

definition file_request :: "gmap \<Rightarrow> Message" where
  "file_request extra = zero_message\<lparr>Payload := PVal (GMap ([(''bucket'', GStr ''b''), (''fileObject'', GStr ''f'')] @ extra))\<rparr>"

lemma file_request_facts:
  "storage_params (memory_storage fault) (file_request extra) = Inr (GMap ([(''bucket'', GStr ''b''), (''fileObject'', GStr ''f'')] @ extra))"
  "file_params (GMap ([(''bucket'', GStr ''b''), (''fileObject'', GStr ''f'')] @ extra)) = Inr (''b'', ''f'')"
  "getStorageClient (memory_storage fault) params = Inr ()"
  by (simp_all add: storage_params_def file_request_def DeserializePayload_def zero_message_def payload_val_def file_params_def required_param_def
      GetMapDataStr_def GetMapData_def split_on_no_sep getStorageClient_def memory_storage_def)

lemma sample_writes:
  "writes_string (memory_storage fault) (file_request [(''content'', GStr ''new'')]) ''b'' ''f'' [] ''new''"
  "writes_string (memory_storage fault) (file_request [(''content'', GStr ''new''), (''fileType'', GStr ''text/csv'')]) ''b'' ''f'' ''text/csv'' ''new''"
  unfolding writes_string_def
  by (rule exI, rule conjI, rule file_request_facts(1), rule conjI, rule file_request_facts(2), rule conjI, rule file_request_facts(3),
      simp add: string_param_def GetMapDataStr_def GetMapData_def split_on_no_sep)+

definition old_files :: "(string, string \<times> string) gomap" where
  "old_files = [(''f'', (''old'', ''text/plain''))]"

lemma memory_facts:
  "gs_attrs (memory_storage fault) ''b'' ''f'' old_files = Attrs \<lparr>oa_ContentType = ''text/plain'', oa_val = GNil\<rparr>"
  "gs_writeError (memory_storage fault) s k = None" "snd (gs_close (memory_storage None) b f s k) = None"
  "gs_attrs (memory_storage fault) ''b'' ''f'' [] = NoObject (PanicErr ''no object'')"
  by (simp_all add: memory_storage_def old_files_def)

theorem write_then_fetch_witness:
  "fetchFile (memory_storage None) (file_request []) (fst (writeFile (memory_storage None) (file_request [(''content'', GStr ''new'')]) old_files)) =
   answer_with (fst (writeFile (memory_storage None) (file_request [(''content'', GStr ''new'')]) old_files)) (zero_message\<lparr>Payload := PVal (GMap [(''content'', GStr ''new'')])\<rparr>)"
proof -
  have "writeFile (memory_storage None) (file_request [(''content'', GStr ''new'')]) old_files =
      closing (memory_storage None) ''b'' ''f'' ''new'' (answer_with old_files zero_message)"
    using write_string_run [OF sample_writes(1) memory_facts(1,2)] by (simp add: set_type_same [of _ _ _ "\<lparr>oa_ContentType = ''text/plain'', oa_val = GNil\<rparr>", simplified])
  then have "answered (writeFile (memory_storage None) (file_request [(''content'', GStr ''new'')]) old_files) zero_message"
    by (simp add: answered_def closing_result answer_with_def)
  from write_then_fetch [OF memory_storage_ok sample_writes(1) memory_facts(1) this _ file_request_facts(1) [of _ "[]"] file_request_facts(2,3)] show ?thesis
    by (simp add: memory_facts string_param_def GetMapDataStr_def GetMapData_def split_on_no_sep)
qed

theorem new_file_fails_witness:
  "snd (writeFile (memory_storage None) (file_request [(''content'', GStr ''new'')]) []) = \<lparr>replies = [], panics = Some NilDereference, late = False\<rparr>"
  using new_file_fails [OF sample_writes(1) memory_facts(4,2)] by simp

theorem refused_upload_reported_witness:
  "writeFile (memory_storage (Some (PanicErr ''quota''))) (file_request [(''content'', GStr ''new'')]) old_files = answer_with old_files zero_message"
  by (rule refused_upload_reported [OF sample_writes(1) memory_facts(1,2)]) (simp add: memory_storage_def)

theorem fileType_not_kept_witness:
  "\<exists>v. gs_attrs (memory_storage None) ''b'' ''f'' (fst (writeFile (memory_storage None) (file_request [(''content'', GStr ''new''), (''fileType'', GStr ''text/csv'')]) old_files))
     = Attrs \<lparr>oa_ContentType = ''text/plain'', oa_val = v\<rparr>"
  using fileType_not_kept [OF memory_storage_ok sample_writes(2) memory_facts(1,2)] by (simp add: memory_facts(3)) (simp add: memory_storage_def)

end
