(* ===== verification/Dataflow.thy ===== *)
theory Dataflow
  imports Handlers Condition Config
begin

text \<open>
  The driver for Google dataflow jobs, \<open>drivers/cmd/gcloud-dataflow/main.go\<close>.

  The service is a parameter: \<open>dataflow\<close> holds the calls of the client on some state of the service, the decoding
  of job specifications by \<open>mapstructure\<close> and the regular expressions. A location is empty when none is given.
  The search through the pages of the job list may not end, and neither may the wait for a job; what
  each turn of the wait sees is an argument.
\<close>

section \<open>Operations\<close>

record df_job =
  dj_Name :: string
  dj_CurrentState :: string
  dj_val :: gval

record 'k dataflow =
  df_ext :: ext
  df_newService :: "string \<Rightarrow> gopanic option"
  df_list :: "string \<Rightarrow> string \<Rightarrow> string \<Rightarrow> 'k \<Rightarrow> (df_job list \<times> string) res"
  df_create :: "string \<Rightarrow> string \<Rightarrow> gval \<Rightarrow> 'k \<Rightarrow> 'k \<times> df_job res"
  df_get :: "string \<Rightarrow> string \<Rightarrow> string \<Rightarrow> 'k \<Rightarrow> df_job res"
  df_update :: "string \<Rightarrow> string \<Rightarrow> string \<Rightarrow> gval \<Rightarrow> 'k \<Rightarrow> 'k \<times> df_job res"
  df_decodeSpec :: "gval \<Rightarrow> (string \<times> gval) res"
  df_decodeJob :: "gval \<Rightarrow> gval res"

definition df_ErrMissingProject :: gopanic where "df_ErrMissingProject = PanicErr ''project required''"
definition ErrMissingJobSpec :: gopanic where "ErrMissingJobSpec = PanicErr ''job spec required''"
definition ErrMissingJobID :: gopanic where "ErrMissingJobID = PanicErr ''jobid required''"
definition ErrMissingName :: gopanic where "ErrMissingName = PanicErr ''name required''"
definition ErrJobNotFound :: gopanic where "ErrJobNotFound = PanicErr ''job not found''"

definition getDataflowService :: "'k dataflow \<Rightarrow> string \<Rightarrow> unit res" where
  "getDataflowService D account = (case df_newService D account of Some e \<Rightarrow> Inl e | None \<Rightarrow> Inr ())"

text \<open>A zone is cut to its region.\<close>

definition region_of :: "string \<Rightarrow> string res" where
  "region_of location = (if length location < 2 then Inl IndexOutOfRange
     else let suffix = drop (length location - 2) location in
       Inr (if ''-a'' \<le> suffix \<and> suffix \<le> ''-z'' then take (length location - 2) location else location))"

definition df_getCommonParams :: "gval \<Rightarrow> (string \<times> string \<times> string) res" where
  "df_getCommonParams params = (case GetMapDataStr params ''project'' of
      None \<Rightarrow> Inl df_ErrMissingProject
    | Some project \<Rightarrow>
        rmap (\<lambda>location. (case GetMapDataStr params ''service_account'' of None \<Rightarrow> [] | Some s \<Rightarrow> s, project, location))
          (case GetMapDataStr params ''location'' of None \<Rightarrow> Inr [] | Some location \<Rightarrow> region_of location))"

definition df_params :: "'k dataflow \<Rightarrow> Message \<Rightarrow> (gval \<times> string \<times> string \<times> string) res" where
  "df_params D msg = rbind (DeserializePayload (df_ext D) msg) (\<lambda>m. rmap (Pair (payload_val m)) (df_getCommonParams (payload_val m)))"

text \<open>The pages of the list of active jobs, from the one with the given token on.\<close>

partial_function (option) find_page :: "'k dataflow \<Rightarrow> string \<Rightarrow> string \<Rightarrow> string \<Rightarrow> 'k \<Rightarrow> string \<Rightarrow> df_job option res option" where
  "find_page D project location pattern k token = (case df_list D project location token k of
      Inl e \<Rightarrow> Some (Inl e)
    | Inr (jobs, nextToken) \<Rightarrow> (case find (\<lambda>j. ext_re_match (df_ext D) pattern (dj_Name j)) jobs of
        Some j \<Rightarrow> Some (Inr (Some j))
      | None \<Rightarrow> if nextToken \<noteq> [] then find_page D project location pattern k nextToken else Some (Inr None)))"

definition df_getExistingJob :: "'k dataflow \<Rightarrow> string \<Rightarrow> string \<Rightarrow> string \<Rightarrow> 'k \<Rightarrow> df_job option res option" where
  "df_getExistingJob D project location jobName k =
    (if ext_re_valid (df_ext D) jobName then find_page D project location jobName k []
     else Some (Inl (PanicStr (''regexp: Compile '' @ jobName))))"

definition job_message :: "df_job \<Rightarrow> Message" where
  "job_message j = zero_message\<lparr>Payload := PVal (GMap [(''job'', dj_val j)])\<rparr>"

definition exact_name :: "string \<Rightarrow> string" where
  "exact_name name = ''^'' @ name @ ''$''"

definition create_request :: "'k dataflow \<Rightarrow> Message \<Rightarrow> (string \<times> string \<times> string \<times> gval) res" where
  "create_request D msg = rbind (df_params D msg) (\<lambda>(params, account, project, location).
     case GetMapData params ''job'' of
       None \<Rightarrow> Inl ErrMissingJobSpec
     | Some job \<Rightarrow> rbind (df_decodeSpec D job) (\<lambda>(name, spec). rmap (\<lambda>_. (project, location, name, spec)) (getDataflowService D account)))"

definition df_createJob :: "'k dataflow \<Rightarrow> Message \<Rightarrow> 'k \<Rightarrow> 'k handled option" where
  "df_createJob D msg k = (case create_request D msg of
      Inl e \<Rightarrow> Some (failed k e)
    | Inr (project, location, name, spec) \<Rightarrow> map_option (\<lambda>existing. with_value k existing (\<lambda>found. case found of
          Some j \<Rightarrow> answer_with k (job_message j)
        | None \<Rightarrow> (case df_create D project location spec k of (k1, result) \<Rightarrow> with_value k1 result (\<lambda>j. answer_with k1 (job_message j)))))
        (df_getExistingJob D project location (exact_name name) k))"

text \<open>The values of a request come from JSON, so that none of them is a \<open>googleapi.Field\<close>.\<close>

definition field_list :: "gval option \<Rightarrow> unit res" where
  "field_list fl = (case fl of None \<Rightarrow> Inr () | Some (GList []) \<Rightarrow> Inr () | Some _ \<Rightarrow> Inl TypeAssertion)"

definition df_getJob :: "'k dataflow \<Rightarrow> Message \<Rightarrow> 'k \<Rightarrow> 'k handled" where
  "df_getJob D msg k = with_value k
    (rbind (df_params D msg) (\<lambda>(params, account, project, location).
     rbind (case GetMapDataStr params ''jobID'' of None \<Rightarrow> Inl ErrMissingJobID | Some i \<Rightarrow> Inr i) (\<lambda>jobID.
     rbind (field_list (GetMapData params ''fields'')) (\<lambda>_. rbind (getDataflowService D account) (\<lambda>_.
     df_get D project location jobID k))))) (\<lambda>j. answer_with k (job_message j))"

definition findJobByName :: "'k dataflow \<Rightarrow> Message \<Rightarrow> 'k \<Rightarrow> 'k handled option" where
  "findJobByName D msg k =
    (case rbind (df_params D msg) (\<lambda>(params, account, project, location).
        case GetMapDataStr params ''name'' of
          None \<Rightarrow> Inl ErrMissingName
        | Some name \<Rightarrow> rmap (\<lambda>_. (project, location, name)) (getDataflowService D account)) of
      Inl e \<Rightarrow> Some (failed k e)
    | Inr (project, location, name) \<Rightarrow> map_option (\<lambda>existing. with_value k existing (\<lambda>found. case found of
          Some j \<Rightarrow> answer_with k (job_message j) | None \<Rightarrow> failed k ErrJobNotFound))
        (df_getExistingJob D project location name k))"

definition updateJob :: "'k dataflow \<Rightarrow> Message \<Rightarrow> 'k \<Rightarrow> 'k handled" where
  "updateJob D msg k = with_value k
    (rbind (df_params D msg) (\<lambda>(params, account, project, location).
     case GetMapData params ''jobSpec'' of
       None \<Rightarrow> Inl ErrMissingJobSpec
     | Some job \<Rightarrow> rbind (df_decodeJob D job) (\<lambda>spec. rbind (MustGetMapDataStr params ''jobID'') (\<lambda>jobID.
         rmap (\<lambda>_. (project, location, jobID, spec)) (getDataflowService D account))))) (\<lambda>(project, location, jobID, spec).
    case df_update D project location jobID spec k of (k1, result) \<Rightarrow> with_value k1 result (\<lambda>j. answer_with k1 (job_message j)))"

section \<open>Waiting\<close>

definition terminatedStates :: "(string, string) gomap" where
  "terminatedStates = [(''JOB_STATE_DONE'', ''success''), (''JOB_STATE_FAILED'', ''failure''), (''JOB_STATE_CANCELLED'', ''failure''),
     (''JOB_STATE_UPDATED'', ''success''), (''JOB_STATE_DRAINED'', ''success'')]"

datatype poll = PollExpired | PollFailed string | Polled df_job

definition state_message :: "df_job \<Rightarrow> string \<Rightarrow> Message" where
  "state_message j status = (job_message j)\<lparr>Labels := Some [(''status'', status), (''reason'', dj_CurrentState j)]\<rparr>"

fun poll_loop :: "poll list \<Rightarrow> handler_run option" where
  "poll_loop [] = None"
| "poll_loop (PollExpired # ps) = Some \<lparr>replies = [], panics = None, late = False\<rparr>"
| "poll_loop (PollFailed e # ps) =
     Some \<lparr>replies = [zero_message\<lparr>Labels := Some [(''error'', ''failed to call polling method: '' @ e)]\<rparr>], panics = None, late = False\<rparr>"
| "poll_loop (Polled j # ps) = (case map_of terminatedStates (dj_CurrentState j) of
      Some status \<Rightarrow> Some \<lparr>replies = [state_message j status], panics = None, late = False\<rparr>
    | None \<Rightarrow> poll_loop ps)"

record df_wait =
  dw_project :: string
  dw_location :: string
  dw_jobID :: string
  dw_interval :: int
  dw_timeout :: int

definition df_wait_request :: "'k dataflow \<Rightarrow> Message \<Rightarrow> df_wait res" where
  "df_wait_request D msg = rbind (df_params D msg) (\<lambda>(params, account, project, location).
     rbind (case GetMapDataStr params ''jobID'' of None \<Rightarrow> Inl ErrMissingJobID | Some i \<Rightarrow> Inr i) (\<lambda>jobID.
     rmap (\<lambda>_. \<lparr>dw_project = project, dw_location = location, dw_jobID = jobID,
         dw_interval = (case GetMapDataStr params ''interval'' of None \<Rightarrow> 10 | Some s \<Rightarrow> fst (atoi_val s)),
         dw_timeout = (case label msg ''timeout'' of None \<Rightarrow> 1800 | Some s \<Rightarrow> fst (atoi_val s))\<rparr>)
       (getDataflowService D account)))"

definition df_waitForJob :: "'k dataflow \<Rightarrow> (df_wait \<Rightarrow> poll list) \<Rightarrow> Message \<Rightarrow> handler_run option" where
  "df_waitForJob D polls msg = (case df_wait_request D msg of
      Inl e \<Rightarrow> Some \<lparr>replies = [], panics = Some e, late = False\<rparr>
    | Inr w \<Rightarrow> poll_loop (polls w))"

section \<open>Properties\<close>

text \<open>The job list from a token on, when its pages end.\<close>

inductive listing :: "'k dataflow \<Rightarrow> string \<Rightarrow> string \<Rightarrow> 'k \<Rightarrow> string \<Rightarrow> df_job list \<Rightarrow> bool" for D project location k where
  last_page: "df_list D project location token k = Inr (jobs, []) \<Longrightarrow> listing D project location k token jobs"
| next_page: "df_list D project location token k = Inr (jobs, c # nextToken) \<Longrightarrow> listing D project location k (c # nextToken) more_jobs
    \<Longrightarrow> listing D project location k token (jobs @ more_jobs)"

lemma find_append: "find P (xs @ ys) = (case find P xs of Some x \<Rightarrow> Some x | None \<Rightarrow> find P ys)"
  by (induction xs) auto

lemma find_page_listing:
  "listing D project location k token jobs \<Longrightarrow>
   find_page D project location pattern k token = Some (Inr (find (\<lambda>j. ext_re_match (df_ext D) pattern (dj_Name j)) jobs))"
proof (induction rule: listing.induct)
  case (last_page token jobs)
  then show ?case by (subst find_page.simps) (simp split: option.split)
next
  case (next_page token jobs c nextToken more_jobs)
  then show ?case by (subst find_page.simps) (simp add: find_append split: option.split)
qed

text \<open>
  A job is created at most once per name. If the list of active jobs ends, the request returns; when a
  job of the list matches the name nothing is created and the first such job is returned, otherwise
  exactly the requested job is created.
\<close>

theorem df_createJob_once:
  assumes "create_request D msg = Inr (project, location, name, spec)" and "listing D project location k [] jobs"
    and "ext_re_valid (df_ext D) (exact_name name)"
  shows "df_createJob D msg k = Some (case find (\<lambda>j. ext_re_match (df_ext D) (exact_name name) (dj_Name j)) jobs of
      Some j \<Rightarrow> answer_with k (job_message j)
    | None \<Rightarrow> (case df_create D project location spec k of
        (k1, Inl e) \<Rightarrow> failed k1 e | (k1, Inr j) \<Rightarrow> answer_with k1 (job_message j)))"
  using assms by (simp add: df_createJob_def df_getExistingJob_def find_page_listing with_value_def split: option.split prod.split sum.split)

text \<open>A list whose pages never end, without a matching job, keeps the request from returning.\<close>

theorem endless_pages_hang:
  fixes k :: 'k
  assumes "\<And>token. df_list D project location token k = Inr ([], ''next'')"
  shows "find_page D project location pattern k token = None"
proof (rule ccontr)
  assume "find_page D project location pattern k token \<noteq> None"
  then obtain r where "find_page D project location pattern k token = Some r" by auto
  then have "\<not> (\<forall>token. df_list D project location token k = Inr ([], ''next''))"
  proof (rule find_page.raw_induct [rotated])
    fix f :: "'k dataflow \<Rightarrow> string \<Rightarrow> string \<Rightarrow> string \<Rightarrow> 'k \<Rightarrow> string \<Rightarrow> df_job option res option" and D project location pattern k token r
    assume ih: "\<And>D project location pattern k token r. f D project location pattern k token = Some r \<Longrightarrow> \<not> (\<forall>token. df_list D project location token k = Inr ([], ''next''))"
      and run: "(case df_list D project location token k of Inl e \<Rightarrow> Some (Inl e)
        | Inr (jobs, nextToken) \<Rightarrow> (case find (\<lambda>j. ext_re_match (df_ext D) pattern (dj_Name j)) jobs of Some j \<Rightarrow> Some (Inr (Some j))
          | None \<Rightarrow> if nextToken \<noteq> [] then f D project location pattern k nextToken else Some (Inr None))) = Some r"
    show "\<not> (\<forall>token. df_list D project location token k = Inr ([], ''next''))"
    proof
      assume all: "\<forall>token. df_list D project location token k = Inr ([], ''next'')"
      with run have "f D project location pattern k ''next'' = Some r" by simp
      from ih [OF this] all show False by blast
    qed
  qed
  with assms show False by simp
qed

text \<open>
  The wait for a job reports how it ended: the first poll that shows a final state is answered, with
  failure exactly for a job that failed or was cancelled. The time-out is not reported.
\<close>

theorem df_wait_reports:
  assumes "list_all (\<lambda>j. map_of terminatedStates (dj_CurrentState j) = None) running"
  shows "poll_loop (map Polled running @ PollExpired # ps) = Some \<lparr>replies = [], panics = None, late = False\<rparr> \<and>
    (\<forall>j. dj_CurrentState j \<in> dom (map_of terminatedStates) \<longrightarrow>
      poll_loop (map Polled running @ Polled j # ps) = Some \<lparr>replies = [state_message j
        (if dj_CurrentState j \<in> {''JOB_STATE_FAILED'', ''JOB_STATE_CANCELLED''} then ''failure'' else ''success'')], panics = None, late = False\<rparr>)"
proof -
  have skip: "poll_loop (map Polled running @ rest) = poll_loop rest" for rest
    using assms by (induction running) simp_all
  have "poll_loop (Polled j # ps) = Some \<lparr>replies = [state_message j
        (if dj_CurrentState j \<in> {''JOB_STATE_FAILED'', ''JOB_STATE_CANCELLED''} then ''failure'' else ''success'')], panics = None, late = False\<rparr>"
    if "dj_CurrentState j \<in> dom (map_of terminatedStates)" for j
    using that by (auto simp: terminatedStates_def split: if_splits)
  then show ?thesis by (simp add: skip)
qed

text \<open>A request with a list of fields is never answered.\<close>

theorem getJob_fields_panic:
  assumes "df_params D msg = Inr (params, account, project, location)" and "GetMapDataStr params ''jobID'' = Some jobID"
    and "GetMapData params ''fields'' = Some (GList (f # fs))"
  shows "df_getJob D msg k = failed k TypeAssertion"
  using assms by (simp add: df_getJob_def field_list_def)

text \<open>A location of less than two characters ends every request with a panic.\<close>

theorem short_location_panics:
  assumes "DeserializePayload (df_ext D) msg = Inr m" and "GetMapDataStr (payload_val m) ''project'' = Some project"
    and "GetMapDataStr (payload_val m) ''location'' = Some location" and "length location < 2"
  shows "df_params D msg = Inl IndexOutOfRange"
  using assms by (simp add: df_params_def df_getCommonParams_def region_of_def)

section \<open>Witnesses\<close>

definition sample_job :: "string \<Rightarrow> string \<Rightarrow> df_job" where
  "sample_job name state = \<lparr>dj_Name = name, dj_CurrentState = state, dj_val = GStr name\<rparr>"

text \<open>A service with two pages of jobs, which counts the jobs that are created.\<close>

definition sample_dataflow :: "nat dataflow" where
  "sample_dataflow = \<lparr>df_ext = no_ext\<lparr>ext_re_match := (\<lambda>p s. p = ''^'' @ s @ ''$'')\<rparr>, df_newService = (\<lambda>_. None),
     df_list = (\<lambda>_ _ token k. if token = [] then Inr ([sample_job ''a'' ''JOB_STATE_RUNNING''], ''p2'') else Inr ([sample_job ''b'' ''JOB_STATE_RUNNING''], [])),
     df_create = (\<lambda>_ _ _ k. (Suc k, Inr (sample_job ''new'' ''JOB_STATE_PENDING''))), df_get = (\<lambda>_ _ _ k. Inr (sample_job ''a'' ''JOB_STATE_RUNNING'')),
     df_update = (\<lambda>_ _ _ _ k. (k, Inr (sample_job ''a'' ''JOB_STATE_RUNNING''))), df_decodeSpec = (\<lambda>v. Inr (''b'', v)), df_decodeJob = Inr\<rparr>"

definition df_request :: "gmap \<Rightarrow> Message" where
  "df_request extra = zero_message\<lparr>Payload := PVal (GMap ((''project'', GStr ''p'') # extra))\<rparr>"

lemma sample_listing: "listing sample_dataflow project location k [] [sample_job ''a'' ''JOB_STATE_RUNNING'', sample_job ''b'' ''JOB_STATE_RUNNING'']"
proof -
  have "listing sample_dataflow project location k ''p2'' [sample_job ''b'' ''JOB_STATE_RUNNING'']"
    by (rule listing.last_page) (simp add: sample_dataflow_def)
  then have "listing sample_dataflow project location k [] ([sample_job ''a'' ''JOB_STATE_RUNNING''] @ [sample_job ''b'' ''JOB_STATE_RUNNING''])"
    by (rule listing.next_page [rotated]) (simp add: sample_dataflow_def)
  then show ?thesis by simp
qed

theorem df_createJob_once_witness:
  "df_createJob sample_dataflow (df_request [(''job'', GMap [])]) 0 = Some (answer_with 0 (job_message (sample_job ''b'' ''JOB_STATE_RUNNING'')))"
proof -
  have "create_request sample_dataflow (df_request [(''job'', GMap [])]) = Inr (''p'', [], ''b'', GMap [])" by code_simp
  from df_createJob_once [OF this sample_listing] show ?thesis
    by (simp add: sample_dataflow_def no_ext_def exact_name_def sample_job_def)
qed

theorem endless_pages_hang_witness:
  "find_page (sample_dataflow\<lparr>df_list := (\<lambda>_ _ _ _. Inr ([], ''next''))\<rparr>) ''p'' [] ''x'' 0 [] = None"
  by (rule endless_pages_hang) simp

theorem df_wait_reports_witness:
  "poll_loop [Polled (sample_job ''a'' ''JOB_STATE_RUNNING''), PollExpired] = Some \<lparr>replies = [], panics = None, late = False\<rparr>"
  using df_wait_reports [of "[sample_job ''a'' ''JOB_STATE_RUNNING'']" "[]"] by (simp add: sample_job_def terminatedStates_def)

theorem getJob_fields_panic_witness:
  "df_getJob sample_dataflow (df_request [(''jobID'', GStr ''1''), (''fields'', GList [GStr ''id''])]) 0 = failed 0 TypeAssertion"
  by (rule getJob_fields_panic [where jobID = "''1''"]) (code_simp+)

theorem short_location_panics_witness:
  "df_params sample_dataflow (df_request [(''location'', GStr [])]) = Inl IndexOutOfRange"
  by (rule short_location_panics [of _ _ "df_request [(''location'', GStr [])]" "''p''" "[]"]) (code_simp+)

end
