(* ===== verification/Pubsub.thy ===== *)
theory Pubsub
  imports Webhook
begin

text \<open>
  The driver that turns messages of Google pubsub into events, \<open>drivers/cmd/gcloud-pubsub/main.go\<close>: the
  subscribers that the rules ask for, and what happens to a message.

  The client library and the loop that subscribes again are outside; a message is its bytes. A panic in
  the function for a message is in a goroutine of the library, so it ends the process, and the message is
  not acknowledged.
\<close>

section \<open>Subscribers\<close>

record SubscriberConfig =
  sc_Project :: string
  sc_SubscriptionName :: string
  sc_Conditions :: "gval list"

record Pubsub =
  ps_serviceAccount :: string
  ps_configs :: "(string, SubscriberConfig) gomap"

definition subscriber_name :: "string \<Rightarrow> string \<Rightarrow> string" where
  "subscriber_name project subscriptionName = project @ '':'' @ subscriptionName"

definition add_condition :: "string \<Rightarrow> string \<Rightarrow> gval \<Rightarrow> Pubsub \<Rightarrow> Pubsub" where
  "add_condition project sub condition p = (let name = subscriber_name project sub in
     p\<lparr>ps_configs := mput name (case map_of (ps_configs p) name of
         None \<Rightarrow> \<lparr>sc_Project = project, sc_SubscriptionName = sub, sc_Conditions = [condition]\<rparr>
       | Some c \<Rightarrow> c\<lparr>sc_Conditions := sc_Conditions c @ [condition]\<rparr>) (ps_configs p)\<rparr>)"

definition match_of_branch :: "gmap \<Rightarrow> gval" where
  "match_of_branch branch = (case map_of branch ''match'' of None \<Rightarrow> GNil | Some c \<Rightarrow> c)"

definition add_branch :: "gval \<Rightarrow> Pubsub act" where
  "add_branch branch = lget (assert_type (as_map branch)) (\<lambda>b p. let condition = match_of_branch b in
     case GetMapDataStr condition ''project'' of
       None \<Rightarrow> (p, None)
     | Some project \<Rightarrow> (case GetMapDataStr condition ''subscriptionName'' of
         None \<Rightarrow> (p, None)
       | Some sub \<Rightarrow> (add_condition project sub condition p, None)))"

definition add_event :: "string \<times> gval \<Rightarrow> Pubsub act" where
  "add_event e = lget (assert_type (as_list (snd e))) (load_each add_branch)"

definition pubsub_loadOptions :: "Driver \<Rightarrow> Pubsub act" where
  "pubsub_loadOptions d p = (case GetOption d ''dynamicData.collapsedEvents'' of
      None \<Rightarrow> (p, Some (PanicStr ''no pubsub subscription defined for pubsub driver''))
    | Some (GMap events) \<Rightarrow>
        load_each add_event events \<lparr>ps_serviceAccount = (case GetOptionStr d ''data.service_account'' of None \<Rightarrow> [] | Some s \<Rightarrow> s), ps_configs = []\<rparr>
    | Some _ \<Rightarrow> (p, Some (PanicStr ''pubsub subscription data should be a map of event to conditions'')))"

section \<open>Messages\<close>

definition pubsub_event :: "ext \<Rightarrow> SubscriberConfig \<Rightarrow> string \<Rightarrow> gmap" where
  "pubsub_event X config data =
    [(''project'', GStr (sc_Project config)), (''subscriptionName'', GStr (sc_SubscriptionName config))] @
    (case ext_json_unmarshal X data of Inl e \<Rightarrow> [(''text'', GStr data)] | Inr v \<Rightarrow> [(''json'', v)])"

definition msgHandler :: "ext \<Rightarrow> string \<Rightarrow> SubscriberConfig \<Rightarrow> string \<Rightarrow> Driver act" where
  "msgHandler X uuid config data = (let actual = GMap (pubsub_event X config data) in
     lget (any_loop (CompareAll X actual) (sc_Conditions config)) (\<lambda>matched d.
       (if matched then EmitEvent uuid [(''events'', GList [GStr ''gcloud-pubsub.'']), (''data'', actual)] d else d, None)))"

text \<open>The function given to \<open>Receive\<close>: whether the message is acknowledged.\<close>

definition receive :: "ext \<Rightarrow> string \<Rightarrow> SubscriberConfig \<Rightarrow> string \<Rightarrow> Driver \<Rightarrow> Driver \<times> bool" where
  "receive X uuid config data d = (case msgHandler X uuid config data d of (d', None) \<Rightarrow> (d', True) | (d', Some e) \<Rightarrow> (d', False))"

section \<open>Properties\<close>

text \<open>The conditions of the rules for a subscription, in order.\<close>

definition branch_condition :: "string \<Rightarrow> string \<Rightarrow> gval \<Rightarrow> gval option" where
  "branch_condition project sub branch = (case as_map branch of
      None \<Rightarrow> None
    | Some b \<Rightarrow> let c = match_of_branch b in
        if GetMapDataStr c ''project'' = Some project \<and> GetMapDataStr c ''subscriptionName'' = Some sub then Some c else None)"

definition branches :: "gmap \<Rightarrow> gval list" where
  "branches events = concat (map (\<lambda>(_, v). case as_list v of None \<Rightarrow> [] | Some bs \<Rightarrow> bs) events)"

definition conditions_for :: "string \<Rightarrow> string \<Rightarrow> gval list \<Rightarrow> gval list" where
  "conditions_for project sub = List.map_filter (branch_condition project sub)"

text \<open>No subscription has a colon in its name, as the service requires.\<close>

definition plain_names :: "gval list \<Rightarrow> bool" where
  "plain_names = list_all (\<lambda>branch. case as_map branch of None \<Rightarrow> True
     | Some b \<Rightarrow> (case GetMapDataStr (match_of_branch b) ''subscriptionName'' of None \<Rightarrow> True | Some s \<Rightarrow> CHR '':'' \<notin> set s))"

definition configured :: "Pubsub \<Rightarrow> string \<Rightarrow> string \<Rightarrow> gval list" where
  "configured p project sub = (case map_of (ps_configs p) (subscriber_name project sub) of None \<Rightarrow> [] | Some c \<Rightarrow> sc_Conditions c)"

lemma colon_split: "CHR '':'' \<notin> set s \<Longrightarrow> CHR '':'' \<notin> set s' \<Longrightarrow> p @ CHR '':'' # s = p' @ CHR '':'' # s' \<longleftrightarrow> p = p' \<and> s = s'"
proof -
  have rev_eq: "a @ CHR '':'' # x = b @ CHR '':'' # y \<longleftrightarrow> a = b \<and> x = y" if "CHR '':'' \<notin> set a" "CHR '':'' \<notin> set b" for a b x y
    using that by (auto simp: append_eq_append_conv2 append_eq_Cons_conv Cons_eq_append_conv)
  assume "CHR '':'' \<notin> set s" "CHR '':'' \<notin> set s'"
  then have "rev (p @ CHR '':'' # s) = rev (p' @ CHR '':'' # s') \<longleftrightarrow> rev s = rev s' \<and> rev p = rev p'"
    using rev_eq [of "rev s" "rev s'" "rev p" "rev p'"] by simp
  then show ?thesis unfolding rev_is_rev_conv by blast
qed

lemma configured_add:
  "CHR '':'' \<notin> set s \<Longrightarrow> CHR '':'' \<notin> set s' \<Longrightarrow>
   configured (add_condition p' s' c st) p s = configured st p s @ (if p = p' \<and> s = s' then [c] else [])"
  by (auto simp: configured_def add_condition_def Let_def subscriber_name_def colon_split split: option.split)

definition names_ok :: "Pubsub \<Rightarrow> bool" where
  "names_ok p \<longleftrightarrow> (\<forall>name c. map_of (ps_configs p) name = Some c \<longrightarrow> name = subscriber_name (sc_Project c) (sc_SubscriptionName c) \<and> CHR '':'' \<notin> set (sc_SubscriptionName c))"

lemma names_ok_add: "names_ok p \<Longrightarrow> CHR '':'' \<notin> set sub \<Longrightarrow> names_ok (add_condition project sub c p)"
  by (auto simp: names_ok_def add_condition_def Let_def split: option.splits)

lemma add_branch_ok:
  assumes "add_branch b p = (p', None)" and "plain_names [b]" and "CHR '':'' \<notin> set sub" and "names_ok p"
  shows "configured p' project sub = configured p project sub @ conditions_for project sub [b] \<and> names_ok p'"
proof (cases "as_map b")
  case (Some m)
  show ?thesis
  proof (cases "GetMapDataStr (match_of_branch m) ''project'' = None \<or> GetMapDataStr (match_of_branch m) ''subscriptionName'' = None")
    case True
    with assms Some show ?thesis
      by (auto simp: add_branch_def conditions_for_def branch_condition_def map_filter_simps Let_def split: option.splits)
  next
    case False
    then obtain project' sub' where cond: "GetMapDataStr (match_of_branch m) ''project'' = Some project'" "GetMapDataStr (match_of_branch m) ''subscriptionName'' = Some sub'" by auto
    with assms(2) Some have plain: "CHR '':'' \<notin> set sub'" by (simp add: plain_names_def)
    from assms(1) Some cond have "p' = add_condition project' sub' (match_of_branch m) p" by (simp add: add_branch_def Let_def)
    with configured_add [OF assms(3) plain] names_ok_add [OF assms(4) plain] Some cond show ?thesis
      by (auto simp: conditions_for_def branch_condition_def map_filter_simps Let_def)
  qed
qed (use assms in \<open>simp add: add_branch_def\<close>)

lemma load_each_ok_Cons: "load_each f (x # xs) st = (st', None) \<longleftrightarrow> (\<exists>st1. f x st = (st1, None) \<and> load_each f xs st1 = (st', None))"
  by (auto simp: lseq_def split: prod.splits option.splits)

lemma conditions_for_append: "conditions_for project sub (xs @ ys) = conditions_for project sub xs @ conditions_for project sub ys"
  by (simp add: conditions_for_def List.map_filter_def)

lemma add_branches_ok:
  "load_each add_branch bs p = (p', None) \<Longrightarrow> plain_names bs \<Longrightarrow> CHR '':'' \<notin> set sub \<Longrightarrow> names_ok p \<Longrightarrow>
   configured p' project sub = configured p project sub @ conditions_for project sub bs \<and> names_ok p'"
proof (induction bs arbitrary: p)
  case (Cons b bs)
  then obtain p1 where p1: "add_branch b p = (p1, None)" "load_each add_branch bs p1 = (p', None)" unfolding load_each_ok_Cons by blast
  moreover have "plain_names [b]" "plain_names bs" using Cons.prems(2) by (simp_all add: plain_names_def)
  ultimately show ?case using Cons.IH Cons.prems(3,4) add_branch_ok conditions_for_append [of project sub "[b]" bs] by simp
qed (simp add: conditions_for_def map_filter_simps)

lemma add_events_ok:
  "load_each add_event events p = (p', None) \<Longrightarrow> plain_names (branches events) \<Longrightarrow> CHR '':'' \<notin> set sub \<Longrightarrow> names_ok p \<Longrightarrow>
   configured p' project sub = configured p project sub @ conditions_for project sub (branches events) \<and> names_ok p'"
proof (induction events arbitrary: p)
  case (Cons e events)
  then obtain p1 where p1: "add_event e p = (p1, None)" "load_each add_event events p1 = (p', None)" unfolding load_each_ok_Cons by blast
  then obtain bs where bs: "as_list (snd e) = Some bs" "load_each add_branch bs p = (p1, None)"
    by (cases "as_list (snd e)") (simp_all add: add_event_def)
  have split: "branches (e # events) = bs @ branches events" using bs(1) by (cases e) (simp add: branches_def)
  then have "plain_names bs" "plain_names (branches events)" using Cons.prems(2) by (simp_all add: plain_names_def)
  with add_branches_ok [OF bs(2) this(1) Cons.prems(3,4)] Cons.IH [OF p1(2)] Cons.prems(3) show ?case
    by (simp add: split conditions_for_append)
qed (simp add: conditions_for_def map_filter_simps branches_def)

lemma any_loop_meaning: "list_all (\<lambda>x. ok (f x)) xs \<Longrightarrow> any_loop f xs = Inr (\<exists>x \<in> set xs. f x = Inr True)"
  by (induction xs) (auto simp: ok_conv)

text \<open>
  C36: a message of a subscription becomes an event exactly when a rule asks for it. After the options are
  loaded, a message for a subscriber is acknowledged, and the event is sent if and only if among the rules
  of the options there is one for this project and subscription whose condition matches the message.
\<close>

theorem pubsub_event_iff:
  assumes "GetOption d ''dynamicData.collapsedEvents'' = Some (GMap events)" and "plain_names (branches events)"
    and "pubsub_loadOptions d p0 = (p, None)" and "map_of (ps_configs p) name = Some config"
    and "list_all (\<lambda>c. ok (CompareAll X (GMap (pubsub_event X config data)) c)) (conditions_for (sc_Project config) (sc_SubscriptionName config) (branches events))"
  shows "receive X uuid config data d =
    (if \<exists>b \<in> set (branches events). \<exists>c. branch_condition (sc_Project config) (sc_SubscriptionName config) b = Some c \<and> CompareAll X (GMap (pubsub_event X config data)) c = Inr True
     then EmitEvent uuid [(''events'', GList [GStr ''gcloud-pubsub.'']), (''data'', GMap (pubsub_event X config data))] d else d, True)"
proof -
  let ?p = "\<lparr>ps_serviceAccount = (case GetOptionStr d ''data.service_account'' of None \<Rightarrow> [] | Some s \<Rightarrow> s), ps_configs = []\<rparr>"
  let ?cs = "conditions_for (sc_Project config) (sc_SubscriptionName config) (branches events)"
  have load: "load_each add_event events ?p = (p, None)" using assms(1,3) by (simp add: pubsub_loadOptions_def)
  have empty: "names_ok ?p" "configured ?p project sub = []" for project sub by (simp_all add: names_ok_def configured_def)
  have "names_ok p" using add_events_ok [OF load assms(2), of "[]"] empty(1) by simp
  with assms(4) have config: "name = subscriber_name (sc_Project config) (sc_SubscriptionName config)" "CHR '':'' \<notin> set (sc_SubscriptionName config)"
    by (auto simp: names_ok_def)
  have "configured p (sc_Project config) (sc_SubscriptionName config) = ?cs"
    using add_events_ok [OF load assms(2) config(2) empty(1)] empty(2) by simp
  with config(1) assms(4) have conds: "sc_Conditions config = ?cs" by (simp add: configured_def)
  have "(\<exists>c \<in> set ?cs. CompareAll X (GMap (pubsub_event X config data)) c = Inr True) \<longleftrightarrow>
      (\<exists>b \<in> set (branches events). \<exists>c. branch_condition (sc_Project config) (sc_SubscriptionName config) b = Some c \<and> CompareAll X (GMap (pubsub_event X config data)) c = Inr True)"
    by (auto simp: conditions_for_def List.map_filter_def) force
  then show ?thesis using any_loop_meaning [OF assms(5)] by (simp add: receive_def msgHandler_def Let_def conds)
qed

section \<open>Witnesses\<close>

definition sample_pubsub_events :: gmap where
  "sample_pubsub_events = [(''e'', GList [GMap [(''match'', GMap [(''project'', GStr ''p''), (''subscriptionName'', GStr ''s'')])]])]"

definition sample_pubsub_driver :: Driver where
  "sample_pubsub_driver = sample_webhook_driver\<lparr>dv_Options := GMap [(''dynamicData'', GMap [(''collapsedEvents'', GMap sample_pubsub_events)])]\<rparr>"

definition sample_subscriber :: SubscriberConfig where
  "sample_subscriber = \<lparr>sc_Project = ''p'', sc_SubscriptionName = ''s'', sc_Conditions = [GMap [(''project'', GStr ''p''), (''subscriptionName'', GStr ''s'')]]\<rparr>"

theorem pubsub_event_iff_witness:
  "receive no_ext ''u'' sample_subscriber ''hello'' sample_pubsub_driver =
    (EmitEvent ''u'' [(''events'', GList [GStr ''gcloud-pubsub.'']), (''data'', GMap (pubsub_event no_ext sample_subscriber ''hello''))] sample_pubsub_driver, True)"
proof -
  let ?c = "GMap [(''project'', GStr ''p''), (''subscriptionName'', GStr ''s'')]"
  have options: "GetOption sample_pubsub_driver ''dynamicData.collapsedEvents'' = Some (GMap sample_pubsub_events)" by code_simp
  have plain: "plain_names (branches sample_pubsub_events)" by code_simp
  have load: "pubsub_loadOptions sample_pubsub_driver \<lparr>ps_serviceAccount = [], ps_configs = []\<rparr> = (\<lparr>ps_serviceAccount = [], ps_configs = [(''p:s'', sample_subscriber)]\<rparr>, None)" by code_simp
  have conf: "map_of (ps_configs \<lparr>ps_serviceAccount = [], ps_configs = [(''p:s'', sample_subscriber)]\<rparr>) ''p:s'' = Some sample_subscriber" by simp
  have ok: "list_all (\<lambda>c. ok (CompareAll no_ext (GMap (pubsub_event no_ext sample_subscriber ''hello'')) c))
      (conditions_for (sc_Project sample_subscriber) (sc_SubscriptionName sample_subscriber) (branches sample_pubsub_events))" by code_simp
  have "hd (branches sample_pubsub_events) \<in> set (branches sample_pubsub_events)" by code_simp
  moreover have "branch_condition (sc_Project sample_subscriber) (sc_SubscriptionName sample_subscriber) (hd (branches sample_pubsub_events)) = Some ?c" by code_simp
  moreover have "CompareAll no_ext (GMap (pubsub_event no_ext sample_subscriber ''hello'')) ?c = Inr True" by code_simp
  ultimately have "\<exists>b \<in> set (branches sample_pubsub_events). \<exists>c. branch_condition (sc_Project sample_subscriber) (sc_SubscriptionName sample_subscriber) b = Some c \<and>
      CompareAll no_ext (GMap (pubsub_event no_ext sample_subscriber ''hello'')) c = Inr True" by blast
  with pubsub_event_iff [OF options plain load conf ok, of "''u''"] show ?thesis by simp
qed

end
