(* ===== verification/Backends.thy ===== *)
theory Backends
  imports Chat Webhook
begin

text \<open>
  The three drivers for AI models: \<open>hd-driver-openai\<close>, \<open>hd-driver-gemini\<close> and \<open>hd-driver-ollama\<close> under \<open>drivers/cmd\<close>. Each
  loads its tools when it starts, and gives the shared part (theory \<open>Chat\<close>) a session that sends the messages to
  the model and turns what comes back into calls of the two handlers.

  The client libraries are outside. A message is the value that its JSON stands for. What the model sends is an
  argument: per request the list of chunks or responses, of which a record has what the driver reads. For
  OpenAI this includes what the accumulator of the library reports after the chunk. A call of a tool ends
  in the next request, made by the tool handler, so the calls of the handlers in a turn are those of the
  requests one after the other.
\<close>

section \<open>Starting a driver\<close>

record ai_tools =
  at_tools :: "gval list"
  at_workflows :: "(string, Workflow) gomap"

text \<open>\<open>decode\<close> is \<open>mapstructure.Decode\<close> into a tool and its workflow; what it refuses is left out.\<close>

fun load_tools :: "(gval \<Rightarrow> (gval \<times> Workflow) option) \<Rightarrow> gmap \<Rightarrow> ai_tools \<Rightarrow> ai_tools res" where
  "load_tools decode [] t = Inr t"
| "load_tools decode ((k, v) # m) t = (case decode v of
      None \<Rightarrow> load_tools decode m t
    | Some (tool, workflow) \<Rightarrow> rbind (assert_type (as_map v)) (\<lambda>_.
        load_tools decode m \<lparr>at_tools = at_tools t @ [tool], at_workflows = mput k workflow (at_workflows t)\<rparr>))"

text \<open>The list is stored below \<open>data\<close>, which has to be a map; without it the options have to be one.\<close>

definition ai_init :: "(gval \<Rightarrow> (gval \<times> Workflow) option) \<Rightarrow> gval \<Rightarrow> ai_tools res" where
  "ai_init decode options =
    rbind (load_tools decode (case GetMapData options ''data.tools'' of Some (GMap m) \<Rightarrow> m | _ \<Rightarrow> []) \<lparr>at_tools = [], at_workflows = []\<rparr>) (\<lambda>t.
    rmap (\<lambda>_. t) (assert_type (as_map (case GetMapData options ''data'' of Some d \<Rightarrow> d | None \<Rightarrow> options))))"

definition openai_init :: "(gval \<Rightarrow> (gval \<times> Workflow) option) \<Rightarrow> gval \<Rightarrow> ai_tools res" where
  "openai_init decode options = ai_init decode options"

definition gemini_init :: "(gval \<Rightarrow> (gval \<times> Workflow) option) \<Rightarrow> gval \<Rightarrow> ai_tools res" where
  "gemini_init decode options = ai_init decode options"

definition ollama_setup :: "(gval \<Rightarrow> (gval \<times> Workflow) option) \<Rightarrow> gval \<Rightarrow> ai_tools res" where
  "ollama_setup decode options = ai_init decode options"

section \<open>Sessions\<close>

record ai_session =
  as_model :: string
  as_temperature :: "rat option"
  as_tools :: "gval list"
  as_streaming :: bool
  as_client :: "(string, string) gomap"
  as_messages :: "gval list"

definition as_float :: "gval \<Rightarrow> rat option" where
  "as_float v = (case v of GFloat q \<Rightarrow> Some q | _ \<Rightarrow> None)"

definition engine_option :: "gval \<Rightarrow> string \<Rightarrow> string \<Rightarrow> gval option" where
  "engine_option options engine name = GetMapData options (''data.engine.'' @ engine @ ''.'' @ name)"

definition engine_str :: "gval \<Rightarrow> string \<Rightarrow> string \<Rightarrow> string option" where
  "engine_str options engine name = Option.bind (engine_option options engine name) as_str"

definition temperature_of :: "gval \<Rightarrow> string \<Rightarrow> gval \<Rightarrow> rat option res" where
  "temperature_of options engine payload = (case GetMapData payload ''temperature'' of
      Some t \<Rightarrow> rmap Some (assert_type (as_float t))
    | None \<Rightarrow> (case engine_option options engine ''temperature'' of
        Some t \<Rightarrow> rmap Some (assert_type (as_float t))
      | None \<Rightarrow> Inr None))"

text \<open>The model has to be a string for OpenAI and Ollama; Gemini ignores anything else.\<close>

definition model_of :: "gval \<Rightarrow> string \<Rightarrow> string res" where
  "model_of options engine = (case engine_option options engine ''model'' of
      Some n \<Rightarrow> assert_type (as_str n) | None \<Rightarrow> Inr engine)"

definition optional_field :: "string \<Rightarrow> string option \<Rightarrow> (string, string) gomap" where
  "optional_field k v = (case v of None \<Rightarrow> [] | Some s \<Rightarrow> [(k, s)])"

definition openai_newSession :: "gval \<Rightarrow> gval list option \<Rightarrow> string \<Rightarrow> gval \<Rightarrow> ai_session res" where
  "openai_newSession options tools engine payload =
    rbind (model_of options engine) (\<lambda>model. rbind (temperature_of options engine payload) (\<lambda>temp.
    Inr \<lparr>as_model = model, as_temperature = temp, as_tools = (case tools of None \<Rightarrow> [] | Some ts \<Rightarrow> ts),
      as_streaming = fst (GetMapDataBool options (''data.engine.'' @ engine @ ''.streaming'')),
      as_client = optional_field ''base_url'' (engine_str options engine ''base_url'') @ optional_field ''api_key'' (engine_str options engine ''api_key''),
      as_messages = []\<rparr>))"

text \<open>Without a list of tools the lookup panics. That Gemini rounds the temperature to 32 bits is left out.\<close>

definition tools_list :: "gval list option \<Rightarrow> gval list res" where
  "tools_list tools = (case tools of None \<Rightarrow> Inl (PanicErr ''map error: path not valid: data.tools_list'') | Some ts \<Rightarrow> Inr ts)"

definition gemini_generateConfig :: "gval \<Rightarrow> gval list option \<Rightarrow> string \<Rightarrow> gval \<Rightarrow> (rat option \<times> gval list) res" where
  "gemini_generateConfig options tools engine payload = rbind (temperature_of options engine payload) (\<lambda>temp. rmap (Pair temp) (tools_list tools))"

definition gemini_newSession :: "gopanic option \<Rightarrow> gval \<Rightarrow> gval list option \<Rightarrow> string \<Rightarrow> gval \<Rightarrow> ai_session res" where
  "gemini_newSession newClient options tools engine payload =
    rbind (gemini_generateConfig options tools engine payload) (\<lambda>(temp, ts).
    case newClient of Some e \<Rightarrow> Inl e | None \<Rightarrow>
      Inr \<lparr>as_model = (case engine_str options engine ''model'' of None \<Rightarrow> engine | Some m \<Rightarrow> m), as_temperature = temp, as_tools = ts,
        as_streaming = True, as_client = [], as_messages = []\<rparr>)"

text \<open>\<open>parse_host\<close> and \<open>from_env\<close> are how the URL of the host is parsed and a client is made from the environment.\<close>

definition NewOllamaClient :: "(string \<Rightarrow> string option) \<Rightarrow> string option \<Rightarrow> string \<Rightarrow> unit res" where
  "NewOllamaClient parse_host from_env host = (if host \<noteq> [] then (case parse_host host of
       Some e \<Rightarrow> Inl (PanicErr (''error creating ollama client: failed to parse ollama host: '' @ e)) | None \<Rightarrow> Inr ())
     else (case from_env of Some e \<Rightarrow> Inl (PanicErr (''error creating ollama client: failed to create ollama client: '' @ e)) | None \<Rightarrow> Inr ()))"

definition ollama_newSession :: "(string \<Rightarrow> string option) \<Rightarrow> string option \<Rightarrow> gval \<Rightarrow> gval list option \<Rightarrow> string \<Rightarrow> gval \<Rightarrow> ai_session res" where
  "ollama_newSession parse_host from_env options tools engine payload =
    (let host = (case GetMapDataStr payload ''ollama_host'' of None \<Rightarrow> [] | Some h \<Rightarrow> h) in
     rbind (NewOllamaClient parse_host from_env host) (\<lambda>_. rbind (model_of options engine) (\<lambda>model.
     rbind (temperature_of options engine payload) (\<lambda>temp. rbind (tools_list tools) (\<lambda>ts.
     Inr \<lparr>as_model = model, as_temperature = temp, as_tools = ts, as_streaming = True, as_client = optional_field ''host'' (Some host), as_messages = []\<rparr>)))))"

section \<open>Messages\<close>

definition role_message :: "string \<Rightarrow> string \<Rightarrow> gval" where
  "role_message role content = GMap [(''role'', GStr role), (''content'', GStr content)]"

definition system_prompt :: "gval \<Rightarrow> string \<Rightarrow> string" where
  "system_prompt options engine = (case engine_str options engine ''system_prompt'' of None \<Rightarrow> [] | Some s \<Rightarrow> s)"

definition openai_chatter :: "gval \<Rightarrow> chatter" where
  "openai_chatter options = \<lparr>
     ct_InitMessages = (\<lambda>engine. if system_prompt options engine \<noteq> [] then [role_message ''system'' (system_prompt options engine)] else []),
     ct_BuildMessage = role_message ''assistant'',
     ct_BuildUserMessage = (\<lambda>user t. GMap [(''role'', GStr ''user''), (''content'', GStr t), (''name'', GStr user)]),
     ct_BuildToolReturnMessage = (\<lambda>name callID b. GMap [(''role'', GStr ''tool''), (''content'', GStr b), (''tool_call_id'', GStr callID)])\<rparr>"

definition ollama_chatter :: "gval \<Rightarrow> chatter" where
  "ollama_chatter options = \<lparr>
     ct_InitMessages = (\<lambda>engine. if system_prompt options engine \<noteq> [] then [role_message ''system'' (system_prompt options engine)] else []),
     ct_BuildMessage = role_message ''assistant'',
     ct_BuildUserMessage = (\<lambda>user t. role_message ''user'' (user @ '' says :quote_start: '' @ t @ '' :quote_end'')),
     ct_BuildToolReturnMessage = (\<lambda>name callID b. role_message ''tool''
       (''{'' @ [CHR 0x22] @ ''function'' @ [CHR 0x22] @ '': '' @ [CHR 0x22] @ name @ [CHR 0x22] @ '', '' @ [CHR 0x22] @ ''return'' @ [CHR 0x22] @ '': '' @ b @ ''}''))\<rparr>"

definition gemini_content :: "string \<Rightarrow> gmap \<Rightarrow> gval" where
  "gemini_content role part = GMap [(''parts'', GList [GMap part]), (''role'', GStr role)]"

definition gemini_InitMessages :: "gval \<Rightarrow> string \<Rightarrow> gval list" where
  "gemini_InitMessages options engine = (if system_prompt options engine \<noteq> []
     then [gemini_content ''user'' [(''text'', GStr (system_prompt options engine))], gemini_content ''assistant'' [(''text'', GStr ''Understood!'')]] else [])"

definition gemini_BuildUserMessage :: "string \<Rightarrow> string \<Rightarrow> gval" where
  "gemini_BuildUserMessage user t = gemini_content ''user'' [(''text'', GStr (user @ '' says :quote_start: '' @ t @ '':quote_end:''))]"

text \<open>The result of a tool has to be a JSON object.\<close>

definition gemini_BuildToolReturnMessage :: "ext \<Rightarrow> string \<Rightarrow> string \<Rightarrow> string \<Rightarrow> gval res" where
  "gemini_BuildToolReturnMessage X name callID b = rmap (\<lambda>data. gemini_content ''tool''
     [(''functionResponse'', GMap [(''id'', GStr callID), (''name'', GStr name), (''response'', GMap data)])]) (json_object X b)"

section \<open>Requests\<close>

text \<open>Both sessions with a list of messages add the new one and send them all.\<close>

definition send_messages :: "gval \<Rightarrow> ai_session \<Rightarrow> ai_session \<times> gval list" where
  "send_messages ret s = (let ms = as_messages s @ [ret] in (s\<lparr>as_messages := ms\<rparr>, ms))"

definition load_history :: "ext \<Rightarrow> string \<Rightarrow> ai_session \<Rightarrow> ai_session res" where
  "load_history X hist s = rbind (ext_json_unmarshal X hist) (\<lambda>v. case v of
      GList ms \<Rightarrow> Inr (s\<lparr>as_messages := ms\<rparr>) | GNil \<Rightarrow> Inr (s\<lparr>as_messages := []\<rparr>) | _ \<Rightarrow> Inl (PanicErr ''json: cannot unmarshal''))"

type_synonym backend_run = "chat_event list \<times> gopanic option"

record openai_chunk =
  oc_time :: int
  oc_tool :: "(string \<times> string \<times> string \<times> string) option"
  oc_refusal :: "string option"
  oc_finished :: bool
  oc_text :: string

definition tool_event :: "ext \<Rightarrow> string \<times> string \<times> string \<times> string \<Rightarrow> backend_run" where
  "tool_event X tool = (case tool of (json, arguments, name, callID) \<Rightarrow> (case json_object X arguments of
      Inl e \<Rightarrow> ([], Some e) | Inr args \<Rightarrow> ([ToolCall json (GMap args) name callID], None)))"

text \<open>The loop ends when \<open>Next\<close> does, be it with an error; the error is not looked at.\<close>

fun openai_chunks :: "ext \<Rightarrow> openai_chunk list \<Rightarrow> backend_run" where
  "openai_chunks X [] = ([], None)"
| "openai_chunks X (c # cs) = (case oc_tool c of
      Some tool \<Rightarrow> tool_event X tool
    | None \<Rightarrow> (case oc_refusal c of
        Some r \<Rightarrow> ([Chunk (oc_time c) r True], None)
      | None \<Rightarrow> (case openai_chunks X cs of (evs, p) \<Rightarrow> (Chunk (oc_time c) (oc_text c) (oc_finished c) # evs, p))))"

text \<open>Without streaming there is one completion: a list of choices with the reason they ended, content and tool calls.\<close>

record openai_choice =
  ch_reason :: string
  ch_content :: string
  ch_calls :: "(string \<times> string \<times> string \<times> string) list"

definition relayToStream :: "ext \<Rightarrow> int \<Rightarrow> openai_choice list res \<Rightarrow> backend_run" where
  "relayToStream X now resp = (case resp of
      Inl e \<Rightarrow> ([], Some e)
    | Inr [] \<Rightarrow> ([], Some IndexOutOfRange)
    | Inr (c # _) \<Rightarrow>
        if ch_reason c = ''tool_calls'' then (case ch_calls c of [] \<Rightarrow> ([], Some IndexOutOfRange) | tool # _ \<Rightarrow> tool_event X tool)
        else ([Chunk now (ch_content c) True], None))"

text \<open>What the session sends and what it does with the answer: the chunks of \<open>streamer\<close>, or the \<open>completion\<close> with its time.\<close>

definition openai_StreamWithFunctionReturn :: "ext \<Rightarrow> (gval list \<Rightarrow> openai_chunk list) \<Rightarrow> (gval list \<Rightarrow> int \<times> openai_choice list res) \<Rightarrow> gval \<Rightarrow> ai_session \<Rightarrow> ai_session \<times> backend_run" where
  "openai_StreamWithFunctionReturn X streamer completion ret s = (case send_messages ret s of (s', body) \<Rightarrow>
     (s', if as_streaming s then openai_chunks X (streamer body) else (case completion body of (now, resp) \<Rightarrow> relayToStream X now resp)))"

definition openai_Stream :: "ext \<Rightarrow> (gval list \<Rightarrow> openai_chunk list) \<Rightarrow> (gval list \<Rightarrow> int \<times> openai_choice list res) \<Rightarrow> gval \<Rightarrow> string \<Rightarrow> ai_session \<Rightarrow> ai_session \<times> backend_run" where
  "openai_Stream X streamer completion msg hist s = (case load_history X hist s of
      Inl e \<Rightarrow> (s, [], Some e) | Inr s' \<Rightarrow> openai_StreamWithFunctionReturn X streamer completion msg s')"

record ollama_response =
  or_time :: int
  or_message :: gval
  or_content :: string
  or_calls :: "(string \<times> gmap) list option"
  or_done :: bool

text \<open>The call back for the responses: the messages kept, the calls of the handler, and the message with tool calls.\<close>

fun ollama_responses :: "ollama_response list \<Rightarrow> gval list \<times> chat_event list \<times> ollama_response option" where
  "ollama_responses [] = ([], [], None)"
| "ollama_responses (r # rs) = (case or_calls r of
      Some calls \<Rightarrow> ([or_message r], [], Some r)
    | None \<Rightarrow> (case ollama_responses rs of (ms, evs, tool) \<Rightarrow> (or_message r # ms, Chunk (or_time r) (or_content r) (or_done r) # evs, tool)))"

definition ollama_tool :: "ext \<Rightarrow> ollama_response \<Rightarrow> backend_run" where
  "ollama_tool X r = (case ext_json_marshal X (or_message r) of
      Inl e \<Rightarrow> ([], Some e)
    | Inr json \<Rightarrow> (case or_calls r of
        Some ((name, args) # _) \<Rightarrow> ([ToolCall json (GMap args) name []], None)
      | _ \<Rightarrow> ([], Some IndexOutOfRange)))"

text \<open>\<open>answer\<close> gives the responses and the error of \<open>Chat\<close>, after which the tool is not called.\<close>

definition ollama_StreamWithFunctionReturn :: "ext \<Rightarrow> (gval list \<Rightarrow> ollama_response list \<times> gopanic option) \<Rightarrow> gval \<Rightarrow> ai_session \<Rightarrow> ai_session \<times> backend_run" where
  "ollama_StreamWithFunctionReturn X answer ret s = (case send_messages ret s of (s1, body) \<Rightarrow>
     case answer body of (rs, failure) \<Rightarrow> (case ollama_responses rs of (ms, evs, tool) \<Rightarrow>
       (s1\<lparr>as_messages := as_messages s1 @ ms\<rparr>, case failure of
          Some e \<Rightarrow> (evs, Some e)
        | None \<Rightarrow> (case tool of None \<Rightarrow> (evs, None) | Some r \<Rightarrow> (case ollama_tool X r of (evs', p) \<Rightarrow> (evs @ evs', p))))))"

definition ollama_Stream :: "ext \<Rightarrow> (gval list \<Rightarrow> ollama_response list \<times> gopanic option) \<Rightarrow> gval \<Rightarrow> string \<Rightarrow> ai_session \<Rightarrow> ai_session \<times> backend_run" where
  "ollama_Stream X answer msg hist s = (case load_history X hist s of
      Inl e \<Rightarrow> (s, [], Some e) | Inr s' \<Rightarrow> ollama_StreamWithFunctionReturn X answer msg s')"

datatype gem_part = TextPart string | CallPart string gmap string

datatype gem_response = GemError string | GemContent int gval "gem_part list" string | GemEmpty

text \<open>
  The loop over the responses: the calls of the handler, whether the turn is cancelled, and the last
  content with a call of a function. \<open>GemEmpty\<close> has no candidate.
\<close>

fun gemini_responses :: "gem_response list \<Rightarrow> (gval \<times> gem_part list) option \<Rightarrow> chat_event list \<times> bool \<times> gopanic option \<times> (gval \<times> gem_part list) option" where
  "gemini_responses [] tool = ([], False, None, tool)"
| "gemini_responses (GemError e # rs) tool = ([], True, None, tool)"
| "gemini_responses (GemEmpty # rs) tool = ([], False, Some IndexOutOfRange, tool)"
| "gemini_responses (GemContent now content parts reason # rs) tool = (case parts of
      [] \<Rightarrow> ([], True, None, tool)
    | CallPart name args callID # ps \<Rightarrow> gemini_responses rs (Some (content, parts))
    | TextPart t # ps \<Rightarrow> (case gemini_responses rs tool of (evs, result) \<Rightarrow> (Chunk now t (reason \<noteq> []) # evs, result)))"

definition gemini_tool :: "ext \<Rightarrow> gval \<times> gem_part list \<Rightarrow> backend_run" where
  "gemini_tool X tool = (case ext_json_marshal X (fst tool) of
      Inl e \<Rightarrow> ([], Some e)
    | Inr json \<Rightarrow> (case snd tool of CallPart name args callID # _ \<Rightarrow> ([ToolCall json (GMap args) name callID], None) | _ \<Rightarrow> ([], Some IndexOutOfRange)))"

text \<open>The content with the call takes the place of the last message of the chat, whose history the library keeps.\<close>

definition replace_last :: "gval \<Rightarrow> gval list \<Rightarrow> gval list res" where
  "replace_last m h = (if h = [] then Inl IndexOutOfRange else Inr (butlast h @ [m]))"

definition gemini_StreamWithFunctionReturn ::
  "ext \<Rightarrow> (gval \<Rightarrow> gval list \<Rightarrow> gem_response list \<times> gval list) \<Rightarrow> gval \<Rightarrow> ai_session \<Rightarrow> ai_session \<times> bool \<times> backend_run" where
  "gemini_StreamWithFunctionReturn X answer ret s = (case answer ret (as_messages s) of (rs, history) \<Rightarrow>
     case gemini_responses rs None of (evs, cancelled, p, tool) \<Rightarrow>
       let s1 = s\<lparr>as_messages := history\<rparr> in
       case (p, tool) of
         (None, Some t) \<Rightarrow> (case replace_last (fst t) history of
             Inl e \<Rightarrow> (s1, cancelled, evs, Some e)
           | Inr h \<Rightarrow> (case gemini_tool X t of (evs', p') \<Rightarrow> (s\<lparr>as_messages := h\<rparr>, cancelled, evs @ evs', p')))
       | _ \<Rightarrow> (s1, cancelled, evs, p))"

definition gemini_Stream ::
  "ext \<Rightarrow> (gval \<Rightarrow> gval list \<Rightarrow> gem_response list \<times> gval list) \<Rightarrow> gval \<Rightarrow> string \<Rightarrow> ai_session \<Rightarrow> ai_session \<times> bool \<times> backend_run" where
  "gemini_Stream X answer msg hist s = (case load_history X hist s of
      Inl e \<Rightarrow> (s, False, [], Some e) | Inr s' \<Rightarrow> gemini_StreamWithFunctionReturn X answer msg s')"

section \<open>What the model says reaches the user\<close>

text \<open>The state of a new turn, and what it is when the pieces of a text have been delivered: nothing is lost but the
  white space that is cut off behind a code block (\<open>kept\<close>).\<close>

definition new_turn :: "chat_env \<Rightarrow> ChatWrapper \<Rightarrow> bool" where
  "new_turn E w \<longleftrightarrow> working E \<and> \<not> cw_hideThink w \<and> responses w = [] \<and> cw_builder w = [] \<and> \<not> cw_done w \<and> \<not> cw_codeBlock w"

definition delivered :: "string list \<Rightarrow> ChatWrapper \<times> gopanic option \<Rightarrow> bool" where
  "delivered ts r \<longleftrightarrow> snd r = None \<and> concat (map snd (responses (fst r))) = kept False ts \<and>
     (\<exists>n. map fst (responses (fst r)) = replicate n False @ [True])"

text \<open>
  A backend hands text over when every response with plain text becomes one call of the handler, with
  its text and its end mark, and nothing else happens.
\<close>

locale text_backend =
  fixes run :: "'c list \<Rightarrow> backend_run" and plain :: "'c \<Rightarrow> bool" and said :: "'c \<Rightarrow> string" and final :: "'c \<Rightarrow> bool" and arrived :: "'c \<Rightarrow> int"
  assumes hands_over: "list_all plain cs \<Longrightarrow> run cs = (map (\<lambda>c. Chunk (arrived c) (said c) (final c)) cs, None)"
begin

lemma chunks_only: "list_all plain cs \<Longrightarrow> list_all is_chunk (fst (run cs)) \<and> map chunk_text (fst (run cs)) = map said cs"
  by (simp add: hands_over list_all_iff comp_def)

lemma delivers:
  assumes "new_turn E w" and "list_all plain (cs @ [c])" and "final c"
    and "\<not> cw_done (fst (load_each (handle_chat_event E) (fst (run cs)) w))"
    and "\<not> cw_codeBlock (fst (load_each (handle_chat_event E) (fst (run (cs @ [c]))) w))" and "\<not> cw_inlineCode (fst (load_each (handle_chat_event E) (fst (run (cs @ [c]))) w))"
  shows "delivered (map said (cs @ [c])) (load_each (handle_chat_event E) (fst (run (cs @ [c]))) w)"
proof -
  let ?r = "load_each (handle_chat_event E) (fst (run cs)) w"
  have plain: "list_all plain cs" "plain c" using assms(2) by simp_all
  have evs: "fst (run (cs @ [c])) = fst (run cs) @ [Chunk (arrived c) (said c) True]"
    using hands_over [OF assms(2)] hands_over [OF plain(1)] assms(3) by simp
  have none: "snd ?r = None"
    using stream_relays [of E "fst (run cs)" w] chunks_only [OF plain(1)] assms(1) by (simp add: new_turn_def relays_def)
  have split: "load_each f (xs @ [x]) st = lseq (load_each f xs) (f x) st" for f :: "chat_event \<Rightarrow> chat" and xs x st
    by (induction xs arbitrary: st) (auto simp: lseq_def split: prod.splits option.splits)
  obtain w' p where last: "streamHandler E (arrived c) (said c) True (fst ?r) = (w', p)" by (cases "streamHandler E (arrived c) (said c) True (fst ?r)")
  have all: "load_each (handle_chat_event E) (fst (run (cs @ [c]))) w = (w', p)"
    unfolding evs split using none last by (cases ?r) (simp add: lseq_def)
  have "p = None \<and> concat (map snd (responses w')) = kept False (map chunk_text (fst (run cs)) @ [said c]) \<and>
      (\<exists>n. map fst (responses w') = replicate n False @ [True])"
    using turn_delivered [OF _ _ _ _ _ _ _ assms(4) last] assms(1,5,6) chunks_only [OF plain(1)] by (simp add: new_turn_def all)
  then show ?thesis using chunks_only [OF plain(1)] by (simp add: delivered_def all)
qed

end

definition openai_plain :: "openai_chunk \<Rightarrow> bool" where
  "openai_plain c \<longleftrightarrow> oc_tool c = None \<and> oc_refusal c = None"

lemma openai_plain_run: "list_all openai_plain cs \<Longrightarrow> openai_chunks X cs = (map (\<lambda>c. Chunk (oc_time c) (oc_text c) (oc_finished c)) cs, None)"
  by (induction cs) (simp_all add: openai_plain_def)

interpretation oa: text_backend "openai_chunks X" openai_plain oc_text oc_finished oc_time
  by unfold_locales (rule openai_plain_run)

definition ollama_run :: "ext \<Rightarrow> ollama_response list \<Rightarrow> backend_run" where
  "ollama_run X rs = snd (ollama_StreamWithFunctionReturn X (\<lambda>_. (rs, None)) GNil
     \<lparr>as_model = [], as_temperature = None, as_tools = [], as_streaming = True, as_client = [], as_messages = []\<rparr>)"

definition ollama_plain :: "ollama_response \<Rightarrow> bool" where
  "ollama_plain r \<longleftrightarrow> or_calls r = None"

lemma ollama_plain_run:
  "list_all ollama_plain rs \<Longrightarrow> ollama_responses rs = (map or_message rs, map (\<lambda>r. Chunk (or_time r) (or_content r) (or_done r)) rs, None)"
  by (induction rs) (simp_all add: ollama_plain_def)

interpretation ol: text_backend "ollama_run X" ollama_plain or_content or_done or_time
  by unfold_locales (simp add: ollama_run_def ollama_StreamWithFunctionReturn_def send_messages_def ollama_plain_run Let_def)

definition gemini_run :: "ext \<Rightarrow> gem_response list \<Rightarrow> backend_run" where
  "gemini_run X rs = snd (snd (gemini_StreamWithFunctionReturn X (\<lambda>_ _. (rs, [])) GNil
     \<lparr>as_model = [], as_temperature = None, as_tools = [], as_streaming = True, as_client = [], as_messages = []\<rparr>))"

fun gemini_said :: "gem_response \<Rightarrow> string" where
  "gemini_said (GemContent now content (TextPart t # ps) reason) = t"
| "gemini_said _ = []"

fun gemini_final :: "gem_response \<Rightarrow> bool" where
  "gemini_final (GemContent now content parts reason) = (reason \<noteq> [])"
| "gemini_final _ = False"

fun gemini_arrived :: "gem_response \<Rightarrow> int" where
  "gemini_arrived (GemContent now content parts reason) = now"
| "gemini_arrived _ = 0"

fun gemini_plain :: "gem_response \<Rightarrow> bool" where
  "gemini_plain (GemContent now content (TextPart t # ps) reason) = True"
| "gemini_plain _ = False"

lemma gemini_plain_run:
  "list_all gemini_plain rs \<Longrightarrow> gemini_responses rs tool = (map (\<lambda>r. Chunk (gemini_arrived r) (gemini_said r) (gemini_final r)) rs, False, None, tool)"
proof (induction rs)
  case (Cons r rs)
  then show ?case by (cases r rule: gemini_plain.cases) auto
qed simp

interpretation gm: text_backend "gemini_run X" gemini_plain gemini_said gemini_final gemini_arrived
  by unfold_locales (simp add: gemini_run_def gemini_StreamWithFunctionReturn_def gemini_plain_run Let_def)

text \<open>
  Whatever an OpenAI model streams as plain text is what the user gets: the pieces in the cache are the
  text of the chunks, white space behind code blocks apart, and exactly the last carries the end mark, if
  the other drivers answer, the thoughts are shown, the turn is not cancelled, the last chunk ends the
  content and the text does not end inside code.
\<close>

theorem openai_delivers:
  assumes "new_turn E w" and "list_all openai_plain (cs @ [c])" and "oc_finished c"
    and "\<not> cw_done (fst (load_each (handle_chat_event E) (fst (openai_chunks X cs)) w))"
    and "\<not> cw_codeBlock (fst (load_each (handle_chat_event E) (fst (openai_chunks X (cs @ [c]))) w))"
    and "\<not> cw_inlineCode (fst (load_each (handle_chat_event E) (fst (openai_chunks X (cs @ [c]))) w))"
  shows "delivered (map oc_text (cs @ [c])) (load_each (handle_chat_event E) (fst (openai_chunks X (cs @ [c]))) w)"
  using assms by (rule oa.delivers)

text \<open>The same for the responses of an Ollama model that calls no tool.\<close>

theorem ollama_delivers:
  assumes "new_turn E w" and "list_all ollama_plain (rs @ [r])" and "or_done r"
    and "\<not> cw_done (fst (load_each (handle_chat_event E) (fst (ollama_run X rs)) w))"
    and "\<not> cw_codeBlock (fst (load_each (handle_chat_event E) (fst (ollama_run X (rs @ [r]))) w))"
    and "\<not> cw_inlineCode (fst (load_each (handle_chat_event E) (fst (ollama_run X (rs @ [r]))) w))"
  shows "delivered (map or_content (rs @ [r])) (load_each (handle_chat_event E) (fst (ollama_run X (rs @ [r]))) w)"
  using assms by (rule ol.delivers)

text \<open>The same for a Gemini model whose responses have a text in their first part.\<close>

theorem gemini_delivers:
  assumes "new_turn E w" and "list_all gemini_plain (rs @ [r])" and "gemini_final r"
    and "\<not> cw_done (fst (load_each (handle_chat_event E) (fst (gemini_run X rs)) w))"
    and "\<not> cw_codeBlock (fst (load_each (handle_chat_event E) (fst (gemini_run X (rs @ [r]))) w))"
    and "\<not> cw_inlineCode (fst (load_each (handle_chat_event E) (fst (gemini_run X (rs @ [r]))) w))"
  shows "delivered (map gemini_said (rs @ [r])) (load_each (handle_chat_event E) (fst (gemini_run X (rs @ [r]))) w)"
  using assms by (rule gm.delivers)

section \<open>Behaviour at the edges\<close>

text \<open>
  A session of OpenAI does not keep the message of the model that asks for a tool: the request with the
  result of the tool has the earlier messages and the result, and no call that it answers.
\<close>

theorem openai_forgets_call:
  assumes "openai_StreamWithFunctionReturn X streamer completion msg s = (s1, [ToolCall json args name callID], None)" and "as_streaming s"
  shows "openai_StreamWithFunctionReturn X streamer' completion' ret s1 =
    (s1\<lparr>as_messages := as_messages s @ [msg, ret]\<rparr>, openai_chunks X (streamer' (as_messages s @ [msg, ret])))"
  using assms by (auto simp: openai_StreamWithFunctionReturn_def send_messages_def Let_def)

text \<open>A session of Ollama keeps it.\<close>

theorem ollama_keeps_call:
  assumes "answer (as_messages s @ [msg]) = (rs @ r # rest, None)" and "list_all ollama_plain rs" and "or_calls r = Some ((name, args) # calls)"
    and "ext_json_marshal X (or_message r) = Inr json"
  shows "ollama_StreamWithFunctionReturn X answer msg s = (s\<lparr>as_messages := as_messages s @ [msg] @ map or_message rs @ [or_message r]\<rparr>,
    map (\<lambda>r. Chunk (or_time r) (or_content r) (or_done r)) rs @ [ToolCall json (GMap args) name []], None)"
proof -
  have "ollama_responses (rs @ r # rest) = (map or_message rs @ [or_message r], map (\<lambda>r. Chunk (or_time r) (or_content r) (or_done r)) rs, Some r)"
    using assms(2,3) by (induction rs) (simp_all add: ollama_plain_def)
  then show ?thesis using assms(1,3,4) by (simp add: ollama_StreamWithFunctionReturn_def send_messages_def Let_def ollama_tool_def)
qed

text \<open>A stream of OpenAI that breaks off is not noticed: no call of the handler has the end mark, and nothing panics.\<close>

theorem openai_break_unmarked:
  assumes "list_all openai_plain cs" and "list_all (\<lambda>c. \<not> oc_finished c) cs"
  shows "snd (openai_chunks X cs) = None \<and> list_all (\<lambda>ev. case ev of Chunk now t d \<Rightarrow> \<not> d | _ \<Rightarrow> False) (fst (openai_chunks X cs))"
  using assms by (simp add: openai_plain_run list_all_iff)

text \<open>A broken stream of Gemini, or a response without parts, cancels the turn.\<close>

theorem gemini_break_cancels:
  assumes "list_all gemini_plain rs" and "r \<in> {GemError e, GemContent now content [] reason}"
  shows "gemini_responses (rs @ r # rest) None = (map (\<lambda>r. Chunk (gemini_arrived r) (gemini_said r) (gemini_final r)) rs, True, None, None)"
  using assms(1)
proof (induction rs)
  case Nil
  from assms(2) show ?case by auto
next
  case (Cons q rs)
  then show ?case by (cases q rule: gemini_plain.cases) auto
qed

section \<open>Witnesses\<close>

definition hello_chunks :: "openai_chunk list" where
  "hello_chunks = [\<lparr>oc_time = 1, oc_tool = None, oc_refusal = None, oc_finished = False, oc_text = ''Hi ''\<rparr>]"

definition there_chunk :: openai_chunk where
  "there_chunk = \<lparr>oc_time = 2, oc_tool = None, oc_refusal = None, oc_finished = True, oc_text = ''there''\<rparr>"

lemma sample_new_turn: "new_turn sample_chat sample_wrapper"
  using sample_chat_works sample_wrapper_facts by (simp add: new_turn_def)

theorem openai_delivers_witness:
  "delivered [''Hi '', ''there''] (load_each (handle_chat_event sample_chat) (fst (openai_chunks no_ext (hello_chunks @ [there_chunk]))) sample_wrapper)"
proof -
  have "list_all openai_plain (hello_chunks @ [there_chunk])" "oc_finished there_chunk"
    "\<not> cw_done (fst (load_each (handle_chat_event sample_chat) (fst (openai_chunks no_ext hello_chunks)) sample_wrapper))"
    "\<not> cw_codeBlock (fst (load_each (handle_chat_event sample_chat) (fst (openai_chunks no_ext (hello_chunks @ [there_chunk]))) sample_wrapper))"
    "\<not> cw_inlineCode (fst (load_each (handle_chat_event sample_chat) (fst (openai_chunks no_ext (hello_chunks @ [there_chunk]))) sample_wrapper))"
    by code_simp+
  from openai_delivers [OF sample_new_turn this] show ?thesis by (simp add: hello_chunks_def there_chunk_def)
qed

definition there_response :: ollama_response where
  "there_response = \<lparr>or_time = 2, or_message = GNil, or_content = ''there'', or_calls = None, or_done = True\<rparr>"

theorem ollama_delivers_witness:
  "delivered [''there''] (load_each (handle_chat_event sample_chat) (fst (ollama_run no_ext [there_response])) sample_wrapper)"
proof -
  have "list_all ollama_plain ([] @ [there_response])" "or_done there_response"
    "\<not> cw_done (fst (load_each (handle_chat_event sample_chat) (fst (ollama_run no_ext [])) sample_wrapper))"
    "\<not> cw_codeBlock (fst (load_each (handle_chat_event sample_chat) (fst (ollama_run no_ext ([] @ [there_response]))) sample_wrapper))"
    "\<not> cw_inlineCode (fst (load_each (handle_chat_event sample_chat) (fst (ollama_run no_ext ([] @ [there_response]))) sample_wrapper))"
    by code_simp+
  from ollama_delivers [OF sample_new_turn this] show ?thesis by (simp add: there_response_def)
qed

definition there_content :: gem_response where
  "there_content = GemContent 2 GNil [TextPart ''there''] ''STOP''"

theorem gemini_delivers_witness:
  "delivered [''there''] (load_each (handle_chat_event sample_chat) (fst (gemini_run no_ext [there_content])) sample_wrapper)"
proof -
  have "list_all gemini_plain ([] @ [there_content])" "gemini_final there_content"
    "\<not> cw_done (fst (load_each (handle_chat_event sample_chat) (fst (gemini_run no_ext [])) sample_wrapper))"
    "\<not> cw_codeBlock (fst (load_each (handle_chat_event sample_chat) (fst (gemini_run no_ext ([] @ [there_content]))) sample_wrapper))"
    "\<not> cw_inlineCode (fst (load_each (handle_chat_event sample_chat) (fst (gemini_run no_ext ([] @ [there_content]))) sample_wrapper))"
    by code_simp+
  from gemini_delivers [OF sample_new_turn this] show ?thesis by (simp add: there_content_def)
qed

definition plain_session :: ai_session where
  "plain_session = \<lparr>as_model = ''m'', as_temperature = None, as_tools = [], as_streaming = True, as_client = [], as_messages = []\<rparr>"

definition object_ext :: ext where
  "object_ext = no_ext\<lparr>ext_json_unmarshal := (\<lambda>_. Inr (GMap []))\<rparr>"

definition tool_chunk :: openai_chunk where
  "tool_chunk = \<lparr>oc_time = 2, oc_tool = Some (''{}'', ''{}'', ''t'', ''1''), oc_refusal = None, oc_finished = False, oc_text = []\<rparr>"

theorem openai_forgets_call_witness:
  "openai_StreamWithFunctionReturn object_ext (\<lambda>_. hello_chunks) (\<lambda>_. (0, Inr [])) (GStr ''result'') (plain_session\<lparr>as_messages := [GStr ''ask'']\<rparr>) =
    (plain_session\<lparr>as_messages := [GStr ''ask'', GStr ''result'']\<rparr>, openai_chunks object_ext hello_chunks)"
proof -
  have "openai_StreamWithFunctionReturn object_ext (\<lambda>_. [tool_chunk]) (\<lambda>_. (0, Inr [])) (GStr ''ask'') plain_session =
      (plain_session\<lparr>as_messages := [GStr ''ask'']\<rparr>, [ToolCall ''{}'' (GMap []) ''t'' ''1''], None)" by code_simp
  moreover have "as_streaming plain_session" by (simp add: plain_session_def)
  ultimately show ?thesis
    using openai_forgets_call [of object_ext "\<lambda>_. [tool_chunk]" "\<lambda>_. (0, Inr [])" "GStr ''ask''" plain_session _ "''{}''" "GMap []" "''t''" "''1''" "\<lambda>_. hello_chunks" "\<lambda>_. (0, Inr [])" "GStr ''result''"]
    by (simp add: plain_session_def)
qed

theorem ollama_keeps_call_witness:
  "ollama_StreamWithFunctionReturn no_ext (\<lambda>_. ([there_response\<lparr>or_calls := Some [(''t'', [])]\<rparr>], None)) (GStr ''ask'') plain_session =
    (plain_session\<lparr>as_messages := [GStr ''ask'', GNil]\<rparr>, [ToolCall ''{}'' (GMap []) ''t'' []], None)"
  using ollama_keeps_call [of "\<lambda>_. ([there_response\<lparr>or_calls := Some [(''t'', [])]\<rparr>], None)" plain_session "GStr ''ask''" "[]" "there_response\<lparr>or_calls := Some [(''t'', [])]\<rparr>" "[]" "''t''" "[]" "[]" no_ext "''{}''"]
  by (simp add: there_response_def plain_session_def no_ext_def)

theorem openai_break_unmarked_witness:
  "snd (openai_chunks no_ext hello_chunks) = None"
  using openai_break_unmarked [of hello_chunks no_ext] by (simp add: hello_chunks_def openai_plain_def)

theorem gemini_break_cancels_witness:
  "gemini_responses [there_content, GemError ''reset''] None = ([Chunk 2 ''there'' True], True, None, None)"
  using gemini_break_cancels [of "[there_content]" "GemError ''reset''" "''reset''" 0 GNil "[]" "[]"] by (simp add: there_content_def)

end
