(* ===== verification/Secrets.thy ===== *)
theory Secrets
  imports Handlers Interpolation DriverProcess
begin

text \<open>
  The drivers that resolve the secrets of a configuration: \<open>gcloud-secret\<close> and \<open>gcloud-kms\<close>, \<open>hd-driver-vault\<close>, all under
  \<open>drivers/cmd\<close>, and how the \<open>ENC\<close> and \<open>LOOKUP\<close> strings of theory \<open>Interpolation\<close> reach them.

  The services behind the drivers and their client libraries are parameters; the pool of clients of \<open>gcloud-secret\<close>
  is what \<open>sm_client\<close> says of the next client. Warnings in the log are left out.
\<close>

section \<open>Requests with bytes\<close>

definition raw_request :: "Message \<Rightarrow> string option" where
  "raw_request m = (case Payload m of PRaw b \<Rightarrow> Some b | _ \<Rightarrow> None)"

definition raw_answer :: "string \<Rightarrow> Message" where
  "raw_answer b = zero_message\<lparr>Payload := PRaw b, IsRaw := True\<rparr>"

section \<open>Secret manager\<close>

definition ErrSecretNameMissing :: gopanic where "ErrSecretNameMissing = PanicErr ''secret name not supplied''"
definition ErrSecretNameInvalid :: gopanic where "ErrSecretNameInvalid = PanicErr ''secret name not valid''"

record secret_manager =
  sm_client :: "gopanic option"
  sm_access :: "string \<Rightarrow> string res"

definition secret_loadOptions :: "ext \<Rightarrow> Driver \<Rightarrow> int res" where
  "secret_loadOptions X d = (case GetOptionStr d ''data.clientTTL'' of
      Some s \<Rightarrow> (case ext_parse_duration X s of None \<Rightarrow> Inl (PanicErr ''time: invalid duration'') | Some t \<Rightarrow> Inr t)
    | None \<Rightarrow> Inr (second * 60))"

definition full_name :: "string \<Rightarrow> string \<Rightarrow> string \<Rightarrow> string" where
  "full_name project secret version = ''projects/'' @ project @ ''/secrets/'' @ secret @ ''/versions/'' @ version"

definition secret_name :: "string \<Rightarrow> string res" where
  "secret_name name = (case split_on CHR ''/'' name of
      [a, project, b, secret, c, version] \<Rightarrow>
        if a \<noteq> ''projects'' \<or> b \<noteq> ''secrets'' \<or> c \<noteq> ''versions'' then Inl ErrSecretNameInvalid else Inr name
    | [project, secret] \<Rightarrow> Inr (full_name project secret ''latest'')
    | [project, secret, version] \<Rightarrow> Inr (full_name project secret version)
    | _ \<Rightarrow> Inl ErrSecretNameInvalid)"

definition secret_lookup :: "secret_manager \<Rightarrow> Message \<Rightarrow> unit handled" where
  "secret_lookup M msg = (case raw_request msg of
      None \<Rightarrow> failed () ErrSecretNameMissing
    | Some query \<Rightarrow> with_value () (rbind (secret_name query) (\<lambda>name.
        case sm_client M of Some e \<Rightarrow> Inl e | None \<Rightarrow> sm_access M name)) (\<lambda>b. answer_with () (raw_answer b)))"

section \<open>Key management\<close>

definition ErrKeyNameMissing :: gopanic where "ErrKeyNameMissing = PanicErr ''key name not configured''"

definition kms_decrypt :: "(string \<Rightarrow> string \<Rightarrow> string res) \<Rightarrow> Driver \<Rightarrow> Message \<Rightarrow> unit handled" where
  "kms_decrypt decrypt d msg = with_value ()
    (rbind (case GetOptionStr d ''data.keyname'' of None \<Rightarrow> Inl ErrKeyNameMissing | Some n \<Rightarrow> Inr n) (\<lambda>name.
     rbind (assert_type (raw_request msg)) (decrypt name))) (\<lambda>b. answer_with () (raw_answer b))"

section \<open>Vault\<close>

text \<open>\<open>strings.SplitN(s, sub, 2)\<close>: the parts around the first occurrence, if there is one.\<close>

fun cut_sub :: "string \<Rightarrow> string \<Rightarrow> (string \<times> string) option" where
  "cut_sub sub [] = None"
| "cut_sub sub (c # s) =
     (if has_prefix (c # s) sub then Some ([], drop (length sub) (c # s)) else map_option (\<lambda>(a, b). (c # a, b)) (cut_sub sub s))"

record vault_server =
  vs_addr :: string
  vs_token :: string
  vs_k8sRole :: string

definition vault_server_of :: "gval \<Rightarrow> string \<Rightarrow> vault_server res" where
  "vault_server_of options prefix = rmap (\<lambda>addr. \<lparr>vs_addr = addr,
      vs_token = (case GetMapDataStr options (prefix @ ''token'') of None \<Rightarrow> [] | Some t \<Rightarrow> t),
      vs_k8sRole = (case GetMapDataStr options (prefix @ ''k8sRole'') of None \<Rightarrow> [] | Some r \<Rightarrow> r)\<rparr>)
    (MustGetMapDataStr options (prefix @ ''addr''))"

record vault_query =
  vq_mount :: string
  vq_path :: string
  vq_key :: string
  vq_version :: int

text \<open>The query without the server: \<open>mount/data/path#key\<close>, and an optional version after an at sign.\<close>

definition parse_query :: "string \<Rightarrow> vault_query res" where
  "parse_query query =
    rbind (case cut_sub ''@'' query of
        None \<Rightarrow> Inr (query, - 1)
      | Some (rest, v) \<Rightarrow> (case atoi v of None \<Rightarrow> Inl (PanicErr ''strconv.Atoi'') | Some n \<Rightarrow> Inr (rest, n))) (\<lambda>(rest, version).
    case cut_sub ''#'' rest of
      None \<Rightarrow> Inl IndexOutOfRange
    | Some (full, key) \<Rightarrow> (case cut_sub ''/data/'' full of
        None \<Rightarrow> Inl IndexOutOfRange
      | Some (mount, path) \<Rightarrow> Inr \<lparr>vq_mount = mount, vq_path = path, vq_key = key, vq_version = version\<rparr>))"

record vault =
  va_client :: "string \<Rightarrow> gopanic option"
  va_login :: "string \<Rightarrow> gopanic option"
  va_get :: "string \<Rightarrow> string \<Rightarrow> int option \<Rightarrow> gmap res"

definition vault_value :: "vault \<Rightarrow> vault_server \<Rightarrow> vault_query \<Rightarrow> string res" where
  "vault_value V s q = (case va_client V (vs_addr s) of
      Some e \<Rightarrow> Inl e
    | None \<Rightarrow> (case (if vs_k8sRole s \<noteq> [] then va_login V (vs_k8sRole s) else None) of
        Some e \<Rightarrow> Inl e
      | None \<Rightarrow> rbind (va_get V (vq_mount q) (vq_path q) (if vq_version q \<ge> 0 then Some (vq_version q) else None)) (\<lambda>data.
          case map_of data (vq_key q) of
            None \<Rightarrow> Inl (PanicErr ''secret key not found in the secret'')
          | Some v \<Rightarrow> assert_type (as_str v))))"

definition vault_lookup :: "vault \<Rightarrow> gval \<Rightarrow> Message \<Rightarrow> unit handled" where
  "vault_lookup V options msg = with_value ()
    (rbind (assert_type (raw_request msg)) (\<lambda>query.
     rbind (case cut_sub '':'' query of
         Some (server, q) \<Rightarrow> rmap (Pair q) (vault_server_of options (''data.'' @ server @ ''.''))
       | None \<Rightarrow> rmap (Pair query) (vault_server_of options ''data.'')) (\<lambda>(q, server).
     rbind (parse_query q) (vault_value V server)))) (\<lambda>b. answer_with () (raw_answer b))"

section \<open>Properties\<close>

lemma cut_sub_first:
  "sub \<noteq> [] \<Longrightarrow> \<not> contains (a @ butlast sub) sub \<Longrightarrow> cut_sub sub (a @ sub @ b) = Some (a, b)"
proof (induction a)
  case Nil
  then show ?case by (cases sub) (simp_all add: has_prefix_def)
next
  case (Cons c a)
  have "\<not> has_prefix (c # a @ sub @ b) sub"
  proof
    assume "has_prefix (c # a @ sub @ b) sub"
    moreover have "take (length sub) (c # a @ sub @ b) = take (length sub) (c # a @ butlast sub)"
    proof -
      have "length sub \<le> length (c # a @ butlast sub)" using Cons.prems(1) by (cases sub) simp_all
      moreover have "c # a @ sub @ b = (c # a @ butlast sub) @ last sub # b" using Cons.prems(1) by simp
      ultimately show ?thesis by (metis take_append append_self_conv diff_is_0_eq take0)
    qed
    ultimately have "has_prefix (c # a @ butlast sub) sub" by (simp add: has_prefix_def)
    with Cons.prems(2) show False by simp
  qed
  then show ?case using Cons by simp
qed

lemma contains_char: "contains s [c] \<longleftrightarrow> c \<in> set s"
  by (induction s) (auto simp: has_prefix_def)

lemma cut_sub_none: "sub \<noteq> [] \<Longrightarrow> \<not> contains s sub \<Longrightarrow> cut_sub sub s = None"
  by (induction s) simp_all

lemma cut_char: "c \<notin> set a \<Longrightarrow> cut_sub [c] (a @ c # b) = Some (a, b)" "c \<notin> set a \<Longrightarrow> cut_sub [c] a = None"
  using cut_sub_first [of "[c]" a b] by (simp_all add: contains_char cut_sub_none)

text \<open>How a query is written.\<close>

definition print_query :: "vault_query \<Rightarrow> string" where
  "print_query q = vq_mount q @ ''/data/'' @ vq_path q @ ''#'' @ vq_key q @ (if vq_version q \<ge> 0 then ''@'' @ itoa (vq_version q) else [])"

definition query_ok :: "vault_query \<Rightarrow> bool" where
  "query_ok q \<longleftrightarrow> set (vq_mount q @ vq_path q) \<inter> {CHR ''#'', CHR ''@''} = {} \<and> CHR ''@'' \<notin> set (vq_key q) \<and>
     \<not> contains (vq_mount q @ ''/data'') ''/data/'' \<and> - 1 \<le> vq_version q \<and> in_int64 (vq_version q)"

text \<open>
  A query for a secret in Vault is read as it is written: the mount, the path, the key and the version
  come back, and so the secret that is fetched is the one that is named.
\<close>

theorem vault_query_round_trip:
  assumes "query_ok q"
  shows "parse_query (print_query q) = Inr q"
proof -
  let ?full = "vq_mount q @ ''/data/'' @ vq_path q"
  have full: "CHR ''#'' \<notin> set ?full" "CHR ''@'' \<notin> set (?full @ ''#'' @ vq_key q)" using assms by (auto simp: query_ok_def)
  have data: "cut_sub ''/data/'' ?full = Some (vq_mount q, vq_path q)"
    using cut_sub_first [of "''/data/''" "vq_mount q" "vq_path q"] assms by (simp add: query_ok_def)
  have hash: "cut_sub ''#'' (?full @ ''#'' @ vq_key q) = Some (?full, vq_key q)" using cut_char(1) [OF full(1), of "vq_key q"] by simp
  show ?thesis
  proof (cases "vq_version q \<ge> 0")
    case True
    have "cut_sub ''@'' ((?full @ ''#'' @ vq_key q) @ CHR ''@'' # itoa (vq_version q)) = Some (?full @ ''#'' @ vq_key q, itoa (vq_version q))"
      by (rule cut_char(1) [OF full(2)])
    with True data hash assms show ?thesis by (simp add: parse_query_def print_query_def atoi_itoa query_ok_def)
  next
    case False
    with assms have "vq_version q = - 1" by (simp add: query_ok_def)
    moreover have "cut_sub ''@'' (?full @ ''#'' @ vq_key q) = None" by (rule cut_char(2) [OF full(2)])
    ultimately show ?thesis using False data hash by (simp add: parse_query_def print_query_def)
  qed
qed

text \<open>
  How the RPC reaches a driver: \<open>drivers\<close> are the handlers, and the error of the call is dropped, as
  \<open>GetDecryptFunc\<close> does.
\<close>

definition call_driver :: "(string \<Rightarrow> string \<Rightarrow> Message \<Rightarrow> unit handled) \<Rightarrow> string \<Rightarrow> string \<Rightarrow> string \<Rightarrow> string" where
  "call_driver drivers feature meth bytes = (case replies (snd (drivers feature meth (raw_answer bytes))) of
      m # _ \<Rightarrow> (case raw_request m of Some b \<Rightarrow> b | None \<Rightarrow> []) | [] \<Rightarrow> [])"

lemma bracketed_lookup: "CHR '','' \<notin> set dname \<Longrightarrow> bracketed 7 (''LOOKUP['' @ dname @ '','' @ body @ '']'') = Inr (dname, body)"
proof -
  assume "CHR '','' \<notin> set dname"
  then have "\<forall>c \<in> set dname. c \<noteq> CHR '',''" by auto
  then have "split2 (dname @ CHR '','' # body) = (dname, Some body)" by (simp add: split2_def takeWhile_append2 dropWhile_append2)
  moreover have "drop 7 (butlast (''LOOKUP['' @ dname @ '','' @ body @ '']'')) = dname @ CHR '','' # body"
    using butlast_append [of "''LOOKUP['' @ dname @ '','' @ body" "'']''"] by simp
  ultimately show ?thesis by (simp add: bracketed_def)
qed

text \<open>
  A lookup in a configuration is replaced by the secret it names: with a project and a name, by the
  latest version; with the version, by this one. A lookup that fails, for whatever reason, is replaced by the
  empty string.
\<close>

theorem lookup_resolves:
  assumes "drivers ''driver:gcloud-secret'' ''lookup'' = secret_lookup M" and "sm_client M = None"
    and "CHR ''/'' \<notin> set project" and "CHR ''/'' \<notin> set secret" and "CHR ''/'' \<notin> set version"
  shows "GetDecryptFunc X (call_driver drivers) key (GStr (''LOOKUP[gcloud-secret,'' @ project @ ''/'' @ secret @ '']'')) =
      Inr (Some (GStr (case sm_access M (full_name project secret ''latest'') of Inr b \<Rightarrow> b | Inl _ \<Rightarrow> []))) \<and>
    GetDecryptFunc X (call_driver drivers) key (GStr (''LOOKUP[gcloud-secret,'' @ project @ ''/'' @ secret @ ''/'' @ version @ '']'')) =
      Inr (Some (GStr (case sm_access M (full_name project secret version) of Inr b \<Rightarrow> b | Inl _ \<Rightarrow> [])))"
proof -
  have decrypt: "GetDecryptFunc X call key (GStr (''LOOKUP[gcloud-secret,'' @ body @ '']'')) = Inr (Some (GStr (call ''driver:gcloud-secret'' ''lookup'' body)))" for call body
    using bracketed_lookup [of "''gcloud-secret''" body] by (simp add: GetDecryptFunc_def has_prefix_def)
  have call: "call_driver drivers ''driver:gcloud-secret'' ''lookup'' body = (case sm_access M name of Inr b \<Rightarrow> b | Inl _ \<Rightarrow> [])"
    if "secret_name body = Inr name" for body name
    using assms(1,2) that by (simp add: call_driver_def secret_lookup_def raw_answer_def raw_request_def with_value_def answer_with_def failed_def split: sum.split)
  have "secret_name (project @ ''/'' @ secret) = Inr (full_name project secret ''latest'')"
    "secret_name (project @ ''/'' @ secret @ ''/'' @ version) = Inr (full_name project secret version)"
    using assms(3-5) by (simp_all add: secret_name_def split_on_append_sep split_on_no_sep)
  then show ?thesis using decrypt [of "call_driver drivers" "project @ ''/'' @ secret"] decrypt [of "call_driver drivers" "project @ ''/'' @ secret @ ''/'' @ version"] call by simp
qed

section \<open>Witnesses\<close>

definition sample_query :: vault_query where
  "sample_query = \<lparr>vq_mount = ''kv'', vq_path = ''team/db'', vq_key = ''password'', vq_version = 3\<rparr>"

theorem vault_query_round_trip_witness: "parse_query ''kv/data/team/db#password@3'' = Inr sample_query"
proof -
  have "query_ok sample_query" by code_simp
  moreover have "print_query sample_query = ''kv/data/team/db#password@3''" by code_simp
  ultimately show ?thesis using vault_query_round_trip [of sample_query] by simp
qed

definition sample_secrets :: secret_manager where
  "sample_secrets = \<lparr>sm_client = None, sm_access = (\<lambda>name. if name = full_name ''p'' ''s'' ''latest'' then Inr ''x'' else Inl (PanicErr ''no such secret''))\<rparr>"

theorem lookup_resolves_witness:
  "GetDecryptFunc no_ext (call_driver (\<lambda>_ _. secret_lookup sample_secrets)) ''k'' (GStr ''LOOKUP[gcloud-secret,p/s]'') = Inr (Some (GStr ''x'')) \<and>
   GetDecryptFunc no_ext (call_driver (\<lambda>_ _. secret_lookup sample_secrets)) ''k'' (GStr ''LOOKUP[gcloud-secret,p/s/9]'') = Inr (Some (GStr []))"
  using lookup_resolves [of "\<lambda>_ _. secret_lookup sample_secrets" sample_secrets "''p''" "''s''" "''9''" no_ext "''k''"]
  by (simp add: sample_secrets_def full_name_def)

end
