(* ===== verification/Gke.thy ===== *)
theory Gke
  imports Kubernetes
begin

text \<open>
  The driver that tells where a cluster of Google is, \<open>drivers/cmd/gcloud-gke/main.go\<close>, and what the driver of
  theory \<open>Kubernetes\<close> makes of its answer. The services of Google are parameters.
\<close>

section \<open>The driver\<close>

text \<open>
  What is read of a cluster: the endpoint, the certificate, when there is an object for the authentication,
  and the endpoint by DNS with its permission, when there is one.
\<close>

record gke_cluster =
  gk_Endpoint :: string
  gk_CACert :: "string option"
  gk_Dns :: "(string \<times> bool) option"

record gke_service =
  gk_ext :: ext
  gk_token :: "string \<Rightarrow> string res"
  gk_cluster :: "string \<Rightarrow> gke_cluster res"

definition gke_param :: "string \<Rightarrow> gval \<Rightarrow> string \<Rightarrow> string res" where
  "gke_param what params path = (case GetMapDataStr params path of None \<Rightarrow> Inl (PanicErr what) | Some s \<Rightarrow> Inr s)"

definition as_bool :: "gval \<Rightarrow> bool option" where
  "as_bool v = (case v of GBool b \<Rightarrow> Some b | _ \<Rightarrow> None)"

definition cluster_name :: "gval \<Rightarrow> string res" where
  "cluster_name params =
    rbind (gke_param ''project required'' params ''project'') (\<lambda>project.
    rbind (gke_param ''location required'' params ''location'') (\<lambda>location.
    rbind (case GetMapData params ''regional'' of None \<Rightarrow> Inr False | Some v \<Rightarrow> assert_type (as_bool v)) (\<lambda>regional.
    rmap (\<lambda>cluster. ''projects/'' @ project @ (if regional then ''/locations/'' else ''/zones/'') @ location @ ''/clusters/'' @ cluster)
      (gke_param ''cluster required'' params ''cluster''))))"

definition uses_dns :: "gke_cluster \<Rightarrow> bool" where
  "uses_dns c \<longleftrightarrow> (case gk_Dns c of None \<Rightarrow> False | Some (endpoint, allowed) \<Rightarrow> gk_Endpoint c = endpoint \<and> allowed)"

definition kube_cfg :: "gke_cluster \<Rightarrow> string \<Rightarrow> string \<Rightarrow> gval" where
  "kube_cfg c token cacert = GMap [(''Host'', GStr (gk_Endpoint c)), (''Token'', GStr token), (''CACert'', GStr cacert), (''useDNS'', GBool (uses_dns c))]"

definition getKubeCfg :: "gke_service \<Rightarrow> Message \<Rightarrow> unit handled" where
  "getKubeCfg G msg = with_value ()
    (rbind (DeserializePayload (gk_ext G) msg) (\<lambda>m. let params = payload_val m in
     rbind (cluster_name params) (\<lambda>name.
     rbind (gk_token G (case GetMapDataStr params ''service_account'' of None \<Rightarrow> [] | Some s \<Rightarrow> s)) (\<lambda>token.
     rbind (gk_cluster G name) (\<lambda>c. case gk_CACert c of
         None \<Rightarrow> Inl NilDereference
       | Some cacert \<Rightarrow> Inr (zero_message\<lparr>Payload := PVal (kube_cfg c token cacert)\<rparr>))))))
    (answer_with ())"

section \<open>The configuration of the client\<close>

text \<open>The call of the driver over RPC: the parameters are its payload, the answer is its JSON.\<close>

definition call_gke :: "gke_service \<Rightarrow> gmap \<Rightarrow> string + string" where
  "call_gke G cfg = (let run = snd (getKubeCfg G (zero_message\<lparr>Payload := PVal (GMap cfg)\<rparr>)) in
     case replies run of
       m # _ \<Rightarrow> (case ext_json_marshal (gk_ext G) (payload_val m) of Inr bytes \<Rightarrow> Inr bytes | Inl _ \<Rightarrow> Inl ''json'')
     | [] \<Rightarrow> Inl ''driver failed'')"

text \<open>
  The client of a cluster gets the address, the token and the certificate that the service reports
  for exactly the cluster named in the configuration; with access by DNS the address is one for TLS and the
  certificate is left out.
\<close>

theorem gke_config_arrives:
  assumes "ke_gke K = call_gke G" and "ke_ext K = gk_ext G" and "cluster_name (GMap cfg) = Inr name" and "gk_cluster G name = Inr c"
    and "gk_token G (case GetMapDataStr (GMap cfg) ''service_account'' of None \<Rightarrow> [] | Some s \<Rightarrow> s) = Inr token" and "gk_CACert c = Some cacert"
    and "ext_json_marshal (gk_ext G) (kube_cfg c token cacert) = Inr bytes" and "bytes \<noteq> []" and "ext_json_unmarshal (gk_ext G) bytes = Inr (kube_cfg c token cacert)"
  shows "getGKEConfig K cfg = Inr (if uses_dns c
      then \<lparr>rc_Host = (if has_prefix (gk_Endpoint c) ''https://'' then gk_Endpoint c else ''https://'' @ gk_Endpoint c), rc_BearerToken = token, rc_CAData = []\<rparr>
      else \<lparr>rc_Host = gk_Endpoint c, rc_BearerToken = token, rc_CAData = or_empty (ext_base64 (gk_ext G) cacert)\<rparr>)"
proof -
  have "call_gke G cfg = Inr bytes"
    using assms(3-7) by (simp add: call_gke_def getKubeCfg_def DeserializePayload_def payload_val_def zero_message_def answer_with_def Let_def)
  moreover have "GetMapDataStr (kube_cfg c token cacert) ''Host'' = Some (gk_Endpoint c)" "GetMapDataStr (kube_cfg c token cacert) ''Token'' = Some token"
    "GetMapDataStr (kube_cfg c token cacert) ''CACert'' = Some cacert" "fst (GetMapDataBool (kube_cfg c token cacert) ''useDNS'') = uses_dns c"
    by (simp_all add: kube_cfg_def GetMapDataStr_def GetMapData_def GetMapDataBool_def split_on_no_sep)
  ultimately show ?thesis using assms(1,2,8,9)
    by (simp add: getGKEConfig_def DeserializeContent_def or_empty_def Let_def)
qed

section \<open>Witnesses\<close>

definition sample_cluster :: gke_cluster where
  "sample_cluster = \<lparr>gk_Endpoint = ''10.0.0.1'', gk_CACert = Some ''ca'', gk_Dns = None\<rparr>"

definition sample_gke :: gke_service where
  "sample_gke = \<lparr>gk_ext = no_ext\<lparr>ext_json_unmarshal := (\<lambda>_. Inr (kube_cfg sample_cluster ''t'' ''ca''))\<rparr>, gk_token = (\<lambda>_. Inr ''t''), gk_cluster = (\<lambda>_. Inr sample_cluster)\<rparr>"

definition sample_source :: gmap where
  "sample_source = [(''project'', GStr ''p''), (''location'', GStr ''l''), (''cluster'', GStr ''c'')]"

theorem gke_config_arrives_witness:
  "getGKEConfig \<lparr>ke_ext = gk_ext sample_gke, ke_gke = call_gke sample_gke, ke_inCluster = Inl NilDereference, ke_newClient = (\<lambda>_. None)\<rparr> sample_source =
    Inr \<lparr>rc_Host = ''10.0.0.1'', rc_BearerToken = ''t'', rc_CAData = ''ca''\<rparr>"
proof -
  let ?K = "\<lparr>ke_ext = gk_ext sample_gke, ke_gke = call_gke sample_gke, ke_inCluster = Inl NilDereference, ke_newClient = (\<lambda>_. None)\<rparr>"
  have name: "cluster_name (GMap sample_source) = Inr ''projects/p/zones/l/clusters/c''" by code_simp
  have "getGKEConfig ?K sample_source = Inr (if uses_dns sample_cluster
      then \<lparr>rc_Host = (if has_prefix (gk_Endpoint sample_cluster) ''https://'' then gk_Endpoint sample_cluster else ''https://'' @ gk_Endpoint sample_cluster), rc_BearerToken = ''t'', rc_CAData = []\<rparr>
      else \<lparr>rc_Host = gk_Endpoint sample_cluster, rc_BearerToken = ''t'', rc_CAData = or_empty (ext_base64 (gk_ext sample_gke) ''ca'')\<rparr>)"
    by (rule gke_config_arrives [OF _ _ name, where bytes = "''{}''" and cacert = "''ca''"]) (simp_all add: sample_gke_def sample_cluster_def kube_cfg_def no_ext_def)
  then show ?thesis by (simp add: sample_cluster_def uses_dns_def sample_gke_def no_ext_def or_empty_def)
qed

end
