(* ===== verification/Retrieval.thy ===== *)
theory Retrieval
  imports Handlers Condition Config Paths
begin

text \<open>
  Finding the texts of a knowledge base that are related to a question: the driver for embeddings,
  \<open>drivers/cmd/hd-driver-embeddings\<close> (\<open>main.go\<close> and \<open>ollama.go\<close>), and the two drivers that search with them,
  \<open>hd-driver-qdrant\<close> and \<open>gcloud-vectorsearch\<close>.

  The models, the search services and the Redis server are parameters; \<open>rt_embed\<close> is the call of the embeddings
  driver over RPC, and \<open>rt_float32\<close> the rounding to 32 bits.
\<close>

section \<open>Embeddings\<close>

definition vector_val :: "rat list \<Rightarrow> gval" where
  "vector_val v = GList (map GFloat v)"

definition embeddings_reply :: "rat list list \<Rightarrow> Message" where
  "embeddings_reply vs = zero_message\<lparr>Payload := PVal (GMap [(''embeddings'', GList (map vector_val vs))])\<rparr>"

definition questions_of :: "gval \<Rightarrow> gval list res" where
  "questions_of payload = rbind (MustGetMapData payload ''questions'') (\<lambda>q. assert_type (as_list q))"

text \<open>All questions are the parts of one content; \<open>emb\<close> is the call of the model with the project, the location and the account.\<close>

definition vertexAI :: "ext \<Rightarrow> (string \<Rightarrow> string \<Rightarrow> string \<Rightarrow> string list \<Rightarrow> rat list list res) \<Rightarrow> gval \<Rightarrow> Message \<Rightarrow> unit handled" where
  "vertexAI X emb options msg = with_value ()
    (rbind (DeserializePayload X msg) (\<lambda>m. rbind (questions_of (payload_val m)) (\<lambda>qs.
     rbind (rmapM (\<lambda>q. assert_type (as_str q)) qs) (\<lambda>parts.
     rbind (MustGetMapDataStr options ''data.vertex-ai.project'') (\<lambda>project. rbind (MustGetMapDataStr options ''data.vertex-ai.location'') (\<lambda>location.
     emb project location (case GetMapDataStr options ''data.vertex-ai.service_account'' of None \<Rightarrow> [] | Some s \<Rightarrow> s) parts))))))
    (\<lambda>vs. answer_with () (embeddings_reply vs))"

text \<open>One call of the model per question; \<open>client\<close> is the creation of the client for a host.\<close>

definition ollama_embeddings :: "ext \<Rightarrow> (string \<Rightarrow> unit res) \<Rightarrow> (string \<Rightarrow> string \<Rightarrow> rat list res) \<Rightarrow> gval \<Rightarrow> Message \<Rightarrow> unit handled" where
  "ollama_embeddings X client emb options msg = with_value ()
    (rbind (DeserializePayload X msg) (\<lambda>m.
     rbind (client (case GetMapDataStr options ''data.ollama.host'' of None \<Rightarrow> [] | Some h \<Rightarrow> h)) (\<lambda>_.
     rbind (case GetMapDataStr (payload_val m) ''model'' of Some (c # cs) \<Rightarrow> Inr (c # cs) | _ \<Rightarrow> MustGetMapDataStr options ''data.ollama.model'') (\<lambda>model.
     rbind (questions_of (payload_val m)) (rmapM (\<lambda>q. rbind (assert_type (as_str q)) (emb model)))))))
    (\<lambda>vs. answer_with () (embeddings_reply vs))"

section \<open>The question\<close>

record retrieval =
  rt_ext :: ext
  rt_embed :: "string \<Rightarrow> gval \<Rightarrow> string + string"
  rt_float32 :: "rat \<Rightarrow> rat"

text \<open>The embedding of the question: the first of the list in the answer, with every number rounded.\<close>

definition first_vector :: "gval \<Rightarrow> gval list res" where
  "first_vector v = rbind (assert_type (as_map v)) (\<lambda>m.
     rbind (assert_type (Option.bind (map_of m ''embeddings'') as_list)) (\<lambda>vs. case vs of
         [] \<Rightarrow> Inl IndexOutOfRange
       | x # _ \<Rightarrow> assert_type (as_list x)))"

definition question_vector :: "retrieval \<Rightarrow> string \<Rightarrow> string \<Rightarrow> string \<Rightarrow> rat list res" where
  "question_vector R meth model question =
    (case rt_embed R meth (GMap [(''model'', GStr model), (''questions'', GList [GStr question])]) of
      Inl e \<Rightarrow> Inl (PanicErr e)
    | Inr bytes \<Rightarrow> rbind (DeserializeContent (rt_ext R) bytes) (\<lambda>v. rbind (first_vector v) (\<lambda>xs.
        rmap (map (rt_float32 R)) (rmapM (\<lambda>x. assert_type (case x of GFloat q \<Rightarrow> Some q | _ \<Rightarrow> None)) xs))))"

definition kb_option :: "string \<Rightarrow> string \<Rightarrow> string" where
  "kb_option kb name = ''data.knowledge_base.'' @ kb @ ''.'' @ name"

definition info_val :: "string \<times> string \<Rightarrow> gval" where
  "info_val i = GMap [(''text'', GStr (fst i)), (''url'', GStr (snd i))]"

definition related_reply :: "(string \<times> string) list \<Rightarrow> Message" where
  "related_reply infos = zero_message\<lparr>Payload := PVal (GMap [(''related_info'', GList (map info_val infos))])\<rparr>"

definition kb_request :: "retrieval \<Rightarrow> Message \<Rightarrow> (string \<times> string) res" where
  "kb_request R msg = rbind (DeserializePayload (rt_ext R) msg) (\<lambda>m. rbind (MustGetMapDataStr (payload_val m) ''question'') (\<lambda>question.
     rmap (Pair question) (MustGetMapDataStr (payload_val m) ''knowledge_base'')))"

definition model_option :: "gval \<Rightarrow> string \<Rightarrow> string" where
  "model_option options kb = (case GetMapDataStr options (kb_option kb ''embedding_model'') of None \<Rightarrow> [] | Some m \<Rightarrow> m)"

section \<open>Qdrant\<close>

text \<open>\<open>GetStringValue\<close> of a field that is not there, or no string, is empty.\<close>

definition point_field :: "gmap \<Rightarrow> string \<Rightarrow> string" where
  "point_field p name = (case map_of p name of Some (GStr s) \<Rightarrow> s | _ \<Rightarrow> [])"

definition qdrant_query :: "retrieval \<Rightarrow> (string \<Rightarrow> int \<Rightarrow> string \<Rightarrow> rat list \<Rightarrow> nat \<Rightarrow> gmap list res) \<Rightarrow> gval \<Rightarrow> Message \<Rightarrow> unit handled" where
  "qdrant_query R search options msg = with_value ()
    (rbind (kb_request R msg) (\<lambda>(question, kb).
     rbind (MustGetMapDataStr options (kb_option kb ''host'')) (\<lambda>host. rbind (MustGetMapDataInt options (kb_option kb ''port'')) (\<lambda>port.
     rbind (MustGetMapDataStr options (kb_option kb ''collection'')) (\<lambda>collection. rbind (MustGetMapDataStr options (kb_option kb ''embedding_method'')) (\<lambda>meth.
     rbind (question_vector R meth (model_option options kb) question) (\<lambda>values. search host port collection values 5)))))))
    (\<lambda>points. answer_with () (related_reply (map (\<lambda>p. (point_field p ''text'', point_field p ''url'')) points)))"

section \<open>Vector search\<close>

text \<open>
  \<open>index\<close> is the public name of the index endpoint, \<open>neighbors\<close> the lists of IDs that the match service returns for
  the queries, \<open>get\<close> a read of the Redis server.
\<close>

record vector_search =
  vx_index :: "string \<Rightarrow> string \<Rightarrow> string \<Rightarrow> string res"
  vx_neighbors :: "string \<Rightarrow> string \<Rightarrow> string \<Rightarrow> rat list \<Rightarrow> string list list res"
  vx_get :: "string \<Rightarrow> string res"

definition neighbor_info :: "vector_search \<Rightarrow> string \<Rightarrow> string \<Rightarrow> (string \<times> string) res" where
  "neighbor_info V prefix datapoint = rbind (vx_get V (path_Join (path_Join prefix datapoint) ''text'')) (\<lambda>t.
     rmap (Pair t) (vx_get V (path_Join (path_Join prefix datapoint) ''url'')))"

definition vectorsearch_query :: "retrieval \<Rightarrow> vector_search \<Rightarrow> gval \<Rightarrow> Message \<Rightarrow> unit handled" where
  "vectorsearch_query R V options msg = with_value ()
    (rbind (kb_request R msg) (\<lambda>(question, kb).
     rbind (MustGetMapDataStr options (kb_option kb ''location'')) (\<lambda>location. rbind (MustGetMapDataStr options (kb_option kb ''index_endpoint'')) (\<lambda>idxeName.
     rbind (MustGetMapDataStr options (kb_option kb ''deployed_index_id'')) (\<lambda>didxID. rbind (MustGetMapDataStr options (kb_option kb ''redis_prefix'')) (\<lambda>redisPrefix.
     rbind (MustGetMapDataStr options (kb_option kb ''embedding_method'')) (\<lambda>meth.
     rbind (question_vector R meth (model_option options kb) question) (\<lambda>values.
     rbind (vx_index V (case GetMapDataStr options (kb_option kb ''service_account'') of None \<Rightarrow> [] | Some s \<Rightarrow> s) location idxeName) (\<lambda>domain.
     rbind (vx_neighbors V (domain @ '':443'') idxeName didxID values) (\<lambda>found. case found of
         [] \<Rightarrow> Inl IndexOutOfRange
       | ns # _ \<Rightarrow> rmapM (neighbor_info V redisPrefix) ns))))))))))
    (\<lambda>infos. answer_with () (related_reply infos))"

section \<open>Properties\<close>

text \<open>The embeddings driver with an Ollama model behind the RPC.\<close>

definition ollama_rpc :: "ext \<Rightarrow> (string \<Rightarrow> unit res) \<Rightarrow> (string \<Rightarrow> string \<Rightarrow> rat list res) \<Rightarrow> gval \<Rightarrow> string \<Rightarrow> gval \<Rightarrow> string + string" where
  "ollama_rpc X client emb options meth params =
    (if meth = ''ollama'' then (case replies (snd (ollama_embeddings X client emb options (zero_message\<lparr>Payload := PVal params\<rparr>))) of
         m # _ \<Rightarrow> (case ext_json_marshal X (payload_val m) of Inr bytes \<Rightarrow> Inr bytes | Inl e \<Rightarrow> Inl ''json'')
       | [] \<Rightarrow> Inl ''driver failed'')
     else Inl ''no handler'')"

lemma floats_back: "rmapM (\<lambda>x. assert_type (case x of GFloat q \<Rightarrow> Some q | _ \<Rightarrow> None)) (map GFloat v) = Inr v"
  by (induction v) simp_all

text \<open>
  The search is made with the embedding of the question. When the embeddings driver runs the model of
  the knowledge base, the numbers the search service gets are those of the model for this question and this
  model, rounded, and nothing is lost on the way over the RPC.
\<close>

theorem question_vector_is_embedding:
  assumes "rt_embed R = ollama_rpc (rt_ext R) client emb options" and "model \<noteq> []"
    and "client (case GetMapDataStr options ''data.ollama.host'' of None \<Rightarrow> [] | Some h \<Rightarrow> h) = Inr ()" and "emb model question = Inr v"
    and "ext_json_marshal (rt_ext R) (payload_val (embeddings_reply [v])) = Inr bytes" and "bytes \<noteq> []"
    and "ext_json_unmarshal (rt_ext R) bytes = Inr (payload_val (embeddings_reply [v]))"
  shows "question_vector R ''ollama'' model question = Inr (map (rt_float32 R) v)"
proof -
  let ?X = "rt_ext R" and ?params = "GMap [(''model'', GStr model), (''questions'', GList [GStr question])]"
  obtain c cs where model: "model = c # cs" using assms(2) by (cases model) auto
  have params: "GetMapDataStr ?params ''model'' = Some (c # cs)" "questions_of ?params = Inr [GStr question]"
    by (simp_all add: model questions_of_def MustGetMapData_def GetMapDataStr_def GetMapData_def split_on_no_sep)
  have "snd (ollama_embeddings ?X client emb options (zero_message\<lparr>Payload := PVal ?params\<rparr>)) = snd (answer_with () (embeddings_reply [v]))"
    using assms(3,4) params by (simp add: ollama_embeddings_def DeserializePayload_def zero_message_def payload_val_def model)
  then have call: "rt_embed R ''ollama'' ?params = Inr bytes" using assms(5) by (simp add: assms(1) ollama_rpc_def answer_with_def)
  have first: "first_vector (payload_val (embeddings_reply [v])) = Inr (map GFloat v)"
    by (simp add: embeddings_reply_def payload_val_def first_vector_def vector_val_def)
  show ?thesis unfolding question_vector_def call using assms(6,7) first by (simp add: DeserializeContent_def floats_back)
qed

text \<open>
  The infos of a search in Redis are those of the neighbours, in their order, each with its text and its
  address; one that is missing in Redis ends the query without an answer.
\<close>

theorem vectorsearch_answer:
  assumes "answered (vectorsearch_query R V options msg) reply"
  shows "\<exists>question kb meth vec prefix domain idx deployed ns rest infos. kb_request R msg = Inr (question, kb) \<and>
    MustGetMapDataStr options (kb_option kb ''redis_prefix'') = Inr prefix \<and> question_vector R meth (model_option options kb) question = Inr vec \<and>
    vx_neighbors V domain idx deployed vec = Inr (ns # rest) \<and> reply = related_reply infos \<and> length infos = length ns \<and>
    (\<forall>i < length ns. vx_get V (path_Join (path_Join prefix (ns ! i)) ''text'') = Inr (fst (infos ! i)) \<and>
      vx_get V (path_Join (path_Join prefix (ns ! i)) ''url'') = Inr (snd (infos ! i)))"
proof -
  from assms obtain question kb meth vec prefix domain idx deployed found infos where
    run: "kb_request R msg = Inr (question, kb)" "MustGetMapDataStr options (kb_option kb ''redis_prefix'') = Inr prefix"
      "question_vector R meth (model_option options kb) question = Inr vec" "vx_neighbors V domain idx deployed vec = Inr found"
    and rest: "(case found of [] \<Rightarrow> Inl IndexOutOfRange | ns # _ \<Rightarrow> rmapM (neighbor_info V prefix) ns) = Inr infos" and reply: "reply = related_reply infos"
    by (auto simp: vectorsearch_query_def with_value_def rbind_Inr_conv split: sum.splits)
  from rest obtain ns more_ns where found: "found = ns # more_ns" and infos: "rmapM (neighbor_info V prefix) ns = Inr infos" by (cases found) auto
  have "vx_get V (path_Join (path_Join prefix (ns ! i)) ''text'') = Inr (fst (infos ! i)) \<and>
      vx_get V (path_Join (path_Join prefix (ns ! i)) ''url'') = Inr (snd (infos ! i))" if "i < length ns" for i
    using rmapM_nth [OF infos that] by (cases "infos ! i") (auto simp: neighbor_info_def rmap_def rbind_Inr_conv)
  then show ?thesis using run reply rmapM_length [OF infos] unfolding found by blast
qed

section \<open>Witnesses\<close>

definition sample_vector :: "rat list" where "sample_vector = [1 / 2, 3]"

definition sample_retrieval :: retrieval where
  "sample_retrieval = (let X = no_ext\<lparr>ext_json_unmarshal := (\<lambda>_. Inr (payload_val (embeddings_reply [sample_vector])))\<rparr> in
     \<lparr>rt_ext = X, rt_embed = ollama_rpc X (\<lambda>_. Inr ()) (\<lambda>_ _. Inr sample_vector) GNil, rt_float32 = id\<rparr>)"

theorem question_vector_is_embedding_witness:
  "question_vector sample_retrieval ''ollama'' ''m'' ''why?'' = Inr sample_vector"
proof -
  have "question_vector sample_retrieval ''ollama'' ''m'' ''why?'' = Inr (map (rt_float32 sample_retrieval) sample_vector)"
    by (rule question_vector_is_embedding [where client = "\<lambda>_. Inr ()" and emb = "\<lambda>_ _. Inr sample_vector" and options = GNil and bytes = "''{}''"])
      (simp_all add: sample_retrieval_def Let_def no_ext_def embeddings_reply_def payload_val_def)
  then show ?thesis by (simp add: sample_retrieval_def Let_def)
qed

definition sample_search :: vector_search where
  "sample_search = \<lparr>vx_index = (\<lambda>_ _ _. Inr ''h''), vx_neighbors = (\<lambda>_ _ _ _. Inr [[''7'']]), vx_get = (\<lambda>key. Inr key)\<rparr>"

definition sample_kb :: gval where
  "sample_kb = GMap [(''data'', GMap [(''knowledge_base'', GMap [(''kb'', GMap [(''location'', GStr ''l''), (''index_endpoint'', GStr ''i''),
     (''deployed_index_id'', GStr ''d''), (''redis_prefix'', GStr ''p''), (''embedding_method'', GStr ''ollama''), (''embedding_model'', GStr ''m'')])])])]"

definition sample_question :: Message where
  "sample_question = zero_message\<lparr>Payload := PVal (GMap [(''question'', GStr ''why?''), (''knowledge_base'', GStr ''kb'')])\<rparr>"

theorem vectorsearch_answer_witness:
  "\<exists>infos. hd (replies (snd (vectorsearch_query sample_retrieval sample_search sample_kb sample_question))) = related_reply infos"
proof -
  let ?run = "vectorsearch_query sample_retrieval sample_search sample_kb sample_question"
  have "snd ?run = \<lparr>replies = [hd (replies (snd ?run))], panics = None, late = False\<rparr>" by code_simp
  then have "answered ?run (hd (replies (snd ?run)))" by (simp add: answered_def)
  from vectorsearch_answer [OF this] show ?thesis by blast
qed

end
