(* ===== verification/Spanner.thy ===== *)
theory Spanner
  imports Handlers Condition Config Command
begin

text \<open>
  The driver for backups of Spanner databases, \<open>drivers/cmd/gcloud-spanner/main.go\<close>.

  The service is a parameter. A backup that has been started is in the map \<open>lro\<close> until it ends or its time is over;
  then the goroutine that waits for it takes it out. The end of an operation is a step of its own: \<open>sp_ended\<close> has the
  results of the operations that have ended. Times are in seconds since the beginning of a day, which the name of the
  day stands beside.
\<close>

section \<open>Operations\<close>

record spanner_env =
  sn_ext :: ext
  sn_client :: "string \<Rightarrow> bool"

text \<open>A request to create a backup: parent, ID, database, and the time it expires, in nanoseconds from now on.\<close>

record backup_request =
  br_Parent :: string
  br_BackupId :: string
  br_Database :: string
  br_Expires :: int
  br_Timeout :: int

text \<open>An operation is known by its number.\<close>

record spanner =
  sp_ops :: "backup_request list"
  sp_ended :: "nat \<Rightarrow> (string + gval) option"
  lro :: "(string, nat) gomap"

definition DefaultBackupExpireDuration :: int where "DefaultBackupExpireDuration = 60 * 60 * second * 24 * 180"
definition sp_ErrMissingProject :: gopanic where "sp_ErrMissingProject = PanicErr ''project required''"
definition sp_ErrMissingLocation :: gopanic where "sp_ErrMissingLocation = PanicErr ''location required''"
definition ErrMissingDB :: gopanic where "ErrMissingDB = PanicErr ''db required''"
definition ErrMissingBackupOpID :: gopanic where "ErrMissingBackupOpID = PanicErr ''backupOpID required''"
definition sp_ErrCreateClient :: gopanic where "sp_ErrCreateClient = PanicErr ''fail to create client''"
definition ErrBackupOpNotFound :: gopanic where "ErrBackupOpNotFound = PanicErr ''backup op not found''"

definition sp_param :: "gopanic \<Rightarrow> gval \<Rightarrow> string \<Rightarrow> string res" where
  "sp_param e params path = (case GetMapDataStr params path of None \<Rightarrow> Inl e | Some s \<Rightarrow> Inr s)"

text \<open>\<open>Format("b20060102030405")\<close>: in the layout \<open>03\<close> is the hour of a clock with twelve hours.\<close>

definition two_digits :: "nat \<Rightarrow> string" where
  "two_digits n = (if n < 10 then ''0'' else []) @ utoa n"

definition backup_id :: "string \<times> nat \<Rightarrow> string" where
  "backup_id t = (case t of (day, s) \<Rightarrow>
     let h = s div 3600 mod 12 in
     ''b'' @ day @ two_digits (if h = 0 then 12 else h) @ two_digits (s div 60 mod 60) @ two_digits (s mod 60))"

definition expire_duration :: "ext \<Rightarrow> gval \<Rightarrow> int res" where
  "expire_duration X params = (case GetMapDataStr params ''expires'' of
      Some (c # cs) \<Rightarrow> (case ext_parse_duration X (c # cs) of None \<Rightarrow> Inl (PanicErr ''time: invalid duration'') | Some d \<Rightarrow> Inr d)
    | _ \<Rightarrow> Inr DefaultBackupExpireDuration)"

text \<open>The request, and the ID of the operation.\<close>

definition backup_spec :: "spanner_env \<Rightarrow> string \<times> nat \<Rightarrow> Message \<Rightarrow> (backup_request \<times> string) res" where
  "backup_spec E now msg =
    rbind (DeserializePayload (sn_ext E) msg) (\<lambda>m. let params = payload_val m in
    rbind (sp_param sp_ErrMissingProject params ''project'') (\<lambda>project.
    rbind (sp_param sp_ErrMissingLocation params ''instance'') (\<lambda>inst.
    rbind (sp_param ErrMissingDB params ''db'') (\<lambda>db.
    rbind (expire_duration (sn_ext E) params) (\<lambda>expires.
    if \<not> sn_client E (case GetMapDataStr params ''service_account'' of None \<Rightarrow> [] | Some s \<Rightarrow> s) then Inl sp_ErrCreateClient
    else Inr (\<lparr>br_Parent = ''projects/'' @ project @ ''/instances/'' @ inst, br_BackupId = backup_id now,
        br_Database = ''projects/'' @ project @ ''/instances/'' @ inst @ ''/databases/'' @ db, br_Expires = expires,
        br_Timeout = (case label m ''timeout'' of None \<Rightarrow> 1800 | Some t \<Rightarrow> fst (atoi_val t))\<rparr>,
      join_on CHR ''_'' [''backup'', project, inst, db, backup_id now]))))))"

text \<open>\<open>created\<close> is whether the service accepts the request.\<close>

definition backup :: "spanner_env \<Rightarrow> (backup_request \<Rightarrow> spanner \<Rightarrow> bool) \<Rightarrow> string \<times> nat \<Rightarrow> Message \<Rightarrow> spanner \<Rightarrow> spanner handled" where
  "backup E created now msg st = with_value st (backup_spec E now msg) (\<lambda>(req, backupOpID).
    if \<not> created req st then failed st (PanicStr ''unable to start the backup'')
    else answer_with (st\<lparr>sp_ops := sp_ops st @ [req], lro := mput backupOpID (length (sp_ops st)) (lro st)\<rparr>)
      (zero_message\<lparr>Payload := PVal (GMap [(''backupOpID'', GStr backupOpID)])\<rparr>))"

text \<open>The wait of the handler ends when the operation has ended; until then there is no run.\<close>

definition waitForBackup :: "spanner_env \<Rightarrow> Message \<Rightarrow> spanner \<Rightarrow> handler_run option" where
  "waitForBackup E msg st = (case rbind (DeserializePayload (sn_ext E) msg) (\<lambda>m. sp_param ErrMissingBackupOpID (payload_val m) ''backupOpID'') of
      Inl e \<Rightarrow> Some \<lparr>replies = [], panics = Some e, late = False\<rparr>
    | Inr backupOpID \<Rightarrow> (case map_of (lro st) backupOpID of
        None \<Rightarrow> Some \<lparr>replies = [], panics = Some ErrBackupOpNotFound, late = False\<rparr>
      | Some i \<Rightarrow> (case sp_ended st i of
          None \<Rightarrow> None
        | Some (Inl e) \<Rightarrow> Some \<lparr>replies = [], panics = Some (PanicErr e), late = False\<rparr>
        | Some (Inr b) \<Rightarrow> Some \<lparr>replies = [zero_message\<lparr>Payload := PVal (GMap [(''backup'', b)])\<rparr>], panics = None, late = False\<rparr>)))"

text \<open>The goroutine of a backup, when its wait is over: by the result of the operation or, as an error, by the time-out.\<close>

definition backup_over :: "string \<Rightarrow> spanner \<Rightarrow> spanner" where
  "backup_over backupOpID st = st\<lparr>lro := mdel backupOpID (lro st)\<rparr>"

inductive spanner_step :: "spanner_env \<Rightarrow> (backup_request \<Rightarrow> spanner \<Rightarrow> bool) \<Rightarrow> spanner \<Rightarrow> spanner \<Rightarrow> bool" for E created where
  start: "spanner_step E created st (fst (backup E created now msg st))"
| ends: "i < length (sp_ops st) \<Longrightarrow> sp_ended st i = None \<Longrightarrow> spanner_step E created st (st\<lparr>sp_ended := (sp_ended st)(i \<mapsto> r)\<rparr>)"
| over: "map_of (lro st) ID = Some i \<Longrightarrow> sp_ended st i \<noteq> None \<Longrightarrow> spanner_step E created st (backup_over ID st)"

definition spanner_init :: "spanner \<Rightarrow> bool" where
  "spanner_init st \<longleftrightarrow> sp_ops st = [] \<and> sp_ended st = Map.empty \<and> lro st = []"

section \<open>Properties\<close>

text \<open>Every entry of \<open>lro\<close> is an operation that was started; only operations that were started have ended.\<close>

definition spanner_inv :: "spanner \<Rightarrow> bool" where
  "spanner_inv st \<longleftrightarrow> (\<forall>ID i. map_of (lro st) ID = Some i \<longrightarrow> i < length (sp_ops st)) \<and> (\<forall>i. sp_ended st i \<noteq> None \<longrightarrow> i < length (sp_ops st))"

lemma backup_result:
  "fst (backup E created now msg st) = st \<or>
   (\<exists>req ID. fst (backup E created now msg st) = st\<lparr>sp_ops := sp_ops st @ [req], lro := mput ID (length (sp_ops st)) (lro st)\<rparr>)"
  by (auto simp: backup_def with_value_def split: sum.splits prod.splits)

lemma spanner_step_inv: "spanner_step E created st st' \<Longrightarrow> spanner_inv st \<Longrightarrow> spanner_inv st'"
proof (induction rule: spanner_step.induct)
  case (start st now msg)
  then show ?case using backup_result [of E created now msg st] by (auto simp: spanner_inv_def less_Suc_eq split: if_splits)
next
  case (ends i st r)
  then show ?case by (auto simp: spanner_inv_def)
next
  case (over st ID i)
  then show ?case by (auto simp: spanner_inv_def backup_over_def split: if_splits)
qed

interpretation sp: step_system spanner_init "spanner_step E created" spanner_inv
  by unfold_locales (simp add: spanner_init_def spanner_inv_def, rule spanner_step_inv)

text \<open>
  Whatever backups start and end, a name that can be waited for belongs to an operation that was
  started, and the wait gives exactly what this operation ends with.
\<close>

theorem wait_gives_result:
  assumes "(spanner_step E created)\<^sup>*\<^sup>* st0 st" and "spanner_init st0" and "DeserializePayload (sn_ext E) msg = Inr m"
    and "GetMapDataStr (payload_val m) ''backupOpID'' = Some ID" and "map_of (lro st) ID = Some i"
  shows "i < length (sp_ops st) \<and> waitForBackup E msg st = (case sp_ended st i of
      None \<Rightarrow> None
    | Some (Inl e) \<Rightarrow> Some \<lparr>replies = [], panics = Some (PanicErr e), late = False\<rparr>
    | Some (Inr b) \<Rightarrow> Some \<lparr>replies = [zero_message\<lparr>Payload := PVal (GMap [(''backup'', b)])\<rparr>], panics = None, late = False\<rparr>)"
  using sp.invariant [OF assms(1,2)] assms(3-5) by (simp add: spanner_inv_def waitForBackup_def sp_param_def)

text \<open>
  A backup that has ended before it is waited for is not found: its goroutine has taken it out, so the
  wait fails although the backup succeeded.
\<close>

theorem ended_backup_not_found:
  assumes "DeserializePayload (sn_ext E) msg = Inr m" and "GetMapDataStr (payload_val m) ''backupOpID'' = Some ID"
    and "map_of (lro st) ID = Some i" and "sp_ended st i = Some (Inr b)"
  shows "spanner_step E created st (backup_over ID st) \<and>
    waitForBackup E msg (backup_over ID st) = Some \<lparr>replies = [], panics = Some ErrBackupOpNotFound, late = False\<rparr>"
  using assms by (auto simp: waitForBackup_def sp_param_def backup_over_def intro: spanner_step.over [unfolded backup_over_def])

text \<open>Two backups of a day, twelve hours apart, have the same ID.\<close>

theorem backup_id_repeats: "backup_id (day, s + 12 * 3600) = backup_id (day, s)"
proof -
  have "(s + 12 * 3600) div 3600 = s div 3600 + 12" "(s + 12 * 3600) div 60 = s div 60 + 12 * 60" by simp_all
  moreover have "(s div 60 + 12 * 60) mod 60 = s div 60 mod 60" "(s + 12 * 3600) mod 60 = s mod 60"
    using mod_mult_self1 [of "s div 60" 12 60] mod_mult_self1 [of s 720 60] by simp_all
  moreover have "(s div 3600 + 12) mod 12 = s div 3600 mod 12" by simp
  ultimately show ?thesis unfolding backup_id_def Let_def prod.case by metis
qed

section \<open>Witnesses\<close>

definition sample_spanner :: spanner where
  "sample_spanner = \<lparr>sp_ops = [], sp_ended = Map.empty, lro = []\<rparr>"

definition spanner_ok :: spanner_env where
  "spanner_ok = \<lparr>sn_ext = no_ext, sn_client = (\<lambda>_. True)\<rparr>"

definition backup_message :: Message where
  "backup_message = zero_message\<lparr>Payload := PVal (GMap [(''project'', GStr ''p''), (''instance'', GStr ''i''), (''db'', GStr ''d'')])\<rparr>"

definition wait_message :: Message where
  "wait_message = zero_message\<lparr>Payload := PVal (GMap [(''backupOpID'', GStr ''backup_p_i_d_b20240101120000'')])\<rparr>"

definition running_backup :: spanner where
  "running_backup = fst (backup spanner_ok (\<lambda>_ _. True) (''20240101'', 0) backup_message sample_spanner)"

lemma running_backup_facts:
  "DeserializePayload (sn_ext spanner_ok) wait_message = Inr wait_message"
  "GetMapDataStr (payload_val wait_message) ''backupOpID'' = Some ''backup_p_i_d_b20240101120000''"
  "map_of (lro running_backup) ''backup_p_i_d_b20240101120000'' = Some 0"
  by code_simp+

theorem wait_gives_result_witness: "waitForBackup spanner_ok wait_message running_backup = None"
proof -
  have "(spanner_step spanner_ok (\<lambda>_ _. True))\<^sup>*\<^sup>* sample_spanner running_backup"
    unfolding running_backup_def by (rule r_into_rtranclp) (rule spanner_step.start)
  moreover have "spanner_init sample_spanner" by (simp add: spanner_init_def sample_spanner_def)
  moreover have "sp_ended running_backup 0 = None"
    using backup_result [of spanner_ok "\<lambda>_ _. True" "(''20240101'', 0)" backup_message sample_spanner] by (auto simp: running_backup_def sample_spanner_def)
  ultimately show ?thesis using wait_gives_result [OF _ _ running_backup_facts] by fastforce
qed

theorem ended_backup_not_found_witness:
  "waitForBackup spanner_ok wait_message (backup_over ''backup_p_i_d_b20240101120000'' (running_backup\<lparr>sp_ended := [0 \<mapsto> Inr GNil]\<rparr>)) =
    Some \<lparr>replies = [], panics = Some ErrBackupOpNotFound, late = False\<rparr>"
  using ended_backup_not_found [OF running_backup_facts(1,2), of "running_backup\<lparr>sp_ended := [0 \<mapsto> Inr GNil]\<rparr>" 0 GNil] running_backup_facts(3) by simp

end
