(* ===== verification/Metrics.thy ===== *)
theory Metrics
  imports DriverProcess Handlers
begin

text \<open>
  The metrics of a service, \<open>CounterIncr\<close>, \<open>GaugeSet\<close> and \<open>metricsLoop\<close> of \<open>internal/service/service.go\<close>, and the driver that
  passes them on, \<open>drivers/cmd/datadog-emitter/main.go\<close>.

  A call without waiting is the name of its method and its parameters; what the goroutine of the call loses is
  not looked at. The connection to the agent is a parameter. \<open>dd_parseFloat\<close> is \<open>strconv.ParseFloat\<close>.
\<close>

section \<open>The service\<close>

definition tag_list :: "string list \<Rightarrow> gval" where
  "tag_list tags = GList (map GStr tags)"

definition CounterIncr :: "string \<Rightarrow> string list \<Rightarrow> string \<times> gval" where
  "CounterIncr name tags = (''counter_increment'', GMap [(''name'', GStr name), (''tags'', tag_list tags)])"

definition GaugeSet :: "string \<Rightarrow> string \<Rightarrow> string list \<Rightarrow> string \<times> gval" where
  "GaugeSet name v tags = (''gauge_set'', GMap [(''name'', GStr name), (''value'', GStr v), (''tags'', tag_list tags)])"

definition count_state :: "dstate \<Rightarrow> Service \<Rightarrow> nat list \<Rightarrow> int" where
  "count_state s sv as = int (length (filter (\<lambda>a. rt_State (sv_heap sv a) = s) as))"

definition driver_gauge :: "Service \<Rightarrow> nat list \<Rightarrow> dstate \<times> string \<Rightarrow> string \<times> gval" where
  "driver_gauge sv as st = GaugeSet ''honey.honeydipper.drivers'' (itoa (count_state (fst st) sv as)) [''service:'' @ sv_name sv, ''state:'' @ snd st]"

definition gauge_states :: "(dstate \<times> string) list" where
  "gauge_states = [(DriverLoading, ''loading''), (DriverAlive, ''alive''), (DriverFailed, ''failed'')]"

text \<open>One round of the loop: the calls for the drivers, when the emitter is alive, and those of the service itself.\<close>

definition metrics_round :: "(string \<times> gval) list res \<Rightarrow> Service \<Rightarrow> (string \<times> gval) list \<times> gopanic option" where
  "metrics_round own sv =
    (let finish = (\<lambda>calls. case own of Inr cs \<Rightarrow> (calls @ cs, None) | Inl e \<Rightarrow> (calls, Some e)) in
     case map_of (sv_runtimes sv) FeatureEmitter of
       None \<Rightarrow> finish []
     | Some None \<Rightarrow> ([], Some NilDereference)
     | Some (Some a) \<Rightarrow>
         if rt_State (sv_heap sv a) \<noteq> DriverAlive then finish []
         else if None \<in> set (map snd (sv_runtimes sv)) then ([], Some NilDereference)
         else finish (map (driver_gauge sv (map (the \<circ> snd) (sv_runtimes sv))) gauge_states))"

section \<open>The driver\<close>

record metric =
  mt_kind :: string
  mt_name :: string
  mt_value :: rat
  mt_tags :: "string list"

record datadog_env =
  dd_ext :: ext
  dd_parseFloat :: "string \<Rightarrow> rat option"
  dd_daemonID :: string
  dd_send :: "metric \<Rightarrow> gopanic option"

record DatadogOptions =
  do_UseHostPort :: bool
  do_StatsdHost :: string
  do_StatsdPort :: string

text \<open>The address of the agent: \<open>decode\<close> is \<open>mapstructure.Decode\<close>, \<open>host_ip\<close> the environment, \<open>connect\<close> the new connection with its first event.\<close>

definition datadog_loadOptions :: "(gval \<Rightarrow> DatadogOptions res) \<Rightarrow> string option \<Rightarrow> (string \<Rightarrow> gopanic option) \<Rightarrow> Driver \<Rightarrow> string res" where
  "datadog_loadOptions decode host_ip connect d = (case GetOption d ''data'' of
      None \<Rightarrow> Inl (PanicStr ''datadog options not found'')
    | Some v \<Rightarrow> rbind (decode v) (\<lambda>opts.
        rbind (if do_UseHostPort opts then (case host_ip of None \<Rightarrow> Inl (PanicStr ''datadog host IP not set'') | Some h \<Rightarrow> Inr h) else Inr (do_StatsdHost opts)) (\<lambda>host.
        let address = host @ '':'' @ do_StatsdPort opts in
        case connect address of Some e \<Rightarrow> Inl e | None \<Rightarrow> Inr address)))"

definition metric_field :: "gmap \<Rightarrow> string \<Rightarrow> string res" where
  "metric_field params name = assert_type (Option.bind (map_of params name) as_str)"

definition metric_tags :: "datadog_env \<Rightarrow> gmap \<Rightarrow> string list res" where
  "metric_tags D params = rbind (assert_type (Option.bind (map_of params ''tags'') as_list)) (\<lambda>ts.
     rmap (Cons (''daemon-id:'' @ dd_daemonID D)) (rmapM (\<lambda>t. assert_type (as_str t)) ts))"

definition metric_params :: "datadog_env \<Rightarrow> Message \<Rightarrow> gmap res" where
  "metric_params D msg = rbind (DeserializePayload (dd_ext D) msg) (\<lambda>m. assert_type (as_map (payload_val m)))"

text \<open>The metric is sent to the agent; there is a reply only if somebody waits for it.\<close>

definition send_metric :: "datadog_env \<Rightarrow> bool \<Rightarrow> metric res \<Rightarrow> metric list \<Rightarrow> metric list handled" where
  "send_metric D wants m sent = with_value sent m (\<lambda>metric. case dd_send D metric of
      Some e \<Rightarrow> failed sent e
    | None \<Rightarrow> (sent @ [metric], \<lparr>replies = (if wants then [zero_message] else []), panics = None, late = False\<rparr>))"

definition counterIncr :: "datadog_env \<Rightarrow> bool \<Rightarrow> Message \<Rightarrow> metric list \<Rightarrow> metric list handled" where
  "counterIncr D wants msg = send_metric D wants (rbind (metric_params D msg) (\<lambda>params. rbind (metric_field params ''name'') (\<lambda>name.
     rmap (\<lambda>tags. \<lparr>mt_kind = ''count'', mt_name = name, mt_value = 1, mt_tags = tags\<rparr>) (metric_tags D params))))"

definition gaugeSet :: "datadog_env \<Rightarrow> bool \<Rightarrow> Message \<Rightarrow> metric list \<Rightarrow> metric list handled" where
  "gaugeSet D wants msg = send_metric D wants (rbind (metric_params D msg) (\<lambda>params. rbind (metric_field params ''name'') (\<lambda>name.
     rbind (rbind (metric_field params ''value'') (\<lambda>s. case dd_parseFloat D s of None \<Rightarrow> Inl (PanicErr ''strconv.ParseFloat'') | Some q \<Rightarrow> Inr q)) (\<lambda>v.
     rmap (\<lambda>tags. \<lparr>mt_kind = ''gauge'', mt_name = name, mt_value = v, mt_tags = tags\<rparr>) (metric_tags D params)))))"

text \<open>A call of the service as the driver sees it.\<close>

definition emit_metric :: "datadog_env \<Rightarrow> string \<times> gval \<Rightarrow> metric list \<Rightarrow> metric list" where
  "emit_metric D call sent = (let msg = zero_message\<lparr>Payload := PVal (snd call)\<rparr> in
     if fst call = ''gauge_set'' then fst (gaugeSet D False msg sent)
     else if fst call = ''counter_increment'' then fst (counterIncr D False msg sent) else sent)"

section \<open>Properties\<close>

lemma strings_back: "rmapM (\<lambda>t. assert_type (as_str t)) (map GStr ts) = Inr ts"
  by (induction ts) simp_all

lemma emit_gauge:
  assumes "dd_parseFloat D s = Some q" and "\<And>m. dd_send D m = None"
  shows "emit_metric D (GaugeSet name s tags) sent = sent @ [\<lparr>mt_kind = ''gauge'', mt_name = name, mt_value = q, mt_tags = (''daemon-id:'' @ dd_daemonID D) # tags\<rparr>]"
  using assms by (simp add: emit_metric_def GaugeSet_def gaugeSet_def send_metric_def metric_params_def metric_field_def metric_tags_def tag_list_def strings_back
      DeserializePayload_def zero_message_def payload_val_def)

text \<open>
  What the agent is told about the drivers of a service is true: with an emitter that is alive and an
  agent that listens, each round reports, for the states loading, alive and failed, exactly the number of
  drivers in that state, under the name of the service and the ID of the daemon.
\<close>

theorem driver_gauges_true:
  assumes "map_of (sv_runtimes sv) FeatureEmitter = Some (Some a)" and "rt_State (sv_heap sv a) = DriverAlive"
    and "None \<notin> set (map snd (sv_runtimes sv))" and "\<And>n. 0 \<le> n \<Longrightarrow> n \<le> int (length (sv_runtimes sv)) \<Longrightarrow> dd_parseFloat D (itoa n) = Some (of_int n)" and "\<And>m. dd_send D m = None"
  shows "fold (emit_metric D) (fst (metrics_round (Inr []) sv)) [] = map (\<lambda>(s, name). \<lparr>mt_kind = ''gauge'', mt_name = ''honey.honeydipper.drivers'',
      mt_value = of_nat (card {i. i < length (sv_runtimes sv) \<and> rt_State (sv_heap sv (the (snd (sv_runtimes sv ! i)))) = s}),
      mt_tags = [''daemon-id:'' @ dd_daemonID D, ''service:'' @ sv_name sv, ''state:'' @ name]\<rparr>) gauge_states"
proof -
  let ?as = "map (the \<circ> snd) (sv_runtimes sv)"
  have count: "count_state s sv ?as = int (card {i. i < length (sv_runtimes sv) \<and> rt_State (sv_heap sv (the (snd (sv_runtimes sv ! i)))) = s})" for s
    by (simp add: count_state_def filter_map length_filter_conv_card comp_def)
  have round: "fst (metrics_round (Inr []) sv) = map (driver_gauge sv ?as) gauge_states"
    using assms(1-3) by (simp add: metrics_round_def Let_def)
  have one: "emit_metric D (driver_gauge sv ?as st) sent = sent @ [\<lparr>mt_kind = ''gauge'', mt_name = ''honey.honeydipper.drivers'', mt_value = of_int (count_state (fst st) sv ?as),
      mt_tags = [''daemon-id:'' @ dd_daemonID D, ''service:'' @ sv_name sv, ''state:'' @ snd st]\<rparr>]" for st sent
    unfolding driver_gauge_def
  proof (rule emit_gauge [OF assms(4,5)])
    show "0 \<le> count_state (fst st) sv ?as" "count_state (fst st) sv ?as \<le> int (length (sv_runtimes sv))"
      using length_filter_le [of "\<lambda>a. rt_State (sv_heap sv a) = fst st" ?as] by (simp_all add: count_state_def)
  qed
  show ?thesis unfolding round gauge_states_def by (simp add: one count)
qed

section \<open>Witnesses\<close>

definition metrics_service :: Service where
  "metrics_service = sample_service\<lparr>sv_name := ''engine'', sv_runtimes := [(''emitter'', Some 0)],
     sv_heap := (\<lambda>_. \<lparr>rt_Data = GNil, rt_DynamicData = GNil, rt_Feature = ''emitter'', rt_Meta = \<lparr>m_Name = ''dd'', m_Type = ''builtin'', m_Executable = [], m_Arguments = [], m_HandlerData = None\<rparr>,
       rt_Service = ''engine'', rt_State = DriverAlive, rt_sent = [], rt_closed = False\<rparr>)\<rparr>"

definition open_agent :: datadog_env where
  "open_agent = \<lparr>dd_ext = no_ext, dd_parseFloat = (\<lambda>s. if s = itoa 1 then Some 1 else if s = itoa 0 then Some 0 else None), dd_daemonID = ''ip'', dd_send = (\<lambda>_. None)\<rparr>"

theorem driver_gauges_true_witness:
  "map mt_value (fold (emit_metric open_agent) (fst (metrics_round (Inr []) metrics_service)) []) = [0, 1, 0]"
proof -
  have parse: "dd_parseFloat open_agent (itoa n) = Some (of_int n)" if "0 \<le> n" "n \<le> int (length (sv_runtimes metrics_service))" for n
  proof -
    have "n = 0 \<or> n = 1" using that by (auto simp: metrics_service_def)
    then show ?thesis by (auto simp: open_agent_def)
  qed
  have "map_of (sv_runtimes metrics_service) FeatureEmitter = Some (Some 0)" "rt_State (sv_heap metrics_service 0) = DriverAlive" "None \<notin> set (map snd (sv_runtimes metrics_service))"
    by (simp_all add: metrics_service_def FeatureEmitter_def)
  from driver_gauges_true [OF this parse] show ?thesis
    by (simp add: gauge_states_def metrics_service_def open_agent_def)
qed

end
