(* ===== verification/AuthIap.thy ===== *)
theory AuthIap
  imports AuthSimple Handlers
begin

text \<open>
  The driver that authenticates web requests that came through the identity-aware proxy of Google,
  \<open>drivers/cmd/auth-gcp-iap/main.go\<close>, and the contract that it shares with \<open>auth-simple\<close> towards the API service.

  \<open>idtoken.Validate\<close> is a parameter: for a token and an audience it gives the claims or an error. The token is
  found by an interpolation without \<open>sysData\<close>, so the bound on second interpolations is 0.
\<close>

section \<open>The driver\<close>

definition iap_pattern :: string where
  "iap_pattern = ''$headers.X-Goog-Iap-Jwt-Assertion.0,headers.x-goog-iap-jwt-assertion.0''"

definition iap_subject :: "ext \<Rightarrow> (string \<Rightarrow> string \<Rightarrow> gmap res) \<Rightarrow> gval \<Rightarrow> gval \<Rightarrow> string res" where
  "iap_subject X validate options req =
    rbind (InterpolateStr X 0 iap_pattern req) (\<lambda>token.
    rbind (MustGetMapDataStr options ''data.audience'') (\<lambda>audience.
    rbind (validate token audience) (\<lambda>claims. MustGetMapDataStr (GMap claims) ''email'')))"

definition iap_authWebRequest :: "ext \<Rightarrow> (string \<Rightarrow> string \<Rightarrow> gmap res) \<Rightarrow> gval \<Rightarrow> Message \<Rightarrow> handler_run" where
  "iap_authWebRequest X validate options msg = snd (with_value ()
    (rbind (DeserializePayload X msg) (\<lambda>m. iap_subject X validate options (payload_val m)))
    (\<lambda>subject. answer_with () (zero_message\<lparr>Payload := PVal (GStr subject)\<rparr>)))"

section \<open>What the API service relies on\<close>

text \<open>The call of the middleware to a provider whose handler runs like \<open>run\<close>; \<open>print\<close> prints a panic.\<close>

definition provider_rpc :: "handler_run \<Rightarrow> string \<Rightarrow> ext \<Rightarrow> (gopanic \<Rightarrow> string) \<Rightarrow> string \<Rightarrow> string \<Rightarrow> string + string option" where
  "provider_rpc run provider X print feature fn =
    (if feature = ''driver:'' @ provider \<and> fn = ''auth_web_request'' then
       (case channel_content print run of
          [] \<Rightarrow> Inl ''timeout''
        | reply # _ \<Rightarrow> (case label reply ''error'' of
            Some reason \<Rightarrow> Inl reason
          | None \<Rightarrow> (case payload_bytes X reply of Inl e \<Rightarrow> Inl (print e) | Inr bs \<Rightarrow> Inr (Some bs))))
     else Inl ''feature not loaded'')"

text \<open>A provider of authentication ends with a panic or answers once, with a subject that has shown who it is.\<close>

locale auth_provider =
  fixes run :: handler_run and proven :: "string \<Rightarrow> bool" and provider :: string
  assumes answers: "(\<exists>e. run = \<lparr>replies = [], panics = Some e, late = False\<rparr>) \<or>
    (\<exists>subject. run = \<lparr>replies = [zero_message\<lparr>Payload := PVal (GStr subject)\<rparr>], panics = None, late = False\<rparr> \<and> proven subject)"
begin

lemma rpc_subject:
  assumes "provider_rpc run provider X print feature fn = Inr (Some bytes)"
  obtains subject where "proven subject" "ext_json_marshal X (GStr subject) = Inr bytes" "feature = ''driver:'' @ provider"
  using answers
proof
  assume "\<exists>e. run = \<lparr>replies = [], panics = Some e, late = False\<rparr>"
  then show thesis using assms by (auto simp: provider_rpc_def channel_content_def error_reply_def label_def labels_def split: if_splits)
next
  assume "\<exists>subject. run = \<lparr>replies = [zero_message\<lparr>Payload := PVal (GStr subject)\<rparr>], panics = None, late = False\<rparr> \<and> proven subject"
  then obtain subject where "run = \<lparr>replies = [zero_message\<lparr>Payload := PVal (GStr subject)\<rparr>], panics = None, late = False\<rparr>" "proven subject" by blast
  then show thesis using assms that [of subject]
    by (auto simp: provider_rpc_def channel_content_def label_def labels_def zero_message_def payload_bytes_def SerializeContent_def split: sum.splits if_splits)
qed

lemma dispatched_proven:
  assumes "serve_request X (provider_rpc run provider X print) enforce broadcast uuid c d st = (st', a)" and "st' \<noteq> st \<or> (\<exists>r. a = Pending r)"
    and "\<forall>s bs. ext_json_marshal X (GStr s) = Inr bs \<longrightarrow> DeserializeContent X bs = Inr (GStr s)"
  shows "\<exists>subject. proven subject \<and> enforce subject (df_Object d) (df_Method d) provider = Inr True"
proof -
  from dispatched_authorized [OF assms(1,2)] obtain fn bytes sub p where
    call: "provider_rpc run provider X print (''driver:'' @ p) fn = Inr (Some bytes)" and dec: "DeserializeContent X bytes = Inr (GStr sub)"
    and allowed: "enforce sub (df_Object d) (df_Method d) p = Inr True" by blast
  from call obtain subject where s: "proven subject" "ext_json_marshal X (GStr subject) = Inr bytes" "''driver:'' @ p = ''driver:'' @ provider"
    by (rule rpc_subject)
  with assms(3) dec have "sub = subject" by auto
  with s allowed show ?thesis by auto
qed

end

text \<open>A subject is proven by a valid token for the audience of the configuration whose claims have its address.\<close>

definition iap_proven :: "ext \<Rightarrow> (string \<Rightarrow> string \<Rightarrow> gmap res) \<Rightarrow> gval \<Rightarrow> Message \<Rightarrow> string \<Rightarrow> bool" where
  "iap_proven X validate options msg subject \<longleftrightarrow> (\<exists>m token audience claims. DeserializePayload X msg = Inr m \<and>
     InterpolateStr X 0 iap_pattern (payload_val m) = Inr token \<and> GetMapDataStr options ''data.audience'' = Some audience \<and>
     validate token audience = Inr claims \<and> GetMapDataStr (GMap claims) ''email'' = Some subject)"

lemma MustGetMapDataStr_Inr: "MustGetMapDataStr v p = Inr s \<longleftrightarrow> GetMapDataStr v p = Some s"
  by (auto simp: MustGetMapDataStr_def GetMapDataStr_def MustGetMapData_def assert_type_def rbind_Inr_conv bind_eq_Some_conv split: option.splits)

lemma iap_subject_proven:
  "DeserializePayload X msg = Inr m \<Longrightarrow> iap_subject X validate options (payload_val m) = Inr subject \<Longrightarrow> iap_proven X validate options msg subject"
  by (auto simp: iap_subject_def iap_proven_def MustGetMapDataStr_Inr rbind_Inr_conv)

interpretation iap: auth_provider "iap_authWebRequest X validate options msg" "iap_proven X validate options msg" "''auth-gcp-iap''"
proof
  show "(\<exists>e. iap_authWebRequest X validate options msg = \<lparr>replies = [], panics = Some e, late = False\<rparr>) \<or>
    (\<exists>subject. iap_authWebRequest X validate options msg = \<lparr>replies = [zero_message\<lparr>Payload := PVal (GStr subject)\<rparr>], panics = None, late = False\<rparr> \<and>
      iap_proven X validate options msg subject)"
  proof (cases "rbind (DeserializePayload X msg) (\<lambda>m. iap_subject X validate options (payload_val m))")
    case (Inl e)
    then show ?thesis by (simp add: iap_authWebRequest_def failed_def)
  next
    case (Inr subject)
    then have "iap_proven X validate options msg subject" by (auto simp: rbind_Inr_conv intro: iap_subject_proven)
    with Inr show ?thesis by (auto simp: iap_authWebRequest_def answer_with_def)
  qed
qed

text \<open>The driver \<open>auth-simple\<close> keeps the contract too.\<close>

definition simple_proven :: "auth_env \<Rightarrow> Message \<Rightarrow> Driver \<Rightarrow> string \<Rightarrow> bool" where
  "simple_proven A msg d subject \<longleftrightarrow> (\<exists>m options. DeserializePayload (ae_ext A) msg = Inr m \<and> options = dv_Options (fst (authWebRequest A msg d)) \<and>
     (token_known A options (payload_val m) subject \<or> user_known A options (payload_val m) subject))"

interpretation si: auth_provider "snd (authWebRequest A msg d)" "simple_proven A msg d" "''auth-simple''"
  using auth_answers [of A msg d "fst (authWebRequest A msg d)" "snd (authWebRequest A msg d)"]
  by unfold_locales (auto simp: simple_proven_def)

section \<open>Properties\<close>

text \<open>
  With the driver \<open>auth-gcp-iap\<close> behind it, the API service dispatches a request only if the request
  carries a token that Google confirms for the audience of the configuration, and the enforcer allows the
  address in its claims the object and the method of the route.
\<close>

theorem api_needs_iap_token:
  assumes "serve_request X (provider_rpc (iap_authWebRequest X validate options msg) ''auth-gcp-iap'' X print) enforce broadcast uuid c d st = (st', a)"
    and "st' \<noteq> st \<or> (\<exists>r. a = Pending r)"
    and "\<forall>s bs. ext_json_marshal X (GStr s) = Inr bs \<longrightarrow> DeserializeContent X bs = Inr (GStr s)"
  shows "\<exists>m token audience claims subject. DeserializePayload X msg = Inr m \<and> InterpolateStr X 0 iap_pattern (payload_val m) = Inr token \<and>
    GetMapDataStr options ''data.audience'' = Some audience \<and> validate token audience = Inr claims \<and>
    GetMapDataStr (GMap claims) ''email'' = Some subject \<and> enforce subject (df_Object d) (df_Method d) ''auth-gcp-iap'' = Inr True"
  using iap.dispatched_proven [OF assms] unfolding iap_proven_def by blast

text \<open>The token is the header of the proxy, in either spelling; a request without it panics.\<close>

theorem iap_token_is_header:
  "InterpolateStr X 0 iap_pattern req = (case first_key req [''headers.X-Goog-Iap-Jwt-Assertion.0'', ''headers.x-goog-iap-jwt-assertion.0''] of
     Some (k, v) \<Rightarrow> Inr (if v = GNil then [] else fmt_v X v) | None \<Rightarrow> Inl (PanicErr ''invalid path''))"
proof -
  let ?ks = "[''headers.X-Goog-Iap-Jwt-Assertion.0'', ''headers.x-goog-iap-jwt-assertion.0'']"
  have "\<forall>k \<in> set ?ks. path_ok k" "literal_str (join_on CHR '','' ?ks)" "literal_str (join_on CHR '','' ?ks @ '','' @ CHR 0x22 # [] @ [CHR 0x22])"
    "CHR 0x22 \<in> set quotes" "join_on CHR '','' ?ks \<noteq> []" "hd (join_on CHR '','' ?ks) \<noteq> CHR ''?''" by code_simp+
  with Interpolate_reference [of ?ks "CHR 0x22" "[]" X 0 req]
  have "Interpolate X 0 (GStr (''$'' @ join_on CHR '','' ?ks)) req = (case first_key req ?ks of Some (k, v) \<Rightarrow> Inr v | None \<Rightarrow> Inl (PanicErr ''invalid path''))"
    by blast
  moreover have "''$'' @ join_on CHR '','' ?ks = iap_pattern" by code_simp
  ultimately show ?thesis by (simp add: InterpolateStr.simps split: option.splits)
qed

section \<open>Witnesses\<close>

definition google :: "string \<Rightarrow> string \<Rightarrow> gmap res" where
  "google token audience = (if token = ''jwt'' \<and> audience = ''backend'' then Inr [(''email'', GStr ''alice'')] else Inl (PanicErr ''idtoken: invalid token''))"

definition iap_options :: gval where
  "iap_options = GMap [(''data'', GMap [(''audience'', GStr ''backend'')])]"

definition iap_call :: Message where
  "iap_call = zero_message\<lparr>Payload := PVal (GMap [(''headers'', GMap [(''X-Goog-Iap-Jwt-Assertion'', GList [GStr ''jwt''])])])\<rparr>"

theorem api_needs_iap_token_witness:
  "\<exists>m token audience. DeserializePayload sample_json iap_call = Inr m \<and> InterpolateStr sample_json 0 iap_pattern (payload_val m) = Inr token \<and>
    GetMapDataStr iap_options ''data.audience'' = Some audience \<and> google token audience = Inr [(''email'', GStr ''alice'')]"
proof -
  let ?call = "provider_rpc (iap_authWebRequest sample_json google iap_options iap_call) ''auth-gcp-iap'' sample_json (\<lambda>_. ''panic'')"
  let ?enforce = "\<lambda>sub obj act provider. Inr (sub = ''alice'' \<and> provider = ''auth-gcp-iap'')"
  let ?st = "sample_store\<lparr>st_config := GMap [(''auth-providers'', GList [GStr ''auth-gcp-iap''])]\<rparr>"
  obtain st' a where run: "serve_request sample_json ?call ?enforce (\<lambda>_. None) ''u9'' sample_ctx (the (map_of GetDefsByName ''eventAdd'')) ?st = (st', a)" by fastforce
  have "(case snd (serve_request sample_json ?call ?enforce (\<lambda>_. None) ''u9'' sample_ctx (the (map_of GetDefsByName ''eventAdd'')) ?st) of
      Pending r \<Rightarrow> True | Status n \<Rightarrow> False)" by code_simp
  with run have p: "\<exists>r. a = Pending r" by (auto split: answer.splits)
  have json: "\<forall>s bs. ext_json_marshal sample_json (GStr s) = Inr bs \<longrightarrow> DeserializeContent sample_json bs = Inr (GStr s)"
    by (simp add: sample_json_def DeserializeContent_def)
  from api_needs_iap_token [OF run disjI2 [OF p] json] show ?thesis by (auto simp: google_def split: if_splits)
qed

end
