(* ===== verification/Spec2Isabelle.thy ===== *)
theory Spec2Isabelle
  imports Command EngineProps Services RepoLoad Staging Runtime Api ConfigCheck Bus Lifecycle DriverProcess RedisDrivers Webhook AuthSimple EngineApi Chat Kubernetes Web Storage Dataflow Pubsub Backends Secrets Gke Retrieval Spanner Metrics AuthIap
begin

text \<open>
  A verification development of Honeydipper, an event-driven orchestration daemon written in Go. Paths
  are relative to \<open>src/\<close>.

  \<^bold>\<open>The program.\<close> A daemon runs several services (\<open>internal/service\<close>): the receiver, the engine, the operator and the
  API service. A service does its work through drivers, separate processes (\<open>drivers/cmd\<close>, on the library \<open>pkg/dipper\<close>)
  that it talks to over pipes with framed messages. All services of a daemon share a configuration that is
  loaded from git repositories (\<open>internal/config\<close>) and reloaded in stages. An event comes in through a driver of the
  receiver, such as the webhook driver; it travels over the event bus, that is the Redis queue, to the engine;
  the engine starts the workflow of every rule that matches it (\<open>internal/workflow\<close>); a workflow calls functions, which go over the bus
  to the operator, are collapsed to an action of a driver there, and come back as returns that continue
  the session. The API service asks the other services over the bus and collects the answers.

  \<^bold>\<open>Data.\<close> \<open>Prelude\<close> has panics (\<open>gopanic\<close>), computations that may panic (\<open>'a res\<close>), Go maps as association lists
  with distinct keys (\<open>gomap\<close>), the string functions of the Go library, and the locales for step systems and
  simulations. \<open>Value\<close> has the values of type \<open>interface{}\<close> (\<open>gval\<close>) and the record \<open>ext\<close> of external code. \<open>Handlers\<close> has the
  outcome of a handler of a driver: its replies and the panic that ends it.

  \<^bold>\<open>The library \<open>pkg/dipper\<close>.\<close>
  \<^item> \<open>IDMap\<close>: \<open>idmap.go\<close>. Insert, lookup and delete; when the search for a free ID ends.
  \<^item> \<open>MapUtils\<close>: \<open>mapUtils.go\<close>. Dotted paths, rewriting, and merging with key modifiers, against the value that the modifiers
    define.
  \<^item> \<open>Condition\<close>: \<open>condition.go\<close>. The matching loops against the declarative meaning of criteria.
  \<^item> \<open>Interpolation\<close>: \<open>interpolation.go\<close>, \<open>encryption.go\<close>. Well-formed results, the order of alternatives, secrets.
  \<^item> \<open>Comm\<close>: \<open>comm.go\<close>. The wire format and its round trip, the locks of the writers.
  \<^item> \<open>Rpc\<close>: \<open>rpc.go\<close>. Calls, returns and time-outs in any order; the round trip of a call over the wire.
  \<^item> \<open>Command\<close>: \<open>commandHandler.go\<close>. Attempts and back-off on 64-bit durations; exactly one answer.
  \<^item> \<open>DriverProcess\<close>: \<open>driver.go\<close>. The main loop with one goroutine per message; composed with \<open>Runtime\<close> over the pipe.

  \<^bold>\<open>Configuration, \<open>internal/config\<close> and \<open>cmd/honeydipper/configcheck.go\<close>.\<close>
  \<^item> \<open>Config\<close>: \<open>schema.go\<close>, \<open>collapsed_trigger.go\<close>, \<open>function_export.go\<close>.
  \<^item> \<open>Paths\<close>, \<open>Traverse\<close>: \<open>file_reference.go\<close> and the traversals of \<open>config.go\<close>; files are read below the root only.
  \<^item> \<open>Loading\<close>: merging and extending systems, assembling repositories; equivalence with the recursive definition of
    extension, termination, and that circular references are merged once.
  \<^item> \<open>RepoLoad\<close>: reading files and repositories with what they include.
  \<^item> \<open>Staging\<close>: the stages that the services pass together; a refinement of an abstract barrier, no lost wake-up.
  \<^item> \<open>ConfigCheck\<close>: the check accepts exactly the sound configurations, and what it accepts resolves at run time.

  \<^bold>\<open>The engine, \<open>internal/workflow\<close>.\<close>
  \<^item> \<open>Session\<close>: \<open>session.go\<close>, \<open>condition.go\<close>. \<open>Engine\<close>: \<open>execute.go\<close>, \<open>continue.go\<close>, \<open>hooks.go\<close>, \<open>store.go\<close>. A session is a record in a heap, the
    store a record with the ID map, what was sent, and the goroutines that have not run yet.
  \<^item> \<open>EngineInv\<close>: the invariant of the store, kept by every operation and by every order of the goroutines.
  \<^item> \<open>EngineProps\<close>: steps, threads, iterations and parallel pools run to the end in the order and number they
    should; completion hands the result to the parent, and so does a panic; hooks and waits.

  \<^bold>\<open>Services, \<open>internal/service\<close>, \<open>internal/driver\<close>, \<open>internal/api\<close>.\<close>
  \<^item> \<open>Services\<close>: the handlers of receiver, engine and operator; which rules an event starts, that no command is dropped.
  \<^item> \<open>Runtime\<close>, \<open>Lifecycle\<close>: the drivers of a service, expected messages, crashes, reloading, draining.
  \<^item> \<open>Api\<close>, \<open>EngineApi\<close>: requests with acknowledgements and results, responses, the calls the engine serves.
  \<^item> \<open>Metrics\<close>: the counters and gauges of a service, with \<open>datadog-emitter\<close> behind them.

  \<^bold>\<open>Drivers, \<open>drivers/cmd\<close> and \<open>drivers/pkg\<close>.\<close>
  \<^item> \<open>Bus\<close>: \<open>redisqueue\<close> and \<open>redispubsub\<close>, composed with the services on both ends: order, return address, API calls.
  \<^item> \<open>RedisDrivers\<close>: \<open>redis-cache\<close> and \<open>redislock\<close>; the cache refines an abstract queue, a lock is exclusive.
  \<^item> \<open>Webhook\<close>, \<open>AuthSimple\<close>, \<open>AuthIap\<close>, \<open>Web\<close>, \<open>Pubsub\<close>: \<open>webhook\<close>, \<open>auth-simple\<close> and \<open>auth-gcp-iap\<close> with the API service, \<open>web\<close>, \<open>gcloud-pubsub\<close>; signatures,
    credentials, forms and tokens, the events that rules ask for.
  \<^item> \<open>Chat\<close> and \<open>Backends\<close>: \<open>drivers/pkg/ai\<close> and the drivers for OpenAI, Gemini and Ollama on it; what a model says
    reaches the user once and in order, and a turn unlocks its conversation.
  \<^item> \<open>Kubernetes\<close> and \<open>Gke\<close>, \<open>Dataflow\<close>, \<open>Storage\<close>, \<open>Spanner\<close>: the drivers for clusters, jobs, files and backups.
  \<^item> \<open>Secrets\<close>: \<open>gcloud-secret\<close>, \<open>gcloud-kms\<close>, \<open>hd-driver-vault\<close>, and how a lookup in a configuration reaches them.
  \<^item> \<open>Retrieval\<close>: \<open>hd-driver-embeddings\<close>, \<open>hd-driver-qdrant\<close>, \<open>gcloud-vectorsearch\<close>.

  \<^bold>\<open>Interfaces.\<close> \<open>id_store\<close> is what the users of the ID map rely on, interpreted on its operations; \<open>mutex_family\<close> the contract of
  the locks of the writers, interpreted on \<open>LockComm\<close> and \<open>UnlockComm\<close>; \<open>step_system\<close> an invariant of a step relation,
  interpreted for the services, the stages, the driver process and the backups; \<open>simulation\<close> extends it by an abstract system and
  is interpreted for the stages and their barrier; \<open>text_backend\<close> is what a driver for a model has to do so that
  text is delivered, interpreted for the three drivers; \<open>auth_provider\<close> is what the API service relies on in a
  driver that authenticates requests, interpreted for both of them.

  \<^bold>\<open>Conventions.\<close>
  \<^item> A panic keeps the updates made before it where later code can see them; the texts of some panics are
    shortened. A nil map is an empty map, except where the code writes to it.
  \<^item> The order in which a map is ranged over is the order of its list or an argument, so a theorem that
    quantifies over it holds for every order.
  \<^item> A goroutine runs as one step, or is split where the theory says so; the order of the steps is open.
  \<^item> Code outside of the repository (template engine, YAML, JSON, regular expressions, Redis, clouds, clocks,
    cryptography) is a parameter; what a theorem needs of it is a hypothesis, which its witness discharges for a concrete
    function. The definitions called \<open>sample\<close> are the inputs of witnesses.

  \<^bold>\<open>Bounds.\<close> Recursion that the configuration can make circular has a bound \<open>n\<close> on the depth of its calls: second
  interpolations (\<open>Interpolate_fuel_mono\<close>: a larger bound changes no result), sources of an event and targets of a function
  (\<open>collapseFunction_ends_iff\<close>: it ends exactly when the targets do), extension of systems (\<open>extendAllSystems_ends\<close>: the depth
  of the extension is enough), assembled repositories and nested workflows (a bound above their
  number or depth is enough). Files that include each other in a circle exceed every bound (\<open>loadFile_circle\<close>, \<open>loadRepo_circle\<close>). In the engine
  \<open>run n\<close> bounds the nesting of calls within one goroutine, and the theorems say how much each needs. The
  search for an ID and the pages of a job list are \<open>partial_function\<close>s; \<open>None\<close> means that they do not return, and there
  are theorems for when they do. IDs, durations and retry counts have the width or range of the code.

  \<^bold>\<open>Not modelled.\<close> Git over SSH (\<open>gitssh.go\<close>), signals, logging, certificates and network helpers (\<open>internal/daemon\<close>, the rest of \<open>pkg/dipper\<close>),
  and the start of processes and pipes: effects of the operating system and thin calls of libraries. The HTTP listener of the API service and the \<open>select\<close> loop
  over the channels of all drivers: their handlers are modelled, and the order in which they are called is open. The gauges of the engine
  and read-only getters. The program entry and the generation of documents (\<open>main.go\<close>, \<open>docgen.go\<close>). The null driver, \<open>gcloud-logging\<close>
  and \<open>dummy\<close>, which log or make one call of a library, and the mocks of the tests.
\<close>

end
